(* ===== verification/Prelude.thy ===== *)
theory Prelude
  imports Complex_Main
begin

text \<open>
  Shared vocabulary of the development: JavaScript strings and the string operations the client
  uses, exact integers, settled promises and thrown values, and the contracts (as locales) that
  the asynchronous controllers of the client share.

  A JavaScript string is a list of UTF-16 code units, each a natural number; a literal is written
  \<open>js ''abc''\<close>. Characters outside ASCII are written as their code unit, e.g. 183 for the
  middle dot.
\<close>

named_theorems js_simps \<open>evaluation of JavaScript library operations\<close>
named_theorems ctl_simps \<open>unfolding of the small private methods of the controllers\<close>

section \<open>Strings\<close>

type_synonym jstring = "nat list"

primrec js :: "string \<Rightarrow> jstring" where
  "js [] = []"
| "js (c # cs) = of_char c # js cs"

text \<open>White space removed by \<^verbatim>\<open>String.prototype.trim\<close>: WhiteSpace and LineTerminator of ECMAScript.\<close>

definition is_space :: "nat \<Rightarrow> bool" where
  "is_space c \<longleftrightarrow> (9 \<le> c \<and> c \<le> 13) \<or> c = 32 \<or> c = 160 \<or> c = 5760 \<or> (8192 \<le> c \<and> c \<le> 8202)
     \<or> c = 8232 \<or> c = 8233 \<or> c = 8239 \<or> c = 8287 \<or> c = 12288 \<or> c = 65279"

definition js_trim :: "jstring \<Rightarrow> jstring" where
  "js_trim s = rev (dropWhile is_space (rev (dropWhile is_space s)))"

text \<open>
  \<^verbatim>\<open>String.prototype.toLowerCase\<close>, per code unit: ASCII, Latin-1 and the three characters of
  the rest of the BMP whose lower case lies in ASCII or Latin-1 (U+0130, U+212A, U+212B). Other
  code units are left as they are. No character outside \<open>0-9a-fA-F\<close> has a lower case that
  consists of \<open>0-9a-f\<close>, so the hexadecimal tests of the client are exact.
\<close>

definition lower_unit :: "nat \<Rightarrow> jstring" where
  "lower_unit c =
     (if 65 \<le> c \<and> c \<le> 90 then [c + 32]
      else if 192 \<le> c \<and> c \<le> 222 \<and> c \<noteq> 215 then [c + 32]
      else if c = 304 then [105, 775]
      else if c = 8490 then [107]
      else if c = 8491 then [229]
      else [c])"

definition js_lower :: "jstring \<Rightarrow> jstring" where
  "js_lower s = concat (map lower_unit s)"

definition is_digit :: "nat \<Rightarrow> bool" where
  "is_digit c \<longleftrightarrow> 48 \<le> c \<and> c \<le> 57"

definition is_hex_lower :: "nat \<Rightarrow> bool" where
  "is_hex_lower c \<longleftrightarrow> is_digit c \<or> (97 \<le> c \<and> c \<le> 102)"

text \<open>The regular expression \<^verbatim>\<open>/^[0-9a-f]{32}$/\<close>.\<close>

definition hex32 :: "jstring \<Rightarrow> bool" where
  "hex32 s \<longleftrightarrow> length s = 32 \<and> list_all is_hex_lower s"

primrec js_startsWith :: "jstring \<Rightarrow> jstring \<Rightarrow> bool" where
  "js_startsWith s [] = True"
| "js_startsWith s (p # ps) = (case s of [] \<Rightarrow> False | c # cs \<Rightarrow> c = p \<and> js_startsWith cs ps)"

text \<open>\<^verbatim>\<open>s.split(c)\<close> for a one-unit separator: always at least one part.\<close>

primrec js_split :: "nat \<Rightarrow> jstring \<Rightarrow> jstring list" where
  "js_split d [] = [[]]"
| "js_split d (c # cs) =
     (if c = d then [] # js_split d cs
      else (case js_split d cs of [] \<Rightarrow> [[c]] | p # ps \<Rightarrow> (c # p) # ps))"

primrec js_join :: "jstring \<Rightarrow> jstring list \<Rightarrow> jstring" where
  "js_join sep [] = []"
| "js_join sep (p # ps) = (if ps = [] then p else p @ sep @ js_join sep ps)"

text \<open>\<^verbatim>\<open>s.slice(-k)\<close> for a positive \<open>k\<close>.\<close>

definition js_slice_last :: "nat \<Rightarrow> jstring \<Rightarrow> jstring" where
  "js_slice_last k s = drop (length s - k) s"

definition js_padStart :: "nat \<Rightarrow> nat \<Rightarrow> jstring \<Rightarrow> jstring" where
  "js_padStart n c s = replicate (n - length s) c @ s"

text \<open>\<^verbatim>\<open>s.replace(/c+$/, "")\<close> for a code unit \<open>c\<close>.\<close>

definition js_strip_end :: "nat \<Rightarrow> jstring \<Rightarrow> jstring" where
  "js_strip_end c s = rev (dropWhile (\<lambda>x. x = c) (rev s))"

definition js_padEnd :: "nat \<Rightarrow> nat \<Rightarrow> jstring \<Rightarrow> jstring" where
  "js_padEnd n c s = s @ replicate (n - length s) c"

text \<open>\<^verbatim>\<open>s.replaceAll(a, b)\<close> for single code units.\<close>

definition js_replace_unit :: "nat \<Rightarrow> nat \<Rightarrow> jstring \<Rightarrow> jstring" where
  "js_replace_unit a b s = map (\<lambda>c. if c = a then b else c) s"

text \<open>Decimal rendering of a non-negative integer and of an integer, and the value of a digit string.\<close>

fun nat_digits :: "nat \<Rightarrow> jstring" where
  "nat_digits n = (if n < 10 then [48 + n] else nat_digits (n div 10) @ [48 + n mod 10])"

declare nat_digits.simps [simp del]

definition int_digits :: "int \<Rightarrow> jstring" where
  "int_digits i = (if i < 0 then 45 # nat_digits (nat (- i)) else nat_digits (nat i))"

definition digits_value :: "jstring \<Rightarrow> nat" where
  "digits_value s = foldl (\<lambda>acc c. acc * 10 + (c - 48)) 0 s"

section \<open>Numbers, thrown values, settled promises\<close>

definition MAX_SAFE_INTEGER :: int where
  "MAX_SAFE_INTEGER = 9007199254740991"

definition isSafeInteger :: "int \<Rightarrow> bool" where
  "isSafeInteger i \<longleftrightarrow> - MAX_SAFE_INTEGER \<le> i \<and> i \<le> MAX_SAFE_INTEGER"

text \<open>\<open>Number.isSafeInteger\<close> on a number that need not be whole.\<close>

definition rat_safe_integer :: "rat \<Rightarrow> bool" where
  "rat_safe_integer q \<longleftrightarrow> of_int \<lfloor>q\<rfloor> = q \<and> isSafeInteger \<lfloor>q\<rfloor>"

text \<open>
  Division of two non-negative safe integers in double precision, \<^verbatim>\<open>a / b\<close>: the pair \<open>(m, k)\<close> is
  the double \<open>m / 2^k\<close>, with \<open>k\<close> the least exponent that gives a 53-bit significand and
  \<open>m\<close> rounded half to even. \<open>js_toFixed d\<close> is \<^verbatim>\<open>toFixed(d)\<close> on it: the integer \<open>n\<close> with
  \<open>n / 10^d\<close> closest to the exact value of the double, the larger one of two.
\<close>

function quotient_exponent :: "nat \<Rightarrow> nat \<Rightarrow> nat \<Rightarrow> nat" where
  "quotient_exponent a b k =
     (if a = 0 \<or> b * 2 ^ 52 \<le> a then k else quotient_exponent (2 * a) b (k + 1))"
  by pat_completeness auto
termination
  by (relation "measure (\<lambda>(a, b, k). b * 2 ^ 52 - a)") auto

declare quotient_exponent.simps [simp del]

definition round_half_even :: "nat \<Rightarrow> nat \<Rightarrow> nat" where
  "round_half_even a b =
     (let q = a div b; r = a mod b
      in if 2 * r < b \<or> (2 * r = b \<and> even q) then q else q + 1)"

definition js_divide :: "nat \<Rightarrow> nat \<Rightarrow> nat \<times> nat" where
  "js_divide a b = (let k = quotient_exponent a b 0 in (round_half_even (a * 2 ^ k) b, k))"

definition js_isInteger :: "nat \<times> nat \<Rightarrow> bool" where
  "js_isInteger x \<longleftrightarrow> fst x mod 2 ^ snd x = 0"

definition js_floor :: "nat \<times> nat \<Rightarrow> nat" where
  "js_floor x = fst x div 2 ^ snd x"

definition js_toFixed :: "nat \<Rightarrow> nat \<times> nat \<Rightarrow> jstring" where
  "js_toFixed d x =
     (let n = (2 * fst x * 10 ^ d + 2 ^ snd x) div 2 ^ (snd x + 1)
      in nat_digits (n div 10 ^ d) @
         (if d = 0 then [] else 46 # js_padStart d 48 (nat_digits (n mod 10 ^ d))))"

text \<open>
  A value thrown by a callee: an \<open>Error\<close> with its message, or any other value, of which only
  the rendering by \<open>String\<close> is used. \<open>errorText\<close> is the function of the same name that every
  controller file declares.
\<close>

datatype thrown = ErrorObject jstring | OtherValue jstring

fun errorText :: "thrown \<Rightarrow> jstring" where
  "errorText (ErrorObject message) = message"
| "errorText (OtherValue rendered) = rendered"

text \<open>
  A number argument that may be \<open>NaN\<close> or infinite. A delay or a clock reading of a controller is a rational number; a number that
  is whole wherever the program makes it is an integer.
\<close>

datatype 'n js_number = Finite 'n | NotFinite

type_synonym jnumber = "int js_number"

type_synonym delay_number = "rat js_number"

text \<open>
  The check every constructor makes on a delay: \<^verbatim>\<open>!Number.isFinite(x) || x <= 0\<close> throws.
\<close>

fun positive_delay :: "delay_number \<Rightarrow> rat option" where
  "positive_delay (Finite i) = (if i \<le> 0 then None else Some i)"
| "positive_delay NotFinite = None"

datatype 'a settled = Fulfilled 'a | Rejected thrown

section \<open>Lemmas on strings\<close>

lemma positive_delay_Some [simp]: "positive_delay n = Some i \<longleftrightarrow> n = Finite i \<and> 0 < i"
  by (cases n) auto

lemma rat_safe_integer_floor:
  assumes "rat_safe_integer q" "\<not> q \<le> 0"
  shows "isSafeInteger \<lfloor>q\<rfloor>" "1 \<le> q"
proof -
  obtain n where "q = of_int n" using assms(1) unfolding rat_safe_integer_def by metis
  then show "1 \<le> q" using assms(2) by simp
  show "isSafeInteger \<lfloor>q\<rfloor>" using assms(1) by (simp add: rat_safe_integer_def)
qed

lemma js_append [simp]: "js (a @ b) = js a @ js b"
  by (induction a) auto

lemma length_js [simp]: "length (js s) = length s"
  by (induction s) auto

lemma dropWhile_last_not: "s \<noteq> [] \<Longrightarrow> \<not> P (last s) \<Longrightarrow> dropWhile P s \<noteq> [] \<and> last (dropWhile P s) = last s"
  by (induction s) auto

lemma js_trim_id: "s = [] \<or> (\<not> is_space (hd s) \<and> \<not> is_space (last s)) \<Longrightarrow> js_trim s = s"
proof -
  assume ends: "s = [] \<or> (\<not> is_space (hd s) \<and> \<not> is_space (last s))"
  then have "dropWhile is_space s = s" by (auto simp: dropWhile_eq_self_iff)
  moreover from ends have "dropWhile is_space (rev s) = rev s"
    by (auto simp: dropWhile_eq_self_iff hd_rev)
  ultimately show ?thesis by (simp add: js_trim_def)
qed

lemma js_trim_ends: "js_trim s \<noteq> [] \<Longrightarrow> \<not> is_space (hd (js_trim s)) \<and> \<not> is_space (last (js_trim s))"
proof -
  let ?t = "dropWhile is_space s"
  let ?u = "dropWhile is_space (rev ?t)"
  assume "js_trim s \<noteq> []"
  then have u: "?u \<noteq> []" by (simp add: js_trim_def)
  then have "\<not> is_space (hd ?u)" by (rule hd_dropWhile)
  moreover have "last ?u = hd ?t"
  proof -
    from u have "rev ?t \<noteq> []" by (metis dropWhile.simps(1))
    then have "\<not> is_space (last (rev ?t))" by (simp add: last_rev hd_dropWhile)
    with \<open>rev ?t \<noteq> []\<close> show ?thesis by (simp add: dropWhile_last_not last_rev)
  qed
  moreover have "\<not> is_space (hd ?t)"
    by (rule hd_dropWhile) (metis u dropWhile.simps(1) rev.simps(1))
  ultimately show ?thesis using u by (simp add: js_trim_def hd_rev last_rev)
qed

lemma js_trim_idem [simp]: "js_trim (js_trim s) = js_trim s"
  using js_trim_ends js_trim_id by blast

lemma set_js_trim: "set (js_trim s) \<subseteq> set s"
  unfolding js_trim_def by (metis set_rev set_dropWhileD subsetI)

lemma is_hex_lower_plain: "is_hex_lower c \<Longrightarrow> lower_unit c = [c] \<and> \<not> is_space c"
  by (auto simp: is_hex_lower_def is_digit_def lower_unit_def is_space_def)

lemma js_lower_hex: "list_all is_hex_lower s \<Longrightarrow> js_lower s = s"
  by (induction s) (auto simp: js_lower_def is_hex_lower_plain)

lemma js_trim_hex: "list_all is_hex_lower s \<Longrightarrow> js_trim s = s"
  by (rule js_trim_id) (cases s; auto simp: is_hex_lower_plain list_all_iff)

lemma hex32_normal [simp]: "hex32 s \<Longrightarrow> js_lower (js_trim s) = s"
  by (simp add: hex32_def js_trim_hex js_lower_hex)

lemma hex32_nonempty: "hex32 s \<Longrightarrow> s \<noteq> []"
  by (auto simp: hex32_def)

lemma lower_unit_idem: "concat (map lower_unit (lower_unit c)) = lower_unit c"
  by (auto simp: lower_unit_def)

lemma js_lower_append: "js_lower (a @ b) = js_lower a @ js_lower b"
  by (simp add: js_lower_def)

lemma js_lower_idem [simp]: "js_lower (js_lower s) = js_lower s"
proof (induction s)
  case Nil
  show ?case by (simp add: js_lower_def)
next
  case (Cons c s)
  have "js_lower (c # s) = lower_unit c @ js_lower s" by (simp add: js_lower_def)
  moreover have "js_lower (lower_unit c) = lower_unit c"
    by (simp add: js_lower_def lower_unit_idem)
  ultimately show ?case using Cons by (simp add: js_lower_append)
qed

lemma js_startsWith_iff: "js_startsWith s p \<longleftrightarrow> take (length p) s = p"
  by (induction p arbitrary: s) (auto split: list.splits)

lemma js_split_nonempty [simp]: "js_split d s \<noteq> []"
  by (induction s) (auto split: list.splits)

lemma js_split_no_sep: "d \<notin> set s \<Longrightarrow> js_split d s = [s]"
  by (induction s) auto

lemma js_split_append: "d \<notin> set a \<Longrightarrow> js_split d (a @ d # b) = a # js_split d b"
  by (induction a) auto

lemma js_join_split: "js_join [d] (js_split d s) = s"
proof (induction s)
  case Nil
  then show ?case by simp
next
  case (Cons c s)
  then show ?case by (cases "js_split d s") (auto split: list.splits)
qed

lemma nat_digits_nonempty [simp]: "nat_digits n \<noteq> []"
  by (subst nat_digits.simps) simp

lemma nat_digits_digit: "c \<in> set (nat_digits n) \<Longrightarrow> is_digit c"
proof (induction n rule: nat_digits.induct)
  case (1 n)
  then show ?case
    by (cases "n < 10") (auto simp: nat_digits.simps[of n] is_digit_def)
qed

lemma digits_value_snoc: "digits_value (s @ [c]) = digits_value s * 10 + (c - 48)"
  by (simp add: digits_value_def)

lemma digits_value_nat_digits [simp]: "digits_value (nat_digits n) = n"
proof (induction n rule: nat_digits.induct)
  case (1 n)
  show ?case
  proof (cases "n < 10")
    case True
    then show ?thesis by (simp add: nat_digits.simps[of n] digits_value_def)
  next
    case False
    with 1 have "digits_value (nat_digits (n div 10)) = n div 10" by simp
    with False show ?thesis by (simp add: nat_digits.simps[of n] digits_value_snoc)
  qed
qed

lemma nat_digits_inj: "nat_digits a = nat_digits b \<longleftrightarrow> a = b"
  by (metis digits_value_nat_digits)

lemma int_digits_units: "c \<in> set (int_digits i) \<Longrightarrow> is_digit c \<or> c = 45"
  by (auto simp: int_digits_def dest: nat_digits_digit split: if_splits)

lemma int_digits_inj: "int_digits a = int_digits b \<longleftrightarrow> a = b"
proof -
  have head: "hd (nat_digits n) \<noteq> 45" for n
    using nat_digits_digit [of "hd (nat_digits n)" n] by (auto simp: is_digit_def)
  have "45 # s \<noteq> nat_digits n" for s n using head [of n] by (metis list.sel(1))
  then show ?thesis
    by (auto simp: int_digits_def nat_digits_inj split: if_splits) metis+
qed

lemma int_digits_no_colon: "58 \<notin> set (int_digits i)"
  using int_digits_units [of 58 i] by (auto simp: is_digit_def)

lemma digits_value_append:
  "digits_value (a @ b) = digits_value a * 10 ^ length b + digits_value b"
proof (induction b rule: rev_induct)
  case Nil
  then show ?case by (simp add: digits_value_def)
next
  case (snoc x b)
  have "digits_value (a @ b @ [x]) = digits_value (a @ b) * 10 + (x - 48)"
    by (metis append_assoc digits_value_snoc)
  with snoc show ?case by (simp add: digits_value_snoc algebra_simps)
qed

lemma digits_value_zeros [simp]: "digits_value (replicate n 48) = 0"
proof (induction n)
  case 0
  then show ?case by (simp add: digits_value_def)
next
  case (Suc n)
  have "replicate (Suc n) (48::nat) = replicate n 48 @ [48]" by (simp add: replicate_append_same)
  with Suc show ?case by (simp only: digits_value_snoc)
qed

lemma length_nat_digits_le: "n < 10 ^ k \<Longrightarrow> 0 < k \<Longrightarrow> length (nat_digits n) \<le> k"
proof (induction n arbitrary: k rule: nat_digits.induct)
  case (1 n)
  show ?case
  proof (cases "n < 10")
    case True
    with 1 show ?thesis by (simp add: nat_digits.simps[of n])
  next
    case False
    obtain j where k: "k = Suc j" using 1(3) by (cases k) auto
    with 1(2) have "n div 10 < 10 ^ j" by auto
    moreover have "0 < j" using False 1(2) k by (cases j) auto
    ultimately have "length (nat_digits (n div 10)) \<le> j" using 1 False by simp
    with False k show ?thesis by (simp add: nat_digits.simps[of n])
  qed
qed

section \<open>Contracts shared by the asynchronous controllers\<close>

text \<open>
  Every controller is a transition system: a step is one public call, one resumption of a suspended
  asynchronous method, or one timer. A property kept by every step holds in every state reached.
\<close>

locale step_invariant =
  fixes step :: "'s \<Rightarrow> 's \<Rightarrow> bool" and inv :: "'s \<Rightarrow> bool"
  assumes step_inv: "step s t \<Longrightarrow> inv s \<Longrightarrow> inv t"
begin

lemma reach_inv: "step\<^sup>*\<^sup>* s t \<Longrightarrow> inv s \<Longrightarrow> inv t"
  by (induction rule: rtranclp_induct) (auto intro: step_inv)

end

text \<open>
  The generation contract: a controller issues a generation to every run, only moves its own
  generation forward, and accepts a completion only for its present generation. A run that was
  superseded stays superseded.
\<close>

locale generation_guard =
  fixes step :: "'s \<Rightarrow> 's \<Rightarrow> bool"
    and gen :: "'s \<Rightarrow> nat"
    and accepts :: "'s \<Rightarrow> nat \<Rightarrow> bool"
  assumes gen_mono: "step s t \<Longrightarrow> gen s \<le> gen t"
    and accepts_gen: "accepts s g \<Longrightarrow> g = gen s"
begin

lemma gen_mono_reach: "step\<^sup>*\<^sup>* s t \<Longrightarrow> gen s \<le> gen t"
  by (induction rule: rtranclp_induct) (auto dest: gen_mono)

lemma superseded_forever:
  assumes "step\<^sup>*\<^sup>* s t" and "g < gen s"
  shows "\<not> accepts t g"
  using gen_mono_reach[OF assms(1)] assms(2) accepts_gen by fastforce

end

text \<open>
  The disposal contract: disposal is final and a disposed controller shows nothing more to its
  listeners. \<open>shown\<close> is the list of notifications delivered so far.
\<close>

locale disposable =
  fixes step :: "'s \<Rightarrow> 's \<Rightarrow> bool"
    and disposed :: "'s \<Rightarrow> bool"
    and shown :: "'s \<Rightarrow> 'n list"
  assumes disposed_step: "step s t \<Longrightarrow> disposed s \<Longrightarrow> disposed t \<and> shown t = shown s"
begin

lemma disposed_forever: "step\<^sup>*\<^sup>* s t \<Longrightarrow> disposed s \<Longrightarrow> disposed t \<and> shown t = shown s"
  by (induction rule: rtranclp_induct) (auto dest: disposed_step)

end

text \<open>A controller with both contracts: an accepted completion also implies that it is not disposed.\<close>

locale generation_owner = generation_guard step gen accepts + disposable step disposed shown
  for step :: "'s \<Rightarrow> 's \<Rightarrow> bool" and gen :: "'s \<Rightarrow> nat" and accepts :: "'s \<Rightarrow> nat \<Rightarrow> bool"
    and disposed :: "'s \<Rightarrow> bool" and shown :: "'s \<Rightarrow> 'n list" +
  assumes accepts_live: "accepts s g \<Longrightarrow> \<not> disposed s"
begin

lemma nothing_accepted_after_dispose: "step\<^sup>*\<^sup>* s t \<Longrightarrow> disposed s \<Longrightarrow> \<not> accepts t g"
  using disposed_forever accepts_live by blast

end

end
