(* ===== verification/JsCollections.thy ===== *)
theory JsCollections
  imports Prelude "HOL-Library.AList" "HOL-Library.List_Lexorder" "HOL-Library.Product_Lexorder" "HOL-Library.Multiset"
begin

text \<open>
  JavaScript collections as the client uses them. A \<open>Map\<close> is an association list in insertion order with
  distinct keys: \<open>set\<close> is \<open>AList.update\<close>, which keeps the place of a present key and appends a new one. A
  \<open>Set\<close> is a list in insertion order. \<open>Array.prototype.sort\<close> is stable; strings are compared by code unit,
  the lexicographic order of lists. The theory holds the laws of the idiom the client groups rows with: look a
  key up, start a group when it is absent, merge into it when it is present.
\<close>

section \<open>Sets, maps and sorting\<close>

definition js_set_add :: "'a \<Rightarrow> 'a list \<Rightarrow> 'a list" where
  "js_set_add x s = (if x \<in> set s then s else s @ [x])"

text \<open>\<^verbatim>\<open>new Set(values)\<close>.\<close>

definition js_set_of :: "'a list \<Rightarrow> 'a list" where
  "js_set_of xs = foldl (\<lambda>s x. js_set_add x s) [] xs"

text \<open>\<^verbatim>\<open>const v = m.get(k); if (v === undefined) m.set(k, first) else m.set(k, merge(v))\<close>.\<close>

definition js_map_upsert :: "'k \<Rightarrow> 'v \<Rightarrow> ('v \<Rightarrow> 'v) \<Rightarrow> ('k \<times> 'v) list \<Rightarrow> ('k \<times> 'v) list" where
  "js_map_upsert k first merge m =
     (case map_of m k of None \<Rightarrow> AList.update k first m | Some v \<Rightarrow> AList.update k (merge v) m)"

text \<open>The reference: every key with the merge of the items that have it, in the order of first occurrence.\<close>

definition group_by :: "('a \<Rightarrow> 'k) \<Rightarrow> ('a \<Rightarrow> 'v) \<Rightarrow> ('v \<Rightarrow> 'a \<Rightarrow> 'v) \<Rightarrow> 'a list \<Rightarrow> ('k \<times> 'v) list" where
  "group_by key start merge xs = foldl (\<lambda>m x. js_map_upsert (key x) (start x) (\<lambda>v. merge v x) m) [] xs"

section \<open>Laws\<close>

lemma set_js_set_add [simp]: "set (js_set_add x s) = insert x (set s)"
  by (auto simp: js_set_add_def)

lemma distinct_js_set_add [simp]: "distinct (js_set_add x s) = distinct s"
  by (auto simp: js_set_add_def)

lemma js_set_of_snoc: "js_set_of (xs @ [x]) = js_set_add x (js_set_of xs)"
  by (simp add: js_set_of_def)

lemma set_js_set_of [simp]: "set (js_set_of xs) = set xs"
  by (induction xs rule: rev_induct) (simp_all add: js_set_of_snoc, simp add: js_set_of_def)

lemma distinct_js_set_of [simp]: "distinct (js_set_of xs)"
  by (induction xs rule: rev_induct) (simp_all add: js_set_of_snoc, simp add: js_set_of_def)

lemma map_of_upsert:
  "map_of (js_map_upsert k v f m) j =
     (if j = k then Some (case map_of m k of None \<Rightarrow> v | Some w \<Rightarrow> f w) else map_of m j)"
  by (auto simp: js_map_upsert_def update_conv' split: option.splits)

lemma keys_upsert: "map fst (js_map_upsert k v f m) = js_set_add k (map fst m)"
  by (auto simp: js_map_upsert_def js_set_add_def update_keys map_of_eq_None_iff image_iff
      split: option.splits dest: map_of_SomeD)

lemma group_by_snoc:
  "group_by key start merge (xs @ [x]) = js_map_upsert (key x) (start x) (\<lambda>v. merge v x) (group_by key start merge xs)"
  by (simp add: group_by_def)

lemma group_by_Nil [simp]: "group_by key start merge [] = []"
  by (simp add: group_by_def)

lemma keys_group_by: "map fst (group_by key start merge xs) = js_set_of (map key xs)"
  by (induction xs rule: rev_induct) (simp_all add: group_by_snoc keys_upsert js_set_of_snoc, simp add: js_set_of_def)

lemma set_keys_group_by [simp]: "fst ` set (group_by key start merge xs) = key ` set xs"
  by (metis keys_group_by list.set_map set_js_set_of)

lemma distinct_group_by [simp]: "distinct (map fst (group_by key start merge xs))"
  by (simp add: keys_group_by)

theorem map_of_group_by:
  "map_of (group_by key start merge xs) k =
     (case filter (\<lambda>x. key x = k) xs of [] \<Rightarrow> None | y # ys \<Rightarrow> Some (foldl merge (start y) ys))"
proof (induction xs rule: rev_induct)
  case (snoc x xs)
  then show ?case
    by (cases "filter (\<lambda>x. key x = k) xs") (auto simp: group_by_snoc map_of_upsert)
qed simp

lemma in_group_by:
  assumes "(k, v) \<in> set (group_by key start merge xs)"
  obtains y ys where "filter (\<lambda>x. key x = k) xs = y # ys" and "v = foldl merge (start y) ys"
proof -
  from assms have "map_of (group_by key start merge xs) k = Some v" by simp
  then show ?thesis using that by (auto simp: map_of_group_by split: list.splits)
qed

text \<open>A count that every new group starts at one and every merge raises by one adds up to the number of items.\<close>

lemma sum_update:
  fixes f :: "'v \<Rightarrow> nat"
  shows "sum_list (map (f \<circ> snd) (AList.update k v m)) + (case map_of m k of None \<Rightarrow> 0 | Some w \<Rightarrow> f w) =
    sum_list (map (f \<circ> snd) m) + f v"
  by (induction m) auto

lemma sum_group_by:
  fixes count :: "'v \<Rightarrow> nat"
  assumes "\<And>x. count (start x) = 1" and "\<And>v x. count (merge v x) = count v + 1"
  shows "sum_list (map (count \<circ> snd) (group_by key start merge xs)) = length xs"
proof (induction xs rule: rev_induct)
  case (snoc x xs)
  let ?m = "group_by key start merge xs"
  have "sum_list (map (count \<circ> snd) (js_map_upsert (key x) (start x) (\<lambda>v. merge v x) ?m)) = sum_list (map (count \<circ> snd) ?m) + 1"
  proof (cases "map_of ?m (key x)")
    case None
    then show ?thesis using sum_update [of count "key x" "start x" ?m] by (simp add: js_map_upsert_def assms)
  next
    case (Some v)
    then show ?thesis using sum_update [of count "key x" "merge v x" ?m] by (simp add: js_map_upsert_def assms)
  qed
  with snoc show ?case by (simp add: group_by_snoc comp_def)
qed simp

text \<open>Sorting the entries of a map by a key that is injective on them gives a strictly ascending list.\<close>

lemma sorted_wrt_less_sort_key:
  assumes "distinct (map f xs)"
  shows "sorted_wrt (<) (map f (sort_key f xs))"
proof -
  have "distinct (map f (sort_key f xs))"
    using assms by (metis mset_map mset_sort mset_eq_imp_distinct_iff)
  then show ?thesis by (simp add: strict_sorted_iff)
qed

text \<open>
  The choice that keeps the item seen first among the best: \<open>better y x\<close> replaces \<open>x\<close> by the later \<open>y\<close>.
  For a strict weak order the result is one of the items and is not beaten by any of them.
\<close>

locale keep_best =
  fixes better :: "'a \<Rightarrow> 'a \<Rightarrow> bool" and keep :: "'a \<Rightarrow> 'a \<Rightarrow> 'a"
  assumes better_asym: "better x y \<Longrightarrow> \<not> better y x"
    and better_weak: "better z y \<Longrightarrow> better z x \<or> better x y"
    and keep_def: "keep x y = (if better y x then y else x)"
begin

lemma foldl_keep_in: "foldl keep x ys \<in> insert x (set ys)"
  by (induction ys arbitrary: x) (auto simp: keep_def)

lemma foldl_keep_best: "z \<in> insert x (set ys) \<Longrightarrow> \<not> better z (foldl keep x ys)"
proof (induction ys arbitrary: x z)
  case Nil
  then show ?case using better_asym [of x x] by auto
next
  case (Cons y ys)
  let ?r = "foldl keep (keep x y) ys"
  have "\<not> better (keep x y) ?r" by (rule Cons.IH) simp
  moreover have "\<not> better z (keep x y)" if "z = x \<or> z = y"
    using that better_asym by (auto simp: keep_def)
  ultimately have "\<not> better z ?r" if "z = x \<or> z = y" using better_weak that by blast
  with Cons.IH [of z "keep x y"] Cons.prems show ?case by auto
qed

end

end
