(* ===== verification/JsText.thy ===== *)
theory JsText
  imports JsCollections
begin

text \<open>
  Text operations shared by the presentation code: search, fixed-point rendering of quotients of integers,
  validity of a \<open>Date\<close>, and the newest-first feed that the activity and radio-trace views both are.
\<close>

section \<open>Rendering and search\<close>

text \<open>\<^verbatim>\<open>s.includes(p)\<close>.\<close>

fun js_includes :: "jstring \<Rightarrow> jstring \<Rightarrow> bool" where
  "js_includes [] p = (p = [])"
| "js_includes (c # s) p = (js_startsWith (c # s) p \<or> js_includes s p)"

text \<open>\<^verbatim>\<open>(n / d).toFixed(k)\<close> for an integer \<open>n\<close> and a positive divisor: the sign is written before the magnitude.\<close>

definition js_ratio_toFixed :: "nat \<Rightarrow> int \<Rightarrow> nat \<Rightarrow> jstring" where
  "js_ratio_toFixed k n d =
     (if n < 0 then 45 # js_toFixed k (js_divide (nat (- n)) d) else js_toFixed k (js_divide (nat n) d))"

text \<open>\<^verbatim>\<open>Number.isNaN(new Date(ms).getTime())\<close> is the negation: the time values of ECMAScript.\<close>

definition js_date_valid :: "int \<Rightarrow> bool" where
  "js_date_valid ms \<longleftrightarrow> \<bar>ms\<bar> \<le> 8640000000000000"

text \<open>
  What depends on the host's locale, as parameters: the formatters \<open>Intl.DateTimeFormat\<close> with medium date and
  time and with short date and medium time, on valid times, \<open>toLocaleLowerCase\<close>, and the collation: the order of
  \<open>localeCompare\<close> is the order of collation keys.
\<close>

record js_host =
  jh_format_medium :: "int \<Rightarrow> jstring"
  jh_format_short :: "int \<Rightarrow> jstring"
  jh_lower :: "jstring \<Rightarrow> jstring"
  jh_collation_key :: "jstring \<Rightarrow> nat list"

abbreviation middle_dot :: jstring where
  "middle_dot \<equiv> [32, 183, 32]"

lemma js_includes_iff: "js_includes s p \<longleftrightarrow> (\<exists>a b. s = a @ p @ b)"
proof (induction s)
  case Nil
  then show ?case by auto
next
  case (Cons c s)
  have "js_startsWith (c # s) p \<longleftrightarrow> (\<exists>b. c # s = p @ b)"
    by (metis js_startsWith_iff append_eq_conv_conj append_take_drop_id)
  with Cons show ?case by (auto simp: Cons_eq_append_conv)
qed

section \<open>Newest-first feeds\<close>

text \<open>
  A feed sorts its rows by descending event number and keeps the rows that pass a test. Both feeds of the client
  have this form; what they promise is proved here once.
\<close>

locale newest_first_feed =
  fixes event_id :: "'e \<Rightarrow> int"
    and sort_newest :: "'e list \<Rightarrow> 'e list"
  assumes sort_newest_eq: "sort_newest xs = sort_key (\<lambda>e. - event_id e) xs"
begin

lemma feed_sorted: "sorted_wrt (\<lambda>a b. event_id a \<ge> event_id b) (filter P (sort_newest xs))"
proof -
  have "sorted (map (\<lambda>e. - event_id e) (sort_newest xs))" by (simp add: sort_newest_eq)
  then have "sorted_wrt (\<lambda>a b. event_id a \<ge> event_id b) (sort_newest xs)" by (simp add: sorted_map)
  then show ?thesis by (rule sorted_wrt_filter)
qed

lemma feed_mset: "mset (filter P (sort_newest xs)) = mset (filter P xs)"
  by (simp add: sort_newest_eq mset_filter)

lemma feed_stable: "filter (\<lambda>e. event_id e = k) (sort_newest xs) = filter (\<lambda>e. event_id e = k) xs"
  using sort_key_stable [of "\<lambda>e. - event_id e" "- k" xs] by (simp add: sort_newest_eq)

lemma feed_strict:
  assumes "distinct (map event_id xs)"
  shows "sorted_wrt (\<lambda>a b. event_id a > event_id b) (filter P (sort_newest xs))"
proof -
  have "distinct (map (\<lambda>e. - event_id e) xs)" using assms by (simp add: distinct_map inj_on_def)
  then have "sorted_wrt (<) (map (\<lambda>e. - event_id e) (sort_newest xs))"
    unfolding sort_newest_eq by (rule sorted_wrt_less_sort_key)
  then have "sorted_wrt (\<lambda>a b. event_id a > event_id b) (sort_newest xs)" by (simp add: sorted_wrt_map)
  then show ?thesis by (rule sorted_wrt_filter)
qed

end

end
