(* ===== verification/NomadBrowser.thy ===== *)
theory NomadBrowser
  imports Prelude
begin

text \<open>
  The NomadNet page browser of \<^verbatim>\<open>clients/appliance/src/lib/nomad-browser.ts\<close>: the class
  \<open>NomadBrowserController\<close> with its private methods. The record \<open>nomad\<close> holds the private fields;
  \<open>tasks\<close> holds the suspended asynchronous methods (a promise of the device client, an armed timer,
  a resolved wait), and \<open>shown\<close> the notifications delivered to listeners. Every \<open>await\<close> of the
  source is a point where a task is added; resuming a task runs the code up to the next \<open>await\<close>.
  Clock readings, generated keys and device responses are arguments of the operations, so a step
  ranges over every behaviour of the environment. Listeners do not call back into the controller.
\<close>

section \<open>Data\<close>

datatype NomadFetchPhase =
  PathLookup | LinkEstablishment | RequestPreparation | AwaitingDispatchConfirmation | AwaitingResponse

datatype NomadFetchFailure =
  FetchNoPath | FetchLink | FetchRequest | FetchTimeout | FetchPageTooLarge | FetchInvalidUtf8
| FetchInternal

datatype NomadFetchStartOutcome = FetchAccepted | FetchReplayed

datatype NomadFetchPollResponse =
  FetchPending NomadFetchPhase | FetchReady jstring | FetchFailed NomadFetchFailure

record NomadFetchStartRequest =
  nfr_destination :: jstring
  nfr_path :: jstring
  nfr_timestamp_unix_ms :: int
  nfr_idempotency_key :: jstring

record NomadFetchStartResponse =
  nfs_id :: jstring
  nfs_outcome :: NomadFetchStartOutcome

record AcceptedFetch =
  af_id :: jstring
  af_outcome :: NomadFetchStartOutcome
  af_phase :: "NomadFetchPhase option"
  af_request :: NomadFetchStartRequest

datatype NomadBrowserState =
  NomadIdle
| NomadInputError jstring jstring jstring \<comment> \<open>destination, error, path\<close>
| NomadStarting NomadFetchStartRequest
| NomadStartError jstring NomadFetchStartRequest
| NomadPending AcceptedFetch
| NomadPollError AcceptedFetch jstring
| NomadTimedOut AcceptedFetch
| NomadReady AcceptedFetch jstring
| NomadFailed AcceptedFetch NomadFetchFailure

datatype nomad_task =
  NAwaitStart nat NomadFetchStartRequest \<comment> \<open>generation, request\<close>
| NAwaitPoll nat AcceptedFetch rat \<comment> \<open>generation, accepted fetch, presentation deadline\<close>
| NAwaitTimer nat nat AcceptedFetch rat rat \<comment> \<open>wait identity, generation, accepted, deadline, delay\<close>
| NAwaitWake nat AcceptedFetch rat bool \<comment> \<open>generation, accepted, deadline, value the wait resolved to\<close>

record nomad =
  nb_pollIntervalMs :: rat
  nb_presentationTimeoutMs :: rat
  nb_cancelWait :: "nat option"
  nb_disposed :: bool
  nb_generation :: nat
  nb_state :: NomadBrowserState
  nb_listeners :: "nat list"
  nb_tasks :: "nomad_task list"
  nb_next_wait :: nat
  nb_shown :: "(nat \<times> NomadBrowserState) list"

definition DEFAULT_NOMAD_PAGE_PATH :: jstring where
  "DEFAULT_NOMAD_PAGE_PATH = js ''/page/index.mu''"

definition NOMAD_POLL_INTERVAL_MS :: rat where
  "NOMAD_POLL_INTERVAL_MS = 1000"

definition NOMAD_PRESENTATION_TIMEOUT_MS :: rat where
  "NOMAD_PRESENTATION_TIMEOUT_MS = 120000"

section \<open>Pure helpers\<close>

fun nomadRequestProvenance :: "NomadBrowserState \<Rightarrow> (jstring \<times> jstring) option" where
  "nomadRequestProvenance (NomadStarting r) = Some (nfr_destination r, nfr_path r)"
| "nomadRequestProvenance (NomadStartError e r) = Some (nfr_destination r, nfr_path r)"
| "nomadRequestProvenance (NomadPending a) = Some (nfr_destination (af_request a), nfr_path (af_request a))"
| "nomadRequestProvenance (NomadPollError a e) = Some (nfr_destination (af_request a), nfr_path (af_request a))"
| "nomadRequestProvenance (NomadTimedOut a) = Some (nfr_destination (af_request a), nfr_path (af_request a))"
| "nomadRequestProvenance (NomadReady a p) = Some (nfr_destination (af_request a), nfr_path (af_request a))"
| "nomadRequestProvenance (NomadFailed a f) = Some (nfr_destination (af_request a), nfr_path (af_request a))"
| "nomadRequestProvenance NomadIdle = None"
| "nomadRequestProvenance (NomadInputError d e p) = None"

definition sameStartSemantics :: "NomadFetchStartRequest \<Rightarrow> jstring \<Rightarrow> jstring \<Rightarrow> bool" where
  "sameStartSemantics request destination path \<longleftrightarrow>
     nfr_destination request = destination \<and> nfr_path request = path"

definition nomadFetchInputError :: "jstring \<Rightarrow> jstring \<Rightarrow> jstring option" where
  "nomadFetchInputError destination path =
     (if \<not> hex32 destination
      then Some (js ''Nomad destination must be exactly 32 hexadecimal characters'')
      else if path = [] \<or> \<not> js_startsWith path (js ''/'') \<or> 0 \<in> set path
      then Some (js ''Nomad path must be absolute, non-empty, and contain no NUL byte'')
      else None)"

definition nomadDestinationHintApplication ::
  "jstring \<Rightarrow> jstring option \<Rightarrow> bool \<Rightarrow> bool \<times> jstring" where
  "nomadDestinationHintApplication currentDestination hint slotOwned =
     (case hint of
        None \<Rightarrow> (False, currentDestination)
      | Some h \<Rightarrow> if slotOwned then (False, currentDestination) else (True, h))"

section \<open>The controller\<close>

definition nomad_new :: "delay_number option \<Rightarrow> delay_number option \<Rightarrow> thrown + nomad" where
  "nomad_new interval timeout =
     (let i = (case interval of None \<Rightarrow> Finite NOMAD_POLL_INTERVAL_MS | Some v \<Rightarrow> v);
          t = (case timeout of None \<Rightarrow> Finite NOMAD_PRESENTATION_TIMEOUT_MS | Some v \<Rightarrow> v)
      in case positive_delay i of
           None \<Rightarrow> Inl (ErrorObject (js ''Nomad poll interval must be positive''))
         | Some pollInterval \<Rightarrow>
           (case positive_delay t of
              None \<Rightarrow> Inl (ErrorObject (js ''Nomad presentation timeout must be positive''))
            | Some presentationTimeout \<Rightarrow>
                Inr \<lparr>nb_pollIntervalMs = pollInterval, nb_presentationTimeoutMs = presentationTimeout,
                     nb_cancelWait = None, nb_disposed = False, nb_generation = 0,
                     nb_state = NomadIdle, nb_listeners = [], nb_tasks = [], nb_next_wait = 0,
                     nb_shown = []\<rparr>))"

definition nomad_isCurrent :: "nomad \<Rightarrow> nat \<Rightarrow> bool" where
  "nomad_isCurrent c g \<longleftrightarrow> \<not> nb_disposed c \<and> g = nb_generation c"

definition nomad_publish :: "NomadBrowserState \<Rightarrow> nomad \<Rightarrow> nomad" where
  "nomad_publish st c =
     (if nb_disposed c then c
      else c\<lparr>nb_state := st, nb_shown := nb_shown c @ map (\<lambda>l. (l, st)) (nb_listeners c)\<rparr>)"

text \<open>\<open>cancelWait\<close> clears the platform timer and resolves the wait to \<open>false\<close>.\<close>

fun nomad_cancel_task :: "nat \<Rightarrow> nomad_task \<Rightarrow> nomad_task" where
  "nomad_cancel_task w (NAwaitTimer w' g a d delay) =
     (if w = w' then NAwaitWake g a d False else NAwaitTimer w' g a d delay)"
| "nomad_cancel_task w t = t"

definition nomad_replaceRun :: "nomad \<Rightarrow> nomad" where
  "nomad_replaceRun c =
     (let c1 = c\<lparr>nb_generation := nb_generation c + 1\<rparr>
      in case nb_cancelWait c1 of
           None \<Rightarrow> c1
         | Some w \<Rightarrow> c1\<lparr>nb_tasks := map (nomad_cancel_task w) (nb_tasks c1), nb_cancelWait := None\<rparr>)"

definition nomad_add_task :: "nomad_task \<Rightarrow> nomad \<Rightarrow> nomad" where
  "nomad_add_task t c = c\<lparr>nb_tasks := nb_tasks c @ [t]\<rparr>"

definition nomad_drop_task :: "nomad_task \<Rightarrow> nomad \<Rightarrow> nomad" where
  "nomad_drop_task t c = c\<lparr>nb_tasks := remove1 t (nb_tasks c)\<rparr>"

text \<open>The private method \<open>wait\<close>: arm the timer and remember how to cancel it.\<close>

definition nomad_wait :: "nat \<Rightarrow> AcceptedFetch \<Rightarrow> rat \<Rightarrow> rat \<Rightarrow> nomad \<Rightarrow> nomad" where
  "nomad_wait g accepted deadline delay c =
     nomad_add_task (NAwaitTimer (nb_next_wait c) g accepted deadline delay)
       (c\<lparr>nb_cancelWait := Some (nb_next_wait c), nb_next_wait := nb_next_wait c + 1\<rparr>)"

text \<open>One turn of the loop of \<open>poll\<close>, up to the request to the device.\<close>

definition nomad_poll_head :: "AcceptedFetch \<Rightarrow> nat \<Rightarrow> rat \<Rightarrow> rat \<Rightarrow> nomad \<Rightarrow> nomad" where
  "nomad_poll_head accepted g deadline now c =
     (if \<not> nomad_isCurrent c g then c
      else if now \<ge> deadline then nomad_publish (NomadTimedOut accepted) c
      else nomad_add_task (NAwaitPoll g accepted deadline) c)"

text \<open>The rest of the turn, once the device request settled. \<open>now1\<close> and \<open>now2\<close> are the two clock readings.\<close>

definition nomad_poll_resume ::
  "nat \<Rightarrow> AcceptedFetch \<Rightarrow> rat \<Rightarrow> NomadFetchPollResponse settled \<Rightarrow> rat \<Rightarrow> rat \<Rightarrow> nomad \<Rightarrow> nomad" where
  "nomad_poll_resume g accepted deadline response now1 now2 c =
     (case response of
        Rejected e \<Rightarrow> if nomad_isCurrent c g then nomad_publish (NomadPollError accepted (errorText e)) c else c
      | Fulfilled r \<Rightarrow>
          if \<not> nomad_isCurrent c g then c
          else (case r of
             FetchReady page \<Rightarrow> nomad_publish (NomadReady accepted page) c
           | FetchFailed failure \<Rightarrow> nomad_publish (NomadFailed accepted failure) c
           | FetchPending phase \<Rightarrow>
               (let accepted' = accepted\<lparr>af_phase := Some phase\<rparr>
                in if now1 \<ge> deadline then nomad_publish (NomadTimedOut accepted') c
                   else nomad_wait g accepted' deadline
                          (min (nb_pollIntervalMs c) (max 1 (deadline - now2)))
                          (nomad_publish (NomadPending accepted') c))))"

definition startRequest :: "NomadFetchStartRequest \<Rightarrow> nomad \<Rightarrow> nomad" where
  "startRequest request c =
     (let c1 = nomad_replaceRun c
      in nomad_add_task (NAwaitStart (nb_generation c1) request) (nomad_publish (NomadStarting request) c1))"

definition startRequest_resume ::
  "nat \<Rightarrow> NomadFetchStartRequest \<Rightarrow> NomadFetchStartResponse settled \<Rightarrow> rat \<Rightarrow> rat \<Rightarrow> nomad \<Rightarrow> nomad" where
  "startRequest_resume g request response now1 now2 c =
     (case response of
        Rejected e \<Rightarrow> if nomad_isCurrent c g then nomad_publish (NomadStartError (errorText e) request) c else c
      | Fulfilled r \<Rightarrow>
          if \<not> nomad_isCurrent c g then c
          else (let accepted = \<lparr>af_id = nfs_id r, af_outcome = nfs_outcome r, af_phase = None,
                                af_request = request\<rparr>
                in nomad_poll_head accepted g (now1 + nb_presentationTimeoutMs c) now2
                     (nomad_publish (NomadPending accepted) c)))"

fun nomad_start_blocked :: "NomadBrowserState \<Rightarrow> bool" where
  "nomad_start_blocked (NomadStarting r) = True"
| "nomad_start_blocked (NomadPending a) = True"
| "nomad_start_blocked (NomadPollError a e) = True"
| "nomad_start_blocked (NomadTimedOut a) = True"
| "nomad_start_blocked s = False"

fun nomad_retained_request :: "NomadBrowserState \<Rightarrow> jstring \<Rightarrow> jstring \<Rightarrow> NomadFetchStartRequest option" where
  "nomad_retained_request (NomadStartError e r) d p = (if sameStartSemantics r d p then Some r else None)"
| "nomad_retained_request s d p = None"

text \<open>\<open>key\<close> is what the injected key generator returns or throws.\<close>

definition nomad_start ::
  "jstring \<Rightarrow> jstring option \<Rightarrow> rat \<Rightarrow> jstring settled \<Rightarrow> nomad \<Rightarrow> nomad" where
  "nomad_start destination path_arg now key c =
     (let path = (case path_arg of None \<Rightarrow> DEFAULT_NOMAD_PAGE_PATH | Some p \<Rightarrow> p) in
      if nb_disposed c \<or> nomad_start_blocked (nb_state c) then c
      else let normalizedDestination = js_lower (js_trim destination) in
      case nomadFetchInputError normalizedDestination path of
        Some e \<Rightarrow> nomad_publish (NomadInputError normalizedDestination e path) (nomad_replaceRun c)
      | None \<Rightarrow>
        (case nomad_retained_request (nb_state c) normalizedDestination path of
           Some r \<Rightarrow> startRequest r c
         | None \<Rightarrow>
           (case key of
              Rejected e \<Rightarrow>
                nomad_publish (NomadInputError normalizedDestination
                  (js ''Nomad request identity could not be created: '' @ errorText e) path)
                  (nomad_replaceRun c)
            | Fulfilled k \<Rightarrow>
                if \<not> rat_safe_integer now \<or> now \<le> 0 \<or> \<not> hex32 (js_lower k)
                then nomad_publish (NomadInputError normalizedDestination
                       (js ''Nomad request identity could not be created'') path) (nomad_replaceRun c)
                else startRequest
                       \<lparr>nfr_destination = normalizedDestination, nfr_path = path,
                        nfr_timestamp_unix_ms = \<lfloor>now\<rfloor>, nfr_idempotency_key = js_lower k\<rparr> c)))"

definition retryStart :: "nomad \<Rightarrow> nomad" where
  "retryStart c =
     (if nb_disposed c then c
      else case nb_state c of NomadStartError e r \<Rightarrow> startRequest r c | _ \<Rightarrow> c)"

fun nomad_retained_fetch :: "NomadBrowserState \<Rightarrow> AcceptedFetch option" where
  "nomad_retained_fetch (NomadPollError a e) = Some a"
| "nomad_retained_fetch (NomadTimedOut a) = Some a"
| "nomad_retained_fetch s = None"

definition resumePolling :: "rat \<Rightarrow> rat \<Rightarrow> nomad \<Rightarrow> nomad" where
  "resumePolling now1 now2 c =
     (if nb_disposed c then c
      else case nomad_retained_fetch (nb_state c) of
        None \<Rightarrow> c
      | Some accepted \<Rightarrow>
          (let c1 = nomad_replaceRun c
           in nomad_poll_head accepted (nb_generation c1) (now1 + nb_presentationTimeoutMs c1) now2
                (nomad_publish (NomadPending accepted) c1)))"

definition abandonRetainedFetch :: "nomad \<Rightarrow> nomad" where
  "abandonRetainedFetch c =
     (if nb_disposed c \<or> nomad_retained_fetch (nb_state c) = None then c
      else nomad_publish NomadIdle (nomad_replaceRun c))"

definition nomad_reset :: "nomad \<Rightarrow> nomad" where
  "nomad_reset c = (if nb_disposed c then c else nomad_publish NomadIdle (nomad_replaceRun c))"

definition nomad_dispose :: "nomad \<Rightarrow> nomad" where
  "nomad_dispose c =
     (if nb_disposed c then c else (nomad_replaceRun (c\<lparr>nb_disposed := True\<rparr>))\<lparr>nb_listeners := []\<rparr>)"

text \<open>\<open>listeners\<close> is an insertion-ordered set: adding a present listener changes nothing.\<close>

definition nomad_subscribe :: "nat \<Rightarrow> nomad \<Rightarrow> nomad" where
  "nomad_subscribe l c =
     (if nb_disposed c then c
      else c\<lparr>nb_listeners := (if l \<in> set (nb_listeners c) then nb_listeners c else nb_listeners c @ [l]),
             nb_shown := nb_shown c @ [(l, nb_state c)]\<rparr>)"

definition nomad_unsubscribe :: "nat \<Rightarrow> nomad \<Rightarrow> nomad" where
  "nomad_unsubscribe l c = c\<lparr>nb_listeners := remove1 l (nb_listeners c)\<rparr>"

text \<open>The platform fires timer \<open>w\<close>: the wait resolves to whether its run is still current.\<close>

definition nomad_timer_fires ::
  "nat \<Rightarrow> nat \<Rightarrow> AcceptedFetch \<Rightarrow> rat \<Rightarrow> rat \<Rightarrow> nomad \<Rightarrow> nomad" where
  "nomad_timer_fires w g accepted deadline delay c =
     (let c1 = nomad_drop_task (NAwaitTimer w g accepted deadline delay) c;
          c2 = c1\<lparr>nb_cancelWait := (if nb_cancelWait c1 = Some w then None else nb_cancelWait c1)\<rparr>
      in nomad_add_task (NAwaitWake g accepted deadline (nomad_isCurrent c2 g)) c2)"

definition nomad_wake_resume :: "nat \<Rightarrow> AcceptedFetch \<Rightarrow> rat \<Rightarrow> bool \<Rightarrow> rat \<Rightarrow> nomad \<Rightarrow> nomad" where
  "nomad_wake_resume g accepted deadline elapsed now c =
     (if elapsed then nomad_poll_head accepted g deadline now c else c)"

section \<open>The transition system\<close>

datatype nomad_event =
  NCallStart jstring "jstring option" rat "jstring settled"
| NCallRetryStart
| NCallResumePolling rat rat
| NCallAbandon
| NCallReset
| NCallDispose
| NCallSubscribe nat
| NCallUnsubscribe nat
| NStartSettles nat NomadFetchStartRequest "NomadFetchStartResponse settled" rat rat
| NPollSettles nat AcceptedFetch rat "NomadFetchPollResponse settled" rat rat
| NTimerFires nat nat AcceptedFetch rat rat
| NWakeResumes nat AcceptedFetch rat bool rat

inductive nomad_step :: "nomad \<Rightarrow> nomad_event \<Rightarrow> nomad \<Rightarrow> bool" where
  call_start: "nomad_step c (NCallStart d p now key) (nomad_start d p now key c)"
| call_retry: "nomad_step c NCallRetryStart (retryStart c)"
| call_resume: "nomad_step c (NCallResumePolling n1 n2) (resumePolling n1 n2 c)"
| call_abandon: "nomad_step c NCallAbandon (abandonRetainedFetch c)"
| call_reset: "nomad_step c NCallReset (nomad_reset c)"
| call_dispose: "nomad_step c NCallDispose (nomad_dispose c)"
| call_subscribe: "nomad_step c (NCallSubscribe l) (nomad_subscribe l c)"
| call_unsubscribe: "nomad_step c (NCallUnsubscribe l) (nomad_unsubscribe l c)"
| start_settles: "NAwaitStart g r \<in> set (nb_tasks c) \<Longrightarrow>
    nomad_step c (NStartSettles g r resp n1 n2)
      (startRequest_resume g r resp n1 n2 (nomad_drop_task (NAwaitStart g r) c))"
| poll_settles: "NAwaitPoll g a d \<in> set (nb_tasks c) \<Longrightarrow>
    nomad_step c (NPollSettles g a d resp n1 n2)
      (nomad_poll_resume g a d resp n1 n2 (nomad_drop_task (NAwaitPoll g a d) c))"
| fires: "NAwaitTimer w g a d delay \<in> set (nb_tasks c) \<Longrightarrow>
    nomad_step c (NTimerFires w g a d delay) (nomad_timer_fires w g a d delay c)"
| wakes: "NAwaitWake g a d e \<in> set (nb_tasks c) \<Longrightarrow>
    nomad_step c (NWakeResumes g a d e now)
      (nomad_wake_resume g a d e now (nomad_drop_task (NAwaitWake g a d e) c))"

definition nomad_trans :: "nomad \<Rightarrow> nomad \<Rightarrow> bool" where
  "nomad_trans c c' \<longleftrightarrow> (\<exists>e. nomad_step c e c')"

section \<open>One run at a time\<close>

fun nomad_task_gen :: "nomad_task \<Rightarrow> nat" where
  "nomad_task_gen (NAwaitStart g r) = g"
| "nomad_task_gen (NAwaitPoll g a d) = g"
| "nomad_task_gen (NAwaitTimer w g a d delay) = g"
| "nomad_task_gen (NAwaitWake g a d e) = g"

text \<open>A live task can still change what is presented: it is of the present run and was not cancelled.\<close>

definition nomad_live :: "nomad \<Rightarrow> nomad_task \<Rightarrow> bool" where
  "nomad_live c t \<longleftrightarrow> nomad_task_gen t = nb_generation c \<and> (\<forall>g a d. t \<noteq> NAwaitWake g a d False)"

definition nomad_live_tasks :: "nomad \<Rightarrow> nomad_task list" where
  "nomad_live_tasks c = filter (nomad_live c) (nb_tasks c)"

fun nomad_task_serves :: "NomadBrowserState \<Rightarrow> nomad_task \<Rightarrow> bool" where
  "nomad_task_serves (NomadStarting r) (NAwaitStart g r') = (r' = r)"
| "nomad_task_serves (NomadPending a) (NAwaitPoll g a' d) = (a' = a)"
| "nomad_task_serves (NomadPending a) (NAwaitTimer w g a' d delay) = (a' = a)"
| "nomad_task_serves (NomadPending a) (NAwaitWake g a' d e) = (a' = a)"
| "nomad_task_serves s t = False"

fun nomad_running :: "NomadBrowserState \<Rightarrow> bool" where
  "nomad_running (NomadStarting r) = True"
| "nomad_running (NomadPending a) = True"
| "nomad_running s = False"

text \<open>
  The invariant: a presentation that says it is running is served by exactly one live task, any
  other presentation and a disposed controller by none; suspended work never belongs to a future
  run; an armed timer belongs to the present run and \<open>cancelWait\<close> can cancel it.
\<close>

definition nomad_served :: "nomad \<Rightarrow> bool" where
  "nomad_served c \<longleftrightarrow>
     (if nomad_running (nb_state c) \<and> \<not> nb_disposed c
      then \<exists>t. nomad_live_tasks c = [t] \<and> nomad_task_serves (nb_state c) t
      else nomad_live_tasks c = [])"

fun nomad_timer_ok :: "nomad \<Rightarrow> nomad_task \<Rightarrow> bool" where
  "nomad_timer_ok c (NAwaitTimer w g a d delay) =
     (g = nb_generation c \<and> nb_cancelWait c = Some w \<and> min 1 (nb_pollIntervalMs c) \<le> delay \<and> delay \<le> nb_pollIntervalMs c)"
| "nomad_timer_ok c t = True"

definition nomad_bounded :: "nomad \<Rightarrow> bool" where
  "nomad_bounded c \<longleftrightarrow>
     0 < nb_pollIntervalMs c \<and>
     (\<forall>t \<in> set (nb_tasks c). nomad_task_gen t \<le> nb_generation c \<and> nomad_timer_ok c t)"

fun nomad_is_timer :: "nomad_task \<Rightarrow> bool" where
  "nomad_is_timer (NAwaitTimer w g a d delay) = True"
| "nomad_is_timer t = False"

definition nomad_cancelable :: "nomad \<Rightarrow> bool" where
  "nomad_cancelable c \<longleftrightarrow>
     (nb_cancelWait c \<noteq> None \<longrightarrow> (\<exists>t \<in> set (nomad_live_tasks c). nomad_is_timer t))"

definition nomad_inv :: "nomad \<Rightarrow> bool" where
  "nomad_inv c \<longleftrightarrow> nomad_bounded c \<and> nomad_served c \<and> nomad_cancelable c"

lemma nomad_publish_simps [simp]:
  "nb_tasks (nomad_publish st c) = nb_tasks c"
  "nb_generation (nomad_publish st c) = nb_generation c"
  "nb_cancelWait (nomad_publish st c) = nb_cancelWait c"
  "nb_disposed (nomad_publish st c) = nb_disposed c"
  "nb_pollIntervalMs (nomad_publish st c) = nb_pollIntervalMs c"
  "nb_presentationTimeoutMs (nomad_publish st c) = nb_presentationTimeoutMs c"
  "nb_next_wait (nomad_publish st c) = nb_next_wait c"
  "nb_listeners (nomad_publish st c) = nb_listeners c"
  "nb_state (nomad_publish st c) = (if nb_disposed c then nb_state c else st)"
  by (simp_all add: nomad_publish_def)

lemma nomad_task_ops_simps [simp]:
  "nb_generation (nomad_add_task t c) = nb_generation c"
  "nb_cancelWait (nomad_add_task t c) = nb_cancelWait c"
  "nb_disposed (nomad_add_task t c) = nb_disposed c"
  "nb_state (nomad_add_task t c) = nb_state c"
  "nb_pollIntervalMs (nomad_add_task t c) = nb_pollIntervalMs c"
  "nb_presentationTimeoutMs (nomad_add_task t c) = nb_presentationTimeoutMs c"
  "nb_shown (nomad_add_task t c) = nb_shown c"
  "nb_tasks (nomad_add_task t c) = nb_tasks c @ [t]"
  "nb_generation (nomad_drop_task t c) = nb_generation c"
  "nb_cancelWait (nomad_drop_task t c) = nb_cancelWait c"
  "nb_disposed (nomad_drop_task t c) = nb_disposed c"
  "nb_state (nomad_drop_task t c) = nb_state c"
  "nb_pollIntervalMs (nomad_drop_task t c) = nb_pollIntervalMs c"
  "nb_presentationTimeoutMs (nomad_drop_task t c) = nb_presentationTimeoutMs c"
  "nb_shown (nomad_drop_task t c) = nb_shown c"
  "nb_tasks (nomad_drop_task t c) = remove1 t (nb_tasks c)"
  by (simp_all add: nomad_add_task_def nomad_drop_task_def)

lemma nomad_replaceRun_simps [simp]:
  "nb_generation (nomad_replaceRun c) = Suc (nb_generation c)"
  "nb_disposed (nomad_replaceRun c) = nb_disposed c"
  "nb_cancelWait (nomad_replaceRun c) = None"
  "nb_state (nomad_replaceRun c) = nb_state c"
  "nb_shown (nomad_replaceRun c) = nb_shown c"
  "nb_listeners (nomad_replaceRun c) = nb_listeners c"
  "nb_pollIntervalMs (nomad_replaceRun c) = nb_pollIntervalMs c"
  "nb_presentationTimeoutMs (nomad_replaceRun c) = nb_presentationTimeoutMs c"
  by (auto simp: nomad_replaceRun_def Let_def split: option.splits)

lemma nomad_timer_ok_cong [simp]:
  "nomad_timer_ok (nomad_publish st c) t = nomad_timer_ok c t"
  "nomad_timer_ok (nomad_add_task u c) t = nomad_timer_ok c t"
  "nomad_timer_ok (nomad_drop_task u c) t = nomad_timer_ok c t"
  by (cases t; simp)+

lemma nomad_live_cong [simp]:
  "nomad_live (nomad_publish st c) = nomad_live c"
  "nomad_live (nomad_add_task u c) = nomad_live c"
  "nomad_live (nomad_drop_task u c) = nomad_live c"
  by (auto simp: nomad_live_def fun_eq_iff)

lemma nomad_live_tasks_simps [simp]:
  "nomad_live_tasks (nomad_publish st c) = nomad_live_tasks c"
  "nomad_live_tasks (nomad_add_task t c) =
     nomad_live_tasks c @ (if nomad_live c t then [t] else [])"
  "nomad_live_tasks (nomad_drop_task t c) = remove1 t (nomad_live_tasks c)"
  by (auto simp: nomad_live_tasks_def filter_remove1)

lemma nomad_bounded_simps [simp]:
  "nomad_bounded (nomad_publish st c) = nomad_bounded c"
  "nomad_bounded (nomad_add_task t c) \<longleftrightarrow>
     nomad_bounded c \<and> nomad_task_gen t \<le> nb_generation c \<and> nomad_timer_ok c t"
  by (auto simp: nomad_bounded_def)

lemma nomad_bounded_drop [intro]: "nomad_bounded c \<Longrightarrow> nomad_bounded (nomad_drop_task t c)"
  by (auto simp: nomad_bounded_def dest: notin_set_remove1 [THEN contrapos_nn])

lemma nomad_cancel_task_gen [simp]: "nomad_task_gen (nomad_cancel_task w t) = nomad_task_gen t"
  by (cases t) auto

lemma nomad_replaceRun_tasks:
  assumes "nomad_bounded c" and "t \<in> set (nb_tasks (nomad_replaceRun c))"
  shows "nomad_task_gen t \<le> nb_generation c \<and> (\<forall>w g a d delay. t \<noteq> NAwaitTimer w g a d delay)"
proof (cases "nb_cancelWait c")
  case None
  with assms have "t \<in> set (nb_tasks c)" by (simp add: nomad_replaceRun_def)
  with assms(1) None show ?thesis by (cases t) (auto simp: nomad_bounded_def)
next
  case (Some w)
  with assms(2) obtain u where u: "u \<in> set (nb_tasks c)" and t: "t = nomad_cancel_task w u"
    by (auto simp: nomad_replaceRun_def)
  with assms(1) Some show ?thesis by (cases u) (auto simp: nomad_bounded_def)
qed

lemma nomad_replaceRun_bounded [intro]: "nomad_bounded c \<Longrightarrow> nomad_bounded (nomad_replaceRun c)"
proof -
  assume b: "nomad_bounded c"
  have "nomad_timer_ok (nomad_replaceRun c) t" if "t \<in> set (nb_tasks (nomad_replaceRun c))" for t
    using nomad_replaceRun_tasks [OF b that] by (cases t) auto
  then show ?thesis
    using b nomad_replaceRun_tasks [OF b] by (auto simp: nomad_bounded_def le_SucI)
qed

lemma nomad_replaceRun_idle [simp]:
  "nomad_bounded c \<Longrightarrow> nomad_live_tasks (nomad_replaceRun c) = []"
  using nomad_replaceRun_tasks by (fastforce simp: nomad_live_tasks_def nomad_live_def filter_empty_conv)

text \<open>Either the resumed task is the one live task of the run, or dropping it changes nothing.\<close>

lemma nomad_current_task:
  assumes "nomad_inv c" and "t \<in> set (nb_tasks c)" and "nomad_isCurrent c (nomad_task_gen t)"
    and "\<forall>g a d. t \<noteq> NAwaitWake g a d False"
  shows "nomad_live_tasks c = [t]" and "nomad_task_serves (nb_state c) t" and "\<not> nb_disposed c"
    and "\<not> nomad_is_timer t \<Longrightarrow> nb_cancelWait c = None"
proof -
  have "t \<in> set (nomad_live_tasks c)"
    using assms(2-4) by (simp add: nomad_live_tasks_def nomad_live_def nomad_isCurrent_def)
  moreover show "\<not> nb_disposed c" using assms(3) by (simp add: nomad_isCurrent_def)
  ultimately show live: "nomad_live_tasks c = [t]" and "nomad_task_serves (nb_state c) t"
    using assms(1) by (auto simp: nomad_inv_def nomad_served_def split: if_splits)
  show "nb_cancelWait c = None" if "\<not> nomad_is_timer t"
    using assms(1) live that by (auto simp: nomad_inv_def nomad_cancelable_def)
qed

lemma nomad_stale_task:
  assumes "nomad_inv c" and "\<not> nomad_isCurrent c (nomad_task_gen t) \<or> (\<exists>g a d. t = NAwaitWake g a d False)"
  shows "nomad_inv (nomad_drop_task t c)"
proof -
  have "t \<notin> set (nomad_live_tasks c) \<or> nomad_live_tasks c = []"
    using assms by (auto simp: nomad_inv_def nomad_served_def nomad_live_tasks_def nomad_live_def
        nomad_isCurrent_def split: if_splits)
  then have "remove1 t (nomad_live_tasks c) = nomad_live_tasks c"
    by (auto simp: remove1_idem)
  with assms(1) show ?thesis by (auto simp: nomad_inv_def nomad_served_def nomad_cancelable_def)
qed

text \<open>Between two runs: nothing live, nothing to cancel.\<close>

definition nomad_quiet :: "nomad \<Rightarrow> bool" where
  "nomad_quiet c \<longleftrightarrow> nomad_bounded c \<and> nomad_live_tasks c = [] \<and> nb_cancelWait c = None"

lemma nomad_quiet_publish [simp]: "nomad_quiet (nomad_publish st c) = nomad_quiet c"
  by (simp add: nomad_quiet_def)

lemma nomad_quiet_replaceRun [simp]: "nomad_inv c \<Longrightarrow> nomad_quiet (nomad_replaceRun c)"
  by (auto simp: nomad_quiet_def nomad_inv_def)

lemma nomad_quiet_drop:
  assumes "nomad_inv c" and "t \<in> set (nb_tasks c)" and "nomad_isCurrent c (nomad_task_gen t)"
    and "\<forall>g a d. t \<noteq> NAwaitWake g a d False" and "\<not> nomad_is_timer t"
  shows "nomad_quiet (nomad_drop_task t c)"
  using nomad_current_task [OF assms(1-4)] assms(1,5) by (auto simp: nomad_quiet_def nomad_inv_def)

lemma nomad_settled_inv:
  assumes "nomad_quiet c" and "\<not> nomad_running st"
  shows "nomad_inv (nomad_publish st c)"
  using assms by (auto simp: nomad_inv_def nomad_served_def nomad_quiet_def nomad_cancelable_def)

lemma nomad_poll_head_inv:
  assumes "nomad_quiet c" and "nb_state c = NomadPending a" and "nomad_isCurrent c g"
  shows "nomad_inv (nomad_poll_head a g d now c)"
proof (cases "now \<ge> d")
  case True
  with assms show ?thesis by (simp add: nomad_poll_head_def nomad_settled_inv)
next
  case False
  with assms show ?thesis
    by (auto simp: nomad_poll_head_def nomad_inv_def nomad_served_def nomad_isCurrent_def
        nomad_live_def nomad_quiet_def nomad_cancelable_def)
qed

lemma nomad_wait_inv:
  assumes "nomad_quiet c" and "nb_state c = NomadPending a" and "nomad_isCurrent c g"
    and "min 1 (nb_pollIntervalMs c) \<le> delay" and "delay \<le> nb_pollIntervalMs c"
  shows "nomad_inv (nomad_wait g a d delay c)"
proof -
  let ?t = "NAwaitTimer (nb_next_wait c) g a d delay"
  have no_timer: "\<forall>t \<in> set (nb_tasks c). \<not> nomad_is_timer t"
    using assms(1) by (auto simp: nomad_quiet_def nomad_bounded_def elim!: nomad_is_timer.elims)
  then have "nomad_bounded (nomad_wait g a d delay c)"
    using assms by (auto simp: nomad_wait_def nomad_bounded_def nomad_isCurrent_def nomad_quiet_def
        elim!: nomad_timer_ok.elims)
  moreover have "nomad_live_tasks (nomad_wait g a d delay c) = [?t]"
    using assms(1,3)
    by (auto simp: nomad_wait_def nomad_live_tasks_def nomad_live_def nomad_isCurrent_def
        nomad_quiet_def filter_empty_conv)
  ultimately show ?thesis
    using assms(2,3)
    by (simp add: nomad_inv_def nomad_served_def nomad_isCurrent_def nomad_cancelable_def nomad_wait_def)
qed

lemma nomad_startRequest_inv: "nomad_inv c \<Longrightarrow> \<not> nb_disposed c \<Longrightarrow> nomad_inv (startRequest r c)"
  using nomad_quiet_replaceRun [of c]
  by (auto simp: startRequest_def Let_def nomad_inv_def [of "nomad_add_task _ _"] nomad_served_def
      nomad_live_def nomad_quiet_def nomad_cancelable_def)

lemma nomad_start_inv: "nomad_inv c \<Longrightarrow> nomad_inv (nomad_start d p now key c)"
  by (auto simp: nomad_start_def Let_def intro!: nomad_startRequest_inv nomad_settled_inv
      split: option.splits settled.splits)

lemma nomad_retry_inv: "nomad_inv c \<Longrightarrow> nomad_inv (retryStart c)"
  by (auto simp: retryStart_def intro!: nomad_startRequest_inv split: NomadBrowserState.splits)

lemma nomad_resume_inv: "nomad_inv c \<Longrightarrow> nomad_inv (resumePolling n1 n2 c)"
  by (auto simp: resumePolling_def Let_def nomad_isCurrent_def intro!: nomad_poll_head_inv
      split: option.splits)

lemma nomad_abandon_inv: "nomad_inv c \<Longrightarrow> nomad_inv (abandonRetainedFetch c)"
  by (auto simp: abandonRetainedFetch_def intro!: nomad_settled_inv)

lemma nomad_reset_inv: "nomad_inv c \<Longrightarrow> nomad_inv (nomad_reset c)"
  by (auto simp: nomad_reset_def intro!: nomad_settled_inv)

lemma nomad_fields_inv:
  assumes "nomad_inv c" and "nb_tasks c' = nb_tasks c" and "nb_generation c' = nb_generation c"
    and "nb_cancelWait c' = nb_cancelWait c" and "nb_pollIntervalMs c' = nb_pollIntervalMs c"
    and "nb_state c' = nb_state c" and "nb_disposed c' = nb_disposed c"
  shows "nomad_inv c'"
proof -
  have "nomad_live c' = nomad_live c" by (simp add: fun_eq_iff nomad_live_def assms)
  then have "nomad_live_tasks c' = nomad_live_tasks c" by (simp add: nomad_live_tasks_def assms)
  moreover have "nomad_timer_ok c' t = nomad_timer_ok c t" for t by (cases t) (simp_all add: assms)
  ultimately show ?thesis
    using assms by (simp add: nomad_inv_def nomad_bounded_def nomad_served_def nomad_cancelable_def)
qed

lemma nomad_dispose_inv:
  assumes inv: "nomad_inv c"
  shows "nomad_inv (nomad_dispose c)"
proof (cases "nb_disposed c")
  case True
  with inv show ?thesis by (simp add: nomad_dispose_def)
next
  case False
  from inv have "nomad_bounded (c\<lparr>nb_disposed := True\<rparr>)"
    by (auto simp: nomad_inv_def nomad_bounded_def elim!: nomad_timer_ok.elims)
  then have "nomad_inv (nomad_replaceRun (c\<lparr>nb_disposed := True\<rparr>))"
    by (auto simp: nomad_inv_def nomad_served_def nomad_cancelable_def)
  then show ?thesis
    using False by (auto simp: nomad_dispose_def intro: nomad_fields_inv)
qed

lemma nomad_subscribe_inv: "nomad_inv c \<Longrightarrow> nomad_inv (nomad_subscribe l c)"
  by (auto simp: nomad_subscribe_def intro: nomad_fields_inv)

lemma nomad_unsubscribe_inv: "nomad_inv c \<Longrightarrow> nomad_inv (nomad_unsubscribe l c)"
  by (auto simp: nomad_unsubscribe_def intro: nomad_fields_inv)

lemma nomad_start_settles_inv:
  assumes "nomad_inv c" and "NAwaitStart g r \<in> set (nb_tasks c)"
  shows "nomad_inv (startRequest_resume g r resp n1 n2 (nomad_drop_task (NAwaitStart g r) c))"
proof (cases "nomad_isCurrent c g")
  case True
  with assms have "nomad_quiet (nomad_drop_task (NAwaitStart g r) c)"
    by (intro nomad_quiet_drop) auto
  with True show ?thesis
    by (auto simp: startRequest_resume_def Let_def nomad_isCurrent_def
        intro!: nomad_settled_inv nomad_poll_head_inv split: settled.splits)
next
  case False
  with assms have "nomad_inv (nomad_drop_task (NAwaitStart g r) c)"
    by (intro nomad_stale_task) auto
  with False show ?thesis
    by (auto simp: startRequest_resume_def nomad_isCurrent_def split: settled.splits)
qed

lemma nomad_poll_settles_inv:
  assumes "nomad_inv c" and "NAwaitPoll g a d \<in> set (nb_tasks c)"
  shows "nomad_inv (nomad_poll_resume g a d resp n1 n2 (nomad_drop_task (NAwaitPoll g a d) c))"
proof (cases "nomad_isCurrent c g")
  case True
  with assms have "nomad_quiet (nomad_drop_task (NAwaitPoll g a d) c)"
    by (intro nomad_quiet_drop) auto
  moreover have "min 1 (nb_pollIntervalMs c) \<le> min (nb_pollIntervalMs c) (max 1 (d - n2))"
    by (simp add: min_le_iff_disj)
  ultimately show ?thesis
    using True by (auto simp: nomad_poll_resume_def Let_def nomad_isCurrent_def
        intro!: nomad_settled_inv nomad_wait_inv split: settled.splits NomadFetchPollResponse.splits)
next
  case False
  with assms have "nomad_inv (nomad_drop_task (NAwaitPoll g a d) c)"
    by (intro nomad_stale_task) auto
  with False show ?thesis
    by (auto simp: nomad_poll_resume_def nomad_isCurrent_def split: settled.splits)
qed

lemma nomad_timer_inv:
  assumes "nomad_inv c" and t: "NAwaitTimer w g a d delay \<in> set (nb_tasks c)"
  shows "nomad_inv (nomad_timer_fires w g a d delay c)"
proof -
  let ?t = "NAwaitTimer w g a d delay"
  let ?c2 = "(nomad_drop_task ?t c)\<lparr>nb_cancelWait := None\<rparr>"
  have ok: "g = nb_generation c" "nb_cancelWait c = Some w"
    using assms by (auto simp: nomad_inv_def nomad_bounded_def)
  then have fires: "nomad_timer_fires w g a d delay c =
      nomad_add_task (NAwaitWake g a d (nomad_isCurrent ?c2 g)) ?c2"
    by (simp add: nomad_timer_fires_def Let_def)
  have live_t: "?t \<in> set (nomad_live_tasks c)"
    using ok t by (simp add: nomad_live_tasks_def nomad_live_def)
  with assms(1) have nd: "\<not> nb_disposed c" and live: "nomad_live_tasks c = [?t]"
    and serves: "nomad_task_serves (nb_state c) ?t"
    by (auto simp: nomad_inv_def nomad_served_def split: if_splits)
  have "\<not> nomad_is_timer u" if "u \<in> set (remove1 ?t (nb_tasks c))" for u
  proof
    assume "nomad_is_timer u"
    moreover have "u \<in> set (nb_tasks c)" using that set_remove1_subset by fastforce
    ultimately have "u \<in> set (nomad_live_tasks (nomad_drop_task ?t c))"
      using that assms(1) by (cases u) (auto simp: nomad_live_tasks_def nomad_live_def nomad_inv_def nomad_bounded_def)
    with live show False by simp
  qed
  then have "nomad_bounded ?c2"
    using assms(1) set_remove1_subset [of ?t "nb_tasks c"]
    by (fastforce simp: nomad_inv_def nomad_bounded_def elim!: nomad_timer_ok.elims)
  moreover have "nomad_live_tasks ?c2 = []"
    using live by (simp add: nomad_live_tasks_def nomad_live_def [abs_def] filter_remove1)
  ultimately have "nomad_quiet ?c2" by (simp add: nomad_quiet_def)
  with nd ok serves show ?thesis
    unfolding fires
    by (cases "nb_state c")
      (auto simp: nomad_inv_def nomad_served_def nomad_cancelable_def nomad_isCurrent_def
        nomad_live_def nomad_quiet_def)
qed

lemma nomad_wake_inv:
  assumes "nomad_inv c" and "NAwaitWake g a d e \<in> set (nb_tasks c)"
  shows "nomad_inv (nomad_wake_resume g a d e now (nomad_drop_task (NAwaitWake g a d e) c))"
proof (cases "e \<and> nomad_isCurrent c g")
  case True
  with assms have "nomad_quiet (nomad_drop_task (NAwaitWake g a d e) c)"
    and "nomad_task_serves (nb_state c) (NAwaitWake g a d e)"
    using nomad_current_task [of c "NAwaitWake g a d e"] by (auto intro!: nomad_quiet_drop)
  with True show ?thesis
    by (cases "nb_state c") (auto simp: nomad_wake_resume_def nomad_isCurrent_def intro!: nomad_poll_head_inv)
next
  case False
  with assms have "nomad_inv (nomad_drop_task (NAwaitWake g a d e) c)"
    by (intro nomad_stale_task) auto
  with False show ?thesis
    by (auto simp: nomad_wake_resume_def nomad_poll_head_def nomad_isCurrent_def)
qed

lemmas nomad_op_invs =
  nomad_start_inv nomad_retry_inv nomad_resume_inv nomad_abandon_inv nomad_reset_inv
  nomad_dispose_inv nomad_subscribe_inv nomad_unsubscribe_inv nomad_start_settles_inv
  nomad_poll_settles_inv nomad_timer_inv nomad_wake_inv

lemma nomad_step_inv: "nomad_step c e c' \<Longrightarrow> nomad_inv c \<Longrightarrow> nomad_inv c'"
  by (induction rule: nomad_step.induct) (auto intro: nomad_op_invs)

lemma nomad_new_inv: "nomad_new i t = Inr c \<Longrightarrow> nomad_inv c"
  by (auto simp: nomad_new_def Let_def nomad_inv_def nomad_bounded_def nomad_served_def
      nomad_cancelable_def nomad_live_tasks_def split: option.splits)

interpretation nomad_sys: step_invariant nomad_trans nomad_inv
  by unfold_locales (auto simp: nomad_trans_def intro: nomad_step_inv)

section \<open>Generations, disposal\<close>

lemma nomad_publish_disposed: "nb_disposed c \<Longrightarrow> nomad_publish st c = c"
  by (simp add: nomad_publish_def)

lemma nomad_poll_head_gen [simp]: "nb_generation (nomad_poll_head a g d now c) = nb_generation c"
  by (simp add: nomad_poll_head_def)

lemma nomad_step_gen: "nomad_step c e c' \<Longrightarrow> nb_generation c \<le> nb_generation c'"
  by (induction rule: nomad_step.induct)
    (auto simp: nomad_start_def Let_def startRequest_def retryStart_def resumePolling_def
      abandonRetainedFetch_def nomad_reset_def nomad_dispose_def nomad_subscribe_def
      nomad_unsubscribe_def startRequest_resume_def nomad_poll_resume_def nomad_wait_def
      nomad_timer_fires_def nomad_wake_resume_def
      split: option.splits settled.splits NomadBrowserState.splits NomadFetchPollResponse.splits)

lemma nomad_step_disposed:
  "nomad_step c e c' \<Longrightarrow> nb_disposed c \<Longrightarrow> nb_disposed c' \<and> nb_shown c' = nb_shown c \<and> nb_state c' = nb_state c"
  by (induction rule: nomad_step.induct)
    (auto simp: nomad_start_def retryStart_def resumePolling_def abandonRetainedFetch_def
      nomad_reset_def nomad_dispose_def nomad_subscribe_def nomad_unsubscribe_def
      startRequest_resume_def nomad_poll_resume_def nomad_timer_fires_def nomad_wake_resume_def
      nomad_poll_head_def nomad_isCurrent_def Let_def
      split: option.splits settled.splits)

interpretation nomad_run: generation_owner nomad_trans nb_generation nomad_isCurrent nb_disposed nb_shown
  by unfold_locales
    (auto simp: nomad_trans_def nomad_isCurrent_def dest: nomad_step_gen nomad_step_disposed)

section \<open>Requests sent to the device\<close>

definition nomad_request_valid :: "NomadFetchStartRequest \<Rightarrow> bool" where
  "nomad_request_valid r \<longleftrightarrow>
     nomadFetchInputError (nfr_destination r) (nfr_path r) = None \<and>
     isSafeInteger (nfr_timestamp_unix_ms r) \<and> 0 < nfr_timestamp_unix_ms r \<and>
     hex32 (nfr_idempotency_key r)"

fun nomad_state_request :: "NomadBrowserState \<Rightarrow> NomadFetchStartRequest option" where
  "nomad_state_request (NomadStarting r) = Some r"
| "nomad_state_request (NomadStartError e r) = Some r"
| "nomad_state_request (NomadPending a) = Some (af_request a)"
| "nomad_state_request (NomadPollError a e) = Some (af_request a)"
| "nomad_state_request (NomadTimedOut a) = Some (af_request a)"
| "nomad_state_request (NomadReady a p) = Some (af_request a)"
| "nomad_state_request (NomadFailed a f) = Some (af_request a)"
| "nomad_state_request s = None"

fun nomad_task_request :: "nomad_task \<Rightarrow> NomadFetchStartRequest" where
  "nomad_task_request (NAwaitStart g r) = r"
| "nomad_task_request (NAwaitPoll g a d) = af_request a"
| "nomad_task_request (NAwaitTimer w g a d delay) = af_request a"
| "nomad_task_request (NAwaitWake g a d e) = af_request a"

definition nomad_requests_ok :: "nomad \<Rightarrow> bool" where
  "nomad_requests_ok c \<longleftrightarrow>
     (\<forall>t \<in> set (nb_tasks c). nomad_request_valid (nomad_task_request t)) \<and>
     (\<forall>r. nomad_state_request (nb_state c) = Some r \<longrightarrow> nomad_request_valid r)"

lemma nomad_requests_publish [intro]:
  "nomad_requests_ok c \<Longrightarrow> (\<And>r. nomad_state_request st = Some r \<Longrightarrow> nomad_request_valid r) \<Longrightarrow>
   nomad_requests_ok (nomad_publish st c)"
  by (auto simp: nomad_requests_ok_def)

lemma nomad_requests_add [simp]:
  "nomad_requests_ok (nomad_add_task t c) \<longleftrightarrow>
     nomad_requests_ok c \<and> nomad_request_valid (nomad_task_request t)"
  by (auto simp: nomad_requests_ok_def)

lemma nomad_requests_drop [intro]: "nomad_requests_ok c \<Longrightarrow> nomad_requests_ok (nomad_drop_task t c)"
  by (auto simp: nomad_requests_ok_def dest: notin_set_remove1 [THEN contrapos_nn])

lemma nomad_cancel_task_request [simp]:
  "nomad_task_request (nomad_cancel_task w t) = nomad_task_request t"
  by (cases t) auto

lemma nomad_requests_replace [intro]: "nomad_requests_ok c \<Longrightarrow> nomad_requests_ok (nomad_replaceRun c)"
  by (auto simp: nomad_requests_ok_def nomad_replaceRun_def Let_def split: option.splits)

lemma nomad_requests_fields [simp]:
  "nomad_requests_ok (c\<lparr>nb_cancelWait := w\<rparr>) = nomad_requests_ok c"
  "nomad_requests_ok (c\<lparr>nb_next_wait := n\<rparr>) = nomad_requests_ok c"
  "nomad_requests_ok (c\<lparr>nb_disposed := b\<rparr>) = nomad_requests_ok c"
  "nomad_requests_ok (c\<lparr>nb_listeners := ls\<rparr>) = nomad_requests_ok c"
  "nomad_requests_ok (c\<lparr>nb_shown := sh\<rparr>) = nomad_requests_ok c"
  by (simp_all add: nomad_requests_ok_def)

lemma nomad_requests_startRequest:
  "nomad_requests_ok c \<Longrightarrow> nomad_request_valid r \<Longrightarrow> nomad_requests_ok (startRequest r c)"
  by (auto simp: startRequest_def Let_def)

lemma nomad_requests_poll_head:
  "nomad_requests_ok c \<Longrightarrow> nomad_request_valid (af_request a) \<Longrightarrow>
   nomad_requests_ok (nomad_poll_head a g d now c)"
  by (auto simp: nomad_poll_head_def)

lemma nomad_retained_request_valid:
  "nomad_requests_ok c \<Longrightarrow> nomad_retained_request (nb_state c) d p = Some r \<Longrightarrow> nomad_request_valid r"
  by (cases "nb_state c") (auto simp: nomad_requests_ok_def split: if_splits)

lemma nomad_retained_fetch_valid:
  "nomad_requests_ok c \<Longrightarrow> nomad_retained_fetch (nb_state c) = Some a \<Longrightarrow> nomad_request_valid (af_request a)"
  by (cases "nb_state c") (auto simp: nomad_requests_ok_def)

lemma nomad_requests_start: "nomad_requests_ok c \<Longrightarrow> nomad_requests_ok (nomad_start d p now key c)"
  unfolding nomad_start_def Let_def
  by (auto intro!: nomad_requests_startRequest intro: nomad_retained_request_valid
      simp: nomad_request_valid_def rat_safe_integer_floor split: option.splits settled.splits)

lemma nomad_requests_step: "nomad_step c e c' \<Longrightarrow> nomad_requests_ok c \<Longrightarrow> nomad_requests_ok c'"
proof (induction rule: nomad_step.induct)
  case (call_start c d p now key)
  then show ?case by (rule nomad_requests_start)
next
  case (call_retry c)
  then show ?case
    by (auto simp: retryStart_def nomad_requests_ok_def [of c] intro: nomad_requests_startRequest
        split: NomadBrowserState.splits)
next
  case (call_resume c n1 n2)
  then show ?case
    by (auto simp: resumePolling_def Let_def intro!: nomad_requests_poll_head nomad_requests_publish
        dest: nomad_retained_fetch_valid split: option.splits)
next
  case (start_settles g r c resp n1 n2)
  then have "nomad_request_valid r" by (auto simp: nomad_requests_ok_def)
  with start_settles show ?case
    by (auto simp: startRequest_resume_def Let_def intro!: nomad_requests_poll_head split: settled.splits)
next
  case (poll_settles g a d c resp n1 n2)
  then have "nomad_request_valid (af_request a)" by (auto simp: nomad_requests_ok_def)
  with poll_settles show ?case
    by (auto simp: nomad_poll_resume_def Let_def nomad_wait_def
        split: settled.splits NomadFetchPollResponse.splits)
next
  case (fires w g a d delay c)
  then have "nomad_request_valid (af_request a)" by (force simp: nomad_requests_ok_def)
  with fires show ?case by (auto simp: nomad_timer_fires_def Let_def)
next
  case (wakes g a d e c now)
  then have "nomad_request_valid (af_request a)" by (force simp: nomad_requests_ok_def)
  with wakes show ?case by (auto simp: nomad_wake_resume_def intro!: nomad_requests_poll_head)
qed (auto simp: abandonRetainedFetch_def nomad_reset_def nomad_dispose_def nomad_subscribe_def
    nomad_unsubscribe_def)

interpretation nomad_requests: step_invariant nomad_trans nomad_requests_ok
  by unfold_locales (auto simp: nomad_trans_def intro: nomad_requests_step)

section \<open>Properties\<close>

definition nomad_example :: nomad where
  "nomad_example = (case nomad_new None None of Inr c \<Rightarrow> c)"

lemma nomad_example_new: "nomad_new None None = Inr nomad_example"
  by (simp add: nomad_example_def nomad_new_def NOMAD_POLL_INTERVAL_MS_def NOMAD_PRESENTATION_TIMEOUT_MS_def)

abbreviation nomad_example_request :: NomadFetchStartRequest where
  "nomad_example_request \<equiv> \<lparr>nfr_destination = replicate 32 97, nfr_path = DEFAULT_NOMAD_PAGE_PATH,
     nfr_timestamp_unix_ms = 5, nfr_idempotency_key = replicate 32 98\<rparr>"

abbreviation nomad_example_started :: nomad where
  "nomad_example_started \<equiv> nomad_start (replicate 32 97) None 5 (Fulfilled (replicate 32 98)) nomad_example"

lemma hex32_replicate: "is_hex_lower c \<Longrightarrow> hex32 (replicate 32 c)"
  by (simp add: hex32_def list_all_iff)

lemma hex32_letters [simp]: "hex32 (replicate 32 97)" "hex32 (replicate 32 98)"
  by (simp_all add: hex32_replicate is_hex_lower_def)

lemma js_lower_letters [simp]: "js_lower (replicate 32 98) = replicate 32 98"
  using js_lower_hex [of "replicate 32 98"] by (simp add: list_all_iff is_hex_lower_def)

lemma nomad_example_started_eq:
  "nomad_example_started = startRequest nomad_example_request nomad_example"
  by (simp add: nomad_start_def nomad_example_def nomad_new_def NOMAD_POLL_INTERVAL_MS_def
      NOMAD_PRESENTATION_TIMEOUT_MS_def nomadFetchInputError_def DEFAULT_NOMAD_PAGE_PATH_def
      rat_safe_integer_def isSafeInteger_def MAX_SAFE_INTEGER_def)

lemma nomad_example_task: "nb_tasks nomad_example_started = [NAwaitStart 1 nomad_example_request]"
  unfolding nomad_example_started_eq
  by (simp add: startRequest_def nomad_replaceRun_def nomad_example_def nomad_new_def
      NOMAD_POLL_INTERVAL_MS_def NOMAD_PRESENTATION_TIMEOUT_MS_def)

lemma nomad_example_reach: "nomad_trans\<^sup>*\<^sup>* nomad_example nomad_example_started"
  using nomad_step.call_start unfolding nomad_trans_def by (blast intro: r_into_rtranclp)

text \<open>
  C26. The controller never overlaps its work and never strands a running presentation: in every
  state reached from construction, a presentation that shows a start or a pending fetch is served by
  exactly one suspended task of the present run (the one device request, timer or wake-up that will
  move it on), every other presentation by none, and a delay between polls is positive, at most the poll
  interval, and at least 1 ms unless the interval itself is shorter.
\<close>

theorem nomad_single_run:
  assumes "nomad_new i t = Inr c0" and "nomad_trans\<^sup>*\<^sup>* c0 c"
  shows "length (nomad_live_tasks c) = (if nomad_running (nb_state c) \<and> \<not> nb_disposed c then 1 else 0)
    \<and> (\<forall>u \<in> set (nomad_live_tasks c). nomad_task_serves (nb_state c) u)
    \<and> (\<forall>w g a d delay. NAwaitTimer w g a d delay \<in> set (nb_tasks c) \<longrightarrow>
         0 < delay \<and> min 1 (nb_pollIntervalMs c) \<le> delay \<and> delay \<le> nb_pollIntervalMs c)"
proof -
  have "nomad_inv c" using nomad_sys.reach_inv [OF assms(2)] nomad_new_inv [OF assms(1)] by blast
  then show ?thesis
    by (fastforce simp: nomad_inv_def nomad_served_def nomad_bounded_def split: if_splits)
qed

theorem nomad_single_run_witness:
  "nomad_new None None = Inr nomad_example \<and> nomad_trans\<^sup>*\<^sup>* nomad_example nomad_example_started
   \<and> length (nomad_live_tasks nomad_example_started) = 1"
proof -
  have "length (nomad_live_tasks nomad_example_started) =
      (if nomad_running (nb_state nomad_example_started) \<and> \<not> nb_disposed nomad_example_started
       then 1 else 0)"
    using nomad_single_run [OF nomad_example_new nomad_example_reach] by blast
  moreover have "nomad_running (nb_state nomad_example_started) \<and> \<not> nb_disposed nomad_example_started"
    unfolding nomad_example_started_eq
    by (simp add: startRequest_def nomad_example_def nomad_new_def NOMAD_POLL_INTERVAL_MS_def
        NOMAD_PRESENTATION_TIMEOUT_MS_def)
  ultimately show ?thesis using nomad_example_new nomad_example_reach by simp
qed

text \<open>
  C30. Every request the controller sends to the device, and every request it keeps for a replay, has
  a destination of 32 lower-case hexadecimal characters, an absolute path without NUL, a positive
  safe-integer timestamp and a 32-character hexadecimal idempotency key.
\<close>

theorem nomad_requests_wellformed:
  assumes "nomad_new i t = Inr c0" and "nomad_trans\<^sup>*\<^sup>* c0 c" and "NAwaitStart g r \<in> set (nb_tasks c)"
  shows "hex32 (nfr_destination r) \<and> js_startsWith (nfr_path r) (js ''/'') \<and> 0 \<notin> set (nfr_path r)
    \<and> 0 < nfr_timestamp_unix_ms r \<and> nfr_timestamp_unix_ms r \<le> MAX_SAFE_INTEGER
    \<and> hex32 (nfr_idempotency_key r)"
proof -
  have "nomad_requests_ok c0"
    using assms(1) by (auto simp: nomad_new_def Let_def nomad_requests_ok_def split: option.splits)
  then have "nomad_requests_ok c" by (rule nomad_requests.reach_inv [OF assms(2)])
  with assms(3) have "nomad_request_valid r" by (force simp: nomad_requests_ok_def)
  then show ?thesis
    by (auto simp: nomad_request_valid_def nomadFetchInputError_def isSafeInteger_def split: if_splits)
qed

theorem nomad_requests_wellformed_witness:
  "NAwaitStart 1 nomad_example_request \<in> set (nb_tasks nomad_example_started)
   \<and> hex32 (nfr_idempotency_key nomad_example_request)"
  using nomad_requests_wellformed [OF nomad_example_new nomad_example_reach, of 1 nomad_example_request]
  by (simp add: nomad_example_task)

text \<open>
  C27. A reset detaches everything started before it: whatever happens afterwards, the late result of
  a start or of a poll of an earlier run, or a late wake-up, changes neither what is presented nor
  what listeners were shown.
\<close>

theorem nomad_reset_detaches:
  assumes "\<not> nb_disposed c" and "nomad_trans\<^sup>*\<^sup>* (nomad_reset c) c'" and "g \<le> nb_generation c"
  shows "startRequest_resume g r sresp n1 n2 c' = c' \<and>
    nomad_poll_resume g a d presp n1 n2 c' = c' \<and>
    nomad_wake_resume g a d e now c' = c'"
proof -
  have "g < nb_generation (nomad_reset c)" using assms(1,3) by (simp add: nomad_reset_def)
  then have "\<not> nomad_isCurrent c' g" by (rule nomad_run.superseded_forever [OF assms(2)])
  then show ?thesis
    by (auto simp: startRequest_resume_def nomad_poll_resume_def nomad_wake_resume_def
        nomad_poll_head_def split: settled.splits)
qed

theorem nomad_reset_detaches_witness:
  "startRequest_resume 1 nomad_example_request (Rejected (ErrorObject [])) 0 0
     (nomad_reset nomad_example_started) = nomad_reset nomad_example_started"
proof -
  have "\<not> nb_disposed nomad_example_started" and "nb_generation nomad_example_started = 1"
    unfolding nomad_example_started_eq
    by (simp_all add: startRequest_def Let_def nomad_example_def nomad_new_def NOMAD_POLL_INTERVAL_MS_def
        NOMAD_PRESENTATION_TIMEOUT_MS_def)
  then show ?thesis using nomad_reset_detaches [of nomad_example_started _ 1] by simp
qed

text \<open>
  An ambiguous start failure keeps its identity: from the start-error presentation, an explicit
  retry and a new start for the same destination and path both send exactly the retained request,
  with its timestamp and idempotency key, whatever the clock and the key generator return now.
\<close>

theorem nomad_start_error_replays:
  assumes "nb_state c = NomadStartError e r" and "\<not> nb_disposed c"
    and "nomadFetchInputError (nfr_destination r) (nfr_path r) = None"
    and "js_lower (js_trim d) = nfr_destination r"
  shows "retryStart c = startRequest r c \<and> nomad_start d (Some (nfr_path r)) now key c = startRequest r c
    \<and> NAwaitStart (nb_generation c + 1) r \<in> set (nb_tasks (startRequest r c))
    \<and> nb_state (startRequest r c) = NomadStarting r"
  using assms by (auto simp: retryStart_def nomad_start_def sameStartSemantics_def startRequest_def Let_def)

theorem nomad_start_error_replays_witness:
  "nomad_start (replicate 32 97) (Some DEFAULT_NOMAD_PAGE_PATH) 999 (Rejected (ErrorObject []))
     (nomad_example\<lparr>nb_state := NomadStartError [] nomad_example_request\<rparr>)
   = startRequest nomad_example_request (nomad_example\<lparr>nb_state := NomadStartError [] nomad_example_request\<rparr>)"
  using nomad_start_error_replays
    [of "nomad_example\<lparr>nb_state := NomadStartError [] nomad_example_request\<rparr>" "[]"
      nomad_example_request "replicate 32 97" 999 "Rejected (ErrorObject [])"]
  by (simp add: nomad_example_def nomad_new_def NOMAD_POLL_INTERVAL_MS_def NOMAD_PRESENTATION_TIMEOUT_MS_def
      nomadFetchInputError_def DEFAULT_NOMAD_PAGE_PATH_def)

fun nomad_accepted :: "NomadBrowserState \<Rightarrow> AcceptedFetch option" where
  "nomad_accepted (NomadPending a) = Some a"
| "nomad_accepted (NomadPollError a e) = Some a"
| "nomad_accepted (NomadTimedOut a) = Some a"
| "nomad_accepted (NomadReady a p) = Some a"
| "nomad_accepted (NomadFailed a f) = Some a"
| "nomad_accepted s = None"

lemma nomad_retained_accepted: "nomad_retained_fetch s = Some a \<Longrightarrow> nomad_accepted s = Some a"
  by (cases s) auto

lemma nomad_retained_idle:
  assumes "nomad_inv c" and "nomad_retained_fetch (nb_state c) = Some a" and "t \<in> set (nb_tasks c)"
    and "\<forall>g a d. t \<noteq> NAwaitWake g a d False"
  shows "\<not> nomad_isCurrent c (nomad_task_gen t)"
proof
  assume "nomad_isCurrent c (nomad_task_gen t)"
  then have "nomad_task_serves (nb_state c) t"
    using nomad_current_task(2) [OF assms(1,3) _ assms(4)] by blast
  with assms(2) show False by (cases "nb_state c"; cases t) auto
qed

text \<open>
  C29. A poll error or a presentation timeout never loses the accepted device fetch: every step other
  than an explicit abandon or a reset (a start, a retry, a resumption, a late completion, a timer, a
  subscription, disposal) leaves the same accepted fetch, with its device identity, presented.
\<close>

theorem nomad_retained_fetch_kept:
  assumes "nomad_new i t = Inr c0" and "nomad_trans\<^sup>*\<^sup>* c0 c"
    and "nomad_retained_fetch (nb_state c) = Some a"
    and "nomad_step c e c'" and "e \<noteq> NCallAbandon" and "e \<noteq> NCallReset"
  shows "nomad_accepted (nb_state c') = Some a"
proof -
  have inv: "nomad_inv c" using nomad_sys.reach_inv [OF assms(2)] nomad_new_inv [OF assms(1)] by blast
  note idle = nomad_retained_idle [OF inv assms(3)]
  have keep: "nomad_accepted (nb_state c) = Some a" by (rule nomad_retained_accepted [OF assms(3)])
  from assms(4) idle keep assms(3,5,6) show ?thesis
  proof (induction rule: nomad_step.induct)
    case (call_start c d p now key)
    then show ?case by (cases "nb_state c") (auto simp: nomad_start_def Let_def)
  next
    case (call_retry c)
    then show ?case by (cases "nb_state c") (auto simp: retryStart_def)
  next
    case (start_settles g r c resp n1 n2)
    from start_settles(2) [OF start_settles(1)] start_settles(3) show ?case
      by (auto simp: startRequest_resume_def nomad_isCurrent_def split: settled.splits)
  next
    case (poll_settles g a' d c resp n1 n2)
    from poll_settles(2) [OF poll_settles(1)] poll_settles(3) show ?case
      by (auto simp: nomad_poll_resume_def nomad_isCurrent_def split: settled.splits)
  next
    case (wakes g a' d e c now)
    from wakes(2) [OF wakes(1)] wakes(3) show ?case
      by (cases e) (auto simp: nomad_wake_resume_def nomad_poll_head_def nomad_isCurrent_def)
  qed (auto simp: resumePolling_def nomad_poll_head_def Let_def nomad_dispose_def nomad_subscribe_def
      nomad_unsubscribe_def nomad_timer_fires_def)
qed

text \<open>A run that ends in a presentation timeout: start, acceptance, and a poll that sees the deadline passed.\<close>

abbreviation nomad_example_accepted :: AcceptedFetch where
  "nomad_example_accepted \<equiv> \<lparr>af_id = [49], af_outcome = FetchAccepted, af_phase = None,
     af_request = nomad_example_request\<rparr>"

definition nomad_example_timed_out :: nomad where
  "nomad_example_timed_out = startRequest_resume 1 nomad_example_request
     (Fulfilled \<lparr>nfs_id = [49], nfs_outcome = FetchAccepted\<rparr>) 0 120000
     (nomad_drop_task (NAwaitStart 1 nomad_example_request) nomad_example_started)"

lemma nomad_example_timed_out_state:
  "nb_state nomad_example_timed_out = NomadTimedOut nomad_example_accepted
   \<and> \<not> nb_disposed nomad_example_timed_out"
  unfolding nomad_example_timed_out_def nomad_example_started_eq
  by (simp add: startRequest_resume_def startRequest_def Let_def nomad_isCurrent_def nomad_poll_head_def
      nomad_example_def nomad_new_def NOMAD_POLL_INTERVAL_MS_def NOMAD_PRESENTATION_TIMEOUT_MS_def)

lemma nomad_example_timed_out_reach: "nomad_trans\<^sup>*\<^sup>* nomad_example nomad_example_timed_out"
proof -
  have "nomad_step nomad_example_started
      (NStartSettles 1 nomad_example_request (Fulfilled \<lparr>nfs_id = [49], nfs_outcome = FetchAccepted\<rparr>) 0 120000)
      nomad_example_timed_out"
    unfolding nomad_example_timed_out_def
    by (rule nomad_step.start_settles) (simp add: nomad_example_task)
  then have "nomad_trans nomad_example_started nomad_example_timed_out"
    unfolding nomad_trans_def by blast
  with nomad_example_reach show ?thesis by (rule rtranclp.rtrancl_into_rtrancl)
qed

theorem nomad_retained_fetch_kept_witness:
  "nomad_accepted (nb_state (resumePolling 130000 130001 nomad_example_timed_out)) =
     Some nomad_example_accepted"
  by (rule nomad_retained_fetch_kept [OF nomad_example_new nomad_example_timed_out_reach _
      nomad_step.call_resume]) (simp_all add: nomad_example_timed_out_state)

end
