(* ===== verification/Pollers.thy ===== *)
theory Pollers
  imports Prelude
begin

text \<open>
  The small gates of the client that own one timer or one generation:
  \<^verbatim>\<open>settled-poll.ts\<close>, \<^verbatim>\<open>foreground-nearby-poll.ts\<close>, \<^verbatim>\<open>foreground-reconnect.ts\<close> and
  \<^verbatim>\<open>latest-request.ts\<close>. Beside the private fields, each record keeps the environment's side: the
  armed platform timers and the number of reads under way. The contract the two pollers share is
  the locale \<open>settled_cadence\<close>.
\<close>

section \<open>The contract of a settled cadence\<close>

text \<open>
  At most one read and at most one timer at any time; while enabled, the cadence is never lost
  (a timer is armed or a read is under way); while stopped, no timer is armed.
\<close>

locale settled_cadence = step_invariant step inv
  for step :: "'s \<Rightarrow> 's \<Rightarrow> bool" and inv :: "'s \<Rightarrow> bool" +
  fixes enabled :: "'s \<Rightarrow> bool" and timers :: "'s \<Rightarrow> nat list" and reads :: "'s \<Rightarrow> nat"
  assumes inv_reads: "inv s \<Longrightarrow> reads s \<le> 1"
    and inv_timers: "inv s \<Longrightarrow> length (timers s) \<le> 1"
    and inv_live: "inv s \<Longrightarrow> enabled s \<Longrightarrow> timers s \<noteq> [] \<or> reads s = 1"
    and inv_stopped: "inv s \<Longrightarrow> \<not> enabled s \<Longrightarrow> timers s = []"
begin

lemma cadence:
  assumes "step\<^sup>*\<^sup>* s t" and "inv s"
  shows "reads t \<le> 1 \<and> length (timers t) \<le> 1 \<and> (enabled t \<longrightarrow> timers t \<noteq> [] \<or> reads t = 1)
    \<and> (\<not> enabled t \<longrightarrow> timers t = [])"
proof -
  have "inv t" by (rule reach_inv [OF assms])
  then show ?thesis using inv_reads inv_timers inv_live inv_stopped by blast
qed

end

section \<open>Settled poll\<close>

record settled_poll =
  sp_delayMs :: rat
  sp_cancelScheduled :: "nat option"
  sp_enabled :: bool
  sp_inFlight :: bool
  sp_timers :: "nat list"
  sp_reads :: nat
  sp_next :: nat

definition settled_poll_new :: "delay_number \<Rightarrow> thrown + settled_poll" where
  "settled_poll_new delay =
     (case positive_delay delay of
        None \<Rightarrow> Inl (ErrorObject (js ''settled poll delay must be positive''))
      | Some ms \<Rightarrow> Inr \<lparr>sp_delayMs = ms, sp_cancelScheduled = None, sp_enabled = False,
                       sp_inFlight = False, sp_timers = [], sp_reads = 0, sp_next = 0\<rparr>)"

definition sp_scheduleNext :: "settled_poll \<Rightarrow> settled_poll" where
  "sp_scheduleNext p =
     (if \<not> sp_enabled p \<or> sp_cancelScheduled p \<noteq> None then p
      else p\<lparr>sp_timers := sp_next p # sp_timers p, sp_cancelScheduled := Some (sp_next p),
             sp_next := sp_next p + 1\<rparr>)"

definition sp_start :: "settled_poll \<Rightarrow> settled_poll" where
  "sp_start p = (if sp_enabled p then p else sp_scheduleNext (p\<lparr>sp_enabled := True\<rparr>))"

definition sp_stop :: "settled_poll \<Rightarrow> settled_poll" where
  "sp_stop p =
     (case sp_cancelScheduled p of
        None \<Rightarrow> p\<lparr>sp_enabled := False\<rparr>
      | Some w \<Rightarrow> p\<lparr>sp_enabled := False, sp_timers := removeAll w (sp_timers p),
                    sp_cancelScheduled := None\<rparr>)"

text \<open>\<open>blocked\<close> is what the owner's predicate returns at this turn.\<close>

definition sp_poll :: "bool \<Rightarrow> settled_poll \<Rightarrow> settled_poll" where
  "sp_poll blocked p =
     (if \<not> sp_enabled p \<or> sp_inFlight p then p
      else if blocked then sp_scheduleNext p
      else p\<lparr>sp_inFlight := True, sp_reads := sp_reads p + 1\<rparr>)"

text \<open>The \<open>finally\<close> block: reached whether the read returned or threw.\<close>

definition sp_read_settles :: "settled_poll \<Rightarrow> settled_poll" where
  "sp_read_settles p =
     sp_scheduleNext (p\<lparr>sp_reads := sp_reads p - 1, sp_inFlight := False\<rparr>)"

definition sp_timer_fires :: "nat \<Rightarrow> bool \<Rightarrow> settled_poll \<Rightarrow> settled_poll" where
  "sp_timer_fires w blocked p =
     sp_poll blocked (p\<lparr>sp_timers := removeAll w (sp_timers p), sp_cancelScheduled := None\<rparr>)"

inductive settled_poll_step :: "settled_poll \<Rightarrow> settled_poll \<Rightarrow> bool" where
  sp_call_start: "settled_poll_step p (sp_start p)"
| sp_call_stop: "settled_poll_step p (sp_stop p)"
| sp_timer: "w \<in> set (sp_timers p) \<Longrightarrow> settled_poll_step p (sp_timer_fires w blocked p)"
| sp_settles: "0 < sp_reads p \<Longrightarrow> settled_poll_step p (sp_read_settles p)"

definition settled_poll_inv :: "settled_poll \<Rightarrow> bool" where
  "settled_poll_inv p \<longleftrightarrow>
     sp_reads p = (if sp_inFlight p then 1 else 0) \<and>
     sp_timers p = (case sp_cancelScheduled p of None \<Rightarrow> [] | Some w \<Rightarrow> [w]) \<and>
     (sp_enabled p \<longrightarrow> sp_cancelScheduled p \<noteq> None \<or> sp_inFlight p) \<and>
     (\<not> sp_enabled p \<longrightarrow> sp_cancelScheduled p = None)"

lemma settled_poll_step_inv: "settled_poll_step p q \<Longrightarrow> settled_poll_inv p \<Longrightarrow> settled_poll_inv q"
  by (induction rule: settled_poll_step.induct)
    (auto simp: settled_poll_inv_def sp_start_def sp_stop_def sp_scheduleNext_def sp_poll_def
      sp_timer_fires_def sp_read_settles_def split: option.splits if_splits)

interpretation settled_poll: settled_cadence settled_poll_step settled_poll_inv sp_enabled sp_timers sp_reads
  by unfold_locales
    (erule (1) settled_poll_step_inv, auto simp: settled_poll_inv_def split: option.splits)

section \<open>Foreground Nearby poll\<close>

record nearby_poll =
  np_delayMs :: rat
  np_cancelScheduled :: "nat option"
  np_enabled :: bool
  np_inFlight :: bool
  np_timers :: "nat list"
  np_reads :: nat
  np_next :: nat

definition nearby_poll_new :: "delay_number \<Rightarrow> thrown + nearby_poll" where
  "nearby_poll_new delay =
     (case positive_delay delay of
        None \<Rightarrow> Inl (ErrorObject (js ''foreground Nearby poll delay must be positive''))
      | Some ms \<Rightarrow> Inr \<lparr>np_delayMs = ms, np_cancelScheduled = None, np_enabled = False,
                       np_inFlight = False, np_timers = [], np_reads = 0, np_next = 0\<rparr>)"

definition np_poll :: "nearby_poll \<Rightarrow> nearby_poll" where
  "np_poll p =
     (if \<not> np_enabled p \<or> np_inFlight p then p
      else p\<lparr>np_inFlight := True, np_reads := np_reads p + 1\<rparr>)"

definition np_read_settles :: "nearby_poll \<Rightarrow> nearby_poll" where
  "np_read_settles p =
     (let q = p\<lparr>np_reads := np_reads p - 1, np_inFlight := False\<rparr>
      in if np_enabled q \<and> np_cancelScheduled q = None
         then q\<lparr>np_timers := np_next q # np_timers q, np_cancelScheduled := Some (np_next q),
                np_next := np_next q + 1\<rparr>
         else q)"

definition np_start :: "nearby_poll \<Rightarrow> nearby_poll" where
  "np_start p = (if np_enabled p then p else np_poll (p\<lparr>np_enabled := True\<rparr>))"

definition np_stop :: "nearby_poll \<Rightarrow> nearby_poll" where
  "np_stop p =
     (case np_cancelScheduled p of
        None \<Rightarrow> p\<lparr>np_enabled := False\<rparr>
      | Some w \<Rightarrow> p\<lparr>np_enabled := False, np_timers := removeAll w (np_timers p),
                    np_cancelScheduled := None\<rparr>)"

definition np_timer_fires :: "nat \<Rightarrow> nearby_poll \<Rightarrow> nearby_poll" where
  "np_timer_fires w p =
     np_poll (p\<lparr>np_timers := removeAll w (np_timers p), np_cancelScheduled := None\<rparr>)"

inductive nearby_poll_step :: "nearby_poll \<Rightarrow> nearby_poll \<Rightarrow> bool" where
  np_call_start: "nearby_poll_step p (np_start p)"
| np_call_stop: "nearby_poll_step p (np_stop p)"
| np_timer: "w \<in> set (np_timers p) \<Longrightarrow> nearby_poll_step p (np_timer_fires w p)"
| np_settles: "0 < np_reads p \<Longrightarrow> nearby_poll_step p (np_read_settles p)"

definition nearby_poll_inv :: "nearby_poll \<Rightarrow> bool" where
  "nearby_poll_inv p \<longleftrightarrow>
     np_reads p = (if np_inFlight p then 1 else 0) \<and>
     np_timers p = (case np_cancelScheduled p of None \<Rightarrow> [] | Some w \<Rightarrow> [w]) \<and>
     (np_enabled p \<longrightarrow> np_cancelScheduled p \<noteq> None \<or> np_inFlight p) \<and>
     (np_cancelScheduled p \<noteq> None \<longrightarrow> np_enabled p \<and> \<not> np_inFlight p)"

lemma nearby_poll_step_inv: "nearby_poll_step p q \<Longrightarrow> nearby_poll_inv p \<Longrightarrow> nearby_poll_inv q"
  by (induction rule: nearby_poll_step.induct)
    (auto simp: nearby_poll_inv_def np_start_def np_stop_def np_poll_def np_timer_fires_def
      np_read_settles_def Let_def split: option.splits if_splits)

interpretation nearby_poll: settled_cadence nearby_poll_step nearby_poll_inv np_enabled np_timers np_reads
  by unfold_locales
    (erule (1) nearby_poll_step_inv, auto simp: nearby_poll_inv_def split: option.splits)

section \<open>Foreground reconnect\<close>

datatype ForegroundReconnectProgress = Attempting | WaitingRetry jstring

fun foregroundReconnectMessage :: "ForegroundReconnectProgress \<Rightarrow> jstring" where
  "foregroundReconnectMessage Attempting =
     js ''Appliance authorization is saved. Connecting through Reticulum.''"
| "foregroundReconnectMessage (WaitingRetry reason) =
     js ''Appliance authorization is saved. No route is ready yet; retrying automatically. '' @
     js ''Last attempt: '' @ reason"

record reconnect =
  fr_delayMs :: rat
  fr_cancelScheduled :: "nat option"
  fr_enabled :: bool
  fr_inhibited :: bool
  fr_inFlight :: bool
  fr_lastRequest :: "rat option"
  fr_timers :: "nat list"
  fr_next :: nat
  fr_requested :: nat \<comment> \<open>calls of the owner's \<open>requestRetry\<close> so far\<close>

definition reconnect_new :: "delay_number \<Rightarrow> thrown + reconnect" where
  "reconnect_new delay =
     (case positive_delay delay of
        None \<Rightarrow> Inl (ErrorObject (js ''foreground reconnect delay must be positive''))
      | Some ms \<Rightarrow> Inr \<lparr>fr_delayMs = ms, fr_cancelScheduled = None, fr_enabled = False,
                       fr_inhibited = False, fr_inFlight = False, fr_lastRequest = None,
                       fr_timers = [], fr_next = 0, fr_requested = 0\<rparr>)"

definition fr_clearScheduled :: "reconnect \<Rightarrow> reconnect" where
  "fr_clearScheduled r =
     (case fr_cancelScheduled r of
        None \<Rightarrow> r
      | Some w \<Rightarrow> r\<lparr>fr_timers := removeAll w (fr_timers r), fr_cancelScheduled := None\<rparr>)"

definition fr_begin :: "rat \<Rightarrow> reconnect \<Rightarrow> bool \<times> reconnect" where
  "fr_begin request r =
     (if fr_inhibited r then (False, r)
      else let r1 = r\<lparr>fr_enabled := True\<rparr>
           in if fr_inFlight r1 \<or> fr_lastRequest r1 = Some request then (False, r1)
              else (True, (fr_clearScheduled r1)\<lparr>fr_lastRequest := Some request, fr_inFlight := True\<rparr>))"

definition fr_settle :: "reconnect \<Rightarrow> reconnect" where
  "fr_settle r =
     (if \<not> fr_inFlight r then r
      else let r1 = r\<lparr>fr_inFlight := False\<rparr>
           in if \<not> fr_enabled r1 \<or> fr_cancelScheduled r1 \<noteq> None then r1
              else r1\<lparr>fr_timers := fr_next r1 # fr_timers r1,
                      fr_cancelScheduled := Some (fr_next r1), fr_next := fr_next r1 + 1\<rparr>)"

definition fr_timer_fires :: "nat \<Rightarrow> reconnect \<Rightarrow> reconnect" where
  "fr_timer_fires w r =
     (let r1 = r\<lparr>fr_timers := removeAll w (fr_timers r), fr_cancelScheduled := None\<rparr>
      in if fr_enabled r1 then r1\<lparr>fr_requested := fr_requested r1 + 1\<rparr> else r1)"

definition fr_suspend :: "reconnect \<Rightarrow> reconnect" where
  "fr_suspend r = fr_clearScheduled (r\<lparr>fr_enabled := False, fr_lastRequest := None\<rparr>)"

definition fr_inhibit :: "reconnect \<Rightarrow> reconnect" where
  "fr_inhibit r = fr_suspend (r\<lparr>fr_inhibited := True\<rparr>)"

definition fr_allow :: "reconnect \<Rightarrow> reconnect" where
  "fr_allow r = r\<lparr>fr_inhibited := False\<rparr>"

datatype reconnect_event =
  FrBegin rat bool | FrSettle | FrSuspend | FrInhibit | FrAllow | FrTimer nat

inductive reconnect_step :: "reconnect \<Rightarrow> reconnect_event \<Rightarrow> reconnect \<Rightarrow> bool" where
  fr_call_begin: "fr_begin request r = (granted, r') \<Longrightarrow> reconnect_step r (FrBegin request granted) r'"
| fr_call_settle: "reconnect_step r FrSettle (fr_settle r)"
| fr_call_suspend: "reconnect_step r FrSuspend (fr_suspend r)"
| fr_call_inhibit: "reconnect_step r FrInhibit (fr_inhibit r)"
| fr_call_allow: "reconnect_step r FrAllow (fr_allow r)"
| fr_timer: "w \<in> set (fr_timers r) \<Longrightarrow> reconnect_step r (FrTimer w) (fr_timer_fires w r)"

inductive_cases fr_begin_stepE: "reconnect_step r (FrBegin request granted) r'"

definition reconnect_trans :: "reconnect \<Rightarrow> reconnect \<Rightarrow> bool" where
  "reconnect_trans r r' \<longleftrightarrow> (\<exists>e. reconnect_step r e r')"

definition reconnect_inv :: "reconnect \<Rightarrow> bool" where
  "reconnect_inv r \<longleftrightarrow>
     fr_timers r = (case fr_cancelScheduled r of None \<Rightarrow> [] | Some w \<Rightarrow> [w]) \<and>
     (fr_cancelScheduled r \<noteq> None \<longrightarrow> fr_enabled r \<and> \<not> fr_inFlight r) \<and>
     (fr_inhibited r \<longrightarrow> \<not> fr_enabled r)"

lemma reconnect_step_inv: "reconnect_step r e r' \<Longrightarrow> reconnect_inv r \<Longrightarrow> reconnect_inv r'"
  by (induction rule: reconnect_step.induct)
    (auto simp: reconnect_inv_def fr_begin_def fr_settle_def fr_suspend_def fr_inhibit_def fr_allow_def
      fr_timer_fires_def fr_clearScheduled_def Let_def split: option.splits if_splits)

interpretation reconnect: step_invariant reconnect_trans reconnect_inv
  by unfold_locales (auto simp: reconnect_trans_def intro: reconnect_step_inv)

lemma reconnect_new_inv: "reconnect_new d = Inr r \<Longrightarrow> reconnect_inv r"
  by (auto simp: reconnect_new_def reconnect_inv_def split: option.splits)

section \<open>Latest request\<close>

record latest_request =
  lr_generation :: nat

definition latest_request_new :: latest_request where
  "latest_request_new = \<lparr>lr_generation = 0\<rparr>"

definition lr_begin :: "latest_request \<Rightarrow> nat \<times> latest_request" where
  "lr_begin r = (let r' = r\<lparr>lr_generation := lr_generation r + 1\<rparr> in (lr_generation r', r'))"

definition lr_invalidate :: "latest_request \<Rightarrow> latest_request" where
  "lr_invalidate r = r\<lparr>lr_generation := lr_generation r + 1\<rparr>"

definition lr_accepts :: "latest_request \<Rightarrow> nat \<Rightarrow> bool" where
  "lr_accepts r g \<longleftrightarrow> g = lr_generation r"

inductive latest_request_step :: "latest_request \<Rightarrow> latest_request \<Rightarrow> bool" where
  lr_call_begin: "lr_begin r = (g, r') \<Longrightarrow> latest_request_step r r'"
| lr_call_invalidate: "latest_request_step r (lr_invalidate r)"

interpretation latest: generation_guard latest_request_step lr_generation lr_accepts
  by unfold_locales
    (auto simp: lr_accepts_def lr_begin_def lr_invalidate_def Let_def elim!: latest_request_step.cases)

section \<open>Properties\<close>

text \<open>
  The settled poll of a slow read: from construction, whatever the order of \<open>start\<close>, \<open>stop\<close>,
  timers, blocked turns and settlements, there is at most one read and one timer, an enabled poll
  always has a timer or a read that will re-arm it, and a stopped poll has no timer.
\<close>

theorem settled_poll_cadence:
  assumes "settled_poll_new d = Inr p" and "settled_poll_step\<^sup>*\<^sup>* p q"
  shows "sp_reads q \<le> 1 \<and> length (sp_timers q) \<le> 1
    \<and> (sp_enabled q \<longrightarrow> sp_timers q \<noteq> [] \<or> sp_reads q = 1) \<and> (\<not> sp_enabled q \<longrightarrow> sp_timers q = [])"
proof (rule settled_poll.cadence [OF assms(2)])
  show "settled_poll_inv p"
    using assms(1) by (auto simp: settled_poll_new_def settled_poll_inv_def split: option.splits)
qed

definition settled_poll_example :: settled_poll where
  "settled_poll_example = \<lparr>sp_delayMs = 5000, sp_cancelScheduled = None, sp_enabled = False,
     sp_inFlight = False, sp_timers = [], sp_reads = 0, sp_next = 0\<rparr>"

theorem settled_poll_cadence_witness:
  "sp_timers (sp_stop (sp_start settled_poll_example)) = [] \<and> length (sp_timers (sp_start settled_poll_example)) \<le> 1"
proof -
  let ?p = settled_poll_example
  have new: "settled_poll_new (Finite 5000) = Inr ?p"
    by (simp add: settled_poll_new_def settled_poll_example_def)
  have start: "settled_poll_step\<^sup>*\<^sup>* ?p (sp_start ?p)"
    by (rule r_into_rtranclp) (rule settled_poll_step.sp_call_start)
  then have stop: "settled_poll_step\<^sup>*\<^sup>* ?p (sp_stop (sp_start ?p))"
    by (rule rtranclp.rtrancl_into_rtrancl) (rule settled_poll_step.sp_call_stop)
  have "\<not> sp_enabled (sp_stop (sp_start ?p))" by (simp add: sp_stop_def split: option.splits)
  then show ?thesis using settled_poll_cadence [OF new start] settled_poll_cadence [OF new stop] by blast
qed

text \<open>
  The Nearby poll gate of the foreground: the same cadence contract, so a read that settles after
  \<open>stop\<close> never re-arms the poll and a restart during a slow read never doubles it.
\<close>

theorem nearby_poll_cadence:
  assumes "nearby_poll_new d = Inr p" and "nearby_poll_step\<^sup>*\<^sup>* p q"
  shows "np_reads q \<le> 1 \<and> length (np_timers q) \<le> 1
    \<and> (np_enabled q \<longrightarrow> np_timers q \<noteq> [] \<or> np_reads q = 1) \<and> (\<not> np_enabled q \<longrightarrow> np_timers q = [])"
proof (rule nearby_poll.cadence [OF assms(2)])
  show "nearby_poll_inv p"
    using assms(1) by (auto simp: nearby_poll_new_def nearby_poll_inv_def split: option.splits)
qed

definition nearby_poll_example :: nearby_poll where
  "nearby_poll_example = \<lparr>np_delayMs = 10000, np_cancelScheduled = None, np_enabled = False,
     np_inFlight = False, np_timers = [], np_reads = 0, np_next = 0\<rparr>"

theorem nearby_poll_cadence_witness:
  "np_timers (np_stop (np_start nearby_poll_example)) = [] \<and> np_reads (np_start nearby_poll_example) \<le> 1"
proof -
  let ?p = nearby_poll_example
  have new: "nearby_poll_new (Finite 10000) = Inr ?p"
    by (simp add: nearby_poll_new_def nearby_poll_example_def)
  have start: "nearby_poll_step\<^sup>*\<^sup>* ?p (np_start ?p)"
    by (rule r_into_rtranclp) (rule nearby_poll_step.np_call_start)
  then have stop: "nearby_poll_step\<^sup>*\<^sup>* ?p (np_stop (np_start ?p))"
    by (rule rtranclp.rtrancl_into_rtrancl) (rule nearby_poll_step.np_call_stop)
  have "\<not> np_enabled (np_stop (np_start ?p))" by (simp add: np_stop_def split: option.splits)
  then show ?thesis using nearby_poll_cadence [OF new start] nearby_poll_cadence [OF new stop] by blast
qed

text \<open>
  An inhibited reconnect gate stays silent: from construction, in a state where automatic
  attempts are inhibited, every step other than \<open>allow\<close> keeps the inhibition, grants no attempt,
  asks for no retry and leaves no retry timer armed.
\<close>

theorem reconnect_inhibited_silent:
  assumes "reconnect_new d = Inr r0" and "reconnect_trans\<^sup>*\<^sup>* r0 r" and "fr_inhibited r"
    and "reconnect_step r e r'" and "e \<noteq> FrAllow"
  shows "fr_inhibited r' \<and> fr_requested r' = fr_requested r \<and> fr_timers r' = []
    \<and> (\<forall>request. e \<noteq> FrBegin request True)"
proof -
  have inv: "reconnect_inv r"
    using reconnect.reach_inv [OF assms(2)] reconnect_new_inv [OF assms(1)] by blast
  from assms(4) inv assms(3,5) show ?thesis
    by (induction rule: reconnect_step.induct)
      (auto simp: reconnect_inv_def fr_begin_def fr_settle_def fr_suspend_def fr_inhibit_def
        fr_clearScheduled_def fr_timer_fires_def Let_def split: option.splits if_splits)
qed

definition reconnect_example :: reconnect where
  "reconnect_example = \<lparr>fr_delayMs = 1, fr_cancelScheduled = None, fr_enabled = False,
     fr_inhibited = False, fr_inFlight = False, fr_lastRequest = None, fr_timers = [], fr_next = 0,
     fr_requested = 0\<rparr>"

theorem reconnect_inhibited_silent_witness:
  "fr_inhibited (fr_inhibit reconnect_example) \<and> fr_begin 7 (fr_inhibit reconnect_example) =
     (False, fr_inhibit reconnect_example) \<and> fr_timers (fr_inhibit reconnect_example) = []"
proof -
  let ?r = "fr_inhibit reconnect_example"
  have new: "reconnect_new (Finite 1) = Inr reconnect_example"
    by (simp add: reconnect_new_def reconnect_example_def)
  have reach: "reconnect_trans\<^sup>*\<^sup>* reconnect_example ?r"
    unfolding reconnect_trans_def by (rule r_into_rtranclp) (blast intro: reconnect_step.fr_call_inhibit)
  have inh: "fr_inhibited ?r" by (simp add: fr_inhibit_def fr_suspend_def fr_clearScheduled_def reconnect_example_def)
  then have begin7: "fr_begin 7 ?r = (False, ?r)" by (simp add: fr_begin_def)
  then have "reconnect_step ?r (FrBegin 7 False) ?r" by (rule reconnect_step.fr_call_begin)
  then show ?thesis
    using reconnect_inhibited_silent [OF new reach inh, of "FrBegin 7 False" ?r] begin7 by simp
qed

text \<open>
  The latest-request guard rejects every superseded completion: a generation issued by
  \<open>begin\<close> is accepted at once, and after any later \<open>begin\<close> or \<open>invalidate\<close> it is
  never accepted again.
\<close>

theorem latest_request_supersedes:
  assumes "lr_begin r = (g, r1)" and "latest_request_step r1 r2" and "latest_request_step\<^sup>*\<^sup>* r2 r3"
  shows "lr_accepts r1 g \<and> \<not> lr_accepts r3 g"
proof -
  have "g = lr_generation r1" using assms(1) by (auto simp: lr_begin_def Let_def)
  moreover have "lr_generation r1 < lr_generation r2"
    using assms(2) by (auto simp: lr_begin_def lr_invalidate_def Let_def elim!: latest_request_step.cases)
  ultimately show ?thesis using latest.superseded_forever [OF assms(3)] by (simp add: lr_accepts_def)
qed

theorem latest_request_supersedes_witness:
  "lr_accepts \<lparr>lr_generation = 1\<rparr> 1 \<and> \<not> lr_accepts (lr_invalidate \<lparr>lr_generation = 1\<rparr>) 1"
  using latest_request_supersedes [of latest_request_new 1 "\<lparr>lr_generation = 1\<rparr>", OF _
      latest_request_step.lr_call_invalidate rtranclp.rtrancl_refl]
  by (simp add: lr_begin_def latest_request_new_def)

end
