(* ===== verification/ExclusiveResource.thy ===== *)
theory ExclusiveResource
  imports Prelude
begin

text \<open>
  Model of \<open>lib/exclusive-resource.ts\<close>: ownership of a process-local resource, serialised by a
  chain of promises. Every call of \<open>acquireExclusiveResource\<close> is one acquisition, numbered in the
  order of the calls; its phase says at which \<open>await\<close> the call stands. The promise
  \<open>ownershipTail\<close> before the call number \<open>i\<close> is written out as the chain of \<open>then\<close> it is
  in the code. The opener and the closer are code of the caller: that they settle, with which
  result and when, is a step of the environment.
\<close>

section \<open>State and operations\<close>

datatype 'v acquisition_phase =
  AwaitPredecessor | AwaitOpen | Returned 'v | AwaitClose 'v | OpenFailed thrown | Closed

record 'v acquisition =
  aq_phase :: "'v acquisition_phase"
  aq_released :: bool
  aq_finished :: bool \<comment> \<open>\<open>ownershipFinished\<close> has been resolved\<close>

record 'v exclusive =
  ex_acqs :: "'v acquisition list"
  ex_opened :: "nat list" \<comment> \<open>the acquisitions whose \<open>open\<close> was called, oldest first\<close>

definition exclusive_new :: "'v exclusive" where
  "exclusive_new = \<lparr>ex_acqs = [], ex_opened = []\<rparr>"

text \<open>\<open>ownershipTail\<close> as acquisition \<open>i\<close> finds it is \<^verbatim>\<open>predecessor.then(() => ownershipFinished)\<close>.\<close>

primrec ownershipTail_resolved :: "'v acquisition list \<Rightarrow> nat \<Rightarrow> bool" where
  "ownershipTail_resolved as 0 = True"
| "ownershipTail_resolved as (Suc i) = (ownershipTail_resolved as i \<and> aq_finished (as ! i))"

definition acquireExclusiveResource :: "'v exclusive \<Rightarrow> 'v exclusive" where
  "acquireExclusiveResource s =
     s\<lparr>ex_acqs := ex_acqs s @ [\<lparr>aq_phase = AwaitPredecessor, aq_released = False, aq_finished = False\<rparr>]\<rparr>"

definition ex_begin_open :: "nat \<Rightarrow> 'v exclusive \<Rightarrow> 'v exclusive" where
  "ex_begin_open i s =
     s\<lparr>ex_acqs := (ex_acqs s)[i := (ex_acqs s ! i)\<lparr>aq_phase := AwaitOpen\<rparr>], ex_opened := ex_opened s @ [i]\<rparr>"

definition ex_open_settles :: "nat \<Rightarrow> 'v settled \<Rightarrow> 'v exclusive \<Rightarrow> 'v exclusive" where
  "ex_open_settles i r s =
     (let a = ex_acqs s ! i
      in s\<lparr>ex_acqs := (ex_acqs s)[i :=
           (case r of
              Fulfilled v \<Rightarrow> a\<lparr>aq_phase := Returned v, aq_released := False\<rparr>
            | Rejected e \<Rightarrow> a\<lparr>aq_phase := OpenFailed e, aq_finished := True\<rparr>)]\<rparr>)"

definition ex_release :: "nat \<Rightarrow> 'v exclusive \<Rightarrow> 'v exclusive" where
  "ex_release i s =
     (let a = ex_acqs s ! i
      in if aq_released a then s
         else case aq_phase a of
           Returned v \<Rightarrow>
             s\<lparr>ex_acqs := (ex_acqs s)[i := a\<lparr>aq_released := True, aq_phase := AwaitClose v\<rparr>]\<rparr>
         | _ \<Rightarrow> s)"

definition ex_close_settles :: "nat \<Rightarrow> unit settled \<Rightarrow> 'v exclusive \<Rightarrow> 'v exclusive" where
  "ex_close_settles i r s =
     s\<lparr>ex_acqs := (ex_acqs s)[i := (ex_acqs s ! i)\<lparr>aq_phase := Closed, aq_finished := True\<rparr>]\<rparr>"

fun ex_owns :: "'v acquisition_phase \<Rightarrow> bool" where
  "ex_owns AwaitOpen = True"
| "ex_owns (Returned v) = True"
| "ex_owns (AwaitClose v) = True"
| "ex_owns _ = False"

text \<open>\<open>release\<close> exists only once the call has returned its handle.\<close>

fun ex_has_handle :: "'v acquisition_phase \<Rightarrow> bool" where
  "ex_has_handle (Returned v) = True"
| "ex_has_handle (AwaitClose v) = True"
| "ex_has_handle Closed = True"
| "ex_has_handle _ = False"

inductive exclusive_step :: "'v exclusive \<Rightarrow> 'v exclusive \<Rightarrow> bool" where
  ex_call_acquire: "exclusive_step s (acquireExclusiveResource s)"
| ex_predecessor: "\<lbrakk>i < length (ex_acqs s); aq_phase (ex_acqs s ! i) = AwaitPredecessor;
     ownershipTail_resolved (ex_acqs s) i\<rbrakk> \<Longrightarrow> exclusive_step s (ex_begin_open i s)"
| ex_open_done: "\<lbrakk>i < length (ex_acqs s); aq_phase (ex_acqs s ! i) = AwaitOpen\<rbrakk>
     \<Longrightarrow> exclusive_step s (ex_open_settles i r s)"
| ex_call_release: "\<lbrakk>i < length (ex_acqs s); ex_has_handle (aq_phase (ex_acqs s ! i))\<rbrakk>
     \<Longrightarrow> exclusive_step s (ex_release i s)"
| ex_close_done: "\<lbrakk>i < length (ex_acqs s); aq_phase (ex_acqs s ! i) = AwaitClose v\<rbrakk>
     \<Longrightarrow> exclusive_step s (ex_close_settles i r s)"

section \<open>Invariant\<close>

lemma ownershipTail_resolved_iff: "ownershipTail_resolved as i \<longleftrightarrow> (\<forall>j<i. aq_finished (as ! j))"
  by (induction i) (auto simp: less_Suc_eq)

definition acq_ok :: "'v acquisition \<Rightarrow> bool" where
  "acq_ok a \<longleftrightarrow> (aq_finished a \<longleftrightarrow> aq_phase a = Closed \<or> (\<exists>e. aq_phase a = OpenFailed e))
     \<and> (aq_released a \<longleftrightarrow> aq_phase a = Closed \<or> (\<exists>v. aq_phase a = AwaitClose v))"

text \<open>
  The acquisitions opened so far are a prefix of the queue, and every acquisition before an opened
  one is finished.
\<close>

definition exclusive_inv :: "'v exclusive \<Rightarrow> bool" where
  "exclusive_inv s \<longleftrightarrow>
     (\<forall>i < length (ex_acqs s). acq_ok (ex_acqs s ! i)) \<and>
     ex_opened s = [0..<length (ex_opened s)] \<and> length (ex_opened s) \<le> length (ex_acqs s) \<and>
     (\<forall>i < length (ex_acqs s). aq_phase (ex_acqs s ! i) \<noteq> AwaitPredecessor \<longleftrightarrow> i < length (ex_opened s)) \<and>
     (\<forall>i. Suc i < length (ex_opened s) \<longrightarrow> aq_finished (ex_acqs s ! i))"

lemma acq_ok_finished_opened: "acq_ok a \<Longrightarrow> aq_finished a \<Longrightarrow> aq_phase a \<noteq> AwaitPredecessor"
  by (auto simp: acq_ok_def)

lemma exclusive_begin_open_next:
  assumes inv: "exclusive_inv s" and i: "i < length (ex_acqs s)"
    and ph: "aq_phase (ex_acqs s ! i) = AwaitPredecessor" and tail: "ownershipTail_resolved (ex_acqs s) i"
  shows "i = length (ex_opened s)"
proof -
  have "\<not> i < length (ex_opened s)" using inv i ph by (auto simp: exclusive_inv_def)
  moreover have "\<not> length (ex_opened s) < i"
  proof
    assume l: "length (ex_opened s) < i"
    then have "aq_finished (ex_acqs s ! length (ex_opened s))"
      using tail by (simp add: ownershipTail_resolved_iff)
    moreover from l i have "length (ex_opened s) < length (ex_acqs s)" by simp
    ultimately show False
      using inv acq_ok_finished_opened [of "ex_acqs s ! length (ex_opened s)"]
      by (simp add: exclusive_inv_def)
  qed
  ultimately show ?thesis by simp
qed

lemma exclusive_step_inv: "exclusive_step s t \<Longrightarrow> exclusive_inv s \<Longrightarrow> exclusive_inv t"
proof (induction rule: exclusive_step.induct)
  case (ex_call_acquire s)
  then show ?case
    by (auto simp: exclusive_inv_def acquireExclusiveResource_def nth_append acq_ok_def less_Suc_eq)
next
  case (ex_predecessor i s)
  have i: "i = length (ex_opened s)" using exclusive_begin_open_next ex_predecessor by blast
  from ex_predecessor show ?case
    unfolding exclusive_inv_def ex_begin_open_def ownershipTail_resolved_iff i
    by (auto simp: nth_list_update acq_ok_def less_Suc_eq)
next
  case (ex_open_done i s r)
  then show ?case
    by (cases r) (auto simp: exclusive_inv_def ex_open_settles_def Let_def nth_list_update acq_ok_def)
next
  case (ex_call_release i s)
  then show ?case
    by (cases "aq_phase (ex_acqs s ! i)")
      (auto simp: exclusive_inv_def ex_release_def Let_def nth_list_update acq_ok_def)
next
  case (ex_close_done i s v r)
  then show ?case
    by (auto simp: exclusive_inv_def ex_close_settles_def nth_list_update acq_ok_def)
qed

interpretation exclusive: step_invariant exclusive_step exclusive_inv
  by unfold_locales (rule exclusive_step_inv)

lemma exclusive_new_inv: "exclusive_inv exclusive_new"
  by (simp add: exclusive_inv_def exclusive_new_def)

lemma ex_owns_last_opened:
  assumes "exclusive_inv s" and "i < length (ex_acqs s)" and "ex_owns (aq_phase (ex_acqs s ! i))"
  shows "Suc i = length (ex_opened s)"
proof -
  have "\<not> aq_finished (ex_acqs s ! i)" using assms by (auto simp: exclusive_inv_def acq_ok_def)
  moreover have "i < length (ex_opened s)"
    using assms by (cases "aq_phase (ex_acqs s ! i)") (auto simp: exclusive_inv_def)
  ultimately show ?thesis using assms(1) by (auto simp: exclusive_inv_def) (metis Suc_lessI)
qed

lemma exclusive_two_requests:
  "exclusive_step\<^sup>*\<^sup>* exclusive_new (acquireExclusiveResource (acquireExclusiveResource exclusive_new))"
proof (rule rtranclp.rtrancl_into_rtrancl)
  show "exclusive_step\<^sup>*\<^sup>* exclusive_new (acquireExclusiveResource exclusive_new)"
    by (rule r_into_rtranclp) (rule exclusive_step.ex_call_acquire)
qed (rule exclusive_step.ex_call_acquire)

section \<open>Properties\<close>

text \<open>
  C12. Ownership is exclusive and first come, first served: in every reachable state at most one
  acquisition is between the call of its opener and the end of its closer, and openers have been
  called exactly for the first acquisitions, in the order in which they were requested.
\<close>

theorem exclusive_mutual_exclusion:
  assumes "exclusive_step\<^sup>*\<^sup>* exclusive_new s"
  shows "ex_opened s = [0..<length (ex_opened s)]
    \<and> (\<forall>i<length (ex_acqs s). \<forall>j<length (ex_acqs s).
         ex_owns (aq_phase (ex_acqs s ! i)) \<longrightarrow> ex_owns (aq_phase (ex_acqs s ! j)) \<longrightarrow> i = j)"
proof -
  have inv: "exclusive_inv s" by (rule exclusive.reach_inv [OF assms exclusive_new_inv])
  then have "ex_opened s = [0..<length (ex_opened s)]" by (simp add: exclusive_inv_def)
  moreover have "\<forall>i<length (ex_acqs s). \<forall>j<length (ex_acqs s).
      ex_owns (aq_phase (ex_acqs s ! i)) \<longrightarrow> ex_owns (aq_phase (ex_acqs s ! j)) \<longrightarrow> i = j"
    using ex_owns_last_opened [OF inv] by (metis Suc_inject)
  ultimately show ?thesis by blast
qed

theorem exclusive_mutual_exclusion_witness:
  "let s = ex_begin_open 0 (acquireExclusiveResource (acquireExclusiveResource (exclusive_new :: nat exclusive)))
   in ex_opened s = [0] \<and> ex_owns (aq_phase (ex_acqs s ! 0)) \<and> \<not> ex_owns (aq_phase (ex_acqs s ! 1))"
proof -
  define s0 where "s0 = acquireExclusiveResource (acquireExclusiveResource (exclusive_new :: nat exclusive))"
  have "exclusive_step\<^sup>*\<^sup>* exclusive_new s0"
    unfolding s0_def by (rule exclusive_two_requests)
  moreover have "exclusive_step s0 (ex_begin_open 0 s0)"
    by (rule exclusive_step.ex_predecessor)
      (auto simp: s0_def acquireExclusiveResource_def exclusive_new_def)
  ultimately have reach: "exclusive_step\<^sup>*\<^sup>* exclusive_new (ex_begin_open 0 s0)" by (rule rtranclp.rtrancl_into_rtrancl)
  have len: "length (ex_acqs (ex_begin_open 0 s0)) = 2" "ex_opened (ex_begin_open 0 s0) = [0]"
    "ex_owns (aq_phase (ex_acqs (ex_begin_open 0 s0) ! 0))"
    by (auto simp: s0_def ex_begin_open_def acquireExclusiveResource_def exclusive_new_def)
  have "\<not> ex_owns (aq_phase (ex_acqs (ex_begin_open 0 s0) ! 1))"
  proof
    assume "ex_owns (aq_phase (ex_acqs (ex_begin_open 0 s0) ! 1))"
    moreover have "0 < length (ex_acqs (ex_begin_open 0 s0))" "1 < length (ex_acqs (ex_begin_open 0 s0))"
      using len by simp_all
    ultimately have "(0::nat) = 1"
      using exclusive_mutual_exclusion [OF reach] len(3) by blast
    then show False by simp
  qed
  with len show ?thesis by (simp add: s0_def Let_def)
qed

text \<open>
  C13. The queue never stalls behind a failure: in every reachable state, if some acquisition has not
  finished, then the first unfinished one either owns the resource (its opener, its holder or its
  closer is at work) or its predecessor chain is resolved, so its opener may run now. A failed open
  or close therefore still advances the queue.
\<close>

theorem exclusive_queue_advances:
  assumes "exclusive_step\<^sup>*\<^sup>* exclusive_new s" and "i < length (ex_acqs s)"
    and "\<not> aq_finished (ex_acqs s ! i)" and "\<forall>j<i. aq_finished (ex_acqs s ! j)"
  shows "ex_owns (aq_phase (ex_acqs s ! i)) \<or> exclusive_step s (ex_begin_open i s)"
proof -
  have inv: "exclusive_inv s" by (rule exclusive.reach_inv [OF assms(1) exclusive_new_inv])
  show ?thesis
  proof (cases "aq_phase (ex_acqs s ! i)")
    case AwaitPredecessor
    with assms show ?thesis by (simp add: exclusive_step.ex_predecessor ownershipTail_resolved_iff)
  qed (use inv assms in \<open>auto simp: exclusive_inv_def acq_ok_def\<close>)
qed

definition exclusive_failed_example :: "nat exclusive" where
  "exclusive_failed_example =
     ex_open_settles 0 (Rejected (ErrorObject (js ''open failed'')))
       (ex_begin_open 0 (acquireExclusiveResource (acquireExclusiveResource exclusive_new)))"

theorem exclusive_queue_advances_witness:
  "exclusive_step exclusive_failed_example (ex_begin_open 1 exclusive_failed_example)"
proof -
  define s0 where "s0 = acquireExclusiveResource (acquireExclusiveResource (exclusive_new :: nat exclusive))"
  note defs = s0_def ex_begin_open_def acquireExclusiveResource_def exclusive_new_def
  have "exclusive_step\<^sup>*\<^sup>* exclusive_new s0"
    unfolding s0_def by (rule exclusive_two_requests)
  moreover have "exclusive_step s0 (ex_begin_open 0 s0)"
    by (rule exclusive_step.ex_predecessor) (auto simp: defs)
  moreover have "exclusive_step (ex_begin_open 0 s0) exclusive_failed_example"
    unfolding exclusive_failed_example_def s0_def [symmetric]
    by (rule exclusive_step.ex_open_done) (auto simp: defs)
  ultimately have reach: "exclusive_step\<^sup>*\<^sup>* exclusive_new exclusive_failed_example"
    by (blast intro: rtranclp.rtrancl_into_rtrancl)
  show ?thesis
    using exclusive_queue_advances [OF reach, of 1]
    by (simp add: exclusive_failed_example_def ex_open_settles_def defs)
qed

end
