(* ===== verification/LoraProfile.thy ===== *)
theory LoraProfile
  imports Prelude
begin

text \<open>
  Model of \<open>lib/lora-radio-profile.ts\<close>: the LoRa radio profile draft, its validation against the
  fitted path of the radio, the decimal MHz input field, presets, and the import of an RMAP
  \<open>RNodeInterface\<close> configuration block. Frequencies, bandwidths, spreading factors and coding rates
  are unsigned whole numbers (\<open>nat\<close>), transmit power a signed one (\<open>int\<close>). A result
  \<open>Inl error\<close> is \<^verbatim>\<open>{ok: false, error}\<close>.

  The code computes with doubles and tests \<open>Number.isSafeInteger\<close>. On the inputs that pass that
  test every intermediate result is an integer below \<open>2^53\<close> and exact; rounding is monotone, so an
  exact value of \<open>2^53\<close> or more never rounds below it, and the test on exact numbers decides alike.
\<close>

section \<open>Constants and data\<close>

definition LORA_FITTED_PATH_MIN_HZ :: nat where "LORA_FITTED_PATH_MIN_HZ = 863000000"
definition LORA_FITTED_PATH_MAX_HZ :: nat where "LORA_FITTED_PATH_MAX_HZ = 928000000"

definition LORA_BANDWIDTH_OPTIONS_HZ :: "nat list" where
  "LORA_BANDWIDTH_OPTIONS_HZ = [10420, 15630, 20830, 31250, 41670, 62500, 125000, 250000, 500000]"

definition LORA_SPREADING_FACTOR_OPTIONS :: "nat list" where
  "LORA_SPREADING_FACTOR_OPTIONS = [7, 8, 9, 10, 11, 12]"

definition LORA_CODING_RATE_DENOMINATOR_OPTIONS :: "nat list" where
  "LORA_CODING_RATE_DENOMINATOR_OPTIONS = [5, 6, 7, 8]"

definition LORA_TX_POWER_OPTIONS_DBM :: "int list" where
  "LORA_TX_POWER_OPTIONS_DBM = [14, 17, 20, 22]"

record LoraRadioProfileDraft =
  ld_bandwidthHz :: nat
  ld_codingRateDenominator :: nat
  ld_frequencyMhz :: jstring
  ld_spreadingFactor :: nat
  ld_txPowerDbm :: int

record LoraRadioParameters =
  lp_bandwidth_hz :: nat
  lp_coding_rate_denominator :: nat
  lp_frequency_hz :: nat
  lp_spreading_factor :: nat

record LoraRadioProfileView = LoraRadioParameters +
  lp_tx_power_dbm :: int

record LoraProfilePreset =
  pr_description :: jstring
  pr_id :: jstring
  pr_label :: jstring
  pr_parameters :: LoraRadioParameters

definition LORA_PROFILE_PRESETS :: "LoraProfilePreset list" where
  "LORA_PROFILE_PRESETS =
     [\<lparr>pr_description = js ''Matches the current E290 NA915 appliance default'',
       pr_id = js ''e290-na915-default'',
       pr_label = js ''NA915 default'',
       pr_parameters = \<lparr>lp_bandwidth_hz = 125000, lp_coding_rate_denominator = 5,
                        lp_frequency_hz = 915000000, lp_spreading_factor = 7\<rparr>\<rparr>]"

definition BANDWIDTH_EDGE_WIDTH_HZ :: "nat \<rightharpoonup> nat" where
  "BANDWIDTH_EDGE_WIDTH_HZ =
     map_of [(7810, 7813), (10420, 10417), (15630, 15625), (20830, 20834), (31250, 31250),
             (41670, 41667), (62500, 62500), (125000, 125000), (250000, 250000), (500000, 500000)]"

definition RMAP_BANDWIDTH_ALIASES :: "nat \<rightharpoonup> nat" where
  "RMAP_BANDWIDTH_ALIASES =
     map_of [(7800, 7810), (10400, 10420), (15600, 15630), (20800, 20830), (41700, 41670)]"

section \<open>Field helpers\<close>

definition includesNumber :: "'n list \<Rightarrow> 'n \<Rightarrow> bool" where
  "includesNumber values candidate \<longleftrightarrow> list_ex (\<lambda>value. value = candidate) values"

definition canonicalBandwidthHz :: "nat \<Rightarrow> nat" where
  "canonicalBandwidthHz value =
     (case RMAP_BANDWIDTH_ALIASES value of Some bw \<Rightarrow> bw | None \<Rightarrow> value)"

definition isUnverifiedRnodeLdroTuple :: "nat \<Rightarrow> nat \<Rightarrow> bool" where
  "isUnverifiedRnodeLdroTuple bandwidthHz sf =
     (if bandwidthHz = 7810 then 7 \<le> sf
      else if bandwidthHz = 10420 \<or> bandwidthHz = 15630 then 8 \<le> sf
      else if bandwidthHz = 20830 then 9 \<le> sf
      else if bandwidthHz = 31250 \<or> bandwidthHz = 41670 then 10 \<le> sf
      else if bandwidthHz = 62500 then 11 \<le> sf
      else if bandwidthHz = 125000 then sf = 11
      else if bandwidthHz = 250000 then sf = 12
      else False)"

text \<open>The test \<^verbatim>\<open>/^\d+(?:\.\d{1,6})?$/\<close>.\<close>

definition frequency_syntax :: "jstring \<Rightarrow> bool" where
  "frequency_syntax s =
     (let whole = takeWhile is_digit s; rest = dropWhile is_digit s
      in whole \<noteq> [] \<and>
         (case rest of
            [] \<Rightarrow> True
          | c # fraction \<Rightarrow> c = 46 \<and> list_all is_digit fraction \<and> 1 \<le> length fraction \<and> length fraction \<le> 6))"

definition parseFrequencyMhz :: "jstring \<Rightarrow> jstring + nat" where
  "parseFrequencyMhz input =
     (let trimmed = js_trim input
      in if \<not> frequency_syntax trimmed
         then Inl (js ''Frequency must be decimal MHz with no sign or exponent and at most 6 decimals'')
         else let parts = js_split 46 trimmed;
                  whole = hd parts;
                  fraction = (case tl parts of [] \<Rightarrow> [] | f # _ \<Rightarrow> f);
                  frequencyHz = digits_value whole * 1000000 + digits_value (js_padEnd 6 48 fraction)
              in if \<not> isSafeInteger (int frequencyHz)
                 then Inl (js ''Frequency is outside the exact numeric range'')
                 else Inr frequencyHz)"

definition formatFrequencyMhzInput :: "nat \<Rightarrow> jstring" where
  "formatFrequencyMhzInput frequencyHz =
     (let whole = frequencyHz div 1000000;
          fraction = js_strip_end 48 (js_padStart 6 48 (nat_digits (frequencyHz mod 1000000)))
      in if fraction = [] then nat_digits whole else nat_digits whole @ 46 # fraction)"

definition formatLoraBandwidth :: "nat \<Rightarrow> jstring" where
  "formatLoraBandwidth bandwidthHz =
     (let kilohertz = js_divide bandwidthHz 1000
      in (if js_isInteger kilohertz then nat_digits (js_floor kilohertz)
          else let fixed = js_strip_end 48 (js_toFixed 2 kilohertz)
               in if fixed \<noteq> [] \<and> last fixed = 46 then butlast fixed else fixed) @ js '' kHz'')"

definition formatLoraRadioParameters :: "'a LoraRadioParameters_scheme \<Rightarrow> jstring" where
  "formatLoraRadioParameters p =
     js_toFixed 3 (js_divide (lp_frequency_hz p) 1000000) @ js '' MHz '' @ [183] @ js '' BW '' @
     formatLoraBandwidth (lp_bandwidth_hz p) @ [32, 183] @ js '' SF'' @ nat_digits (lp_spreading_factor p) @
     [32, 183] @ js '' CR 4/'' @ nat_digits (lp_coding_rate_denominator p)"

definition draftFromLoraProfile :: "LoraRadioProfileView \<Rightarrow> LoraRadioProfileDraft" where
  "draftFromLoraProfile profile =
     \<lparr>ld_bandwidthHz = lp_bandwidth_hz profile,
      ld_codingRateDenominator = lp_coding_rate_denominator profile,
      ld_frequencyMhz = formatFrequencyMhzInput (lp_frequency_hz profile),
      ld_spreadingFactor = lp_spreading_factor profile,
      ld_txPowerDbm = lp_tx_power_dbm profile\<rparr>"

definition loraProfilesEqual :: "LoraRadioProfileView \<Rightarrow> LoraRadioProfileView \<Rightarrow> bool" where
  "loraProfilesEqual left right \<longleftrightarrow>
     lp_frequency_hz left = lp_frequency_hz right \<and>
     lp_bandwidth_hz left = lp_bandwidth_hz right \<and>
     lp_spreading_factor left = lp_spreading_factor right \<and>
     lp_coding_rate_denominator left = lp_coding_rate_denominator right \<and>
     lp_tx_power_dbm left = lp_tx_power_dbm right"

definition matchingLoraPresetId :: "'a LoraRadioParameters_scheme \<Rightarrow> jstring option" where
  "matchingLoraPresetId parameters =
     map_option pr_id
       (find (\<lambda>candidate.
          lp_frequency_hz (pr_parameters candidate) = lp_frequency_hz parameters \<and>
          lp_bandwidth_hz (pr_parameters candidate) = lp_bandwidth_hz parameters \<and>
          lp_spreading_factor (pr_parameters candidate) = lp_spreading_factor parameters \<and>
          lp_coding_rate_denominator (pr_parameters candidate) = lp_coding_rate_denominator parameters)
        LORA_PROFILE_PRESETS)"

definition applyLoraPreset :: "LoraRadioProfileDraft \<Rightarrow> LoraProfilePreset \<Rightarrow> LoraRadioProfileDraft" where
  "applyLoraPreset draft preset =
     \<lparr>ld_bandwidthHz = lp_bandwidth_hz (pr_parameters preset),
      ld_codingRateDenominator = lp_coding_rate_denominator (pr_parameters preset),
      ld_frequencyMhz = formatFrequencyMhzInput (lp_frequency_hz (pr_parameters preset)),
      ld_spreadingFactor = lp_spreading_factor (pr_parameters preset),
      ld_txPowerDbm = ld_txPowerDbm draft\<rparr>"

section \<open>Validation\<close>

definition fitted_path_error :: jstring where
  "fitted_path_error =
     js ''The complete channel must fit inside this radio'' @ [39] @ js ''s '' @
     js_toFixed 0 (js_divide LORA_FITTED_PATH_MIN_HZ 1000000) @ [8211] @
     js_toFixed 0 (js_divide LORA_FITTED_PATH_MAX_HZ 1000000) @ js '' MHz fitted path''"

definition validateLoraRadioProfileDraft :: "LoraRadioProfileDraft \<Rightarrow> jstring + LoraRadioProfileView" where
  "validateLoraRadioProfileDraft draft =
     (case parseFrequencyMhz (ld_frequencyMhz draft) of
        Inl e \<Rightarrow> Inl e
      | Inr frequencyHz \<Rightarrow>
        let bandwidthHz = canonicalBandwidthHz (ld_bandwidthHz draft) in
        if \<not> includesNumber LORA_BANDWIDTH_OPTIONS_HZ bandwidthHz
        then Inl (js ''Select a supported LoRa bandwidth'')
        else if \<not> includesNumber LORA_SPREADING_FACTOR_OPTIONS (ld_spreadingFactor draft)
        then Inl (js ''Spreading factor must be from 7 through 12'')
        else if \<not> includesNumber LORA_CODING_RATE_DENOMINATOR_OPTIONS (ld_codingRateDenominator draft)
        then Inl (js ''Coding rate must be from 4/5 through 4/8'')
        else if \<not> includesNumber LORA_TX_POWER_OPTIONS_DBM (ld_txPowerDbm draft)
        then Inl (js ''Select a transmit power supported by this appliance'')
        else case BANDWIDTH_EDGE_WIDTH_HZ bandwidthHz of
          None \<Rightarrow> Inl (js ''Select a supported LoRa bandwidth'')
        | Some edgeWidthHz \<Rightarrow>
          let lowerHalfHz = int edgeWidthHz div 2; upperHalfHz = int edgeWidthHz - lowerHalfHz in
          if int frequencyHz - lowerHalfHz < int LORA_FITTED_PATH_MIN_HZ \<or>
             int frequencyHz + upperHalfHz > int LORA_FITTED_PATH_MAX_HZ
          then Inl fitted_path_error
          else if isUnverifiedRnodeLdroTuple bandwidthHz (ld_spreadingFactor draft)
          then Inl (js ''BW '' @ formatLoraBandwidth bandwidthHz @ js '' with SF'' @
                    nat_digits (ld_spreadingFactor draft) @
                    js '' is not yet qualified for RNode interoperability'')
          else Inr \<lparr>lp_bandwidth_hz = bandwidthHz,
                    lp_coding_rate_denominator = ld_codingRateDenominator draft,
                    lp_frequency_hz = frequencyHz,
                    lp_spreading_factor = ld_spreadingFactor draft,
                    lp_tx_power_dbm = ld_txPowerDbm draft\<rparr>)"

section \<open>RMAP configuration import\<close>

text \<open>
  \<open>stripInlineComment\<close>, with the previous character and the open quote (if any) as loop state:
  34 is the double quote, 39 the single quote, 92 the backslash, 35 and 59 start a comment.
\<close>

fun strip_comment_loop :: "nat option \<Rightarrow> nat option \<Rightarrow> jstring \<Rightarrow> jstring" where
  "strip_comment_loop prev quote [] = []"
| "strip_comment_loop prev quote (c # cs) =
     (if (c = 34 \<or> c = 39) \<and> prev \<noteq> Some 92
      then c # strip_comment_loop (Some c)
             (case quote of None \<Rightarrow> Some c | Some q \<Rightarrow> if q = c then None else Some q) cs
      else if quote = None \<and> (c = 35 \<or> c = 59) then []
      else c # strip_comment_loop (Some c) quote cs)"

definition stripInlineComment :: "jstring \<Rightarrow> jstring" where
  "stripInlineComment line = strip_comment_loop None None line"

definition unquoteConfigValue :: "jstring \<Rightarrow> jstring option" where
  "unquoteConfigValue value =
     (let trimmed = js_trim value
      in if length trimmed < 2 then Some trimmed
         else let first = hd trimmed; lst = last trimmed
              in if first = 34 \<or> first = 39
                 then (if lst = first then Some (butlast (tl trimmed)) else None)
                 else if lst = 34 \<or> lst = 39 then None else Some trimmed)"

definition parseUnsignedConfigInteger :: "jstring \<Rightarrow> jstring \<Rightarrow> jstring + nat" where
  "parseUnsignedConfigInteger key value =
     (case unquoteConfigValue value of
        None \<Rightarrow> Inl (key @ js '' must be a non-negative whole number'')
      | Some unquoted \<Rightarrow>
          if unquoted = [] \<or> \<not> list_all is_digit unquoted
          then Inl (key @ js '' must be a non-negative whole number'')
          else let parsed = digits_value unquoted
               in if \<not> isSafeInteger (int parsed)
                  then Inl (key @ js '' is outside the exact numeric range'')
                  else Inr parsed)"

text \<open>\<^verbatim>\<open>replaceAll("\r\n", "\n")\<close>.\<close>

fun js_replace_crlf :: "jstring \<Rightarrow> jstring" where
  "js_replace_crlf [] = []"
| "js_replace_crlf [c] = [c]"
| "js_replace_crlf (c # d # ds) =
     (if c = 13 \<and> d = 10 then 10 # js_replace_crlf ds else c # js_replace_crlf (d # ds))"

text \<open>\<^verbatim>\<open>/^\[\[([^[\]]+)\]\]$/\<close>: the captured name of a section line (91 and 93 are the brackets).\<close>

definition match_section :: "jstring \<Rightarrow> jstring option" where
  "match_section line =
     (let inner = butlast (butlast (drop 2 line))
      in if take 2 line = [91, 91] \<and> 5 \<le> length line \<and> drop (length line - 2) line = [93, 93] \<and>
            91 \<notin> set inner \<and> 93 \<notin> set inner
         then Some inner else None)"

definition is_letter :: "nat \<Rightarrow> bool" where
  "is_letter c \<longleftrightarrow> (65 \<le> c \<and> c \<le> 90) \<or> (97 \<le> c \<and> c \<le> 122)"

definition is_key_unit :: "nat \<Rightarrow> bool" where
  "is_key_unit c \<longleftrightarrow> is_letter c \<or> is_digit c \<or> c = 95 \<or> c = 45"

definition is_line_terminator :: "nat \<Rightarrow> bool" where
  "is_line_terminator c \<longleftrightarrow> c = 10 \<or> c = 13 \<or> c = 8232 \<or> c = 8233"

text \<open>
  \<^verbatim>\<open>/^([A-Za-z][A-Za-z0-9_-]*)\s*=\s*(.+)$/\<close> on a trimmed line. The greedy choice of each part is the
  only one: a key character is neither white space nor \<open>=\<close>, and a trimmed line has no white space
  at its end for the last group to fall back on.
\<close>

definition match_assignment :: "jstring \<Rightarrow> (jstring \<times> jstring) option" where
  "match_assignment line =
     (let key = takeWhile is_key_unit line;
          rest = dropWhile is_space (dropWhile is_key_unit line)
      in if key = [] \<or> \<not> is_letter (hd key) then None
         else case rest of
           [] \<Rightarrow> None
         | c # cs \<Rightarrow>
             let value = dropWhile is_space cs
             in if c = 61 \<and> value \<noteq> [] \<and> list_all (\<lambda>u. \<not> is_line_terminator u) value
                then Some (key, value) else None)"

record rmap_scan =
  rs_sectionName :: "jstring option"
  rs_values :: "(jstring \<times> jstring) list"

definition rmap_scan_line :: "nat \<Rightarrow> jstring \<Rightarrow> rmap_scan \<Rightarrow> jstring + rmap_scan" where
  "rmap_scan_line lineNumber sourceLine st =
     (let line = js_trim (stripInlineComment sourceLine)
      in if line = [] then Inr st
         else case match_section line of
           Some captured \<Rightarrow>
             let name = js_trim captured
             in if name = [] then Inl (js ''RMAP line '' @ nat_digits lineNumber @ js '' has an empty interface name'')
                else if rs_sectionName st \<noteq> None then Inl (js ''Paste exactly one RNodeInterface block'')
                else Inr (st\<lparr>rs_sectionName := Some name\<rparr>)
         | None \<Rightarrow>
             case match_assignment line of
               None \<Rightarrow> Inl (js ''RMAP line '' @ nat_digits lineNumber @ js '' is not a valid key = value assignment'')
             | Some (rawKey, rawValue) \<Rightarrow>
                 if rs_sectionName st = None
                 then Inl (js ''RMAP config must begin with a [[Name]] interface block'')
                 else let key = js_lower rawKey; value = js_trim rawValue
                      in if map_of (rs_values st) key \<noteq> None
                         then Inl (js ''RMAP key '' @ key @ js '' appears more than once'')
                         else Inr (st\<lparr>rs_values := (key, value) # rs_values st\<rparr>))"

fun rmap_scan_lines :: "nat \<Rightarrow> jstring list \<Rightarrow> rmap_scan \<Rightarrow> jstring + rmap_scan" where
  "rmap_scan_lines lineNumber [] st = Inr st"
| "rmap_scan_lines lineNumber (l # ls) st =
     (case rmap_scan_line lineNumber l st of
        Inl e \<Rightarrow> Inl e
      | Inr st' \<Rightarrow> rmap_scan_lines (lineNumber + 1) ls st')"

definition rmap_required_keys :: "jstring list" where
  "rmap_required_keys = [js ''frequency'', js ''bandwidth'', js ''spreadingfactor'', js ''codingrate'']"

fun rmap_missing_key :: "jstring list \<Rightarrow> (jstring \<times> jstring) list \<Rightarrow> jstring option" where
  "rmap_missing_key [] vs = None"
| "rmap_missing_key (k # ks) vs = (if map_of vs k = None then Some k else rmap_missing_key ks vs)"

fun rmap_parse_values :: "jstring list \<Rightarrow> (jstring \<times> jstring) list \<Rightarrow> (jstring \<times> nat) list
    \<Rightarrow> jstring + (jstring \<times> nat) list" where
  "rmap_parse_values [] vs parsed = Inr parsed"
| "rmap_parse_values (k # ks) vs parsed =
     (case map_of vs k of
        None \<Rightarrow> rmap_parse_values ks vs parsed
      | Some raw \<Rightarrow>
          (case parseUnsignedConfigInteger k raw of
             Inl e \<Rightarrow> Inl e
           | Inr v \<Rightarrow> rmap_parse_values ks vs ((k, v) # parsed)))"

definition rmap_profile :: "(jstring \<times> nat) list \<Rightarrow> int \<Rightarrow> jstring + LoraRadioProfileView" where
  "rmap_profile parsed currentTxPowerDbm =
     (case (map_of parsed (js ''frequency''), map_of parsed (js ''bandwidth''),
            map_of parsed (js ''spreadingfactor''), map_of parsed (js ''codingrate'')) of
        (Some frequencyHz, Some bandwidthHz, Some spreadingFactor, Some codingRateDenominator) \<Rightarrow>
          validateLoraRadioProfileDraft
            \<lparr>ld_bandwidthHz = canonicalBandwidthHz bandwidthHz,
             ld_codingRateDenominator = codingRateDenominator,
             ld_frequencyMhz = formatFrequencyMhzInput frequencyHz,
             ld_spreadingFactor = spreadingFactor,
             ld_txPowerDbm = (case map_of parsed (js ''txpower'') of
                                Some p \<Rightarrow> int p | None \<Rightarrow> currentTxPowerDbm)\<rparr>
      | _ \<Rightarrow> Inl (js ''RMAP config did not produce a complete LoRa profile''))"

definition parseRmapReticulumConfig :: "jstring \<Rightarrow> int \<Rightarrow> jstring + (LoraRadioProfileView \<times> jstring)" where
  "parseRmapReticulumConfig input currentTxPowerDbm =
     (case rmap_scan_lines 1 (js_split 10 (js_replace_crlf input)) \<lparr>rs_sectionName = None, rs_values = []\<rparr> of
        Inl e \<Rightarrow> Inl e
      | Inr st \<Rightarrow>
        case rs_sectionName st of
          None \<Rightarrow> Inl (js ''RMAP config must begin with a [[Name]] interface block'')
        | Some sectionName \<Rightarrow>
          let interfaceType = (case map_of (rs_values st) (js ''type'') of
                                 None \<Rightarrow> None | Some raw \<Rightarrow> unquoteConfigValue raw)
          in if map_option js_lower interfaceType \<noteq> Some (js ''rnodeinterface'')
             then Inl (js ''RMAP config type must be RNodeInterface'')
             else case rmap_missing_key rmap_required_keys (rs_values st) of
               Some key \<Rightarrow> Inl (js ''RMAP config is missing required key '' @ key)
             | None \<Rightarrow>
               (case rmap_parse_values (rmap_required_keys @ [js ''txpower'']) (rs_values st) [] of
                  Inl e \<Rightarrow> Inl e
                | Inr parsed \<Rightarrow>
                    (case rmap_profile parsed currentTxPowerDbm of
                       Inl e \<Rightarrow> Inl e
                     | Inr profile \<Rightarrow> Inr (profile, sectionName))))"

section \<open>The frequency field\<close>

lemma js_strip_end_split: "\<exists>n. s = js_strip_end c s @ replicate n c"
proof -
  have "rev s = takeWhile (\<lambda>x. x = c) (rev s) @ dropWhile (\<lambda>x. x = c) (rev s)" by simp
  moreover have "takeWhile (\<lambda>x. x = c) (rev s) = replicate (length (takeWhile (\<lambda>x. x = c) (rev s))) c"
    by (rule replicate_length_same [symmetric]) (auto dest: set_takeWhileD)
  ultimately have "s = js_strip_end c s @ rev (replicate (length (takeWhile (\<lambda>x. x = c) (rev s))) c)"
    unfolding js_strip_end_def by (metis rev_append rev_rev_ident)
  then show ?thesis by (metis rev_replicate)
qed

lemma js_padEnd_strip:
  assumes "length s = n"
  shows "js_padEnd n c (js_strip_end c s) = s"
proof -
  obtain m where m: "s = js_strip_end c s @ replicate m c" using js_strip_end_split by blast
  then have "n - length (js_strip_end c s) = m" using assms by (metis add_diff_cancel_left' length_append length_replicate)
  then show ?thesis using m by (simp add: js_padEnd_def)
qed

lemma set_js_strip_end: "set (js_strip_end c s) \<subseteq> set s"
  by (metis js_strip_end_split set_append sup_ge1)

lemma length_js_strip_end: "length (js_strip_end c s) \<le> length s"
  by (metis js_strip_end_split le_add1 length_append)

text \<open>The six decimals of a frequency below one megahertz, before the trailing zeros go.\<close>

definition mhz_fraction :: "nat \<Rightarrow> jstring" where
  "mhz_fraction f = js_padStart 6 48 (nat_digits f)"

lemma mhz_fraction_length: "f < 1000000 \<Longrightarrow> length (mhz_fraction f) = 6"
  using length_nat_digits_le [of f 6] by (simp add: mhz_fraction_def js_padStart_def)

lemma mhz_fraction_digit: "c \<in> set (mhz_fraction f) \<Longrightarrow> is_digit c"
  by (auto simp: mhz_fraction_def js_padStart_def dest: nat_digits_digit) (simp add: is_digit_def)

lemma mhz_fraction_value: "digits_value (mhz_fraction f) = f"
  by (simp add: mhz_fraction_def js_padStart_def digits_value_append)

lemma nat_digits_all: "list_all is_digit (nat_digits n)"
  by (simp add: list_all_iff nat_digits_digit)

lemma takeWhile_digits: "list_all P a \<Longrightarrow> \<not> P d \<Longrightarrow> takeWhile P (a @ d # b) = a \<and> dropWhile P (a @ d # b) = d # b"
  by (induction a) auto

lemma js_trim_digit_ends:
  assumes "s \<noteq> []" and "is_digit (hd s)" and "is_digit (last s)"
  shows "js_trim s = s"
  using assms by (intro js_trim_id) (auto simp: is_digit_def is_space_def)

lemma is_digit_dot [simp]: "\<not> is_digit 46"
  by (simp add: is_digit_def)

lemma dot_notin_digits: "46 \<notin> set (nat_digits n)"
  using nat_digits_digit by force

lemma nat_digits_ends: "is_digit (hd (nat_digits n))" "is_digit (last (nat_digits n))"
  by (auto intro: nat_digits_digit [of _ n])

text \<open>What the parser computes on a number without and with a fraction.\<close>

lemma parseFrequencyMhz_whole:
  assumes "int (w * 1000000) \<le> MAX_SAFE_INTEGER"
  shows "parseFrequencyMhz (nat_digits w) = Inr (w * 1000000)"
proof -
  have trim: "js_trim (nat_digits w) = nat_digits w"
    by (rule js_trim_digit_ends) (auto intro: nat_digits_ends)
  have tw: "takeWhile is_digit (nat_digits w) = nat_digits w" and dw: "dropWhile is_digit (nat_digits w) = []"
    using nat_digits_digit by (auto simp: takeWhile_eq_all_conv dropWhile_eq_Nil_conv)
  have "frequency_syntax (nat_digits w)" unfolding frequency_syntax_def tw dw by simp
  moreover have "digits_value (js_padEnd 6 48 []) = 0" by (simp add: js_padEnd_def)
  ultimately show ?thesis
    using assms trim
    by (simp add: parseFrequencyMhz_def Let_def js_split_no_sep dot_notin_digits
        isSafeInteger_def MAX_SAFE_INTEGER_def)
qed

lemma parseFrequencyMhz_fraction:
  assumes f: "f \<noteq> []" "length f \<le> 6" "list_all is_digit f"
    and safe: "int (w * 1000000 + digits_value (js_padEnd 6 48 f)) \<le> MAX_SAFE_INTEGER"
  shows "parseFrequencyMhz (nat_digits w @ 46 # f) = Inr (w * 1000000 + digits_value (js_padEnd 6 48 f))"
proof -
  have trim: "js_trim (nat_digits w @ 46 # f) = nat_digits w @ 46 # f"
    using f by (intro js_trim_digit_ends) (auto simp: hd_append list_all_iff intro: nat_digits_ends)
  have "46 \<notin> set f" using f(3) by (auto simp: list_all_iff)
  then have split: "js_split 46 (nat_digits w @ 46 # f) = [nat_digits w, f]"
    by (simp add: js_split_append dot_notin_digits js_split_no_sep)
  have "frequency_syntax (nat_digits w @ 46 # f)"
    using takeWhile_digits [OF nat_digits_all is_digit_dot, of w f] f
    by (simp add: frequency_syntax_def Suc_le_eq)
  then show ?thesis
    using safe trim split by (simp add: parseFrequencyMhz_def Let_def isSafeInteger_def MAX_SAFE_INTEGER_def)
qed

lemma parse_format_frequency:
  assumes "int hz \<le> MAX_SAFE_INTEGER"
  shows "parseFrequencyMhz (formatFrequencyMhzInput hz) = Inr hz"
proof -
  let ?w = "hz div 1000000" and ?f = "hz mod 1000000"
  let ?s = "js_strip_end 48 (mhz_fraction ?f)"
  have hz: "?w * 1000000 + ?f = hz" by simp
  have len: "length (mhz_fraction ?f) = 6" by (simp add: mhz_fraction_length)
  have pad: "js_padEnd 6 48 ?s = mhz_fraction ?f" using len by (rule js_padEnd_strip)
  have digits: "list_all is_digit ?s"
    using set_js_strip_end mhz_fraction_digit by (fastforce simp: list_all_iff)
  have fmt: "formatFrequencyMhzInput hz = (if ?s = [] then nat_digits ?w else nat_digits ?w @ 46 # ?s)"
    by (simp add: formatFrequencyMhzInput_def Let_def mhz_fraction_def)
  show ?thesis
  proof (cases "?s = []")
    case True
    then have "?f = 0" using pad by (metis js_padEnd_def append_Nil digits_value_zeros mhz_fraction_value)
    then have "?w * 1000000 = hz" using hz by linarith
    then show ?thesis using True fmt assms parseFrequencyMhz_whole [of ?w] by simp
  next
    case False
    have "length ?s \<le> 6" using length_js_strip_end [of 48 "mhz_fraction ?f"] len by simp
    then show ?thesis
      using False fmt assms digits hz parseFrequencyMhz_fraction [of ?s ?w]
      by (simp add: pad mhz_fraction_value)
  qed
qed

section \<open>What validation accepts\<close>

text \<open>
  The specification of an acceptable profile, written without the code's functions and tables: one row for each
  bandwidth, with the lowest and the highest centre frequency (in hertz) whose complete channel lies between 863 and
  928 MHz, and the spreading factors qualified for it.
\<close>

definition lora_channel_table :: "(nat \<times> nat \<times> nat \<times> nat list) list" where
  "lora_channel_table =
     [(10420, 863005208, 927994791, [7]),
      (15630, 863007812, 927992187, [7]),
      (20830, 863010417, 927989583, [7, 8]),
      (31250, 863015625, 927984375, [7, 8, 9]),
      (41670, 863020833, 927979166, [7, 8, 9]),
      (62500, 863031250, 927968750, [7, 8, 9, 10]),
      (125000, 863062500, 927937500, [7, 8, 9, 10, 12]),
      (250000, 863125000, 927875000, [7, 8, 9, 10, 11]),
      (500000, 863250000, 927750000, [7, 8, 9, 10, 11, 12])]"

definition lora_profile_ok :: "LoraRadioProfileView \<Rightarrow> bool" where
  "lora_profile_ok p \<longleftrightarrow>
     list_ex (\<lambda>(bandwidth, low, high, factors). lp_bandwidth_hz p = bandwidth \<and> low \<le> lp_frequency_hz p \<and>
        lp_frequency_hz p \<le> high \<and> lp_spreading_factor p \<in> set factors) lora_channel_table \<and>
     5 \<le> lp_coding_rate_denominator p \<and> lp_coding_rate_denominator p \<le> 8 \<and>
     lp_tx_power_dbm p \<in> {14, 17, 20, 22}"

text \<open>
  The text of a frequency in MHz: decimal digits, with up to six decimals after a point, and white space around them.
\<close>

definition frequency_written :: "jstring \<Rightarrow> nat \<Rightarrow> bool" where
  "frequency_written input hz \<longleftrightarrow>
     (\<exists>whole fraction. js_trim input = whole @ (if fraction = [] then [] else 46 # fraction) \<and> whole \<noteq> [] \<and>
        list_all is_digit (whole @ fraction) \<and> length fraction \<le> 6 \<and>
        hz * 10 ^ length fraction = digits_value (whole @ fraction) * 1000000)"

text \<open>
  A draft describes a profile when its fields are the profile's, the frequency is written in MHz, and the bandwidth may
  be the rounded figure that RMAP uses for it.
\<close>

definition draft_describes :: "LoraRadioProfileDraft \<Rightarrow> LoraRadioProfileView \<Rightarrow> bool" where
  "draft_describes d p \<longleftrightarrow>
     frequency_written (ld_frequencyMhz d) (lp_frequency_hz p) \<and>
     (ld_bandwidthHz d = lp_bandwidth_hz p \<or>
      (ld_bandwidthHz d, lp_bandwidth_hz p) \<in> {(10400, 10420), (15600, 15630), (20800, 20830), (41700, 41670)}) \<and>
     ld_spreadingFactor d = lp_spreading_factor p \<and> ld_codingRateDenominator d = lp_coding_rate_denominator p \<and>
     ld_txPowerDbm d = lp_tx_power_dbm p"

lemma includesNumber_iff [simp]: "includesNumber xs x \<longleftrightarrow> x \<in> set xs"
  by (auto simp: includesNumber_def list_ex_iff)

lemma fitted_path_nat:
  "int f - int w div 2 < int LORA_FITTED_PATH_MIN_HZ \<longleftrightarrow> \<not> 863000000 + w div 2 \<le> f"
  "int LORA_FITTED_PATH_MAX_HZ < int f + (int w - int w div 2) \<longleftrightarrow> \<not> f + (w + 1) div 2 \<le> 928000000"
  unfolding LORA_FITTED_PATH_MIN_HZ_def LORA_FITTED_PATH_MAX_HZ_def by linarith+

text \<open>The checks of the code on the fields of a profile agree with the table.\<close>

lemma lora_profile_ok_checks:
  "lora_profile_ok p \<longleftrightarrow>
     lp_bandwidth_hz p \<in> set LORA_BANDWIDTH_OPTIONS_HZ \<and>
     lp_spreading_factor p \<in> set LORA_SPREADING_FACTOR_OPTIONS \<and>
     lp_coding_rate_denominator p \<in> set LORA_CODING_RATE_DENOMINATOR_OPTIONS \<and>
     lp_tx_power_dbm p \<in> set LORA_TX_POWER_OPTIONS_DBM \<and>
     (\<exists>w. BANDWIDTH_EDGE_WIDTH_HZ (lp_bandwidth_hz p) = Some w \<and>
        863000000 + w div 2 \<le> lp_frequency_hz p \<and> lp_frequency_hz p + (w + 1) div 2 \<le> 928000000) \<and>
     \<not> isUnverifiedRnodeLdroTuple (lp_bandwidth_hz p) (lp_spreading_factor p)"
proof (cases "lp_bandwidth_hz p \<in> set LORA_BANDWIDTH_OPTIONS_HZ")
  case False
  then show ?thesis
    by (simp add: lora_profile_ok_def lora_channel_table_def LORA_BANDWIDTH_OPTIONS_HZ_def)
next
  case True
  have rate: "5 \<le> lp_coding_rate_denominator p \<and> lp_coding_rate_denominator p \<le> 8 \<longleftrightarrow>
      lp_coding_rate_denominator p \<in> set LORA_CODING_RATE_DENOMINATOR_OPTIONS"
    by (auto simp: LORA_CODING_RATE_DENOMINATOR_OPTIONS_def)
  have power: "lp_tx_power_dbm p \<in> {14, 17, 20, 22} \<longleftrightarrow> lp_tx_power_dbm p \<in> set LORA_TX_POWER_OPTIONS_DBM"
    by (simp add: LORA_TX_POWER_OPTIONS_DBM_def)
  have upper: "f + n \<le> m \<longleftrightarrow> f \<le> m - n" if "n \<le> m" for f n m :: nat using that by linarith
  have "list_ex (\<lambda>(bandwidth, low, high, factors). lp_bandwidth_hz p = bandwidth \<and> low \<le> lp_frequency_hz p \<and>
        lp_frequency_hz p \<le> high \<and> lp_spreading_factor p \<in> set factors) lora_channel_table \<longleftrightarrow>
     lp_spreading_factor p \<in> set LORA_SPREADING_FACTOR_OPTIONS \<and>
     (\<exists>w. BANDWIDTH_EDGE_WIDTH_HZ (lp_bandwidth_hz p) = Some w \<and>
        863000000 + w div 2 \<le> lp_frequency_hz p \<and> lp_frequency_hz p + (w + 1) div 2 \<le> 928000000) \<and>
     \<not> isUnverifiedRnodeLdroTuple (lp_bandwidth_hz p) (lp_spreading_factor p)"
    using True unfolding LORA_BANDWIDTH_OPTIONS_HZ_def
    by (elim set_ConsD [elim_format] disjE)
      (auto simp: lora_channel_table_def LORA_SPREADING_FACTOR_OPTIONS_def BANDWIDTH_EDGE_WIDTH_HZ_def isUnverifiedRnodeLdroTuple_def upper)
  then show ?thesis using True rate power unfolding lora_profile_ok_def by blast
qed

definition profile_of_draft :: "LoraRadioProfileDraft \<Rightarrow> nat \<Rightarrow> LoraRadioProfileView" where
  "profile_of_draft d hz =
     \<lparr>lp_bandwidth_hz = canonicalBandwidthHz (ld_bandwidthHz d),
      lp_coding_rate_denominator = ld_codingRateDenominator d, lp_frequency_hz = hz,
      lp_spreading_factor = ld_spreadingFactor d, lp_tx_power_dbm = ld_txPowerDbm d\<rparr>"

lemma validate_iff:
  "validateLoraRadioProfileDraft d = Inr p \<longleftrightarrow>
     (\<exists>hz. parseFrequencyMhz (ld_frequencyMhz d) = Inr hz \<and> p = profile_of_draft d hz \<and> lora_profile_ok p)"
proof (cases "parseFrequencyMhz (ld_frequencyMhz d)")
  case (Inl e)
  then show ?thesis by (simp add: validateLoraRadioProfileDraft_def)
next
  case (Inr hz)
  show ?thesis
  proof (cases "BANDWIDTH_EDGE_WIDTH_HZ (canonicalBandwidthHz (ld_bandwidthHz d))")
    case None
    with Inr show ?thesis
      by (auto simp: validateLoraRadioProfileDraft_def lora_profile_ok_checks profile_of_draft_def Let_def)
  next
    case (Some w)
    with Inr show ?thesis
      unfolding validateLoraRadioProfileDraft_def Let_def
      by (auto simp: fitted_path_nat lora_profile_ok_checks profile_of_draft_def)
  qed
qed

lemma canonical_option: "bw \<in> set LORA_BANDWIDTH_OPTIONS_HZ \<Longrightarrow> canonicalBandwidthHz bw = bw"
  by (auto simp: LORA_BANDWIDTH_OPTIONS_HZ_def canonicalBandwidthHz_def RMAP_BANDWIDTH_ALIASES_def)

lemma lora_profile_ok_frequency: "lora_profile_ok p \<Longrightarrow> int (lp_frequency_hz p) \<le> MAX_SAFE_INTEGER"
  by (auto simp: lora_profile_ok_checks MAX_SAFE_INTEGER_def)

lemma validate_draft_of_ok:
  assumes "lora_profile_ok p"
  shows "validateLoraRadioProfileDraft (draftFromLoraProfile p) = Inr p"
proof -
  have "parseFrequencyMhz (ld_frequencyMhz (draftFromLoraProfile p)) = Inr (lp_frequency_hz p)"
    using parse_format_frequency [OF lora_profile_ok_frequency [OF assms]]
    by (simp add: draftFromLoraProfile_def)
  moreover have "profile_of_draft (draftFromLoraProfile p) (lp_frequency_hz p) = p"
    using assms canonical_option
    by (simp add: profile_of_draft_def draftFromLoraProfile_def lora_profile_ok_checks)
  ultimately show ?thesis using assms validate_iff by metis
qed

section \<open>The frequency and the bandwidth of a draft\<close>

lemma padded_value:
  assumes "length f \<le> 6"
  shows "hz * 10 ^ length f = digits_value (w @ f) * 1000000 \<longleftrightarrow> hz = digits_value w * 1000000 + digits_value (js_padEnd 6 48 f)"
proof -
  have split: "(10::nat) ^ 6 = 10 ^ length f * 10 ^ (6 - length f)" using assms by (simp flip: power_add)
  have "digits_value (js_padEnd 6 48 f) = digits_value f * 10 ^ (6 - length f)"
    by (simp add: js_padEnd_def digits_value_append)
  then have "(digits_value w * 10 ^ 6 + digits_value (js_padEnd 6 48 f)) * 10 ^ length f = digits_value (w @ f) * 10 ^ 6"
    unfolding digits_value_append split by (simp only: algebra_simps)
  then have "hz * 10 ^ length f = digits_value (w @ f) * 10 ^ 6 \<longleftrightarrow>
      hz * 10 ^ length f = (digits_value w * 10 ^ 6 + digits_value (js_padEnd 6 48 f)) * 10 ^ length f"
    by (simp only:)
  also have "\<dots> \<longleftrightarrow> hz = digits_value w * 10 ^ 6 + digits_value (js_padEnd 6 48 f)" by (rule mult_right_cancel) simp
  finally show ?thesis by simp
qed

lemma frequency_syntax_iff:
  "frequency_syntax s \<longleftrightarrow>
     (\<exists>whole fraction. s = whole @ (if fraction = [] then [] else 46 # fraction) \<and> whole \<noteq> [] \<and>
        list_all is_digit (whole @ fraction) \<and> length fraction \<le> 6)"
proof
  assume syn: "frequency_syntax s"
  define w r where "w = takeWhile is_digit s" and "r = dropWhile is_digit s"
  have s: "s = w @ r" by (simp add: w_def r_def)
  have "list_all is_digit w" by (auto simp: w_def list_all_iff dest: set_takeWhileD)
  moreover have "w \<noteq> []" "r = [] \<or> (\<exists>f. r = 46 # f \<and> f \<noteq> [] \<and> list_all is_digit f \<and> length f \<le> 6)"
    using syn by (auto simp: frequency_syntax_def Let_def simp flip: w_def r_def split: list.splits)
  ultimately show "\<exists>whole fraction. s = whole @ (if fraction = [] then [] else 46 # fraction) \<and> whole \<noteq> [] \<and>
        list_all is_digit (whole @ fraction) \<and> length fraction \<le> 6"
    unfolding s by (intro exI [of _ w] exI [of _ "tl r"]) auto
next
  assume "\<exists>whole fraction. s = whole @ (if fraction = [] then [] else 46 # fraction) \<and> whole \<noteq> [] \<and>
        list_all is_digit (whole @ fraction) \<and> length fraction \<le> 6"
  then obtain w f where s: "s = w @ (if f = [] then [] else 46 # f)" "w \<noteq> []" "list_all is_digit (w @ f)" "length f \<le> 6" by blast
  then have "takeWhile is_digit s = w" "dropWhile is_digit s = (if f = [] then [] else 46 # f)"
    using takeWhile_digits [of is_digit w 46 f] by (auto simp: takeWhile_eq_all_conv dropWhile_eq_Nil_conv list_all_iff)
  then show "frequency_syntax s" using s by (simp add: frequency_syntax_def Let_def Suc_le_eq)
qed

lemma parseFrequencyMhz_iff:
  "parseFrequencyMhz input = Inr hz \<longleftrightarrow> frequency_written input hz \<and> isSafeInteger (int hz)"
proof -
  have parts: "parseFrequencyMhz input = Inr hz \<longleftrightarrow> hz = digits_value w * 1000000 + digits_value (js_padEnd 6 48 f) \<and> isSafeInteger (int hz)"
    if s: "js_trim input = w @ (if f = [] then [] else 46 # f)" and w: "w \<noteq> []" and d: "list_all is_digit (w @ f)" and f: "length f \<le> 6"
    for w f
  proof -
    have "46 \<notin> set w" "46 \<notin> set f" using d is_digit_dot by (metis list_all_append list_all_iff)+
    then have "js_split 46 (js_trim input) = (if f = [] then [w] else [w, f])"
      by (simp add: s js_split_no_sep js_split_append)
    moreover have "frequency_syntax (js_trim input)" using s w d f frequency_syntax_iff by blast
    ultimately show ?thesis by (auto simp: parseFrequencyMhz_def Let_def)
  qed
  show ?thesis
  proof (cases "frequency_syntax (js_trim input)")
    case False
    then have "\<not> frequency_written input hz" unfolding frequency_written_def frequency_syntax_iff by blast
    then show ?thesis using False by (simp add: parseFrequencyMhz_def)
  next
    case True
    then obtain w f where s: "js_trim input = w @ (if f = [] then [] else 46 # f)" "w \<noteq> []" "list_all is_digit (w @ f)" "length f \<le> 6"
      unfolding frequency_syntax_iff by blast
    show ?thesis
    proof
      assume "parseFrequencyMhz input = Inr hz"
      then show "frequency_written input hz \<and> isSafeInteger (int hz)"
        using parts [OF s] padded_value [OF s(4)] s unfolding frequency_written_def by blast
    next
      assume "frequency_written input hz \<and> isSafeInteger (int hz)"
      then show "parseFrequencyMhz input = Inr hz" using parts padded_value unfolding frequency_written_def by blast
    qed
  qed
qed

lemma canonical_bandwidth_iff:
  assumes "bw \<in> set LORA_BANDWIDTH_OPTIONS_HZ"
  shows "canonicalBandwidthHz b = bw \<longleftrightarrow>
    b = bw \<or> (b, bw) \<in> {(10400, 10420), (15600, 15630), (20800, 20830), (41700, 41670)}"
  using assms by (auto simp: LORA_BANDWIDTH_OPTIONS_HZ_def canonicalBandwidthHz_def RMAP_BANDWIDTH_ALIASES_def split: if_splits)

section \<open>What an import yields\<close>

lemma rmap_profile_validates:
  assumes "rmap_profile parsed cur = Inr p"
  shows "\<exists>d. validateLoraRadioProfileDraft d = Inr p"
proof (cases "(map_of parsed (js ''frequency''), map_of parsed (js ''bandwidth''),
    map_of parsed (js ''spreadingfactor''), map_of parsed (js ''codingrate''))")
  case (fields a b c d)
  with assms show ?thesis
    unfolding rmap_profile_def by (cases a; cases b; cases c; cases d) (auto simp del: js.simps)
qed

lemma scan_line_name:
  "rmap_scan_line i l st = Inr st' \<Longrightarrow> rs_sectionName st \<noteq> Some [] \<Longrightarrow> rs_sectionName st' \<noteq> Some []"
  by (auto simp: rmap_scan_line_def Let_def split: option.splits if_splits prod.splits)

lemma scan_lines_name_gen:
  "rmap_scan_lines i ls st = Inr st' \<Longrightarrow> rs_sectionName st \<noteq> Some [] \<Longrightarrow> rs_sectionName st' \<noteq> Some []"
proof (induction ls arbitrary: i st)
  case (Cons l ls)
  then show ?case using scan_line_name by (auto split: sum.splits)
qed simp

lemma scan_lines_name:
  "rmap_scan_lines i ls \<lparr>rs_sectionName = None, rs_values = []\<rparr> = Inr st \<Longrightarrow> rs_sectionName st \<noteq> Some []"
  by (rule scan_lines_name_gen) auto

section \<open>Properties\<close>

text \<open>
  The MHz field loses nothing: every frequency that is a safe integer number of hertz, printed
  for the input field, is read back as exactly that frequency.
\<close>

theorem lora_frequency_roundtrip:
  assumes "int hz \<le> MAX_SAFE_INTEGER"
  shows "parseFrequencyMhz (formatFrequencyMhzInput hz) = Inr hz"
  by (rule parse_format_frequency [OF assms])

theorem lora_frequency_roundtrip_witness:
  "parseFrequencyMhz (formatFrequencyMhzInput 869525000) = Inr 869525000"
  by (rule lora_frequency_roundtrip) (simp add: MAX_SAFE_INTEGER_def)

text \<open>
  C35. Validation is exact: it yields a profile from a draft if and only if the draft describes that profile (the frequency
  is the decimal number of MHz written in the field, the bandwidth is the draft's or the one RMAP rounds to it, the
  other fields are the draft's) and the profile is acceptable: a row of the channel table has its bandwidth, with the
  centre frequency in the range where the complete channel fits into 863 to 928 MHz and a qualified spreading factor,
  the coding rate is 4/5 to 4/8 and the power one of 14, 17, 20 and 22 dBm.
\<close>

theorem lora_validation_exact:
  "validateLoraRadioProfileDraft d = Inr p \<longleftrightarrow> draft_describes d p \<and> lora_profile_ok p"
proof (cases "lora_profile_ok p")
  case True
  have bw: "lp_bandwidth_hz p \<in> set LORA_BANDWIDTH_OPTIONS_HZ" using True by (simp add: lora_profile_ok_checks)
  have "isSafeInteger (int (lp_frequency_hz p))"
    using lora_profile_ok_frequency [OF True] by (simp add: isSafeInteger_def MAX_SAFE_INTEGER_def)
  then have freq: "parseFrequencyMhz (ld_frequencyMhz d) = Inr (lp_frequency_hz p) \<longleftrightarrow> frequency_written (ld_frequencyMhz d) (lp_frequency_hz p)"
    by (simp add: parseFrequencyMhz_iff)
  have "validateLoraRadioProfileDraft d = Inr p \<longleftrightarrow>
      parseFrequencyMhz (ld_frequencyMhz d) = Inr (lp_frequency_hz p) \<and> canonicalBandwidthHz (ld_bandwidthHz d) = lp_bandwidth_hz p \<and>
      ld_spreadingFactor d = lp_spreading_factor p \<and> ld_codingRateDenominator d = lp_coding_rate_denominator p \<and>
      ld_txPowerDbm d = lp_tx_power_dbm p"
    unfolding validate_iff using True by (cases p) (auto simp: profile_of_draft_def)
  then show ?thesis using True unfolding freq canonical_bandwidth_iff [OF bw] draft_describes_def by blast
qed (simp add: validate_iff)

text \<open>
  A validated profile is a fixed point of editing: opening it as a draft and validating that
  draft gives back the same profile.
\<close>

theorem lora_draft_roundtrip:
  assumes "validateLoraRadioProfileDraft d = Inr p"
  shows "validateLoraRadioProfileDraft (draftFromLoraProfile p) = Inr p"
  using assms validate_iff validate_draft_of_ok by blast

definition lora_example :: LoraRadioProfileView where
  "lora_example = \<lparr>lp_bandwidth_hz = 125000, lp_coding_rate_denominator = 5, lp_frequency_hz = 915000000,
     lp_spreading_factor = 7, lp_tx_power_dbm = 17\<rparr>"

lemma lora_example_ok: "lora_profile_ok lora_example"
  by (simp add: lora_example_def lora_profile_ok_def lora_channel_table_def)

theorem lora_draft_roundtrip_witness:
  "validateLoraRadioProfileDraft (draftFromLoraProfile lora_example) = Inr lora_example"
  using lora_draft_roundtrip [OF validate_draft_of_ok [OF lora_example_ok]] .

text \<open>
  C39. Whatever text is pasted, an accepted RMAP import is safe: the profile it yields is acceptable by the channel table,
  and the section name is not empty.
\<close>

theorem rmap_import_sound:
  assumes "parseRmapReticulumConfig input currentPower = Inr (p, name)"
  shows "lora_profile_ok p \<and> name \<noteq> []"
proof -
  from assms obtain st where scan:
      "rmap_scan_lines 1 (js_split 10 (js_replace_crlf input)) \<lparr>rs_sectionName = None, rs_values = []\<rparr> = Inr st"
    and name: "rs_sectionName st = Some name"
    by (auto simp: parseRmapReticulumConfig_def Let_def split: sum.splits option.splits if_splits)
  from assms have "\<exists>parsed. rmap_profile parsed currentPower = Inr p"
    by (auto simp: parseRmapReticulumConfig_def Let_def split: sum.splits option.splits if_splits)
  then have "\<exists>d. validateLoraRadioProfileDraft d = Inr p" using rmap_profile_validates by blast
  then have "lora_profile_ok p" using validate_iff by blast
  moreover have "name \<noteq> []"
    using scan_lines_name [OF scan] name by simp
  ultimately show ?thesis by blast
qed

definition rmap_example :: jstring where
  "rmap_example = js ''[[RNode]]'' @ [10] @ js ''type = RNodeInterface'' @ [10] @ js ''frequency = 915000000 # Hz'' @ [10] @
     js ''bandwidth = 125000'' @ [10] @ js ''spreadingfactor = 7'' @ [10] @ js ''codingrate = 5'' @ [10]"

lemmas scan_defs = rmap_scan_line_def stripInlineComment_def match_section_def match_assignment_def js_trim_def is_space_def
  is_letter_def is_key_unit_def is_digit_def is_line_terminator_def js_lower_def lower_unit_def Let_def

lemma rmap_example_lines:
  "js_split 10 (js_replace_crlf rmap_example) =
    [js ''[[RNode]]'', js ''type = RNodeInterface'', js ''frequency = 915000000 # Hz'', js ''bandwidth = 125000'',
     js ''spreadingfactor = 7'', js ''codingrate = 5'', []]"
  by (simp add: rmap_example_def)

lemma rmap_example_scan:
  "rmap_scan_lines 1 (js_split 10 (js_replace_crlf rmap_example)) \<lparr>rs_sectionName = None, rs_values = []\<rparr> =
    Inr \<lparr>rs_sectionName = Some (js ''RNode''), rs_values =
      [(js ''codingrate'', js ''5''), (js ''spreadingfactor'', js ''7''), (js ''bandwidth'', js ''125000''),
       (js ''frequency'', js ''915000000''), (js ''type'', js ''RNodeInterface'')]\<rparr>"
  unfolding rmap_example_lines by (simp add: scan_defs)

theorem rmap_import_sound_witness: "lora_profile_ok lora_example \<and> js ''RNode'' \<noteq> []"
proof (rule rmap_import_sound)
  have numbers: "parseUnsignedConfigInteger k (js ''915000000'') = Inr 915000000" "parseUnsignedConfigInteger k (js ''125000'') = Inr 125000"
      "parseUnsignedConfigInteger k (js ''7'') = Inr 7" "parseUnsignedConfigInteger k (js ''5'') = Inr 5" for k
    by (simp_all add: parseUnsignedConfigInteger_def unquoteConfigValue_def js_trim_def is_space_def is_digit_def digits_value_def
        isSafeInteger_def MAX_SAFE_INTEGER_def Let_def)
  have profile: "validateLoraRadioProfileDraft \<lparr>ld_bandwidthHz = canonicalBandwidthHz 125000, ld_codingRateDenominator = 5,
      ld_frequencyMhz = formatFrequencyMhzInput 915000000, ld_spreadingFactor = 7, ld_txPowerDbm = 17\<rparr> = Inr lora_example"
    using validate_draft_of_ok [OF lora_example_ok]
    by (simp add: draftFromLoraProfile_def lora_example_def canonical_option LORA_BANDWIDTH_OPTIONS_HZ_def)
  have type: "map_option js_lower (unquoteConfigValue (js ''RNodeInterface'')) = Some (js ''rnodeinterface'')"
    by (simp add: unquoteConfigValue_def js_trim_def is_space_def js_lower_def lower_unit_def)
  show "parseRmapReticulumConfig rmap_example 17 = Inr (lora_example, js ''RNode'')"
    unfolding parseRmapReticulumConfig_def rmap_example_scan
    using profile type by (simp add: rmap_required_keys_def numbers [simplified] rmap_profile_def)
qed

end
