(* ===== verification/NetworkConfig.thy ===== *)
theory NetworkConfig
  imports Prelude
begin

text \<open>
  Model of \<open>lib/network-config.ts\<close>: \<open>NetworkConfigController\<close>, which owns the desired network
  configuration of the active board and the recovery of uncertain mutations. Methods are split at
  their awaits: a suspended call is an element of \<open>nc_tasks\<close> and its continuation a function of the
  settled result. The device client answers, timers fire and the user acts in any order. The
  contents of a configuration, a runtime status and a mutation that the controller only passes on
  are a type parameter. The listeners only record what they are shown: a listener does not call
  back into the controller. A continuation that follows another without waiting for the device (the
  scheduling after a load, the \<open>finally\<close> of a poll) belongs to the same step.
\<close>

section \<open>Data\<close>

record 'p NetworkConfigView =
  cv_revision :: nat
  cv_contents :: 'p

record 'p NetworkRuntimeStatusView =
  rv_configured_revision :: nat
  rv_applied_revision :: nat
  rv_contents :: 'p

record 'p NetworkConfigMutationRequest =
  mr_expected_revision :: nat
  mr_idempotency_key :: jstring
  mr_mutation :: 'p

datatype NetworkConfigMutationOutcome =
  OutcomeApplied nat bool \<comment> \<open>revision, reboot required\<close>
| OutcomeRevisionConflict nat \<comment> \<open>current revision\<close>

datatype NetworkMutationState =
  MutationIdle | MutationRunning | MutationError jstring | MutationRetryableError jstring
| MutationRevisionConflict nat | MutationApplied bool nat \<comment> \<open>reboot required, revision\<close>

datatype network_load_state = LoadInactive | LoadLoading | LoadReady | LoadError

record 'p NetworkConfigControllerState =
  cs_configuration :: "'p NetworkConfigView option"
  cs_deviceKey :: "jstring option"
  cs_loadError :: "jstring option"
  cs_loadState :: network_load_state
  cs_mutation :: NetworkMutationState
  cs_rebootRequired :: bool
  cs_runtime :: "'p NetworkRuntimeStatusView option"
  cs_statusError :: "jstring option"

text \<open>What a suspended load does once its results are in: the call that awaits it.\<close>

datatype network_load_caller = LoadThenSchedule | LoadThenDone | LoadThenReturn NetworkConfigMutationOutcome

datatype 'p network_task =
  NcMutating nat "'p NetworkConfigMutationRequest" \<comment> \<open>generation, request at the device\<close>
| NcLoading nat NetworkMutationState network_load_caller \<comment> \<open>generation, retained mutation notice\<close>
| NcTimer nat nat \<comment> \<open>timer, generation\<close>
| NcPolling nat \<comment> \<open>generation\<close>

record 'p network =
  nc_pollIntervalMs :: rat
  nc_listeners :: "nat list"
  nc_activeGeneration :: nat
  nc_cancelPoll :: "nat option"
  nc_disposed :: bool
  nc_mutationInFlight :: bool
  nc_pendingRequest :: "'p NetworkConfigMutationRequest option"
  nc_pollingActive :: bool
  nc_rebootRequiredByMutation :: bool
  nc_state :: "'p NetworkConfigControllerState"
  nc_tasks :: "'p network_task list"
  nc_next_timer :: nat
  nc_shown :: "(nat \<times> 'p NetworkConfigControllerState) list"

definition NETWORK_STATUS_POLL_INTERVAL_MS :: rat where
  "NETWORK_STATUS_POLL_INTERVAL_MS = 2000"

definition inactiveState :: "'p NetworkConfigControllerState" where
  "inactiveState = \<lparr>cs_configuration = None, cs_deviceKey = None, cs_loadError = None,
     cs_loadState = LoadInactive, cs_mutation = MutationIdle, cs_rebootRequired = False,
     cs_runtime = None, cs_statusError = None\<rparr>"

section \<open>Private methods\<close>

definition network_new :: "delay_number option \<Rightarrow> thrown + 'p network" where
  "network_new interval =
     (case positive_delay (case interval of None \<Rightarrow> Finite NETWORK_STATUS_POLL_INTERVAL_MS | Some i \<Rightarrow> i) of
        None \<Rightarrow> Inl (ErrorObject (js ''network status poll interval must be positive''))
      | Some ms \<Rightarrow> Inr \<lparr>nc_pollIntervalMs = ms, nc_listeners = [], nc_activeGeneration = 0,
          nc_cancelPoll = None, nc_disposed = False, nc_mutationInFlight = False,
          nc_pendingRequest = None, nc_pollingActive = False, nc_rebootRequiredByMutation = False,
          nc_state = inactiveState, nc_tasks = [], nc_next_timer = 0, nc_shown = []\<rparr>)"

definition nc_publish :: "'p NetworkConfigControllerState \<Rightarrow> 'p network \<Rightarrow> 'p network" where
  "nc_publish st c =
     c\<lparr>nc_state := st, nc_shown := nc_shown c @ map (\<lambda>l. (l, st)) (nc_listeners c)\<rparr>"

definition nc_accepts :: "'p network \<Rightarrow> nat \<Rightarrow> bool" where
  "nc_accepts c g \<longleftrightarrow> \<not> nc_disposed c \<and> g = nc_activeGeneration c \<and> cs_deviceKey (nc_state c) \<noteq> None"

fun nc_is_timer :: "nat \<Rightarrow> 'p network_task \<Rightarrow> bool" where
  "nc_is_timer w (NcTimer w' g) = (w = w')"
| "nc_is_timer w _ = False"

text \<open>\<^verbatim>\<open>this.#cancelPoll?.(); this.#cancelPoll = null\<close>: the platform timer is cleared.\<close>

definition nc_clear_poll :: "'p network \<Rightarrow> 'p network" where
  "nc_clear_poll c =
     (case nc_cancelPoll c of
        None \<Rightarrow> c
      | Some w \<Rightarrow> c\<lparr>nc_tasks := filter (\<lambda>t. \<not> nc_is_timer w t) (nc_tasks c), nc_cancelPoll := None\<rparr>)"

definition nc_replaceRun :: "'p network \<Rightarrow> 'p network" where
  "nc_replaceRun c = nc_clear_poll (c\<lparr>nc_activeGeneration := nc_activeGeneration c + 1\<rparr>)"

definition nc_add_task :: "'p network_task \<Rightarrow> 'p network \<Rightarrow> 'p network" where
  "nc_add_task t c = c\<lparr>nc_tasks := nc_tasks c @ [t]\<rparr>"

definition nc_drop_task :: "'p network_task \<Rightarrow> 'p network \<Rightarrow> 'p network" where
  "nc_drop_task t c = c\<lparr>nc_tasks := remove1 t (nc_tasks c)\<rparr>"

definition revisions_settled :: "'p NetworkConfigView option \<Rightarrow> 'p NetworkRuntimeStatusView option \<Rightarrow> bool" where
  "revisions_settled configuration runtime =
     (case (configuration, runtime) of
        (Some cfg, Some rt) \<Rightarrow> cv_revision cfg = rv_configured_revision rt \<and>
                             rv_configured_revision rt = rv_applied_revision rt
      | _ \<Rightarrow> False)"

definition nc_effectiveRebootRequired ::
  "'p NetworkConfigView option \<Rightarrow> 'p NetworkRuntimeStatusView option \<Rightarrow> 'p network \<Rightarrow> bool" where
  "nc_effectiveRebootRequired configuration runtime c \<longleftrightarrow>
     nc_rebootRequiredByMutation c \<or>
     (case (configuration, runtime) of
        (Some cfg, Some rt) \<Rightarrow> cv_revision cfg \<noteq> rv_configured_revision rt \<or>
                             rv_configured_revision rt \<noteq> rv_applied_revision rt
      | _ \<Rightarrow> False)"

definition nc_scheduleNextPoll :: "nat \<Rightarrow> 'p network \<Rightarrow> 'p network" where
  "nc_scheduleNextPoll g c =
     (if \<not> nc_pollingActive c \<or> \<not> nc_accepts c g then c
      else let c1 = nc_clear_poll c
           in nc_add_task (NcTimer (nc_next_timer c1) g)
                (c1\<lparr>nc_cancelPoll := Some (nc_next_timer c1), nc_next_timer := nc_next_timer c1 + 1\<rparr>))"

definition nc_loadAuthoritative :: "nat \<Rightarrow> NetworkMutationState \<Rightarrow> network_load_caller \<Rightarrow> 'p network \<Rightarrow> 'p network" where
  "nc_loadAuthoritative g retained caller c = nc_add_task (NcLoading g retained caller) c"

definition nc_load_results ::
  "nat \<Rightarrow> NetworkMutationState \<Rightarrow> 'p NetworkConfigView settled \<Rightarrow> 'p NetworkRuntimeStatusView settled
     \<Rightarrow> 'p network \<Rightarrow> 'p network" where
  "nc_load_results g retained configuration runtime c =
     (if \<not> nc_accepts c g then c
      else
        let nextConfiguration = (case configuration of Fulfilled v \<Rightarrow> Some v | Rejected _ \<Rightarrow> cs_configuration (nc_state c));
            nextRuntime = (case runtime of Fulfilled v \<Rightarrow> Some v | Rejected _ \<Rightarrow> cs_runtime (nc_state c));
            c1 = (if revisions_settled nextConfiguration nextRuntime
                  then c\<lparr>nc_rebootRequiredByMutation := False\<rparr> else c);
            loadError = (case configuration of Rejected e \<Rightarrow> Some (errorText e) | Fulfilled _ \<Rightarrow> None);
            statusError = (case runtime of Rejected e \<Rightarrow> Some (errorText e) | Fulfilled _ \<Rightarrow> None)
        in nc_publish
             \<lparr>cs_configuration = nextConfiguration, cs_deviceKey = cs_deviceKey (nc_state c1),
              cs_loadError = loadError,
              cs_loadState = (if nextConfiguration = None then LoadError else LoadReady),
              cs_mutation = retained,
              cs_rebootRequired = nc_effectiveRebootRequired nextConfiguration nextRuntime c1,
              cs_runtime = nextRuntime, cs_statusError = statusError\<rparr> c1)"

definition nc_load_resume ::
  "nat \<Rightarrow> NetworkMutationState \<Rightarrow> network_load_caller \<Rightarrow> 'p NetworkConfigView settled
     \<Rightarrow> 'p NetworkRuntimeStatusView settled \<Rightarrow> 'p network \<Rightarrow> 'p network" where
  "nc_load_resume g retained caller configuration runtime c =
     (let c1 = nc_load_results g retained configuration runtime c
      in case caller of LoadThenSchedule \<Rightarrow> nc_scheduleNextPoll g c1 | _ \<Rightarrow> c1)"

definition nc_pollStatus :: "nat \<Rightarrow> 'p network \<Rightarrow> 'p network" where
  "nc_pollStatus g c =
     (if \<not> nc_pollingActive c \<or> \<not> nc_accepts c g \<or> nc_mutationInFlight c
      then nc_scheduleNextPoll g c
      else nc_add_task (NcPolling g) c)"

definition nc_poll_result :: "nat \<Rightarrow> 'p NetworkRuntimeStatusView settled \<Rightarrow> 'p network \<Rightarrow> 'p network" where
  "nc_poll_result g result c =
     (if \<not> nc_accepts c g then c
      else case result of
        Rejected e \<Rightarrow> nc_publish ((nc_state c)\<lparr>cs_statusError := Some (errorText e)\<rparr>) c
      | Fulfilled runtime \<Rightarrow>
          let c1 = (if revisions_settled (cs_configuration (nc_state c)) (Some runtime)
                    then c\<lparr>nc_rebootRequiredByMutation := False\<rparr> else c)
          in nc_publish ((nc_state c1)\<lparr>
               cs_rebootRequired := nc_effectiveRebootRequired (cs_configuration (nc_state c1)) (Some runtime) c1,
               cs_runtime := Some runtime, cs_statusError := None\<rparr>) c1)"

definition nc_poll_resume :: "nat \<Rightarrow> 'p NetworkRuntimeStatusView settled \<Rightarrow> 'p network \<Rightarrow> 'p network" where
  "nc_poll_resume g result c = nc_scheduleNextPoll g (nc_poll_result g result c)"

definition nc_timer_fires :: "nat \<Rightarrow> nat \<Rightarrow> 'p network \<Rightarrow> 'p network" where
  "nc_timer_fires w g c =
     nc_pollStatus g (c\<lparr>nc_tasks := filter (\<lambda>t. \<not> nc_is_timer w t) (nc_tasks c), nc_cancelPoll := None\<rparr>)"

definition nc_submitPending :: "'p network \<Rightarrow> 'p network" where
  "nc_submitPending c =
     (case nc_pendingRequest c of
        None \<Rightarrow> c
      | Some request \<Rightarrow>
          if nc_mutationInFlight c then c
          else nc_add_task (NcMutating (nc_activeGeneration c) request)
                 (nc_publish ((nc_state c)\<lparr>cs_mutation := MutationRunning\<rparr>)
                   (c\<lparr>nc_mutationInFlight := True\<rparr>)))"

definition nc_submit_resume :: "nat \<Rightarrow> NetworkConfigMutationOutcome settled \<Rightarrow> 'p network \<Rightarrow> 'p network" where
  "nc_submit_resume g result c =
     (case result of
        Rejected e \<Rightarrow>
          (if nc_accepts c g
           then nc_publish ((nc_state c)\<lparr>cs_mutation := MutationRetryableError (errorText e)\<rparr>) c else c)
          \<lparr>nc_mutationInFlight := False\<rparr>
      | Fulfilled outcome \<Rightarrow>
          let c1 = c\<lparr>nc_mutationInFlight := False\<rparr>
          in if \<not> nc_accepts c1 g then c1
             else let c2 = c1\<lparr>nc_pendingRequest := None\<rparr>
                  in case outcome of
                    OutcomeRevisionConflict current \<Rightarrow>
                      (let c3 = nc_publish ((nc_state c2)\<lparr>cs_mutation := MutationRevisionConflict current\<rparr>) c2
                       in nc_loadAuthoritative g (cs_mutation (nc_state c3)) (LoadThenReturn outcome) c3)
                  | OutcomeApplied revision reboot \<Rightarrow>
                      (let c3 = c2\<lparr>nc_rebootRequiredByMutation := nc_rebootRequiredByMutation c2 \<or> reboot\<rparr>;
                           appliedState = MutationApplied reboot revision;
                           c4 = nc_publish ((nc_state c3)\<lparr>cs_mutation := appliedState,
                                  cs_rebootRequired := nc_effectiveRebootRequired
                                    (cs_configuration (nc_state c3)) (cs_runtime (nc_state c3)) c3\<rparr>) c3
                       in nc_loadAuthoritative g appliedState (LoadThenReturn outcome) c4))"

section \<open>Public methods\<close>

definition nc_subscribe :: "nat \<Rightarrow> 'p network \<Rightarrow> 'p network" where
  "nc_subscribe l c =
     (if nc_disposed c then c
      else c\<lparr>nc_listeners := List.insert l (nc_listeners c), nc_shown := nc_shown c @ [(l, nc_state c)]\<rparr>)"

definition nc_unsubscribe :: "nat \<Rightarrow> 'p network \<Rightarrow> 'p network" where
  "nc_unsubscribe l c = c\<lparr>nc_listeners := removeAll l (nc_listeners c)\<rparr>"

definition nc_activate :: "jstring \<Rightarrow> 'p network \<Rightarrow> 'p network" where
  "nc_activate deviceKey c =
     (if nc_disposed c then c
      else if cs_deviceKey (nc_state c) = Some deviceKey
      then (if nc_pollingActive c then c
            else nc_loadAuthoritative (nc_activeGeneration c) (cs_mutation (nc_state c)) LoadThenSchedule
                   (c\<lparr>nc_pollingActive := True\<rparr>))
      else let c1 = (nc_replaceRun c)\<lparr>nc_pollingActive := True, nc_pendingRequest := None,
                      nc_rebootRequiredByMutation := False\<rparr>;
               c2 = nc_publish \<lparr>cs_configuration = None, cs_deviceKey = Some deviceKey, cs_loadError = None,
                      cs_loadState = LoadLoading, cs_mutation = MutationIdle, cs_rebootRequired = False,
                      cs_runtime = None, cs_statusError = None\<rparr> c1
           in nc_loadAuthoritative (nc_activeGeneration c2) (cs_mutation (nc_state c2)) LoadThenSchedule c2)"

definition nc_deactivate :: "'p network \<Rightarrow> 'p network" where
  "nc_deactivate c =
     (if nc_disposed c \<or> cs_loadState (nc_state c) = LoadInactive then c
      else nc_publish inactiveState
             ((nc_replaceRun c)\<lparr>nc_pollingActive := False, nc_pendingRequest := None,
                nc_rebootRequiredByMutation := False\<rparr>))"

definition nc_suspend :: "'p network \<Rightarrow> 'p network" where
  "nc_suspend c =
     (if nc_disposed c \<or> \<not> nc_pollingActive c then c
      else nc_clear_poll (c\<lparr>nc_pollingActive := False\<rparr>))"

definition nc_refresh :: "'p network \<Rightarrow> 'p network" where
  "nc_refresh c =
     (if nc_disposed c \<or> cs_deviceKey (nc_state c) = None then c
      else nc_loadAuthoritative (nc_activeGeneration c) (cs_mutation (nc_state c)) LoadThenDone c)"

definition nc_mutate_blocked :: "'p network \<Rightarrow> bool" where
  "nc_mutate_blocked c \<longleftrightarrow>
     nc_disposed c \<or> cs_deviceKey (nc_state c) = None \<or> cs_configuration (nc_state c) = None \<or>
     nc_mutationInFlight c \<or> nc_pendingRequest c \<noteq> None"

text \<open>\<open>key\<close> is what \<open>createIdempotencyKey\<close> returned or threw.\<close>

definition nc_mutate :: "'p \<Rightarrow> jstring settled \<Rightarrow> 'p network \<Rightarrow> 'p network" where
  "nc_mutate mutation key c =
     (if nc_mutate_blocked c then c
      else case key of
        Rejected e \<Rightarrow>
          nc_publish ((nc_state c)\<lparr>cs_mutation :=
            MutationError (js ''Could not create a mutation identity: '' @ errorText e)\<rparr>) c
      | Fulfilled k \<Rightarrow>
          let idempotencyKey = js_lower k
          in if \<not> hex32 idempotencyKey
             then nc_publish ((nc_state c)\<lparr>cs_mutation :=
                    MutationError (js ''Could not create a valid mutation identity'')\<rparr>) c
             else case cs_configuration (nc_state c) of
               None \<Rightarrow> c
             | Some cfg \<Rightarrow>
                 nc_submitPending (c\<lparr>nc_pendingRequest :=
                   Some \<lparr>mr_expected_revision = cv_revision cfg, mr_idempotency_key = idempotencyKey,
                         mr_mutation = mutation\<rparr>\<rparr>))"

fun nc_retryable :: "NetworkMutationState \<Rightarrow> bool" where
  "nc_retryable (MutationRetryableError e) = True"
| "nc_retryable _ = False"

definition nc_retryMutation :: "'p network \<Rightarrow> 'p network" where
  "nc_retryMutation c =
     (if nc_disposed c \<or> cs_deviceKey (nc_state c) = None \<or> \<not> nc_retryable (cs_mutation (nc_state c)) \<or>
         nc_pendingRequest c = None \<or> nc_mutationInFlight c then c
      else nc_submitPending c)"

definition nc_abandonMutationRetry :: "'p network \<Rightarrow> 'p network" where
  "nc_abandonMutationRetry c =
     (if nc_disposed c \<or> nc_mutationInFlight c \<or> nc_pendingRequest c = None then c
      else nc_publish ((nc_state c)\<lparr>cs_mutation := MutationIdle\<rparr>) (c\<lparr>nc_pendingRequest := None\<rparr>))"

definition nc_clearMutationNotice :: "'p network \<Rightarrow> 'p network" where
  "nc_clearMutationNotice c =
     (if nc_disposed c \<or> nc_mutationInFlight c \<or> nc_pendingRequest c \<noteq> None then c
      else nc_publish ((nc_state c)\<lparr>cs_mutation := MutationIdle\<rparr>) c)"

definition nc_dispose :: "'p network \<Rightarrow> 'p network" where
  "nc_dispose c =
     (if nc_disposed c then c
      else (nc_replaceRun (c\<lparr>nc_disposed := True\<rparr>))\<lparr>nc_pollingActive := False, nc_pendingRequest := None,
              nc_listeners := []\<rparr>)"

section \<open>The transition system\<close>

inductive network_step :: "'p network \<Rightarrow> 'p network \<Rightarrow> bool" where
  nc_call_subscribe: "network_step c (nc_subscribe l c)"
| nc_call_unsubscribe: "network_step c (nc_unsubscribe l c)"
| nc_call_activate: "network_step c (nc_activate k c)"
| nc_call_deactivate: "network_step c (nc_deactivate c)"
| nc_call_suspend: "network_step c (nc_suspend c)"
| nc_call_refresh: "network_step c (nc_refresh c)"
| nc_call_mutate: "network_step c (nc_mutate m key c)"
| nc_call_retry: "network_step c (nc_retryMutation c)"
| nc_call_abandon: "network_step c (nc_abandonMutationRetry c)"
| nc_call_clear: "network_step c (nc_clearMutationNotice c)"
| nc_call_dispose: "network_step c (nc_dispose c)"
| nc_mutated: "NcMutating g r \<in> set (nc_tasks c) \<Longrightarrow>
    network_step c (nc_submit_resume g result (nc_drop_task (NcMutating g r) c))"
| nc_loaded: "NcLoading g m caller \<in> set (nc_tasks c) \<Longrightarrow>
    network_step c (nc_load_resume g m caller cfg rt (nc_drop_task (NcLoading g m caller) c))"
| nc_timer: "NcTimer w g \<in> set (nc_tasks c) \<Longrightarrow> network_step c (nc_timer_fires w g c)"
| nc_polled: "NcPolling g \<in> set (nc_tasks c) \<Longrightarrow>
    network_step c (nc_poll_resume g rt (nc_drop_task (NcPolling g) c))"

section \<open>Invariants\<close>

fun nc_is_mutating :: "'p network_task \<Rightarrow> bool" where
  "nc_is_mutating (NcMutating g r) = True"
| "nc_is_mutating _ = False"

definition nc_mutations :: "'p network \<Rightarrow> 'p network_task list" where
  "nc_mutations c = filter nc_is_mutating (nc_tasks c)"

lemma filter_mutating_not_timer [simp]:
  "filter (\<lambda>t. \<not> nc_is_timer w t \<and> nc_is_mutating t) ts = filter nc_is_mutating ts"
  by (rule filter_cong) (auto elim: nc_is_mutating.elims)

text \<open>
  Frame conditions: what each method leaves alone. \<open>nc_mutations\<close> are the suspended calls that
  wait for the answer to a mutation.
\<close>

lemma nc_mutations_update [simp]:
  "nc_mutations (c\<lparr>nc_mutationInFlight := b\<rparr>) = nc_mutations c"
  "nc_mutations (c\<lparr>nc_pendingRequest := r\<rparr>) = nc_mutations c"
  "nc_mutations (c\<lparr>nc_pollingActive := b\<rparr>) = nc_mutations c"
  "nc_mutations (c\<lparr>nc_rebootRequiredByMutation := b\<rparr>) = nc_mutations c"
  "nc_mutations (c\<lparr>nc_listeners := ls\<rparr>) = nc_mutations c"
  "nc_mutations (c\<lparr>nc_disposed := b\<rparr>) = nc_mutations c"
  "nc_mutations (c\<lparr>nc_shown := s\<rparr>) = nc_mutations c"
  "nc_mutations (c\<lparr>nc_cancelPoll := w\<rparr>) = nc_mutations c"
  "nc_mutations (c\<lparr>nc_next_timer := n\<rparr>) = nc_mutations c"
  "nc_mutations (c\<lparr>nc_activeGeneration := n\<rparr>) = nc_mutations c"
  by (simp_all add: nc_mutations_def)

lemma nc_publish_frame [simp]:
  "nc_listeners (nc_publish st c) = nc_listeners c"
  "nc_activeGeneration (nc_publish st c) = nc_activeGeneration c"
  "nc_cancelPoll (nc_publish st c) = nc_cancelPoll c"
  "nc_disposed (nc_publish st c) = nc_disposed c"
  "nc_mutationInFlight (nc_publish st c) = nc_mutationInFlight c"
  "nc_pendingRequest (nc_publish st c) = nc_pendingRequest c"
  "nc_pollingActive (nc_publish st c) = nc_pollingActive c"
  "nc_rebootRequiredByMutation (nc_publish st c) = nc_rebootRequiredByMutation c"
  "nc_tasks (nc_publish st c) = nc_tasks c"
  "nc_next_timer (nc_publish st c) = nc_next_timer c"
  "nc_state (nc_publish st c) = st"
  "nc_mutations (nc_publish st c) = nc_mutations c"
  by (simp_all add: nc_publish_def nc_mutations_def)

lemma nc_clear_poll_frame [simp]:
  "nc_listeners (nc_clear_poll c) = nc_listeners c"
  "nc_activeGeneration (nc_clear_poll c) = nc_activeGeneration c"
  "nc_disposed (nc_clear_poll c) = nc_disposed c"
  "nc_mutationInFlight (nc_clear_poll c) = nc_mutationInFlight c"
  "nc_pendingRequest (nc_clear_poll c) = nc_pendingRequest c"
  "nc_pollingActive (nc_clear_poll c) = nc_pollingActive c"
  "nc_rebootRequiredByMutation (nc_clear_poll c) = nc_rebootRequiredByMutation c"
  "nc_state (nc_clear_poll c) = nc_state c"
  "nc_next_timer (nc_clear_poll c) = nc_next_timer c"
  "nc_shown (nc_clear_poll c) = nc_shown c"
  "nc_cancelPoll (nc_clear_poll c) = None"
  "nc_mutations (nc_clear_poll c) = nc_mutations c"
  by (simp_all add: nc_clear_poll_def nc_mutations_def split: option.splits)

lemma nc_replaceRun_frame [simp]:
  "nc_listeners (nc_replaceRun c) = nc_listeners c"
  "nc_disposed (nc_replaceRun c) = nc_disposed c"
  "nc_mutationInFlight (nc_replaceRun c) = nc_mutationInFlight c"
  "nc_pendingRequest (nc_replaceRun c) = nc_pendingRequest c"
  "nc_pollingActive (nc_replaceRun c) = nc_pollingActive c"
  "nc_rebootRequiredByMutation (nc_replaceRun c) = nc_rebootRequiredByMutation c"
  "nc_state (nc_replaceRun c) = nc_state c"
  "nc_next_timer (nc_replaceRun c) = nc_next_timer c"
  "nc_shown (nc_replaceRun c) = nc_shown c"
  "nc_cancelPoll (nc_replaceRun c) = None"
  "nc_activeGeneration (nc_replaceRun c) = nc_activeGeneration c + 1"
  "nc_mutations (nc_replaceRun c) = nc_mutations c"
  by (simp_all add: nc_replaceRun_def)

lemma nc_add_task_frame [simp]:
  "nc_listeners (nc_add_task t c) = nc_listeners c"
  "nc_activeGeneration (nc_add_task t c) = nc_activeGeneration c"
  "nc_cancelPoll (nc_add_task t c) = nc_cancelPoll c"
  "nc_disposed (nc_add_task t c) = nc_disposed c"
  "nc_mutationInFlight (nc_add_task t c) = nc_mutationInFlight c"
  "nc_pendingRequest (nc_add_task t c) = nc_pendingRequest c"
  "nc_pollingActive (nc_add_task t c) = nc_pollingActive c"
  "nc_rebootRequiredByMutation (nc_add_task t c) = nc_rebootRequiredByMutation c"
  "nc_state (nc_add_task t c) = nc_state c"
  "nc_next_timer (nc_add_task t c) = nc_next_timer c"
  "nc_shown (nc_add_task t c) = nc_shown c"
  "nc_tasks (nc_add_task t c) = nc_tasks c @ [t]"
  "nc_mutations (nc_add_task t c) = nc_mutations c @ (if nc_is_mutating t then [t] else [])"
  by (simp_all add: nc_add_task_def nc_mutations_def)

lemma nc_drop_task_frame [simp]:
  "nc_listeners (nc_drop_task t c) = nc_listeners c"
  "nc_activeGeneration (nc_drop_task t c) = nc_activeGeneration c"
  "nc_cancelPoll (nc_drop_task t c) = nc_cancelPoll c"
  "nc_disposed (nc_drop_task t c) = nc_disposed c"
  "nc_mutationInFlight (nc_drop_task t c) = nc_mutationInFlight c"
  "nc_pendingRequest (nc_drop_task t c) = nc_pendingRequest c"
  "nc_pollingActive (nc_drop_task t c) = nc_pollingActive c"
  "nc_rebootRequiredByMutation (nc_drop_task t c) = nc_rebootRequiredByMutation c"
  "nc_state (nc_drop_task t c) = nc_state c"
  "nc_next_timer (nc_drop_task t c) = nc_next_timer c"
  "nc_shown (nc_drop_task t c) = nc_shown c"
  "nc_tasks (nc_drop_task t c) = remove1 t (nc_tasks c)"
  "nc_mutations (nc_drop_task t c) = (if nc_is_mutating t then remove1 t (nc_mutations c) else nc_mutations c)"
  by (simp_all add: nc_drop_task_def nc_mutations_def filter_remove1)

lemma nc_loadAuthoritative_frame [simp]:
  "nc_listeners (nc_loadAuthoritative g m k c) = nc_listeners c"
  "nc_activeGeneration (nc_loadAuthoritative g m k c) = nc_activeGeneration c"
  "nc_cancelPoll (nc_loadAuthoritative g m k c) = nc_cancelPoll c"
  "nc_disposed (nc_loadAuthoritative g m k c) = nc_disposed c"
  "nc_mutationInFlight (nc_loadAuthoritative g m k c) = nc_mutationInFlight c"
  "nc_pendingRequest (nc_loadAuthoritative g m k c) = nc_pendingRequest c"
  "nc_pollingActive (nc_loadAuthoritative g m k c) = nc_pollingActive c"
  "nc_rebootRequiredByMutation (nc_loadAuthoritative g m k c) = nc_rebootRequiredByMutation c"
  "nc_state (nc_loadAuthoritative g m k c) = nc_state c"
  "nc_next_timer (nc_loadAuthoritative g m k c) = nc_next_timer c"
  "nc_shown (nc_loadAuthoritative g m k c) = nc_shown c"
  "nc_tasks (nc_loadAuthoritative g m k c) = nc_tasks c @ [NcLoading g m k]"
  "nc_mutations (nc_loadAuthoritative g m k c) = nc_mutations c"
  by (simp_all add: nc_loadAuthoritative_def)

lemma nc_scheduleNextPoll_frame [simp]:
  "nc_listeners (nc_scheduleNextPoll g c) = nc_listeners c"
  "nc_activeGeneration (nc_scheduleNextPoll g c) = nc_activeGeneration c"
  "nc_disposed (nc_scheduleNextPoll g c) = nc_disposed c"
  "nc_mutationInFlight (nc_scheduleNextPoll g c) = nc_mutationInFlight c"
  "nc_pendingRequest (nc_scheduleNextPoll g c) = nc_pendingRequest c"
  "nc_pollingActive (nc_scheduleNextPoll g c) = nc_pollingActive c"
  "nc_rebootRequiredByMutation (nc_scheduleNextPoll g c) = nc_rebootRequiredByMutation c"
  "nc_state (nc_scheduleNextPoll g c) = nc_state c"
  "nc_shown (nc_scheduleNextPoll g c) = nc_shown c"
  "nc_mutations (nc_scheduleNextPoll g c) = nc_mutations c"
  by (simp_all add: nc_scheduleNextPoll_def Let_def)

lemma nc_pollStatus_frame [simp]:
  "nc_listeners (nc_pollStatus g c) = nc_listeners c"
  "nc_activeGeneration (nc_pollStatus g c) = nc_activeGeneration c"
  "nc_disposed (nc_pollStatus g c) = nc_disposed c"
  "nc_mutationInFlight (nc_pollStatus g c) = nc_mutationInFlight c"
  "nc_pendingRequest (nc_pollStatus g c) = nc_pendingRequest c"
  "nc_pollingActive (nc_pollStatus g c) = nc_pollingActive c"
  "nc_rebootRequiredByMutation (nc_pollStatus g c) = nc_rebootRequiredByMutation c"
  "nc_state (nc_pollStatus g c) = nc_state c"
  "nc_shown (nc_pollStatus g c) = nc_shown c"
  "nc_mutations (nc_pollStatus g c) = nc_mutations c"
  by (simp_all add: nc_pollStatus_def)

lemma nc_load_results_frame [simp]:
  "nc_listeners (nc_load_results g m cfg rt c) = nc_listeners c"
  "nc_activeGeneration (nc_load_results g m cfg rt c) = nc_activeGeneration c"
  "nc_cancelPoll (nc_load_results g m cfg rt c) = nc_cancelPoll c"
  "nc_disposed (nc_load_results g m cfg rt c) = nc_disposed c"
  "nc_mutationInFlight (nc_load_results g m cfg rt c) = nc_mutationInFlight c"
  "nc_pendingRequest (nc_load_results g m cfg rt c) = nc_pendingRequest c"
  "nc_pollingActive (nc_load_results g m cfg rt c) = nc_pollingActive c"
  "nc_tasks (nc_load_results g m cfg rt c) = nc_tasks c"
  "nc_next_timer (nc_load_results g m cfg rt c) = nc_next_timer c"
  "nc_mutations (nc_load_results g m cfg rt c) = nc_mutations c"
  by (simp_all add: nc_load_results_def Let_def)

lemma nc_poll_result_frame [simp]:
  "nc_listeners (nc_poll_result g rt c) = nc_listeners c"
  "nc_activeGeneration (nc_poll_result g rt c) = nc_activeGeneration c"
  "nc_cancelPoll (nc_poll_result g rt c) = nc_cancelPoll c"
  "nc_disposed (nc_poll_result g rt c) = nc_disposed c"
  "nc_mutationInFlight (nc_poll_result g rt c) = nc_mutationInFlight c"
  "nc_pendingRequest (nc_poll_result g rt c) = nc_pendingRequest c"
  "nc_pollingActive (nc_poll_result g rt c) = nc_pollingActive c"
  "nc_tasks (nc_poll_result g rt c) = nc_tasks c"
  "nc_next_timer (nc_poll_result g rt c) = nc_next_timer c"
  "nc_mutations (nc_poll_result g rt c) = nc_mutations c"
  by (simp_all add: nc_poll_result_def Let_def split: settled.splits)

lemma nc_load_resume_frame [simp]:
  "nc_listeners (nc_load_resume g m k cfg rt c) = nc_listeners c"
  "nc_activeGeneration (nc_load_resume g m k cfg rt c) = nc_activeGeneration c"
  "nc_disposed (nc_load_resume g m k cfg rt c) = nc_disposed c"
  "nc_mutationInFlight (nc_load_resume g m k cfg rt c) = nc_mutationInFlight c"
  "nc_pendingRequest (nc_load_resume g m k cfg rt c) = nc_pendingRequest c"
  "nc_pollingActive (nc_load_resume g m k cfg rt c) = nc_pollingActive c"
  "nc_mutations (nc_load_resume g m k cfg rt c) = nc_mutations c"
  by (simp_all add: nc_load_resume_def Let_def split: network_load_caller.splits)

lemma nc_poll_resume_frame [simp]:
  "nc_listeners (nc_poll_resume g rt c) = nc_listeners c"
  "nc_activeGeneration (nc_poll_resume g rt c) = nc_activeGeneration c"
  "nc_disposed (nc_poll_resume g rt c) = nc_disposed c"
  "nc_mutationInFlight (nc_poll_resume g rt c) = nc_mutationInFlight c"
  "nc_pendingRequest (nc_poll_resume g rt c) = nc_pendingRequest c"
  "nc_pollingActive (nc_poll_resume g rt c) = nc_pollingActive c"
  "nc_mutations (nc_poll_resume g rt c) = nc_mutations c"
  by (simp_all add: nc_poll_resume_def)

lemma nc_timer_fires_frame [simp]:
  "nc_listeners (nc_timer_fires w g c) = nc_listeners c"
  "nc_activeGeneration (nc_timer_fires w g c) = nc_activeGeneration c"
  "nc_disposed (nc_timer_fires w g c) = nc_disposed c"
  "nc_mutationInFlight (nc_timer_fires w g c) = nc_mutationInFlight c"
  "nc_pendingRequest (nc_timer_fires w g c) = nc_pendingRequest c"
  "nc_pollingActive (nc_timer_fires w g c) = nc_pollingActive c"
  "nc_rebootRequiredByMutation (nc_timer_fires w g c) = nc_rebootRequiredByMutation c"
  "nc_state (nc_timer_fires w g c) = nc_state c"
  "nc_shown (nc_timer_fires w g c) = nc_shown c"
  "nc_mutations (nc_timer_fires w g c) = nc_mutations c"
  by (simp_all add: nc_timer_fires_def) (simp add: nc_mutations_def)


lemma nc_submitPending_cases:
  "nc_submitPending c = c \<or>
   (\<exists>r. nc_pendingRequest c = Some r \<and> \<not> nc_mutationInFlight c \<and>
      nc_submitPending c = nc_add_task (NcMutating (nc_activeGeneration c) r)
        (nc_publish ((nc_state c)\<lparr>cs_mutation := MutationRunning\<rparr>) (c\<lparr>nc_mutationInFlight := True\<rparr>)))"
  by (simp add: nc_submitPending_def split: option.splits)

section \<open>At most one mutation at the device\<close>

definition network_single :: "'p network \<Rightarrow> bool" where
  "network_single c \<longleftrightarrow> length (nc_mutations c) = (if nc_mutationInFlight c then 1 else 0)"

lemma network_single_frame [simp]:
  "network_single (c\<lparr>nc_pendingRequest := r\<rparr>) = network_single c"
  "network_single (nc_publish st c) = network_single c"
  by (simp_all add: network_single_def)

lemma submitPending_single: "network_single c \<Longrightarrow> network_single (nc_submitPending c)"
  using nc_submitPending_cases [of c] by (auto simp: network_single_def)

lemma mutate_single: "network_single c \<Longrightarrow> network_single (nc_mutate m key c)"
  unfolding nc_mutate_def
  by (simp add: Let_def submitPending_single split: settled.splits option.splits)

lemma submit_resume_flags:
  "\<not> nc_mutationInFlight (nc_submit_resume g result c) \<and> nc_mutations (nc_submit_resume g result c) = nc_mutations c"
  by (simp add: nc_submit_resume_def Let_def split: settled.splits NetworkConfigMutationOutcome.splits)

lemma network_single_step: "network_step c c' \<Longrightarrow> network_single c \<Longrightarrow> network_single c'"
proof (induction rule: network_step.induct)
  case (nc_mutated g r c result)
  then have "NcMutating g r \<in> set (nc_mutations c)" by (simp add: nc_mutations_def)
  with nc_mutated show ?case
    by (auto simp: network_single_def submit_resume_flags length_remove1 split: if_splits)
next
  case (nc_call_mutate c m key)
  then show ?case by (rule mutate_single)
next
  case (nc_call_retry c)
  then show ?case by (simp add: nc_retryMutation_def submitPending_single)
qed (auto simp: network_single_def nc_subscribe_def nc_unsubscribe_def nc_activate_def nc_deactivate_def
    nc_suspend_def nc_refresh_def nc_abandonMutationRetry_def nc_clearMutationNotice_def nc_dispose_def Let_def
    split: if_splits)

section \<open>The request in flight is the retained request\<close>

text \<open>
  A mutation of the present generation that is at the device is the retained one; one of an earlier
  generation belongs to a board that is no longer shown. Every retained or submitted request carries
  a well-formed idempotency key.
\<close>

definition network_owned :: "'p network \<Rightarrow> bool" where
  "network_owned c \<longleftrightarrow>
     (\<forall>g r. NcMutating g r \<in> set (nc_mutations c) \<longrightarrow>
        g \<le> nc_activeGeneration c \<and> (g = nc_activeGeneration c \<longrightarrow> nc_pendingRequest c = Some r)
        \<and> hex32 (mr_idempotency_key r)) \<and>
     (\<forall>r. nc_pendingRequest c = Some r \<longrightarrow> hex32 (mr_idempotency_key r))"

lemma network_owned_publish: "network_owned (nc_publish st c) = network_owned c"
  by (simp add: network_owned_def)

lemma submitPending_owned: "network_owned c \<Longrightarrow> network_owned (nc_submitPending c)"
  using nc_submitPending_cases [of c] by (auto simp: network_owned_def)

lemma mutate_owned:
  assumes "network_single c" and "network_owned c"
  shows "network_owned (nc_mutate m key c)"
proof (cases "nc_mutate_blocked c")
  case True
  with assms show ?thesis by (simp add: nc_mutate_def)
next
  case False
  then have none: "nc_mutations c = []" using assms(1) by (simp add: network_single_def nc_mutate_blocked_def)
  show ?thesis
    using assms(2) False none unfolding nc_mutate_def
    by (auto simp: Let_def network_owned_def intro!: submitPending_owned [unfolded network_owned_def, THEN conjunct1]
        submitPending_owned [unfolded network_owned_def, THEN conjunct2] split: settled.splits option.splits)
qed

lemma submit_resume_owned:
  assumes "NcMutating g r \<in> set (nc_mutations c)" and "network_single c" and "network_owned c"
  shows "network_owned (nc_submit_resume g result (nc_drop_task (NcMutating g r) c))"
proof -
  have "nc_mutations c = [NcMutating g r]"
    using assms(1,2) by (cases "nc_mutations c") (auto simp: network_single_def split: if_splits)
  then have none: "nc_mutations (nc_drop_task (NcMutating g r) c) = []" by simp
  have "nc_pendingRequest (nc_submit_resume g result d) = nc_pendingRequest d \<or>
        nc_pendingRequest (nc_submit_resume g result d) = None" for d :: "'a network"
    by (simp add: nc_submit_resume_def Let_def split: settled.splits NetworkConfigMutationOutcome.splits)
  from this [of "nc_drop_task (NcMutating g r) c"] none assms(3) show ?thesis
    by (auto simp: network_owned_def submit_resume_flags)
qed

lemma network_owned_no_future: "network_owned c \<Longrightarrow> NcMutating (Suc (nc_activeGeneration c)) r \<notin> set (nc_mutations c)"
  unfolding network_owned_def using not_less_eq_eq by blast

lemma network_owned_step:
  "network_step c c' \<Longrightarrow> network_single c \<Longrightarrow> network_owned c \<Longrightarrow> network_owned c'"
proof (induction rule: network_step.induct)
  case (nc_mutated g r c result)
  then show ?case by (intro submit_resume_owned) (simp_all add: nc_mutations_def)
next
  case (nc_call_mutate c m key)
  then show ?case by (intro mutate_owned)
next
  case (nc_call_retry c)
  then show ?case by (simp add: nc_retryMutation_def submitPending_owned)
next
  case (nc_call_abandon c)
  then have "\<not> nc_mutationInFlight c \<Longrightarrow> nc_mutations c = []" by (simp add: network_single_def)
  with nc_call_abandon show ?case by (auto simp: network_owned_def nc_abandonMutationRetry_def)
next
  case (nc_call_clear c)
  then show ?case by (simp add: nc_clearMutationNotice_def network_owned_publish)
qed (auto simp: network_owned_def nc_subscribe_def nc_unsubscribe_def nc_activate_def nc_deactivate_def
    nc_suspend_def nc_refresh_def nc_dispose_def Let_def
    split: if_splits dest: le_SucI network_owned_no_future [unfolded network_owned_def, OF conjI, rotated -1])

section \<open>The reboot notice\<close>

definition network_reboot_ok :: "'p network \<Rightarrow> bool" where
  "network_reboot_ok c \<longleftrightarrow>
     cs_rebootRequired (nc_state c) =
       nc_effectiveRebootRequired (cs_configuration (nc_state c)) (cs_runtime (nc_state c)) c"

lemma reboot_ok_cong:
  "nc_state c' = nc_state c \<Longrightarrow> nc_rebootRequiredByMutation c' = nc_rebootRequiredByMutation c \<Longrightarrow>
   network_reboot_ok c' = network_reboot_ok c"
  by (simp add: network_reboot_ok_def nc_effectiveRebootRequired_def)

lemma reboot_ok_notice:
  "network_reboot_ok c \<Longrightarrow> network_reboot_ok (nc_publish ((nc_state c)\<lparr>cs_mutation := m\<rparr>) c)"
  by (simp add: network_reboot_ok_def nc_effectiveRebootRequired_def)

lemma reboot_ok_published:
  "cs_rebootRequired st = nc_effectiveRebootRequired (cs_configuration st) (cs_runtime st) c
   \<Longrightarrow> network_reboot_ok (nc_publish st c)"
  by (simp add: network_reboot_ok_def nc_effectiveRebootRequired_def)

lemma reboot_ok_frame [simp]:
  "network_reboot_ok (nc_add_task t c) = network_reboot_ok c"
  "network_reboot_ok (nc_drop_task t c) = network_reboot_ok c"
  "network_reboot_ok (nc_clear_poll c) = network_reboot_ok c"
  "network_reboot_ok (nc_loadAuthoritative g m k c) = network_reboot_ok c"
  "network_reboot_ok (nc_scheduleNextPoll g c) = network_reboot_ok c"
  "network_reboot_ok (nc_pollStatus g c) = network_reboot_ok c"
  "network_reboot_ok (nc_timer_fires w g c) = network_reboot_ok c"
  "network_reboot_ok (nc_replaceRun c) = network_reboot_ok c"
  "network_reboot_ok (c\<lparr>nc_mutationInFlight := b\<rparr>) = network_reboot_ok c"
  "network_reboot_ok (c\<lparr>nc_pendingRequest := r\<rparr>) = network_reboot_ok c"
  "network_reboot_ok (c\<lparr>nc_pollingActive := b\<rparr>) = network_reboot_ok c"
  "network_reboot_ok (c\<lparr>nc_listeners := ls\<rparr>) = network_reboot_ok c"
  "network_reboot_ok (c\<lparr>nc_shown := s\<rparr>) = network_reboot_ok c"
  "network_reboot_ok (c\<lparr>nc_disposed := b\<rparr>) = network_reboot_ok c"
  by (rule reboot_ok_cong; simp)+

lemma reboot_ok_submitPending: "network_reboot_ok c \<Longrightarrow> network_reboot_ok (nc_submitPending c)"
  using reboot_ok_notice [of "c\<lparr>nc_mutationInFlight := True\<rparr>" MutationRunning]
  by (simp add: nc_submitPending_def split: option.splits)

lemma reboot_ok_load_results: "network_reboot_ok c \<Longrightarrow> network_reboot_ok (nc_load_results g m cfg rt c)"
  by (simp add: nc_load_results_def Let_def reboot_ok_published)

lemma reboot_ok_poll_result: "network_reboot_ok c \<Longrightarrow> network_reboot_ok (nc_poll_result g rt c)"
  by (simp add: nc_poll_result_def Let_def reboot_ok_published split: settled.splits)
    (simp add: network_reboot_ok_def nc_effectiveRebootRequired_def)

lemma reboot_ok_submit_resume: "network_reboot_ok c \<Longrightarrow> network_reboot_ok (nc_submit_resume g result c)"
  by (auto simp: nc_submit_resume_def Let_def split: settled.splits NetworkConfigMutationOutcome.splits)
    (auto simp: network_reboot_ok_def nc_effectiveRebootRequired_def)

lemma network_reboot_step: "network_step c c' \<Longrightarrow> network_reboot_ok c \<Longrightarrow> network_reboot_ok c'"
proof (induction rule: network_step.induct)
  case (nc_call_mutate c m key)
  then show ?case
    by (auto simp: nc_mutate_def Let_def reboot_ok_notice intro!: reboot_ok_submitPending
        split: settled.splits option.splits)
next
  case (nc_call_activate c k)
  then show ?case
    by (auto simp: nc_activate_def Let_def) (auto simp: network_reboot_ok_def nc_effectiveRebootRequired_def)
next
  case (nc_call_deactivate c)
  then show ?case
    by (auto simp: nc_deactivate_def) (auto simp: network_reboot_ok_def nc_effectiveRebootRequired_def inactiveState_def)
next
  case (nc_call_abandon c)
  then show ?case
    using reboot_ok_notice [of "c\<lparr>nc_pendingRequest := None\<rparr>"] by (simp add: nc_abandonMutationRetry_def)
qed (simp_all add: nc_subscribe_def nc_unsubscribe_def nc_suspend_def nc_refresh_def nc_retryMutation_def
    reboot_ok_submitPending nc_clearMutationNotice_def reboot_ok_notice nc_dispose_def reboot_ok_submit_resume
    nc_load_resume_def reboot_ok_load_results nc_poll_resume_def reboot_ok_poll_result Let_def
    split: network_load_caller.splits)

section \<open>Generations and disposal\<close>

definition network_closed :: "'p network \<Rightarrow> bool" where
  "network_closed c \<longleftrightarrow> nc_disposed c \<and> nc_listeners c = []"

lemma nc_not_accepts_disposed: "nc_disposed c \<Longrightarrow> \<not> nc_accepts c g"
  by (simp add: nc_accepts_def)

lemma nc_submitPending_shown: "nc_listeners c = [] \<Longrightarrow> nc_shown (nc_submitPending c) = nc_shown c
  \<and> nc_listeners (nc_submitPending c) = [] \<and> nc_disposed (nc_submitPending c) = nc_disposed c"
  using nc_submitPending_cases [of c] by (auto simp: nc_publish_def)

lemma network_closed_step:
  assumes "network_step c c'" and "network_closed c"
  shows "network_closed c' \<and> nc_shown c' = nc_shown c"
  using assms
  by (induction rule: network_step.induct)
    (auto simp: network_closed_def nc_subscribe_def nc_unsubscribe_def nc_activate_def nc_deactivate_def
      nc_suspend_def nc_refresh_def nc_mutate_def nc_mutate_blocked_def nc_retryMutation_def
      nc_abandonMutationRetry_def nc_clearMutationNotice_def nc_dispose_def nc_submit_resume_def
      nc_load_resume_def nc_load_results_def nc_poll_resume_def nc_poll_result_def nc_accepts_def Let_def
      split: settled.splits network_load_caller.splits)

lemma nc_submitPending_gen [simp]: "nc_activeGeneration (nc_submitPending c) = nc_activeGeneration c"
  using nc_submitPending_cases [of c] by auto

lemma nc_submit_resume_gen [simp]: "nc_activeGeneration (nc_submit_resume g result c) = nc_activeGeneration c"
  by (simp add: nc_submit_resume_def Let_def split: settled.splits NetworkConfigMutationOutcome.splits)

lemma network_gen_mono: "network_step c c' \<Longrightarrow> nc_activeGeneration c \<le> nc_activeGeneration c'"
  by (induction rule: network_step.induct)
    (simp_all add: nc_subscribe_def nc_unsubscribe_def nc_activate_def nc_deactivate_def nc_suspend_def
      nc_refresh_def nc_mutate_def nc_retryMutation_def nc_abandonMutationRetry_def
      nc_clearMutationNotice_def nc_dispose_def Let_def split: settled.splits option.splits)

interpretation network: generation_owner network_step nc_activeGeneration nc_accepts network_closed nc_shown
  by unfold_locales
    (auto simp: nc_accepts_def network_closed_def [symmetric] dest: network_gen_mono network_closed_step,
     auto simp: network_closed_def)

definition network_inv :: "'p network \<Rightarrow> bool" where
  "network_inv c \<longleftrightarrow> network_single c \<and> network_owned c \<and> network_reboot_ok c"

interpretation network_sys: step_invariant network_step network_inv
  by unfold_locales
    (auto simp: network_inv_def intro: network_single_step network_owned_step network_reboot_step)

lemma network_new_inv: "network_new d = Inr c \<Longrightarrow> network_inv c"
  by (auto simp: network_new_def network_inv_def network_single_def network_owned_def nc_mutations_def
      network_reboot_ok_def nc_effectiveRebootRequired_def inactiveState_def split: option.splits)

lemma network_reach_inv: "network_new d = Inr c0 \<Longrightarrow> network_step\<^sup>*\<^sup>* c0 c \<Longrightarrow> network_inv c"
  using network_sys.reach_inv network_new_inv by blast

section \<open>Properties\<close>

text \<open>
  C7. The device never sees two mutations at once, and a mutation in flight for the board shown is the
  retained request: in every reachable state there is exactly one suspended mutation call if the
  in-flight flag is set and none otherwise, and one of the present generation is the pending request.
\<close>

theorem network_single_mutation:
  assumes "network_new d = Inr c0" and "network_step\<^sup>*\<^sup>* c0 c"
  shows "length (filter nc_is_mutating (nc_tasks c)) = (if nc_mutationInFlight c then 1 else 0)
    \<and> (\<forall>r. NcMutating (nc_activeGeneration c) r \<in> set (nc_tasks c) \<longrightarrow> nc_pendingRequest c = Some r)"
  using network_reach_inv [OF assms]
  by (auto simp: network_inv_def network_single_def network_owned_def nc_mutations_def)

definition network_example :: "unit network" where
  "network_example = \<lparr>nc_pollIntervalMs = 2000, nc_listeners = [], nc_activeGeneration = 0,
     nc_cancelPoll = None, nc_disposed = False, nc_mutationInFlight = False, nc_pendingRequest = None,
     nc_pollingActive = False, nc_rebootRequiredByMutation = False, nc_state = inactiveState,
     nc_tasks = [], nc_next_timer = 0, nc_shown = []\<rparr>"

lemma network_example_new: "network_new None = Inr network_example"
  by (simp add: network_new_def network_example_def NETWORK_STATUS_POLL_INTERVAL_MS_def)

definition network_key :: jstring where
  "network_key = replicate 32 97"

lemma network_key_ok: "hex32 network_key" "js_lower network_key = network_key"
proof -
  show "hex32 network_key" by (simp add: network_key_def hex32_def is_hex_lower_def list_all_iff)
  then show "js_lower network_key = network_key" by (simp add: hex32_def js_lower_hex)
qed

definition network_board :: jstring where
  "network_board = js ''board''"

definition network_view :: "unit NetworkConfigView" where
  "network_view = \<lparr>cv_revision = 4, cv_contents = ()\<rparr>"

definition network_status :: "unit NetworkRuntimeStatusView" where
  "network_status = \<lparr>rv_configured_revision = 4, rv_applied_revision = 4, rv_contents = ()\<rparr>"

definition network_request :: "unit NetworkConfigMutationRequest" where
  "network_request = \<lparr>mr_expected_revision = 4, mr_idempotency_key = network_key, mr_mutation = ()\<rparr>"

text \<open>A board that is activated and loaded, and then asked for a mutation.\<close>

definition network_ready :: "unit network" where
  "network_ready =
     nc_load_resume 1 MutationIdle LoadThenSchedule (Fulfilled network_view) (Fulfilled network_status)
       (nc_drop_task (NcLoading 1 MutationIdle LoadThenSchedule) (nc_activate network_board network_example))"

definition network_mutating :: "unit network" where
  "network_mutating = nc_mutate () (Fulfilled network_key) network_ready"

lemmas network_example_defs = network_example_def network_ready_def network_mutating_def
  nc_activate_def nc_load_resume_def nc_load_results_def nc_scheduleNextPoll_def nc_mutate_def
  nc_submitPending_def nc_mutate_blocked_def nc_accepts_def nc_replaceRun_def nc_clear_poll_def
  nc_publish_def nc_add_task_def nc_drop_task_def nc_loadAuthoritative_def inactiveState_def
  revisions_settled_def nc_effectiveRebootRequired_def network_view_def network_status_def

lemma network_ready_eq:
  "network_ready = \<lparr>nc_pollIntervalMs = 2000, nc_listeners = [], nc_activeGeneration = 1,
     nc_cancelPoll = Some 0, nc_disposed = False, nc_mutationInFlight = False, nc_pendingRequest = None,
     nc_pollingActive = True, nc_rebootRequiredByMutation = False,
     nc_state = \<lparr>cs_configuration = Some network_view, cs_deviceKey = Some network_board,
       cs_loadError = None, cs_loadState = LoadReady, cs_mutation = MutationIdle, cs_rebootRequired = False,
       cs_runtime = Some network_status, cs_statusError = None\<rparr>,
     nc_tasks = [NcTimer 0 1], nc_next_timer = 1, nc_shown = []\<rparr>"
  by (simp add: network_example_defs)

lemma network_mutating_eq:
  "network_mutating = network_ready\<lparr>nc_mutationInFlight := True, nc_pendingRequest := Some network_request,
     nc_state := (nc_state network_ready)\<lparr>cs_mutation := MutationRunning\<rparr>,
     nc_tasks := [NcTimer 0 1, NcMutating 1 network_request]\<rparr>"
  unfolding network_mutating_def network_ready_eq
  by (simp add: nc_mutate_def nc_mutate_blocked_def network_key_ok nc_submitPending_def nc_publish_def
      nc_add_task_def network_request_def network_view_def)

lemma network_ready_reach: "network_step\<^sup>*\<^sup>* network_example network_ready"
proof -
  have "network_step network_example (nc_activate network_board network_example)"
    by (rule network_step.nc_call_activate)
  moreover have "network_step (nc_activate network_board network_example) network_ready"
    unfolding network_ready_def
    by (rule network_step.nc_loaded) (simp add: network_example_defs)
  ultimately show ?thesis by (meson r_into_rtranclp rtranclp.rtrancl_into_rtrancl)
qed

lemma network_mutating_reach: "network_step\<^sup>*\<^sup>* network_example network_mutating"
  unfolding network_mutating_def
  by (rule rtranclp.rtrancl_into_rtrancl [OF network_ready_reach]) (rule network_step.nc_call_mutate)

theorem network_single_mutation_witness:
  "length (filter nc_is_mutating (nc_tasks network_mutating)) = 1
   \<and> nc_pendingRequest network_mutating = Some network_request"
  using network_single_mutation [OF network_example_new network_mutating_reach]
  by (simp add: network_mutating_eq network_ready_eq)

text \<open>
  C8. A transport failure loses no mutation and never forges one: when the answer to the mutation in
  flight fails, the exact request is kept, a new mutation is refused, and \<open>retryMutation\<close> submits that
  same request again, with the same expected revision and idempotency key.
\<close>

theorem network_retry_replays:
  assumes "network_new d = Inr c0" and "network_step\<^sup>*\<^sup>* c0 c"
    and "NcMutating g r \<in> set (nc_tasks c)" and "nc_accepts c g"
    and "c1 = nc_submit_resume g (Rejected e) (nc_drop_task (NcMutating g r) c)"
  shows "nc_pendingRequest c1 = Some r \<and> hex32 (mr_idempotency_key r)
    \<and> cs_mutation (nc_state c1) = MutationRetryableError (errorText e)
    \<and> nc_mutate m key c1 = c1
    \<and> filter nc_is_mutating (nc_tasks (nc_retryMutation c1)) = [NcMutating g r]"
proof -
  have inv: "network_single c" "network_owned c" using network_reach_inv [OF assms(1,2)] by (auto simp: network_inv_def)
  have mem: "NcMutating g r \<in> set (nc_mutations c)" using assms(3) by (simp add: nc_mutations_def)
  have g: "g = nc_activeGeneration c" and live: "\<not> nc_disposed c" "cs_deviceKey (nc_state c) \<noteq> None"
    using assms(4) by (auto simp: nc_accepts_def)
  with inv mem have pending: "nc_pendingRequest c = Some r" "hex32 (mr_idempotency_key r)"
    by (auto simp: network_owned_def)
  have one: "nc_mutations c = [NcMutating g r]"
    using inv(1) mem by (cases "nc_mutations c") (auto simp: network_single_def split: if_splits)
  have c1: "c1 = (nc_publish ((nc_state c)\<lparr>cs_mutation := MutationRetryableError (errorText e)\<rparr>)
      (nc_drop_task (NcMutating g r) c))\<lparr>nc_mutationInFlight := False\<rparr>"
    using assms(4,5) by (simp add: nc_submit_resume_def nc_accepts_def)
  have "nc_retryMutation c1 = nc_submitPending c1"
    using live pending by (auto simp: c1 nc_retryMutation_def)
  moreover have "nc_mutations (nc_submitPending c1) = [NcMutating g r]"
    using pending one g by (simp add: c1 nc_submitPending_def)
  ultimately have "nc_mutations (nc_retryMutation c1) = [NcMutating g r]" by simp
  then show ?thesis using pending by (simp add: c1 nc_mutate_def nc_mutate_blocked_def nc_mutations_def)
qed

theorem network_retry_replays_witness:
  "filter nc_is_mutating (nc_tasks (nc_retryMutation (nc_submit_resume 1 (Rejected (ErrorObject (js ''timeout'')))
     (nc_drop_task (NcMutating 1 network_request) network_mutating)))) = [NcMutating 1 network_request]"
proof -
  have "NcMutating 1 network_request \<in> set (nc_tasks network_mutating)" "nc_accepts network_mutating 1"
    by (simp_all add: network_mutating_eq network_ready_eq nc_accepts_def)
  from network_retry_replays [OF network_example_new network_mutating_reach this refl] show ?thesis by blast
qed

text \<open>
  C10. Leaving a board detaches everything that was under way for it: after \<open>deactivate\<close>, or after
  \<open>activate\<close> for another device key, no call suspended before (a mutation, a load or a status poll)
  changes the state shown, the retained request or what listeners were shown, in any later state.
\<close>

theorem network_board_switch_detaches:
  assumes "c1 = nc_deactivate c \<and> cs_loadState (nc_state c) \<noteq> LoadInactive
      \<or> c1 = nc_activate k c \<and> cs_deviceKey (nc_state c) \<noteq> Some k"
    and "\<not> nc_disposed c" and "g \<le> nc_activeGeneration c" and "network_step\<^sup>*\<^sup>* c1 c2"
    and "c3 = nc_submit_resume g result c2 \<or> c3 = nc_load_resume g m caller cfg rt c2 \<or> c3 = nc_poll_resume g rt c2"
  shows "nc_state c3 = nc_state c2 \<and> nc_pendingRequest c3 = nc_pendingRequest c2 \<and> nc_shown c3 = nc_shown c2"
proof -
  have "nc_activeGeneration c1 = nc_activeGeneration c + 1"
    using assms(1,2) by (auto simp: nc_deactivate_def nc_activate_def Let_def)
  then have stale: "\<not> nc_accepts c2 g"
    using network.superseded_forever [OF assms(4)] assms(3) by simp
  have "\<not> nc_accepts (c2\<lparr>nc_mutationInFlight := False\<rparr>) g" using stale by (simp add: nc_accepts_def)
  with stale assms(5) show ?thesis
    by (auto simp: nc_submit_resume_def nc_load_resume_def nc_load_results_def nc_poll_resume_def
        nc_poll_result_def Let_def split: settled.splits network_load_caller.splits)
qed

theorem network_board_switch_detaches_witness:
  "nc_state (nc_submit_resume 1 (Fulfilled (OutcomeApplied 5 True)) (nc_deactivate network_mutating))
     = nc_state (nc_deactivate network_mutating)"
proof -
  have "\<not> nc_disposed network_mutating" "1 \<le> nc_activeGeneration network_mutating"
    "cs_loadState (nc_state network_mutating) \<noteq> LoadInactive"
    by (simp_all add: network_mutating_eq network_ready_eq)
  then show ?thesis
    using network_board_switch_detaches [where c = network_mutating and g = 1
        and ?c1.0 = "nc_deactivate network_mutating" and ?c2.0 = "nc_deactivate network_mutating"
        and ?c3.0 = "nc_submit_resume 1 (Fulfilled (OutcomeApplied 5 True)) (nc_deactivate network_mutating)"]
    by blast
qed

text \<open>
  The reboot notice is exact: in every reachable state the state shown asks for a reboot if and
  only if an applied mutation of this board required one that has not been confirmed since, or the
  configuration and the runtime status shown disagree on the configured or the applied revision.
\<close>

theorem network_reboot_notice:
  assumes "network_new d = Inr c0" and "network_step\<^sup>*\<^sup>* c0 c"
  shows "cs_rebootRequired (nc_state c) \<longleftrightarrow> nc_rebootRequiredByMutation c \<or>
    (\<exists>cfg rt. cs_configuration (nc_state c) = Some cfg \<and> cs_runtime (nc_state c) = Some rt \<and>
       (cv_revision cfg \<noteq> rv_configured_revision rt \<or> rv_configured_revision rt \<noteq> rv_applied_revision rt))"
  using network_reach_inv [OF assms]
  by (auto simp: network_inv_def network_reboot_ok_def nc_effectiveRebootRequired_def split: option.splits)

theorem network_reboot_notice_witness: "\<not> cs_rebootRequired (nc_state network_ready)"
  using network_reboot_notice [OF network_example_new network_ready_reach]
  by (simp add: network_ready_eq network_view_def network_status_def)

text \<open>
  A refresh that overlaps a failing mutation hides the retry: there is a reachable state in which
  no mutation is in flight and a request is retained, yet the notice says \<open>running\<close>, so that
  \<open>retryMutation\<close>, \<open>mutate\<close> and \<open>clearMutationNotice\<close> all do nothing. (The load publishes the
  notice it captured when it began.)
\<close>

theorem network_refresh_hides_retry:
  "\<exists>c. network_step\<^sup>*\<^sup>* network_example c \<and> \<not> nc_mutationInFlight c \<and> nc_pendingRequest c = Some network_request
     \<and> cs_mutation (nc_state c) = MutationRunning \<and> nc_retryMutation c = c
     \<and> nc_mutate () (Fulfilled network_key) c = c \<and> nc_clearMutationNotice c = c"
proof -
  define load :: "unit network_task" where "load = NcLoading 1 MutationRunning LoadThenDone"
  define c1 where "c1 = nc_refresh network_mutating"
  define c2 where "c2 = nc_submit_resume 1 (Rejected (ErrorObject (js ''timeout''))) (nc_drop_task (NcMutating 1 network_request) c1)"
  define c3 where "c3 = nc_load_resume 1 MutationRunning LoadThenDone (Fulfilled network_view) (Fulfilled network_status) (nc_drop_task load c2)"
  have c1: "c1 = nc_add_task load network_mutating"
    by (simp add: c1_def nc_refresh_def network_mutating_eq network_ready_eq nc_loadAuthoritative_def load_def)
  have c2: "c2 = network_ready\<lparr>nc_pendingRequest := Some network_request,
      nc_state := (nc_state network_ready)\<lparr>cs_mutation := MutationRetryableError (js ''timeout'')\<rparr>,
      nc_tasks := [NcTimer 0 1, load]\<rparr>"
    unfolding c2_def c1
    by (simp add: nc_submit_resume_def nc_drop_task_def nc_accepts_def nc_publish_def nc_add_task_def
        network_mutating_eq network_ready_eq load_def)
  have c3: "c3 = network_ready\<lparr>nc_pendingRequest := Some network_request,
      nc_state := (nc_state network_ready)\<lparr>cs_mutation := MutationRunning\<rparr>\<rparr>"
    unfolding c3_def c2
    by (simp add: nc_load_resume_def nc_load_results_def nc_drop_task_def nc_accepts_def nc_publish_def
        revisions_settled_def nc_effectiveRebootRequired_def network_ready_eq network_view_def network_status_def load_def)
  have "network_step network_mutating c1" unfolding c1_def by (rule network_step.nc_call_refresh)
  moreover have "network_step c1 c2" unfolding c2_def
    by (rule network_step.nc_mutated) (simp add: c1 network_mutating_eq)
  moreover have "network_step c2 c3" unfolding c3_def load_def
    by (rule network_step.nc_loaded) (simp add: c2 load_def)
  ultimately have "network_step\<^sup>*\<^sup>* network_example c3"
    using network_mutating_reach by (meson rtranclp.rtrancl_into_rtrancl)
  then show ?thesis
    by (intro exI [of _ c3]) (simp add: c3 network_ready_eq nc_retryMutation_def nc_mutate_def nc_mutate_blocked_def
        nc_clearMutationNotice_def)
qed

end
