(* ===== verification/NetworkInput.thy ===== *)
theory NetworkInput
  imports Prelude
begin

text \<open>
  Models of the input checks and size limits of the client: \<open>lib/network-config-input.ts\<close> (SSID,
  passphrase and TCP peer fields), \<open>lib/limits.ts\<close> (UTF-8 byte limits), \<open>lib/bytes-text.ts\<close>,
  \<open>lib/lxmf-message-size.ts\<close> (the direct LXMF payload budget) and
  \<open>lib/public-reticulum-endpoints.ts\<close> (the catalogue of public TCP endpoints). The constants they
  import from \<open>generated/api.ts\<close> are constants here.
\<close>

section \<open>UTF-8\<close>

text \<open>
  \<^verbatim>\<open>new TextEncoder().encode\<close>: surrogate pairs are one code point of four bytes, and a lone
  surrogate is encoded as U+FFFD.
\<close>

definition utf8_code_point :: "nat \<Rightarrow> nat list" where
  "utf8_code_point p =
     (if p < 128 then [p]
      else if p < 2048 then [192 + p div 64, 128 + p mod 64]
      else if p < 65536 then [224 + p div 4096, 128 + p div 64 mod 64, 128 + p mod 64]
      else [240 + p div 262144, 128 + p div 4096 mod 64, 128 + p div 64 mod 64, 128 + p mod 64])"

definition is_high_surrogate :: "nat \<Rightarrow> bool" where
  "is_high_surrogate c \<longleftrightarrow> 55296 \<le> c \<and> c \<le> 56319"

definition is_low_surrogate :: "nat \<Rightarrow> bool" where
  "is_low_surrogate c \<longleftrightarrow> 56320 \<le> c \<and> c \<le> 57343"

fun js_code_points :: "jstring \<Rightarrow> nat list" where
  "js_code_points [] = []"
| "js_code_points [c] = [if is_high_surrogate c \<or> is_low_surrogate c then 65533 else c]"
| "js_code_points (c # d # s) =
     (if is_high_surrogate c \<and> is_low_surrogate d
      then (65536 + (c - 55296) * 1024 + (d - 56320)) # js_code_points s
      else (if is_high_surrogate c \<or> is_low_surrogate c then 65533 else c) # js_code_points (d # s))"

definition utf8_encode :: "jstring \<Rightarrow> nat list" where
  "utf8_encode s = concat (map utf8_code_point (js_code_points s))"

definition utf8ByteLength :: "jstring \<Rightarrow> nat" where
  "utf8ByteLength value = length (utf8_encode value)"

definition byteLimitError :: "jstring \<Rightarrow> nat \<Rightarrow> jstring \<Rightarrow> jstring option" where
  "byteLimitError value maximum label =
     (let bytes = utf8ByteLength value
      in if bytes > maximum
         then Some (label @ js '' is '' @ nat_digits bytes @ js '' bytes; the maximum is '' @ nat_digits maximum)
         else None)"

section \<open>SSID and passphrase\<close>

datatype BytesView = BytesUtf8 jstring | BytesHex jstring

fun bytesText :: "BytesView \<Rightarrow> jstring" where
  "bytesText (BytesUtf8 v) = v"
| "bytesText (BytesHex v) = js ''hex:'' @ v"

fun networkBytesText :: "BytesView \<Rightarrow> jstring" where
  "networkBytesText (BytesUtf8 v) = v"
| "networkBytesText (BytesHex v) = js ''hex:'' @ v"

definition MAX_WIFI_SSID_BYTES :: nat where "MAX_WIFI_SSID_BYTES = 32"
definition MIN_WIFI_PASSPHRASE_BYTES :: nat where "MIN_WIFI_PASSPHRASE_BYTES = 8"
definition MAX_WIFI_PASSPHRASE_BYTES :: nat where "MAX_WIFI_PASSPHRASE_BYTES = 63"

definition networkSsidInput :: "jstring \<Rightarrow> jstring + BytesView" where
  "networkSsidInput input =
     (if js_startsWith input (js ''hex:'')
      then let hex = js_lower (drop 4 input)
           in if hex = [] \<or> odd (length hex) \<or> \<not> list_all is_hex_lower hex
              then Inl (js ''Hex SSID must contain complete byte pairs after hex:'')
              else let bytes = length hex div 2
                   in if bytes < 1 \<or> bytes > MAX_WIFI_SSID_BYTES
                      then Inl (js ''SSID must contain 1 to '' @ nat_digits MAX_WIFI_SSID_BYTES @ js '' bytes'')
                      else Inr (BytesHex hex)
      else let bytes = utf8ByteLength input
           in if bytes < 1 \<or> bytes > MAX_WIFI_SSID_BYTES
              then Inl (js ''SSID must contain 1 to '' @ nat_digits MAX_WIFI_SSID_BYTES @ js '' UTF-8 bytes'')
              else Inr (BytesUtf8 input))"

definition wifiPassphraseError :: "jstring \<Rightarrow> jstring option" where
  "wifiPassphraseError passphrase =
     (if length passphrase < MIN_WIFI_PASSPHRASE_BYTES \<or> length passphrase > MAX_WIFI_PASSPHRASE_BYTES \<or>
         passphrase = [] \<or> \<not> list_all (\<lambda>c. 32 \<le> c \<and> c \<le> 126) passphrase
      then Some (js ''Password must contain '' @ nat_digits MIN_WIFI_PASSPHRASE_BYTES @ js '' to '' @
                 nat_digits MAX_WIFI_PASSPHRASE_BYTES @ js '' printable ASCII characters'')
      else None)"

section \<open>Numbers typed as text\<close>

text \<open>
  \<^verbatim>\<open>Number(text)\<close>, the StringNumericLiteral of ECMAScript: white space is trimmed, the empty string is
  0, then a \<open>0x\<close>, \<open>0o\<close> or \<open>0b\<close> integer, or a signed decimal literal with optional fraction and
  exponent, or a signed \<open>Infinity\<close>. The result is the exact mathematical value, a sign with a
  fraction; rounding to a double is \<open>rounds_to\<close> below.
\<close>

datatype js_numeric = NotANumber | Infinite bool | Exact bool nat nat \<comment> \<open>negative, numerator, denominator\<close>

definition radix_digit :: "nat \<Rightarrow> nat" where
  "radix_digit c = (if is_digit c then c - 48 else if 97 \<le> c then c - 87 else c - 55)"

definition radix_value :: "nat \<Rightarrow> jstring \<Rightarrow> nat" where
  "radix_value b s = foldl (\<lambda>acc c. acc * b + radix_digit c) 0 s"

definition is_radix_digit :: "nat \<Rightarrow> nat \<Rightarrow> bool" where
  "is_radix_digit b c \<longleftrightarrow> (is_digit c \<or> (65 \<le> c \<and> c \<le> 70) \<or> (97 \<le> c \<and> c \<le> 102)) \<and> radix_digit c < b"

definition js_exponent :: "jstring \<Rightarrow> int option" where
  "js_exponent s =
     (if s = [] then Some 0
      else if hd s \<noteq> 69 \<and> hd s \<noteq> 101 then None
      else let r = tl s;
               ds = (if r \<noteq> [] \<and> (hd r = 43 \<or> hd r = 45) then tl r else r)
           in if ds = [] \<or> \<not> list_all is_digit ds then None
              else Some ((if r \<noteq> [] \<and> hd r = 45 then - 1 else 1) * int (digits_value ds)))"

definition js_unsigned_decimal :: "bool \<Rightarrow> jstring \<Rightarrow> js_numeric" where
  "js_unsigned_decimal neg s =
     (if s = js ''Infinity'' then Infinite neg
      else let whole = takeWhile is_digit s; r = dropWhile is_digit s;
               dot = (r \<noteq> [] \<and> hd r = 46);
               fraction = (if dot then takeWhile is_digit (tl r) else []);
               rest = (if dot then dropWhile is_digit (tl r) else r)
           in if whole = [] \<and> fraction = [] then NotANumber
              else case js_exponent rest of
                None \<Rightarrow> NotANumber
              | Some e \<Rightarrow>
                  let shift = e - int (length fraction); v = digits_value (whole @ fraction)
                  in if 0 \<le> shift then Exact neg (v * 10 ^ nat shift) 1
                     else Exact neg v (10 ^ nat (- shift)))"

definition js_Number :: "jstring \<Rightarrow> js_numeric" where
  "js_Number text =
     (let s = js_trim text; p = take 2 s; ds = drop 2 s in
      if s = [] then Exact False 0 1
      else if p = js ''0x'' \<or> p = js ''0X''
      then (if ds \<noteq> [] \<and> list_all (is_radix_digit 16) ds then Exact False (radix_value 16 ds) 1 else NotANumber)
      else if p = js ''0o'' \<or> p = js ''0O''
      then (if ds \<noteq> [] \<and> list_all (is_radix_digit 8) ds then Exact False (radix_value 8 ds) 1 else NotANumber)
      else if p = js ''0b'' \<or> p = js ''0B''
      then (if ds \<noteq> [] \<and> list_all (is_radix_digit 2) ds then Exact False (radix_value 2 ds) 1 else NotANumber)
      else if hd s = 43 then js_unsigned_decimal False (tl s)
      else if hd s = 45 then js_unsigned_decimal True (tl s)
      else js_unsigned_decimal False s)"

text \<open>
  Whether the double nearest to \<open>a / b\<close> is the whole number \<open>n\<close>, for \<open>0 < n < 2^52\<close>: the value lies
  within half a unit in the last place, which is half as large below a power of two. The significand
  of such an \<open>n\<close> is even, so a tie goes to \<open>n\<close>.
\<close>

definition rounds_to :: "nat \<Rightarrow> nat \<Rightarrow> nat \<Rightarrow> bool" where
  "rounds_to a b n \<longleftrightarrow>
     (let k = quotient_exponent n 1 0;
          below = (if n * 2 ^ k = 2 ^ 52 then 1 else 2)
      in b * (n * 2 ^ (k + 2)) \<le> a * 2 ^ (k + 2) + b * below \<and> a * 2 ^ (k + 2) \<le> b * (n * 2 ^ (k + 2) + 2))"

fun is_port_number :: "js_numeric \<Rightarrow> bool" where
  "is_port_number (Exact False a b) =
     (let n = (2 * a + b) div (2 * b) in 1 \<le> n \<and> n \<le> 65535 \<and> rounds_to a b n)"
| "is_port_number _ = False"

definition tcpPeerPortInputError :: "jstring \<Rightarrow> jstring option" where
  "tcpPeerPortInputError portText =
     (if \<not> is_port_number (js_Number portText)
      then Some (js ''TCP peer port must be between 1 and 65535'') else None)"

section \<open>TCP peer fields\<close>

text \<open>\<^verbatim>\<open>/^(?:0|[1-9]\d{0,2})$/\<close>.\<close>

definition octet_syntax :: "jstring \<Rightarrow> bool" where
  "octet_syntax s \<longleftrightarrow> s = [48] \<or> (s \<noteq> [] \<and> length s \<le> 3 \<and> hd s \<noteq> 48 \<and> list_all is_digit s)"

definition tcpPeerInputError :: "jstring \<Rightarrow> jstring \<Rightarrow> jstring option" where
  "tcpPeerInputError ipv4Address portText =
     (let octets = js_split 46 ipv4Address
      in if length octets \<noteq> 4 \<or> list_ex (\<lambda>octet. \<not> octet_syntax octet \<or> digits_value octet > 255) octets
         then Some (js ''TCP peer must be a dotted-decimal IPv4 address'')
         else let first = digits_value (hd octets)
              in if first = 0 \<or> first = 127 \<or> first \<ge> 224
                 then Some (js ''TCP peer must be a routable unicast IPv4 address'')
                 else tcpPeerPortInputError portText)"

definition is_alnum :: "nat \<Rightarrow> bool" where
  "is_alnum c \<longleftrightarrow> is_digit c \<or> (65 \<le> c \<and> c \<le> 90) \<or> (97 \<le> c \<and> c \<le> 122)"

text \<open>\<^verbatim>\<open>/^[A-Za-z0-9](?:[A-Za-z0-9-]*[A-Za-z0-9])?$/\<close>.\<close>

definition label_syntax :: "jstring \<Rightarrow> bool" where
  "label_syntax l \<longleftrightarrow> l \<noteq> [] \<and> is_alnum (hd l) \<and> is_alnum (last l) \<and> list_all (\<lambda>c. is_alnum c \<or> c = 45) l"

text \<open>A code unit above 0x7f is the first unit of some character or follows one, so the test on
  characters is a test on units.\<close>

definition tcpPeerHostnameInputError :: "jstring \<Rightarrow> jstring \<Rightarrow> jstring option" where
  "tcpPeerHostnameInputError hostname portText =
     (if length hostname < 1 \<or> length hostname > 96 \<or> list_ex (\<lambda>c. c > 127) hostname
      then Some (js ''TCP peer hostname must contain 1 to 96 ASCII characters'')
      else if list_ex (\<lambda>label. length label < 1 \<or> length label > 63 \<or> \<not> label_syntax label) (js_split 46 hostname)
      then Some (js ''TCP peer hostname must contain valid DNS labels'')
      else tcpPeerPortInputError portText)"

section \<open>Public endpoints\<close>

record PublicReticulumTcpEndpoint =
  ep_id :: jstring
  ep_label :: jstring
  ep_hostname :: jstring
  ep_port :: nat
  ep_expectedTransportId :: jstring
  ep_sourceUrl :: jstring
  ep_verifiedOn :: jstring

definition PUBLIC_RETICULUM_TCP_ENDPOINTS :: "PublicReticulumTcpEndpoint list" where
  "PUBLIC_RETICULUM_TCP_ENDPOINTS =
     [\<lparr>ep_id = js ''rmap-world'', ep_label = js ''RMAP World'', ep_hostname = js ''rmap.world'', ep_port = 4242,
       ep_expectedTransportId = js ''682e34edf6dd0daa867831ebc9b4e204'',
       ep_sourceUrl = js ''https://rmap.world/info.html'', ep_verifiedOn = js ''2026-07-26''\<rparr>,
      \<lparr>ep_id = js ''reticulumnet-nl'', ep_label = js ''ReticulumNet.nl'', ep_hostname = js ''node.reticulumnet.nl'',
       ep_port = 4242, ep_expectedTransportId = js ''8a2c0d3c3fee8bea4a8172dc6f4d7ea6'',
       ep_sourceUrl = js ''https://www.reticulumnet.nl/en/get-started/'', ep_verifiedOn = js ''2026-07-26''\<rparr>,
      \<lparr>ep_id = js ''mcswain-dev'', ep_label = js ''McSwain Reticulum'', ep_hostname = js ''reticulum.mcswain.dev'',
       ep_port = 4242, ep_expectedTransportId = js ''72d389bca0703e185155f2d2c3eace57'',
       ep_sourceUrl = js ''https://rmap.world/?json=1'', ep_verifiedOn = js ''2026-07-26''\<rparr>]"

definition publicReticulumEndpoint :: "jstring \<Rightarrow> thrown + PublicReticulumTcpEndpoint" where
  "publicReticulumEndpoint i =
     (case find (\<lambda>candidate. ep_id candidate = i) PUBLIC_RETICULUM_TCP_ENDPOINTS of
        None \<Rightarrow> Inl (ErrorObject (js ''Unknown public Reticulum endpoint: '' @ i))
      | Some endpoint \<Rightarrow> Inr endpoint)"

datatype ReticulumTcpPeerView =
  PeerIpv4 bool jstring nat \<comment> \<open>enabled, address, port\<close>
| PeerHostname bool jstring nat \<comment> \<open>enabled, hostname, port\<close>

fun isPublicReticulumEndpointSelected :: "ReticulumTcpPeerView option \<Rightarrow> PublicReticulumTcpEndpoint \<Rightarrow> bool" where
  "isPublicReticulumEndpointSelected (Some (PeerHostname enabled hostname port)) endpoint =
     (enabled \<and> js_lower hostname = ep_hostname endpoint \<and> port = ep_port endpoint)"
| "isPublicReticulumEndpointSelected _ endpoint = False"

section \<open>Direct LXMF payload budget\<close>

definition BASIC_LXMF_SELECTION_OVERHEAD_BYTES :: int where "BASIC_LXMF_SELECTION_OVERHEAD_BYTES = 16"
definition EMPTY_LXMF_FIELDS_ENCODED_BYTES :: int where "EMPTY_LXMF_FIELDS_ENCODED_BYTES = 1"
definition MAX_ENCODED_SIDEBAND_LOCATION_FIELDS_BYTES :: int where "MAX_ENCODED_SIDEBAND_LOCATION_FIELDS_BYTES = 52"
definition MAX_LXMF_DIRECT_CONTENT_BYTES :: int where "MAX_LXMF_DIRECT_CONTENT_BYTES = 319"
definition BASIC_LXMF_ARRAY_AND_TIMESTAMP_BYTES :: int where "BASIC_LXMF_ARRAY_AND_TIMESTAMP_BYTES = 10"
definition MSGPACK_BIN8_MAX_BYTES :: int where "MSGPACK_BIN8_MAX_BYTES = 255"
definition MSGPACK_BIN16_MAX_BYTES :: int where "MSGPACK_BIN16_MAX_BYTES = 65535"

record DirectLxmfPayloadBudget =
  bu_fieldsEncodedBytes :: int
  bu_fits :: bool
  bu_maximumPayloadBytes :: int
  bu_overByBytes :: int
  bu_payloadBytes :: int

definition encodedMessagePackBinaryBytes :: "int \<Rightarrow> thrown + int" where
  "encodedMessagePackBinaryBytes valueBytes =
     (if \<not> isSafeInteger valueBytes \<or> valueBytes < 0
      then Inl (ErrorObject (js ''MessagePack binary length must be a non-negative safe integer''))
      else if valueBytes \<le> MSGPACK_BIN8_MAX_BYTES then Inr (valueBytes + 2)
      else if valueBytes \<le> MSGPACK_BIN16_MAX_BYTES then Inr (valueBytes + 3)
      else Inl (ErrorObject (js ''Composer binary length exceeds MessagePack bin16'')))"

definition directLxmfPayloadBudget :: "int \<Rightarrow> int \<Rightarrow> bool \<Rightarrow> thrown + DirectLxmfPayloadBudget" where
  "directLxmfPayloadBudget titleBytes contentBytes attachLocation =
     (let fieldsEncodedBytes = (if attachLocation then MAX_ENCODED_SIDEBAND_LOCATION_FIELDS_BYTES
                                else EMPTY_LXMF_FIELDS_ENCODED_BYTES)
      in case encodedMessagePackBinaryBytes titleBytes of
           Inl e \<Rightarrow> Inl e
         | Inr title \<Rightarrow>
           (case encodedMessagePackBinaryBytes contentBytes of
              Inl e \<Rightarrow> Inl e
            | Inr content \<Rightarrow>
                let payloadBytes = BASIC_LXMF_ARRAY_AND_TIMESTAMP_BYTES + title + content + fieldsEncodedBytes;
                    maximumPayloadBytes = BASIC_LXMF_SELECTION_OVERHEAD_BYTES + MAX_LXMF_DIRECT_CONTENT_BYTES
                in Inr \<lparr>bu_fieldsEncodedBytes = fieldsEncodedBytes,
                        bu_fits = (payloadBytes \<le> maximumPayloadBytes),
                        bu_maximumPayloadBytes = maximumPayloadBytes,
                        bu_overByBytes = max 0 (payloadBytes - maximumPayloadBytes),
                        bu_payloadBytes = payloadBytes\<rparr>))"

definition directLxmfPayloadError :: "int \<Rightarrow> int \<Rightarrow> bool \<Rightarrow> thrown + jstring option" where
  "directLxmfPayloadError titleBytes contentBytes attachLocation =
     (case directLxmfPayloadBudget titleBytes contentBytes attachLocation of
        Inl e \<Rightarrow> Inl e
      | Inr budget \<Rightarrow>
          Inr (if bu_fits budget then None
               else Some (js ''Combined LXMF payload is '' @ int_digits (bu_overByBytes budget) @ [32] @
                    (if bu_overByBytes budget = 1 then js ''byte'' else js ''bytes'') @ js '' too large'' @
                    (if attachLocation then js '' with attached location'' else []) @ js '' ('' @
                    int_digits (bu_payloadBytes budget) @ js '' / '' @ int_digits (bu_maximumPayloadBytes budget) @
                    js '' encoded bytes); shorten the title or message'')))"

section \<open>Lemmas\<close>

lemma js_lower_pairs: "list_all is_hex_lower (js_lower s) \<Longrightarrow> js_lower (js_lower s) = js_lower s"
  by simp

lemma hex_prefix_startsWith: "js_startsWith (js ''hex:'' @ s) (js ''hex:'')"
  by simp

lemma ssid_hex: 
  assumes "hex \<noteq> []" "even (length hex)" "list_all is_hex_lower hex" "length hex div 2 \<le> 32"
  shows "networkSsidInput (js ''hex:'' @ hex) = Inr (BytesHex hex)"
proof -
  have "1 \<le> length hex div 2" using assms(1,2) by (cases hex) (auto elim: evenE)
  with assms show ?thesis by (simp add: networkSsidInput_def Let_def js_lower_hex MAX_WIFI_SSID_BYTES_def)
qed

fun bytes_view_length :: "BytesView \<Rightarrow> nat" where
  "bytes_view_length (BytesUtf8 v) = utf8ByteLength v"
| "bytes_view_length (BytesHex v) = length v div 2"

lemma digits_ge_ten: "n < 10 \<Longrightarrow> nat_digits n = [48 + n]"
  by (simp add: nat_digits.simps)

text \<open>A digit string without a leading zero is the decimal rendering of its value.\<close>

lemma nat_digits_canonical:
  "list_all is_digit s \<Longrightarrow> s \<noteq> [] \<Longrightarrow> hd s \<noteq> 48 \<Longrightarrow> nat_digits (digits_value s) = s \<and> 0 < digits_value s"
proof (induction s rule: rev_induct)
  case (snoc c s)
  have c: "48 \<le> c" "c \<le> 57" using snoc.prems(1) by (auto simp: is_digit_def)
  show ?case
  proof (cases "s = []")
    case True
    then show ?thesis using snoc.prems c by (auto simp: digits_value_def digits_ge_ten)
  next
    case False
    with snoc have ih: "nat_digits (digits_value s) = s" "0 < digits_value s" by auto
    have v: "digits_value (s @ [c]) = digits_value s * 10 + (c - 48)" by (rule digits_value_snoc)
    have "(digits_value s * 10 + (c - 48)) div 10 = digits_value s" "(digits_value s * 10 + (c - 48)) mod 10 = c - 48"
      using c by (simp_all only: div_mult_self3 mod_mult_self3) auto
    moreover have "\<not> digits_value s * 10 + (c - 48) < 10" using ih(2) by simp
    ultimately have "nat_digits (digits_value (s @ [c])) = nat_digits (digits_value s) @ [48 + (c - 48)]"
      unfolding v by (subst nat_digits.simps) simp
    then show ?thesis using ih c v by simp
  qed
qed simp

lemma octet_canonical: "octet_syntax s \<Longrightarrow> nat_digits (digits_value s) = s"
  using nat_digits_canonical by (auto simp: octet_syntax_def digits_value_def digits_ge_ten)

lemma nat_digits_hd: "0 < n \<Longrightarrow> hd (nat_digits n) \<noteq> 48"
proof (induction n rule: nat_digits.induct)
  case (1 n)
  then show ?case by (cases "n < 10") (auto simp: nat_digits.simps [of n] hd_append)
qed

lemma nat_digits_octet: "n \<le> 255 \<Longrightarrow> octet_syntax (nat_digits n)"
  using nat_digits_hd [of n] nat_digits_digit [of _ n] length_nat_digits_le [of n 3]
  by (cases "n = 0") (auto simp: octet_syntax_def digits_ge_ten list_all_iff)

lemma js_split_parts: "js_split d s = ps \<Longrightarrow> (\<forall>p\<in>set ps. d \<notin> set p) \<and> js_join [d] ps = s"
proof -
  assume s: "js_split d s = ps"
  have "\<forall>p\<in>set (js_split d s). d \<notin> set p"
    by (induction s) (auto split: list.splits)
  with s js_join_split [of d s] show ?thesis by simp
qed

definition ipv4_text :: "nat \<Rightarrow> nat \<Rightarrow> nat \<Rightarrow> nat \<Rightarrow> jstring" where
  "ipv4_text a b c d = js_join [46] [nat_digits a, nat_digits b, nat_digits c, nat_digits d]"

lemma dot_notin_nat_digits: "46 \<notin> set (nat_digits n)"
  using nat_digits_digit by (force simp: is_digit_def)

lemma js_split_ipv4: "js_split 46 (ipv4_text a b c d) = [nat_digits a, nat_digits b, nat_digits c, nat_digits d]"
  by (simp add: ipv4_text_def js_split_append js_split_no_sep dot_notin_nat_digits)

text \<open>A reference encoder for the MessagePack \<open>bin 8\<close> and \<open>bin 16\<close> formats.\<close>

definition msgpack_bin :: "nat list \<Rightarrow> nat list" where
  "msgpack_bin bytes =
     (if length bytes < 256 then [196, length bytes] @ bytes
      else [197, length bytes div 256, length bytes mod 256] @ bytes)"

lemma encoded_bytes_length:
  "length bytes \<le> 65535 \<Longrightarrow> encodedMessagePackBinaryBytes (int (length bytes)) = Inr (int (length (msgpack_bin bytes)))"
  by (auto simp: encodedMessagePackBinaryBytes_def msgpack_bin_def isSafeInteger_def MAX_SAFE_INTEGER_def
      MSGPACK_BIN8_MAX_BYTES_def MSGPACK_BIN16_MAX_BYTES_def)

section \<open>Properties\<close>

text \<open>
  An accepted SSID is within the Wi-Fi limit and survives editing: whatever the user typed, the
  accepted value has 1 to 32 bytes, and the text shown for it is accepted again as the same value.
\<close>

theorem ssid_input_stable:
  assumes "networkSsidInput input = Inr v"
  shows "1 \<le> bytes_view_length v \<and> bytes_view_length v \<le> 32 \<and> networkSsidInput (networkBytesText v) = Inr v"
proof (cases "js_startsWith input (js ''hex:'')")
  case True
  let ?hex = "js_lower (drop 4 input)"
  from True assms have v: "v = BytesHex ?hex" and ok: "?hex \<noteq> []" "even (length ?hex)" "list_all is_hex_lower ?hex"
    "1 \<le> length ?hex div 2" "length ?hex div 2 \<le> 32"
    by (auto simp: networkSsidInput_def Let_def MAX_WIFI_SSID_BYTES_def simp del: js.simps split: if_splits)
  then show ?thesis using ssid_hex [of ?hex] by simp
next
  case False
  then have "v = BytesUtf8 input" "1 \<le> utf8ByteLength input" "utf8ByteLength input \<le> 32"
    using assms by (auto simp: networkSsidInput_def Let_def MAX_WIFI_SSID_BYTES_def simp del: js.simps split: if_splits)
  with assms show ?thesis by simp
qed

theorem ssid_input_stable_witness:
  "networkSsidInput (js ''hex:00FF'') = Inr (BytesHex (js ''00ff''))
   \<and> networkSsidInput (networkBytesText (BytesHex (js ''00ff''))) = Inr (BytesHex (js ''00ff''))"
proof -
  have "networkSsidInput (js ''hex:00FF'') = Inr (BytesHex (js ''00ff''))"
    by (simp add: networkSsidInput_def js_lower_def lower_unit_def is_hex_lower_def is_digit_def MAX_WIFI_SSID_BYTES_def)
  with ssid_input_stable [OF this] show ?thesis by blast
qed

text \<open>
  A network name reported by the board as text that itself begins with \<open>hex:\<close> does not survive
  editing: the text shown for it is read back as other bytes.
\<close>

theorem ssid_hex_prefix_reinterpreted:
  "networkSsidInput (networkBytesText (BytesUtf8 (js ''hex:6162''))) = Inr (BytesHex (js ''6162''))
   \<and> utf8_encode (js ''hex:6162'') \<noteq> [97, 98]"
  by (simp add: networkSsidInput_def js_lower_def lower_unit_def is_hex_lower_def is_digit_def MAX_WIFI_SSID_BYTES_def
      utf8_encode_def utf8_code_point_def is_high_surrogate_def is_low_surrogate_def)

text \<open>
  The TCP peer address check is exact: an address and port are accepted if and only if the address
  is the canonical dotted rendering of four octets, its first octet is neither 0 nor 127 nor in the
  multicast and reserved range from 224, and the port is accepted.
\<close>

theorem tcp_peer_address_exact:
  "tcpPeerInputError addr portText = None \<longleftrightarrow>
     (\<exists>a b c d. addr = ipv4_text a b c d \<and> a \<le> 255 \<and> b \<le> 255 \<and> c \<le> 255 \<and> d \<le> 255
        \<and> a \<noteq> 0 \<and> a \<noteq> 127 \<and> a < 224) \<and> tcpPeerPortInputError portText = None"
    (is "?l \<longleftrightarrow> ?r")
proof
  assume l: ?l
  then have len: "length (js_split 46 addr) = 4"
    and ok: "\<forall>s\<in>set (js_split 46 addr). octet_syntax s \<and> digits_value s \<le> 255"
    by (auto simp: tcpPeerInputError_def Let_def list_ex_iff split: if_splits)
  then obtain p q r s where parts: "js_split 46 addr = [p, q, r, s]"
    by (auto simp: length_Suc_conv numeral_eq_Suc)
  with ok have canon: "nat_digits (digits_value p) = p" "nat_digits (digits_value q) = q"
    "nat_digits (digits_value r) = r" "nat_digits (digits_value s) = s" by (simp_all add: octet_canonical)
  have "addr = js_join [46] [p, q, r, s]" using js_split_parts [OF parts] by simp
  then have "addr = ipv4_text (digits_value p) (digits_value q) (digits_value r) (digits_value s)"
    by (simp add: ipv4_text_def canon)
  moreover have "digits_value p \<noteq> 0 \<and> digits_value p \<noteq> 127 \<and> digits_value p < 224" "tcpPeerPortInputError portText = None"
    using l parts by (auto simp: tcpPeerInputError_def Let_def split: if_splits)
  moreover have "digits_value p \<le> 255 \<and> digits_value q \<le> 255 \<and> digits_value r \<le> 255 \<and> digits_value s \<le> 255"
    using ok parts by simp
  ultimately show ?r by blast
next
  assume ?r
  then show ?l
    by (auto simp: tcpPeerInputError_def Let_def js_split_ipv4 nat_digits_octet)
qed

text \<open>
  Every endpoint of the public catalogue would be accepted by the peer form, is found by its
  identifier, and is recognised as selected when it is configured, whatever the case of the
  configured host name.
\<close>

theorem public_endpoints_valid:
  "list_all (\<lambda>e.
     tcpPeerHostnameInputError (ep_hostname e) (nat_digits (ep_port e)) = None
     \<and> publicReticulumEndpoint (ep_id e) = Inr e
     \<and> isPublicReticulumEndpointSelected (Some (PeerHostname True (ep_hostname e) (ep_port e))) e
     \<and> hex32 (ep_expectedTransportId e)) PUBLIC_RETICULUM_TCP_ENDPOINTS"
proof -
  have port: "tcpPeerPortInputError (nat_digits 4242) = None"
    by (simp add: tcpPeerPortInputError_def js_Number_def js_trim_def is_space_def nat_digits.simps js_unsigned_decimal_def
        js_exponent_def is_digit_def digits_value_def rounds_to_def quotient_exponent.simps Let_def)
  show ?thesis
    by (simp add: PUBLIC_RETICULUM_TCP_ENDPOINTS_def tcpPeerHostnameInputError_def port label_syntax_def is_alnum_def
        is_digit_def publicReticulumEndpoint_def js_lower_def lower_unit_def hex32_def is_hex_lower_def)
qed

text \<open>
  The payload budget is the size of the message as encoded: for a title and a content of at most
  65535 bytes the payload is ten bytes of array marker and timestamp plus the two MessagePack binaries
  plus the fields, and no error is reported exactly when it fits into 335 bytes.
\<close>

theorem lxmf_budget_exact:
  assumes "length title \<le> 65535" and "length content \<le> 65535"
  shows "\<exists>b. directLxmfPayloadBudget (int (length title)) (int (length content)) located = Inr b
    \<and> bu_payloadBytes b = 10 + int (length (msgpack_bin title @ msgpack_bin content)) + (if located then 52 else 1)
    \<and> (directLxmfPayloadError (int (length title)) (int (length content)) located = Inr None
       \<longleftrightarrow> bu_payloadBytes b \<le> 335)
    \<and> bu_overByBytes b = max 0 (bu_payloadBytes b - 335)"
  using encoded_bytes_length [OF assms(1)] encoded_bytes_length [OF assms(2)]
  by (simp add: directLxmfPayloadBudget_def directLxmfPayloadError_def Let_def
      BASIC_LXMF_ARRAY_AND_TIMESTAMP_BYTES_def BASIC_LXMF_SELECTION_OVERHEAD_BYTES_def MAX_LXMF_DIRECT_CONTENT_BYTES_def
      MAX_ENCODED_SIDEBAND_LOCATION_FIELDS_BYTES_def EMPTY_LXMF_FIELDS_ENCODED_BYTES_def)

theorem lxmf_budget_exact_witness:
  "\<exists>b. directLxmfPayloadBudget 0 5 False = Inr b \<and> bu_payloadBytes b = 20"
proof -
  have "length ([] :: nat list) \<le> 65535" "length [104, 101, 108, 108, 111 :: nat] \<le> 65535" by simp_all
  from lxmf_budget_exact [OF this, of False] show ?thesis by (auto simp: msgpack_bin_def)
qed

end
