(* ===== verification/Notifications.thy ===== *)
theory Notifications
  imports Prelude "HOL-Library.AList" "HOL-Library.Sublist"
begin

text \<open>
  Model of \<open>lib/message-notifications.ts\<close>: the ledger of notification watermarks, the reconciliation
  of the durable activity journal of the board into phone-local alerts, and the queue of opened
  notifications. The reconciler runs its operations one after the other (every call is chained on
  \<open>tail\<close>), so one call of \<open>reconcile\<close> is one function on the world it touches: the stored ledger and
  the alerts presented. The environment (the store, the page loader, the alert platform and
  \<open>isCurrent\<close>) is a record of its answers; an answer may be a failure at any point, and the world is
  returned with what had been done by then. Event identifiers are whole numbers. Profile keys are
  those of boards, not the names of properties that every object inherits.
\<close>

section \<open>Data\<close>

type_synonym MessageNotificationLedger = "jstring \<rightharpoonup> int"

datatype activity_kind = InboundImported jstring \<comment> \<open>message\<close> | OtherActivity

record MessageActivityEventView =
  ev_event_id :: int
  ev_inbound :: bool
  ev_activity :: activity_kind
  ev_peer :: jstring
  ev_timeline_sequence :: int

record MessageActivityPageView =
  pg_events :: "MessageActivityEventView list"
  pg_next_before_event_id :: "int option"

record InboundMessageNotification =
  in_eventId :: int
  in_messageId :: jstring
  in_peer :: jstring
  in_timelineSequence :: int

record MessageNotificationReconcileResult =
  rr_baselineEstablished :: bool
  rr_lastEventId :: int
  rr_notificationsPresented :: nat

record MessageNotificationTarget =
  tg_destination :: jstring
  tg_messageId :: jstring
  tg_profileKey :: jstring

record MessageNotificationPresentationContext =
  px_foreground :: bool
  px_navigationOverlayVisible :: bool
  px_selectedDestination :: "jstring option"
  px_workspace :: jstring

text \<open>A failed save may or may not have reached the store.\<close>

datatype save_result = SaveDone | SaveFailed thrown bool

record notification_env =
  ne_load_error :: "thrown option"
  ne_current :: "nat \<Rightarrow> bool" \<comment> \<open>answer of the n-th call of \<open>isCurrent\<close>\<close>
  ne_loadPage :: "int option \<Rightarrow> MessageActivityPageView settled"
  ne_notify :: "InboundMessageNotification \<Rightarrow> unit settled"
  ne_save :: "int \<Rightarrow> save_result" \<comment> \<open>outcome of saving this watermark\<close>

record notification_world =
  nw_ledger :: MessageNotificationLedger
  nw_presented :: "InboundMessageNotification list"
  nw_checks :: nat

definition EMPTY_LEDGER :: MessageNotificationLedger where
  "EMPTY_LEDGER = Map.empty"

section \<open>Pure functions\<close>

definition isSafeEventId :: "int \<Rightarrow> bool" where
  "isSafeEventId v \<longleftrightarrow> isSafeInteger v \<and> 0 \<le> v"

definition normalizeProfileKey :: "jstring \<Rightarrow> jstring" where
  "normalizeProfileKey profileKey = js_lower (js_trim profileKey)"

text \<open>
  The values \<open>JSON.parse\<close> yields. The properties of an object are listed in the order of
  \<open>Object.entries\<close>, each once; a number that is not a whole number is \<open>JOtherNumber\<close>.
\<close>

datatype json =
  JNull | JBool bool | JInteger int | JOtherNumber | JString jstring
| JArray "json list" | JObject "(jstring \<times> json) list"

fun json_entry_watermark :: "json \<Rightarrow> int option" where
  "json_entry_watermark (JObject members) =
     (case map_of members (js ''lastEventId'') of
        Some (JInteger i) \<Rightarrow> if isSafeEventId i then Some i else None
      | _ \<Rightarrow> None)"
| "json_entry_watermark _ = None"

fun parse_profiles :: "(jstring \<times> json) list \<Rightarrow> MessageNotificationLedger \<Rightarrow> MessageNotificationLedger" where
  "parse_profiles [] profiles = profiles"
| "parse_profiles ((profileKey, candidate) # rest) profiles =
     parse_profiles rest
       (case json_entry_watermark candidate of
          None \<Rightarrow> profiles
        | Some i \<Rightarrow> let normalized = normalizeProfileKey profileKey
                  in if normalized \<noteq> [] then profiles(normalized \<mapsto> i) else profiles)"

text \<open>\<open>parse\<close> is \<open>JSON.parse\<close>, with \<open>None\<close> for an exception.\<close>

definition parseMessageNotificationLedger :: "(jstring \<Rightarrow> json option) \<Rightarrow> jstring \<Rightarrow> MessageNotificationLedger" where
  "parseMessageNotificationLedger parse raw =
     (case parse raw of
        Some (JObject members) \<Rightarrow>
          (case (map_of members (js ''version''), map_of members (js ''profiles'')) of
             (Some (JInteger v), Some (JObject entries)) \<Rightarrow>
               if v = 1 then parse_profiles entries Map.empty else EMPTY_LEDGER
           | _ \<Rightarrow> EMPTY_LEDGER)
      | _ \<Rightarrow> EMPTY_LEDGER)"

definition messageNotificationIdentifier :: "jstring \<Rightarrow> jstring \<Rightarrow> jstring" where
  "messageNotificationIdentifier profileKey messageId =
     js ''lxmf:'' @ normalizeProfileKey profileKey @ js '':'' @ js_lower (js_trim messageId)"

definition json_text :: "json option \<Rightarrow> jstring" where
  "json_text v = (case v of Some (JString s) \<Rightarrow> js_trim s | _ \<Rightarrow> [])"

definition parseMessageNotificationTarget :: "(jstring \<rightharpoonup> json) \<Rightarrow> MessageNotificationTarget option" where
  "parseMessageNotificationTarget data =
     (if data (js ''kind'') \<noteq> Some (JString (js ''lxmf_message'')) then None
      else let profileKey = json_text (data (js ''profileKey''));
               destination = json_text (data (js ''destination''));
               messageId = json_text (data (js ''messageId''))
           in if profileKey = [] \<or> length profileKey > 256 \<or> destination = [] \<or> length destination > 256 \<or>
                 messageId = [] \<or> length messageId > 256
              then None
              else Some \<lparr>tg_destination = destination, tg_messageId = messageId,
                         tg_profileKey = normalizeProfileKey profileKey\<rparr>)"

definition enqueueMessageNotificationTarget ::
  "MessageNotificationTarget list \<Rightarrow> MessageNotificationTarget \<Rightarrow> MessageNotificationTarget list" where
  "enqueueMessageNotificationTarget queue target =
     (if list_ex (\<lambda>candidate. tg_profileKey candidate = tg_profileKey target \<and>
           tg_destination candidate = tg_destination target \<and> tg_messageId candidate = tg_messageId target) queue
      then queue else queue @ [target])"

definition shouldPresentInboundMessageNotification :: "jstring \<Rightarrow> MessageNotificationPresentationContext \<Rightarrow> bool" where
  "shouldPresentInboundMessageNotification peer context =
     (\<not> (px_foreground context \<and> px_workspace context = js ''lxmf'' \<and>
         \<not> px_navigationOverlayVisible context \<and> px_selectedDestination context = Some peer))"

fun newest_loop :: "int \<Rightarrow> MessageActivityEventView list \<Rightarrow> int" where
  "newest_loop newest [] = newest"
| "newest_loop newest (e # es) =
     newest_loop (if isSafeEventId (ev_event_id e) then max newest (ev_event_id e) else newest) es"

definition newestEventId :: "MessageActivityEventView list \<Rightarrow> int" where
  "newestEventId events = newest_loop 0 events"

definition notificationFor :: "MessageActivityEventView \<Rightarrow> InboundMessageNotification option" where
  "notificationFor event =
     (case ev_activity event of
        InboundImported message \<Rightarrow>
          if \<not> ev_inbound event \<or> \<not> isSafeEventId (ev_event_id event) then None
          else Some \<lparr>in_eventId = ev_event_id event, in_messageId = message, in_peer = ev_peer event,
                     in_timelineSequence = ev_timeline_sequence event\<rparr>
      | OtherActivity \<Rightarrow> None)"

section \<open>Reconciliation\<close>

definition superseded_error :: thrown where
  "superseded_error = ErrorObject (js ''message notification reconciliation was superseded'')"

definition nt_assertCurrent :: "notification_env \<Rightarrow> notification_world \<Rightarrow> bool \<times> notification_world" where
  "nt_assertCurrent env w = (ne_current env (nw_checks w), w\<lparr>nw_checks := nw_checks w + 1\<rparr>)"

definition nt_saveProfile ::
  "notification_env \<Rightarrow> MessageNotificationLedger \<Rightarrow> jstring \<Rightarrow> int \<Rightarrow> notification_world
     \<Rightarrow> (thrown + MessageNotificationLedger) \<times> notification_world" where
  "nt_saveProfile env ledger profileKey lastEventId w =
     (let next = ledger(profileKey \<mapsto> lastEventId)
      in case ne_save env lastEventId of
           SaveDone \<Rightarrow> (Inr next, w\<lparr>nw_ledger := next\<rparr>)
         | SaveFailed e written \<Rightarrow> (Inl e, if written then w\<lparr>nw_ledger := next\<rparr> else w))"

text \<open>
  The page loop; \<open>None\<close> when the fuel runs out. \<open>requested\<close> are the cursors asked for so far.
\<close>

fun collect_pages ::
  "nat \<Rightarrow> notification_env \<Rightarrow> int \<Rightarrow> int list \<Rightarrow> MessageActivityEventView list \<Rightarrow> int option \<Rightarrow> bool
     \<Rightarrow> notification_world \<Rightarrow> ((thrown + MessageActivityEventView list) \<times> notification_world) option" where
  "collect_pages 0 env retained requested events next reached w = None"
| "collect_pages (Suc fuel) env retained requested events next reached w =
     (if reached then Some (Inr events, w)
      else case next of
        None \<Rightarrow> Some (Inr events, w)
      | Some cursor \<Rightarrow>
          if cursor \<in> set requested
          then Some (Inl (ErrorObject (js ''message activity pagination repeated a cursor'')), w)
          else case ne_loadPage env (Some cursor) of
            Rejected e \<Rightarrow> Some (Inl e, w)
          | Fulfilled page \<Rightarrow>
              (case nt_assertCurrent env w of
                 (False, w1) \<Rightarrow> Some (Inl superseded_error, w1)
               | (True, w1) \<Rightarrow>
                   collect_pages fuel env retained (cursor # requested) (events @ pg_events page)
                     (pg_next_before_event_id page)
                     (list_ex (\<lambda>e. ev_event_id e \<le> retained) (pg_events page)) w1))"

text \<open>\<^verbatim>\<open>[...new Map(events.map(e => [e.event_id, e])).values()].filter(...).sort(...)\<close>.\<close>

definition latest_events :: "MessageActivityEventView list \<Rightarrow> MessageActivityEventView list" where
  "latest_events events = map snd (foldl (\<lambda>m e. AList.update (ev_event_id e) e m) [] events)"

definition unseen_events :: "int \<Rightarrow> MessageActivityEventView list \<Rightarrow> MessageActivityEventView list" where
  "unseen_events retained events =
     sort_key ev_event_id
       (filter (\<lambda>e. isSafeEventId (ev_event_id e) \<and> ev_event_id e > retained) (latest_events events))"

fun present_events ::
  "notification_env \<Rightarrow> jstring \<Rightarrow> MessageNotificationLedger \<Rightarrow> int \<Rightarrow> nat \<Rightarrow> MessageActivityEventView list
     \<Rightarrow> notification_world \<Rightarrow> (thrown + (MessageNotificationLedger \<times> int \<times> nat)) \<times> notification_world" where
  "present_events env key ledger lastEventId count [] w = (Inr (ledger, lastEventId, count), w)"
| "present_events env key ledger lastEventId count (e # es) w =
     (case nt_assertCurrent env w of
        (False, w1) \<Rightarrow> (Inl superseded_error, w1)
      | (True, w1) \<Rightarrow>
        (case notificationFor e of
           None \<Rightarrow> present_events env key ledger (ev_event_id e) count es w1
         | Some n \<Rightarrow>
             (case ne_notify env n of
                Rejected x \<Rightarrow> (Inl x, w1)
              | Fulfilled _ \<Rightarrow>
                  (case nt_saveProfile env ledger key (ev_event_id e) (w1\<lparr>nw_presented := nw_presented w1 @ [n]\<rparr>) of
                     (Inl x, w2) \<Rightarrow> (Inl x, w2)
                   | (Inr ledger', w2) \<Rightarrow> present_events env key ledger' (ev_event_id e) (count + 1) es w2))))"

definition present_unseen ::
  "notification_env \<Rightarrow> jstring \<Rightarrow> MessageNotificationLedger \<Rightarrow> int \<Rightarrow> MessageActivityEventView list
     \<Rightarrow> notification_world \<Rightarrow> (thrown + MessageNotificationReconcileResult) \<times> notification_world" where
  "present_unseen env key ledger retained events w =
     (case present_events env key ledger retained 0 (unseen_events retained events) w of
        (Inl x, w1) \<Rightarrow> (Inl x, w1)
      | (Inr (ledger1, lastEventId, count), w1) \<Rightarrow>
          let stored = (case ledger1 key of Some i \<Rightarrow> i | None \<Rightarrow> retained)
          in if lastEventId \<noteq> stored
             then (case nt_saveProfile env ledger1 key lastEventId w1 of
                     (Inl x, w2) \<Rightarrow> (Inl x, w2)
                   | (Inr ledger2, w2) \<Rightarrow>
                       (Inr \<lparr>rr_baselineEstablished = False,
                             rr_lastEventId = (case ledger2 key of Some i \<Rightarrow> i | None \<Rightarrow> lastEventId),
                             rr_notificationsPresented = count\<rparr>, w2))
             else (Inr \<lparr>rr_baselineEstablished = False,
                        rr_lastEventId = (case ledger1 key of Some i \<Rightarrow> i | None \<Rightarrow> lastEventId),
                        rr_notificationsPresented = count\<rparr>, w1))"

definition reconcile_loaded ::
  "nat \<Rightarrow> notification_env \<Rightarrow> jstring \<Rightarrow> MessageNotificationLedger \<Rightarrow> MessageActivityPageView \<Rightarrow> notification_world
     \<Rightarrow> ((thrown + MessageNotificationReconcileResult) \<times> notification_world) option" where
  "reconcile_loaded fuel env key ledger firstPage w =
     (let firstPageNewest = newestEventId (pg_events firstPage);
          baseline = (case nt_saveProfile env ledger key firstPageNewest w of
             (Inl x, w1) \<Rightarrow> (Inl x, w1)
           | (Inr ledger1, w1) \<Rightarrow>
               (Inr \<lparr>rr_baselineEstablished = True,
                     rr_lastEventId = (case ledger1 key of Some i \<Rightarrow> i | None \<Rightarrow> firstPageNewest),
                     rr_notificationsPresented = 0\<rparr>, w1))
      in case ledger key of
           None \<Rightarrow> Some baseline
         | Some retained \<Rightarrow>
             if firstPageNewest < retained then Some baseline
             else if firstPageNewest = retained
             then Some (Inr \<lparr>rr_baselineEstablished = False, rr_lastEventId = retained,
                             rr_notificationsPresented = 0\<rparr>, w)
             else (case collect_pages fuel env retained [] (pg_events firstPage)
                          (pg_next_before_event_id firstPage)
                          (list_ex (\<lambda>e. ev_event_id e \<le> retained) (pg_events firstPage)) w of
                     None \<Rightarrow> None
                   | Some (Inl x, w1) \<Rightarrow> Some (Inl x, w1)
                   | Some (Inr events, w1) \<Rightarrow> Some (present_unseen env key ledger retained events w1)))"

definition nt_reconcile ::
  "nat \<Rightarrow> notification_env \<Rightarrow> jstring \<Rightarrow> notification_world
     \<Rightarrow> ((thrown + MessageNotificationReconcileResult) \<times> notification_world) option" where
  "nt_reconcile fuel env profileKey w =
     (case nt_assertCurrent env w of
        (False, w1) \<Rightarrow> Some (Inl superseded_error, w1)
      | (True, w1) \<Rightarrow>
        let key = normalizeProfileKey profileKey
        in if key = [] then Some (Inl (ErrorObject (js ''notification profile key must not be empty'')), w1)
           else case ne_load_error env of
             Some x \<Rightarrow> Some (Inl x, w1)
           | None \<Rightarrow>
             let ledger = nw_ledger w1
             in case nt_assertCurrent env w1 of
               (False, w2) \<Rightarrow> Some (Inl superseded_error, w2)
             | (True, w2) \<Rightarrow>
               (case ne_loadPage env None of
                  Rejected x \<Rightarrow> Some (Inl x, w2)
                | Fulfilled firstPage \<Rightarrow>
                    (case nt_assertCurrent env w2 of
                       (False, w3) \<Rightarrow> Some (Inl superseded_error, w3)
                     | (True, w3) \<Rightarrow> reconcile_loaded fuel env key ledger firstPage w3)))"

text \<open>\<open>outcome\<close> is that of the save, \<open>load_error\<close> that of the load.\<close>

definition nt_forgetProfile ::
  "thrown option \<Rightarrow> save_result \<Rightarrow> jstring \<Rightarrow> notification_world \<Rightarrow> thrown option \<times> notification_world" where
  "nt_forgetProfile load_error outcome profileKey w =
     (case load_error of
        Some x \<Rightarrow> (Some x, w)
      | None \<Rightarrow>
          let key = normalizeProfileKey profileKey
          in if nw_ledger w key = None then (None, w)
             else let w1 = w\<lparr>nw_ledger := (nw_ledger w)(key := None)\<rparr>
                  in case outcome of
                       SaveDone \<Rightarrow> (None, w1)
                     | SaveFailed x written \<Rightarrow> (Some x, if written then w1 else w))"

section \<open>The unseen events\<close>

definition event_map :: "(int \<times> MessageActivityEventView) list \<Rightarrow> bool" where
  "event_map m \<longleftrightarrow> distinct (map fst m) \<and> (\<forall>(k, e)\<in>set m. k = ev_event_id e)"

lemma event_map_update_member:
  assumes "event_map m" and "(k, x) \<in> set (AList.update (ev_event_id e) e m)"
  shows "(k, x) = (ev_event_id e, e) \<or> (k, x) \<in> set m"
proof -
  have "map_of (AList.update (ev_event_id e) e m) k = Some x"
    using assms by (simp add: event_map_def distinct_update)
  then show ?thesis using map_of_SomeD by (fastforce simp: update_conv' split: if_splits)
qed

lemma event_map_update:
  assumes "event_map m"
  shows "event_map (AList.update (ev_event_id e) e m)"
proof -
  have "k = ev_event_id x" if "(k, x) \<in> set (AList.update (ev_event_id e) e m)" for k x
    using event_map_update_member [OF assms that] assms by (auto simp: event_map_def)
  then show ?thesis using assms by (auto simp: event_map_def distinct_update)
qed

lemma event_map_foldl:
  "event_map m \<Longrightarrow> event_map (foldl (\<lambda>m e. AList.update (ev_event_id e) e m) m es)"
  by (induction es arbitrary: m) (simp_all add: event_map_update)

lemma event_map_values:
  "event_map m \<Longrightarrow> snd ` set (foldl (\<lambda>m e. AList.update (ev_event_id e) e m) m es) \<subseteq> snd ` set m \<union> set es"
proof (induction es arbitrary: m)
  case (Cons e es)
  have "snd ` set (AList.update (ev_event_id e) e m) \<subseteq> insert e (snd ` set m)"
    using event_map_update_member [OF Cons.prems] by force
  with Cons.IH [OF event_map_update [OF Cons.prems], of e] show ?case by auto
qed simp

lemma event_map_keys:
  "fst ` set (foldl (\<lambda>m e. AList.update (ev_event_id e) e m) m es) = fst ` set m \<union> ev_event_id ` set es"
proof (induction es arbitrary: m)
  case (Cons e es)
  have "fst ` set (AList.update (ev_event_id e) e m) = insert (ev_event_id e) (fst ` set m)"
    by (simp add: dom_map_of_conv_image_fst [symmetric] update_conv')
  with Cons.IH show ?case by simp
qed simp

lemma latest_events_facts:
  "distinct (map ev_event_id (latest_events events))"
  "set (latest_events events) \<subseteq> set events"
  "ev_event_id ` set (latest_events events) = ev_event_id ` set events"
proof -
  let ?m = "foldl (\<lambda>m e. AList.update (ev_event_id e) e m) [] events"
  have "event_map []" by (simp add: event_map_def)
  then have m: "distinct (map fst ?m)" "\<forall>(k, e)\<in>set ?m. k = ev_event_id e"
      "snd ` set ?m \<subseteq> set events" "fst ` set ?m = ev_event_id ` set events"
    using event_map_foldl [of "[]" events] event_map_values [of "[]" events] event_map_keys [of "[]" events]
    by (simp_all add: event_map_def)
  have ids: "map ev_event_id (latest_events events) = map fst ?m"
    using m(2) by (auto simp: latest_events_def)
  then show "distinct (map ev_event_id (latest_events events))" using m(1) by simp
  show "set (latest_events events) \<subseteq> set events" using m(3) by (simp add: latest_events_def)
  show "ev_event_id ` set (latest_events events) = ev_event_id ` set events"
    using arg_cong [OF ids, of set] m(4) by simp
qed

lemma unseen_ids_sorted: "sorted_wrt (<) (map ev_event_id (unseen_events retained events))"
proof -
  have "distinct (map ev_event_id (unseen_events retained events))"
    using latest_events_facts(1) [of events]
    by (simp add: unseen_events_def distinct_map_filter distinct_map inj_on_def)
  moreover have "sorted (map ev_event_id (unseen_events retained events))" by (simp add: unseen_events_def)
  ultimately show ?thesis by (simp add: strict_sorted_iff)
qed

lemma unseen_member:
  "e \<in> set (unseen_events retained events) \<Longrightarrow> retained < ev_event_id e \<and> isSafeEventId (ev_event_id e) \<and> e \<in> set events"
  using latest_events_facts(2) by (auto simp: unseen_events_def)

lemma unseen_ids:
  "ev_event_id ` set (unseen_events retained events) =
     {i \<in> ev_event_id ` set events. isSafeEventId i \<and> retained < i}"
  unfolding latest_events_facts(3) [of events, symmetric] by (auto simp: unseen_events_def)

section \<open>Presenting them\<close>

text \<open>An environment whose saves all succeed.\<close>

definition reliable :: "notification_env \<Rightarrow> bool" where
  "reliable env \<longleftrightarrow> (\<forall>i. ne_save env i = SaveDone)"

text \<open>
  The contract of the presentation loop, whatever the environment answers: the alerts presented are
  those of a prefix of the events; other profiles keep their watermark; the watermark of this profile
  covers every alert but possibly the last (whose save failed); on success, and when saves are
  reliable, it covers all of them.
\<close>

definition watermark :: "int option \<Rightarrow> InboundMessageNotification list \<Rightarrow> int option" where
  "watermark stored ns = (if ns = [] then stored else Some (in_eventId (last ns)))"

definition presented_ok ::
  "jstring \<Rightarrow> notification_world \<Rightarrow> InboundMessageNotification list \<Rightarrow> bool \<Rightarrow> notification_world \<Rightarrow> bool" where
  "presented_ok key w ns success w' \<longleftrightarrow>
     nw_presented w' = nw_presented w @ ns \<and>
     (\<forall>k. k \<noteq> key \<longrightarrow> nw_ledger w' k = nw_ledger w k) \<and>
     (nw_ledger w' key = watermark (nw_ledger w key) ns \<or>
      \<not> success \<and> ns \<noteq> [] \<and> nw_ledger w' key = watermark (nw_ledger w key) (butlast ns))"

lemma presented_ok_refl: "nw_presented w' = nw_presented w \<Longrightarrow> nw_ledger w' = nw_ledger w \<Longrightarrow> presented_ok key w [] s w'"
  by (simp add: presented_ok_def watermark_def)

lemma presented_ok_cons:
  assumes "nw_presented w1 = nw_presented w @ [n]" and "nw_ledger w1 = (nw_ledger w)(key \<mapsto> in_eventId n)"
    and "presented_ok key w1 ns s w'"
  shows "presented_ok key w (n # ns) s w'"
  using assms by (cases ns) (auto simp: presented_ok_def watermark_def)

definition alerts :: "MessageActivityEventView list \<Rightarrow> InboundMessageNotification list" where
  "alerts es = List.map_filter notificationFor es"

lemma alerts_simps [simp]:
  "alerts [] = []"
  "alerts (e # es) = (case notificationFor e of None \<Rightarrow> alerts es | Some n \<Rightarrow> n # alerts es)"
  by (simp_all add: alerts_def List.map_filter_simps split: option.splits)

lemma notificationFor_id: "notificationFor e = Some n \<Longrightarrow> in_eventId n = ev_event_id e"
  by (auto simp: notificationFor_def split: activity_kind.splits if_splits)

lemma assertCurrent_world: "nt_assertCurrent env w = (b, w1) \<Longrightarrow> nw_presented w1 = nw_presented w \<and> nw_ledger w1 = nw_ledger w"
  by (auto simp: nt_assertCurrent_def)

lemma saveProfile_done:
  "nt_saveProfile env ledger key i w = (Inr l, w1) \<Longrightarrow>
     l = ledger(key \<mapsto> i) \<and> nw_ledger w1 = ledger(key \<mapsto> i) \<and> nw_presented w1 = nw_presented w"
  by (auto simp: nt_saveProfile_def Let_def split: save_result.splits)

lemma saveProfile_failed:
  "nt_saveProfile env ledger key i w = (Inl x, w1) \<Longrightarrow>
     (nw_ledger w1 = ledger(key \<mapsto> i) \<or> nw_ledger w1 = nw_ledger w) \<and> nw_presented w1 = nw_presented w"
  by (auto simp: nt_saveProfile_def Let_def split: save_result.splits if_splits)

lemma present_events_spec:
  assumes "present_events env key (nw_ledger w) lastId count es w = (r, w')"
  shows "\<exists>k. presented_ok key w (alerts (take k es)) (\<not> isl r \<or> reliable env) w' \<and>
    (\<forall>l i c. r = Inr (l, i, c) \<longrightarrow> alerts (take k es) = alerts es \<and> l = nw_ledger w' \<and>
       i = (if es = [] then lastId else ev_event_id (last es)) \<and> c = count + length (alerts es))"
  using assms
proof (induction es arbitrary: w lastId count)
  case Nil
  then show ?case by (auto simp: presented_ok_refl)
next
  case (Cons e es)
  obtain b w1 where cur: "nt_assertCurrent env w = (b, w1)" by fastforce
  note same = assertCurrent_world [OF cur]
  have stop: ?case if "r = Inl x" "nw_presented w' = nw_presented w" "nw_ledger w' = nw_ledger w" for x
    by (rule exI [of _ 0]) (use that in \<open>auto simp: presented_ok_refl\<close>)
  show ?case
  proof (cases "\<not> b")
    case True
    with Cons.prems cur same show ?thesis by (intro stop [of superseded_error]) auto
  next
    case False
    show ?thesis
    proof (cases "notificationFor e")
      case None
      with Cons.prems cur False have "present_events env key (nw_ledger w1) (ev_event_id e) count es w1 = (r, w')"
        using same by simp
      from Cons.IH [OF this] obtain k where "presented_ok key w1 (alerts (take k es)) (\<not> isl r \<or> reliable env) w'"
        and "\<forall>l i c. r = Inr (l, i, c) \<longrightarrow> alerts (take k es) = alerts es \<and> l = nw_ledger w' \<and>
          i = (if es = [] then ev_event_id e else ev_event_id (last es)) \<and> c = count + length (alerts es)" by blast
      then show ?thesis using None same
        by (intro exI [of _ "Suc k"]) (auto simp: presented_ok_def)
    next
      case (Some n)
      note nid = notificationFor_id [OF Some]
      show ?thesis
      proof (cases "ne_notify env n")
        case (Rejected x)
        with Cons.prems cur False Some same show ?thesis by (intro stop [of x]) auto
      next
        case (Fulfilled u)
        let ?w = "w1\<lparr>nw_presented := nw_presented w1 @ [n]\<rparr>"
        obtain q w2 where save: "nt_saveProfile env (nw_ledger w1) key (ev_event_id e) ?w = (q, w2)" by fastforce
        have run: "present_events env key (nw_ledger w) lastId count (e # es) w =
            (case q of Inl x \<Rightarrow> (Inl x, w2) | Inr l \<Rightarrow> present_events env key l (ev_event_id e) (count + 1) es w2)"
          using cur False Some Fulfilled save same by (simp split: sum.splits)
        show ?thesis
        proof (cases q)
          case (Inl x)
          note failed = saveProfile_failed [OF save [unfolded Inl]]
          have r: "r = Inl x" "w' = w2" using Cons.prems unfolding run Inl by simp_all
          have "\<not> reliable env"
            using save Inl
            by (auto simp: nt_saveProfile_def reliable_def Let_def intro!: exI [of _ "ev_event_id e"]
                split: save_result.splits)
          moreover have "presented_ok key w [n] False w'"
            using failed same r nid by (auto simp: presented_ok_def watermark_def)
          ultimately show ?thesis using r Some by (intro exI [of _ 1]) auto
        next
          case (Inr l)
          note ok = saveProfile_done [OF save [unfolded Inr]]
          have "present_events env key (nw_ledger w2) (ev_event_id e) (count + 1) es w2 = (r, w')"
            using Cons.prems ok unfolding run Inr by simp
          from Cons.IH [OF this] obtain k where k: "presented_ok key w2 (alerts (take k es)) (\<not> isl r \<or> reliable env) w'"
            "\<forall>l i c. r = Inr (l, i, c) \<longrightarrow> alerts (take k es) = alerts es \<and> l = nw_ledger w' \<and>
              i = (if es = [] then ev_event_id e else ev_event_id (last es)) \<and> c = count + 1 + length (alerts es)" by blast
          have "presented_ok key w (n # alerts (take k es)) (\<not> isl r \<or> reliable env) w'"
            by (rule presented_ok_cons [OF _ _ k(1)]) (use ok same nid in auto)
          then show ?thesis using k(2) Some by (intro exI [of _ "Suc k"]) auto
        qed
      qed
    qed
  qed
qed

lemma alerts_ids:
  assumes "sorted_wrt (<) (map ev_event_id es)"
  shows "sorted_wrt (<) (map in_eventId (alerts es)) \<and> in_eventId ` set (alerts es) \<subseteq> ev_event_id ` set es"
  using assms
proof (induction es)
  case (Cons e es)
  then show ?case using notificationFor_id [of e] by (auto split: option.splits)
qed simp

lemma sorted_wrt_butlast_le:
  "sorted_wrt (<) (map f xs) \<Longrightarrow> x \<in> set xs \<Longrightarrow> f x \<le> f (last xs)" for f :: "'a \<Rightarrow> int"
proof (induction xs)
  case (Cons y ys)
  then show ?case by (cases "ys = []") (auto intro: less_imp_le)
qed simp

lemma watermark_covers:
  assumes "sorted_wrt (<) (map in_eventId ns)" and "\<forall>n\<in>set ns. retained < in_eventId n"
  shows "\<exists>m. watermark (Some retained) ns = Some m \<and> retained \<le> m \<and> (\<forall>n\<in>set ns. in_eventId n \<le> m)"
  using assms sorted_wrt_butlast_le [OF assms(1)] by (cases "ns = []") (auto simp: watermark_def intro: less_imp_le)

text \<open>What one pass over the unseen events does, whatever the environment answers.\<close>

definition pass_ok ::
  "jstring \<Rightarrow> int \<Rightarrow> notification_world \<Rightarrow> InboundMessageNotification list \<Rightarrow> bool \<Rightarrow> notification_world \<Rightarrow> bool" where
  "pass_ok key retained w ns covered w' \<longleftrightarrow>
     nw_presented w' = nw_presented w @ ns \<and> sorted_wrt (<) (map in_eventId ns) \<and>
     (\<forall>n\<in>set ns. retained < in_eventId n) \<and> (\<forall>k. k \<noteq> key \<longrightarrow> nw_ledger w' k = nw_ledger w k) \<and>
     (\<exists>m. nw_ledger w' key = Some m \<and> retained \<le> m \<and>
        (\<forall>n\<in>set (if covered then ns else butlast ns). in_eventId n \<le> m))"

lemma pass_ok_refl:
  "nw_ledger w key = Some retained \<Longrightarrow> nw_presented w' = nw_presented w \<Longrightarrow> nw_ledger w' = nw_ledger w
   \<Longrightarrow> pass_ok key retained w [] s w'"
  by (simp add: pass_ok_def)

lemma pass_ok_raise:
  assumes "pass_ok key retained w ns s w1" and "\<forall>n\<in>set ns. in_eventId n \<le> i" and "retained \<le> i"
    and "nw_presented w2 = nw_presented w1" and "nw_ledger w2 = (nw_ledger w1)(key \<mapsto> i)"
  shows "pass_ok key retained w ns s' w2"
  using assms in_set_butlastD [of _ ns] unfolding pass_ok_def by auto

lemma pass_ok_same:
  assumes "pass_ok key retained w ns s w1" and "nw_presented w2 = nw_presented w1" and "nw_ledger w2 = nw_ledger w1"
    and "s' \<Longrightarrow> s"
  shows "pass_ok key retained w ns s' w2"
  using assms in_set_butlastD [of _ ns] unfolding pass_ok_def by (auto split: if_splits)

lemma presented_pass:
  assumes ok: "presented_ok key w ns s w'" and "nw_ledger w key = Some retained"
    and sorted: "sorted_wrt (<) (map in_eventId ns)" and above: "\<forall>n\<in>set ns. retained < in_eventId n"
  shows "pass_ok key retained w ns s w'"
proof -
  have b: "sorted_wrt (<) (map in_eventId (butlast ns))" "\<forall>n\<in>set (butlast ns). retained < in_eventId n"
    using sorted above
    by (simp add: butlast_conv_take sorted_wrt_take take_map [symmetric], meson above in_set_butlastD)
  have "\<exists>m. nw_ledger w' key = Some m \<and> retained \<le> m \<and> (\<forall>n\<in>set (if s then ns else butlast ns). in_eventId n \<le> m)"
  proof (cases "nw_ledger w' key = watermark (Some retained) ns")
    case True
    then show ?thesis using watermark_covers [OF sorted above] in_set_butlastD [of _ ns] by (cases s) auto
  next
    case False
    then have "\<not> s" "nw_ledger w' key = watermark (Some retained) (butlast ns)"
      using ok assms(2) by (auto simp: presented_ok_def)
    then show ?thesis using watermark_covers [OF b] by auto
  qed
  with ok sorted above show ?thesis by (simp add: pass_ok_def presented_ok_def)
qed

lemma unseen_last:
  assumes "unseen_events retained events \<noteq> []"
  shows "retained \<le> ev_event_id (last (unseen_events retained events))"
    and "n \<in> set (alerts (unseen_events retained events)) \<Longrightarrow>
      in_eventId n \<le> ev_event_id (last (unseen_events retained events))"
proof -
  let ?u = "unseen_events retained events"
  show "retained \<le> ev_event_id (last ?u)" using unseen_member [OF last_in_set [OF assms]] by simp
  assume "n \<in> set (alerts ?u)"
  then obtain e where "e \<in> set ?u" "in_eventId n = ev_event_id e"
    using alerts_ids [OF unseen_ids_sorted [of retained events]] by blast
  then show "in_eventId n \<le> ev_event_id (last ?u)"
    using sorted_wrt_butlast_le [OF unseen_ids_sorted [of retained events]] by simp
qed

lemma present_unseen_spec:
  assumes run: "present_unseen env key (nw_ledger w) retained events w = (r, w')"
    and stored: "nw_ledger w key = Some retained"
  shows "\<exists>k. pass_ok key retained w (alerts (take k (unseen_events retained events))) (\<not> isl r \<or> reliable env) w' \<and>
    (\<forall>res. r = Inr res \<longrightarrow> alerts (take k (unseen_events retained events)) = alerts (unseen_events retained events) \<and>
       nw_ledger w' key = Some (rr_lastEventId res) \<and> \<not> rr_baselineEstablished res \<and>
       rr_notificationsPresented res = length (alerts (unseen_events retained events)) \<and>
       rr_lastEventId res = (if unseen_events retained events = [] then retained
                             else ev_event_id (last (unseen_events retained events))))"
proof -
  let ?u = "unseen_events retained events"
  obtain q w1 where pe: "present_events env key (nw_ledger w) retained 0 ?u w = (q, w1)" by fastforce
  from present_events_spec [OF pe] obtain k where
    ok: "presented_ok key w (alerts (take k ?u)) (\<not> isl q \<or> reliable env) w1" and
    fin: "\<forall>l i c. q = Inr (l, i, c) \<longrightarrow> alerts (take k ?u) = alerts ?u \<and> l = nw_ledger w1 \<and>
       i = (if ?u = [] then retained else ev_event_id (last ?u)) \<and> c = length (alerts ?u)" by auto
  have sorted: "sorted_wrt (<) (map ev_event_id (take k ?u))"
    using unseen_ids_sorted [of retained events] by (simp add: take_map [symmetric] sorted_wrt_take)
  have above: "\<forall>n\<in>set (alerts (take k ?u)). retained < in_eventId n"
  proof
    fix n assume "n \<in> set (alerts (take k ?u))"
    then have "in_eventId n \<in> ev_event_id ` set (take k ?u)" using alerts_ids [OF sorted] by blast
    then obtain e where "e \<in> set ?u" "in_eventId n = ev_event_id e" using in_set_takeD by force
    then show "retained < in_eventId n" using unseen_member by simp
  qed
  note pass = presented_pass [OF ok stored conjunct1 [OF alerts_ids [OF sorted]] above]
  show ?thesis
  proof (cases q)
    case (Inl x)
    with run pe pass show ?thesis by (intro exI [of _ k]) (auto simp: present_unseen_def)
  next
    case (Inr t)
    then have q_ok: "\<not> isl q \<or> reliable env" by simp
    obtain l i c where t: "t = (l, i, c)" by (cases t) auto
    note d = fin [rule_format, OF Inr [unfolded t]]
    obtain m where m: "nw_ledger w1 key = Some m" using pass by (auto simp: pass_ok_def)
    show ?thesis
    proof (cases "i = m")
      case True
      with run pe Inr t m d have "w' = w1" "r = Inr \<lparr>rr_baselineEstablished = False, rr_lastEventId = m, rr_notificationsPresented = c\<rparr>"
        by (auto simp: present_unseen_def Let_def)
      moreover have "pass_ok key retained w (alerts (take k ?u)) (\<not> isl r \<or> reliable env) w1"
        by (rule pass_ok_same [OF pass]) (use q_ok in auto)
      ultimately show ?thesis using d m True by (intro exI [of _ k]) auto
    next
      case False
      have le: "\<forall>n\<in>set (alerts (take k ?u)). in_eventId n \<le> i" "retained \<le> i"
        using d unseen_last [of retained events] by (cases "?u = []"; auto)+
      obtain q2 w2 where save: "nt_saveProfile env (nw_ledger w1) key i w1 = (q2, w2)" by fastforce
      have eq: "(r, w') = (case q2 of Inl x \<Rightarrow> (Inl x, w2) | Inr l2 \<Rightarrow>
          (Inr \<lparr>rr_baselineEstablished = False, rr_lastEventId = (case l2 key of Some i \<Rightarrow> i | None \<Rightarrow> i),
                rr_notificationsPresented = c\<rparr>, w2))"
        using run pe Inr t m conjunct1 [OF conjunct2 [OF d]] False save
        by (simp add: present_unseen_def Let_def split: sum.splits)
      show ?thesis
      proof (cases q2)
        case (Inl x)
        then have w': "w' = w2" "r = Inl x" using eq by auto
        have "pass_ok key retained w (alerts (take k ?u)) (\<not> isl r \<or> reliable env) w2"
          using saveProfile_failed [OF save [unfolded Inl]] pass_ok_raise [OF pass le] pass_ok_same [OF pass] q_ok by blast
        then show ?thesis using w' by auto
      next
        case (Inr l2)
        note sd = saveProfile_done [OF save [unfolded Inr]]
        have "pass_ok key retained w (alerts (take k ?u)) (\<not> isl r \<or> reliable env) w'"
          using sd pass_ok_raise [OF pass le] eq Inr by auto
        then show ?thesis using eq Inr sd d by (intro exI [of _ k]) auto
      qed
    qed
  qed
qed

section \<open>One reconciliation\<close>

lemma collect_pages_world:
  "collect_pages fuel env retained requested events next reached w = Some (r, w') \<Longrightarrow>
     nw_presented w' = nw_presented w \<and> nw_ledger w' = nw_ledger w \<and>
     (\<forall>es. r = Inr es \<longrightarrow> set events \<subseteq> set es)"
proof (induction fuel arbitrary: requested events "next" reached w)
  case (Suc fuel)
  show ?case
  proof (cases "reached \<or> next = None")
    case True
    with Suc.prems show ?thesis by (auto split: option.splits if_splits)
  next
    case False
    then obtain cursor where n: "next = Some cursor" by auto
    obtain b w1 where cur: "nt_assertCurrent env w = (b, w1)" by fastforce
    note same = assertCurrent_world [OF cur]
    show ?thesis
    proof (cases "cursor \<in> set requested \<or> \<not> b \<or> (\<exists>x. ne_loadPage env (Some cursor) = Rejected x)")
      case True
      with Suc.prems n False cur same show ?thesis by (auto split: if_splits settled.splits)
    next
      case no: False
      then obtain page where "ne_loadPage env (Some cursor) = Fulfilled page"
        by (cases "ne_loadPage env (Some cursor)") auto
      with Suc.prems n False cur no have
        "collect_pages fuel env retained (cursor # requested) (events @ pg_events page) (pg_next_before_event_id page)
           (list_ex (\<lambda>e. ev_event_id e \<le> retained) (pg_events page)) w1 = Some (r, w')" by simp
      from Suc.IH [OF this] same show ?thesis by auto
    qed
  qed
qed simp

lemma newest_loop_ge: "newest \<le> newest_loop newest es"
  by (induction es arbitrary: newest) (auto intro: order_trans [OF max.cobounded1])

text \<open>
  The ways a reconciliation can end: nothing done; a baseline established (or its save failed); or a
  pass over the unseen events of the collected pages.
\<close>

definition baseline_ok :: "notification_env \<Rightarrow> jstring \<Rightarrow> notification_world \<Rightarrow> notification_world \<Rightarrow> bool" where
  "baseline_ok env key w w' \<longleftrightarrow>
     (\<exists>page. ne_loadPage env None = Fulfilled page \<and>
        (\<forall>retained. nw_ledger w key = Some retained \<longrightarrow> newestEventId (pg_events page) < retained) \<and>
        nw_presented w' = nw_presented w \<and>
        (nw_ledger w' = nw_ledger w \<or> nw_ledger w' = (nw_ledger w)(key \<mapsto> newestEventId (pg_events page))))"

lemma reconcile_loaded_cases:
  assumes run: "reconcile_loaded fuel env key (nw_ledger w) page w = Some (r, w')"
    and page: "ne_loadPage env None = Fulfilled page"
  shows "nw_presented w' = nw_presented w \<and> nw_ledger w' = nw_ledger w \<and>
      (\<forall>res. r = Inr res \<longrightarrow> nw_ledger w key = Some (rr_lastEventId res) \<and> rr_notificationsPresented res = 0
         \<and> \<not> rr_baselineEstablished res \<and> newestEventId (pg_events page) = rr_lastEventId res) \<or>
    baseline_ok env key w w' \<and> (\<forall>res. r = Inr res \<longrightarrow> rr_baselineEstablished res \<and>
       nw_ledger w' = (nw_ledger w)(key \<mapsto> newestEventId (pg_events page))) \<or>
    (\<exists>retained events w1. nw_ledger w key = Some retained \<and> retained < newestEventId (pg_events page) \<and>
       collect_pages fuel env retained [] (pg_events page) (pg_next_before_event_id page)
         (list_ex (\<lambda>e. ev_event_id e \<le> retained) (pg_events page)) w = Some (Inr events, w1) \<and>
       nw_presented w1 = nw_presented w \<and> nw_ledger w1 = nw_ledger w \<and>
       present_unseen env key (nw_ledger w1) retained events w1 = (r, w'))"
proof -
  let ?n = "newestEventId (pg_events page)"
  obtain q w1 where save: "nt_saveProfile env (nw_ledger w) key ?n w = (q, w1)" by fastforce
  have base: "baseline_ok env key w w' \<and> (\<forall>res. r = Inr res \<longrightarrow> rr_baselineEstablished res \<and>
       nw_ledger w' = (nw_ledger w)(key \<mapsto> ?n))"
    if "\<forall>retained. nw_ledger w key = Some retained \<longrightarrow> ?n < retained"
  proof -
    have eq: "(r, w') = (case q of Inl x \<Rightarrow> (Inl x, w1) | Inr l \<Rightarrow> (Inr \<lparr>rr_baselineEstablished = True,
        rr_lastEventId = (case l key of Some i \<Rightarrow> i | None \<Rightarrow> ?n), rr_notificationsPresented = 0\<rparr>, w1))"
      using run save that
      by (cases "nw_ledger w key"; cases q) (simp_all add: reconcile_loaded_def Let_def)
    show ?thesis
    proof (cases q)
      case (Inl x)
      then show ?thesis
        using eq page that saveProfile_failed [OF save [unfolded Inl]] by (auto simp: baseline_ok_def)
    next
      case (Inr l)
      then show ?thesis
        using eq page that saveProfile_done [OF save [unfolded Inr]] by (simp add: baseline_ok_def)
    qed
  qed
  show ?thesis
  proof (cases "\<forall>retained. nw_ledger w key = Some retained \<longrightarrow> ?n < retained")
    case True
    then show ?thesis using base by blast
  next
    case False
    then obtain retained where ret: "nw_ledger w key = Some retained" "\<not> ?n < retained" by blast
    show ?thesis
    proof (cases "?n = retained")
      case True
      with run ret show ?thesis by (auto simp: reconcile_loaded_def Let_def)
    next
      case ne: False
      then obtain c where coll: "collect_pages fuel env retained [] (pg_events page) (pg_next_before_event_id page)
          (list_ex (\<lambda>e. ev_event_id e \<le> retained) (pg_events page)) w = Some c"
        using run ret by (auto simp: reconcile_loaded_def Let_def split: option.splits)
      obtain s w2 where c: "c = (s, w2)" by (cases c) auto
      note same = collect_pages_world [OF coll [unfolded c]]
      show ?thesis
      proof (cases s)
        case (Inl x)
        with run ret ne coll c same show ?thesis by (auto simp: reconcile_loaded_def Let_def)
      next
        case (Inr events)
        with run ret ne coll c have "present_unseen env key (nw_ledger w) retained events w2 = (r, w')"
          by (auto simp: reconcile_loaded_def Let_def)
        then show ?thesis using same Inr ret ne coll c by (intro disjI2 exI [of _ retained] exI [of _ events] exI [of _ w2]) auto
      qed
    qed
  qed
qed

lemma reconcile_cases:
  assumes "nt_reconcile fuel env pk w = Some (r, w')"
  shows "nw_presented w' = nw_presented w \<and> nw_ledger w' = nw_ledger w \<and> isl r \<or>
    (\<exists>page w3. ne_loadPage env None = Fulfilled page \<and> nw_presented w3 = nw_presented w \<and> nw_ledger w3 = nw_ledger w \<and>
       reconcile_loaded fuel env (normalizeProfileKey pk) (nw_ledger w3) page w3 = Some (r, w'))"
  using assms
  by (auto simp: nt_reconcile_def nt_assertCurrent_def Let_def split: bool.splits if_splits option.splits settled.splits)

lemma newest_loop_max: "e \<in> set es \<Longrightarrow> isSafeEventId (ev_event_id e) \<Longrightarrow> ev_event_id e \<le> newest_loop newest es"
proof (induction es arbitrary: newest)
  case (Cons x es)
  then show ?case
    using newest_loop_ge [of "max newest (ev_event_id x)" es] by (cases "e = x") auto
qed simp

lemma newestEventId_max: "e \<in> set es \<Longrightarrow> isSafeEventId (ev_event_id e) \<Longrightarrow> ev_event_id e \<le> newestEventId es"
  by (simp add: newestEventId_def newest_loop_max)

lemma unseen_none:
  assumes "newestEventId es \<le> retained"
  shows "unseen_events retained es = []"
proof (rule ccontr)
  assume "unseen_events retained es \<noteq> []"
  from unseen_member [OF last_in_set [OF this]] newestEventId_max assms show False by fastforce
qed

lemma reconcile_pass:
  assumes "nt_reconcile fuel env pk w = Some (r, w')" and "nw_ledger w (normalizeProfileKey pk) = Some retained"
  shows "(\<exists>ns. pass_ok (normalizeProfileKey pk) retained w ns (\<not> isl r \<or> reliable env) w') \<or>
    baseline_ok env (normalizeProfileKey pk) w w'"
proof -
  let ?key = "normalizeProfileKey pk"
  from reconcile_cases [OF assms(1)] show ?thesis
  proof (elim disjE exE conjE)
    assume "nw_presented w' = nw_presented w" "nw_ledger w' = nw_ledger w"
    then show ?thesis using pass_ok_refl [OF assms(2)] by blast
  next
    fix page w3
    assume page: "ne_loadPage env None = Fulfilled page" and w3: "nw_presented w3 = nw_presented w" "nw_ledger w3 = nw_ledger w"
      and run: "reconcile_loaded fuel env ?key (nw_ledger w3) page w3 = Some (r, w')"
    from reconcile_loaded_cases [OF run page] show ?thesis
    proof (elim disjE exE conjE)
      assume "nw_presented w' = nw_presented w3" "nw_ledger w' = nw_ledger w3"
      then show ?thesis using pass_ok_refl [OF assms(2)] w3 by metis
    next
      assume "baseline_ok env ?key w3 w'"
      then show ?thesis using w3 by (simp add: baseline_ok_def)
    next
      fix ret events w1
      assume "nw_ledger w3 ?key = Some ret" and w1: "nw_presented w1 = nw_presented w3" "nw_ledger w1 = nw_ledger w3"
        and run1: "present_unseen env ?key (nw_ledger w1) ret events w1 = (r, w')"
      then have "ret = retained" "nw_ledger w1 ?key = Some ret" using assms(2) w3 by auto
      with present_unseen_spec [OF run1] w1 w3 show ?thesis by (auto simp: pass_ok_def)
    qed
  qed
qed

text \<open>
  Reconciliations of one profile, one after the other, with reliable saves and a journal that does not
  fall behind the watermark. They may be superseded or fail at any point otherwise.
\<close>

definition journal_grows :: "notification_env \<Rightarrow> jstring \<Rightarrow> notification_world \<Rightarrow> bool" where
  "journal_grows env key w \<longleftrightarrow>
     (\<forall>page retained. ne_loadPage env None = Fulfilled page \<longrightarrow> nw_ledger w key = Some retained \<longrightarrow>
        retained \<le> newestEventId (pg_events page))"

inductive reconcile_run :: "jstring \<Rightarrow> notification_world \<Rightarrow> notification_world \<Rightarrow> bool" for pk where
  reconcile_once: "\<lbrakk>nt_reconcile fuel env pk w = Some (r, w'); reliable env; journal_grows env (normalizeProfileKey pk) w\<rbrakk>
    \<Longrightarrow> reconcile_run pk w w'"

definition alerts_covered :: "jstring \<Rightarrow> notification_world \<Rightarrow> bool" where
  "alerts_covered key w \<longleftrightarrow>
     sorted_wrt (<) (map in_eventId (nw_presented w)) \<and>
     (nw_ledger w key = None \<longrightarrow> nw_presented w = []) \<and>
     (\<forall>m n. nw_ledger w key = Some m \<longrightarrow> n \<in> set (nw_presented w) \<longrightarrow> in_eventId n \<le> m)"

lemma pass_covered:
  assumes "pass_ok key retained w ns True w'" and "alerts_covered key w" and "nw_ledger w key = Some retained"
  shows "alerts_covered key w'"
proof -
  obtain m where p: "nw_presented w' = nw_presented w @ ns" "sorted_wrt (<) (map in_eventId ns)"
    "\<forall>n\<in>set ns. retained < in_eventId n" "nw_ledger w' key = Some m" "retained \<le> m" "\<forall>n\<in>set ns. in_eventId n \<le> m"
    using assms(1) by (auto simp: pass_ok_def)
  have old: "\<forall>n\<in>set (nw_presented w). in_eventId n \<le> retained" using assms(2,3) by (auto simp: alerts_covered_def)
  have "sorted_wrt (<) (map in_eventId (nw_presented w'))"
    using p(1-3) old assms(2) by (fastforce simp: alerts_covered_def sorted_wrt_append)
  moreover have "\<forall>n\<in>set (nw_presented w'). in_eventId n \<le> m" using p(1,5,6) old by fastforce
  ultimately show ?thesis using p(4) by (simp add: alerts_covered_def)
qed

lemma reconcile_run_covered:
  assumes "reconcile_run pk w w'" and inv: "alerts_covered (normalizeProfileKey pk) w"
  shows "alerts_covered (normalizeProfileKey pk) w'"
  using assms(1)
proof cases
  case (reconcile_once fuel env r)
  let ?key = "normalizeProfileKey pk"
  show ?thesis
  proof (cases "nw_ledger w ?key")
    case (Some retained)
    have "\<not> baseline_ok env ?key w w'"
      using reconcile_once(3) Some by (auto simp: baseline_ok_def journal_grows_def)
    then obtain ns where "pass_ok ?key retained w ns True w'"
      using reconcile_pass [OF reconcile_once(1) Some] reconcile_once(2) by auto
    then show ?thesis using pass_covered inv Some by blast
  next
    case None
    then have empty: "nw_presented w = []" using inv by (simp add: alerts_covered_def)
    from reconcile_cases [OF reconcile_once(1)] have "nw_presented w' = []"
    proof (elim disjE exE conjE)
      fix page w3
      assume page: "ne_loadPage env None = Fulfilled page" and w3: "nw_presented w3 = nw_presented w" "nw_ledger w3 = nw_ledger w"
        and run: "reconcile_loaded fuel env ?key (nw_ledger w3) page w3 = Some (r, w')"
      from reconcile_loaded_cases [OF run page] show ?thesis
        using w3 None empty by (auto simp: baseline_ok_def)
    qed (use empty in simp)
    then show ?thesis by (simp add: alerts_covered_def)
  qed
qed

interpretation reconcile_sys: step_invariant "reconcile_run pk" "alerts_covered (normalizeProfileKey pk)"
  by unfold_locales (rule reconcile_run_covered)

lemma collect_pages_terminates:
  assumes "finite S" and "\<forall>c page. ne_loadPage env (Some c) = Fulfilled page \<longrightarrow> set_option (pg_next_before_event_id page) \<subseteq> S"
  shows "\<lbrakk>set_option next \<subseteq> S; set requested \<subseteq> S; distinct requested; card S < fuel + length requested\<rbrakk>
    \<Longrightarrow> collect_pages fuel env retained requested events next reached w \<noteq> None"
proof (induction fuel arbitrary: requested events "next" reached w)
  case 0
  then have "length requested = card (set requested)" by (simp add: distinct_card)
  also have "\<dots> \<le> card S" using 0 assms(1) by (intro card_mono)
  finally show ?case using 0 by simp
next
  case (Suc fuel)
  show ?case
  proof (cases "\<exists>c page w1. \<not> reached \<and> next = Some c \<and> c \<notin> set requested \<and>
      ne_loadPage env (Some c) = Fulfilled page \<and> nt_assertCurrent env w = (True, w1)")
    case False
    then show ?thesis by (auto split: option.splits settled.splits prod.splits bool.splits)
  next
    case True
    then obtain c page w1 where h: "\<not> reached" "next = Some c" "c \<notin> set requested"
      "ne_loadPage env (Some c) = Fulfilled page" "nt_assertCurrent env w = (True, w1)" by blast
    have "collect_pages fuel env retained (c # requested) (events @ pg_events page) (pg_next_before_event_id page)
        (list_ex (\<lambda>e. ev_event_id e \<le> retained) (pg_events page)) w1 \<noteq> None"
      by (rule Suc.IH) (use Suc.prems h assms(2) in auto)
    with h show ?thesis by simp
  qed
qed

section \<open>A journal served page by page\<close>

text \<open>
  The journal as the board's store serves it: newest first, each page the next \<open>pageSize\<close> events below the cursor, with the
  number of its last event as the next cursor while older events remain. A page load may fail instead.
\<close>

definition journal_page :: "nat \<Rightarrow> MessageActivityEventView list \<Rightarrow> int option \<Rightarrow> MessageActivityPageView" where
  "journal_page pageSize journal cursor =
     (let older = (case cursor of None \<Rightarrow> journal | Some c \<Rightarrow> filter (\<lambda>e. ev_event_id e < c) journal)
      in \<lparr>pg_events = take pageSize older,
          pg_next_before_event_id = (if pageSize < length older then Some (ev_event_id (last (take pageSize older))) else None)\<rparr>)"

definition journal_served :: "nat \<Rightarrow> MessageActivityEventView list \<Rightarrow> notification_env \<Rightarrow> bool" where
  "journal_served pageSize journal env \<longleftrightarrow>
     0 < pageSize \<and> sorted_wrt (\<lambda>a b. ev_event_id b < ev_event_id a) journal \<and>
     (\<forall>e\<in>set journal. isSafeEventId (ev_event_id e)) \<and>
     (\<forall>cursor page. ne_loadPage env cursor = Fulfilled page \<longrightarrow> page = journal_page pageSize journal cursor)"

lemma journal_below:
  assumes "sorted_wrt (\<lambda>a b. ev_event_id b < ev_event_id a) journal" and "k < length journal"
  shows "filter (\<lambda>e. ev_event_id e < ev_event_id (journal ! k)) journal = drop (Suc k) journal"
proof -
  have split: "journal = take k journal @ journal ! k # drop (Suc k) journal" by (rule id_take_nth_drop [OF assms(2)])
  have "sorted_wrt (\<lambda>a b. ev_event_id b < ev_event_id a) (take k journal @ journal ! k # drop (Suc k) journal)"
    using assms(1) split by simp
  then have "\<forall>e\<in>set (take k journal). \<not> ev_event_id e < ev_event_id (journal ! k)"
    "\<forall>e\<in>set (drop (Suc k) journal). ev_event_id e < ev_event_id (journal ! k)"
    by (auto simp: sorted_wrt_append)
  then have "filter (\<lambda>e. ev_event_id e < ev_event_id (journal ! k)) (take k journal @ journal ! k # drop (Suc k) journal)
      = drop (Suc k) journal"
    by (simp add: filter_empty_conv)
  then show ?thesis using split by simp
qed

text \<open>The cursor behind the first \<open>k\<close> events.\<close>

definition journal_cursor :: "MessageActivityEventView list \<Rightarrow> nat \<Rightarrow> int option" where
  "journal_cursor journal k = (if k < length journal then Some (ev_event_id (journal ! (k - 1))) else None)"

lemma last_of_take: "0 < k \<Longrightarrow> k < length xs \<Longrightarrow> last (take k xs) = xs ! (k - 1)"
  by (subst last_conv_nth) auto

lemma journal_page_first:
  assumes "0 < pageSize"
  shows "pg_events (journal_page pageSize journal None) = take pageSize journal"
    and "pg_next_before_event_id (journal_page pageSize journal None) = journal_cursor journal pageSize"
  using assms by (auto simp: journal_page_def journal_cursor_def Let_def last_of_take)

lemma journal_page_rest:
  assumes "sorted_wrt (\<lambda>a b. ev_event_id b < ev_event_id a) journal" and "0 < pageSize" and "0 < k"
    and "journal_cursor journal k = Some cursor"
  shows "take k journal @ pg_events (journal_page pageSize journal (Some cursor)) = take (k + pageSize) journal"
    and "pg_next_before_event_id (journal_page pageSize journal (Some cursor)) = journal_cursor journal (k + pageSize)"
proof -
  have k: "k < length journal" "cursor = ev_event_id (journal ! (k - 1))"
    using assms(4) by (auto simp: journal_cursor_def split: if_splits)
  have older: "filter (\<lambda>e. ev_event_id e < cursor) journal = drop k journal"
    using journal_below [OF assms(1), of "k - 1"] k assms(3) by simp
  show "take k journal @ pg_events (journal_page pageSize journal (Some cursor)) = take (k + pageSize) journal"
    by (simp add: journal_page_def older Let_def take_add)
  show "pg_next_before_event_id (journal_page pageSize journal (Some cursor)) = journal_cursor journal (k + pageSize)"
    using assms(2) k(1) by (auto simp: journal_page_def older journal_cursor_def Let_def last_of_take ac_simps)
qed

lemma collect_pages_journal:
  assumes "journal_served pageSize journal env"
  shows "\<lbrakk>collect_pages fuel env retained requested (take k journal) (journal_cursor journal k) reached w = Some (Inr es, w'); 0 < k;
     reached \<longrightarrow> (\<exists>e\<in>set (take k journal). ev_event_id e \<le> retained)\<rbrakk> \<Longrightarrow>
   \<exists>m. es = take m journal \<and> (length journal \<le> m \<or> (\<exists>e\<in>set (take m journal). ev_event_id e \<le> retained))"
proof (induction fuel arbitrary: requested k reached w)
  case (Suc fuel)
  note sorted = assms [unfolded journal_served_def, THEN conjunct2, THEN conjunct1]
  have pageSize: "0 < pageSize" using assms by (simp add: journal_served_def)
  show ?case
  proof (cases "reached \<or> journal_cursor journal k = None")
    case True
    with Suc.prems have "es = take k journal" by (auto split: option.splits)
    with True Suc.prems(3) show ?thesis
      by (intro exI [of _ k]) (auto simp: journal_cursor_def not_less split: if_splits)
  next
    case False
    then obtain cursor where c: "journal_cursor journal k = Some cursor" by auto
    note rest = journal_page_rest [OF sorted pageSize Suc.prems(2) c]
    let ?page = "journal_page pageSize journal (Some cursor)"
    from Suc.prems(1) False c obtain w1 where load: "ne_loadPage env (Some cursor) = Fulfilled ?page"
      and cur: "nt_assertCurrent env w = (True, w1)" and req: "cursor \<notin> set requested"
      using assms by (auto simp: journal_served_def split: if_splits settled.splits prod.splits bool.splits)
    have "collect_pages fuel env retained (cursor # requested) (take (k + pageSize) journal) (journal_cursor journal (k + pageSize))
        (list_ex (\<lambda>e. ev_event_id e \<le> retained) (pg_events ?page)) w1 = Some (Inr es, w')"
      using Suc.prems(1) False c load cur req by (simp flip: rest)
    then show ?thesis
    proof (rule Suc.IH)
      show "list_ex (\<lambda>e. ev_event_id e \<le> retained) (pg_events ?page) \<longrightarrow>
          (\<exists>e\<in>set (take (k + pageSize) journal). ev_event_id e \<le> retained)"
        by (auto simp: list_ex_iff simp flip: rest(1))
    qed (use Suc.prems(2) in simp)
  qed
qed simp

lemma latest_events_distinct: "distinct (map ev_event_id es) \<Longrightarrow> latest_events es = es"
proof -
  have "foldl (\<lambda>m e. AList.update (ev_event_id e) e m) [] es = map (\<lambda>e. (ev_event_id e, e)) es"
    if "distinct (map ev_event_id es)"
    using that
  proof (induction es rule: rev_induct)
    case (snoc e es)
    have new: "AList.update k v xs = xs @ [(k, v)]" if "k \<notin> fst ` set xs" for k :: int and v :: MessageActivityEventView and xs
      using that by (induction xs) auto
    have "ev_event_id e \<notin> fst ` set (map (\<lambda>e. (ev_event_id e, e)) es)" using snoc.prems by auto
    then show ?case using snoc new by simp
  qed simp
  then show "distinct (map ev_event_id es) \<Longrightarrow> latest_events es = es" by (simp add: latest_events_def comp_def)
qed

lemma sort_key_descending:
  fixes f :: "'a \<Rightarrow> 'b :: linorder"
  assumes "sorted_wrt (\<lambda>a b. f b < f a) xs"
  shows "sort_key f xs = rev xs"
  using assms
proof (induction xs)
  case (Cons x xs)
  have "insort_key f x ys = ys @ [x]" if "\<forall>y\<in>set ys. f y < f x" for ys
    using that by (induction ys) auto
  then show ?case using Cons by simp
qed simp

text \<open>The events beyond the watermark, oldest first, of a journal kept newest first.\<close>

definition journal_news :: "int \<Rightarrow> MessageActivityEventView list \<Rightarrow> MessageActivityEventView list" where
  "journal_news retained journal = rev (filter (\<lambda>e. retained < ev_event_id e) journal)"

lemma unseen_journal:
  assumes sorted: "sorted_wrt (\<lambda>a b. ev_event_id b < ev_event_id a) journal"
    and safe: "\<forall>e\<in>set journal. isSafeEventId (ev_event_id e)"
    and whole: "length journal \<le> m \<or> (\<exists>e\<in>set (take m journal). ev_event_id e \<le> retained)"
  shows "unseen_events retained (take m journal) = journal_news retained journal"
proof -
  let ?h = "take m journal"
  have sorted_h: "sorted_wrt (\<lambda>a b. ev_event_id b < ev_event_id a) ?h" by (rule sorted_wrt_take [OF sorted])
  have "sorted_wrt (\<lambda>a b. ev_event_id b < ev_event_id a) (?h @ drop m journal)" using sorted by simp
  then have "\<forall>e\<in>set (drop m journal). \<not> retained < ev_event_id e"
    using whole unfolding sorted_wrt_append by (auto simp: not_less) (meson less_imp_le order_trans)
  then have "filter (\<lambda>e. retained < ev_event_id e) (drop m journal) = []" by (simp add: filter_empty_conv)
  then have "filter (\<lambda>e. retained < ev_event_id e) (?h @ drop m journal) = filter (\<lambda>e. retained < ev_event_id e) ?h"
    by (simp only: filter_append append_Nil2)
  then have news: "journal_news retained journal = rev (filter (\<lambda>e. retained < ev_event_id e) ?h)"
    by (simp add: journal_news_def)
  have "distinct (map ev_event_id (rev ?h))"
    using sorted_h strict_sorted_iff [of "map ev_event_id (rev ?h)"] by (simp add: rev_map [symmetric] sorted_wrt_rev sorted_wrt_map)
  then have dist: "distinct (map ev_event_id ?h)" by (simp add: rev_map [symmetric])
  have "filter (\<lambda>e. isSafeEventId (ev_event_id e) \<and> retained < ev_event_id e) ?h = filter (\<lambda>e. retained < ev_event_id e) ?h"
    using safe by (intro filter_cong) (auto dest: in_set_takeD)
  then have "unseen_events retained ?h = sort_key ev_event_id (filter (\<lambda>e. retained < ev_event_id e) ?h)"
    by (simp add: unseen_events_def latest_events_distinct [OF dist])
  also have "\<dots> = rev (filter (\<lambda>e. retained < ev_event_id e) ?h)"
    by (rule sort_key_descending [OF sorted_wrt_filter [OF sorted_h]])
  finally show ?thesis using news by simp
qed

lemma journal_news_last:
  assumes "sorted_wrt (\<lambda>a b. ev_event_id b < ev_event_id a) journal"
  shows "\<forall>e\<in>set journal. ev_event_id e \<le>
    (if journal_news retained journal = [] then retained else ev_event_id (last (journal_news retained journal)))"
proof (cases journal)
  case (Cons e es)
  then show ?thesis using assms by (auto simp: journal_news_def filter_empty_conv last_rev not_less)
qed simp

lemma journal_news_none:
  assumes "sorted_wrt (\<lambda>a b. ev_event_id b < ev_event_id a) journal" and "\<forall>e\<in>set journal. isSafeEventId (ev_event_id e)"
    and "0 < pageSize" and "newestEventId (take pageSize journal) = retained"
  shows "journal_news retained journal = []"
proof (cases journal)
  case (Cons e es)
  have "ev_event_id e \<le> retained"
    using newestEventId_max [of e "take pageSize journal"] assms Cons by (cases pageSize) auto
  then show ?thesis using assms(1) Cons by (auto simp: journal_news_def filter_empty_conv)
qed (simp add: journal_news_def)

section \<open>Properties\<close>

text \<open>
  C11. Across any number of reconciliations of one board, no alert is presented twice and alerts appear in journal
  order: starting with nothing presented, if every save succeeds and the newest event of each first page is not behind
  the stored watermark, the identifiers of all presented alerts are strictly increasing, even if runs are superseded or
  fail in the middle (page loads, alert platform, store reads). Both conditions are needed: a save that fails after its
  alert, or a journal behind the watermark, which makes the code take a new and lower baseline, lets alerts repeat.
\<close>

theorem notifications_never_repeat:
  assumes "(reconcile_run pk)\<^sup>*\<^sup>* w w'" and "nw_presented w = []"
  shows "sorted_wrt (<) (map in_eventId (nw_presented w')) \<and> distinct (map in_eventId (nw_presented w'))"
proof -
  have "alerts_covered (normalizeProfileKey pk) w" using assms(2) by (simp add: alerts_covered_def)
  then have "alerts_covered (normalizeProfileKey pk) w'" by (rule reconcile_sys.reach_inv [OF assms(1)])
  then have "sorted_wrt (<) (map in_eventId (nw_presented w'))" by (simp add: alerts_covered_def)
  then show ?thesis using strict_sorted_iff by blast
qed

definition notification_event :: "int \<Rightarrow> MessageActivityEventView" where
  "notification_event i = \<lparr>ev_event_id = i, ev_inbound = True, ev_activity = InboundImported (js ''m''),
     ev_peer = js ''p'', ev_timeline_sequence = i\<rparr>"

definition notification_env_example :: notification_env where
  "notification_env_example = \<lparr>ne_load_error = None, ne_current = (\<lambda>_. True),
     ne_loadPage = (\<lambda>_. Fulfilled \<lparr>pg_events = [notification_event 7, notification_event 5], pg_next_before_event_id = None\<rparr>),
     ne_notify = (\<lambda>_. Fulfilled ()), ne_save = (\<lambda>_. SaveDone)\<rparr>"

definition notification_profile :: jstring where
  "notification_profile = js ''board''"

lemma notification_profile_key: "normalizeProfileKey notification_profile = notification_profile"
  by (simp add: notification_profile_def normalizeProfileKey_def js_trim_def js_lower_def lower_unit_def is_space_def)

definition notification_world_example :: notification_world where
  "notification_world_example = \<lparr>nw_ledger = [notification_profile \<mapsto> 5], nw_presented = [], nw_checks = 0\<rparr>"

definition notification_alert :: InboundMessageNotification where
  "notification_alert = \<lparr>in_eventId = 7, in_messageId = js ''m'', in_peer = js ''p'', in_timelineSequence = 7\<rparr>"

lemma notification_run:
  "nt_reconcile 1 notification_env_example notification_profile notification_world_example =
     Some (Inr \<lparr>rr_baselineEstablished = False, rr_lastEventId = 7, rr_notificationsPresented = 1\<rparr>,
       \<lparr>nw_ledger = [notification_profile \<mapsto> 7], nw_presented = [notification_alert], nw_checks = 4\<rparr>)"
proof -
  have newest: "newestEventId [notification_event 7, notification_event 5] = 7"
    by (simp add: newestEventId_def notification_event_def isSafeEventId_def isSafeInteger_def MAX_SAFE_INTEGER_def)
  have unseen: "unseen_events 5 [notification_event 7, notification_event 5] = [notification_event 7]"
    by (simp add: unseen_events_def latest_events_def notification_event_def isSafeEventId_def isSafeInteger_def MAX_SAFE_INTEGER_def)
  have alert: "notificationFor (notification_event 7) = Some notification_alert"
    by (simp add: notificationFor_def notification_event_def notification_alert_def isSafeEventId_def isSafeInteger_def MAX_SAFE_INTEGER_def)
  have key: "notification_profile \<noteq> []" by (simp add: notification_profile_def)
  have ids: "ev_event_id (notification_event 7) = 7" "ev_event_id (notification_event 5) = 5"
    by (simp_all add: notification_event_def)
  show ?thesis
    using key
    by (simp add: nt_reconcile_def notification_profile_key nt_assertCurrent_def notification_env_example_def
        notification_world_example_def reconcile_loaded_def newest Let_def One_nat_def ids present_unseen_def unseen alert
        nt_saveProfile_def)
qed

theorem notifications_never_repeat_witness:
  "sorted_wrt (<) (map in_eventId [notification_alert])"
proof -
  have "reconcile_run notification_profile notification_world_example
      \<lparr>nw_ledger = [notification_profile \<mapsto> 7], nw_presented = [notification_alert], nw_checks = 4\<rparr>"
    by (rule reconcile_once [OF notification_run])
      (simp_all add: reliable_def journal_grows_def notification_env_example_def notification_profile_key
        notification_world_example_def newestEventId_def notification_event_def isSafeEventId_def isSafeInteger_def MAX_SAFE_INTEGER_def)
  from notifications_never_repeat [OF r_into_rtranclp [of "reconcile_run notification_profile", OF this]] show ?thesis
    by (simp add: notification_world_example_def)
qed

text \<open>
  C15. One reconciliation against an arbitrary environment: whatever fails, the alerts it presents are
  new (beyond the stored watermark) and in order, the watermarks of other boards are untouched, and
  every presented alert but possibly the last (whose save failed) is covered by the stored watermark,
  so that a restart repeats at most one alert.
\<close>

theorem reconcile_presents_once:
  assumes "nt_reconcile fuel env pk w = Some (r, w')" and "nw_ledger w (normalizeProfileKey pk) = Some retained"
  shows "\<exists>ns. nw_presented w' = nw_presented w @ ns \<and> sorted_wrt (<) (map in_eventId ns)
    \<and> (\<forall>n\<in>set ns. retained < in_eventId n)
    \<and> (\<forall>k. k \<noteq> normalizeProfileKey pk \<longrightarrow> nw_ledger w' k = nw_ledger w k)
    \<and> (\<forall>n\<in>set (butlast ns). \<exists>m. nw_ledger w' (normalizeProfileKey pk) = Some m \<and> in_eventId n \<le> m)"
  using reconcile_pass [OF assms]
proof (elim disjE exE)
  fix ns assume "pass_ok (normalizeProfileKey pk) retained w ns (\<not> isl r \<or> reliable env) w'"
  then show ?thesis using in_set_butlastD [of _ ns]
    by (intro exI [of _ ns]) (auto simp: pass_ok_def split: if_splits)
qed (auto simp: baseline_ok_def)

theorem reconcile_presents_once_witness:
  "5 < in_eventId notification_alert"
proof -
  have "nw_ledger notification_world_example (normalizeProfileKey notification_profile) = Some 5"
    by (simp add: notification_world_example_def notification_profile_key)
  from reconcile_presents_once [OF notification_run this] obtain ns where
    "[notification_alert] = nw_presented notification_world_example @ ns" "\<forall>n\<in>set ns. 5 < in_eventId n" by auto
  then show ?thesis by (auto simp: notification_world_example_def)
qed

text \<open>
  C16. A successful reconciliation is complete. When the board serves a journal page by page (newest first, with safe
  event numbers), a reconciliation that succeeds without establishing a new baseline has presented exactly the alerts
  of all the events of the whole journal beyond the stored watermark, on however many pages they are, oldest first; it
  reports their number, and the stored watermark is then the number it reports, which no event of the journal exceeds.
\<close>

theorem reconcile_complete:
  assumes "nt_reconcile fuel env pk w = Some (Inr res, w')" and "\<not> rr_baselineEstablished res"
    and "nw_ledger w (normalizeProfileKey pk) = Some retained" and "journal_served pageSize journal env"
  shows "nw_presented w' = nw_presented w @ alerts (journal_news retained journal)
    \<and> rr_notificationsPresented res = length (alerts (journal_news retained journal))
    \<and> nw_ledger w' (normalizeProfileKey pk) = Some (rr_lastEventId res)
    \<and> (\<forall>e\<in>set journal. ev_event_id e \<le> rr_lastEventId res)"
proof -
  let ?key = "normalizeProfileKey pk" and ?page = "journal_page pageSize journal None" and ?u = "journal_news retained journal"
  have pageSize: "0 < pageSize" and safe: "\<forall>e\<in>set journal. isSafeEventId (ev_event_id e)"
    and sorted: "sorted_wrt (\<lambda>a b. ev_event_id b < ev_event_id a) journal"
    using assms(4) by (simp_all add: journal_served_def)
  note first = journal_page_first [OF pageSize, of journal]
  have served: "\<And>p. ne_loadPage env None = Fulfilled p \<Longrightarrow> p = ?page" using assms(4) unfolding journal_served_def by blast
  obtain w3 where w3: "nw_presented w3 = nw_presented w" "nw_ledger w3 = nw_ledger w"
    and page: "ne_loadPage env None = Fulfilled ?page"
    and run: "reconcile_loaded fuel env ?key (nw_ledger w3) ?page w3 = Some (Inr res, w')"
    using reconcile_cases [OF assms(1)] served by (metis sum.disc(2))
  have below: "\<forall>e\<in>set journal. ev_event_id e \<le> (if ?u = [] then retained else ev_event_id (last ?u))"
    using sorted by (rule journal_news_last)
  from reconcile_loaded_cases [OF run page] show ?thesis
  proof (elim disjE exE conjE)
    assume same: "nw_presented w' = nw_presented w3" "nw_ledger w' = nw_ledger w3"
      and res: "\<forall>res'. Inr res = Inr res' \<longrightarrow> nw_ledger w3 ?key = Some (rr_lastEventId res') \<and> rr_notificationsPresented res' = 0
        \<and> \<not> rr_baselineEstablished res' \<and> newestEventId (pg_events ?page) = rr_lastEventId res'"
    have "rr_lastEventId res = retained" using res assms(3) w3(2) by simp
    then have newest: "newestEventId (take pageSize journal) = retained" using res first(1) by metis
    have "?u = []" by (rule journal_news_none [OF sorted safe pageSize newest])
    with same res w3 assms(3) below show ?thesis by auto
  next
    assume "\<forall>res'. Inr res = Inr res' \<longrightarrow> rr_baselineEstablished res' \<and> nw_ledger w' = (nw_ledger w3)(?key \<mapsto> newestEventId (pg_events ?page))"
    with assms(2) show ?thesis by simp
  next
    fix ret events w1
    assume ret: "nw_ledger w3 ?key = Some ret" and w1: "nw_presented w1 = nw_presented w3" "nw_ledger w1 = nw_ledger w3"
      and coll: "collect_pages fuel env ret [] (pg_events ?page) (pg_next_before_event_id ?page)
         (list_ex (\<lambda>e. ev_event_id e \<le> ret) (pg_events ?page)) w3 = Some (Inr events, w1)"
      and run1: "present_unseen env ?key (nw_ledger w1) ret events w1 = (Inr res, w')"
    have eq: "ret = retained" "nw_ledger w1 ?key = Some ret" using ret assms(3) w1 w3 by auto
    obtain m where "events = take m journal" "length journal \<le> m \<or> (\<exists>e\<in>set (take m journal). ev_event_id e \<le> retained)"
      using collect_pages_journal [OF assms(4) coll [unfolded first eq(1)] pageSize] by (auto simp: list_ex_iff)
    then have "unseen_events retained events = ?u" using unseen_journal [OF sorted safe] by simp
    with present_unseen_spec [OF run1 eq(2)] eq w1 w3 below show ?thesis by (auto simp: pass_ok_def)
  qed
qed

definition journal_example :: "MessageActivityEventView list" where
  "journal_example = [notification_event 7, notification_event 6, notification_event 5]"

definition journal_env_example :: notification_env where
  "journal_env_example = \<lparr>ne_load_error = None, ne_current = (\<lambda>_. True),
     ne_loadPage = (\<lambda>cursor. Fulfilled (journal_page 1 journal_example cursor)),
     ne_notify = (\<lambda>_. Fulfilled ()), ne_save = (\<lambda>_. SaveDone)\<rparr>"

lemma journal_run:
  "nt_reconcile 3 journal_env_example notification_profile notification_world_example =
     Some (Inr \<lparr>rr_baselineEstablished = False, rr_lastEventId = 7, rr_notificationsPresented = 2\<rparr>,
       \<lparr>nw_ledger = [notification_profile \<mapsto> 7], nw_presented = [notification_alert\<lparr>in_eventId := 6, in_timelineSequence := 6\<rparr>, notification_alert],
        nw_checks = 7\<rparr>)"
proof -
  have safe: "isSafeEventId 5" "isSafeEventId 6" "isSafeEventId 7"
    by (simp_all add: isSafeEventId_def isSafeInteger_def MAX_SAFE_INTEGER_def)
  have ids: "ev_event_id (notification_event i) = i" for i by (simp add: notification_event_def)
  have pages: "ne_loadPage journal_env_example None = Fulfilled \<lparr>pg_events = [notification_event 7], pg_next_before_event_id = Some 7\<rparr>"
    "ne_loadPage journal_env_example (Some 7) = Fulfilled \<lparr>pg_events = [notification_event 6], pg_next_before_event_id = Some 6\<rparr>"
    "ne_loadPage journal_env_example (Some 6) = Fulfilled \<lparr>pg_events = [notification_event 5], pg_next_before_event_id = None\<rparr>"
    by (simp_all add: journal_env_example_def journal_page_def journal_example_def ids Let_def)
  have newest: "newestEventId [notification_event 7] = 7" by (simp add: newestEventId_def ids safe)
  have unseen: "unseen_events 5 [notification_event 7, notification_event 6, notification_event 5] = [notification_event 6, notification_event 7]"
    by (simp add: unseen_events_def latest_events_def ids safe)
  have alert: "notificationFor (notification_event 7) = Some notification_alert"
      "notificationFor (notification_event 6) = Some (notification_alert\<lparr>in_eventId := 6, in_timelineSequence := 6\<rparr>)"
    by (simp_all add: notificationFor_def notification_event_def notification_alert_def isSafeEventId_def isSafeInteger_def MAX_SAFE_INTEGER_def)
  have quiet: "ne_load_error journal_env_example = None" "ne_current journal_env_example = (\<lambda>_. True)"
      "ne_notify journal_env_example = (\<lambda>_. Fulfilled ())" "ne_save journal_env_example = (\<lambda>_. SaveDone)"
    by (simp_all add: journal_env_example_def)
  have key: "notification_profile \<noteq> []" by (simp add: notification_profile_def)
  show ?thesis
    using key
    by (simp add: nt_reconcile_def notification_profile_key nt_assertCurrent_def quiet pages
        notification_world_example_def reconcile_loaded_def newest Let_def numeral_3_eq_3 ids present_unseen_def unseen alert
        nt_saveProfile_def)
qed

theorem reconcile_complete_witness:
  "map in_eventId (alerts (journal_news 5 journal_example)) = [6, 7]"
proof -
  have "journal_served 1 journal_example journal_env_example"
    by (simp add: journal_served_def journal_env_example_def journal_example_def notification_event_def isSafeEventId_def
        isSafeInteger_def MAX_SAFE_INTEGER_def)
  moreover have "nw_ledger notification_world_example (normalizeProfileKey notification_profile) = Some 5"
    by (simp add: notification_world_example_def notification_profile_key)
  ultimately show ?thesis
    using reconcile_complete [OF journal_run, of 5 1 journal_example] by (auto simp: notification_world_example_def notification_alert_def dest!: sym [of "[_, _]"])
qed

text \<open>
  C22. Paging always ends: if the cursors the journal can name lie in a finite set, a reconciliation
  returns (with a result or an error), with one turn of the page loop per cursor and one more.
\<close>

theorem reconcile_terminates:
  assumes "finite S"
    and "\<forall>c page. ne_loadPage env c = Fulfilled page \<longrightarrow> set_option (pg_next_before_event_id page) \<subseteq> S"
    and "card S < fuel"
  shows "\<exists>r w'. nt_reconcile fuel env pk w = Some (r, w')"
proof -
  have "reconcile_loaded fuel env key ledger page w3 \<noteq> None" if "ne_loadPage env None = Fulfilled page"
    for key ledger page w3
  proof -
    have coll: "collect_pages fuel env retained [] es (pg_next_before_event_id page) reached w3 \<noteq> None" for retained es reached
      by (rule collect_pages_terminates [OF assms(1)]) (use assms(2,3) that in auto)
    show ?thesis
    proof (cases "ledger key")
      case (Some retained)
      obtain s w4 where "collect_pages fuel env retained [] (pg_events page) (pg_next_before_event_id page)
          (list_ex (\<lambda>e. ev_event_id e \<le> retained) (pg_events page)) w3 = Some (s, w4)"
        using coll by fastforce
      with Some show ?thesis by (cases s) (simp_all add: reconcile_loaded_def Let_def)
    qed (simp add: reconcile_loaded_def Let_def)
  qed
  then have "nt_reconcile fuel env pk w \<noteq> None"
    by (auto simp: nt_reconcile_def Let_def split: prod.splits bool.splits option.splits settled.splits)
  then show ?thesis by auto
qed

theorem reconcile_terminates_witness:
  "\<exists>r w'. nt_reconcile 1 notification_env_example notification_profile notification_world_example = Some (r, w')"
  by (rule reconcile_terminates [of "{}"]) (auto simp: notification_env_example_def)

text \<open>
  Opened notifications queue up without duplicates: adding a target keeps the queue free of
  duplicates and its order, and the target is in it afterwards.
\<close>

theorem enqueue_target_distinct:
  assumes "distinct queue"
  shows "distinct (enqueueMessageNotificationTarget queue target)
    \<and> set (enqueueMessageNotificationTarget queue target) = insert target (set queue)
    \<and> prefix queue (enqueueMessageNotificationTarget queue target)"
proof -
  have "list_ex (\<lambda>c. tg_profileKey c = tg_profileKey target \<and> tg_destination c = tg_destination target \<and>
      tg_messageId c = tg_messageId target) queue \<longleftrightarrow> target \<in> set queue"
    by (auto simp: list_ex_iff) (metis MessageNotificationTarget.equality old.unit.exhaust)
  then show ?thesis using assms by (auto simp: enqueueMessageNotificationTarget_def)
qed

theorem enqueue_target_distinct_witness:
  "distinct (enqueueMessageNotificationTarget [] \<lparr>tg_destination = js ''d'', tg_messageId = js ''m'', tg_profileKey = js ''p''\<rparr>)"
  using enqueue_target_distinct [of "[]"] by simp

end
