(* ===== verification/RadioRoutes.thy ===== *)
theory RadioRoutes
  imports Prelude
begin

text \<open>
  Models of \<open>lib/reticulum-interface-id.ts\<close> (interface identities and their families) and of
  \<open>lib/radio-routes.ts\<close>: the labels of the diagnostics rows and \<open>RadioRoutesController\<close>, the
  one-in-flight, generation-safe reader of the radio and routes snapshot. A suspended read is an
  element of \<open>rr_reads\<close> with the generation it was started for, a platform timer an element of
  \<open>rr_timers\<close>. The contents of a snapshot are a type parameter: the controller only passes them on.
\<close>

section \<open>Interface identities\<close>

definition hex_digit :: "nat \<Rightarrow> nat" where
  "hex_digit d = (if d < 10 then 48 + d else 87 + d)"

fun hex_digits :: "nat \<Rightarrow> jstring" where
  "hex_digits n = (if n < 16 then [hex_digit n] else hex_digits (n div 16) @ [hex_digit (n mod 16)])"

declare hex_digits.simps [simp del]

definition reticulumInterfaceIdHex :: "nat list \<Rightarrow> jstring" where
  "reticulumInterfaceIdHex interfaceId = concat (map (\<lambda>byte. js_padStart 2 48 (hex_digits byte)) interfaceId)"

definition sameReticulumInterfaceId :: "nat list \<Rightarrow> nat list \<Rightarrow> bool" where
  "sameReticulumInterfaceId left right \<longleftrightarrow> reticulumInterfaceIdHex left = reticulumInterfaceIdHex right"

definition reticulumInterfaceKind :: "nat list \<Rightarrow> nat option" where
  "reticulumInterfaceKind interfaceId =
     (case interfaceId of [] \<Rightarrow> None | kind # _ \<Rightarrow> if kind \<le> 255 then Some kind else None)"

definition reticulum_interface_kind_names :: "jstring list" where
  "reticulum_interface_kind_names =
     [js ''Loopback'', js ''TCP client'', js ''TCP server'', js ''UDP'', js ''Serial'', js ''USB Auto host'',
      js ''USB Auto device'', js ''Auto Wi-Fi'', js ''Wi-Fi peer'', js ''Local server'', js ''Local client'',
      js ''TCP server peer'', js ''Bluetooth Auto'', js ''Bluetooth peer'', js ''LoRa'', js ''KISS'',
      js ''AX.25 KISS'', js ''Pipe'', js ''RNode'', js ''Backbone server'', js ''Backbone server peer'',
      js ''Backbone client'', js ''ESP-NOW'', js ''WebSocket client'', js ''WebSocket server'',
      js ''WebSocket server peer'', js ''Wi-Fi Direct'', js ''Wi-Fi Direct peer'', js ''Wi-Fi Aware'',
      js ''Wi-Fi Aware peer'', js ''I2P'', js ''I2P peer'', js ''Weave'', js ''Weave peer'']"

definition reticulumInterfaceKindName :: "nat list \<Rightarrow> jstring" where
  "reticulumInterfaceKindName interfaceId =
     (case reticulumInterfaceKind interfaceId of
        None \<Rightarrow> js ''Unknown interface''
      | Some kind \<Rightarrow> if kind < length reticulum_interface_kind_names then reticulum_interface_kind_names ! kind
                     else js ''Interface kind '' @ nat_digits kind)"

datatype ReticulumInterfaceFamily = FamilyBluetooth | FamilyLora | FamilyTcp | FamilyOther

definition reticulumInterfaceFamily :: "nat list \<Rightarrow> ReticulumInterfaceFamily" where
  "reticulumInterfaceFamily interfaceId =
     (case reticulumInterfaceKind interfaceId of
        None \<Rightarrow> FamilyOther
      | Some kind \<Rightarrow>
          if kind \<in> set [1, 2, 11, 19, 20, 21, 23, 24, 25] then FamilyTcp
          else if kind = 12 \<or> kind = 13 then FamilyBluetooth
          else if kind = 14 then FamilyLora
          else FamilyOther)"

definition syntheticReticulumInterfaceId :: "nat \<Rightarrow> nat list" where
  "syntheticReticulumInterfaceId slot = [0, 0, 0, 0, 0, 0, 0, slot]"

section \<open>Labels\<close>

text \<open>
  \<open>Math.floor\<close> of a quotient of a non-negative safe integer by a constant; the double never reaches
  the next integer.
\<close>

definition compactDurationLabel :: "nat \<Rightarrow> jstring" where
  "compactDurationLabel milliseconds =
     (if milliseconds < 1000 then js ''now''
      else let seconds = milliseconds div 1000 in
           if seconds < 60 then nat_digits seconds @ js ''s''
           else let minutes = seconds div 60 in
                if minutes < 60 then nat_digits minutes @ js ''m''
                else let hours = minutes div 60 in
                     if hours < 48 then nat_digits hours @ js ''h''
                     else nat_digits (hours div 24) @ js ''d'')"

definition elapsedAgeLabel :: "nat option \<Rightarrow> jstring" where
  "elapsedAgeLabel milliseconds =
     (case milliseconds of None \<Rightarrow> js ''unknown'' | Some ms \<Rightarrow> compactDurationLabel ms @ js '' ago'')"

definition routeExpiryLabel :: "nat option \<Rightarrow> jstring" where
  "routeExpiryLabel milliseconds =
     (case milliseconds of None \<Rightarrow> js ''Expiry: unknown'' | Some ms \<Rightarrow> js ''Expires in '' @ compactDurationLabel ms)"

record DiagnosticLoraLastTxView =
  lt_age_ms :: "nat option"
  lt_family :: "jstring option"
  lt_outcome :: jstring
  lt_data_evidence :: "(nat list \<times> nat) option" \<comment> \<open>interface, encoded packet length\<close>

definition loraTxSummaryLabel :: "DiagnosticLoraLastTxView \<Rightarrow> jstring" where
  "loraTxSummaryLabel lastTx =
     elapsedAgeLabel (lt_age_ms lastTx) @ [32, 183, 32] @
     (case lt_family lastTx of None \<Rightarrow> js ''unknown family'' | Some f \<Rightarrow> f) @ [32, 183, 32] @
     js_replace_unit 95 32 (lt_outcome lastTx)"

definition loraDataTxEvidenceLabel :: "DiagnosticLoraLastTxView \<Rightarrow> jstring option" where
  "loraDataTxEvidenceLabel lastTx =
     (case lt_data_evidence lastTx of
        None \<Rightarrow> None
      | Some (interface_id, len) \<Rightarrow>
          Some (js ''Interface '' @ reticulumInterfaceIdHex interface_id @ [32, 183, 32] @ nat_digits len @ js '' bytes''))"

text \<open>\<open>retainedRouteFamily\<close> reads only the interface of the route.\<close>

definition retainedRouteFamily :: "nat list \<Rightarrow> ReticulumInterfaceFamily" where
  "retainedRouteFamily route_interface_id = reticulumInterfaceFamily route_interface_id"

section \<open>The controller\<close>

datatype routes_load_state = RoutesError | RoutesInactive | RoutesLoading | RoutesReady

record 'v RadioRoutesControllerState =
  rs_deviceKey :: "jstring option"
  rs_error :: "jstring option"
  rs_loadState :: routes_load_state
  rs_snapshot :: "'v option"
  rs_updatedAtMs :: "int option"

record 'v routes =
  rr_pollIntervalMs :: rat
  rr_listeners :: "nat list"
  rr_activeGeneration :: nat
  rr_cancelPoll :: "nat option"
  rr_disposed :: bool
  rr_inFlight :: bool
  rr_pendingRead :: bool
  rr_pollingActive :: bool
  rr_state :: "'v RadioRoutesControllerState"
  rr_reads :: "nat list" \<comment> \<open>generations of the reads at the device\<close>
  rr_timers :: "(nat \<times> nat) list" \<comment> \<open>timer, generation\<close>
  rr_next_timer :: nat
  rr_shown :: "(nat \<times> 'v RadioRoutesControllerState) list"

definition RADIO_ROUTES_POLL_INTERVAL_MS :: rat where "RADIO_ROUTES_POLL_INTERVAL_MS = 5000"

definition routes_new :: "delay_number option \<Rightarrow> thrown + 'v routes" where
  "routes_new interval =
     (case positive_delay (case interval of None \<Rightarrow> Finite RADIO_ROUTES_POLL_INTERVAL_MS | Some i \<Rightarrow> i) of
        None \<Rightarrow> Inl (ErrorObject (js ''radio/routes poll interval must be positive''))
      | Some ms \<Rightarrow> Inr \<lparr>rr_pollIntervalMs = ms, rr_listeners = [], rr_activeGeneration = 0, rr_cancelPoll = None,
          rr_disposed = False, rr_inFlight = False, rr_pendingRead = False, rr_pollingActive = False,
          rr_state = \<lparr>rs_deviceKey = None, rs_error = None, rs_loadState = RoutesInactive, rs_snapshot = None,
                      rs_updatedAtMs = None\<rparr>,
          rr_reads = [], rr_timers = [], rr_next_timer = 0, rr_shown = []\<rparr>)"

definition rr_accepts :: "'v routes \<Rightarrow> nat \<Rightarrow> bool" where
  "rr_accepts c g \<longleftrightarrow> \<not> rr_disposed c \<and> rr_pollingActive c \<and> g = rr_activeGeneration c"

definition rr_publish :: "'v RadioRoutesControllerState \<Rightarrow> 'v routes \<Rightarrow> 'v routes" where
  "rr_publish st c = c\<lparr>rr_state := st, rr_shown := rr_shown c @ map (\<lambda>l. (l, st)) (rr_listeners c)\<rparr>"

definition rr_clear_poll :: "'v routes \<Rightarrow> 'v routes" where
  "rr_clear_poll c =
     (case rr_cancelPoll c of
        None \<Rightarrow> c
      | Some w \<Rightarrow> c\<lparr>rr_timers := filter (\<lambda>t. fst t \<noteq> w) (rr_timers c), rr_cancelPoll := None\<rparr>)"

definition rr_replaceRun :: "'v routes \<Rightarrow> 'v routes" where
  "rr_replaceRun c = rr_clear_poll (c\<lparr>rr_activeGeneration := rr_activeGeneration c + 1\<rparr>)"

definition rr_scheduleNext :: "nat \<Rightarrow> 'v routes \<Rightarrow> 'v routes" where
  "rr_scheduleNext g c =
     (if \<not> rr_accepts c g then c
      else let c1 = rr_clear_poll c
           in c1\<lparr>rr_timers := (rr_next_timer c1, g) # rr_timers c1, rr_cancelPoll := Some (rr_next_timer c1),
                 rr_next_timer := rr_next_timer c1 + 1\<rparr>)"

definition rr_read :: "nat \<Rightarrow> 'v routes \<Rightarrow> 'v routes" where
  "rr_read g c =
     (if \<not> rr_accepts c g then c
      else if rr_inFlight c then c\<lparr>rr_pendingRead := True\<rparr>
      else c\<lparr>rr_inFlight := True, rr_reads := g # rr_reads c\<rparr>)"

definition rr_read_result :: "nat \<Rightarrow> 'v settled \<Rightarrow> int \<Rightarrow> 'v routes \<Rightarrow> 'v routes" where
  "rr_read_result g result now c =
     (if \<not> rr_accepts c g then c
      else case result of
        Fulfilled snapshot \<Rightarrow>
          rr_publish \<lparr>rs_deviceKey = rs_deviceKey (rr_state c), rs_error = None, rs_loadState = RoutesReady,
                      rs_snapshot = Some snapshot, rs_updatedAtMs = Some now\<rparr> c
      | Rejected e \<Rightarrow>
          rr_publish ((rr_state c)\<lparr>rs_error := Some (errorText e),
                      rs_loadState := (if rs_snapshot (rr_state c) = None then RoutesError else RoutesReady)\<rparr>) c)"

definition rr_read_finally :: "nat \<Rightarrow> 'v routes \<Rightarrow> 'v routes" where
  "rr_read_finally g c =
     (let c1 = c\<lparr>rr_inFlight := False\<rparr>
      in if rr_pendingRead c1 \<and> rr_pollingActive c1 \<and> \<not> rr_disposed c1
         then rr_read (rr_activeGeneration c1) (c1\<lparr>rr_pendingRead := False\<rparr>)
         else if rr_accepts c1 g then rr_scheduleNext g c1 else c1)"

definition rr_read_settles :: "nat \<Rightarrow> 'v settled \<Rightarrow> int \<Rightarrow> 'v routes \<Rightarrow> 'v routes" where
  "rr_read_settles g result now c =
     rr_read_finally g (rr_read_result g result now (c\<lparr>rr_reads := remove1 g (rr_reads c)\<rparr>))"

definition rr_timer_fires :: "nat \<Rightarrow> nat \<Rightarrow> 'v routes \<Rightarrow> 'v routes" where
  "rr_timer_fires w g c =
     rr_read g (c\<lparr>rr_timers := filter (\<lambda>t. fst t \<noteq> w) (rr_timers c), rr_cancelPoll := None\<rparr>)"

definition rr_subscribe :: "nat \<Rightarrow> 'v routes \<Rightarrow> 'v routes" where
  "rr_subscribe l c =
     (if rr_disposed c then c
      else c\<lparr>rr_listeners := List.insert l (rr_listeners c), rr_shown := rr_shown c @ [(l, rr_state c)]\<rparr>)"

definition rr_unsubscribe :: "nat \<Rightarrow> 'v routes \<Rightarrow> 'v routes" where
  "rr_unsubscribe l c = c\<lparr>rr_listeners := removeAll l (rr_listeners c)\<rparr>"

definition rr_activate :: "jstring \<Rightarrow> 'v routes \<Rightarrow> 'v routes" where
  "rr_activate deviceKey c =
     (if rr_disposed c then c
      else if rr_pollingActive c \<and> rs_deviceKey (rr_state c) = Some deviceKey then c
      else let sameDevice = (rs_deviceKey (rr_state c) = Some deviceKey);
               c1 = (rr_replaceRun c)\<lparr>rr_pollingActive := True\<rparr>;
               c2 = rr_publish \<lparr>rs_deviceKey = Some deviceKey, rs_error = None,
                      rs_loadState = (if sameDevice \<and> rs_snapshot (rr_state c1) \<noteq> None then RoutesReady else RoutesLoading),
                      rs_snapshot = (if sameDevice then rs_snapshot (rr_state c1) else None),
                      rs_updatedAtMs = (if sameDevice then rs_updatedAtMs (rr_state c1) else None)\<rparr> c1
           in rr_read (rr_activeGeneration c2) c2)"

definition rr_suspend :: "'v routes \<Rightarrow> 'v routes" where
  "rr_suspend c =
     (if rr_disposed c \<or> \<not> rr_pollingActive c then c
      else rr_replaceRun (c\<lparr>rr_pollingActive := False, rr_pendingRead := False\<rparr>))"

definition rr_refresh :: "'v routes \<Rightarrow> 'v routes" where
  "rr_refresh c =
     (if rr_disposed c \<or> \<not> rr_pollingActive c \<or> rs_deviceKey (rr_state c) = None then c
      else rr_read (rr_activeGeneration c) c)"

definition rr_dispose :: "'v routes \<Rightarrow> 'v routes" where
  "rr_dispose c =
     (if rr_disposed c then c
      else (rr_replaceRun (c\<lparr>rr_disposed := True, rr_pollingActive := False, rr_pendingRead := False\<rparr>))
             \<lparr>rr_listeners := []\<rparr>)"

inductive routes_step :: "'v routes \<Rightarrow> 'v routes \<Rightarrow> bool" where
  rr_call_subscribe: "routes_step c (rr_subscribe l c)"
| rr_call_unsubscribe: "routes_step c (rr_unsubscribe l c)"
| rr_call_activate: "routes_step c (rr_activate k c)"
| rr_call_suspend: "routes_step c (rr_suspend c)"
| rr_call_refresh: "routes_step c (rr_refresh c)"
| rr_call_dispose: "routes_step c (rr_dispose c)"
| rr_read_done: "g \<in> set (rr_reads c) \<Longrightarrow> routes_step c (rr_read_settles g result now c)"
| rr_timer: "(w, g) \<in> set (rr_timers c) \<Longrightarrow> routes_step c (rr_timer_fires w g c)"

section \<open>Invariant\<close>

text \<open>
  One read at most; at most one timer, known to \<open>cancelPoll\<close> and of the present generation, and only
  while polling; and polling is never orphaned: it has a timer, or a read that is either of the
  present generation or will be followed by a pending one.
\<close>

definition rr_armed :: "nat option \<Rightarrow> nat \<Rightarrow> (nat \<times> nat) list" where
  "rr_armed cancel g = (case cancel of None \<Rightarrow> [] | Some w \<Rightarrow> [(w, g)])"

lemma rr_armed_simps [simp]: "rr_armed None g = []" "rr_armed (Some w) g = [(w, g)]"
  by (simp_all add: rr_armed_def)

definition routes_inv :: "'v routes \<Rightarrow> bool" where
  "routes_inv c \<longleftrightarrow>
     length (rr_reads c) = (if rr_inFlight c then 1 else 0) \<and>
     rr_timers c = rr_armed (rr_cancelPoll c) (rr_activeGeneration c) \<and>
     (rr_cancelPoll c \<noteq> None \<longrightarrow> rr_pollingActive c) \<and>
     (rr_disposed c \<longrightarrow> \<not> rr_pollingActive c) \<and>
     (rr_pollingActive c \<longrightarrow> rr_cancelPoll c \<noteq> None \<or>
        (rr_inFlight c \<and> (rr_reads c = [rr_activeGeneration c] \<or> rr_pendingRead c)))"

lemma rr_publish_frame [simp]:
  "rr_reads (rr_publish st c) = rr_reads c" "rr_inFlight (rr_publish st c) = rr_inFlight c"
  "rr_timers (rr_publish st c) = rr_timers c" "rr_cancelPoll (rr_publish st c) = rr_cancelPoll c"
  "rr_activeGeneration (rr_publish st c) = rr_activeGeneration c" "rr_pollingActive (rr_publish st c) = rr_pollingActive c"
  "rr_disposed (rr_publish st c) = rr_disposed c" "rr_pendingRead (rr_publish st c) = rr_pendingRead c"
  "rr_next_timer (rr_publish st c) = rr_next_timer c" "rr_listeners (rr_publish st c) = rr_listeners c"
  "rr_state (rr_publish st c) = st"
  by (simp_all add: rr_publish_def)

lemma rr_clear_poll_frame [simp]:
  "rr_reads (rr_clear_poll c) = rr_reads c" "rr_inFlight (rr_clear_poll c) = rr_inFlight c"
  "rr_cancelPoll (rr_clear_poll c) = None"
  "rr_activeGeneration (rr_clear_poll c) = rr_activeGeneration c" "rr_pollingActive (rr_clear_poll c) = rr_pollingActive c"
  "rr_disposed (rr_clear_poll c) = rr_disposed c" "rr_pendingRead (rr_clear_poll c) = rr_pendingRead c"
  "rr_listeners (rr_clear_poll c) = rr_listeners c" "rr_state (rr_clear_poll c) = rr_state c"
  "rr_shown (rr_clear_poll c) = rr_shown c"
  by (simp_all add: rr_clear_poll_def split: option.splits)

lemma rr_clear_poll_timers:
  "rr_timers c = rr_armed (rr_cancelPoll c) g \<Longrightarrow> rr_timers (rr_clear_poll c) = []"
  by (simp add: rr_clear_poll_def split: option.splits)

lemma rr_publish_inv [simp]: "routes_inv (rr_publish st c) = routes_inv c"
  by (simp add: routes_inv_def)

lemma rr_read_result_frame:
  "\<exists>st. rr_read_result g result now c = rr_publish st c \<or> rr_read_result g result now c = c"
  by (auto simp: rr_read_result_def split: settled.splits)

lemma rr_read_settles_inv:
  assumes "routes_inv c" and "g \<in> set (rr_reads c)"
  shows "routes_inv (rr_read_settles g result now c)"
proof -
  have reads: "rr_reads c = [g]" "rr_inFlight c"
    using assms by (cases "rr_reads c"; auto simp: routes_inv_def split: if_splits)+
  let ?c = "c\<lparr>rr_reads := remove1 g (rr_reads c)\<rparr>"
  define d where "d = rr_read_result g result now ?c"
  have d: "rr_reads d = []" "rr_timers d = rr_timers c" "rr_cancelPoll d = rr_cancelPoll c"
    "rr_activeGeneration d = rr_activeGeneration c" "rr_pollingActive d = rr_pollingActive c"
    "rr_disposed d = rr_disposed c" "rr_pendingRead d = rr_pendingRead c"
    using rr_read_result_frame [of g result now ?c] reads by (auto simp: d_def)
  have clear: "rr_timers (rr_clear_poll (d\<lparr>rr_inFlight := False\<rparr>)) = []"
    by (rule rr_clear_poll_timers [of _ "rr_activeGeneration c"]) (use assms(1) d in \<open>simp add: routes_inv_def\<close>)
  have "routes_inv (rr_read_finally g d)"
  proof (cases "rr_pendingRead c \<and> rr_pollingActive c")
    case True
    then show ?thesis
      using assms(1) d by (simp add: routes_inv_def rr_read_finally_def rr_read_def rr_accepts_def Let_def)
  next
    case False
    then show ?thesis
      using assms(1) d reads clear
      by (auto simp: routes_inv_def rr_read_finally_def rr_scheduleNext_def rr_accepts_def Let_def)
  qed
  then show ?thesis by (simp add: rr_read_settles_def d_def)
qed

lemma rr_replaceRun_timers:
  "rr_timers c = rr_armed (rr_cancelPoll c) g \<Longrightarrow> rr_timers (rr_replaceRun c) = []"
  by (simp add: rr_replaceRun_def rr_clear_poll_timers)

lemma rr_replaceRun_frame [simp]:
  "rr_reads (rr_replaceRun c) = rr_reads c" "rr_inFlight (rr_replaceRun c) = rr_inFlight c"
  "rr_cancelPoll (rr_replaceRun c) = None" "rr_activeGeneration (rr_replaceRun c) = rr_activeGeneration c + 1"
  "rr_pollingActive (rr_replaceRun c) = rr_pollingActive c" "rr_disposed (rr_replaceRun c) = rr_disposed c"
  "rr_pendingRead (rr_replaceRun c) = rr_pendingRead c" "rr_listeners (rr_replaceRun c) = rr_listeners c"
  "rr_state (rr_replaceRun c) = rr_state c" "rr_shown (rr_replaceRun c) = rr_shown c"
  by (simp_all add: rr_replaceRun_def)

lemma routes_step_inv: "routes_step c c' \<Longrightarrow> routes_inv c \<Longrightarrow> routes_inv c'"
proof (induction rule: routes_step.induct)
  case (rr_read_done g c result now)
  then show ?case by (intro rr_read_settles_inv)
next
  case (rr_call_activate c k)
  have "rr_timers (rr_replaceRun c) = []"
    using rr_call_activate rr_replaceRun_timers [of c] by (simp add: routes_inv_def)
  with rr_call_activate show ?case
    by (auto simp: routes_inv_def rr_activate_def rr_read_def rr_accepts_def Let_def)
next
  case (rr_call_suspend c)
  then show ?case
    using rr_replaceRun_timers [of "c\<lparr>rr_pollingActive := False, rr_pendingRead := False\<rparr>"]
    by (auto simp: routes_inv_def rr_suspend_def)
next
  case (rr_call_dispose c)
  then show ?case
    using rr_replaceRun_timers [of "c\<lparr>rr_disposed := True, rr_pollingActive := False, rr_pendingRead := False\<rparr>"]
    by (auto simp: routes_inv_def rr_dispose_def)
next
  case (rr_timer w g c)
  then show ?case
    by (cases "rr_cancelPoll c") (auto simp: routes_inv_def rr_timer_fires_def rr_read_def rr_accepts_def)
qed (auto simp: routes_inv_def rr_subscribe_def rr_unsubscribe_def rr_refresh_def rr_read_def rr_accepts_def)

interpretation routes_sys: step_invariant routes_step routes_inv
  by unfold_locales (rule routes_step_inv)

lemma routes_new_inv: "routes_new i = Inr c \<Longrightarrow> routes_inv c"
  by (auto simp: routes_new_def routes_inv_def split: option.splits)

section \<open>Generations and disposal\<close>

definition routes_closed :: "'v routes \<Rightarrow> bool" where
  "routes_closed c \<longleftrightarrow> rr_disposed c \<and> rr_listeners c = []"

lemma rr_read_other [simp]:
  "rr_activeGeneration (rr_read g c) = rr_activeGeneration c" "rr_shown (rr_read g c) = rr_shown c"
  "rr_state (rr_read g c) = rr_state c" "rr_disposed (rr_read g c) = rr_disposed c"
  "rr_listeners (rr_read g c) = rr_listeners c"
  by (simp_all add: rr_read_def)

lemma rr_scheduleNext_other [simp]:
  "rr_activeGeneration (rr_scheduleNext g c) = rr_activeGeneration c" "rr_shown (rr_scheduleNext g c) = rr_shown c"
  "rr_state (rr_scheduleNext g c) = rr_state c" "rr_disposed (rr_scheduleNext g c) = rr_disposed c"
  "rr_listeners (rr_scheduleNext g c) = rr_listeners c"
  by (simp_all add: rr_scheduleNext_def Let_def)

lemma rr_read_finally_other [simp]:
  "rr_activeGeneration (rr_read_finally g c) = rr_activeGeneration c" "rr_shown (rr_read_finally g c) = rr_shown c"
  "rr_state (rr_read_finally g c) = rr_state c" "rr_disposed (rr_read_finally g c) = rr_disposed c"
  "rr_listeners (rr_read_finally g c) = rr_listeners c"
  by (simp_all add: rr_read_finally_def Let_def)

lemma rr_read_settles_other [simp]:
  "rr_activeGeneration (rr_read_settles g r now c) = rr_activeGeneration c"
  "rr_disposed (rr_read_settles g r now c) = rr_disposed c"
  "rr_listeners (rr_read_settles g r now c) = rr_listeners c"
  "\<not> rr_accepts c g \<Longrightarrow> rr_shown (rr_read_settles g r now c) = rr_shown c \<and> rr_state (rr_read_settles g r now c) = rr_state c"
  by (simp_all add: rr_read_settles_def rr_read_result_def rr_accepts_def split: settled.splits)

lemma routes_gen_mono: "routes_step c c' \<Longrightarrow> rr_activeGeneration c \<le> rr_activeGeneration c'"
  by (induction rule: routes_step.induct)
    (simp_all add: rr_subscribe_def rr_unsubscribe_def rr_activate_def rr_suspend_def rr_refresh_def rr_dispose_def
      rr_timer_fires_def Let_def)

lemma routes_closed_step: "routes_step c c' \<Longrightarrow> routes_closed c \<Longrightarrow> routes_closed c' \<and> rr_shown c' = rr_shown c"
  by (induction rule: routes_step.induct)
    (simp_all add: routes_closed_def rr_subscribe_def rr_unsubscribe_def rr_activate_def rr_suspend_def rr_refresh_def
      rr_dispose_def rr_timer_fires_def rr_accepts_def Let_def)

interpretation routes: generation_owner routes_step rr_activeGeneration rr_accepts routes_closed rr_shown
  by unfold_locales
    (erule routes_gen_mono, simp add: rr_accepts_def, erule (1) routes_closed_step,
     simp add: rr_accepts_def routes_closed_def)

section \<open>Bytes in hexadecimal\<close>

lemma hex_digit_inj: "a < 16 \<Longrightarrow> b < 16 \<Longrightarrow> hex_digit a = hex_digit b \<Longrightarrow> a = b"
  by (auto simp: hex_digit_def split: if_splits)

lemma hex_byte: "b < 256 \<Longrightarrow> js_padStart 2 48 (hex_digits b) = [hex_digit (b div 16), hex_digit (b mod 16)]"
  by (cases "b < 16") (auto simp: hex_digits.simps [of b] hex_digits.simps [of "b div 16"] js_padStart_def hex_digit_def)

lemma hex_id_inj:
  "\<lbrakk>\<forall>b\<in>set xs. b < 256; \<forall>b\<in>set ys. b < 256; reticulumInterfaceIdHex xs = reticulumInterfaceIdHex ys\<rbrakk> \<Longrightarrow> xs = ys"
proof (induction xs arbitrary: ys)
  case Nil
  then show ?case by (cases ys) (auto simp: reticulumInterfaceIdHex_def hex_byte)
next
  case (Cons x xs)
  then obtain y zs where ys: "ys = y # zs" by (cases ys) (auto simp: reticulumInterfaceIdHex_def hex_byte)
  have lt: "x < 256" "y < 256" using Cons.prems ys by simp_all
  have eq: "[hex_digit (x div 16), hex_digit (x mod 16)] @ reticulumInterfaceIdHex xs =
      [hex_digit (y div 16), hex_digit (y mod 16)] @ reticulumInterfaceIdHex zs"
    using Cons.prems(3) lt ys by (simp add: reticulumInterfaceIdHex_def hex_byte)
  have "x div 16 = y div 16" by (rule hex_digit_inj) (use lt eq in auto)
  moreover have "x mod 16 = y mod 16" by (rule hex_digit_inj) (use eq in auto)
  ultimately have "x = y" using div_mult_mod_eq [of x 16] div_mult_mod_eq [of y 16] by linarith
  moreover have "xs = zs" by (rule Cons.IH) (use Cons.prems ys eq in auto)
  ultimately show ?case using ys by simp
qed

section \<open>Properties\<close>

text \<open>
  Radio and route polling never overlaps and never dies: in every reachable state at most one read
  is at the device and at most one timer is armed; while polling is active there is a timer, or a read
  whose end arms one or starts the next read; a suspended or disposed controller has no timer.
\<close>

theorem routes_one_read_live:
  assumes "routes_new i = Inr c0" and "routes_step\<^sup>*\<^sup>* c0 c"
  shows "length (rr_reads c) = (if rr_inFlight c then 1 else 0) \<and> length (rr_timers c) \<le> 1
    \<and> (rr_pollingActive c \<longrightarrow> rr_timers c \<noteq> [] \<or> rr_reads c = [rr_activeGeneration c]
         \<or> (rr_reads c \<noteq> [] \<and> rr_pendingRead c))
    \<and> (\<not> rr_pollingActive c \<longrightarrow> rr_timers c = [])"
proof -
  have inv: "routes_inv c" using routes_sys.reach_inv [OF assms(2)] routes_new_inv [OF assms(1)] by blast
  then show ?thesis by (cases "rr_cancelPoll c") (auto simp: routes_inv_def split: if_splits)
qed

definition routes_example :: "nat routes" where
  "routes_example = \<lparr>rr_pollIntervalMs = 5000, rr_listeners = [], rr_activeGeneration = 0, rr_cancelPoll = None,
     rr_disposed = False, rr_inFlight = False, rr_pendingRead = False, rr_pollingActive = False,
     rr_state = \<lparr>rs_deviceKey = None, rs_error = None, rs_loadState = RoutesInactive, rs_snapshot = None,
                 rs_updatedAtMs = None\<rparr>,
     rr_reads = [], rr_timers = [], rr_next_timer = 0, rr_shown = []\<rparr>"

lemma routes_example_new: "routes_new None = Inr routes_example"
  by (simp add: routes_new_def routes_example_def RADIO_ROUTES_POLL_INTERVAL_MS_def)

theorem routes_one_read_live_witness:
  "length (rr_reads (rr_activate (js ''a'') routes_example)) = 1
   \<and> length (rr_timers (rr_activate (js ''a'') routes_example)) \<le> 1"
proof -
  have "routes_step\<^sup>*\<^sup>* routes_example (rr_activate (js ''a'') routes_example)"
    by (rule r_into_rtranclp) (rule routes_step.rr_call_activate)
  from routes_one_read_live [OF routes_example_new this] show ?thesis
    by (simp add: rr_activate_def routes_example_def rr_replaceRun_def rr_clear_poll_def rr_publish_def rr_read_def
        rr_accepts_def Let_def)
qed

text \<open>
  A snapshot of another appliance is never shown: after \<open>suspend\<close>, or after \<open>activate\<close> for a
  different device key, a read that was under way changes nothing the user sees when it settles, in any
  later state.
\<close>

theorem routes_switch_detaches:
  assumes "c1 = rr_suspend c \<and> rr_pollingActive c \<or> c1 = rr_activate k c \<and> rs_deviceKey (rr_state c) \<noteq> Some k"
    and "\<not> rr_disposed c" and "g \<le> rr_activeGeneration c" and "routes_step\<^sup>*\<^sup>* c1 c2"
  shows "rr_state (rr_read_settles g result now c2) = rr_state c2
    \<and> rr_shown (rr_read_settles g result now c2) = rr_shown c2"
proof -
  have "rr_activeGeneration c1 = rr_activeGeneration c + 1"
    using assms(1,2) by (auto simp: rr_suspend_def rr_activate_def Let_def)
  then have "\<not> rr_accepts c2 g" using routes.superseded_forever [OF assms(4)] assms(3) by simp
  then show ?thesis by simp
qed

theorem routes_switch_detaches_witness:
  "rr_state (rr_read_settles 1 (Fulfilled 9) 0 (rr_activate (js ''b'') (rr_activate (js ''a'') routes_example)))
     = rr_state (rr_activate (js ''b'') (rr_activate (js ''a'') routes_example))"
proof -
  let ?c = "rr_activate (js ''a'') routes_example"
  have "\<not> rr_disposed ?c" "1 \<le> rr_activeGeneration ?c" "rs_deviceKey (rr_state ?c) \<noteq> Some (js ''b'')"
    by (simp_all add: rr_activate_def routes_example_def Let_def rr_replaceRun_def rr_clear_poll_def)
  then show ?thesis
    using routes_switch_detaches [of "rr_activate (js ''b'') ?c" ?c "js ''b''" 1 "rr_activate (js ''b'') ?c"] by blast
qed

text \<open>
  Interface identities are compared exactly: on identities made of bytes, two are the same if and
  only if their bytes are equal.
\<close>

theorem interface_id_exact:
  assumes "\<forall>b\<in>set left. b < 256" and "\<forall>b\<in>set right. b < 256"
  shows "sameReticulumInterfaceId left right \<longleftrightarrow> left = right"
  using hex_id_inj [OF assms] by (auto simp: sameReticulumInterfaceId_def)

theorem interface_id_exact_witness:
  "\<not> sameReticulumInterfaceId (syntheticReticulumInterfaceId 1) (syntheticReticulumInterfaceId 16)"
proof -
  have "\<forall>b\<in>set (syntheticReticulumInterfaceId 1). b < 256" "\<forall>b\<in>set (syntheticReticulumInterfaceId 16). b < 256"
    by (simp_all add: syntheticReticulumInterfaceId_def)
  from interface_id_exact [OF this] show ?thesis by (simp add: syntheticReticulumInterfaceId_def)
qed

end
