(* ===== verification/ReticulumProbe.thy ===== *)
theory ReticulumProbe
  imports Prelude
begin

text \<open>
  Model of \<open>lib/reticulum-probe.ts\<close>: \<open>ReticulumProbeController\<close>, which owns one bounded path-and-proof
  measurement. Methods are split at their awaits; a suspended device request or a platform timer is an
  element of \<open>pb_tasks\<close> with the generation it belongs to. The clock is an argument of every function
  that reads it. The result of a successful probe is a type parameter, passed on unread.
\<close>

section \<open>Data\<close>

record ReticulumProbeStartRequest =
  ps_destination :: jstring
  ps_idempotency_key :: jstring

datatype ReticulumProbePhase = PathLookup | AwaitingDispatch | AwaitingProof
datatype ReticulumProbeFailure = IdentityUnavailable | NoPath | DispatchFailed | ProbeTimeout | ProbeInternal
datatype ReticulumProbeStartOutcome = ProbeAccepted | ProbeReplayed

datatype 'v ReticulumProbePollResponse =
  ProbePollPending ReticulumProbePhase | ProbePollSucceeded 'v | ProbePollFailed ReticulumProbeFailure

record AcceptedProbe =
  ap_destination :: jstring
  ap_id :: jstring
  ap_outcome :: ReticulumProbeStartOutcome
  ap_phase :: "ReticulumProbePhase option"
  ap_request :: ReticulumProbeStartRequest

datatype 'v ReticulumProbeState =
  ProbeIdle
| ProbeInputError jstring jstring \<comment> \<open>destination, error\<close>
| ProbeStarting ReticulumProbeStartRequest
| ProbeStartError jstring ReticulumProbeStartRequest
| ProbePollError AcceptedProbe jstring
| ProbePending AcceptedProbe
| ProbeTimedOut AcceptedProbe
| ProbeSucceeded AcceptedProbe 'v
| ProbeFailed AcceptedProbe ReticulumProbeFailure

datatype probe_task =
  PbStarting nat ReticulumProbeStartRequest \<comment> \<open>generation, request at the device\<close>
| PbTimer nat nat AcceptedProbe rat \<comment> \<open>timer, generation, accepted probe, deadline\<close>
| PbPolling nat AcceptedProbe rat \<comment> \<open>generation, accepted probe, deadline\<close>

record 'v probe =
  pb_pollIntervalMs :: rat
  pb_presentationTimeoutMs :: rat
  pb_listeners :: "nat list"
  pb_cancelWait :: "nat option"
  pb_disposed :: bool
  pb_generation :: nat
  pb_state :: "'v ReticulumProbeState"
  pb_tasks :: "probe_task list"
  pb_next_timer :: nat
  pb_shown :: "(nat \<times> 'v ReticulumProbeState) list"

definition RETICULUM_PROBE_POLL_INTERVAL_MS :: rat where "RETICULUM_PROBE_POLL_INTERVAL_MS = 750"
definition RETICULUM_PROBE_PRESENTATION_TIMEOUT_MS :: rat where "RETICULUM_PROBE_PRESENTATION_TIMEOUT_MS = 240000"

section \<open>Operations\<close>

definition probe_inputError :: "jstring \<Rightarrow> jstring option" where
  "probe_inputError destination =
     (if hex32 destination then None else Some (js ''Probe destination must be exactly 32 hexadecimal characters''))"

definition probe_new :: "delay_number option \<Rightarrow> delay_number option \<Rightarrow> thrown + 'v probe" where
  "probe_new interval timeout =
     (case positive_delay (case interval of None \<Rightarrow> Finite RETICULUM_PROBE_POLL_INTERVAL_MS | Some i \<Rightarrow> i) of
        None \<Rightarrow> Inl (ErrorObject (js ''Reticulum probe poll interval must be positive''))
      | Some pollInterval \<Rightarrow>
        (case positive_delay (case timeout of None \<Rightarrow> Finite RETICULUM_PROBE_PRESENTATION_TIMEOUT_MS | Some i \<Rightarrow> i) of
           None \<Rightarrow> Inl (ErrorObject (js ''Reticulum probe presentation timeout must be positive''))
         | Some presentationTimeout \<Rightarrow>
             Inr \<lparr>pb_pollIntervalMs = pollInterval, pb_presentationTimeoutMs = presentationTimeout, pb_listeners = [],
                  pb_cancelWait = None, pb_disposed = False, pb_generation = 0, pb_state = ProbeIdle, pb_tasks = [],
                  pb_next_timer = 0, pb_shown = []\<rparr>))"

definition pb_isCurrent :: "'v probe \<Rightarrow> nat \<Rightarrow> bool" where
  "pb_isCurrent c g \<longleftrightarrow> \<not> pb_disposed c \<and> g = pb_generation c"

definition pb_publish :: "'v ReticulumProbeState \<Rightarrow> 'v probe \<Rightarrow> 'v probe" where
  "pb_publish st c = c\<lparr>pb_state := st, pb_shown := pb_shown c @ map (\<lambda>l. (l, st)) (pb_listeners c)\<rparr>"

fun pb_is_timer :: "nat \<Rightarrow> probe_task \<Rightarrow> bool" where
  "pb_is_timer w (PbTimer w' g a d) = (w = w')"
| "pb_is_timer w _ = False"

definition pb_replaceRun :: "'v probe \<Rightarrow> 'v probe" where
  "pb_replaceRun c =
     (let c1 = c\<lparr>pb_generation := pb_generation c + 1\<rparr>
      in case pb_cancelWait c1 of
           None \<Rightarrow> c1
         | Some w \<Rightarrow> c1\<lparr>pb_tasks := filter (\<lambda>t. \<not> pb_is_timer w t) (pb_tasks c1), pb_cancelWait := None\<rparr>)"

definition pb_add_task :: "probe_task \<Rightarrow> 'v probe \<Rightarrow> 'v probe" where
  "pb_add_task t c = c\<lparr>pb_tasks := pb_tasks c @ [t]\<rparr>"

definition pb_drop_task :: "probe_task \<Rightarrow> 'v probe \<Rightarrow> 'v probe" where
  "pb_drop_task t c = c\<lparr>pb_tasks := remove1 t (pb_tasks c)\<rparr>"

fun pb_isRunning :: "'v ReticulumProbeState \<Rightarrow> bool" where
  "pb_isRunning (ProbeStarting r) = True"
| "pb_isRunning (ProbePending a) = True"
| "pb_isRunning _ = False"

text \<open>\<open>hasRetainedPoll\<close>, with the accepted probe of the state.\<close>

fun pb_retainedPoll :: "'v ReticulumProbeState \<Rightarrow> AcceptedProbe option" where
  "pb_retainedPoll (ProbeTimedOut a) = Some a"
| "pb_retainedPoll (ProbePollError a e) = Some a"
| "pb_retainedPoll _ = None"

fun pb_retainedStart :: "'v ReticulumProbeState \<Rightarrow> jstring \<Rightarrow> ReticulumProbeStartRequest option" where
  "pb_retainedStart (ProbeStartError e r) destination = (if ps_destination r = destination then Some r else None)"
| "pb_retainedStart _ destination = None"

definition pb_schedulePoll :: "AcceptedProbe \<Rightarrow> nat \<Rightarrow> rat \<Rightarrow> 'v probe \<Rightarrow> 'v probe" where
  "pb_schedulePoll accepted g deadline c =
     (if \<not> pb_isCurrent c g then c
      else pb_add_task (PbTimer (pb_next_timer c) g accepted deadline)
             (c\<lparr>pb_cancelWait := Some (pb_next_timer c), pb_next_timer := pb_next_timer c + 1\<rparr>))"

definition pb_poll :: "AcceptedProbe \<Rightarrow> nat \<Rightarrow> rat \<Rightarrow> rat \<Rightarrow> 'v probe \<Rightarrow> 'v probe" where
  "pb_poll accepted g deadline now c =
     (if \<not> pb_isCurrent c g then c
      else if now \<ge> deadline then pb_publish (ProbeTimedOut accepted) c
      else pb_add_task (PbPolling g accepted deadline) c)"

definition pb_poll_resume :: "nat \<Rightarrow> AcceptedProbe \<Rightarrow> rat \<Rightarrow> 'v ReticulumProbePollResponse settled \<Rightarrow> 'v probe \<Rightarrow> 'v probe" where
  "pb_poll_resume g accepted deadline response c =
     (case response of
        Rejected e \<Rightarrow> if pb_isCurrent c g then pb_publish (ProbePollError accepted (errorText e)) c else c
      | Fulfilled r \<Rightarrow>
          if \<not> pb_isCurrent c g then c
          else case r of
            ProbePollPending phase \<Rightarrow>
              (let pending = accepted\<lparr>ap_phase := Some phase\<rparr>
               in pb_schedulePoll pending g deadline (pb_publish (ProbePending pending) c))
          | ProbePollSucceeded result \<Rightarrow> pb_publish (ProbeSucceeded accepted result) c
          | ProbePollFailed failure \<Rightarrow> pb_publish (ProbeFailed accepted failure) c)"

definition pb_timer_fires :: "nat \<Rightarrow> nat \<Rightarrow> AcceptedProbe \<Rightarrow> rat \<Rightarrow> rat \<Rightarrow> 'v probe \<Rightarrow> 'v probe" where
  "pb_timer_fires w g accepted deadline now c =
     pb_poll accepted g deadline now
       (c\<lparr>pb_tasks := filter (\<lambda>t. \<not> pb_is_timer w t) (pb_tasks c), pb_cancelWait := None\<rparr>)"

text \<open>\<open>now1\<close> and \<open>now2\<close> are the clock when the deadline is set and when \<open>poll\<close> reads it.\<close>

definition pb_resumePolling :: "AcceptedProbe \<Rightarrow> rat \<Rightarrow> rat \<Rightarrow> 'v probe \<Rightarrow> 'v probe" where
  "pb_resumePolling accepted now1 now2 c =
     (let c1 = pb_replaceRun c; c2 = pb_publish (ProbePending accepted) c1
      in pb_poll accepted (pb_generation c2) (now1 + pb_presentationTimeoutMs c2) now2 c2)"

definition pb_start :: "ReticulumProbeStartRequest \<Rightarrow> 'v probe \<Rightarrow> 'v probe" where
  "pb_start request c =
     (let c1 = pb_replaceRun c
      in pb_add_task (PbStarting (pb_generation c1) request) (pb_publish (ProbeStarting request) c1))"

definition pb_start_resume :: "nat \<Rightarrow> ReticulumProbeStartRequest \<Rightarrow> (jstring \<times> ReticulumProbeStartOutcome) settled
    \<Rightarrow> rat \<Rightarrow> 'v probe \<Rightarrow> 'v probe" where
  "pb_start_resume g request response now c =
     (case response of
        Rejected e \<Rightarrow> if pb_isCurrent c g then pb_publish (ProbeStartError (errorText e) request) c else c
      | Fulfilled (i, outcome) \<Rightarrow>
          if \<not> pb_isCurrent c g then c
          else let accepted = \<lparr>ap_destination = ps_destination request, ap_id = i, ap_outcome = outcome,
                               ap_phase = None, ap_request = request\<rparr>;
                   c1 = pb_publish (ProbePending accepted) c
               in pb_schedulePoll accepted g (now + pb_presentationTimeoutMs c1) c1)"

text \<open>\<open>key\<close> is what \<open>createIdempotencyKey\<close> returned or threw, if it is called.\<close>

definition measure_probe :: "jstring \<Rightarrow> jstring settled \<Rightarrow> rat \<Rightarrow> rat \<Rightarrow> 'v probe \<Rightarrow> 'v probe" where
  "measure_probe destination key now1 now2 c =
     (if pb_disposed c \<or> pb_isRunning (pb_state c) then c
      else let normalized = js_lower (js_trim destination)
           in case probe_inputError normalized of
                Some e \<Rightarrow> pb_publish (ProbeInputError normalized e) (pb_replaceRun c)
              | None \<Rightarrow>
                (case pb_retainedPoll (pb_state c) of
                   Some accepted \<Rightarrow>
                     if ap_destination accepted = normalized then pb_resumePolling accepted now1 now2 c else c
                 | None \<Rightarrow>
                   (case pb_retainedStart (pb_state c) normalized of
                      Some request \<Rightarrow> pb_start request c
                    | None \<Rightarrow>
                      (case key of
                         Rejected e \<Rightarrow>
                           pb_publish (ProbeInputError normalized
                             (js ''Probe request identity could not be created: '' @ errorText e)) (pb_replaceRun c)
                       | Fulfilled k \<Rightarrow>
                           let idempotencyKey = js_lower k
                           in if \<not> hex32 idempotencyKey
                              then pb_publish (ProbeInputError normalized
                                     (js ''Probe request identity could not be created'')) (pb_replaceRun c)
                              else pb_start \<lparr>ps_destination = normalized, ps_idempotency_key = idempotencyKey\<rparr> c))))"

definition pb_subscribe :: "nat \<Rightarrow> 'v probe \<Rightarrow> 'v probe" where
  "pb_subscribe l c =
     (if pb_disposed c then c
      else c\<lparr>pb_listeners := List.insert l (pb_listeners c), pb_shown := pb_shown c @ [(l, pb_state c)]\<rparr>)"

definition pb_unsubscribe :: "nat \<Rightarrow> 'v probe \<Rightarrow> 'v probe" where
  "pb_unsubscribe l c = c\<lparr>pb_listeners := removeAll l (pb_listeners c)\<rparr>"

definition abandonRetainedProbe :: "'v probe \<Rightarrow> 'v probe" where
  "abandonRetainedProbe c =
     (if pb_disposed c \<or> pb_retainedPoll (pb_state c) = None then c
      else pb_publish ProbeIdle (pb_replaceRun c))"

definition pb_reset :: "'v probe \<Rightarrow> 'v probe" where
  "pb_reset c = (if pb_disposed c then c else pb_publish ProbeIdle (pb_replaceRun c))"

definition pb_dispose :: "'v probe \<Rightarrow> 'v probe" where
  "pb_dispose c =
     (if pb_disposed c then c else (pb_replaceRun (c\<lparr>pb_disposed := True\<rparr>))\<lparr>pb_listeners := []\<rparr>)"

inductive probe_step :: "'v probe \<Rightarrow> 'v probe \<Rightarrow> bool" where
  pb_call_subscribe: "probe_step c (pb_subscribe l c)"
| pb_call_unsubscribe: "probe_step c (pb_unsubscribe l c)"
| pb_call_measure: "probe_step c (measure_probe d key now1 now2 c)"
| pb_call_abandon: "probe_step c (abandonRetainedProbe c)"
| pb_call_reset: "probe_step c (pb_reset c)"
| pb_call_dispose: "probe_step c (pb_dispose c)"
| pb_started: "PbStarting g r \<in> set (pb_tasks c) \<Longrightarrow>
    probe_step c (pb_start_resume g r response now (pb_drop_task (PbStarting g r) c))"
| pb_polled: "PbPolling g a d \<in> set (pb_tasks c) \<Longrightarrow>
    probe_step c (pb_poll_resume g a d response' (pb_drop_task (PbPolling g a d) c))"
| pb_timer: "PbTimer w g a d \<in> set (pb_tasks c) \<Longrightarrow> probe_step c (pb_timer_fires w g a d now c)"

section \<open>Live tasks\<close>

fun pb_task_gen :: "probe_task \<Rightarrow> nat" where
  "pb_task_gen (PbStarting g r) = g"
| "pb_task_gen (PbTimer w g a d) = g"
| "pb_task_gen (PbPolling g a d) = g"

definition pb_live :: "'v probe \<Rightarrow> probe_task list" where
  "pb_live c = filter (\<lambda>t. pb_task_gen t = pb_generation c) (pb_tasks c)"

text \<open>The task that serves a presentation: the start request, or the timer or poll of the accepted probe.\<close>

fun pb_serves :: "'v ReticulumProbeState \<Rightarrow> nat option \<Rightarrow> probe_task list \<Rightarrow> bool" where
  "pb_serves (ProbeStarting r) cancel ts = (cancel = None \<and> (\<exists>g. ts = [PbStarting g r]))"
| "pb_serves (ProbePending a) cancel ts =
     ((\<exists>g d. ts = [PbPolling g a d] \<and> cancel = None) \<or> (\<exists>w g d. ts = [PbTimer w g a d] \<and> cancel = Some w))"
| "pb_serves _ cancel ts = (cancel = None \<and> ts = [])"

fun pb_timer_task :: "probe_task \<Rightarrow> bool" where
  "pb_timer_task (PbTimer w g a d) = True"
| "pb_timer_task _ = False"

definition probe_inv :: "'v probe \<Rightarrow> bool" where
  "probe_inv c \<longleftrightarrow>
     (\<forall>t\<in>set (pb_tasks c). pb_task_gen t \<le> pb_generation c \<and>
        (pb_timer_task t \<longrightarrow> pb_task_gen t = pb_generation c)) \<and>
     (if pb_disposed c then pb_live c = [] \<and> pb_cancelWait c = None
      else pb_serves (pb_state c) (pb_cancelWait c) (pb_live c))"

text \<open>A controller between runs: nothing live, no timer; only requests of earlier runs may be pending.\<close>

definition pb_quiet :: "'v probe \<Rightarrow> bool" where
  "pb_quiet c \<longleftrightarrow>
     (\<forall>t\<in>set (pb_tasks c). pb_task_gen t \<le> pb_generation c \<and> \<not> pb_timer_task t) \<and>
     pb_live c = [] \<and> pb_cancelWait c = None"

lemma pb_publish_frame [simp]:
  "pb_tasks (pb_publish st c) = pb_tasks c" "pb_generation (pb_publish st c) = pb_generation c"
  "pb_cancelWait (pb_publish st c) = pb_cancelWait c" "pb_disposed (pb_publish st c) = pb_disposed c"
  "pb_next_timer (pb_publish st c) = pb_next_timer c" "pb_listeners (pb_publish st c) = pb_listeners c"
  "pb_state (pb_publish st c) = st" "pb_live (pb_publish st c) = pb_live c"
  "pb_presentationTimeoutMs (pb_publish st c) = pb_presentationTimeoutMs c"
  by (simp_all add: pb_publish_def pb_live_def)

lemma pb_quiet_publish [simp]: "pb_quiet (pb_publish st c) = pb_quiet c"
  by (simp add: pb_quiet_def)

lemma pb_replaceRun_frame [simp]:
  "pb_generation (pb_replaceRun c) = pb_generation c + 1" "pb_disposed (pb_replaceRun c) = pb_disposed c"
  "pb_state (pb_replaceRun c) = pb_state c" "pb_listeners (pb_replaceRun c) = pb_listeners c"
  "pb_shown (pb_replaceRun c) = pb_shown c" "pb_cancelWait (pb_replaceRun c) = None"
  "pb_presentationTimeoutMs (pb_replaceRun c) = pb_presentationTimeoutMs c"
  by (simp_all add: pb_replaceRun_def Let_def split: option.splits)

lemma probe_inv_timer:
  assumes "probe_inv c" and "PbTimer w g a d \<in> set (pb_tasks c)"
  shows "pb_live c = [PbTimer w g a d] \<and> pb_cancelWait c = Some w \<and> g = pb_generation c
    \<and> pb_state c = ProbePending a \<and> \<not> pb_disposed c"
proof -
  have g: "g = pb_generation c" using assms by (force simp: probe_inv_def)
  then have live: "PbTimer w g a d \<in> set (pb_live c)" using assms(2) by (simp add: pb_live_def)
  then have nd: "\<not> pb_disposed c" using assms(1) by (auto simp: probe_inv_def)
  then have "pb_serves (pb_state c) (pb_cancelWait c) (pb_live c)" using assms(1) by (simp add: probe_inv_def)
  with live g nd show ?thesis by (cases "pb_state c") auto
qed

lemma replaceRun_quiet:
  assumes "probe_inv c"
  shows "pb_quiet (pb_replaceRun c)"
proof -
  have sub: "set (pb_tasks (pb_replaceRun c)) \<subseteq> set (pb_tasks c)"
    by (auto simp: pb_replaceRun_def Let_def split: option.splits)
  then have gens: "\<forall>t\<in>set (pb_tasks (pb_replaceRun c)). pb_task_gen t \<le> pb_generation c"
    using assms by (auto simp: probe_inv_def)
  have "\<not> pb_timer_task t" if t: "t \<in> set (pb_tasks (pb_replaceRun c))" for t
  proof (cases t)
    case (PbTimer w g a d)
    then have "pb_cancelWait c = Some w" using probe_inv_timer [OF assms] sub t by blast
    with t PbTimer show ?thesis by (simp add: pb_replaceRun_def Let_def)
  qed auto
  moreover have "pb_live (pb_replaceRun c) = []" using gens by (fastforce simp: pb_live_def filter_empty_conv)
  ultimately show ?thesis using gens by (auto simp: pb_quiet_def le_SucI)
qed

lemma quiet_inv:
  assumes "pb_quiet c" and "\<not> pb_isRunning (pb_state c)"
  shows "probe_inv c"
  using assms by (cases "pb_state c") (auto simp: probe_inv_def pb_quiet_def)

lemma probe_inv_listeners [simp]:
  "probe_inv (c\<lparr>pb_listeners := ls\<rparr>) = probe_inv c" "probe_inv (c\<lparr>pb_listeners := ls, pb_shown := s\<rparr>) = probe_inv c"
  by (simp_all add: probe_inv_def pb_live_def)

lemma quiet_disposed: "pb_quiet c \<Longrightarrow> probe_inv (c\<lparr>pb_disposed := True, pb_listeners := []\<rparr>)"
  by (simp add: probe_inv_def pb_quiet_def pb_live_def)

lemma quiet_add:
  assumes "pb_quiet c" and "pb_task_gen t = pb_generation c"
  shows "pb_live (pb_add_task t c) = [t]" and "\<forall>s\<in>set (pb_tasks (pb_add_task t c)). pb_task_gen s \<le> pb_generation c"
  using assms by (auto simp: pb_quiet_def pb_live_def pb_add_task_def)

lemma start_inv: "probe_inv c \<Longrightarrow> \<not> pb_disposed c \<Longrightarrow> probe_inv (pb_start request c)"
  using replaceRun_quiet [of c]
    quiet_add [of "pb_publish (ProbeStarting request) (pb_replaceRun c)" "PbStarting (pb_generation c + 1) request"]
  by (auto simp: probe_inv_def pb_start_def Let_def pb_quiet_def pb_add_task_def)

lemma poll_inv:
  assumes "pb_quiet c" and "\<not> pb_disposed c" and "pb_state c = ProbePending a"
  shows "probe_inv (pb_poll a (pb_generation c) deadline now c)"
proof (cases "now \<ge> deadline")
  case True
  then show ?thesis using assms by (auto simp: pb_poll_def pb_isCurrent_def intro!: quiet_inv)
next
  case False
  then show ?thesis
    using assms quiet_add [OF assms(1), of "PbPolling (pb_generation c) a deadline"]
    by (auto simp: pb_poll_def pb_isCurrent_def probe_inv_def pb_quiet_def pb_add_task_def)
qed

lemma schedule_inv:
  assumes "pb_quiet c" and "\<not> pb_disposed c" and "pb_state c = ProbePending a"
  shows "probe_inv (pb_schedulePoll a (pb_generation c) deadline c)"
proof -
  let ?c = "c\<lparr>pb_cancelWait := Some (pb_next_timer c), pb_next_timer := pb_next_timer c + 1\<rparr>"
  let ?t = "PbTimer (pb_next_timer c) (pb_generation c) a deadline"
  have "pb_live (pb_add_task ?t ?c) = [?t]" using assms(1) by (simp add: pb_quiet_def pb_live_def pb_add_task_def)
  then show ?thesis
    using assms by (auto simp: pb_schedulePoll_def pb_isCurrent_def probe_inv_def pb_quiet_def pb_add_task_def)
qed

lemma drop_live:
  assumes inv: "probe_inv c" and t: "t \<in> set (pb_tasks c)" and cur: "pb_isCurrent c (pb_task_gen t)"
    and nt: "\<forall>w. \<not> pb_is_timer w t"
  shows "pb_quiet (pb_drop_task t c)"
proof -
  have live: "t \<in> set (pb_live c)" using t cur by (simp add: pb_live_def pb_isCurrent_def)
  have "pb_serves (pb_state c) (pb_cancelWait c) (pb_live c)" using inv cur by (simp add: probe_inv_def pb_isCurrent_def)
  then have one: "pb_live c = [t]" "pb_cancelWait c = None"
    using live nt by (cases "pb_state c"; auto)+
  have "\<not> pb_timer_task s" if "s \<in> set (pb_tasks c)" for s
    using probe_inv_timer [OF inv] one(2) that by (cases s) fastforce+
  moreover have "pb_live (pb_drop_task t c) = []"
    using one(1) by (simp add: pb_live_def pb_drop_task_def filter_remove1)
  ultimately show ?thesis
    using inv one(2) by (auto simp: pb_quiet_def probe_inv_def pb_drop_task_def dest: notin_set_remove1)
qed

lemma drop_stale:
  assumes "probe_inv c" and "pb_task_gen t \<noteq> pb_generation c"
  shows "probe_inv (pb_drop_task t c)"
proof -
  have "pb_live (pb_drop_task t c) = pb_live c"
    using assms(2) by (simp add: pb_live_def pb_drop_task_def filter_remove1 remove1_idem)
  then show ?thesis using assms(1) by (auto simp: probe_inv_def pb_drop_task_def dest: notin_set_remove1)
qed

lemma disposed_stale: "probe_inv c \<Longrightarrow> pb_disposed c \<Longrightarrow> t \<in> set (pb_tasks c) \<Longrightarrow> pb_task_gen t \<noteq> pb_generation c"
  by (auto simp: probe_inv_def pb_live_def filter_empty_conv)

lemma pb_drop_frame [simp]:
  "pb_generation (pb_drop_task t c) = pb_generation c" "pb_disposed (pb_drop_task t c) = pb_disposed c"
  "pb_state (pb_drop_task t c) = pb_state c" "pb_isCurrent (pb_drop_task t c) g = pb_isCurrent c g"
  by (simp_all add: pb_drop_task_def pb_isCurrent_def)

lemma resume_inv:
  assumes "probe_inv c" and "t \<in> set (pb_tasks c)" and "\<forall>w. \<not> pb_is_timer w t"
    and "\<not> pb_isCurrent c (pb_task_gen t) \<Longrightarrow> c' = pb_drop_task t c"
    and "pb_isCurrent c (pb_task_gen t) \<Longrightarrow> pb_quiet (pb_drop_task t c) \<Longrightarrow> probe_inv c'"
  shows "probe_inv c'"
proof (cases "pb_isCurrent c (pb_task_gen t)")
  case True
  then show ?thesis using drop_live [OF assms(1,2) _ assms(3)] assms(5) by blast
next
  case False
  then have "pb_task_gen t \<noteq> pb_generation c" using disposed_stale [OF assms(1)] assms(2) by (auto simp: pb_isCurrent_def)
  then show ?thesis using drop_stale [OF assms(1)] assms(4) [OF False] by simp
qed

lemma start_resume_inv:
  assumes "probe_inv c" and "PbStarting g r \<in> set (pb_tasks c)"
  shows "probe_inv (pb_start_resume g r response now (pb_drop_task (PbStarting g r) c))"
proof (rule resume_inv [OF assms])
  assume "pb_isCurrent c (pb_task_gen (PbStarting g r))" and quiet: "pb_quiet (pb_drop_task (PbStarting g r) c)"
  then have cur: "g = pb_generation c" "\<not> pb_disposed c" by (auto simp: pb_isCurrent_def)
  then show "probe_inv (pb_start_resume g r response now (pb_drop_task (PbStarting g r) c))"
    using quiet
      schedule_inv [of "pb_publish (ProbePending a) (pb_drop_task (PbStarting g r) c)" a for a]
    by (auto simp: pb_start_resume_def pb_isCurrent_def Let_def intro!: quiet_inv split: settled.splits)
qed (auto simp: pb_start_resume_def split: settled.splits)

lemma poll_resume_inv:
  assumes "probe_inv c" and "PbPolling g a d \<in> set (pb_tasks c)"
  shows "probe_inv (pb_poll_resume g a d response (pb_drop_task (PbPolling g a d) c))"
proof (rule resume_inv [OF assms])
  assume "pb_isCurrent c (pb_task_gen (PbPolling g a d))" and quiet: "pb_quiet (pb_drop_task (PbPolling g a d) c)"
  then have cur: "g = pb_generation c" "\<not> pb_disposed c" by (auto simp: pb_isCurrent_def)
  then show "probe_inv (pb_poll_resume g a d response (pb_drop_task (PbPolling g a d) c))"
    using quiet
      schedule_inv [of "pb_publish (ProbePending b) (pb_drop_task (PbPolling g a d) c)" b for b]
    by (auto simp: pb_poll_resume_def pb_isCurrent_def Let_def intro!: quiet_inv
        split: settled.splits ReticulumProbePollResponse.splits)
qed (auto simp: pb_poll_resume_def split: settled.splits)

lemma timer_inv:
  assumes "probe_inv c" and "PbTimer w g a d \<in> set (pb_tasks c)"
  shows "probe_inv (pb_timer_fires w g a d now c)"
proof -
  let ?c = "c\<lparr>pb_tasks := filter (\<lambda>t. \<not> pb_is_timer w t) (pb_tasks c), pb_cancelWait := None\<rparr>"
  note t = probe_inv_timer [OF assms]
  have "\<not> pb_timer_task s" if "s \<in> set (pb_tasks ?c)" for s
    using probe_inv_timer [OF assms(1)] t that by (cases s) fastforce+
  moreover have "pb_live ?c = filter (\<lambda>t. \<not> pb_is_timer w t) (pb_live c)"
    by (simp add: pb_live_def conj_commute)
  ultimately have "pb_quiet ?c" using assms(1) t by (auto simp: pb_quiet_def probe_inv_def)
  from poll_inv [OF this] t show ?thesis by (simp add: pb_timer_fires_def)
qed

lemma measure_inv:
  assumes "probe_inv c"
  shows "probe_inv (measure_probe d key now1 now2 c)"
proof (cases "pb_disposed c \<or> pb_isRunning (pb_state c)")
  case True
  then show ?thesis using assms by (auto simp: measure_probe_def)
next
  case False
  have bad: "probe_inv (pb_publish (ProbeInputError x e) (pb_replaceRun c))" for x e
    using replaceRun_quiet [OF assms] by (auto intro!: quiet_inv)
  have resume: "probe_inv (pb_resumePolling a now1 now2 c)" for a
    using poll_inv [of "pb_publish (ProbePending a) (pb_replaceRun c)" a] replaceRun_quiet [OF assms] False
    by (simp add: pb_resumePolling_def Let_def)
  show ?thesis
    using False assms bad resume start_inv [OF assms]
    by (auto simp: measure_probe_def Let_def split: option.splits settled.splits)
qed

lemma probe_step_inv: "probe_step c c' \<Longrightarrow> probe_inv c \<Longrightarrow> probe_inv c'"
proof (induction rule: probe_step.induct)
  case (pb_call_dispose c)
  have "pb_replaceRun (c\<lparr>pb_disposed := True\<rparr>) = (pb_replaceRun c)\<lparr>pb_disposed := True\<rparr>"
    by (simp add: pb_replaceRun_def Let_def split: option.splits)
  then show ?case
    using quiet_disposed [OF replaceRun_quiet [OF pb_call_dispose]] pb_call_dispose by (simp add: pb_dispose_def)
next
  case (pb_call_subscribe c l)
  then show ?case by (simp add: pb_subscribe_def)
next
  case (pb_call_unsubscribe c l)
  then show ?case by (simp add: pb_unsubscribe_def)
qed (simp_all add: abandonRetainedProbe_def pb_reset_def replaceRun_quiet quiet_inv measure_inv
    start_resume_inv poll_resume_inv timer_inv)

interpretation probe_sys: step_invariant probe_step probe_inv
  by unfold_locales (rule probe_step_inv)

lemma probe_new_inv: "probe_new i t = Inr c \<Longrightarrow> probe_inv c"
  by (auto simp: probe_new_def probe_inv_def pb_live_def split: option.splits)

section \<open>Generations and disposal\<close>

definition probe_closed :: "'v probe \<Rightarrow> bool" where
  "probe_closed c \<longleftrightarrow> pb_disposed c \<and> pb_listeners c = []"

lemma pb_add_frame [simp]:
  "pb_generation (pb_add_task t c) = pb_generation c" "pb_disposed (pb_add_task t c) = pb_disposed c"
  "pb_listeners (pb_add_task t c) = pb_listeners c" "pb_shown (pb_add_task t c) = pb_shown c"
  "pb_state (pb_add_task t c) = pb_state c"
  by (simp_all add: pb_add_task_def)

lemma pb_poll_gen [simp]: "pb_generation (pb_poll a g d now c) = pb_generation c"
  by (simp add: pb_poll_def)

lemma pb_schedule_frame [simp]:
  "pb_generation (pb_schedulePoll a g d c) = pb_generation c" "pb_state (pb_schedulePoll a g d c) = pb_state c"
  by (simp_all add: pb_schedulePoll_def)

lemma probe_gen_mono: "probe_step c c' \<Longrightarrow> pb_generation c \<le> pb_generation c'"
  by (induction rule: probe_step.induct)
    (simp_all add: pb_subscribe_def pb_unsubscribe_def measure_probe_def pb_resumePolling_def pb_start_def
      abandonRetainedProbe_def pb_reset_def pb_dispose_def pb_start_resume_def pb_poll_resume_def pb_timer_fires_def
      Let_def split: option.splits settled.splits ReticulumProbePollResponse.splits)

lemma probe_closed_step: "probe_step c c' \<Longrightarrow> probe_closed c \<Longrightarrow> probe_closed c' \<and> pb_shown c' = pb_shown c"
  by (induction rule: probe_step.induct)
    (simp_all add: probe_closed_def pb_subscribe_def pb_unsubscribe_def measure_probe_def abandonRetainedProbe_def
      pb_reset_def pb_dispose_def pb_start_resume_def pb_poll_resume_def pb_timer_fires_def pb_poll_def pb_isCurrent_def
      pb_drop_task_def split: settled.splits)

interpretation probe: generation_owner probe_step pb_generation pb_isCurrent probe_closed pb_shown
  by unfold_locales
    (erule probe_gen_mono, simp add: pb_isCurrent_def, erule (1) probe_closed_step,
     simp add: pb_isCurrent_def probe_closed_def)

section \<open>Properties\<close>

text \<open>
  C32. One measurement at a time: in every reachable state of a live controller, a starting presentation
  is served by exactly one live start request, a pending one by exactly one live poll or timer for the
  probe shown, and any other presentation by none, so that starts and polls never overlap and no
  background ping loop exists.
\<close>

theorem probe_single_run:
  assumes "probe_new i t = Inr c0" and "probe_step\<^sup>*\<^sup>* c0 c" and "\<not> pb_disposed c"
  shows "pb_serves (pb_state c) (pb_cancelWait c) (filter (\<lambda>t. pb_task_gen t = pb_generation c) (pb_tasks c))"
  using probe_sys.reach_inv [OF assms(2) probe_new_inv [OF assms(1)]] assms(3)
  by (simp add: probe_inv_def pb_live_def)

definition probe_example :: "unit probe" where
  "probe_example = \<lparr>pb_pollIntervalMs = 750, pb_presentationTimeoutMs = 240000, pb_listeners = [], pb_cancelWait = None,
     pb_disposed = False, pb_generation = 0, pb_state = ProbeIdle, pb_tasks = [], pb_next_timer = 0, pb_shown = []\<rparr>"

definition probe_destination :: jstring where "probe_destination = replicate 32 97"

lemma probe_destination_ok: "hex32 probe_destination" "js_lower (js_trim probe_destination) = probe_destination"
proof -
  show "hex32 probe_destination" by (simp add: probe_destination_def hex32_def is_hex_lower_def list_all_iff)
  then show "js_lower (js_trim probe_destination) = probe_destination" by simp
qed

lemma probe_example_new: "probe_new None None = Inr probe_example"
  by (simp add: probe_new_def probe_example_def RETICULUM_PROBE_POLL_INTERVAL_MS_def RETICULUM_PROBE_PRESENTATION_TIMEOUT_MS_def)

theorem probe_single_run_witness:
  "pb_serves (pb_state (measure_probe probe_destination (Fulfilled probe_destination) 0 0 probe_example)) None
     [PbStarting 1 \<lparr>ps_destination = probe_destination, ps_idempotency_key = probe_destination\<rparr>]"
proof -
  let ?c = "measure_probe probe_destination (Fulfilled probe_destination) 0 0 probe_example"
  have lower: "js_lower probe_destination = probe_destination"
    using probe_destination_ok(1) by (simp add: hex32_def js_lower_hex)
  have c: "?c = pb_start \<lparr>ps_destination = probe_destination, ps_idempotency_key = probe_destination\<rparr> probe_example"
    by (simp add: measure_probe_def probe_example_def probe_destination_ok lower probe_inputError_def)
  have "probe_step\<^sup>*\<^sup>* probe_example ?c" by (rule r_into_rtranclp) (rule probe_step.pb_call_measure)
  moreover have "\<not> pb_disposed ?c" "pb_cancelWait ?c = None" "pb_generation ?c = 1"
    "pb_tasks ?c = [PbStarting 1 \<lparr>ps_destination = probe_destination, ps_idempotency_key = probe_destination\<rparr>]"
    unfolding c by (simp_all add: pb_start_def probe_example_def pb_replaceRun_def pb_add_task_def pb_publish_def)
  ultimately show ?thesis using probe_single_run [OF probe_example_new, of ?c] by simp
qed

text \<open>
  A retained probe is resumed, never started anew: from a poll error or a presentation timeout,
  measuring the same destination polls the device operation with the same identifier and creates no
  start request; measuring another valid destination changes nothing until the retained probe is
  abandoned.
\<close>

theorem probe_resume_same_operation:
  assumes "pb_retainedPoll (pb_state c) = Some a" and "\<not> pb_disposed c"
    and "hex32 (js_lower (js_trim destination))" and "now2 < now1 + pb_presentationTimeoutMs c"
  shows "(js_lower (js_trim destination) = ap_destination a \<longrightarrow>
      pb_state (measure_probe destination key now1 now2 c) = ProbePending a \<and>
      pb_tasks (measure_probe destination key now1 now2 c) =
        pb_tasks (pb_replaceRun c) @ [PbPolling (pb_generation c + 1) a (now1 + pb_presentationTimeoutMs c)])
    \<and> (js_lower (js_trim destination) \<noteq> ap_destination a \<longrightarrow> measure_probe destination key now1 now2 c = c)"
proof -
  have "\<not> pb_isRunning (pb_state c)" using assms(1) by (cases "pb_state c") auto
  then show ?thesis
    using assms by (auto simp: measure_probe_def probe_inputError_def pb_resumePolling_def pb_poll_def pb_isCurrent_def
        pb_add_task_def Let_def)
qed

definition probe_accepted :: AcceptedProbe where
  "probe_accepted = \<lparr>ap_destination = probe_destination, ap_id = js ''7'', ap_outcome = ProbeAccepted, ap_phase = None,
     ap_request = \<lparr>ps_destination = probe_destination, ps_idempotency_key = probe_destination\<rparr>\<rparr>"

definition probe_timed_out_example :: "unit probe" where
  "probe_timed_out_example = probe_example\<lparr>pb_state := ProbeTimedOut probe_accepted\<rparr>"

theorem probe_resume_same_operation_witness:
  "pb_tasks (measure_probe probe_destination (Fulfilled []) 0 0 probe_timed_out_example) = [PbPolling 1 probe_accepted 240000]"
  using probe_resume_same_operation [of probe_timed_out_example probe_accepted probe_destination 0 0 "Fulfilled []"]
  by (simp add: probe_timed_out_example_def probe_example_def probe_destination_ok probe_accepted_def pb_replaceRun_def)

text \<open>
  Nothing of an earlier run comes back: after \<open>reset\<close>, a start or poll request that was under way
  changes neither the presentation nor what listeners were shown when it settles, in any later state.
\<close>

theorem probe_reset_detaches:
  assumes "\<not> pb_disposed c" and "g \<le> pb_generation c" and "probe_step\<^sup>*\<^sup>* (pb_reset c) c2"
    and "c3 = pb_start_resume g r response now c2 \<or> c3 = pb_poll_resume g a d response' c2"
  shows "c3 = c2"
proof -
  have "\<not> pb_isCurrent c2 g"
    using probe.superseded_forever [OF assms(3)] assms(1,2) by (simp add: pb_reset_def)
  with assms(4) show ?thesis by (auto simp: pb_start_resume_def pb_poll_resume_def split: settled.splits)
qed

theorem probe_reset_detaches_witness:
  "pb_poll_resume 0 probe_accepted 9 (Fulfilled (ProbePollSucceeded ())) (pb_reset probe_timed_out_example)
     = pb_reset probe_timed_out_example"
  by (rule probe_reset_detaches [of probe_timed_out_example 0, OF _ _ rtranclp.rtrancl_refl disjI2])
    (simp_all add: probe_timed_out_example_def probe_example_def)

text \<open>
  An invalid destination silently drops a retained probe: from any poll error or presentation
  timeout, measuring a malformed destination replaces the presentation by an input error, so that the
  identifier of the device operation is no longer retained, without the explicit abandonment.
\<close>

theorem probe_invalid_input_drops_retained:
  assumes "pb_retainedPoll (pb_state c) = Some a" and "\<not> pb_disposed c" and "\<not> hex32 (js_lower (js_trim destination))"
  shows "pb_retainedPoll (pb_state (measure_probe destination key now1 now2 c)) = None"
proof -
  have "\<not> pb_isRunning (pb_state c)" using assms(1) by (cases "pb_state c") auto
  then show ?thesis using assms by (simp add: measure_probe_def probe_inputError_def Let_def)
qed

theorem probe_invalid_input_drops_retained_witness:
  "pb_retainedPoll (pb_state (measure_probe (js ''xyz'') (Fulfilled []) 0 0 probe_timed_out_example)) = None"
  by (rule probe_invalid_input_drops_retained)
    (simp_all add: probe_timed_out_example_def probe_example_def hex32_def js_trim_def is_space_def js_lower_def lower_unit_def)

end
