(* ===== verification/PhoneLocation.thy ===== *)
theory PhoneLocation
  imports Prelude
begin

text \<open>
  The phone-location vocabulary of \<open>generated/api.ts\<close> that the telemetry controller, the activity feeds and
  the transmission map share, and its string forms.
\<close>

datatype PhoneLocationAuthorizationView = Precise | Approximate | AuthorizationUnknown
datatype PhoneLocationSourceView = ForegroundStream | LastKnown

datatype PhoneLocationUnavailableReasonView =
  NotObserved | TelemetryDisabled | PermissionDenied | ServicesDisabled | PlatformUnavailable | NoFixYet | ProviderError

record PhoneLocationSampleView =
  pl_latitude_e6 :: int
  pl_longitude_e6 :: int
  pl_horizontal_accuracy_mm :: "int option"
  pl_altitude_mm :: "int option"
  pl_vertical_accuracy_mm :: "int option"
  pl_captured_at_unix_ms :: int
  pl_authorization :: PhoneLocationAuthorizationView
  pl_source :: PhoneLocationSourceView
  pl_mocked :: "bool option"

datatype PhoneLocationObservationView =
  LocationAvailable PhoneLocationSampleView | LocationUnavailable PhoneLocationUnavailableReasonView

fun authorization_text :: "PhoneLocationAuthorizationView \<Rightarrow> jstring" where
  "authorization_text Precise = js ''precise''"
| "authorization_text Approximate = js ''approximate''"
| "authorization_text AuthorizationUnknown = js ''unknown''"

fun location_source_text :: "PhoneLocationSourceView \<Rightarrow> jstring" where
  "location_source_text ForegroundStream = js ''foreground_stream''"
| "location_source_text LastKnown = js ''last_known''"

fun unavailable_reason_text :: "PhoneLocationUnavailableReasonView \<Rightarrow> jstring" where
  "unavailable_reason_text NotObserved = js ''not_observed''"
| "unavailable_reason_text TelemetryDisabled = js ''telemetry_disabled''"
| "unavailable_reason_text PermissionDenied = js ''permission_denied''"
| "unavailable_reason_text ServicesDisabled = js ''services_disabled''"
| "unavailable_reason_text PlatformUnavailable = js ''platform_unavailable''"
| "unavailable_reason_text NoFixYet = js ''no_fix_yet''"
| "unavailable_reason_text ProviderError = js ''provider_error''"

end
