(* ===== verification/FieldTelemetry.thy ===== *)
theory FieldTelemetry
  imports PhoneLocation
begin

text \<open>
  Model of \<open>lib/field-telemetry.ts\<close>: \<open>FieldTelemetryController\<close>, the owner of the phone's location
  subscription. Methods are split at their awaits. Every call of \<open>activate\<close> and \<open>setEnabled\<close> that goes
  past its guard takes a generation of its own, so the suspended rest of the call is \<open>ft_runs\<close> at that
  generation. The two promise chains \<open>preferenceUpdates\<close> and \<open>updates\<close> are queues with a flag that says
  whether the entry in front has been handed to the store or the device. The client, the preference store
  and the platform's location provider are the environment: that they answer, with what and when, is a step.
\<close>

section \<open>Data\<close>

datatype telemetry_runState = RunActive | RunDisabled | RunError | RunInactive | RunStarting

record FieldTelemetryControllerState =
  fs_deviceKey :: "jstring option"
  fs_enabled :: bool
  fs_error :: "jstring option"
  fs_observation :: "PhoneLocationObservationView option"
  fs_runState :: telemetry_runState

text \<open>Which public method runs \<open>start\<close>: only \<open>activate\<close> catches what \<open>start\<close> throws.\<close>

datatype telemetry_caller = FromActivate | FromSetEnabled

text \<open>
  Where a call stands: at the \<open>Promise.all\<close> of \<open>activate\<close>, at the update of \<open>recordDisabled\<close>, at the
  provider's start, at the \<open>Promise.allSettled\<close> of \<open>setEnabled(false)\<close>, at the save of
  \<open>setEnabled(true)\<close>, or at the update that reports a failed start.
\<close>

datatype telemetry_run =
  FtJoin "PhoneLocationObservationView settled option" "bool settled option"
| FtRecording "jstring option"
| FtStarting telemetry_caller
| FtDisabling "unit settled option" "PhoneLocationObservationView settled option"
| FtEnabling
| FtFailedStart telemetry_caller thrown "unit settled option"

record telemetry =
  ft_listeners :: "nat list"
  ft_disposed :: bool
  ft_generation :: nat
  ft_preferenceEnabled :: bool
  ft_preferenceLoaded :: bool
  ft_subscription :: "nat option"
  ft_state :: FieldTelemetryControllerState
  ft_saves :: "(nat \<times> bool) list" \<comment> \<open>\<open>preferenceUpdates\<close>: generation and value, oldest first\<close>
  ft_saving :: bool
  ft_updates :: "(nat \<times> PhoneLocationObservationView \<times> bool) list" \<comment> \<open>generation, observation, awaited by \<open>start\<close>\<close>
  ft_updating :: bool
  ft_loading :: "nat list" \<comment> \<open>activations whose preference is being loaded\<close>
  ft_runs :: "nat \<Rightarrow> telemetry_run option"
  ft_live :: "nat list" \<comment> \<open>provider subscriptions not yet removed\<close>
  ft_next_subscription :: nat
  ft_save_calls :: "bool list" \<comment> \<open>calls of the preference store\<close>
  ft_sent :: "PhoneLocationObservationView list" \<comment> \<open>observations handed to the device by the queue\<close>
  ft_shown :: "(nat \<times> FieldTelemetryControllerState) list"

definition telemetry_new :: telemetry where
  "telemetry_new = \<lparr>ft_listeners = [], ft_disposed = False, ft_generation = 0, ft_preferenceEnabled = False,
     ft_preferenceLoaded = False, ft_subscription = None,
     ft_state = \<lparr>fs_deviceKey = None, fs_enabled = False, fs_error = None, fs_observation = None, fs_runState = RunDisabled\<rparr>,
     ft_saves = [], ft_saving = False, ft_updates = [], ft_updating = False, ft_loading = [], ft_runs = (\<lambda>_. None),
     ft_live = [], ft_next_subscription = 0, ft_save_calls = [], ft_sent = [], ft_shown = []\<rparr>"

section \<open>Private methods\<close>

definition ft_accepts :: "telemetry \<Rightarrow> nat \<Rightarrow> bool" where
  "ft_accepts c g \<longleftrightarrow> \<not> ft_disposed c \<and> ft_generation c = g"

definition ft_publish :: "FieldTelemetryControllerState \<Rightarrow> telemetry \<Rightarrow> telemetry" where
  "ft_publish st c = c\<lparr>ft_state := st, ft_shown := ft_shown c @ map (\<lambda>l. (l, st)) (ft_listeners c)\<rparr>"

text \<open>\<open>subscription?.remove(); subscription = null\<close>.\<close>

definition ft_remove_subscription :: "telemetry \<Rightarrow> telemetry" where
  "ft_remove_subscription c =
     c\<lparr>ft_live := (case ft_subscription c of None \<Rightarrow> ft_live c | Some s \<Rightarrow> removeAll s (ft_live c)),
       ft_subscription := None\<rparr>"

definition ft_replaceRun :: "telemetry \<Rightarrow> telemetry" where
  "ft_replaceRun c = ft_remove_subscription (c\<lparr>ft_generation := ft_generation c + 1\<rparr>)"

definition ft_fail :: "thrown \<Rightarrow> telemetry \<Rightarrow> telemetry" where
  "ft_fail e c =
     (let c1 = ft_remove_subscription c
      in ft_publish ((ft_state c1)\<lparr>fs_error := Some (errorText e), fs_runState := RunError\<rparr>) c1)"

definition ft_suspend_at :: "nat \<Rightarrow> telemetry_run \<Rightarrow> telemetry \<Rightarrow> telemetry" where
  "ft_suspend_at g r c = c\<lparr>ft_runs := (ft_runs c)(g \<mapsto> r)\<rparr>"

definition ft_return :: "nat \<Rightarrow> telemetry \<Rightarrow> telemetry" where
  "ft_return g c = c\<lparr>ft_runs := (ft_runs c)(g := None)\<rparr>"

definition ft_savePreference :: "nat \<Rightarrow> bool \<Rightarrow> telemetry \<Rightarrow> telemetry" where
  "ft_savePreference g enabled c = c\<lparr>ft_saves := ft_saves c @ [(g, enabled)]\<rparr>"

definition ft_queueObservation :: "nat \<Rightarrow> PhoneLocationObservationView \<Rightarrow> bool \<Rightarrow> telemetry \<Rightarrow> telemetry" where
  "ft_queueObservation g observation awaited c = c\<lparr>ft_updates := ft_updates c @ [(g, observation, awaited)]\<rparr>"

definition ft_recordDisabled :: "nat \<Rightarrow> jstring option \<Rightarrow> telemetry \<Rightarrow> telemetry" where
  "ft_recordDisabled g retainedError c = ft_suspend_at g (FtRecording retainedError) c"

definition ft_recorded :: "nat \<Rightarrow> jstring option \<Rightarrow> PhoneLocationObservationView settled \<Rightarrow> telemetry \<Rightarrow> telemetry" where
  "ft_recorded g retainedError r c =
     (if \<not> ft_accepts c g then ft_return g c
      else ft_return g (case r of
        Fulfilled retained \<Rightarrow>
          ft_publish ((ft_state c)\<lparr>fs_enabled := False, fs_error := retainedError, fs_observation := Some retained,
            fs_runState := (if retainedError = None then RunDisabled else RunError)\<rparr>) c
      | Rejected e \<Rightarrow>
          ft_publish ((ft_state c)\<lparr>fs_enabled := False,
            fs_error := Some (js_join (js ''; '') ((case retainedError of None \<Rightarrow> [] | Some x \<Rightarrow> [x]) @ [errorText e])),
            fs_observation := Some (LocationUnavailable TelemetryDisabled), fs_runState := RunError\<rparr>) c))"

definition ft_start :: "nat \<Rightarrow> telemetry_caller \<Rightarrow> telemetry \<Rightarrow> telemetry" where
  "ft_start g caller c = ft_suspend_at g (FtStarting caller) c"

text \<open>The provider's start settles: a subscription with its \<open>collecting\<close> flag, or a thrown value.\<close>

definition ft_started :: "nat \<Rightarrow> telemetry_caller \<Rightarrow> bool settled \<Rightarrow> telemetry \<Rightarrow> telemetry" where
  "ft_started g caller r c =
     (case r of
        Fulfilled collecting \<Rightarrow>
          (let s = ft_next_subscription c;
               c1 = ft_return g (c\<lparr>ft_live := ft_live c @ [s], ft_next_subscription := s + 1\<rparr>)
           in if \<not> ft_accepts c1 g then c1\<lparr>ft_live := removeAll s (ft_live c1)\<rparr>
              else ft_publish ((ft_state c1)\<lparr>fs_error := None,
                     fs_runState := (if collecting then RunActive else RunInactive)\<rparr>)
                   (c1\<lparr>ft_subscription := Some s\<rparr>))
      | Rejected e \<Rightarrow>
          if \<not> ft_accepts c g then ft_return g c
          else ft_queueObservation g (LocationUnavailable ProviderError) True
                 (ft_suspend_at g (FtFailedStart caller e None) c))"

text \<open>
  The continuation of \<open>start\<close> once the report of its failure settled. A rejected report is thrown to the
  caller: \<open>activate\<close> records it, \<open>setEnabled\<close> passes it on as its own rejection.
\<close>

definition ft_failed_start :: "nat \<Rightarrow> telemetry_caller \<Rightarrow> thrown \<Rightarrow> unit settled \<Rightarrow> telemetry \<Rightarrow> telemetry" where
  "ft_failed_start g caller e r c =
     (case r of
        Fulfilled _ \<Rightarrow> if ft_accepts c g then ft_fail e (ft_return g c) else ft_return g c
      | Rejected e2 \<Rightarrow>
          (case caller of
             FromSetEnabled \<Rightarrow> ft_return g c
           | FromActivate \<Rightarrow>
               if ft_accepts c g then ft_recordDisabled g (Some (errorText e2)) c else ft_return g c))"

section \<open>Public methods and their continuations\<close>

definition ft_subscribe :: "nat \<Rightarrow> telemetry \<Rightarrow> telemetry" where
  "ft_subscribe l c =
     (if ft_disposed c then c
      else c\<lparr>ft_listeners := List.insert l (ft_listeners c), ft_shown := ft_shown c @ [(l, ft_state c)]\<rparr>)"

definition ft_unsubscribe :: "nat \<Rightarrow> telemetry \<Rightarrow> telemetry" where
  "ft_unsubscribe l c = c\<lparr>ft_listeners := removeAll l (ft_listeners c)\<rparr>"

definition ft_activate :: "jstring \<Rightarrow> telemetry \<Rightarrow> telemetry" where
  "ft_activate deviceKey c =
     (if ft_disposed c then c
      else if fs_deviceKey (ft_state c) = Some deviceKey \<and> fs_runState (ft_state c) \<in> {RunActive, RunStarting} then c
      else let deviceChanged = (fs_deviceKey (ft_state c) \<noteq> Some deviceKey);
               c1 = ft_replaceRun c;
               g = ft_generation c1;
               c2 = ft_publish ((ft_state c1)\<lparr>fs_deviceKey := Some deviceKey,
                      fs_enabled := (if ft_preferenceLoaded c1 then ft_preferenceEnabled c1 else False),
                      fs_error := None,
                      fs_observation := (if deviceChanged then None else fs_observation (ft_state c1)),
                      fs_runState := RunStarting\<rparr>) c1
           in if ft_preferenceLoaded c2
              then ft_suspend_at g (FtJoin None (Some (Fulfilled (ft_preferenceEnabled c2)))) c2
              else ft_suspend_at g (FtJoin None None) (c2\<lparr>ft_loading := ft_loading c2 @ [g]\<rparr>))"

text \<open>\<open>activate\<close> after its \<open>Promise.all\<close>: rejected by the first rejection, fulfilled by the last answer.\<close>

definition ft_joined :: "nat \<Rightarrow> PhoneLocationObservationView \<Rightarrow> bool \<Rightarrow> telemetry \<Rightarrow> telemetry" where
  "ft_joined g retained enabled c =
     (if \<not> ft_accepts c g then ft_return g c
      else let c1 = ft_publish ((ft_state c)\<lparr>fs_enabled := enabled, fs_observation := Some retained,
                      fs_runState := (if enabled then RunStarting else RunDisabled)\<rparr>) c
           in if enabled then ft_start g FromActivate c1 else ft_recordDisabled g None c1)"

definition ft_join_rejected :: "nat \<Rightarrow> thrown \<Rightarrow> telemetry \<Rightarrow> telemetry" where
  "ft_join_rejected g e c =
     (if ft_accepts c g then ft_recordDisabled g (Some (errorText e)) c else ft_return g c)"

fun ft_join :: "nat \<Rightarrow> PhoneLocationObservationView settled option \<Rightarrow> bool settled option \<Rightarrow> telemetry \<Rightarrow> telemetry" where
  "ft_join g (Some (Rejected e)) en c = ft_join_rejected g e c"
| "ft_join g ob (Some (Rejected e)) c = ft_join_rejected g e c"
| "ft_join g (Some (Fulfilled retained)) (Some (Fulfilled enabled)) c = ft_joined g retained enabled c"
| "ft_join g ob en c = ft_suspend_at g (FtJoin ob en) c"

definition ft_observed :: "nat \<Rightarrow> PhoneLocationObservationView settled \<Rightarrow> telemetry \<Rightarrow> telemetry" where
  "ft_observed g r c =
     (case ft_runs c g of
        Some (FtJoin None en) \<Rightarrow> ft_join g (Some r) en c
      | _ \<Rightarrow> c)"

text \<open>\<open>loadPreference\<close> after the store answered, and the \<open>Promise.all\<close> it is part of.\<close>

definition ft_note_preference :: "bool \<Rightarrow> telemetry \<Rightarrow> telemetry" where
  "ft_note_preference enabled c =
     (if ft_preferenceLoaded c then c else c\<lparr>ft_preferenceLoaded := True, ft_preferenceEnabled := enabled\<rparr>)"

definition ft_loaded :: "nat \<Rightarrow> bool settled \<Rightarrow> telemetry \<Rightarrow> telemetry" where
  "ft_loaded g r c =
     (let c0 = c\<lparr>ft_loading := removeAll g (ft_loading c)\<rparr>;
          c1 = (case r of Fulfilled enabled \<Rightarrow> ft_note_preference enabled c0 | Rejected _ \<Rightarrow> c0);
          r1 = (case r of Fulfilled _ \<Rightarrow> Fulfilled (ft_preferenceEnabled c1) | Rejected e \<Rightarrow> Rejected e)
      in case ft_runs c1 g of
           Some (FtJoin ob None) \<Rightarrow> ft_join g ob (Some r1) c1
         | _ \<Rightarrow> c1)"

definition ft_suspend :: "telemetry \<Rightarrow> telemetry" where
  "ft_suspend c =
     (if ft_disposed c then c
      else let c1 = ft_replaceRun c
           in ft_publish ((ft_state c1)\<lparr>fs_error := None,
                fs_runState := (if fs_enabled (ft_state c1) then RunInactive else RunDisabled)\<rparr>) c1)"

definition ft_setEnabled :: "bool \<Rightarrow> telemetry \<Rightarrow> telemetry" where
  "ft_setEnabled enabled c =
     (if ft_disposed c \<or> (ft_preferenceLoaded c \<and> fs_enabled (ft_state c) = enabled) then c
      else let c1 = (ft_replaceRun c)\<lparr>ft_preferenceLoaded := True, ft_preferenceEnabled := enabled\<rparr>;
               g = ft_generation c1
           in if \<not> enabled
              then ft_suspend_at g (FtDisabling None None) (ft_savePreference g False
                     (ft_publish ((ft_state c1)\<lparr>fs_enabled := False, fs_error := None,
                        fs_observation := Some (LocationUnavailable TelemetryDisabled), fs_runState := RunDisabled\<rparr>) c1))
              else ft_suspend_at g FtEnabling (ft_savePreference g True
                     (ft_publish ((ft_state c1)\<lparr>fs_enabled := True, fs_error := None, fs_runState := RunStarting\<rparr>) c1)))"

definition rejection :: "'a settled \<Rightarrow> jstring list" where
  "rejection r = (case r of Fulfilled _ \<Rightarrow> [] | Rejected e \<Rightarrow> [errorText e])"

text \<open>\<open>setEnabled(false)\<close> at and after its \<open>Promise.allSettled\<close>.\<close>

definition ft_disable_join :: "nat \<Rightarrow> unit settled option \<Rightarrow> PhoneLocationObservationView settled option
    \<Rightarrow> telemetry \<Rightarrow> telemetry" where
  "ft_disable_join g saved retained c =
     (case (saved, retained) of
        (Some sv, Some rt) \<Rightarrow>
          (if \<not> ft_accepts c g then ft_return g c
           else let errors = rejection sv @ rejection rt
                in ft_return g (ft_publish ((ft_state c)\<lparr>
                     fs_error := (if errors = [] then None else Some (js_join (js ''; '') errors)),
                     fs_observation := Some (case rt of Fulfilled v \<Rightarrow> v
                       | Rejected _ \<Rightarrow> LocationUnavailable TelemetryDisabled)\<rparr>) c))
      | _ \<Rightarrow> ft_suspend_at g (FtDisabling saved retained) c)"

definition ft_cleared :: "nat \<Rightarrow> PhoneLocationObservationView settled \<Rightarrow> telemetry \<Rightarrow> telemetry" where
  "ft_cleared g r c =
     (case ft_runs c g of
        Some (FtDisabling saved None) \<Rightarrow> ft_disable_join g saved (Some r) c
      | _ \<Rightarrow> c)"

text \<open>\<open>setEnabled(true)\<close> after its save.\<close>

definition ft_enable_saved :: "nat \<Rightarrow> unit settled \<Rightarrow> telemetry \<Rightarrow> telemetry" where
  "ft_enable_saved g r c =
     (if \<not> ft_accepts c g then ft_return g c
      else case r of
        Rejected e \<Rightarrow>
          ft_return g (ft_publish ((ft_state c)\<lparr>fs_enabled := False,
            fs_error := Some (js ''Location preference was not saved: '' @ errorText e), fs_runState := RunDisabled\<rparr>)
            (c\<lparr>ft_preferenceEnabled := False\<rparr>))
      | Fulfilled _ \<Rightarrow>
          if fs_deviceKey (ft_state c) = None
          then ft_return g (ft_publish ((ft_state c)\<lparr>fs_runState := RunInactive\<rparr>) c)
          else ft_start g FromSetEnabled c)"

text \<open>The front of \<open>preferenceUpdates\<close> is handed to the store, and settles.\<close>

definition ft_save_begin :: "telemetry \<Rightarrow> telemetry" where
  "ft_save_begin c =
     (case ft_saves c of
        (g, enabled) # rest \<Rightarrow>
          if ft_saving c then c else c\<lparr>ft_saving := True, ft_save_calls := ft_save_calls c @ [enabled]\<rparr>
      | [] \<Rightarrow> c)"

definition ft_save_settled :: "unit settled \<Rightarrow> telemetry \<Rightarrow> telemetry" where
  "ft_save_settled r c =
     (case ft_saves c of
        [] \<Rightarrow> c
      | (g, enabled) # rest \<Rightarrow>
          if \<not> ft_saving c then c
          else let c1 = c\<lparr>ft_saves := rest, ft_saving := False\<rparr>
               in case ft_runs c1 g of
                    Some FtEnabling \<Rightarrow> ft_enable_saved g r c1
                  | Some (FtDisabling None retained) \<Rightarrow> ft_disable_join g (Some r) retained c1
                  | _ \<Rightarrow> c1)"

text \<open>
  The front of \<open>updates\<close>: its \<open>then\<close> callback drops it when its generation is no longer accepted and else
  hands it to the device; when it settles, \<open>update.catch\<close> runs before the continuation of \<open>start\<close>.
\<close>

definition ft_notify_start :: "nat \<Rightarrow> bool \<Rightarrow> unit settled \<Rightarrow> telemetry \<Rightarrow> telemetry" where
  "ft_notify_start g awaited r c =
     (case (awaited, ft_runs c g) of
        (True, Some (FtFailedStart caller e None)) \<Rightarrow> ft_suspend_at g (FtFailedStart caller e (Some r)) c
      | _ \<Rightarrow> c)"

definition ft_update_begin :: "telemetry \<Rightarrow> telemetry" where
  "ft_update_begin c =
     (case ft_updates c of
        [] \<Rightarrow> c
      | (g, observation, awaited) # rest \<Rightarrow>
          if ft_updating c then c
          else if \<not> ft_accepts c g then ft_notify_start g awaited (Fulfilled ()) (c\<lparr>ft_updates := rest\<rparr>)
          else c\<lparr>ft_updating := True, ft_sent := ft_sent c @ [observation]\<rparr>)"

definition ft_update_settled :: "PhoneLocationObservationView settled \<Rightarrow> telemetry \<Rightarrow> telemetry" where
  "ft_update_settled r c =
     (case ft_updates c of
        [] \<Rightarrow> c
      | (g, observation, awaited) # rest \<Rightarrow>
          if \<not> ft_updating c then c
          else let c1 = c\<lparr>ft_updates := rest, ft_updating := False\<rparr>
               in case r of
                    Fulfilled retained \<Rightarrow>
                      ft_notify_start g awaited (Fulfilled ())
                        (if ft_accepts c1 g
                         then ft_publish ((ft_state c1)\<lparr>fs_error := None, fs_observation := Some retained\<rparr>) c1
                         else c1)
                  | Rejected e \<Rightarrow>
                      ft_notify_start g awaited (Rejected e) (if ft_accepts c1 g then ft_fail e c1 else c1))"

text \<open>The sink that \<open>start\<close> gave to the provider for generation \<open>g\<close> is called.\<close>

definition ft_sample :: "nat \<Rightarrow> PhoneLocationObservationView \<Rightarrow> telemetry \<Rightarrow> telemetry" where
  "ft_sample g observation c = ft_queueObservation g observation False c"

definition ft_dispose :: "telemetry \<Rightarrow> telemetry" where
  "ft_dispose c =
     (if ft_disposed c then c else (ft_replaceRun (c\<lparr>ft_disposed := True\<rparr>))\<lparr>ft_listeners := []\<rparr>)"

inductive telemetry_step :: "telemetry \<Rightarrow> telemetry \<Rightarrow> bool" where
  ft_call_subscribe: "telemetry_step c (ft_subscribe l c)"
| ft_call_unsubscribe: "telemetry_step c (ft_unsubscribe l c)"
| ft_call_activate: "telemetry_step c (ft_activate deviceKey c)"
| ft_call_suspend: "telemetry_step c (ft_suspend c)"
| ft_call_setEnabled: "telemetry_step c (ft_setEnabled enabled c)"
| ft_call_dispose: "telemetry_step c (ft_dispose c)"
| ft_answer_observed: "telemetry_step c (ft_observed g ob c)"
| ft_answer_loaded: "g \<in> set (ft_loading c) \<Longrightarrow> telemetry_step c (ft_loaded g b c)"
| ft_answer_recorded: "ft_runs c g = Some (FtRecording e) \<Longrightarrow> telemetry_step c (ft_recorded g e ob c)"
| ft_answer_started: "ft_runs c g = Some (FtStarting caller) \<Longrightarrow> telemetry_step c (ft_started g caller b c)"
| ft_answer_failed: "ft_runs c g = Some (FtFailedStart caller x (Some r)) \<Longrightarrow>
    telemetry_step c (ft_failed_start g caller x r c)"
| ft_answer_cleared: "telemetry_step c (ft_cleared g ob c)"
| ft_queue_save: "telemetry_step c (ft_save_begin c)"
| ft_queue_saved: "telemetry_step c (ft_save_settled r c)"
| ft_queue_update: "telemetry_step c (ft_update_begin c)"
| ft_queue_updated: "telemetry_step c (ft_update_settled ob c)"
| ft_provider: "g \<le> ft_generation c \<Longrightarrow> telemetry_step c (ft_sample g observation c)"

section \<open>What a suspended run may assume\<close>

lemmas telemetry_private [ctl_simps] =
  ft_accepts_def ft_publish_def ft_remove_subscription_def ft_replaceRun_def ft_fail_def ft_suspend_at_def
  ft_return_def ft_savePreference_def ft_queueObservation_def ft_recordDisabled_def ft_start_def Let_def

text \<open>
  What holds of the presentation, the loaded preference and the subscription while the run of the present
  generation stands at each of its awaits, and when it has returned (\<open>None\<close>).
\<close>

fun ft_run_ok :: "telemetry_run option \<Rightarrow> FieldTelemetryControllerState \<Rightarrow> bool \<Rightarrow> nat option \<Rightarrow> bool" where
  "ft_run_ok None st wanted sub \<longleftrightarrow>
     (sub \<noteq> None \<longrightarrow> fs_enabled st \<and> wanted \<and> fs_runState st \<in> {RunActive, RunInactive}) \<and>
     (fs_runState st = RunActive \<longrightarrow> sub \<noteq> None) \<and> fs_runState st \<noteq> RunStarting"
| "ft_run_ok (Some (FtJoin ob en)) st wanted sub \<longleftrightarrow>
     sub = None \<and> fs_runState st \<in> {RunStarting, RunError} \<and> en \<in> {None, Some (Fulfilled True), Some (Fulfilled False)} \<and>
     (en = Some (Fulfilled True) \<longrightarrow> wanted)"
| "ft_run_ok (Some (FtStarting caller)) st wanted sub \<longleftrightarrow>
     sub = None \<and> fs_enabled st \<and> wanted \<and> fs_runState st \<in> {RunStarting, RunError}"
| "ft_run_ok (Some FtEnabling) st wanted sub \<longleftrightarrow>
     sub = None \<and> fs_enabled st \<and> wanted \<and> fs_runState st \<in> {RunStarting, RunError}"
| "ft_run_ok (Some (FtDisabling sv rt)) st wanted sub \<longleftrightarrow>
     sub = None \<and> \<not> fs_enabled st \<and> fs_runState st \<in> {RunDisabled, RunError}"
| "ft_run_ok (Some (FtFailedStart caller e r)) st wanted sub \<longleftrightarrow>
     sub = None \<and> fs_runState st \<in> {RunStarting, RunError} \<and> (r \<notin> {None, Some (Fulfilled ())} \<longrightarrow> fs_runState st = RunError)"
| "ft_run_ok (Some (FtRecording e)) st wanted sub \<longleftrightarrow> sub = None \<and> fs_runState st \<noteq> RunActive"

text \<open>The answer a suspended run waits for is still owed by the store or one of the queues.\<close>

fun ft_owed :: "telemetry \<Rightarrow> nat \<Rightarrow> telemetry_run option \<Rightarrow> bool" where
  "ft_owed c g (Some (FtJoin ob None)) \<longleftrightarrow> g \<in> set (ft_loading c)"
| "ft_owed c g (Some FtEnabling) \<longleftrightarrow> g \<in> fst ` set (ft_saves c)"
| "ft_owed c g (Some (FtDisabling None rt)) \<longleftrightarrow> g \<in> fst ` set (ft_saves c)"
| "ft_owed c g (Some (FtFailedStart caller e None)) \<longleftrightarrow> (\<exists>ob. (g, ob, True) \<in> set (ft_updates c))"
| "ft_owed c g _ \<longleftrightarrow> True"

definition telemetry_inv :: "telemetry \<Rightarrow> bool" where
  "telemetry_inv c \<longleftrightarrow>
     (\<forall>g > ft_generation c. ft_runs c g = None) \<and> (\<forall>s\<in>set (ft_live c). s < ft_next_subscription c) \<and>
     ft_live c = (case ft_subscription c of None \<Rightarrow> [] | Some s \<Rightarrow> [s]) \<and>
     (ft_disposed c \<longrightarrow> ft_subscription c = None) \<and>
     (\<not> ft_disposed c \<longrightarrow>
        ft_run_ok (ft_runs c (ft_generation c)) (ft_state c) (ft_preferenceLoaded c \<and> ft_preferenceEnabled c) (ft_subscription c))"

lemma ft_run_ok_fail:
  "ft_run_ok r st w sub \<Longrightarrow> ft_run_ok r (st\<lparr>fs_error := e, fs_runState := RunError\<rparr>) w None"
  by (cases "(r, st, w, sub)" rule: ft_run_ok.cases) auto

lemma ft_run_ok_frame [simp]:
  "ft_run_ok r (st\<lparr>fs_error := e\<rparr>) w sub = ft_run_ok r st w sub"
  "ft_run_ok r (st\<lparr>fs_observation := ob\<rparr>) w sub = ft_run_ok r st w sub"
  "ft_run_ok r (st\<lparr>fs_error := e, fs_observation := ob\<rparr>) w sub = ft_run_ok r st w sub"
  by (cases "(r, st, w, sub)" rule: ft_run_ok.cases; auto)+

lemma telemetry_inv_queues [simp]:
  "telemetry_inv (c\<lparr>ft_saves := q, ft_saving := b\<rparr>) = telemetry_inv c"
  "telemetry_inv (c\<lparr>ft_saving := b, ft_save_calls := l\<rparr>) = telemetry_inv c"
  "telemetry_inv (c\<lparr>ft_updates := u\<rparr>) = telemetry_inv c"
  "telemetry_inv (c\<lparr>ft_updates := u, ft_updating := b\<rparr>) = telemetry_inv c"
  "telemetry_inv (c\<lparr>ft_updating := b, ft_sent := s\<rparr>) = telemetry_inv c"
  "telemetry_inv (c\<lparr>ft_loading := ls\<rparr>) = telemetry_inv c"
  "telemetry_inv (c\<lparr>ft_listeners := n\<rparr>) = telemetry_inv c"
  "telemetry_inv (c\<lparr>ft_listeners := n, ft_shown := h\<rparr>) = telemetry_inv c"
  by (simp_all add: telemetry_inv_def)

lemma ft_run_ok_subscription:
  "ft_run_ok r st w sub \<Longrightarrow>
     (sub \<noteq> None \<longrightarrow> fs_enabled st \<and> w) \<and> (fs_runState st = RunActive \<longrightarrow> sub \<noteq> None)"
  by (cases "(r, st, w, sub)" rule: ft_run_ok.cases) auto

lemma activate_inv: "telemetry_inv c \<Longrightarrow> telemetry_inv (ft_activate k c)"
  by (auto simp: telemetry_inv_def ft_activate_def ctl_simps split: option.splits)

lemma suspend_inv: "telemetry_inv c \<Longrightarrow> telemetry_inv (ft_suspend c)"
  by (auto simp: telemetry_inv_def ft_suspend_def ctl_simps split: option.splits)

lemma setEnabled_inv: "telemetry_inv c \<Longrightarrow> telemetry_inv (ft_setEnabled b c)"
  by (auto simp: telemetry_inv_def ft_setEnabled_def ctl_simps split: option.splits)

lemma dispose_inv: "telemetry_inv c \<Longrightarrow> telemetry_inv (ft_dispose c)"
  by (auto simp: telemetry_inv_def ft_dispose_def ctl_simps split: option.splits)

lemma recorded_inv:
  "telemetry_inv c \<Longrightarrow> ft_runs c g = Some (FtRecording e) \<Longrightarrow> telemetry_inv (ft_recorded g e ob c)"
  by (auto simp: telemetry_inv_def ft_recorded_def ctl_simps split: option.splits settled.splits)

lemma started_inv:
  "telemetry_inv c \<Longrightarrow> ft_runs c g = Some (FtStarting caller) \<Longrightarrow> telemetry_inv (ft_started g caller b c)"
  by (auto simp: telemetry_inv_def ft_started_def ctl_simps split: option.splits settled.splits)

lemma failed_start_inv:
  "telemetry_inv c \<Longrightarrow> ft_runs c g = Some (FtFailedStart caller e (Some r)) \<Longrightarrow> telemetry_inv (ft_failed_start g caller e r c)"
  by (auto simp: telemetry_inv_def ft_failed_start_def ctl_simps split: option.splits settled.splits telemetry_caller.splits)

lemma join_inv:
  assumes "telemetry_inv c" and "ft_runs c g = Some (FtJoin ob0 en0)"
    and "ft_accepts c g \<Longrightarrow> en = Some (Fulfilled True) \<Longrightarrow> ft_preferenceLoaded c \<and> ft_preferenceEnabled c"
  shows "telemetry_inv (ft_join g ob en c)"
  using assms
  by (cases "(g, ob, en, c)" rule: ft_join.cases)
     (auto simp: telemetry_inv_def ft_join_rejected_def ft_joined_def ctl_simps split: option.splits if_splits)

lemma observed_inv: "telemetry_inv c \<Longrightarrow> telemetry_inv (ft_observed g ob c)"
  by (auto simp: ft_observed_def split: option.splits telemetry_run.splits intro!: join_inv)
     (auto simp: telemetry_inv_def ft_accepts_def)

lemma ft_run_ok_mono: "ft_run_ok r st False sub \<Longrightarrow> ft_run_ok r st w sub"
  by (cases "(r, st, False, sub)" rule: ft_run_ok.cases) auto

lemma note_preference_inv: "telemetry_inv c \<Longrightarrow> telemetry_inv (ft_note_preference b c)"
  by (auto simp: telemetry_inv_def ft_note_preference_def intro: ft_run_ok_mono)

lemma loaded_inv:
  assumes "telemetry_inv c"
  shows "telemetry_inv (ft_loaded g r c)"
proof -
  define c1 where "c1 = (case r of Fulfilled b \<Rightarrow> ft_note_preference b (c\<lparr>ft_loading := removeAll g (ft_loading c)\<rparr>)
    | Rejected _ \<Rightarrow> c\<lparr>ft_loading := removeAll g (ft_loading c)\<rparr>)"
  define r1 where "r1 = (case r of Fulfilled _ \<Rightarrow> Fulfilled (ft_preferenceEnabled c1) | Rejected e \<Rightarrow> Rejected e)"
  have inv: "telemetry_inv c1"
    using assms by (auto simp: c1_def note_preference_inv split: settled.splits)
  moreover have "r1 = Fulfilled True \<Longrightarrow> ft_preferenceLoaded c1 \<and> ft_preferenceEnabled c1"
    by (auto simp: c1_def r1_def ft_note_preference_def split: settled.splits if_splits)
  ultimately have "telemetry_inv (case ft_runs c1 g of Some (FtJoin ob None) \<Rightarrow> ft_join g ob (Some r1) c1 | _ \<Rightarrow> c1)"
    by (auto split: option.splits telemetry_run.splits intro!: join_inv)
  then show ?thesis by (simp only: ft_loaded_def Let_def c1_def r1_def)
qed

lemma disable_join_inv:
  "telemetry_inv c \<Longrightarrow> ft_runs c g = Some (FtDisabling sv0 rt0) \<Longrightarrow> telemetry_inv (ft_disable_join g sv rt c)"
  by (auto simp: telemetry_inv_def ft_disable_join_def ctl_simps split: option.splits settled.splits)

lemma cleared_inv: "telemetry_inv c \<Longrightarrow> telemetry_inv (ft_cleared g ob c)"
  by (auto simp: ft_cleared_def split: option.splits telemetry_run.splits intro: disable_join_inv)

lemma enable_saved_inv:
  "telemetry_inv c \<Longrightarrow> ft_runs c g = Some FtEnabling \<Longrightarrow> telemetry_inv (ft_enable_saved g r c)"
  by (auto simp: telemetry_inv_def ft_enable_saved_def ctl_simps split: option.splits settled.splits)

lemma save_settled_inv: "telemetry_inv c \<Longrightarrow> telemetry_inv (ft_save_settled r c)"
  by (auto simp: ft_save_settled_def Let_def split: list.splits option.splits telemetry_run.splits
      intro!: enable_saved_inv disable_join_inv)

lemma notify_start_inv:
  assumes "telemetry_inv c" and "\<not> ft_accepts c g \<or> r = Fulfilled () \<or> fs_runState (ft_state c) = RunError"
  shows "telemetry_inv (ft_notify_start g w r c)"
  using assms
  by (auto simp: telemetry_inv_def ft_notify_start_def ctl_simps split: option.splits telemetry_run.splits bool.splits)

lemma update_settled_inv:
  assumes "telemetry_inv c"
  shows "telemetry_inv (ft_update_settled r c)"
proof (cases "ft_updates c = [] \<or> \<not> ft_updating c")
  case True
  then show ?thesis using assms by (auto simp: ft_update_settled_def split: list.splits)
next
  case False
  then obtain g ob w rest where q: "ft_updates c = (g, ob, w) # rest" "ft_updating c" by (cases "ft_updates c") auto
  let ?c1 = "c\<lparr>ft_updates := rest, ft_updating := False\<rparr>"
  have inv: "telemetry_inv ?c1" using assms by simp
  have "telemetry_inv (ft_fail e ?c1) \<and> fs_runState (ft_state (ft_fail e ?c1)) = RunError" if "ft_accepts ?c1 g" for e
    using inv that by (auto simp: telemetry_inv_def ctl_simps intro: ft_run_ok_fail split: option.splits)
  moreover have "telemetry_inv (ft_publish ((ft_state ?c1)\<lparr>fs_error := None, fs_observation := Some v\<rparr>) ?c1)" for v
    using inv by (simp add: telemetry_inv_def ft_publish_def)
  ultimately show ?thesis
    using q inv by (cases r) (auto simp: ft_update_settled_def Let_def intro!: notify_start_inv)
qed

lemma update_begin_inv: "telemetry_inv c \<Longrightarrow> telemetry_inv (ft_update_begin c)"
  by (auto simp: ft_update_begin_def split: list.splits intro!: notify_start_inv)

lemma telemetry_step_inv: "telemetry_step c d \<Longrightarrow> telemetry_inv c \<Longrightarrow> telemetry_inv d"
  by (induction rule: telemetry_step.induct)
     (simp_all add: activate_inv suspend_inv setEnabled_inv dispose_inv observed_inv loaded_inv recorded_inv
       started_inv failed_start_inv cleared_inv save_settled_inv update_begin_inv update_settled_inv
       ft_subscribe_def ft_unsubscribe_def ft_save_begin_def ft_sample_def ft_queueObservation_def split: list.splits)

interpretation telemetry_run: step_invariant telemetry_step telemetry_inv
  by unfold_locales (rule telemetry_step_inv)

lemma telemetry_new_inv: "telemetry_inv telemetry_new"
  by (simp add: telemetry_inv_def telemetry_new_def)

section \<open>Suspended runs wait for something\<close>

definition telemetry_owed :: "telemetry \<Rightarrow> bool" where
  "telemetry_owed c \<longleftrightarrow> (\<forall>g. ft_owed c g (ft_runs c g))"

lemma ft_owed_cases [simp]:
  "ft_owed c g (Some (FtJoin ob en)) \<longleftrightarrow> (en = None \<longrightarrow> g \<in> set (ft_loading c))"
  "ft_owed c g (Some (FtDisabling sv rt)) \<longleftrightarrow> (sv = None \<longrightarrow> g \<in> fst ` set (ft_saves c))"
  "ft_owed c g (Some (FtFailedStart caller e r)) \<longleftrightarrow> (r = None \<longrightarrow> (\<exists>ob. (g, ob, True) \<in> set (ft_updates c)))"
  by (cases en, simp_all) (cases sv, simp_all, cases r, simp_all)

lemma ft_owed_grow:
  assumes "ft_owed c g r" and "g \<in> set (ft_loading c) \<longrightarrow> g \<in> set (ft_loading d)"
    and "g \<in> fst ` set (ft_saves c) \<longrightarrow> g \<in> fst ` set (ft_saves d)"
    and "\<forall>ob. (g, ob, True) \<in> set (ft_updates c) \<longrightarrow> (g, ob, True) \<in> set (ft_updates d)"
  shows "ft_owed d g r"
  using assms by (cases "(c, g, r)" rule: ft_owed.cases) auto

text \<open>A step that resumes the run of one generation and keeps what the others wait for.\<close>

lemma owed_step:
  assumes "telemetry_owed c" and "ft_owed d g (ft_runs d g)"
    and "\<And>h. h \<noteq> g \<Longrightarrow> ft_runs d h = ft_runs c h"
    and "set (ft_loading c) - {g} \<subseteq> set (ft_loading d)"
    and "fst ` set (ft_saves c) - {g} \<subseteq> fst ` set (ft_saves d)"
    and "\<And>h ob. h \<noteq> g \<Longrightarrow> (h, ob, True) \<in> set (ft_updates c) \<Longrightarrow> (h, ob, True) \<in> set (ft_updates d)"
  shows "telemetry_owed d"
  unfolding telemetry_owed_def
proof
  fix h
  show "ft_owed d h (ft_runs d h)"
  proof (cases "h = g")
    case False
    with assms(3) have "ft_runs d h = ft_runs c h" by simp
    moreover have "ft_owed c h (ft_runs c h)" using assms(1) by (simp add: telemetry_owed_def)
    ultimately show ?thesis using assms(4-6) False by (auto intro!: ft_owed_grow [of c h _ d])
  qed (use assms(2) in simp)
qed

lemma owed_same:
  assumes "telemetry_owed c" and "ft_runs d = ft_runs c" and "set (ft_loading c) \<subseteq> set (ft_loading d)"
    and "fst ` set (ft_saves c) \<subseteq> fst ` set (ft_saves d)" and "set (ft_updates c) \<subseteq> set (ft_updates d)"
  shows "telemetry_owed d"
  unfolding telemetry_owed_def
proof
  fix h
  have "ft_owed c h (ft_runs c h)" using assms(1) by (simp add: telemetry_owed_def)
  then show "ft_owed d h (ft_runs d h)" using assms(2-5) by (auto intro!: ft_owed_grow [of c h _ d])
qed

lemma owed_calls:
  assumes "telemetry_owed c"
  shows "telemetry_owed (ft_activate k c)" "telemetry_owed (ft_setEnabled b c)" "telemetry_owed (ft_suspend c)"
    "telemetry_owed (ft_dispose c)"
proof -
  show "telemetry_owed (ft_activate k c)"
    by (rule owed_step [OF assms, of _ "ft_generation c + 1"]) (use assms in \<open>auto simp: ft_activate_def ctl_simps telemetry_owed_def\<close>)
  show "telemetry_owed (ft_setEnabled b c)"
    by (rule owed_step [OF assms, of _ "ft_generation c + 1"]) (use assms in \<open>auto simp: ft_setEnabled_def ctl_simps telemetry_owed_def\<close>)
  show "telemetry_owed (ft_suspend c)" "telemetry_owed (ft_dispose c)"
    by (rule owed_same [OF assms]; auto simp: ft_suspend_def ft_dispose_def ctl_simps)+
qed

lemma owed_join:
  assumes "telemetry_owed c" and "en \<noteq> None \<or> g \<in> set (ft_loading c)"
  shows "telemetry_owed (ft_join g ob en c)"
  by (rule owed_step [OF assms(1), of _ g]; cases "(g, ob, en, c)" rule: ft_join.cases)
     (use assms in \<open>auto simp: ft_join_rejected_def ft_joined_def ctl_simps\<close>)

lemma owed_observed:
  assumes "telemetry_owed c"
  shows "telemetry_owed (ft_observed g r c)"
proof -
  have "ft_owed c g (ft_runs c g)" using assms by (simp add: telemetry_owed_def)
  then show ?thesis
    using assms by (auto simp: ft_observed_def split: option.splits telemetry_run.splits intro!: owed_join)
qed

lemma ft_join_frame [simp]:
  "h \<noteq> g \<Longrightarrow> ft_runs (ft_join g ob en c) h = ft_runs c h" "ft_loading (ft_join g ob en c) = ft_loading c"
  "ft_saves (ft_join g ob en c) = ft_saves c" "ft_updates (ft_join g ob en c) = ft_updates c"
  by (induction g ob en c rule: ft_join.induct) (simp_all add: ft_join_rejected_def ft_joined_def ctl_simps)

lemma ft_join_owed [simp]: "en \<noteq> None \<Longrightarrow> ft_owed d g (ft_runs (ft_join g ob en c) g)"
  by (induction g ob en c rule: ft_join.induct) (simp_all add: ft_join_rejected_def ft_joined_def ctl_simps)

lemma owed_loaded:
  assumes "telemetry_owed c"
  shows "telemetry_owed (ft_loaded g r c)"
proof -
  have "ft_owed c g (ft_runs c g)" using assms by (simp add: telemetry_owed_def)
  then show ?thesis
    by (intro owed_step [OF assms, of _ g])
       (auto simp: ft_loaded_def ft_note_preference_def Let_def split: settled.splits option.splits telemetry_run.splits)
qed

lemma owed_disable_join:
  assumes "telemetry_owed c" and "sv \<noteq> None \<or> g \<in> fst ` set (ft_saves c)"
  shows "telemetry_owed (ft_disable_join g sv rt c)"
  by (rule owed_step [OF assms(1), of _ g])
     (use assms in \<open>auto simp: ft_disable_join_def ctl_simps split: option.splits settled.splits\<close>)

lemma owed_cleared:
  assumes "telemetry_owed c"
  shows "telemetry_owed (ft_cleared g r c)"
proof -
  have "ft_owed c g (ft_runs c g)" using assms by (simp add: telemetry_owed_def)
  then show ?thesis
    using assms by (auto simp: ft_cleared_def split: option.splits telemetry_run.splits intro!: owed_disable_join)
qed

lemma owed_resumed:
  assumes "telemetry_owed c"
  shows "telemetry_owed (ft_recorded g x r c)" "telemetry_owed (ft_started g caller b c)"
    "telemetry_owed (ft_failed_start g caller e u c)"
proof -
  show "telemetry_owed (ft_recorded g x r c)"
    by (rule owed_step [OF assms, of _ g]) (auto simp: ft_recorded_def ctl_simps split: settled.splits)
  show "telemetry_owed (ft_started g caller b c)"
    by (rule owed_step [OF assms, of _ g]) (auto simp: ft_started_def ctl_simps split: settled.splits)
  show "telemetry_owed (ft_failed_start g caller e u c)"
    by (rule owed_step [OF assms, of _ g])
       (auto simp: ft_failed_start_def ctl_simps split: settled.splits telemetry_caller.splits)
qed

lemma owed_save_settled:
  assumes "telemetry_owed c"
  shows "telemetry_owed (ft_save_settled r c)"
proof (cases "ft_saves c = [] \<or> \<not> ft_saving c")
  case True
  then show ?thesis using assms by (auto simp: ft_save_settled_def split: list.splits)
next
  case False
  then obtain g b rest where q: "ft_saves c = (g, b) # rest" "ft_saving c" by (cases "ft_saves c") auto
  have "ft_owed c g (ft_runs c g)" using assms by (simp add: telemetry_owed_def)
  with q show ?thesis
    by (intro owed_step [OF assms, of _ g])
       (auto simp: ft_save_settled_def ft_enable_saved_def ft_disable_join_def ctl_simps
          split: option.splits telemetry_run.splits settled.splits)
qed

text \<open>The front of \<open>updates\<close> has settled: a \<open>start\<close> that awaited it is told.\<close>

lemma owed_notify:
  assumes "telemetry_owed c" and "ft_updates c = (g, ob, w) # ft_updates d" and "ft_runs d = ft_runs c"
    and "ft_loading d = ft_loading c" and "ft_saves d = ft_saves c"
  shows "telemetry_owed (ft_notify_start g w r d)"
proof -
  have "ft_owed c g (ft_runs c g)" using assms(1) by (simp add: telemetry_owed_def)
  then have "ft_owed (ft_notify_start g w r d) g (ft_runs (ft_notify_start g w r d) g)"
    using assms(2-5)
    by (cases "ft_runs c g"; cases "the (ft_runs c g)"; cases w)
       (auto simp: ft_notify_start_def ft_suspend_at_def split: option.splits)
  then show ?thesis
    by (rule owed_step [OF assms(1)])
       (use assms(2-5) in \<open>auto simp: ft_notify_start_def ft_suspend_at_def split: option.splits telemetry_run.splits bool.splits\<close>)
qed

lemma owed_updates:
  assumes "telemetry_owed c"
  shows "telemetry_owed (ft_update_begin c)" "telemetry_owed (ft_update_settled r c)"
proof -
  show "telemetry_owed (ft_update_begin c)"
    using assms owed_same [OF assms, of "c\<lparr>ft_updating := True, ft_sent := ft_sent c @ [ob]\<rparr>" for ob]
    by (auto simp: ft_update_begin_def split: list.splits intro!: owed_notify [OF assms])
  show "telemetry_owed (ft_update_settled r c)"
    using assms by (auto simp: ft_update_settled_def Let_def ft_fail_def ft_publish_def ft_remove_subscription_def
        split: list.splits settled.splits intro!: owed_notify [OF assms])
qed

lemma telemetry_step_owed: "telemetry_step c d \<Longrightarrow> telemetry_owed c \<Longrightarrow> telemetry_owed d"
proof (induction rule: telemetry_step.induct)
  case (ft_provider g c ob)
  then show ?case by (auto intro!: owed_same [of c] simp: ft_sample_def ft_queueObservation_def)
next
  case (ft_queue_save c)
  then show ?case by (auto intro!: owed_same [of c] simp: ft_save_begin_def split: list.splits)
next
  case (ft_call_subscribe c l)
  then show ?case by (auto intro!: owed_same [of c] simp: ft_subscribe_def)
next
  case (ft_call_unsubscribe c l)
  then show ?case by (auto intro!: owed_same [of c] simp: ft_unsubscribe_def)
qed (simp_all add: owed_calls owed_observed owed_loaded owed_resumed owed_cleared owed_save_settled owed_updates)

interpretation telemetry_wait: step_invariant telemetry_step telemetry_owed
  by unfold_locales (rule telemetry_step_owed)

section \<open>Generations\<close>

lemmas telemetry_ops =
  ft_subscribe_def ft_unsubscribe_def ft_activate_def ft_suspend_def ft_setEnabled_def ft_dispose_def ft_observed_def
  ft_loaded_def ft_note_preference_def ft_recorded_def ft_started_def ft_failed_start_def ft_cleared_def
  ft_disable_join_def ft_save_begin_def ft_save_settled_def ft_enable_saved_def ft_update_begin_def
  ft_update_settled_def ft_notify_start_def ft_sample_def

lemma ft_join_disposed: "ft_disposed c \<Longrightarrow> ft_disposed (ft_join g ob en c) \<and> ft_shown (ft_join g ob en c) = ft_shown c"
  by (induction g ob en c rule: ft_join.induct) (simp_all add: ft_join_rejected_def ft_joined_def ctl_simps)

lemma telemetry_disposed_step: "telemetry_step c d \<Longrightarrow> ft_disposed c \<Longrightarrow> ft_disposed d \<and> ft_shown d = ft_shown c"
  by (induction rule: telemetry_step.induct)
     (simp_all add: telemetry_ops ft_join_disposed ctl_simps
       split: option.splits settled.splits list.splits telemetry_run.splits telemetry_caller.splits bool.splits)

lemma ft_join_generation [simp]: "ft_generation (ft_join g ob en c) = ft_generation c"
  by (induction g ob en c rule: ft_join.induct) (simp_all add: ft_join_rejected_def ft_joined_def ctl_simps)

lemma telemetry_generation_mono: "telemetry_step c d \<Longrightarrow> ft_generation c \<le> ft_generation d"
  by (induction rule: telemetry_step.induct)
     (simp_all add: telemetry_ops ctl_simps
       split: option.splits settled.splits list.splits telemetry_run.splits telemetry_caller.splits bool.splits)

interpretation telemetry_owner: generation_owner telemetry_step ft_generation ft_accepts ft_disposed ft_shown
  by unfold_locales (auto simp: telemetry_generation_mono telemetry_disposed_step ft_accepts_def)

section \<open>Properties\<close>

text \<open>A controller that has been enabled, activated for a device and told by the provider that it collects.\<close>

definition telemetry_activated :: telemetry where
  "telemetry_activated = ft_activate (js ''board'') (ft_setEnabled True telemetry_new)"

definition telemetry_active :: telemetry where
  "telemetry_active = ft_started 2 FromActivate (Fulfilled True)
     (ft_observed 2 (Fulfilled (LocationUnavailable NotObserved)) telemetry_activated)"

lemma telemetry_activated_reach: "telemetry_step\<^sup>*\<^sup>* telemetry_new telemetry_activated"
  unfolding telemetry_activated_def
  by (rule rtranclp.rtrancl_into_rtrancl [OF r_into_rtranclp])
     (rule telemetry_step.ft_call_setEnabled, rule telemetry_step.ft_call_activate)

lemmas telemetry_example = telemetry_active_def telemetry_activated_def telemetry_new_def telemetry_ops ft_joined_def ctl_simps

lemma telemetry_active_reach: "telemetry_step\<^sup>*\<^sup>* telemetry_new telemetry_active"
proof -
  let ?c = "ft_observed 2 (Fulfilled (LocationUnavailable NotObserved)) telemetry_activated"
  have "telemetry_step telemetry_activated ?c" by (rule telemetry_step.ft_answer_observed)
  moreover have "ft_runs ?c 2 = Some (FtStarting FromActivate)" by (simp add: telemetry_example)
  then have "telemetry_step ?c telemetry_active" unfolding telemetry_active_def by (rule telemetry_step.ft_answer_started)
  ultimately show ?thesis using telemetry_activated_reach by simp
qed

text \<open>
  C19. The phone is located only with consent: in every state the controller can reach, at most one
  subscription of the location provider is alive, it is the one the controller owns and would remove, and
  while it is alive the controller is not disposed, shows itself enabled, and its loaded preference is on.
  Conversely, a controller that shows itself active owns a live subscription.
\<close>

theorem telemetry_subscription_needs_consent:
  assumes "telemetry_step\<^sup>*\<^sup>* telemetry_new c"
  shows "ft_live c = (case ft_subscription c of None \<Rightarrow> [] | Some s \<Rightarrow> [s]) \<and>
    (ft_live c \<noteq> [] \<longrightarrow> \<not> ft_disposed c \<and> fs_enabled (ft_state c) \<and> ft_preferenceLoaded c \<and> ft_preferenceEnabled c) \<and>
    (fs_runState (ft_state c) = RunActive \<and> \<not> ft_disposed c \<longrightarrow> ft_live c \<noteq> [])"
proof -
  have inv: "telemetry_inv c" using telemetry_run.reach_inv [OF assms telemetry_new_inv] .
  show ?thesis
  proof (cases "ft_disposed c")
    case True
    then show ?thesis using inv by (simp add: telemetry_inv_def)
  next
    case False
    then have "ft_run_ok (ft_runs c (ft_generation c)) (ft_state c) (ft_preferenceLoaded c \<and> ft_preferenceEnabled c)
      (ft_subscription c)" using inv by (simp add: telemetry_inv_def)
    from ft_run_ok_subscription [OF this] show ?thesis using inv by (auto simp: telemetry_inv_def split: option.splits)
  qed
qed

theorem telemetry_subscription_needs_consent_witness:
  "ft_live telemetry_active = [0] \<and> fs_enabled (ft_state telemetry_active) \<and> ft_preferenceEnabled telemetry_active"
proof -
  have "ft_subscription telemetry_active = Some 0" by (simp add: telemetry_example)
  then show ?thesis using telemetry_subscription_needs_consent [OF telemetry_active_reach] by simp
qed

text \<open>
  Samples stop at once: after \<open>suspend\<close>, \<open>dispose\<close> or a \<open>setEnabled\<close> that changes the switch, an
  observation of an earlier run that is still queued or is queued later is never handed to the device: in
  every later state it is dropped when its turn in the queue comes.
\<close>

theorem telemetry_stop_drops_samples:
  assumes "\<not> ft_disposed c" and "d \<in> {ft_suspend c, ft_dispose c, ft_setEnabled (\<not> fs_enabled (ft_state c)) c}"
    and "telemetry_step\<^sup>*\<^sup>* d e" and "g \<le> ft_generation c" and "ft_updates e = (g, ob, w) # rest" and "\<not> ft_updating e"
  shows "ft_sent (ft_update_begin e) = ft_sent e \<and> ft_updates (ft_update_begin e) = rest"
proof -
  have "g < ft_generation d" using assms(1,2,4) by (auto simp: telemetry_ops ctl_simps)
  then have "\<not> ft_accepts e g" using telemetry_owner.superseded_forever [OF assms(3)] by blast
  then show ?thesis
    using assms(5,6) by (auto simp: ft_update_begin_def ft_notify_start_def ft_suspend_at_def
        split: bool.splits option.splits telemetry_run.splits)
qed

theorem telemetry_stop_drops_samples_witness:
  "ft_sent (ft_update_begin (ft_suspend (ft_sample 2 (LocationUnavailable NoFixYet) telemetry_active))) = []"
  using telemetry_stop_drops_samples [of "ft_sample 2 (LocationUnavailable NoFixYet) telemetry_active"
      "ft_suspend (ft_sample 2 (LocationUnavailable NoFixYet) telemetry_active)",
      OF _ _ rtranclp.rtrancl_refl, of 2 "LocationUnavailable NoFixYet" False "[]"]
  by (simp add: telemetry_example)

text \<open>
  A start is never forgotten: in every reachable state that shows \<open>starting\<close> the call of the present
  generation is suspended at an await, and what it waits for is still owed to it: a preference being loaded,
  a save or an update that is still in its queue, or an answer of the device or the provider.
\<close>

theorem telemetry_starting_progresses:
  assumes "telemetry_step\<^sup>*\<^sup>* telemetry_new c" and "\<not> ft_disposed c" and "fs_runState (ft_state c) = RunStarting"
  shows "\<exists>run. ft_runs c (ft_generation c) = Some run \<and> ft_owed c (ft_generation c) (Some run)"
proof -
  have "telemetry_inv c" using telemetry_run.reach_inv [OF assms(1) telemetry_new_inv] .
  then have "ft_runs c (ft_generation c) \<noteq> None"
    using assms(2,3) by (cases "ft_runs c (ft_generation c)") (auto simp: telemetry_inv_def)
  moreover have "telemetry_owed c"
    using telemetry_wait.reach_inv [OF assms(1)] by (simp add: telemetry_owed_def telemetry_new_def)
  ultimately show ?thesis unfolding telemetry_owed_def by (metis not_None_eq)
qed

theorem telemetry_starting_progresses_witness:
  "\<exists>run. ft_runs telemetry_activated 2 = Some run \<and> ft_owed telemetry_activated 2 (Some run)"
  using telemetry_starting_progresses [OF telemetry_activated_reach] by (simp add: telemetry_example)

text \<open>
  A failed activation shows the switch off while the preference stays on: in that state turning telemetry off
  does nothing at all, so nothing is saved, and the next activation of a device starts with the preference on.
\<close>

theorem telemetry_error_ignores_opt_out:
  assumes "c = ft_recorded 2 (Some e) r (ft_observed 2 (Rejected (ErrorObject e)) telemetry_activated)"
  shows "ft_setEnabled False c = c \<and> ft_preferenceEnabled c \<and> fs_runState (ft_state c) = RunError \<and>
    fs_enabled (ft_state (ft_activate k c))"
  using assms by (auto simp: telemetry_example ft_join_rejected_def split: settled.splits)

end
