(* ===== verification/NearbyPeers.thy ===== *)
theory NearbyPeers
  imports JsCollections RadioRoutes NetworkInput
begin

text \<open>
  Model of \<open>lib/nearby-peers.ts\<close>: the grouping of node-scoped announce observations into contacts, the summary
  of the nodes that observed them, and the labels of the Nearby surface. The rows are \<open>NearbyPeerView\<close> of
  \<open>generated/api.ts\<close>. \<open>localeCompare\<close> is applied to hexadecimal strings, preceded for observers by one of two
  lower-case words and a NUL; on these the collation order is the order by code unit.
\<close>

section \<open>Data\<close>

datatype NearbyPeerObserverKind = ObserverPhone | ObserverAppliance

record NearbyPeerView =
  np_destination :: jstring
  np_associated_nomad_destination :: jstring
  np_display_name :: "jstring option"
  np_hops :: nat
  np_identity_hash :: jstring
  np_interface_id :: "nat list"
  np_interface_name :: "jstring option"
  np_observer_kind :: NearbyPeerObserverKind
  np_observer_management_destination :: "jstring option"
  np_observed_age_ms :: int

record NearbyContactSummary =
  cs_destination :: jstring
  cs_representative :: NearbyPeerView
  cs_observations :: "NearbyPeerView list"

record NearbyObserverSummary =
  os_observerKind :: NearbyPeerObserverKind
  os_observerManagementDestination :: "jstring option"
  os_peerCount :: nat
  os_observationCount :: nat
  os_interfaceLabels :: "jstring list"
  os_freshestObservedAgeMs :: int

record NearbyNetworkSummary =
  ns_peerCount :: nat
  ns_observationCount :: nat
  ns_unaddedPeerCount :: nat
  ns_observerCount :: nat
  ns_observers :: "NearbyObserverSummary list"

definition NEARBY_FOREGROUND_POLL_INTERVAL_MS :: int where "NEARBY_FOREGROUND_POLL_INTERVAL_MS = 10000"
definition MAX_CONTACT_NAME_BYTES :: nat where "MAX_CONTACT_NAME_BYTES = 256"

section \<open>Keys\<close>

definition normalizedDestination :: "jstring \<Rightarrow> jstring" where
  "normalizedDestination destination = js_lower (js_trim destination)"

definition normalizedFingerprint :: "NearbyPeerView \<Rightarrow> jstring" where
  "normalizedFingerprint peer =
     (let identity = js_lower (js_trim (np_identity_hash peer))
      in if hex32 identity then identity else js_lower (js_trim (np_destination peer)))"

definition observerKind :: "NearbyPeerView \<Rightarrow> NearbyPeerObserverKind" where
  "observerKind peer = (if np_observer_kind peer = ObserverAppliance then ObserverAppliance else ObserverPhone)"

definition observerDestination :: "NearbyPeerView \<Rightarrow> jstring option" where
  "observerDestination peer =
     (let destination = (case np_observer_management_destination peer of None \<Rightarrow> [] | Some d \<Rightarrow> js_lower (js_trim d))
      in if hex32 destination then Some destination else None)"

fun observer_kind_text :: "NearbyPeerObserverKind \<Rightarrow> jstring" where
  "observer_kind_text ObserverAppliance = js ''appliance''"
| "observer_kind_text ObserverPhone = js ''phone''"

definition observerKey :: "NearbyPeerView \<Rightarrow> jstring" where
  "observerKey peer = observer_kind_text (observerKind peer) @ [0] @
     (case observerDestination peer of None \<Rightarrow> [] | Some d \<Rightarrow> d)"

definition observationKey :: "NearbyPeerView \<Rightarrow> jstring" where
  "observationKey peer = observerKey peer @ [0] @ reticulumInterfaceIdHex (np_interface_id peer)"

definition non_negative :: "jnumber \<Rightarrow> int" where
  "non_negative n = (case n of Finite i \<Rightarrow> max 0 i | NotFinite \<Rightarrow> 0)"

definition advancedObservationAge :: "jnumber \<Rightarrow> jnumber \<Rightarrow> int" where
  "advancedObservationAge ageMs elapsedSinceFetchMs =
     min MAX_SAFE_INTEGER (non_negative ageMs + non_negative elapsedSinceFetchMs)"

definition nearbySnapshotElapsedMs :: "jnumber option \<Rightarrow> jnumber \<Rightarrow> int" where
  "nearbySnapshotElapsedMs fetchedAtMs nowMs =
     (case (fetchedAtMs, nowMs) of (Some (Finite f), Finite n) \<Rightarrow> max 0 (n - f) | _ \<Rightarrow> 0)"

section \<open>Grouping\<close>

record nearby_group =
  ng_representative :: NearbyPeerView
  ng_observations :: "(jstring \<times> NearbyPeerView) list"

definition nearby_better :: "NearbyPeerView \<Rightarrow> NearbyPeerView \<Rightarrow> bool" where
  "nearby_better peer retained \<longleftrightarrow>
     (let retainedHasName = (np_display_name retained \<noteq> None); candidateHasName = (np_display_name peer \<noteq> None)
      in (candidateHasName \<and> \<not> retainedHasName) \<or>
         (candidateHasName = retainedHasName \<and> np_observed_age_ms peer < np_observed_age_ms retained))"

definition nearby_merge :: "nearby_group \<Rightarrow> NearbyPeerView \<Rightarrow> nearby_group" where
  "nearby_merge existing peer =
     (let key = observationKey peer;
          observations = (case map_of (ng_observations existing) key of
              None \<Rightarrow> AList.update key peer (ng_observations existing)
            | Some retained \<Rightarrow>
                if np_observed_age_ms peer < np_observed_age_ms retained
                then AList.update key peer (ng_observations existing) else ng_observations existing)
      in \<lparr>ng_representative = (if nearby_better peer (ng_representative existing) then peer else ng_representative existing),
          ng_observations = observations\<rparr>)"

definition nearby_group_add :: "(jstring \<times> nearby_group) list \<Rightarrow> NearbyPeerView \<Rightarrow> (jstring \<times> nearby_group) list" where
  "nearby_group_add grouped peer =
     (let destination = normalizedDestination (np_destination peer)
      in if \<not> hex32 destination then grouped
         else case map_of grouped destination of
           None \<Rightarrow> AList.update destination
             \<lparr>ng_representative = peer, ng_observations = [(observationKey peer, peer)]\<rparr> grouped
         | Some existing \<Rightarrow> AList.update destination (nearby_merge existing peer) grouped)"

definition nearby_contact :: "jstring \<times> nearby_group \<Rightarrow> NearbyContactSummary" where
  "nearby_contact entry =
     \<lparr>cs_destination = fst entry, cs_representative = ng_representative (snd entry),
      cs_observations = sort_key (\<lambda>p. (observerKey p, reticulumInterfaceIdHex (np_interface_id p)))
        (map snd (ng_observations (snd entry)))\<rparr>"

definition nearbyContacts :: "NearbyPeerView list \<Rightarrow> NearbyContactSummary list" where
  "nearbyContacts peers = map nearby_contact (sort_key fst (foldl nearby_group_add [] peers))"

section \<open>Summary\<close>

record observer_entry =
  oe_observerKind :: NearbyPeerObserverKind
  oe_observerManagementDestination :: "jstring option"
  oe_peers :: "jstring list"
  oe_observationCount :: nat
  oe_interfaceLabels :: "jstring list"
  oe_freshestObservedAgeMs :: int

definition nearby_interface_label :: "NearbyPeerView \<Rightarrow> jstring" where
  "nearby_interface_label peer =
     (let name = (case np_interface_name peer of None \<Rightarrow> [] | Some n \<Rightarrow> js_trim n)
      in if name \<noteq> [] then name else js ''Interface '' @ reticulumInterfaceIdHex (np_interface_id peer))"

definition observer_start :: "jnumber \<Rightarrow> jstring \<times> NearbyPeerView \<Rightarrow> observer_entry" where
  "observer_start elapsed row =
     (let peer = snd row in
      \<lparr>oe_observerKind = observerKind peer, oe_observerManagementDestination = observerDestination peer,
       oe_peers = [fst row], oe_observationCount = 1, oe_interfaceLabels = [nearby_interface_label peer],
       oe_freshestObservedAgeMs = advancedObservationAge (Finite (np_observed_age_ms peer)) elapsed\<rparr>)"

definition observer_merge :: "jnumber \<Rightarrow> observer_entry \<Rightarrow> jstring \<times> NearbyPeerView \<Rightarrow> observer_entry" where
  "observer_merge elapsed existing row =
     (let peer = snd row in
      existing\<lparr>oe_peers := js_set_add (fst row) (oe_peers existing),
        oe_observationCount := oe_observationCount existing + 1,
        oe_interfaceLabels := js_set_add (nearby_interface_label peer) (oe_interfaceLabels existing),
        oe_freshestObservedAgeMs := min (oe_freshestObservedAgeMs existing)
          (advancedObservationAge (Finite (np_observed_age_ms peer)) elapsed)\<rparr>)"

definition observer_add :: "jnumber \<Rightarrow> jstring \<Rightarrow> (jstring \<times> observer_entry) list \<Rightarrow> NearbyPeerView
    \<Rightarrow> (jstring \<times> observer_entry) list" where
  "observer_add elapsed destination observers peer =
     js_map_upsert (observerKey peer) (observer_start elapsed (destination, peer))
       (\<lambda>existing. observer_merge elapsed existing (destination, peer)) observers"

text \<open>The loop over the contacts, with the loop over the observations of one contact inside.\<close>

fun summary_loop :: "jnumber \<Rightarrow> jstring list \<Rightarrow> NearbyContactSummary list
    \<Rightarrow> (jstring \<times> observer_entry) list \<times> nat \<Rightarrow> (jstring \<times> observer_entry) list \<times> nat" where
  "summary_loop elapsed known [] acc = acc"
| "summary_loop elapsed known (contact # rest) (observers, unadded) =
     summary_loop elapsed known rest
       (foldl (observer_add elapsed (cs_destination contact)) observers (cs_observations contact),
        if cs_destination contact \<in> set known then unadded else unadded + 1)"

definition observer_summary :: "observer_entry \<Rightarrow> NearbyObserverSummary" where
  "observer_summary observer =
     \<lparr>os_observerKind = oe_observerKind observer,
      os_observerManagementDestination = oe_observerManagementDestination observer,
      os_peerCount = length (oe_peers observer), os_observationCount = oe_observationCount observer,
      os_interfaceLabels = sort (oe_interfaceLabels observer),
      os_freshestObservedAgeMs = oe_freshestObservedAgeMs observer\<rparr>"

definition nearbyNetworkSummary :: "NearbyPeerView list \<Rightarrow> jstring list \<Rightarrow> jnumber \<Rightarrow> NearbyNetworkSummary" where
  "nearbyNetworkSummary peers contacts elapsed =
     (let known = js_set_of (map normalizedDestination contacts);
          groupedContacts = nearbyContacts peers;
          (observers, unadded) = summary_loop elapsed known groupedContacts ([], 0);
          observedNodes = map (\<lambda>entry. observer_summary (snd entry)) (sort_key fst observers)
      in \<lparr>ns_peerCount = length groupedContacts,
          ns_observationCount = foldl (\<lambda>count contact. count + length (cs_observations contact)) 0 groupedContacts,
          ns_unaddedPeerCount = unadded, ns_observerCount = length observedNodes, ns_observers = observedNodes\<rparr>)"

section \<open>Labels\<close>

definition nearbyObserverLabel :: "NearbyPeerObserverKind \<Rightarrow> jstring option \<Rightarrow> jstring option \<Rightarrow> jstring" where
  "nearbyObserverLabel kind managementDestination applianceLabel =
     (if kind = ObserverPhone then js ''This phone''
      else let label = map_option js_trim applianceLabel
           in if label \<noteq> None \<and> the label \<noteq> [] then the label
              else case managementDestination of
                None \<Rightarrow> js ''Connected appliance''
              | Some destination \<Rightarrow> js ''Appliance '' @ take 4 destination @ js '' '' @ take 4 (drop 4 destination))"

definition nearbyPeerAge :: "jnumber \<Rightarrow> jstring" where
  "nearbyPeerAge ageMs =
     (let safeAge = nat (non_negative ageMs)
      in if safeAge < 5000 then js ''just now''
         else if safeAge < 60000 then nat_digits (safeAge div 1000) @ js ''s ago''
         else if safeAge < 3600000 then nat_digits (safeAge div 60000) @ js ''m ago''
         else if safeAge < 86400000 then nat_digits (safeAge div 3600000) @ js ''h ago''
         else nat_digits (safeAge div 86400000) @ js ''d ago'')"

definition nearbyObserverSummaryHint :: "NearbyObserverSummary \<Rightarrow> jstring" where
  "nearbyObserverSummaryHint summary =
     (let peerLabel = (if os_peerCount summary = 1 then js ''peer'' else js ''peers'');
          observationLabel = (if os_observationCount summary = 1 then js ''observation'' else js ''observations'')
      in js_join [32, 183, 32]
          [nat_digits (os_peerCount summary) @ js '' '' @ peerLabel,
           nat_digits (os_observationCount summary) @ js '' '' @ observationLabel,
           js_join (js '', '') (os_interfaceLabels summary),
           js ''last announce '' @ nearbyPeerAge (Finite (os_freshestObservedAgeMs summary))])"

definition nearbyPeerFingerprint :: "NearbyPeerView \<Rightarrow> jstring" where
  "nearbyPeerFingerprint peer =
     (let compact = js_padEnd 12 48 (take 12 (normalizedFingerprint peer))
      in take 4 compact @ js '' '' @ take 4 (drop 4 compact) @ js '' '' @ take 4 (drop 8 compact))"

definition nearbyPeerSuggestedName :: "NearbyPeerView \<Rightarrow> jstring" where
  "nearbyPeerSuggestedName peer =
     (let announcedName = (case np_display_name peer of None \<Rightarrow> [] | Some n \<Rightarrow> js_trim n)
      in if announcedName \<noteq> [] \<and> utf8ByteLength announcedName \<le> MAX_CONTACT_NAME_BYTES then announcedName
         else js ''Peer '' @ nearbyPeerFingerprint peer)"

fun first_associated_nomad :: "NearbyPeerView list \<Rightarrow> jstring \<Rightarrow> jstring option" where
  "first_associated_nomad [] normalizedLxmf = None"
| "first_associated_nomad (peer # rest) normalizedLxmf =
     (if js_lower (js_trim (np_destination peer)) \<noteq> normalizedLxmf then first_associated_nomad rest normalizedLxmf
      else let nomadDestination = js_lower (js_trim (np_associated_nomad_destination peer))
           in if hex32 nomadDestination \<and> nomadDestination \<noteq> normalizedLxmf then Some nomadDestination
              else first_associated_nomad rest normalizedLxmf)"

definition associatedNomadDestinationForLxmf :: "NearbyPeerView list \<Rightarrow> jstring \<Rightarrow> jstring option" where
  "associatedNomadDestinationForLxmf peers lxmfDestination =
     (let normalizedLxmf = js_lower (js_trim lxmfDestination)
      in if \<not> hex32 normalizedLxmf then None else first_associated_nomad peers normalizedLxmf)"

definition nearbyPeerObservationHint :: "NearbyPeerView \<Rightarrow> jstring option \<Rightarrow> jnumber \<Rightarrow> jstring" where
  "nearbyPeerObservationHint peer applianceLabel elapsed =
     (let interfaceName = map_option js_trim (np_interface_name peer)
      in js_join [32, 183, 32]
          [nearbyObserverLabel (observerKind peer) (observerDestination peer) applianceLabel,
           nat_digits (np_hops peer) @ js '' '' @ (if np_hops peer = 1 then js ''hop'' else js ''hops''),
           (if interfaceName = None \<or> interfaceName = Some []
            then js ''interface '' @ reticulumInterfaceIdHex (np_interface_id peer) else the interfaceName),
           js ''announced '' @ nearbyPeerAge (Finite (advancedObservationAge (Finite (np_observed_age_ms peer)) elapsed))])"

section \<open>The grouping against its reference\<close>

definition keep_better :: "NearbyPeerView \<Rightarrow> NearbyPeerView \<Rightarrow> NearbyPeerView" where
  "keep_better x y = (if nearby_better y x then y else x)"

definition keep_fresher :: "NearbyPeerView \<Rightarrow> NearbyPeerView \<Rightarrow> NearbyPeerView" where
  "keep_fresher x y = (if np_observed_age_ms y < np_observed_age_ms x then y else x)"

interpretation representative: keep_best nearby_better keep_better
  by unfold_locales (auto simp: nearby_better_def keep_better_def Let_def)

interpretation freshest: keep_best "\<lambda>y x. np_observed_age_ms y < np_observed_age_ms x" keep_fresher
  by unfold_locales (auto simp: keep_fresher_def)

definition same_destination :: "jstring \<Rightarrow> NearbyPeerView list \<Rightarrow> NearbyPeerView list" where
  "same_destination d peers = filter (\<lambda>p. normalizedDestination (np_destination p) = d) peers"

definition observations_of :: "NearbyPeerView list \<Rightarrow> (jstring \<times> NearbyPeerView) list" where
  "observations_of ps = group_by observationKey (\<lambda>p. p) keep_fresher ps"

lemma merge_observations:
  "(case map_of m k of None \<Rightarrow> AList.update k p m
    | Some r \<Rightarrow> if np_observed_age_ms p < np_observed_age_ms r then AList.update k p m else m) =
   js_map_upsert k p (\<lambda>r. keep_fresher r p) m"
  by (auto simp: js_map_upsert_def keep_fresher_def update_triv split: option.splits)

lemma nearby_merge_eq:
  "nearby_merge g p = \<lparr>ng_representative = keep_better (ng_representative g) p,
     ng_observations = js_map_upsert (observationKey p) p (\<lambda>r. keep_fresher r p) (ng_observations g)\<rparr>"
  by (simp add: nearby_merge_def Let_def keep_better_def merge_observations [symmetric])

lemma nearby_merge_fold:
  "foldl nearby_merge \<lparr>ng_representative = x, ng_observations = observations_of xs\<rparr> ys =
     \<lparr>ng_representative = foldl keep_better x ys, ng_observations = observations_of (xs @ ys)\<rparr>"
proof (induction ys arbitrary: x xs)
  case (Cons y ys)
  have "nearby_merge \<lparr>ng_representative = x, ng_observations = observations_of xs\<rparr> y =
      \<lparr>ng_representative = keep_better x y, ng_observations = observations_of (xs @ [y])\<rparr>"
    by (simp add: nearby_merge_eq observations_of_def group_by_snoc)
  then show ?case using Cons.IH [of _ "xs @ [y]"] by simp
qed simp

definition nearby_start :: "NearbyPeerView \<Rightarrow> nearby_group" where
  "nearby_start p = \<lparr>ng_representative = p, ng_observations = observations_of [p]\<rparr>"

lemma observations_single: "observations_of [p] = [(observationKey p, p)]"
  by (simp add: observations_of_def group_by_def js_map_upsert_def)

lemma nearby_groups:
  "foldl nearby_group_add [] peers =
     group_by (\<lambda>p. normalizedDestination (np_destination p)) nearby_start nearby_merge
       (filter (\<lambda>p. hex32 (normalizedDestination (np_destination p))) peers)"
  by (induction peers rule: rev_induct)
     (simp_all add: group_by_snoc nearby_group_add_def Let_def js_map_upsert_def nearby_start_def observations_single)

lemma nearby_group_content:
  assumes "(d, g) \<in> set (foldl nearby_group_add [] peers)"
  obtains y ys where "same_destination d peers = y # ys" and "ng_representative g = foldl keep_better y ys"
    and "ng_observations g = observations_of (y # ys)" and "hex32 d"
proof -
  obtain y ys where f: "filter (\<lambda>p. normalizedDestination (np_destination p) = d)
      (filter (\<lambda>p. hex32 (normalizedDestination (np_destination p))) peers) = y # ys"
    and g: "g = foldl nearby_merge (nearby_start y) ys"
    using assms unfolding nearby_groups by (rule in_group_by)
  have "y \<in> set (filter (\<lambda>p. normalizedDestination (np_destination p) = d)
      (filter (\<lambda>p. hex32 (normalizedDestination (np_destination p))) peers))" unfolding f by simp
  then have d: "hex32 d" by auto
  moreover have "same_destination d peers = y # ys"
    using d f [symmetric] by (auto simp: same_destination_def intro!: filter_cong)
  moreover have "g = \<lparr>ng_representative = foldl keep_better y ys, ng_observations = observations_of (y # ys)\<rparr>"
    using g nearby_merge_fold [of y "[y]" ys] by (simp add: nearby_start_def)
  ultimately show ?thesis using that by simp
qed

lemma observations_of_content:
  assumes "(k, p) \<in> set (observations_of ps)"
  shows "observationKey p = k" and "p \<in> set ps"
    and "q \<in> set ps \<Longrightarrow> observationKey q = k \<Longrightarrow> np_observed_age_ms p \<le> np_observed_age_ms q"
proof -
  obtain y ys where f: "filter (\<lambda>x. observationKey x = k) ps = y # ys" and p: "p = foldl keep_fresher y ys"
    using assms unfolding observations_of_def by (rule in_group_by)
  have set: "set (y # ys) = {x \<in> set ps. observationKey x = k}" using f by (metis set_filter)
  then have "p \<in> {x \<in> set ps. observationKey x = k}" using freshest.foldl_keep_in [of y ys] p by auto
  then show "observationKey p = k" "p \<in> set ps" by auto
  show "np_observed_age_ms p \<le> np_observed_age_ms q" if "q \<in> set ps" "observationKey q = k"
    using freshest.foldl_keep_best [of q y ys] p set that by fastforce
qed

lemma observation_keys: "map (\<lambda>e. observationKey (snd e)) (observations_of ps) = map fst (observations_of ps)"
  by (rule map_cong) (auto simp: observations_of_content(1))

lemma nearby_observations_sorted:
  fixes ps :: "NearbyPeerView list" and f :: "NearbyPeerView \<Rightarrow> jstring \<times> jstring"
  defines "xs \<equiv> sort_key f (map snd (observations_of ps))"
  shows "distinct (map observationKey xs)" "set (map observationKey xs) = set (map observationKey ps)"
    "\<forall>x\<in>set xs. x \<in> set ps \<and> (\<forall>p\<in>set ps. observationKey p = observationKey x \<longrightarrow> np_observed_age_ms x \<le> np_observed_age_ms p)"
proof -
  have keys: "map observationKey (map snd (observations_of ps)) = map fst (observations_of ps)"
    using observation_keys by (simp add: comp_def)
  have "mset (map observationKey xs) = mset (map fst (observations_of ps))"
    unfolding keys [symmetric] xs_def by (metis mset_map mset_sort)
  moreover have "map fst (observations_of ps) = js_set_of (map observationKey ps)"
    by (simp add: observations_of_def keys_group_by)
  ultimately show "distinct (map observationKey xs)" "set (map observationKey xs) = set (map observationKey ps)"
    by (metis distinct_js_set_of mset_eq_imp_distinct_iff, metis set_js_set_of mset_eq_setD)
  show "\<forall>x\<in>set xs. x \<in> set ps \<and> (\<forall>p\<in>set ps. observationKey p = observationKey x \<longrightarrow> np_observed_age_ms x \<le> np_observed_age_ms p)"
    using observations_of_content by (fastforce simp: xs_def)
qed

text \<open>What a contact promises about the rows that carry its destination.\<close>

definition nearby_contact_ok :: "NearbyPeerView list \<Rightarrow> NearbyContactSummary \<Rightarrow> bool" where
  "nearby_contact_ok peers c \<longleftrightarrow>
     (let same = same_destination (cs_destination c) peers in
       cs_representative c \<in> set same \<and> (\<forall>p\<in>set same. \<not> nearby_better p (cs_representative c)) \<and>
       distinct (map observationKey (cs_observations c)) \<and>
       set (map observationKey (cs_observations c)) = set (map observationKey same) \<and>
       (\<forall>x\<in>set (cs_observations c). x \<in> set same \<and>
         (\<forall>p\<in>set same. observationKey p = observationKey x \<longrightarrow> np_observed_age_ms x \<le> np_observed_age_ms p)))"

lemma nearby_group_contact_ok:
  assumes "(d, g) \<in> set (foldl nearby_group_add [] peers)"
  shows "nearby_contact_ok peers (nearby_contact (d, g))"
  using assms
proof (rule nearby_group_content)
  fix y ys
  assume same: "same_destination d peers = y # ys" and rep: "ng_representative g = foldl keep_better y ys"
    and obs: "ng_observations g = observations_of (y # ys)"
  have "foldl keep_better y ys \<in> set (y # ys)" "\<forall>p\<in>set (y # ys). \<not> nearby_better p (foldl keep_better y ys)"
    using representative.foldl_keep_in [of y ys] representative.foldl_keep_best [of _ y ys] by auto
  then show ?thesis
    using nearby_observations_sorted [of "\<lambda>p. (observerKey p, reticulumInterfaceIdHex (np_interface_id p))" "y # ys"]
    unfolding nearby_contact_ok_def nearby_contact_def Let_def fst_conv snd_conv
      NearbyContactSummary.simps same rep obs
    by blast
qed

text \<open>The summary's observer map as one grouping of all observations of all contacts.\<close>

definition contact_rows :: "NearbyContactSummary list \<Rightarrow> (jstring \<times> NearbyPeerView) list" where
  "contact_rows contacts = concat (map (\<lambda>c. map (Pair (cs_destination c)) (cs_observations c)) contacts)"

definition observers_of :: "jnumber \<Rightarrow> (jstring \<times> NearbyPeerView) list \<Rightarrow> (jstring \<times> observer_entry) list" where
  "observers_of elapsed rows = group_by (\<lambda>row. observerKey (snd row)) (observer_start elapsed) (observer_merge elapsed) rows"

lemma observer_add_fold:
  "foldl (observer_add elapsed d) (observers_of elapsed rows) ps = observers_of elapsed (rows @ map (Pair d) ps)"
proof (induction ps arbitrary: rows)
  case (Cons p ps)
  have "observer_add elapsed d (observers_of elapsed rows) p = observers_of elapsed (rows @ [(d, p)])"
    by (simp add: observer_add_def observers_of_def group_by_snoc)
  then show ?case using Cons.IH [of "rows @ [(d, p)]"] by simp
qed simp

lemma summary_loop_eq:
  "summary_loop elapsed known contacts (observers_of elapsed rows, n) =
     (observers_of elapsed (rows @ contact_rows contacts),
      n + length (filter (\<lambda>c. cs_destination c \<notin> set known) contacts))"
  by (induction contacts arbitrary: rows n) (simp_all add: contact_rows_def observer_add_fold)

lemma summary_loop_start:
  "summary_loop elapsed known contacts ([], 0) =
     (observers_of elapsed (contact_rows contacts), length (filter (\<lambda>c. cs_destination c \<notin> set known) contacts))"
  using summary_loop_eq [of elapsed known contacts "[]" 0] by (simp add: observers_of_def)

lemma sum_sort_key: "sum_list (map f (sort_key k xs)) = (sum_list (map f xs) :: nat)"
  by (metis mset_map mset_sort sum_mset_sum_list)

lemma observation_total: "foldl (\<lambda>n c. n + length (cs_observations c)) m contacts = m + length (contact_rows contacts)"
  by (induction contacts arbitrary: m) (simp_all add: contact_rows_def)

section \<open>UTF-8 bounds\<close>

lemma utf8_code_point_length: "length (utf8_code_point p) \<le> (if p < 65536 then 3 else 4)"
  by (simp add: utf8_code_point_def)

lemma utf8_units: "list_all (\<lambda>c. c < 65536) s \<Longrightarrow> utf8ByteLength s \<le> 3 * length s"
proof (induction s rule: js_code_points.induct)
  case (2 c)
  then show ?case
    using utf8_code_point_length [of c] utf8_code_point_length [of 65533]
    by (auto simp: utf8ByteLength_def utf8_encode_def)
next
  case (3 c d s)
  then show ?case
    using utf8_code_point_length [of c] utf8_code_point_length [of 65533]
      utf8_code_point_length [of "65536 + (c - 55296) * 1024 + (d - 56320)"]
    by (auto simp: utf8ByteLength_def utf8_encode_def)
qed (simp add: utf8ByteLength_def utf8_encode_def)

lemma lower_unit_range: "c < 65536 \<Longrightarrow> list_all (\<lambda>c. c < 65536) (lower_unit c)"
  by (simp add: lower_unit_def)

lemma js_lower_range: "list_all (\<lambda>c. c < 65536) s \<Longrightarrow> list_all (\<lambda>c. c < 65536) (js_lower s)"
  using lower_unit_range by (fastforce simp: js_lower_def list_all_iff)

lemma js_trim_range: "list_all P s \<Longrightarrow> list_all P (js_trim s)"
  using set_js_trim [of s] by (auto simp: list_all_iff)

definition nearby_strings_ok :: "NearbyPeerView \<Rightarrow> bool" where
  "nearby_strings_ok peer \<longleftrightarrow> list_all (\<lambda>c. c < 65536) (np_destination peer) \<and>
     list_all (\<lambda>c. c < 65536) (np_identity_hash peer)"

lemma fingerprint_shape:
  assumes "nearby_strings_ok peer"
  shows "length (nearbyPeerFingerprint peer) = 14 \<and> list_all (\<lambda>c. c < 65536) (nearbyPeerFingerprint peer)"
proof -
  let ?c = "js_padEnd 12 48 (take 12 (normalizedFingerprint peer))"
  have "list_all (\<lambda>c. c < 65536) (normalizedFingerprint peer)"
    using assms by (simp add: normalizedFingerprint_def nearby_strings_ok_def Let_def js_lower_range js_trim_range)
  then have "list_all (\<lambda>c. c < 65536) ?c" by (auto simp: js_padEnd_def list_all_iff dest: in_set_takeD)
  moreover have "length ?c = 12" by (simp add: js_padEnd_def)
  ultimately show ?thesis
    by (auto simp: nearbyPeerFingerprint_def Let_def list_all_iff dest: in_set_takeD in_set_dropD)
qed

section \<open>Properties\<close>

text \<open>
  C28. The contacts are the authenticated destinations, once each: \<open>nearbyContacts\<close> lists exactly the
  normalised destinations of the rows that are 32 hexadecimal digits, in strictly ascending order. Each contact
  keeps one observation per observing node and interface, the freshest one that was reported for it, ordered by
  observer and interface; its representative is one of its rows, and no row with that destination has a name
  where it has none or is fresher among those that agree with it in having a name.
\<close>

theorem nearbyContacts_groups:
  "sorted_wrt (<) (map cs_destination (nearbyContacts peers)) \<and>
   set (map cs_destination (nearbyContacts peers)) = {d. hex32 d \<and> same_destination d peers \<noteq> []} \<and>
   list_all (nearby_contact_ok peers) (nearbyContacts peers)"
proof (intro conjI)
  let ?m = "foldl nearby_group_add [] peers"
  have dests: "map cs_destination (nearbyContacts peers) = map fst (sort_key fst ?m)"
    by (simp add: nearbyContacts_def nearby_contact_def)
  show "sorted_wrt (<) (map cs_destination (nearbyContacts peers))"
    unfolding dests by (rule sorted_wrt_less_sort_key) (simp add: nearby_groups)
  have "fst ` set ?m = (\<lambda>p. normalizedDestination (np_destination p)) `
      {p \<in> set peers. hex32 (normalizedDestination (np_destination p))}"
    by (simp add: nearby_groups)
  then show "set (map cs_destination (nearbyContacts peers)) = {d. hex32 d \<and> same_destination d peers \<noteq> []}"
    unfolding dests by (auto simp: same_destination_def filter_empty_conv)
  show "list_all (nearby_contact_ok peers) (nearbyContacts peers)"
    using nearby_group_contact_ok by (auto simp: nearbyContacts_def list_all_iff)
qed

text \<open>
  The summary counts every retained observation exactly once: the observation counts of the observing nodes
  add up to the total, which is the number of observations retained by the contacts; the nodes are listed once
  each; and the unadded peers are the contacts whose destination is not among the saved contacts.
\<close>

theorem nearbyNetworkSummary_counts:
  fixes peers contacts elapsed
  defines "s \<equiv> nearbyNetworkSummary peers contacts elapsed"
  shows "sum_list (map os_observationCount (ns_observers s)) = ns_observationCount s \<and>
    ns_observationCount s = sum_list (map (\<lambda>c. length (cs_observations c)) (nearbyContacts peers)) \<and>
    ns_peerCount s = length (nearbyContacts peers) \<and>
    ns_observerCount s = card {observerKey p |p c. c \<in> set (nearbyContacts peers) \<and> p \<in> set (cs_observations c)} \<and>
    ns_unaddedPeerCount s =
      length (filter (\<lambda>c. cs_destination c \<notin> normalizedDestination ` set contacts) (nearbyContacts peers))"
proof (intro conjI)
  let ?rows = "contact_rows (nearbyContacts peers)"
  have obs: "ns_observers s = map (\<lambda>e. observer_summary (snd e)) (sort_key fst (observers_of elapsed ?rows))"
    by (simp add: s_def nearbyNetworkSummary_def Let_def summary_loop_start)
  have total: "ns_observationCount s = length ?rows"
    by (simp add: s_def nearbyNetworkSummary_def Let_def summary_loop_start observation_total)
  have "sum_list (map os_observationCount (ns_observers s)) =
      sum_list (map (oe_observationCount \<circ> snd) (sort_key fst (observers_of elapsed ?rows)))"
    unfolding obs by (simp add: observer_summary_def comp_def)
  also have "\<dots> = length ?rows"
    unfolding sum_sort_key observers_of_def
    by (rule sum_group_by) (simp_all add: observer_start_def observer_merge_def Let_def)
  finally show "sum_list (map os_observationCount (ns_observers s)) = ns_observationCount s" using total by simp
  show "ns_observationCount s = sum_list (map (\<lambda>c. length (cs_observations c)) (nearbyContacts peers))"
    unfolding total contact_rows_def by (simp add: length_concat comp_def)
  have "ns_observerCount s = length (map fst (observers_of elapsed ?rows))"
    by (simp add: s_def nearbyNetworkSummary_def Let_def summary_loop_start)
  also have "\<dots> = card (observerKey ` snd ` set ?rows)"
    unfolding observers_of_def keys_group_by
    by (metis distinct_card distinct_js_set_of image_image list.set_map set_js_set_of)
  also have "observerKey ` snd ` set ?rows = {observerKey p |p c. c \<in> set (nearbyContacts peers) \<and> p \<in> set (cs_observations c)}"
    by (force simp: contact_rows_def)
  finally show "ns_observerCount s = card {observerKey p |p c. c \<in> set (nearbyContacts peers) \<and> p \<in> set (cs_observations c)}" .
qed (simp_all add: s_def nearbyNetworkSummary_def Let_def summary_loop_start)

text \<open>
  A proposed contact name always fits the durable contact: it is not empty and its UTF-8 encoding has at most
  256 bytes, whatever name, identity and destination the announce carried.
\<close>

theorem nearbyPeerSuggestedName_bounds:
  assumes "nearby_strings_ok peer"
  shows "nearbyPeerSuggestedName peer \<noteq> [] \<and> utf8ByteLength (nearbyPeerSuggestedName peer) \<le> 256"
proof -
  let ?fallback = "js ''Peer '' @ nearbyPeerFingerprint peer"
  have "list_all (\<lambda>c. c < 65536) ?fallback" "length ?fallback = 19"
    using fingerprint_shape [OF assms] by simp_all
  then have "utf8ByteLength ?fallback \<le> 57" using utf8_units [of ?fallback] by simp
  then show ?thesis by (auto simp: nearbyPeerSuggestedName_def Let_def MAX_CONTACT_NAME_BYTES_def)
qed

definition nearby_example :: NearbyPeerView where
  "nearby_example = \<lparr>np_destination = replicate 32 97, np_associated_nomad_destination = replicate 32 98,
     np_display_name = None, np_hops = 1, np_identity_hash = replicate 32 49, np_interface_id = [14, 0, 0, 0, 0, 0, 0, 1],
     np_interface_name = None, np_observer_kind = ObserverPhone, np_observer_management_destination = None,
     np_observed_age_ms = 12400\<rparr>"

theorem nearbyPeerSuggestedName_bounds_witness:
  "nearbyPeerSuggestedName nearby_example \<noteq> [] \<and> utf8ByteLength (nearbyPeerSuggestedName nearby_example) \<le> 256"
  by (rule nearbyPeerSuggestedName_bounds) (simp add: nearby_strings_ok_def nearby_example_def list_all_iff)

definition announces_page :: "jstring \<Rightarrow> jstring \<Rightarrow> NearbyPeerView \<Rightarrow> bool" where
  "announces_page lxmf d p \<longleftrightarrow> normalizedDestination (np_destination p) = lxmf \<and>
     normalizedDestination (np_associated_nomad_destination p) = d \<and> hex32 d \<and> d \<noteq> lxmf"

lemma first_associated_nomad_spec:
  "case first_associated_nomad peers l of Some d \<Rightarrow> \<exists>p\<in>set peers. announces_page l d p
     | None \<Rightarrow> \<not> (\<exists>p\<in>set peers. \<exists>d. announces_page l d p)"
  by (induction peers l rule: first_associated_nomad.induct)
     (auto simp: announces_page_def normalizedDestination_def Let_def split: option.splits)

text \<open>
  A page destination is only ever taken from an announce of the same peer: what
  \<open>associatedNomadDestinationForLxmf\<close> returns is a well-formed destination, different from the LXMF destination,
  that some row announced together with exactly that LXMF destination; and it returns nothing only when the LXMF
  destination is malformed or no such row exists.
\<close>

theorem associatedNomadDestination_authenticated:
  "case associatedNomadDestinationForLxmf peers lxmf of
     Some d \<Rightarrow> hex32 (normalizedDestination lxmf) \<and> (\<exists>p\<in>set peers. announces_page (normalizedDestination lxmf) d p)
   | None \<Rightarrow> \<not> (hex32 (normalizedDestination lxmf) \<and> (\<exists>p\<in>set peers. \<exists>d. announces_page (normalizedDestination lxmf) d p))"
  using first_associated_nomad_spec [of peers "normalizedDestination lxmf"]
  by (auto simp: associatedNomadDestinationForLxmf_def normalizedDestination_def Let_def split: option.splits)

end
