(* ===== verification/MessageActivity.thy ===== *)
theory MessageActivity
  imports JsText PhoneLocation RadioRoutes
begin

text \<open>
  Model of \<open>lib/message-activity.ts\<close>: the durable message-activity feed, its alias table, the presentation of one
  event and the filtered newest-first view. The event types are those of \<open>generated/api.ts\<close>. Date formatting and
  locale lower case are the parameter \<open>js_host\<close>.
\<close>

section \<open>Data\<close>

datatype TimelineDirection = Inbound | Outbound

datatype TimelineStatus =
  StatusCommitted | StatusAccepted | StatusQueued | StatusPreparing | StatusAwaitingDelivery | StatusDelivered
| StatusFailedNoPath | StatusFailedDeliveryTimeout | StatusFailedDownstreamRejection | StatusFailedInternal | StatusCancelled

record PacketEvidenceView =
  pe_encoded_packet_len :: int
  pe_encoded_packet_sha256 :: jstring

record MessageSignalObservationView =
  sg_rssi_dbm :: int
  sg_snr_db :: int

record MessageIngressObservationView =
  ig_interface_id :: "nat list"
  ig_signal :: "MessageSignalObservationView option"

record MessageLocationView =
  ml_latitude_e6 :: int
  ml_longitude_e6 :: int
  ml_altitude_cm :: int
  ml_speed_cm_per_second :: int
  ml_bearing_centidegrees :: int
  ml_accuracy_cm :: int
  ml_updated_at_unix_seconds :: int

datatype MessageActivityKindView =
  InboundImported jstring \<comment> \<open>message ID\<close>
| OutboundQueued
| OutboundAccepted int jstring \<comment> \<open>submission ID, message ID\<close>
| OutboundStatus TimelineStatus "PacketEvidenceView option"
| OutboundRequeued

record MessageActivityEventView =
  ma_event_id :: int
  ma_observed_at_unix_ms :: "int option"
  ma_timeline_sequence :: int
  ma_peer :: jstring
  ma_direction :: TimelineDirection
  ma_outbox_id :: "int option"
  ma_attempt_number :: "int option"
  ma_attempt_location :: "PhoneLocationObservationView option"
  ma_ingress_observation :: "MessageIngressObservationView option"
  ma_message_location :: "MessageLocationView option"
  ma_receiver_location :: "PhoneLocationObservationView option"
  ma_activity :: MessageActivityKindView

datatype MessageActivityFilter = FilterAll | FilterDirection TimelineDirection | FilterAttention

record MessageActivityAliasSource =
  as_destination :: jstring
  as_name :: "jstring option"

datatype activity_tone = ToneDanger | ToneMuted | ToneNormal | ToneSuccess | ToneWarning

record MessageActivityPresentation =
  mp_metadata :: "jstring list"
  mp_observedAt :: jstring
  mp_peerLabel :: jstring
  mp_title :: jstring
  mp_tone :: activity_tone

definition MESSAGE_ACTIVITY_FILTERS :: "(jstring \<times> MessageActivityFilter) list" where
  "MESSAGE_ACTIVITY_FILTERS =
     [(js ''All'', FilterAll), (js ''Inbound'', FilterDirection Inbound), (js ''Outbound'', FilterDirection Outbound),
      (js ''Failures & replacement retries'', FilterAttention)]"

definition FAILED_STATUSES :: "TimelineStatus list" where
  "FAILED_STATUSES = [StatusFailedNoPath, StatusFailedDeliveryTimeout, StatusFailedDownstreamRejection, StatusFailedInternal]"

section \<open>Labels\<close>

fun messageActivityStatusLabel :: "TimelineStatus \<Rightarrow> jstring" where
  "messageActivityStatusLabel StatusCommitted = js ''Saved locally''"
| "messageActivityStatusLabel StatusAccepted = js ''Accepted by appliance''"
| "messageActivityStatusLabel StatusQueued = js ''Queued on appliance''"
| "messageActivityStatusLabel StatusPreparing = js ''Pending / retrying on appliance''"
| "messageActivityStatusLabel StatusAwaitingDelivery = js ''Awaiting delivery proof''"
| "messageActivityStatusLabel StatusDelivered = js ''Delivered''"
| "messageActivityStatusLabel StatusFailedNoPath = js ''Failed: no path''"
| "messageActivityStatusLabel StatusFailedDeliveryTimeout = js ''Failed: delivery timed out''"
| "messageActivityStatusLabel StatusFailedDownstreamRejection = js ''Failed: downstream rejected''"
| "messageActivityStatusLabel StatusFailedInternal = js ''Failed: internal error''"
| "messageActivityStatusLabel StatusCancelled = js ''Cancelled''"

definition alias_add :: "(jstring \<times> jstring) list \<Rightarrow> MessageActivityAliasSource \<Rightarrow> (jstring \<times> jstring) list" where
  "alias_add aliases source =
     (let name = (case as_name source of None \<Rightarrow> [] | Some n \<Rightarrow> js_trim n)
      in if name \<noteq> [] then AList.update (as_destination source) name aliases else aliases)"

definition buildMessageActivityAliases ::
  "MessageActivityAliasSource list \<Rightarrow> MessageActivityAliasSource list \<Rightarrow> (jstring \<times> jstring) list" where
  "buildMessageActivityAliases contacts conversationPeers =
     foldl alias_add (foldl alias_add [] conversationPeers) contacts"

definition messageActivityPeerLabel :: "TimelineDirection \<Rightarrow> jstring \<Rightarrow> (jstring \<times> jstring) list \<Rightarrow> jstring" where
  "messageActivityPeerLabel direction peer aliases =
     (case map_of aliases peer of
        Some alias \<Rightarrow> alias
      | None \<Rightarrow>
          let fingerprint = (if length peer \<le> 6 then peer else 8230 # js_slice_last 6 peer)
          in if direction = Inbound then js ''Unknown sender '' @ fingerprint else js ''Peer '' @ fingerprint)"

definition messageActivityObservedAtLabel :: "js_host \<Rightarrow> int option \<Rightarrow> jstring" where
  "messageActivityObservedAtLabel h observedAtUnixMs =
     (case observedAtUnixMs of
        None \<Rightarrow> js ''Observed by app'' @ middle_dot @ js ''time unavailable''
      | Some ms \<Rightarrow>
          if \<not> js_date_valid ms then js ''Observed by app'' @ middle_dot @ js ''invalid time''
          else js ''Observed by app'' @ middle_dot @ jh_format_medium h ms)"

fun activity_attention :: "MessageActivityKindView \<Rightarrow> bool" where
  "activity_attention OutboundRequeued = True"
| "activity_attention (OutboundStatus status e) = (status \<in> set FAILED_STATUSES \<or> status = StatusCancelled)"
| "activity_attention _ = False"

definition isMessageActivityAttention :: "MessageActivityEventView \<Rightarrow> bool" where
  "isMessageActivityAttention event = activity_attention (ma_activity event)"

definition compactSampleAge :: "int \<Rightarrow> jstring" where
  "compactSampleAge milliseconds =
     (if milliseconds < 0 then js ''phone clock ahead''
      else if milliseconds < 1000 then js ''under 1s old''
      else let seconds = nat milliseconds div 1000
           in if seconds < 60 then nat_digits seconds @ js ''s old''
              else let minutes = seconds div 60
                   in if minutes < 60 then nat_digits minutes @ js ''m old''
                      else nat_digits (minutes div 60) @ js ''h old'')"

fun phoneLocationMetadata :: "js_host \<Rightarrow> PhoneLocationObservationView option \<Rightarrow> int option \<Rightarrow> jstring list" where
  "phoneLocationMetadata h None observedAtUnixMs = []"
| "phoneLocationMetadata h (Some (LocationUnavailable reason)) observedAtUnixMs =
     [js ''Phone location unavailable'' @ middle_dot @ js_replace_unit 95 32 (unavailable_reason_text reason)]"
| "phoneLocationMetadata h (Some (LocationAvailable location)) observedAtUnixMs =
     (let latitude = js_ratio_toFixed 6 (pl_latitude_e6 location) 1000000;
          longitude = js_ratio_toFixed 6 (pl_longitude_e6 location) 1000000;
          accuracy = (case pl_horizontal_accuracy_mm location of
              None \<Rightarrow> js ''accuracy unknown''
            | Some mm \<Rightarrow> 177 # js_ratio_toFixed 1 mm 1000 @ js '' m'');
          capturedLabel = (if \<not> js_date_valid (pl_captured_at_unix_ms location) then js ''invalid capture time''
                           else jh_format_short h (pl_captured_at_unix_ms location));
          sampleAge = (case observedAtUnixMs of
              None \<Rightarrow> js ''sample age unknown''
            | Some ms \<Rightarrow> compactSampleAge (ms - pl_captured_at_unix_ms location));
          authorization = authorization_text (pl_authorization location) @ js '' grant'';
          source = js_replace_unit 95 32 (location_source_text (pl_source location));
          mocked = (if pl_mocked location = Some True then middle_dot @ js ''platform marked mocked'' else [])
      in [js ''Phone location '' @ latitude @ js '', '' @ longitude @ middle_dot @ accuracy,
          js ''Captured '' @ capturedLabel @ middle_dot @ sampleAge @ middle_dot @ authorization @ middle_dot @ source @ mocked,
          js ''Phone position when app submission queued; board retries reuse it''])"

definition messageActivityLocationMetadata :: "js_host \<Rightarrow> MessageActivityEventView \<Rightarrow> jstring list" where
  "messageActivityLocationMetadata h event = phoneLocationMetadata h (ma_attempt_location event) (ma_observed_at_unix_ms event)"

definition signal_text :: "MessageSignalObservationView \<Rightarrow> jstring" where
  "signal_text signal =
     js ''RSSI '' @ int_digits (sg_rssi_dbm signal) @ js '' dBm'' @ middle_dot @ js ''SNR '' @ int_digits (sg_snr_db signal) @ js '' dB''"

definition messageActivityIngressMetadata :: "MessageActivityEventView \<Rightarrow> jstring list" where
  "messageActivityIngressMetadata event =
     (case ma_ingress_observation event of
        None \<Rightarrow> []
      | Some ingress \<Rightarrow>
          let prefix = js ''Receiver-local final hop'' @ middle_dot @ js ''interface '' @
                reticulumInterfaceIdHex (ig_interface_id ingress) @ middle_dot
          in case ig_signal ingress of
               None \<Rightarrow> [prefix @ js ''no RF signal values'']
             | Some signal \<Rightarrow> [prefix @ signal_text signal])"

definition packetEvidenceMetadata :: "PacketEvidenceView \<Rightarrow> jstring list" where
  "packetEvidenceMetadata packet =
     [js ''Encoded packet '' @ int_digits (pe_encoded_packet_len packet) @ js '' bytes'',
      js ''Packet SHA-256 '' @ pe_encoded_packet_sha256 packet]"

text \<open>Title, tone and metadata of one activity kind: the \<open>switch\<close> of \<open>messageActivityPresentation\<close>.\<close>

fun activity_kind_presentation :: "MessageActivityKindView \<Rightarrow> jstring \<times> activity_tone \<times> jstring list" where
  "activity_kind_presentation (InboundImported messageId) =
     (js ''Inbound message imported'', ToneSuccess, [js ''Message ID '' @ messageId])"
| "activity_kind_presentation OutboundQueued = (js ''Outbound message saved locally'', ToneMuted, [])"
| "activity_kind_presentation (OutboundAccepted submissionId messageId) =
     (js ''Appliance accepted outbound submission'', ToneNormal,
      [js ''Submission '' @ int_digits submissionId, js ''Message ID '' @ messageId])"
| "activity_kind_presentation (OutboundStatus status evidence) =
     (messageActivityStatusLabel status,
      (if status = StatusDelivered then ToneSuccess
       else if status \<in> set FAILED_STATUSES then ToneDanger
       else if status = StatusCancelled then ToneWarning else ToneNormal),
      (case evidence of None \<Rightarrow> [] | Some packet \<Rightarrow> packetEvidenceMetadata packet))"
| "activity_kind_presentation OutboundRequeued = (js ''Replacement submission queued'', ToneWarning, [])"

definition messageActivityPresentation ::
  "js_host \<Rightarrow> MessageActivityEventView \<Rightarrow> (jstring \<times> jstring) list \<Rightarrow> MessageActivityPresentation" where
  "messageActivityPresentation h event aliases =
     (let (title, tone, kindMetadata) = activity_kind_presentation (ma_activity event);
          metadata =
            [(if ma_direction event = Inbound then js ''Inbound'' else js ''Outbound'') @ middle_dot @ js ''event '' @
               int_digits (ma_event_id event) @ middle_dot @ js ''message row '' @ int_digits (ma_timeline_sequence event)] @
            (case ma_outbox_id event of None \<Rightarrow> [] | Some i \<Rightarrow> [js ''Outbox '' @ int_digits i]) @
            (case ma_attempt_number event of None \<Rightarrow> [] | Some n \<Rightarrow> [js ''App submission '' @ int_digits n]) @
            kindMetadata @ messageActivityIngressMetadata event @ messageActivityLocationMetadata h event
      in \<lparr>mp_metadata = metadata, mp_observedAt = messageActivityObservedAtLabel h (ma_observed_at_unix_ms event),
          mp_peerLabel = messageActivityPeerLabel (ma_direction event) (ma_peer event) aliases,
          mp_title = title, mp_tone = tone\<rparr>)"

section \<open>The feed\<close>

definition sortMessageActivityNewestFirst :: "MessageActivityEventView list \<Rightarrow> MessageActivityEventView list" where
  "sortMessageActivityNewestFirst events = sort_key (\<lambda>event. - ma_event_id event) events"

definition activity_matches :: "js_host \<Rightarrow> MessageActivityFilter \<Rightarrow> jstring \<Rightarrow> (jstring \<times> jstring) list
    \<Rightarrow> MessageActivityEventView \<Rightarrow> bool" where
  "activity_matches h flt normalizedQuery aliases event =
     (if flt = FilterDirection Inbound \<and> ma_direction event \<noteq> Inbound then False
      else if flt = FilterDirection Outbound \<and> ma_direction event \<noteq> Outbound then False
      else if flt = FilterAttention \<and> \<not> isMessageActivityAttention event then False
      else if normalizedQuery = [] then True
      else let presentation = messageActivityPresentation h event aliases
           in js_includes (jh_lower h (js_join (js '' '')
                ([mp_title presentation, mp_peerLabel presentation, mp_observedAt presentation, ma_peer event] @
                 mp_metadata presentation))) normalizedQuery)"

definition filterMessageActivity :: "js_host \<Rightarrow> MessageActivityEventView list \<Rightarrow> MessageActivityFilter \<Rightarrow> jstring
    \<Rightarrow> (jstring \<times> jstring) list \<Rightarrow> MessageActivityEventView list" where
  "filterMessageActivity h events flt query aliases =
     filter (activity_matches h flt (jh_lower h (js_trim query)) aliases) (sortMessageActivityNewestFirst events)"

interpretation activity_feed: newest_first_feed ma_event_id sortMessageActivityNewestFirst
  by unfold_locales (simp add: sortMessageActivityNewestFirst_def)

section \<open>Aliases\<close>

text \<open>The trimmed name a source gives to a destination, the last one that is not blank.\<close>

fun last_name :: "MessageActivityAliasSource list \<Rightarrow> jstring \<Rightarrow> jstring option" where
  "last_name [] d = None"
| "last_name (s # ss) d =
     (case last_name ss d of
        Some n \<Rightarrow> Some n
      | None \<Rightarrow> (case as_name s of
            None \<Rightarrow> None
          | Some n \<Rightarrow> if as_destination s = d \<and> js_trim n \<noteq> [] then Some (js_trim n) else None))"

lemma map_of_alias_add:
  "map_of (foldl alias_add m ss) d = (case last_name ss d of Some n \<Rightarrow> Some n | None \<Rightarrow> map_of m d)"
proof (induction ss arbitrary: m)
  case (Cons s ss)
  then show ?case
    by (auto simp: alias_add_def Let_def update_conv' split: option.splits)
qed simp

section \<open>Properties\<close>

text \<open>
  The activity view shows exactly the matching events, newest first: \<open>filterMessageActivity\<close> returns, with
  their multiplicity, the events that pass the chosen direction or attention filter and whose searchable text
  contains the query, in descending order of event number, and events with the same number keep their order.
\<close>

theorem filterMessageActivity_exact:
  "mset (filterMessageActivity h events flt query aliases) =
     filter_mset (activity_matches h flt (jh_lower h (js_trim query)) aliases) (mset events) \<and>
   sorted_wrt (\<lambda>a b. ma_event_id a \<ge> ma_event_id b) (filterMessageActivity h events flt query aliases) \<and>
   filter (\<lambda>e. ma_event_id e = k) (filterMessageActivity h events flt query aliases) =
     filter (\<lambda>e. ma_event_id e = k \<and> activity_matches h flt (jh_lower h (js_trim query)) aliases e) events"
proof (intro conjI)
  let ?P = "activity_matches h flt (jh_lower h (js_trim query)) aliases"
  show "mset (filterMessageActivity h events flt query aliases) = filter_mset ?P (mset events)"
    unfolding filterMessageActivity_def activity_feed.feed_mset by simp
  show "sorted_wrt (\<lambda>a b. ma_event_id a \<ge> ma_event_id b) (filterMessageActivity h events flt query aliases)"
    unfolding filterMessageActivity_def by (rule activity_feed.feed_sorted)
  have "filter (\<lambda>e. ma_event_id e = k) (filterMessageActivity h events flt query aliases) =
      filter ?P (filter (\<lambda>e. ma_event_id e = k) (sortMessageActivityNewestFirst events))"
    by (simp add: filterMessageActivity_def conj_commute)
  then show "filter (\<lambda>e. ma_event_id e = k) (filterMessageActivity h events flt query aliases) =
      filter (\<lambda>e. ma_event_id e = k \<and> ?P e) events"
    by (simp add: activity_feed.feed_stable conj_commute)
qed

text \<open>
  What the attention filter shows is what is shown as needing attention: an event passes the filter exactly when
  its presentation has the danger or the warning tone.
\<close>

theorem activity_attention_is_alarming:
  "isMessageActivityAttention event \<longleftrightarrow> mp_tone (messageActivityPresentation h event aliases) \<in> {ToneDanger, ToneWarning}"
proof (cases "ma_activity event")
  case (OutboundStatus status e)
  then show ?thesis
    by (cases status) (simp_all add: isMessageActivityAttention_def messageActivityPresentation_def FAILED_STATUSES_def)
qed (simp_all add: isMessageActivityAttention_def messageActivityPresentation_def)

text \<open>
  Explicit contacts win: the alias of a destination is the last non-blank contact name for it, trimmed; only
  without one the last non-blank conversation name; and without either there is none.
\<close>

theorem aliases_prefer_contacts:
  "map_of (buildMessageActivityAliases contacts conversationPeers) d =
     (case last_name contacts d of Some n \<Rightarrow> Some n | None \<Rightarrow> last_name conversationPeers d)"
  by (simp add: buildMessageActivityAliases_def map_of_alias_add split: option.splits)

end
