(* ===== verification/RadioTrace.thy ===== *)
theory RadioTrace
  imports MessageActivity
begin

text \<open>
  Model of \<open>lib/radio-trace.ts\<close>: the presentation of packet-correlated radio trace events and their filtered
  newest-first view. The event types are those of \<open>generated/api.ts\<close>.
\<close>

section \<open>Data\<close>

record RadioTraceProfileView =
  tp_fingerprint :: jstring
  tp_frequency_hz :: int
  tp_bandwidth_hz :: int
  tp_preamble_symbols :: int
  tp_requested_power_dbm :: int
  tp_spreading_factor :: int
  tp_coding_rate_denominator :: int
  tp_explicit_header :: bool
  tp_crc :: bool
  tp_iq_inverted :: bool

datatype RadioTraceRouteResolutionView = ExactReady | ExactOffline | ExactMissing | BroadcastReady | BroadcastUnavailable

datatype RadioTraceTxOutcomeView =
  Transmitted | AccessRejected | PermitDenied | AuthorizationExpired | PostGrantAccessRejected | AirtimeRejected
| DeadlineConversionOverflow | RadioInactive | InterfaceConfigurationMismatch | RadioConfigurationChangedBeforePermit
| RadioConfigurationChangedAfterPermit | CadFault | TxFault | ControlPlaneRecovery | FrameInvariantRecovery
| CancelledRadioOperation

datatype RadioTraceAttemptOutcomeView = AttemptDelivered | AttemptDeliveryTimeout | AttemptUnsent
datatype RadioTraceInboundProofStageView = DataLogicalRx | OrdinaryQueued | PhysicalTxDone | PhysicalTxFailed

record trace_route =
  tr_submission_id :: int
  tr_destination :: jstring
  tr_next_hop_identity :: "jstring option"
  tr_hops :: int
  tr_interface_id :: "nat list"
  tr_resolution :: RadioTraceRouteResolutionView
  tr_packet_evidence :: PacketEvidenceView
  tr_rns_attempt_token :: jstring

record trace_data_tx =
  tx_interface_id :: "nat list"
  tx_packet_evidence :: PacketEvidenceView
  tx_rns_attempt_token :: jstring
  tx_outcome :: RadioTraceTxOutcomeView
  tx_planned_physical_frames :: int
  tx_completed_physical_frames :: int
  tx_frame_0_completed_at_us :: "int option"
  tx_frame_1_completed_at_us :: "int option"
  tx_authorized_frame_observed :: bool

record trace_logical_rx =
  rx_interface_id :: "nat list"
  rx_packet_evidence :: PacketEvidenceView
  rx_rns_packet_hash :: "jstring option"
  rx_rssi_dbm :: int
  rx_snr_db :: int

record trace_terminal =
  tt_rns_attempt_token :: jstring
  tt_outcome :: RadioTraceAttemptOutcomeView
  tt_proof_interface_id :: "nat list option"
  tt_proof_rssi_dbm :: "int option"
  tt_proof_snr_db :: "int option"

record trace_inbound_proof =
  ip_correlation_token :: jstring
  ip_stage :: RadioTraceInboundProofStageView
  ip_message_id :: "jstring option"
  ip_packet_evidence :: "PacketEvidenceView option"
  ip_interface_id :: "nat list option"
  ip_rssi_dbm :: "int option"
  ip_snr_db :: "int option"
  ip_dispatch_outcome :: "RadioTraceTxOutcomeView option"

datatype RadioTraceEventKindView =
  RouteSelected trace_route | DataTx trace_data_tx | LogicalRx trace_logical_rx
| AttemptTerminal trace_terminal | InboundProof trace_inbound_proof

record RadioTraceMessageCorrelationView =
  tc_timeline_sequence :: int
  tc_outbox_id :: int
  tc_attempt_number :: int
  tc_attempt_location :: PhoneLocationObservationView

record RadioTraceEventView =
  te_event_id :: int
  te_boot_id :: int
  te_event_sequence :: int
  te_observed_at_us :: int
  te_imported_at_unix_ms :: int
  te_profile :: RadioTraceProfileView
  te_correlation :: "RadioTraceMessageCorrelationView option"
  te_event :: RadioTraceEventKindView

datatype RadioTraceFilter =
  TraceAll | TraceCorrelated | TraceRoute | TraceTx | TraceRx | TraceTerminal | TraceAttention

record RadioTracePresentation =
  rp_metadata :: "jstring list"
  rp_observedAt :: jstring
  rp_title :: jstring
  rp_tone :: activity_tone

definition RADIO_TRACE_FILTERS :: "(jstring \<times> RadioTraceFilter) list" where
  "RADIO_TRACE_FILTERS =
     [(js ''All'', TraceAll), (js ''Messages'', TraceCorrelated), (js ''Routes'', TraceRoute), (js ''TX'', TraceTx),
      (js ''RX'', TraceRx), (js ''Proofs'', TraceTerminal), (js ''Attention'', TraceAttention)]"

section \<open>Labels\<close>

text \<open>\<open>toUpperCase\<close> of one character; the argument of \<open>sentence\<close> is always an outcome name, which is ASCII.\<close>

definition upper_unit :: "nat \<Rightarrow> nat" where
  "upper_unit c = (if 97 \<le> c \<and> c \<le> 122 then c - 32 else c)"

definition sentence :: "jstring \<Rightarrow> jstring" where
  "sentence value =
     (let words = js_replace_unit 95 32 value
      in (case words of [] \<Rightarrow> [] | c # _ \<Rightarrow> [upper_unit c]) @ drop 1 words)"

definition signed_text :: "int \<Rightarrow> jstring" where
  "signed_text value = (if value \<ge> 0 then js ''+'' else []) @ int_digits value"

definition profileMetadata :: "RadioTraceEventView \<Rightarrow> jstring list" where
  "profileMetadata event =
     (let profile = te_profile event in
      [js_ratio_toFixed 3 (tp_frequency_hz profile) 1000000 @ js '' MHz'' @ middle_dot @ js ''BW '' @
         js_ratio_toFixed 0 (tp_bandwidth_hz profile) 1000 @ js '' kHz'' @ middle_dot @ js ''SF'' @
         int_digits (tp_spreading_factor profile) @ middle_dot @ js ''CR 4/'' @ int_digits (tp_coding_rate_denominator profile) @
         middle_dot @ js ''requested '' @ signed_text (tp_requested_power_dbm profile) @ js '' dBm'',
       js ''Preamble '' @ int_digits (tp_preamble_symbols profile) @ middle_dot @
         (if tp_explicit_header profile then js ''explicit'' else js ''implicit'') @ js '' header'' @ middle_dot @ js ''CRC '' @
         (if tp_crc profile then js ''on'' else js ''off'') @ middle_dot @ js ''IQ '' @
         (if tp_iq_inverted profile then js ''inverted'' else js ''normal''),
       js ''Profile fingerprint '' @ tp_fingerprint profile])"

fun packetMetadata :: "RadioTraceEventKindView \<Rightarrow> jstring list" where
  "packetMetadata (RouteSelected r) = packetEvidenceMetadata (tr_packet_evidence r)"
| "packetMetadata (DataTx t) = packetEvidenceMetadata (tx_packet_evidence t)"
| "packetMetadata (LogicalRx x) = packetEvidenceMetadata (rx_packet_evidence x)"
| "packetMetadata _ = []"

fun tokenMetadata :: "RadioTraceEventKindView \<Rightarrow> jstring list" where
  "tokenMetadata (LogicalRx x) =
     (case rx_rns_packet_hash x of None \<Rightarrow> [] | Some hash \<Rightarrow> [js ''RNS packet hash '' @ hash])"
| "tokenMetadata (InboundProof p) = [js ''Inbound DATA correlation token '' @ ip_correlation_token p]"
| "tokenMetadata (RouteSelected r) = [js ''RNS attempt token '' @ tr_rns_attempt_token r]"
| "tokenMetadata (DataTx t) = [js ''RNS attempt token '' @ tx_rns_attempt_token t]"
| "tokenMetadata (AttemptTerminal a) = [js ''RNS attempt token '' @ tt_rns_attempt_token a]"

fun routeResolutionLabel :: "RadioTraceRouteResolutionView \<Rightarrow> jstring" where
  "routeResolutionLabel ExactReady = js ''Exact retained route ready''"
| "routeResolutionLabel ExactOffline = js ''Exact route interface offline''"
| "routeResolutionLabel ExactMissing = js ''Exact route incomplete''"
| "routeResolutionLabel BroadcastReady = js ''Broadcast fallback ready''"
| "routeResolutionLabel BroadcastUnavailable = js ''No usable exact route or broadcast fallback''"

fun txOutcomeLabel :: "RadioTraceTxOutcomeView \<Rightarrow> jstring" where
  "txOutcomeLabel Transmitted = js ''Every physical frame reached TxDone''"
| "txOutcomeLabel AccessRejected = js ''Initial channel access rejected''"
| "txOutcomeLabel PermitDenied = js ''Exact transmit permit denied''"
| "txOutcomeLabel AuthorizationExpired = js ''Transmit authorization expired''"
| "txOutcomeLabel PostGrantAccessRejected = js ''Post-grant channel access rejected''"
| "txOutcomeLabel AirtimeRejected = js ''Airtime calculation or admission rejected''"
| "txOutcomeLabel DeadlineConversionOverflow = js ''Dispatch deadline could not be represented''"
| "txOutcomeLabel RadioInactive = js ''Selected radio inactive''"
| "txOutcomeLabel InterfaceConfigurationMismatch = js ''Router and radio interface configuration mismatch''"
| "txOutcomeLabel RadioConfigurationChangedBeforePermit = js ''Radio profile changed before permit''"
| "txOutcomeLabel RadioConfigurationChangedAfterPermit = js ''Radio profile changed after permit''"
| "txOutcomeLabel CadFault = js ''Channel-activity detection fault''"
| "txOutcomeLabel TxFault = js ''Physical transmit fault''"
| "txOutcomeLabel ControlPlaneRecovery = js ''Transmit control-plane recovery''"
| "txOutcomeLabel FrameInvariantRecovery = js ''Authorized frame invariant recovery''"
| "txOutcomeLabel CancelledRadioOperation = js ''Cancelled radio operation reconciled''"

text \<open>The string values of the outcome and resolution types.\<close>

fun tx_outcome_text :: "RadioTraceTxOutcomeView \<Rightarrow> jstring" where
  "tx_outcome_text Transmitted = js ''transmitted''"
| "tx_outcome_text AccessRejected = js ''access_rejected''"
| "tx_outcome_text PermitDenied = js ''permit_denied''"
| "tx_outcome_text AuthorizationExpired = js ''authorization_expired''"
| "tx_outcome_text PostGrantAccessRejected = js ''post_grant_access_rejected''"
| "tx_outcome_text AirtimeRejected = js ''airtime_rejected''"
| "tx_outcome_text DeadlineConversionOverflow = js ''deadline_conversion_overflow''"
| "tx_outcome_text RadioInactive = js ''radio_inactive''"
| "tx_outcome_text InterfaceConfigurationMismatch = js ''interface_configuration_mismatch''"
| "tx_outcome_text RadioConfigurationChangedBeforePermit = js ''radio_configuration_changed_before_permit''"
| "tx_outcome_text RadioConfigurationChangedAfterPermit = js ''radio_configuration_changed_after_permit''"
| "tx_outcome_text CadFault = js ''cad_fault''"
| "tx_outcome_text TxFault = js ''tx_fault''"
| "tx_outcome_text ControlPlaneRecovery = js ''control_plane_recovery''"
| "tx_outcome_text FrameInvariantRecovery = js ''frame_invariant_recovery''"
| "tx_outcome_text CancelledRadioOperation = js ''cancelled_radio_operation''"

fun route_resolution_text :: "RadioTraceRouteResolutionView \<Rightarrow> jstring" where
  "route_resolution_text ExactReady = js ''exact_ready''"
| "route_resolution_text ExactOffline = js ''exact_offline''"
| "route_resolution_text ExactMissing = js ''exact_missing''"
| "route_resolution_text BroadcastReady = js ''broadcast_ready''"
| "route_resolution_text BroadcastUnavailable = js ''broadcast_unavailable''"

definition monotonicTimeLabel :: "int \<Rightarrow> jstring" where
  "monotonicTimeLabel microseconds =
     (if microseconds < 1000 then int_digits microseconds @ js '' us since boot''
      else if microseconds < 1000000 then js_ratio_toFixed 1 microseconds 1000 @ js '' ms since boot''
      else js_ratio_toFixed 3 microseconds 1000000 @ js '' s since boot'')"

definition frameCompletionMetadata :: "trace_data_tx \<Rightarrow> jstring list" where
  "frameCompletionMetadata event =
     (let completed = List.map_filter id [tx_frame_0_completed_at_us event, tx_frame_1_completed_at_us event]
      in map (\<lambda>(index, timestamp). js ''Frame '' @ nat_digits (index + 1) @ js '' TxDone'' @ middle_dot @ monotonicTimeLabel timestamp)
           (zip [0..<length completed] completed))"

definition importedAtLabel :: "js_host \<Rightarrow> int \<Rightarrow> jstring" where
  "importedAtLabel h unixMs =
     js ''Imported by app'' @ middle_dot @ (if \<not> js_date_valid unixMs then js ''invalid time'' else jh_format_short h unixMs)"

fun trace_kind_attention :: "RadioTraceEventKindView \<Rightarrow> bool" where
  "trace_kind_attention (RouteSelected r) = (tr_resolution r \<noteq> ExactReady \<and> tr_resolution r \<noteq> BroadcastReady)"
| "trace_kind_attention (DataTx t) = (tx_outcome t \<noteq> Transmitted)"
| "trace_kind_attention (LogicalRx x) = False"
| "trace_kind_attention (AttemptTerminal a) = (tt_outcome a \<noteq> AttemptDelivered)"
| "trace_kind_attention (InboundProof p) = (ip_stage p = PhysicalTxFailed)"

definition isRadioTraceAttention :: "RadioTraceEventView \<Rightarrow> bool" where
  "isRadioTraceAttention event = trace_kind_attention (te_event event)"

section \<open>Presentation\<close>

definition interface_signal_text :: "int \<Rightarrow> int \<Rightarrow> jstring" where
  "interface_signal_text rssi snr = js ''RSSI '' @ int_digits rssi @ js '' dBm'' @ middle_dot @ js ''SNR '' @ int_digits snr @ js '' dB''"

definition route_presentation :: "trace_route \<Rightarrow> jstring \<times> activity_tone \<times> jstring list" where
  "route_presentation evidence =
     (routeResolutionLabel (tr_resolution evidence),
      (if tr_resolution evidence = BroadcastUnavailable then ToneDanger
       else if tr_resolution evidence = ExactOffline \<or> tr_resolution evidence = ExactMissing then ToneWarning
       else ToneNormal),
      [js ''Destination '' @ tr_destination evidence,
       (if tr_hops evidence = 1 then js ''Direct'' @ middle_dot @ js ''1 hop'' else int_digits (tr_hops evidence) @ js '' hops'') @
         middle_dot @ js ''interface '' @ reticulumInterfaceIdHex (tr_interface_id evidence),
       (case tr_next_hop_identity evidence of
          None \<Rightarrow> js ''Direct or broadcast next hop''
        | Some identity \<Rightarrow> js ''Next-hop identity '' @ identity),
       js ''Device submission '' @ int_digits (tr_submission_id evidence)] @
      packetMetadata (RouteSelected evidence) @ tokenMetadata (RouteSelected evidence))"

definition data_tx_presentation :: "trace_data_tx \<Rightarrow> jstring \<times> activity_tone \<times> jstring list" where
  "data_tx_presentation evidence =
     ((if tx_outcome evidence = Transmitted then js ''LoRa DATA reached TxDone''
       else js ''LoRa DATA did not complete'' @ middle_dot @ sentence (tx_outcome_text (tx_outcome evidence))),
      (if tx_outcome evidence = Transmitted then ToneSuccess else ToneDanger),
      [txOutcomeLabel (tx_outcome evidence),
       js ''Interface '' @ reticulumInterfaceIdHex (tx_interface_id evidence),
       int_digits (tx_completed_physical_frames evidence) @ js ''/'' @ int_digits (tx_planned_physical_frames evidence) @
         js '' physical frames completed'' @ middle_dot @ js ''authorized frame '' @
         (if tx_authorized_frame_observed evidence then js ''observed'' else js ''not observed'')] @
      frameCompletionMetadata evidence @ packetMetadata (DataTx evidence) @ tokenMetadata (DataTx evidence))"

definition logical_rx_presentation :: "trace_logical_rx \<Rightarrow> jstring \<times> activity_tone \<times> jstring list" where
  "logical_rx_presentation evidence =
     (js ''LoRa logical packet received'', ToneSuccess,
      [js ''Interface '' @ reticulumInterfaceIdHex (rx_interface_id evidence) @ middle_dot @
         interface_signal_text (rx_rssi_dbm evidence) (rx_snr_db evidence)] @
      packetMetadata (LogicalRx evidence) @ tokenMetadata (LogicalRx evidence))"

definition terminal_presentation :: "trace_terminal \<Rightarrow> jstring \<times> activity_tone \<times> jstring list" where
  "terminal_presentation evidence =
     ((case tt_outcome evidence of
         AttemptDelivered \<Rightarrow> js ''Delivery proof completed attempt''
       | AttemptDeliveryTimeout \<Rightarrow> js ''Delivery proof timed out''
       | AttemptUnsent \<Rightarrow> js ''Attempt ended without final-hop transmission''),
      (if tt_outcome evidence = AttemptDelivered then ToneSuccess else ToneDanger),
      (case tt_proof_interface_id evidence of
         None \<Rightarrow> [js ''No local proof ingress was retained'']
       | Some interface \<Rightarrow>
           [js ''Proof returned on interface '' @ reticulumInterfaceIdHex interface,
            (case (tt_proof_rssi_dbm evidence, tt_proof_snr_db evidence) of
               (Some rssi, Some snr) \<Rightarrow> js ''Proof final hop'' @ middle_dot @ interface_signal_text rssi snr
             | _ \<Rightarrow> js ''Proof interface did not report physical signal'')]) @
      tokenMetadata (AttemptTerminal evidence))"

definition inbound_proof_presentation :: "trace_inbound_proof \<Rightarrow> jstring \<times> activity_tone \<times> jstring list" where
  "inbound_proof_presentation evidence =
     ((case ip_stage evidence of
         DataLogicalRx \<Rightarrow> js ''Inbound DATA reconstructed''
       | OrdinaryQueued \<Rightarrow> js ''Delivery proof accepted for transmission''
       | PhysicalTxDone \<Rightarrow> js ''Delivery proof reached TxDone''
       | PhysicalTxFailed \<Rightarrow> js ''Delivery proof did not reach TxDone''),
      (case ip_stage evidence of PhysicalTxDone \<Rightarrow> ToneSuccess | PhysicalTxFailed \<Rightarrow> ToneDanger | _ \<Rightarrow> ToneNormal),
      (case ip_message_id evidence of None \<Rightarrow> [] | Some i \<Rightarrow> [js ''LXMF message '' @ i]) @
      (case ip_interface_id evidence of
         None \<Rightarrow> []
       | Some interface \<Rightarrow>
           [(case (ip_rssi_dbm evidence, ip_snr_db evidence) of
               (Some rssi, Some snr) \<Rightarrow> js ''Inbound DATA'' @ middle_dot @ js ''interface '' @ reticulumInterfaceIdHex interface @
                  middle_dot @ interface_signal_text rssi snr
             | _ \<Rightarrow> js ''Interface '' @ reticulumInterfaceIdHex interface @ middle_dot @ js ''no physical signal retained'')]) @
      (case ip_packet_evidence evidence of None \<Rightarrow> [] | Some packet \<Rightarrow> packetEvidenceMetadata packet) @
      (case ip_dispatch_outcome evidence of None \<Rightarrow> [] | Some outcome \<Rightarrow> [txOutcomeLabel outcome]) @
      tokenMetadata (InboundProof evidence))"

fun trace_kind_presentation :: "RadioTraceEventKindView \<Rightarrow> jstring \<times> activity_tone \<times> jstring list" where
  "trace_kind_presentation (RouteSelected r) = route_presentation r"
| "trace_kind_presentation (DataTx t) = data_tx_presentation t"
| "trace_kind_presentation (LogicalRx x) = logical_rx_presentation x"
| "trace_kind_presentation (AttemptTerminal a) = terminal_presentation a"
| "trace_kind_presentation (InboundProof p) = inbound_proof_presentation p"

definition correlation_metadata :: "js_host \<Rightarrow> RadioTraceEventView \<Rightarrow> jstring list" where
  "correlation_metadata h event =
     (case te_correlation event of
        Some c \<Rightarrow>
          [js ''Message row '' @ int_digits (tc_timeline_sequence c) @ middle_dot @ js ''outbox '' @ int_digits (tc_outbox_id c) @
             middle_dot @ js ''attempt '' @ int_digits (tc_attempt_number c)] @
          phoneLocationMetadata h (Some (tc_attempt_location c)) (Some (te_imported_at_unix_ms event))
      | None \<Rightarrow> [js ''Not correlated to a local outbound message attempt''])"

definition radioTracePresentation :: "js_host \<Rightarrow> RadioTraceEventView \<Rightarrow> RadioTracePresentation" where
  "radioTracePresentation h event =
     (let (title, tone, kindMetadata) = trace_kind_presentation (te_event event);
          metadata =
            [js ''Trace '' @ int_digits (te_event_id event) @ middle_dot @ js ''boot '' @ int_digits (te_boot_id event) @
               middle_dot @ js ''sequence '' @ int_digits (te_event_sequence event),
             js ''Board observation'' @ middle_dot @ monotonicTimeLabel (te_observed_at_us event)] @
            kindMetadata @ correlation_metadata h event @ profileMetadata event
      in \<lparr>rp_metadata = metadata, rp_observedAt = importedAtLabel h (te_imported_at_unix_ms event),
          rp_title = title, rp_tone = tone\<rparr>)"

section \<open>The feed\<close>

fun trace_filter_passes :: "RadioTraceFilter \<Rightarrow> RadioTraceEventView \<Rightarrow> bool" where
  "trace_filter_passes TraceAll event = True"
| "trace_filter_passes TraceCorrelated event = (te_correlation event \<noteq> None)"
| "trace_filter_passes TraceRoute event = (case te_event event of RouteSelected _ \<Rightarrow> True | _ \<Rightarrow> False)"
| "trace_filter_passes TraceTx event = (case te_event event of DataTx _ \<Rightarrow> True | _ \<Rightarrow> False)"
| "trace_filter_passes TraceRx event = (case te_event event of LogicalRx _ \<Rightarrow> True | _ \<Rightarrow> False)"
| "trace_filter_passes TraceTerminal event =
     (case te_event event of AttemptTerminal _ \<Rightarrow> True | InboundProof _ \<Rightarrow> True | _ \<Rightarrow> False)"
| "trace_filter_passes TraceAttention event = isRadioTraceAttention event"

definition trace_matches :: "js_host \<Rightarrow> RadioTraceFilter \<Rightarrow> jstring \<Rightarrow> RadioTraceEventView \<Rightarrow> bool" where
  "trace_matches h flt normalizedQuery event =
     (if \<not> trace_filter_passes flt event then False
      else if normalizedQuery = [] then True
      else let presentation = radioTracePresentation h event
           in js_includes (jh_lower h (js_join (js '' '')
                ([rp_title presentation, rp_observedAt presentation] @ rp_metadata presentation))) normalizedQuery)"

definition sort_trace_newest_first :: "RadioTraceEventView list \<Rightarrow> RadioTraceEventView list" where
  "sort_trace_newest_first events = sort_key (\<lambda>event. - te_event_id event) events"

definition filterRadioTrace :: "js_host \<Rightarrow> RadioTraceEventView list \<Rightarrow> RadioTraceFilter \<Rightarrow> jstring \<Rightarrow> RadioTraceEventView list" where
  "filterRadioTrace h events flt query =
     filter (trace_matches h flt (jh_lower h (js_trim query))) (sort_trace_newest_first events)"

interpretation trace_feed: newest_first_feed te_event_id sort_trace_newest_first
  by unfold_locales (simp add: sort_trace_newest_first_def)

section \<open>Properties\<close>

text \<open>
  The radio-trace view shows exactly the matching events, newest first: \<open>filterRadioTrace\<close> returns, with their
  multiplicity, the events of the chosen class whose searchable text contains the query; when event numbers are
  distinct they are in strictly descending order.
\<close>

theorem filterRadioTrace_exact:
  assumes "distinct (map te_event_id events)"
  shows "mset (filterRadioTrace h events flt query) = filter_mset (trace_matches h flt (jh_lower h (js_trim query))) (mset events) \<and>
    sorted_wrt (\<lambda>a b. te_event_id a > te_event_id b) (filterRadioTrace h events flt query)"
proof
  show "mset (filterRadioTrace h events flt query) = filter_mset (trace_matches h flt (jh_lower h (js_trim query))) (mset events)"
    unfolding filterRadioTrace_def trace_feed.feed_mset by simp
  show "sorted_wrt (\<lambda>a b. te_event_id a > te_event_id b) (filterRadioTrace h events flt query)"
    unfolding filterRadioTrace_def by (rule trace_feed.feed_strict [OF assms])
qed

definition trace_example :: "int \<Rightarrow> RadioTraceEventView" where
  "trace_example i = \<lparr>te_event_id = i, te_boot_id = 1, te_event_sequence = i, te_observed_at_us = 5, te_imported_at_unix_ms = 0,
     te_profile = \<lparr>tp_fingerprint = [], tp_frequency_hz = 915000000, tp_bandwidth_hz = 125000, tp_preamble_symbols = 8,
       tp_requested_power_dbm = 14, tp_spreading_factor = 7, tp_coding_rate_denominator = 5, tp_explicit_header = True,
       tp_crc = True, tp_iq_inverted = False\<rparr>,
     te_correlation = None,
     te_event = LogicalRx \<lparr>rx_interface_id = [14], rx_packet_evidence = \<lparr>pe_encoded_packet_len = 3, pe_encoded_packet_sha256 = []\<rparr>,
       rx_rns_packet_hash = None, rx_rssi_dbm = - 90, rx_snr_db = 7\<rparr>\<rparr>"

theorem filterRadioTrace_exact_witness:
  "mset (filterRadioTrace \<lparr>jh_format_medium = \<lambda>_. [], jh_format_short = \<lambda>_. [], jh_lower = js_lower, jh_collation_key = \<lambda>s. s\<rparr>
     [trace_example 1, trace_example 2] TraceRx []) = {#trace_example 1, trace_example 2#}"
  using filterRadioTrace_exact [of "[trace_example 1, trace_example 2]"
      "\<lparr>jh_format_medium = \<lambda>_. [], jh_format_short = \<lambda>_. [], jh_lower = js_lower, jh_collation_key = \<lambda>s. s\<rparr>" TraceRx "[]"]
  by (simp add: trace_example_def trace_matches_def js_trim_def js_lower_def)

text \<open>
  The attention filter of the trace shows what is shown as alarming: an event passes it exactly when its
  presentation has the danger or the warning tone.
\<close>

theorem trace_attention_is_alarming:
  "isRadioTraceAttention event \<longleftrightarrow> rp_tone (radioTracePresentation h event) \<in> {ToneDanger, ToneWarning}"
proof (cases "te_event event")
  case (RouteSelected r)
  then show ?thesis
    by (cases "tr_resolution r") (simp_all add: isRadioTraceAttention_def radioTracePresentation_def route_presentation_def)
next
  case (AttemptTerminal a)
  then show ?thesis
    by (cases "tt_outcome a") (simp_all add: isRadioTraceAttention_def radioTracePresentation_def terminal_presentation_def)
next
  case (InboundProof p)
  then show ?thesis
    by (cases "ip_stage p") (simp_all add: isRadioTraceAttention_def radioTracePresentation_def inbound_proof_presentation_def)
qed (simp_all add: isRadioTraceAttention_def radioTracePresentation_def data_tx_presentation_def logical_rx_presentation_def)

text \<open>
  The frame labels count the completed frames, not the frames: a transmission of which only the second frame has
  a completion time is presented as its first frame.
\<close>

theorem frame_label_counts_completions:
  assumes "tx_frame_0_completed_at_us e = None" and "tx_frame_1_completed_at_us e = Some us"
  shows "frameCompletionMetadata e = [js ''Frame 1 TxDone'' @ middle_dot @ monotonicTimeLabel us]"
  using assms by (simp add: frameCompletionMetadata_def List.map_filter_def nat_digits.simps)

end
