(* ===== verification/TransmissionMap.thy ===== *)
theory TransmissionMap
  imports RadioTrace NetworkInput
begin

text \<open>
  Model of \<open>lib/transmission-map.ts\<close>: the field-test map. Submission attempts are aggregated from activity and
  radio-trace events, attached and receiver locations become points, receptions and consecutive attempts become
  lines, and every feature gets its detail rows.

  A coordinate of the code is a microdegree integer divided by a million. Division by a million is injective and
  monotone on the integers in range, so a position is kept here as its two microdegree integers. The distances
  (\<open>haversineMeters\<close>, \<open>Math.hypot\<close>) and the difference of two elevations are floating-point values that only
  appear as text; their texts are the parameter \<open>map_metric\<close>. \<open>transmissionMapViewport\<close> is not modelled.
\<close>

section \<open>Data\<close>

type_synonym position = "int \<times> int" \<comment> \<open>longitude and latitude in microdegrees\<close>

record map_metric =
  mm_distance :: "position \<Rightarrow> position \<Rightarrow> jstring" \<comment> \<open>\<open>distanceLabel(haversineMeters(a, b))\<close>\<close>
  mm_slant :: "position \<Rightarrow> position \<Rightarrow> int \<Rightarrow> int \<Rightarrow> jstring" \<comment> \<open>with sender elevation in cm, receiver elevation in mm\<close>
  mm_elevation_delta :: "int \<Rightarrow> int \<Rightarrow> jstring" \<comment> \<open>sender elevation in cm, receiver elevation in mm\<close>

datatype TransmissionMapFeatureKind =
  AttemptFeature | MessageLocationFeature | MessageReceptionLink | ObservationSegment | ReceiverLocationFeature

datatype TransmissionMapTone = MapDanger | MapInfo | MapMuted | MapSuccess | MapWarning

record TransmissionMapProperties =
  mp_id :: jstring
  mp_kind :: TransmissionMapFeatureKind
  mp_label :: jstring
  mp_timestamp_ms :: int
  mp_map_tone :: TransmissionMapTone

type_synonym TransmissionMapDetailRow = "jstring \<times> jstring" \<comment> \<open>label and value\<close>

record TransmissionMapFeatureDetails =
  md_id :: jstring
  md_kind :: TransmissionMapFeatureKind
  md_rows :: "TransmissionMapDetailRow list"
  md_subtitle :: jstring
  md_timelineSequence :: "int option"
  md_title :: jstring
  md_tone :: TransmissionMapTone

record TransmissionMapBounds =
  mb_east :: int
  mb_north :: int
  mb_south :: int
  mb_west :: int

record point_feature =
  pf_coordinates :: position
  pf_properties :: TransmissionMapProperties

record line_feature =
  lf_coordinates :: "position list"
  lf_properties :: TransmissionMapProperties

record scene_summary =
  ss_attemptCount :: nat
  ss_messageLocationCount :: nat
  ss_messageReceptionLinkCount :: nat
  ss_observationSegmentCount :: nat
  ss_receiverLocationCount :: nat

record TransmissionMapScene =
  sc_bounds :: "TransmissionMapBounds option"
  sc_detailsByFeatureId :: "(jstring \<times> TransmissionMapFeatureDetails) list"
  sc_historyIncomplete :: bool
  sc_lines :: "line_feature list"
  sc_points :: "point_feature list"
  sc_summary :: scene_summary

record TimelineView =
  tv_sequence :: int
  tv_direction :: TimelineDirection
  tv_timestamp_ms :: int
  tv_message_id :: "jstring option"
  tv_outbox_id :: "int option"
  tv_submission_id :: "int option"
  tv_current_attempt_number :: "int option"
  tv_status :: "TimelineStatus option"
  tv_packet_evidence :: "PacketEvidenceView option"
  tv_ingress_observation :: "MessageIngressObservationView option"
  tv_receiver_location :: "PhoneLocationObservationView option"
  tv_location :: "MessageLocationView option"
  tv_title :: BytesView
  tv_content :: BytesView

record LocatedTimeline =
  lt_peer :: jstring
  lt_peerName :: "jstring option"
  lt_timeline :: TimelineView

record BuildTransmissionMapSceneInput =
  bi_activityHistoryIncomplete :: bool
  bi_contacts :: "MessageActivityAliasSource list"
  bi_conversationPeers :: "MessageActivityAliasSource list"
  bi_locatedTimelines :: "LocatedTimeline list"
  bi_messageActivityEvents :: "MessageActivityEventView list"
  bi_profileKey :: "jstring option"
  bi_radioTraceEvents :: "RadioTraceEventView list"
  bi_radioTraceHistoryIncomplete :: bool

record AttemptAggregate =
  ag_attemptNumber :: "int option"
  ag_latestActivity :: "MessageActivityEventView option"
  ag_location :: "PhoneLocationSampleView option"
  ag_outboxId :: "int option"
  ag_peer :: "jstring option"
  ag_radioEvents :: "RadioTraceEventView list"
  ag_timelineSequence :: int

section \<open>Identities\<close>

text \<open>\<open>encodeURIComponent\<close>, on the well-formed strings that profile keys are (it throws on a lone surrogate).\<close>

definition uri_unreserved :: "nat \<Rightarrow> bool" where
  "uri_unreserved c \<longleftrightarrow> is_digit c \<or> (65 \<le> c \<and> c \<le> 90) \<or> (97 \<le> c \<and> c \<le> 122) \<or> c \<in> set (js ''-_.!~*'') \<union> {39, 40, 41}"

definition upper_hex_digit :: "nat \<Rightarrow> nat" where
  "upper_hex_digit d = (if d < 10 then 48 + d else 55 + d)"

definition encode_code_point :: "nat \<Rightarrow> jstring" where
  "encode_code_point p =
     (if uri_unreserved p then [p]
      else concat (map (\<lambda>b. [37, upper_hex_digit (b div 16), upper_hex_digit (b mod 16)]) (utf8_code_point p)))"

definition encodeURIComponent :: "jstring \<Rightarrow> jstring" where
  "encodeURIComponent value = concat (map encode_code_point (js_code_points value))"

definition safeIdPart :: "jstring \<Rightarrow> jstring" where
  "safeIdPart value = js_replace_unit 37 95 (encodeURIComponent value)"

definition attemptGroupKey :: "int \<Rightarrow> int option \<Rightarrow> int option \<Rightarrow> jstring" where
  "attemptGroupKey timelineSequence outboxId attemptNumber =
     int_digits timelineSequence @ js '':'' @ (case outboxId of None \<Rightarrow> js ''none'' | Some i \<Rightarrow> int_digits i) @ js '':'' @
     (case attemptNumber of None \<Rightarrow> js ''pending'' | Some n \<Rightarrow> int_digits n)"

definition attemptFeatureId :: "jstring \<Rightarrow> AttemptAggregate \<Rightarrow> jstring" where
  "attemptFeatureId profileKey attempt =
     js ''attempt:'' @ safeIdPart profileKey @ js '':'' @
     attemptGroupKey (ag_timelineSequence attempt) (ag_outboxId attempt) (ag_attemptNumber attempt)"

section \<open>Locations and states\<close>

definition validMicrodegreeCoordinates :: "int \<Rightarrow> int \<Rightarrow> position option" where
  "validMicrodegreeCoordinates latitude_e6 longitude_e6 =
     (if latitude_e6 < - 90000000 \<or> latitude_e6 > 90000000 \<or> longitude_e6 < - 180000000 \<or> longitude_e6 > 180000000
      then None else Some (longitude_e6, latitude_e6))"

fun availablePhoneLocation :: "PhoneLocationObservationView option \<Rightarrow> PhoneLocationSampleView option" where
  "availablePhoneLocation (Some (LocationAvailable location)) =
     (if validMicrodegreeCoordinates (pl_latitude_e6 location) (pl_longitude_e6 location) = None then None else Some location)"
| "availablePhoneLocation _ = None"

definition newestActivity :: "MessageActivityEventView option \<Rightarrow> MessageActivityEventView \<Rightarrow> MessageActivityEventView" where
  "newestActivity current candidate =
     (case current of None \<Rightarrow> candidate | Some c \<Rightarrow> if ma_event_id candidate > ma_event_id c then candidate else c)"

fun activity_kind_state :: "MessageActivityKindView \<Rightarrow> jstring \<times> TimelineStatus option \<times> TransmissionMapTone" where
  "activity_kind_state (InboundImported i) = (js ''Inbound message imported'', None, MapSuccess)"
| "activity_kind_state OutboundQueued = (js ''Queued locally'', Some StatusQueued, MapMuted)"
| "activity_kind_state (OutboundAccepted s i) = (js ''Accepted by appliance'', Some StatusAccepted, MapInfo)"
| "activity_kind_state OutboundRequeued = (js ''Replacement submission queued'', Some StatusQueued, MapWarning)"
| "activity_kind_state (OutboundStatus status e) =
     (messageActivityStatusLabel status, Some status,
      (if status = StatusDelivered then MapSuccess
       else if status \<in> {StatusFailedNoPath, StatusFailedDeliveryTimeout, StatusFailedDownstreamRejection, StatusFailedInternal}
       then MapDanger
       else if status = StatusCancelled then MapWarning
       else if status = StatusAwaitingDelivery then MapWarning else MapInfo))"

definition timelineStatus :: "MessageActivityEventView option \<Rightarrow> jstring \<times> TimelineStatus option \<times> TransmissionMapTone" where
  "timelineStatus activity =
     (case activity of
        None \<Rightarrow> (js ''RF evidence retained'', None, MapInfo)
      | Some a \<Rightarrow> activity_kind_state (ma_activity a))"

text \<open>\<open>ordered.find\<close> with a test on the kind, returning the evidence of that kind.\<close>

fun find_terminal :: "RadioTraceEventView list \<Rightarrow> trace_terminal option" where
  "find_terminal [] = None"
| "find_terminal (e # es) = (case te_event e of AttemptTerminal t \<Rightarrow> Some t | _ \<Rightarrow> find_terminal es)"

fun find_data_tx :: "RadioTraceEventView list \<Rightarrow> trace_data_tx option" where
  "find_data_tx [] = None"
| "find_data_tx (e # es) = (case te_event e of DataTx t \<Rightarrow> Some t | _ \<Rightarrow> find_data_tx es)"

fun find_route :: "RadioTraceEventView list \<Rightarrow> trace_route option" where
  "find_route [] = None"
| "find_route (e # es) = (case te_event e of RouteSelected r \<Rightarrow> Some r | _ \<Rightarrow> find_route es)"

definition traceStatus :: "RadioTraceEventView list \<Rightarrow> (jstring \<times> TransmissionMapTone) option" where
  "traceStatus events =
     (let ordered = sort_trace_newest_first events
      in case find_terminal ordered of
           Some t \<Rightarrow>
             Some (case tt_outcome t of
                 AttemptDelivered \<Rightarrow> (js ''Delivery proof returned'', MapSuccess)
               | AttemptDeliveryTimeout \<Rightarrow> (js ''Delivery proof timed out'', MapDanger)
               | AttemptUnsent \<Rightarrow> (js ''Attempt ended before transmission'', MapDanger))
         | None \<Rightarrow>
           (case find_data_tx ordered of
              Some t \<Rightarrow>
                Some (if tx_outcome t = Transmitted then (js ''Physical frames reached TxDone'', MapWarning)
                      else (js ''Transmission failed: '' @ js_replace_unit 95 32 (tx_outcome_text (tx_outcome t)), MapDanger))
            | None \<Rightarrow>
              (case find_route ordered of
                 Some r \<Rightarrow>
                   (let ready = (tr_resolution r = ExactReady \<or> tr_resolution r = BroadcastReady)
                    in Some (if ready then js ''Route selected''
                             else js ''Route unavailable: '' @ js_replace_unit 95 32 (route_resolution_text (tr_resolution r)),
                             if ready then MapInfo else MapDanger))
               | None \<Rightarrow> None)))"

section \<open>Texts\<close>

definition formatDate :: "js_host \<Rightarrow> int \<Rightarrow> jstring" where
  "formatDate h unixMs = (if \<not> js_date_valid unixMs then js ''Invalid time'' else jh_format_medium h unixMs)"

definition coordinateLabel :: "position \<Rightarrow> jstring" where
  "coordinateLabel coordinates =
     js_ratio_toFixed 6 (snd coordinates) 1000000 @ js '', '' @ js_ratio_toFixed 6 (fst coordinates) 1000000"

definition accuracyLabel :: "PhoneLocationSampleView \<Rightarrow> jstring" where
  "accuracyLabel location =
     (case pl_horizontal_accuracy_mm location of
        None \<Rightarrow> js ''Unavailable'' | Some mm \<Rightarrow> 177 # js_ratio_toFixed 1 mm 1000 @ js '' m'')"

definition messageAccuracyLabel :: "MessageLocationView \<Rightarrow> jstring" where
  "messageAccuracyLabel location =
     (if ml_accuracy_cm location = 0 then js ''Unavailable''
      else 177 # js_ratio_toFixed 2 (ml_accuracy_cm location) 100 @ js '' m'')"

text \<open>An elevation is an integer with its divisor: centimetres over 100 or millimetres over 1000.\<close>

definition messageElevationMeters :: "MessageLocationView \<Rightarrow> (int \<times> nat) option" where
  "messageElevationMeters location = (if ml_altitude_cm location = 0 then None else Some (ml_altitude_cm location, 100))"

definition receiverElevationMeters :: "PhoneLocationSampleView \<Rightarrow> (int \<times> nat) option" where
  "receiverElevationMeters location = map_option (\<lambda>mm. (mm, 1000)) (pl_altitude_mm location)"

definition elevationLabel :: "(int \<times> nat) option \<Rightarrow> int option \<Rightarrow> bool \<Rightarrow> jstring" where
  "elevationLabel meters accuracyMm zeroSentinel =
     (case meters of
        None \<Rightarrow> if zeroSentinel then js ''Unavailable (LXMF zero sentinel; exact sea level is ambiguous)'' else js ''Unavailable''
      | Some (n, d) \<Rightarrow>
          js_ratio_toFixed 2 n d @ js '' m'' @
          (case accuracyMm of None \<Rightarrow> [] | Some mm \<Rightarrow> js '' '' @ [177] @ js_ratio_toFixed 1 mm 1000 @ js '' m''))"

definition compactElevationLabel :: "(int \<times> nat) option \<Rightarrow> jstring" where
  "compactElevationLabel meters = (case meters of None \<Rightarrow> js ''?'' | Some (n, d) \<Rightarrow> js_ratio_toFixed 0 n d @ js '' m'')"

definition shortPeer :: "jstring \<Rightarrow> jstring" where
  "shortPeer peer = (if length peer \<le> 8 then peer else 8230 # js_slice_last 8 peer)"

definition profileLabel :: "RadioTraceProfileView \<Rightarrow> jstring" where
  "profileLabel profile =
     js_ratio_toFixed 3 (tp_frequency_hz profile) 1000000 @ js '' MHz'' @ middle_dot @ js ''SF'' @
     int_digits (tp_spreading_factor profile) @ middle_dot @ js ''BW '' @ js_ratio_toFixed 0 (tp_bandwidth_hz profile) 1000 @
     js '' kHz'' @ middle_dot @ js ''CR 4/'' @ int_digits (tp_coding_rate_denominator profile) @ middle_dot @
     signed_text (tp_requested_power_dbm profile) @ js '' dBm''"

section \<open>Detail rows\<close>

definition attemptDetailRows :: "js_host \<Rightarrow> AttemptAggregate \<Rightarrow> position \<Rightarrow> jstring \<Rightarrow> TransmissionMapDetailRow list" where
  "attemptDetailRows h attempt coordinates statusLabel =
     (case ag_location attempt of
        None \<Rightarrow> []
      | Some location \<Rightarrow>
          let ordered = sort_trace_newest_first (ag_radioEvents attempt)
          in [(js ''Status'', statusLabel),
              (js ''App submission'',
               case ag_attemptNumber attempt of None \<Rightarrow> js ''Pending submission'' | Some n \<Rightarrow> int_digits n),
              (js ''Message row'', int_digits (ag_timelineSequence attempt))] @
             (case ag_outboxId attempt of None \<Rightarrow> [] | Some i \<Rightarrow> [(js ''Outbox'', int_digits i)]) @
             [(js ''Phone position'', coordinateLabel coordinates),
              (js ''Accuracy'', accuracyLabel location),
              (js ''Captured'', formatDate h (pl_captured_at_unix_ms location)),
              (js ''Position source'',
               js_replace_unit 95 32 (location_source_text (pl_source location)) @ middle_dot @
               authorization_text (pl_authorization location) @ js '' location'' @
               (if pl_mocked location = Some True then middle_dot @ js ''platform marked mocked'' else [])),
              (js ''Meaning'',
               js ''Phone position when the app submission was queued; board retries reuse it; not exact RF emission or board GNSS.'')] @
             (case find_route ordered of
                None \<Rightarrow> []
              | Some r \<Rightarrow>
                  [(js ''Destination'', tr_destination r),
                   (js ''Selected route'',
                    int_digits (tr_hops r) @ js '' hop'' @ (if tr_hops r = 1 then [] else js ''s'') @ middle_dot @ js ''interface '' @
                    reticulumInterfaceIdHex (tr_interface_id r) @ middle_dot @
                    js_replace_unit 95 32 (route_resolution_text (tr_resolution r)))]) @
             (case find_data_tx ordered of
                None \<Rightarrow> []
              | Some x \<Rightarrow>
                  [(js ''RF transmit'',
                    js_replace_unit 95 32 (tx_outcome_text (tx_outcome x)) @ middle_dot @
                    int_digits (tx_completed_physical_frames x) @ js ''/'' @ int_digits (tx_planned_physical_frames x) @
                    js '' frames completed'')]) @
             (case find_terminal ordered of
                None \<Rightarrow> []
              | Some x \<Rightarrow>
                  (case tt_proof_rssi_dbm x of
                     None \<Rightarrow> []
                   | Some rssi \<Rightarrow>
                       [(js ''Proof return signal'',
                         js ''RSSI '' @ int_digits rssi @ js '' dBm'' @
                         (case tt_proof_snr_db x of None \<Rightarrow> [] | Some snr \<Rightarrow> middle_dot @ js ''SNR '' @ int_digits snr @ js '' dB'') @
                         middle_dot @ js ''final return hop only'')])) @
             (case ordered of [] \<Rightarrow> [] | newest # _ \<Rightarrow> [(js ''LoRa profile'', profileLabel (te_profile newest))]))"

definition received_via_rows :: "MessageIngressObservationView option \<Rightarrow> TransmissionMapDetailRow list" where
  "received_via_rows ingress =
     (case ingress of
        None \<Rightarrow> [(js ''Receiver-local signal'', js ''No first-arrival interface or signal evidence was retained.'')]
      | Some i \<Rightarrow>
          [(js ''Received via'', js ''Interface '' @ reticulumInterfaceIdHex (ig_interface_id i)),
           (js ''Receiver-local signal'',
            case ig_signal i of None \<Rightarrow> js ''This ingress interface did not report RSSI or SNR.'' | Some s \<Rightarrow> signal_text s),
           (js ''Signal meaning'',
            js ''Measured by this appliance on the final hop. On a relayed route, the transmitter may be a relay rather than the original sender.'')])"

definition messageLocationRows :: "js_host \<Rightarrow> LocatedTimeline \<Rightarrow> position \<Rightarrow> TransmissionMapDetailRow list" where
  "messageLocationRows h located coordinates =
     (let timeline = lt_timeline located; inbound = (tv_direction timeline = Inbound)
      in case tv_location timeline of
           None \<Rightarrow> []
         | Some location \<Rightarrow>
             [(js ''Direction'', if inbound then js ''Received'' else js ''Sent''),
              (js ''Peer'', lt_peer located),
              (js ''Attached position'', coordinateLabel coordinates),
              (js ''Reported accuracy'', messageAccuracyLabel location),
              (if inbound then js ''Sender phone elevation'' else js ''Sending phone elevation'',
               elevationLabel (messageElevationMeters location) None (ml_altitude_cm location = 0)),
              (js ''Message time'', formatDate h (tv_timestamp_ms timeline)),
              (js ''Meaning'',
               if inbound then js ''Location attached by the remote sender to this LXMF message.''
               else js ''Location attached by this phone to the LXMF message; not necessarily every retry position.'')] @
             (if \<not> inbound then [] else received_via_rows (tv_ingress_observation timeline)))"

definition inboundActivityMessageRows :: "js_host \<Rightarrow> MessageActivityEventView \<Rightarrow> position \<Rightarrow> TransmissionMapDetailRow list" where
  "inboundActivityMessageRows h event coordinates =
     (case ma_message_location event of
        None \<Rightarrow> []
      | Some location \<Rightarrow>
          [(js ''Direction'', js ''Received''), (js ''Peer'', ma_peer event),
           (js ''Attached position'', coordinateLabel coordinates),
           (js ''Reported accuracy'', messageAccuracyLabel location),
           (js ''Sender phone elevation'', elevationLabel (messageElevationMeters location) None (ml_altitude_cm location = 0)),
           (js ''Sender location time'', formatDate h (ml_updated_at_unix_seconds location * 1000)),
           (js ''Imported locally'',
            case ma_observed_at_unix_ms event of None \<Rightarrow> js ''Unavailable'' | Some ms \<Rightarrow> formatDate h ms),
           (js ''Meaning'', js ''Location attached by the remote sender to this LXMF message.'')] @
          received_via_rows (ma_ingress_observation event))"

definition receptionRows :: "js_host \<Rightarrow> map_metric \<Rightarrow> MessageActivityEventView \<Rightarrow> position \<Rightarrow> position \<Rightarrow> PhoneLocationSampleView
    \<Rightarrow> TransmissionMapDetailRow list" where
  "receptionRows h m event senderCoordinates receiverCoordinates receiver =
     (case ma_message_location event of
        None \<Rightarrow> []
      | Some sender \<Rightarrow>
          let elevations = (if ml_altitude_cm sender = 0 then None
                            else map_option (\<lambda>mm. (ml_altitude_cm sender, mm)) (pl_altitude_mm receiver))
          in [(js ''Message row'', int_digits (ma_timeline_sequence event)),
              (js ''Peer'', ma_peer event),
              (js ''Sender phone position'', coordinateLabel senderCoordinates),
              (js ''Sender horizontal accuracy'', messageAccuracyLabel sender),
              (js ''Sender phone elevation'', elevationLabel (messageElevationMeters sender) None (ml_altitude_cm sender = 0)),
              (js ''Sender location time'', formatDate h (ml_updated_at_unix_seconds sender * 1000)),
              (js ''Receiver phone position'', coordinateLabel receiverCoordinates),
              (js ''Receiver horizontal accuracy'', accuracyLabel receiver),
              (js ''Receiver phone elevation'',
               elevationLabel (receiverElevationMeters receiver) (pl_vertical_accuracy_mm receiver) False),
              (js ''Receiver location captured'', formatDate h (pl_captured_at_unix_ms receiver)),
              (js ''Horizontal endpoint separation'', mm_distance m senderCoordinates receiverCoordinates),
              (js ''Elevation difference'',
               case elevations of None \<Rightarrow> js ''Unavailable''
               | Some (s, r) \<Rightarrow> mm_elevation_delta m s r @ js '' m (receiver '' @ [8722] @ js '' sender)''),
              (js ''Straight-line endpoint separation'',
               case elevations of None \<Rightarrow> js ''Unavailable''
               | Some (s, r) \<Rightarrow> mm_slant m senderCoordinates receiverCoordinates s r)] @
             (case ma_ingress_observation event of
                None \<Rightarrow> []
              | Some i \<Rightarrow>
                  [(js ''Received via'', js ''Interface '' @ reticulumInterfaceIdHex (ig_interface_id i)),
                   (js ''Receiver-local final-hop signal'',
                    case ig_signal i of None \<Rightarrow> js ''This ingress interface did not report RSSI or SNR.'' | Some s \<Rightarrow> signal_text s)]) @
             [(js ''Meaning'',
               js ''Phone-to-phone endpoint separation using the sender-attached fix and the receiver phone fix retained when the app imported the message. It is not the board position, exact RF reception position, traveled route, or a measured RF path. On a relayed Reticulum route, final-hop RSSI and SNR describe the relay-to-receiver hop, not this full line.'')])"

definition bounds_extend :: "TransmissionMapBounds \<Rightarrow> point_feature \<Rightarrow> TransmissionMapBounds" where
  "bounds_extend b p =
     \<lparr>mb_east = max (mb_east b) (fst (pf_coordinates p)), mb_north = max (mb_north b) (snd (pf_coordinates p)),
      mb_south = min (mb_south b) (snd (pf_coordinates p)), mb_west = min (mb_west b) (fst (pf_coordinates p))\<rparr>"

text \<open>The first point replaces the infinite start values.\<close>

definition sceneBounds :: "point_feature list \<Rightarrow> TransmissionMapBounds option" where
  "sceneBounds points =
     (case points of
        [] \<Rightarrow> None
      | p # ps \<Rightarrow>
          Some (foldl bounds_extend
            \<lparr>mb_east = fst (pf_coordinates p), mb_north = snd (pf_coordinates p),
             mb_south = snd (pf_coordinates p), mb_west = fst (pf_coordinates p)\<rparr> ps))"

section \<open>Aggregation\<close>

definition attempt_activity_add :: "(jstring \<times> AttemptAggregate) list \<Rightarrow> MessageActivityEventView \<Rightarrow> (jstring \<times> AttemptAggregate) list" where
  "attempt_activity_add attempts event =
     (if ma_direction event \<noteq> Outbound then attempts
      else let key = attemptGroupKey (ma_timeline_sequence event) (ma_outbox_id event) (ma_attempt_number event);
               current = (case map_of attempts key of
                   Some c \<Rightarrow> c
                 | None \<Rightarrow> \<lparr>ag_attemptNumber = ma_attempt_number event, ag_latestActivity = None, ag_location = None,
                     ag_outboxId = ma_outbox_id event, ag_peer = Some (ma_peer event), ag_radioEvents = [],
                     ag_timelineSequence = ma_timeline_sequence event\<rparr>)
           in AList.update key
                (current\<lparr>ag_latestActivity := Some (newestActivity (ag_latestActivity current) event),
                   ag_location := (case availablePhoneLocation (ma_attempt_location event) of
                       Some l \<Rightarrow> Some l | None \<Rightarrow> ag_location current),
                   ag_peer := (if ma_peer event \<noteq> [] then Some (ma_peer event) else ag_peer current),
                   ag_outboxId := (case ma_outbox_id event of Some i \<Rightarrow> Some i | None \<Rightarrow> ag_outboxId current),
                   ag_attemptNumber := (case ma_attempt_number event of Some n \<Rightarrow> Some n | None \<Rightarrow> ag_attemptNumber current)\<rparr>)
                attempts)"

definition attempt_trace_add :: "(jstring \<times> AttemptAggregate) list \<Rightarrow> RadioTraceEventView \<Rightarrow> (jstring \<times> AttemptAggregate) list" where
  "attempt_trace_add attempts event =
     (case te_correlation event of
        None \<Rightarrow> attempts
      | Some c \<Rightarrow>
          let key = attemptGroupKey (tc_timeline_sequence c) (Some (tc_outbox_id c)) (Some (tc_attempt_number c));
              current = (case map_of attempts key of
                  Some a \<Rightarrow> a
                | None \<Rightarrow> \<lparr>ag_attemptNumber = Some (tc_attempt_number c), ag_latestActivity = None, ag_location = None,
                    ag_outboxId = Some (tc_outbox_id c), ag_peer = None, ag_radioEvents = [],
                    ag_timelineSequence = tc_timeline_sequence c\<rparr>)
          in AList.update key
               (current\<lparr>ag_location := (case availablePhoneLocation (Some (tc_attempt_location c)) of
                      Some l \<Rightarrow> Some l | None \<Rightarrow> ag_location current),
                  ag_radioEvents := ag_radioEvents current @ [event],
                  ag_peer := (case te_event event of RouteSelected r \<Rightarrow> Some (tr_destination r) | _ \<Rightarrow> ag_peer current)\<rparr>)
               attempts)"

definition collect_attempts :: "MessageActivityEventView list \<Rightarrow> RadioTraceEventView list \<Rightarrow> (jstring \<times> AttemptAggregate) list" where
  "collect_attempts activities traces = foldl attempt_trace_add (foldl attempt_activity_add [] activities) traces"

text \<open>The state an attempt is drawn in: its activity when that is final, else the radio evidence.\<close>

definition attempt_state :: "AttemptAggregate \<Rightarrow> jstring \<times> TransmissionMapTone" where
  "attempt_state attempt =
     (let (label, status, tone) = timelineStatus (ag_latestActivity attempt);
          radioState = traceStatus (ag_radioEvents attempt)
      in if status = None \<and> radioState \<noteq> None then the radioState
         else if status = Some StatusDelivered \<or> tone = MapDanger then (label, tone)
         else (case radioState of Some r \<Rightarrow> r | None \<Rightarrow> (label, tone)))"

section \<open>The scene\<close>

text \<open>What the loops of \<open>buildTransmissionMapScene\<close> accumulate.\<close>

record scene_acc =
  sa_attemptPoints :: "point_feature list"
  sa_messagePoints :: "point_feature list"
  sa_receiverPoints :: "point_feature list"
  sa_receptionLines :: "line_feature list"
  sa_details :: "(jstring \<times> TransmissionMapFeatureDetails) list"
  sa_seenTimelines :: "int list"
  sa_seenReceptions :: "int list"

definition scene_acc_new :: scene_acc where
  "scene_acc_new = \<lparr>sa_attemptPoints = [], sa_messagePoints = [], sa_receiverPoints = [], sa_receptionLines = [],
     sa_details = [], sa_seenTimelines = [], sa_seenReceptions = []\<rparr>"

definition properties :: "jstring \<Rightarrow> TransmissionMapFeatureKind \<Rightarrow> jstring \<Rightarrow> int \<Rightarrow> TransmissionMapTone \<Rightarrow> TransmissionMapProperties" where
  "properties i kind label timestamp tone =
     \<lparr>mp_id = i, mp_kind = kind, mp_label = label, mp_timestamp_ms = timestamp, mp_map_tone = tone\<rparr>"

definition details :: "jstring \<Rightarrow> TransmissionMapFeatureKind \<Rightarrow> TransmissionMapDetailRow list \<Rightarrow> jstring \<Rightarrow> int option \<Rightarrow> jstring
    \<Rightarrow> TransmissionMapTone \<Rightarrow> TransmissionMapFeatureDetails" where
  "details i kind rows subtitle sequence title tone =
     \<lparr>md_id = i, md_kind = kind, md_rows = rows, md_subtitle = subtitle, md_timelineSequence = sequence,
      md_title = title, md_tone = tone\<rparr>"

definition attempt_point_add :: "js_host \<Rightarrow> jstring \<Rightarrow> (jstring \<times> jstring) list \<Rightarrow> scene_acc \<Rightarrow> AttemptAggregate \<Rightarrow> scene_acc" where
  "attempt_point_add h profile aliases acc attempt =
     (case ag_location attempt of
        None \<Rightarrow> acc
      | Some location \<Rightarrow>
        (case validMicrodegreeCoordinates (pl_latitude_e6 location) (pl_longitude_e6 location) of
           None \<Rightarrow> acc
         | Some coordinates \<Rightarrow>
             let (stateLabel, stateTone) = attempt_state attempt;
                 peer = (case ag_peer attempt of
                     Some p \<Rightarrow> p
                   | None \<Rightarrow> (case ag_latestActivity attempt of Some a \<Rightarrow> ma_peer a | None \<Rightarrow> js ''unknown peer''));
                 peerLabel = (case ag_latestActivity attempt of
                     None \<Rightarrow> (case map_of aliases peer of Some n \<Rightarrow> n | None \<Rightarrow> shortPeer peer)
                   | Some a \<Rightarrow> messageActivityPeerLabel (ma_direction a) (ma_peer a) aliases);
                 i = attemptFeatureId profile attempt;
                 attemptLabel = (case ag_attemptNumber attempt of None \<Rightarrow> js ''queued'' | Some n \<Rightarrow> js ''#'' @ int_digits n)
             in acc\<lparr>
                  sa_attemptPoints := sa_attemptPoints acc @
                    [\<lparr>pf_coordinates = coordinates,
                      pf_properties = properties i AttemptFeature (peerLabel @ middle_dot @ attemptLabel @ middle_dot @ stateLabel)
                        (pl_captured_at_unix_ms location) stateTone\<rparr>],
                  sa_details := AList.update i
                    (details i AttemptFeature
                      ((js ''Peer'', peerLabel @ middle_dot @ peer) # attemptDetailRows h attempt coordinates stateLabel)
                      stateLabel (Some (ag_timelineSequence attempt))
                      (peerLabel @ middle_dot @ js ''attempt '' @
                        (case ag_attemptNumber attempt of None \<Rightarrow> js ''pending'' | Some n \<Rightarrow> int_digits n)) stateTone)
                    (sa_details acc)\<rparr>))"

definition feature_id :: "string \<Rightarrow> jstring \<Rightarrow> int \<Rightarrow> jstring" where
  "feature_id prefix profile sequence = js prefix @ js '':'' @ safeIdPart profile @ js '':'' @ int_digits sequence"

definition shared_label :: "jstring \<Rightarrow> MessageSignalObservationView option \<Rightarrow> jstring" where
  "shared_label peerLabel signal =
     (case signal of
        None \<Rightarrow> peerLabel @ middle_dot @ js ''shared''
      | Some s \<Rightarrow> peerLabel @ middle_dot @ js ''RX '' @ int_digits (sg_rssi_dbm s) @ js '' dBm'' @ middle_dot @ js ''SNR '' @
          int_digits (sg_snr_db s) @ js '' dB'')"

definition message_point_add :: "js_host \<Rightarrow> jstring \<Rightarrow> (jstring \<times> jstring) list \<Rightarrow> scene_acc \<Rightarrow> LocatedTimeline \<Rightarrow> scene_acc" where
  "message_point_add h profile aliases acc located =
     (let timeline = lt_timeline located
      in case tv_location timeline of
           None \<Rightarrow> acc
         | Some location \<Rightarrow>
           if tv_sequence timeline \<in> set (sa_seenTimelines acc) then acc
           else case validMicrodegreeCoordinates (ml_latitude_e6 location) (ml_longitude_e6 location) of
             None \<Rightarrow> acc
           | Some coordinates \<Rightarrow>
               let name = (case lt_peerName located of None \<Rightarrow> [] | Some n \<Rightarrow> js_trim n);
                   alias = (case map_of aliases (lt_peer located) of None \<Rightarrow> [] | Some n \<Rightarrow> n);
                   peerLabel = (if name \<noteq> [] then name else if alias \<noteq> [] then alias else shortPeer (lt_peer located));
                   i = feature_id ''message-location'' profile (tv_sequence timeline);
                   inbound = (tv_direction timeline = Inbound);
                   tone = (if inbound then MapInfo else MapMuted);
                   signal = (if inbound then (case tv_ingress_observation timeline of None \<Rightarrow> None | Some g \<Rightarrow> ig_signal g) else None)
               in acc\<lparr>
                    sa_seenTimelines := js_set_add (tv_sequence timeline) (sa_seenTimelines acc),
                    sa_messagePoints := sa_messagePoints acc @
                      [\<lparr>pf_coordinates = coordinates,
                        pf_properties = properties i MessageLocationFeature (shared_label peerLabel signal) (tv_timestamp_ms timeline) tone\<rparr>],
                    sa_details := AList.update i
                      (details i MessageLocationFeature (messageLocationRows h located coordinates)
                        (if inbound then js ''Remote sender-attached LXMF location'' else js ''Location attached to an outbound LXMF message'')
                        (Some (tv_sequence timeline)) (peerLabel @ middle_dot @ js ''shared location'') tone)
                      (sa_details acc)\<rparr>)"

text \<open>The sender's point of a received message, when no timeline row has drawn it.\<close>

definition sender_point_add :: "js_host \<Rightarrow> jstring \<Rightarrow> jstring \<Rightarrow> int \<Rightarrow> MessageActivityEventView \<Rightarrow> position \<Rightarrow> scene_acc \<Rightarrow> scene_acc" where
  "sender_point_add h profile peerLabel observedAt event senderCoordinates acc =
     (if ma_timeline_sequence event \<in> set (sa_seenTimelines acc) then acc
      else let i = feature_id ''message-location'' profile (ma_timeline_sequence event);
               signal = (case ma_ingress_observation event of None \<Rightarrow> None | Some g \<Rightarrow> ig_signal g)
           in acc\<lparr>
                sa_messagePoints := sa_messagePoints acc @
                  [\<lparr>pf_coordinates = senderCoordinates,
                    pf_properties = properties i MessageLocationFeature (shared_label peerLabel signal) observedAt MapInfo\<rparr>],
                sa_details := AList.update i
                  (details i MessageLocationFeature (inboundActivityMessageRows h event senderCoordinates)
                    (js ''Remote sender-attached LXMF location'') (Some (ma_timeline_sequence event))
                    (peerLabel @ middle_dot @ js ''shared location'') MapInfo)
                  (sa_details acc),
                sa_seenTimelines := js_set_add (ma_timeline_sequence event) (sa_seenTimelines acc)\<rparr>)"

text \<open>The receiver's point and the line between sender and receiver.\<close>

definition reception_link_add :: "js_host \<Rightarrow> map_metric \<Rightarrow> jstring \<Rightarrow> jstring \<Rightarrow> int \<Rightarrow> MessageActivityEventView \<Rightarrow> MessageLocationView
    \<Rightarrow> position \<Rightarrow> PhoneLocationSampleView \<Rightarrow> position \<Rightarrow> scene_acc \<Rightarrow> scene_acc" where
  "reception_link_add h m profile peerLabel observedAt event sender senderCoordinates receiver receiverCoordinates acc =
     (let distance = mm_distance m senderCoordinates receiverCoordinates;
          senderElevation = messageElevationMeters sender;
          receiverElevation = receiverElevationMeters receiver;
          lineLabel = distance @ middle_dot @ compactElevationLabel senderElevation @ [32, 8594, 32] @
            compactElevationLabel receiverElevation;
          rows = receptionRows h m event senderCoordinates receiverCoordinates receiver;
          receiverId = feature_id ''receiver-location'' profile (ma_timeline_sequence event);
          linkId = feature_id ''message-reception-link'' profile (ma_timeline_sequence event)
      in acc\<lparr>
           sa_receiverPoints := sa_receiverPoints acc @
             [\<lparr>pf_coordinates = receiverCoordinates,
               pf_properties = properties receiverId ReceiverLocationFeature
                 (js ''Local receiver'' @ middle_dot @ compactElevationLabel receiverElevation)
                 (pl_captured_at_unix_ms receiver) MapSuccess\<rparr>],
           sa_receptionLines := sa_receptionLines acc @
             [\<lparr>lf_coordinates = [senderCoordinates, receiverCoordinates],
               lf_properties = properties linkId MessageReceptionLink lineLabel observedAt MapSuccess\<rparr>],
           sa_details := AList.update linkId
             (details linkId MessageReceptionLink rows (js ''Phone-to-phone endpoint separation for one received LXMF message'')
               (Some (ma_timeline_sequence event)) (peerLabel @ middle_dot @ js ''reception'' @ middle_dot @ distance) MapSuccess)
             (AList.update receiverId
               (details receiverId ReceiverLocationFeature rows (js ''Receiver phone fix retained at local import'')
                 (Some (ma_timeline_sequence event)) (peerLabel @ middle_dot @ js ''receiver endpoint'') MapSuccess)
               (sa_details acc))\<rparr>)"

definition reception_add :: "js_host \<Rightarrow> map_metric \<Rightarrow> jstring \<Rightarrow> (jstring \<times> jstring) list \<Rightarrow> scene_acc \<Rightarrow> MessageActivityEventView \<Rightarrow> scene_acc" where
  "reception_add h m profile aliases acc event =
     (case ma_message_location event of
        None \<Rightarrow> acc
      | Some sender \<Rightarrow>
        if ma_direction event \<noteq> Inbound \<or> ma_timeline_sequence event \<in> set (sa_seenReceptions acc) then acc
        else case validMicrodegreeCoordinates (ml_latitude_e6 sender) (ml_longitude_e6 sender) of
          None \<Rightarrow> acc
        | Some senderCoordinates \<Rightarrow>
            let acc1 = acc\<lparr>sa_seenReceptions := js_set_add (ma_timeline_sequence event) (sa_seenReceptions acc)\<rparr>;
                peerLabel = messageActivityPeerLabel (ma_direction event) (ma_peer event) aliases;
                observedAt = (case ma_observed_at_unix_ms event of Some ms \<Rightarrow> ms | None \<Rightarrow> ml_updated_at_unix_seconds sender * 1000);
                acc2 = sender_point_add h profile peerLabel observedAt event senderCoordinates acc1
            in case availablePhoneLocation (ma_receiver_location event) of
                 None \<Rightarrow> acc2
               | Some receiver \<Rightarrow>
                 (case validMicrodegreeCoordinates (pl_latitude_e6 receiver) (pl_longitude_e6 receiver) of
                    None \<Rightarrow> acc2
                  | Some receiverCoordinates \<Rightarrow>
                      reception_link_add h m profile peerLabel observedAt event sender senderCoordinates receiver
                        receiverCoordinates acc2))"

definition sort_points :: "js_host \<Rightarrow> point_feature list \<Rightarrow> point_feature list" where
  "sort_points h points =
     sort_key (\<lambda>p. (mp_timestamp_ms (pf_properties p), jh_collation_key h (mp_id (pf_properties p)))) points"

definition segment_id :: "jstring \<Rightarrow> point_feature \<Rightarrow> point_feature \<Rightarrow> jstring" where
  "segment_id profile start finish =
     js ''observation-segment:'' @ safeIdPart profile @ js '':'' @ mp_id (pf_properties start) @ js '':'' @ mp_id (pf_properties finish)"

definition segment_line :: "map_metric \<Rightarrow> jstring \<Rightarrow> point_feature \<Rightarrow> point_feature \<Rightarrow> line_feature" where
  "segment_line m profile start finish =
     \<lparr>lf_coordinates = [pf_coordinates start, pf_coordinates finish],
      lf_properties = properties (segment_id profile start finish) ObservationSegment
        (mm_distance m (pf_coordinates start) (pf_coordinates finish)) (mp_timestamp_ms (pf_properties finish)) MapInfo\<rparr>"

definition segment_details :: "js_host \<Rightarrow> map_metric \<Rightarrow> jstring \<Rightarrow> point_feature \<Rightarrow> point_feature \<Rightarrow> TransmissionMapFeatureDetails" where
  "segment_details h m profile start finish =
     (let distance = mm_distance m (pf_coordinates start) (pf_coordinates finish)
      in details (segment_id profile start finish) ObservationSegment
           [(js ''From'', mp_label (pf_properties start)), (js ''To'', mp_label (pf_properties finish)),
            (js ''Geographic separation'', distance),
            (js ''Start sample'', formatDate h (mp_timestamp_ms (pf_properties start))),
            (js ''End sample'', formatDate h (mp_timestamp_ms (pf_properties finish))),
            (js ''Meaning'',
             js ''Chronological connection between two phone queue-position observations; not an RF path, route, or traveled track.'')]
           (js ''Chronological field-test observation sequence'') None
           (js ''Observation separation'' @ middle_dot @ distance) MapInfo)"

text \<open>The loop over consecutive attempt points.\<close>

fun segment_loop :: "js_host \<Rightarrow> map_metric \<Rightarrow> jstring \<Rightarrow> point_feature list \<Rightarrow> line_feature list \<times> (jstring \<times> TransmissionMapFeatureDetails) list
    \<Rightarrow> line_feature list \<times> (jstring \<times> TransmissionMapFeatureDetails) list" where
  "segment_loop h m profile (start # finish # rest) (lines, ds) =
     segment_loop h m profile (finish # rest)
       (if pf_coordinates start = pf_coordinates finish then (lines, ds)
        else (lines @ [segment_line m profile start finish],
              AList.update (segment_id profile start finish) (segment_details h m profile start finish) ds))"
| "segment_loop h m profile points acc = acc"

definition scene_loops :: "js_host \<Rightarrow> map_metric \<Rightarrow> BuildTransmissionMapSceneInput \<Rightarrow> jstring \<Rightarrow> scene_acc" where
  "scene_loops h m i profile =
     (let aliases = buildMessageActivityAliases (bi_contacts i) (bi_conversationPeers i);
          attempts = collect_attempts (bi_messageActivityEvents i) (bi_radioTraceEvents i);
          acc1 = foldl (attempt_point_add h profile aliases) scene_acc_new (map snd attempts);
          acc2 = foldl (message_point_add h profile aliases) acc1 (bi_locatedTimelines i)
      in foldl (reception_add h m profile aliases) acc2 (bi_messageActivityEvents i))"

definition buildTransmissionMapScene :: "js_host \<Rightarrow> map_metric \<Rightarrow> BuildTransmissionMapSceneInput \<Rightarrow> TransmissionMapScene" where
  "buildTransmissionMapScene h m i =
     (let profile = (case bi_profileKey i of None \<Rightarrow> js ''active'' | Some k \<Rightarrow> k);
          acc = scene_loops h m i profile;
          attemptPoints = sort_points h (sa_attemptPoints acc);
          messagePoints = sort_points h (sa_messagePoints acc);
          receiverPoints = sort_points h (sa_receiverPoints acc);
          (observationLines, ds) = segment_loop h m profile attemptPoints ([], sa_details acc);
          points = attemptPoints @ messagePoints @ receiverPoints;
          lines = observationLines @ sa_receptionLines acc
      in \<lparr>sc_bounds = sceneBounds points, sc_detailsByFeatureId = ds,
          sc_historyIncomplete = (bi_activityHistoryIncomplete i \<or> bi_radioTraceHistoryIncomplete i),
          sc_lines = lines, sc_points = points,
          sc_summary = \<lparr>ss_attemptCount = length attemptPoints, ss_messageLocationCount = length messagePoints,
            ss_messageReceptionLinkCount = length (sa_receptionLines acc),
            ss_observationSegmentCount = length observationLines, ss_receiverLocationCount = length receiverPoints\<rparr>\<rparr>)"

definition emptyTransmissionMapScene :: TransmissionMapScene where
  "emptyTransmissionMapScene = \<lparr>sc_bounds = None, sc_detailsByFeatureId = [], sc_historyIncomplete = False, sc_lines = [],
     sc_points = [], sc_summary = \<lparr>ss_attemptCount = 0, ss_messageLocationCount = 0, ss_messageReceptionLinkCount = 0,
       ss_observationSegmentCount = 0, ss_receiverLocationCount = 0\<rparr>\<rparr>"

definition selectedTransmissionMapFeatures :: "TransmissionMapScene \<Rightarrow> jstring option \<Rightarrow> (point_feature + line_feature) list" where
  "selectedTransmissionMapFeatures scene selectedFeatureId =
     (case selectedFeatureId of
        None \<Rightarrow> []
      | Some i \<Rightarrow>
        (case find (\<lambda>p. mp_id (pf_properties p) = i) (sc_points scene) of
           Some p \<Rightarrow> [Inl p]
         | None \<Rightarrow> (case find (\<lambda>l. mp_id (lf_properties l) = i) (sc_lines scene) of Some l \<Rightarrow> [Inr l] | None \<Rightarrow> [])))"

end
