(* ===== verification/TransmissionMapScene.thy ===== *)
theory TransmissionMapScene
  imports TransmissionMap
begin

text \<open>
  Properties of the transmission map: feature identities are unique across all kinds, every feature has its details
  and can be selected, the bounds are the tightest box around the points, and segments join consecutive attempts.
\<close>

section \<open>Identities\<close>

declare int_digits_inj [simp] int_digits_no_colon [simp]

lemma upper_hex_not_colon [simp]: "upper_hex_digit d \<noteq> 58"
  by (auto simp: upper_hex_digit_def)

lemma safeIdPart_no_colon [simp]: "58 \<notin> set (safeIdPart s)"
proof -
  have "58 \<notin> set (encode_code_point p)" for p
    by (auto simp: encode_code_point_def uri_unreserved_def is_digit_def)
  then show ?thesis by (auto simp: safeIdPart_def js_replace_unit_def encodeURIComponent_def)
qed

lemma colon_split:
  fixes a a' :: jstring
  assumes "58 \<notin> set a" and "58 \<notin> set a'"
  shows "a @ 58 # b = a' @ 58 # b' \<longleftrightarrow> a = a' \<and> b = b'"
proof
  assume e: "a @ 58 # b = a' @ 58 # b'"
  have "takeWhile (\<lambda>c. c \<noteq> 58) (a @ 58 # b) = a" "takeWhile (\<lambda>c. c \<noteq> 58) (a' @ 58 # b') = a'"
    using assms by (auto simp: takeWhile_append2 takeWhile_tail)
  with e show "a = a' \<and> b = b'" by auto
qed simp

text \<open>The kind names in front of the identities; after this, texts are not evaluated by the simplifier.\<close>

lemma kind_name_no_colon [simp]:
  "58 \<notin> set (js ''attempt'')" "58 \<notin> set (js ''message-location'')" "58 \<notin> set (js ''receiver-location'')"
  "58 \<notin> set (js ''message-reception-link'')" "58 \<notin> set (js ''observation-segment'')"
  "58 \<notin> set (js ''none'')" "58 \<notin> set (js ''pending'')"
  by simp_all

lemma word_not_number: "\<exists>c\<in>set (js ''none''). \<not> is_digit c \<and> c \<noteq> 45" "\<exists>c\<in>set (js ''pending''). \<not> is_digit c \<and> c \<noteq> 45"
  by (simp_all add: is_digit_def)

lemma js_colon: "js '':'' = [58]" "js ''attempt:'' = js ''attempt'' @ [58]" "js ''observation-segment:'' = js ''observation-segment'' @ [58]"
  by simp_all

lemma js_inj [simp]: "js s = js t \<longleftrightarrow> s = t"
proof (induction s arbitrary: t)
  case Nil
  then show ?case by (cases t) auto
next
  case (Cons c s)
  then show ?case by (cases t) auto
qed

declare js.simps [simp del]

definition optional_text :: "string \<Rightarrow> int option \<Rightarrow> jstring" where
  "optional_text none i = (case i of None \<Rightarrow> js none | Some n \<Rightarrow> int_digits n)"

lemma optional_text_inj:
  assumes "\<exists>c\<in>set (js none). \<not> is_digit c \<and> c \<noteq> 45"
  shows "optional_text none a = optional_text none b \<longleftrightarrow> a = b"
proof -
  have "js none \<noteq> int_digits i" for i using assms int_digits_units by metis
  then show ?thesis by (auto simp: optional_text_def split: option.splits) (metis)
qed

lemma optional_text_no_colon [simp]: "58 \<notin> set (js none) \<Longrightarrow> 58 \<notin> set (optional_text none a)"
  by (auto simp: optional_text_def split: option.splits)

lemma attemptGroupKey_eq:
  "attemptGroupKey s i n = int_digits s @ 58 # optional_text ''none'' i @ 58 # optional_text ''pending'' n"
  by (simp add: attemptGroupKey_def optional_text_def js_colon)

lemma attemptGroupKey_inj: "attemptGroupKey s i n = attemptGroupKey s' i' n' \<longleftrightarrow> s = s' \<and> i = i' \<and> n = n'"
proof -
  have "optional_text ''none'' a = optional_text ''none'' b \<longleftrightarrow> a = b" "optional_text ''pending'' a = optional_text ''pending'' b \<longleftrightarrow> a = b" for a b
    by (rule optional_text_inj [OF word_not_number(1)], rule optional_text_inj [OF word_not_number(2)])
  then show ?thesis by (simp add: attemptGroupKey_eq colon_split)
qed

lemma feature_id_inj:
  "58 \<notin> set (js p) \<Longrightarrow> 58 \<notin> set (js q) \<Longrightarrow> feature_id p profile s = feature_id q profile s' \<longleftrightarrow> js p = js q \<and> s = s'"
  by (simp add: feature_id_def colon_split js_colon)

lemma attempt_id_inj:
  "attemptFeatureId profile a = attemptFeatureId profile b \<longleftrightarrow>
     ag_timelineSequence a = ag_timelineSequence b \<and> ag_outboxId a = ag_outboxId b \<and> ag_attemptNumber a = ag_attemptNumber b"
  by (simp add: attemptFeatureId_def attemptGroupKey_inj js_colon)

lemma attempt_id_other:
  assumes "58 \<notin> set (js p)" and "js p \<noteq> js ''attempt''"
  shows "attemptFeatureId profile a \<noteq> feature_id p profile s"
  using colon_split [of "js ''attempt''" "js p"] assms by (simp add: attemptFeatureId_def feature_id_def js_colon)

lemma segment_id_other:
  assumes "58 \<notin> set (js p)" and "js p \<noteq> js ''observation-segment''"
  shows "segment_id profile a b \<noteq> feature_id p profile s" "segment_id profile a b \<noteq> attemptFeatureId profile c"
  using colon_split [of "js ''observation-segment''" "js p"] colon_split [of "js ''observation-segment''" "js ''attempt''"] assms
  by (simp_all add: segment_id_def feature_id_def attemptFeatureId_def js_colon)

section \<open>Aggregates carry their key\<close>

definition aggregate_key :: "AttemptAggregate \<Rightarrow> jstring" where
  "aggregate_key a = attemptGroupKey (ag_timelineSequence a) (ag_outboxId a) (ag_attemptNumber a)"

definition attempts_ok :: "(jstring \<times> AttemptAggregate) list \<Rightarrow> bool" where
  "attempts_ok attempts \<longleftrightarrow> distinct (map fst attempts) \<and> (\<forall>k a. map_of attempts k = Some a \<longrightarrow> aggregate_key a = k)"

lemma attempts_ok_update: "attempts_ok m \<Longrightarrow> aggregate_key a = k \<Longrightarrow> attempts_ok (AList.update k a m)"
  by (auto simp: attempts_ok_def update_Some_unfold distinct_update)

lemma attempts_ok_fields:
  "attempts_ok m \<Longrightarrow> map_of m (attemptGroupKey s i n) = Some a \<Longrightarrow>
     ag_timelineSequence a = s \<and> ag_outboxId a = i \<and> ag_attemptNumber a = n"
  by (metis attempts_ok_def aggregate_key_def attemptGroupKey_inj)

lemma attempt_activity_add_ok:
  assumes "attempts_ok m"
  shows "attempts_ok (attempt_activity_add m e)"
proof (cases "ma_direction e = Outbound")
  case True
  let ?k = "attemptGroupKey (ma_timeline_sequence e) (ma_outbox_id e) (ma_attempt_number e)"
  show ?thesis
  proof (cases "map_of m ?k")
    case None
    with True show ?thesis
      by (auto simp: attempt_activity_add_def Let_def aggregate_key_def split: option.splits intro!: attempts_ok_update [OF assms])
  next
    case (Some a)
    from attempts_ok_fields [OF assms Some] True Some show ?thesis
      by (auto simp: attempt_activity_add_def Let_def aggregate_key_def split: option.splits intro!: attempts_ok_update [OF assms])
  qed
qed (simp add: attempt_activity_add_def assms)

lemma attempt_trace_add_ok:
  assumes "attempts_ok m"
  shows "attempts_ok (attempt_trace_add m e)"
proof (cases "te_correlation e")
  case (Some c)
  let ?k = "attemptGroupKey (tc_timeline_sequence c) (Some (tc_outbox_id c)) (Some (tc_attempt_number c))"
  show ?thesis
  proof (cases "map_of m ?k")
    case None
    with Some show ?thesis
      unfolding attempt_trace_add_def
      by (simp add: Let_def) (rule attempts_ok_update [OF assms], simp add: aggregate_key_def)
  next
    case (Some a)
    from attempts_ok_fields [OF assms Some] \<open>te_correlation e = Some c\<close> Some show ?thesis
      unfolding attempt_trace_add_def
      by (simp add: Let_def) (rule attempts_ok_update [OF assms], simp add: aggregate_key_def)
  qed
qed (simp add: attempt_trace_add_def assms)

lemma foldl_invariant: "I s \<Longrightarrow> (\<And>s x. I s \<Longrightarrow> I (f s x)) \<Longrightarrow> I (foldl f s xs)"
  by (induction xs arbitrary: s) auto

lemma collect_attempts_ok: "attempts_ok (collect_attempts activities traces)"
  unfolding collect_attempts_def
  by (rule foldl_invariant [where I = attempts_ok], rule foldl_invariant [where I = attempts_ok])
     (simp_all add: attempts_ok_def [of "[]"] attempt_activity_add_ok attempt_trace_add_ok)

lemma attempt_ids_distinct:
  assumes "attempts_ok m"
  shows "distinct (map (attemptFeatureId profile) (map snd m))"
proof -
  have "aggregate_key (snd e) = fst e" if "e \<in> set m" for e
    using assms that by (cases e) (simp add: attempts_ok_def)
  then have "map aggregate_key (map snd m) = map fst m" by simp
  then have "distinct (map aggregate_key (map snd m))" using assms unfolding attempts_ok_def by metis
  then show ?thesis
    by (auto simp: distinct_map inj_on_def attempt_id_inj aggregate_key_def attemptGroupKey_inj)
qed

section \<open>Features and their details\<close>

definition listed :: "(jstring \<times> TransmissionMapFeatureDetails) list \<Rightarrow> TransmissionMapProperties \<Rightarrow> bool" where
  "listed ds pr \<longleftrightarrow> (case map_of ds (mp_id pr) of
      None \<Rightarrow> False
    | Some d \<Rightarrow> md_id d = mp_id pr \<and> md_kind d = mp_kind pr \<and> md_tone d = mp_map_tone pr)"

text \<open>Features of one kind, with identities from a given set, each once and each with its details.\<close>

definition features_ok :: "TransmissionMapFeatureKind \<Rightarrow> jstring set \<Rightarrow> (jstring \<times> TransmissionMapFeatureDetails) list
    \<Rightarrow> TransmissionMapProperties list \<Rightarrow> bool" where
  "features_ok kind ids ds prs \<longleftrightarrow>
     distinct (map mp_id prs) \<and> (\<forall>pr\<in>set prs. mp_kind pr = kind \<and> mp_id pr \<in> ids \<and> listed ds pr)"

lemma features_ok_Nil [simp]: "features_ok kind ids ds []"
  by (simp add: features_ok_def)

lemma features_ok_update:
  "features_ok kind ids ds prs \<Longrightarrow> i \<notin> ids \<Longrightarrow> features_ok kind ids (AList.update i d ds) prs"
  by (auto simp: features_ok_def listed_def update_conv')

lemma features_ok_mono: "features_ok kind ids ds prs \<Longrightarrow> ids \<subseteq> ids' \<Longrightarrow> features_ok kind ids' ds prs"
  by (auto simp: features_ok_def)

lemma features_ok_snoc:
  assumes "features_ok kind ids ds prs" and "i \<notin> ids"
  shows "features_ok kind (insert i ids) (AList.update i (details i kind rows sub sq title tone) ds)
    (prs @ [properties i kind label ts tone])"
  using features_ok_mono [OF features_ok_update [OF assms], of "insert i ids"] assms
  by (auto simp: features_ok_def listed_def update_conv' details_def properties_def)

definition scene_ok :: "jstring \<Rightarrow> AttemptAggregate set \<Rightarrow> int set \<Rightarrow> scene_acc \<Rightarrow> bool" where
  "scene_ok profile A R acc \<longleftrightarrow>
     features_ok AttemptFeature (attemptFeatureId profile ` A) (sa_details acc) (map pf_properties (sa_attemptPoints acc)) \<and>
     features_ok MessageLocationFeature (feature_id ''message-location'' profile ` set (sa_seenTimelines acc)) (sa_details acc)
       (map pf_properties (sa_messagePoints acc)) \<and>
     features_ok ReceiverLocationFeature (feature_id ''receiver-location'' profile ` R) (sa_details acc)
       (map pf_properties (sa_receiverPoints acc)) \<and>
     features_ok MessageReceptionLink (feature_id ''message-reception-link'' profile ` R) (sa_details acc)
       (map lf_properties (sa_receptionLines acc))"

lemma attempt_kind_ids:
  assumes "58 \<notin> set (js p)" and "js p \<noteq> js ''attempt''"
  shows "attemptFeatureId profile a \<notin> feature_id p profile ` S" "feature_id p profile s \<notin> attemptFeatureId profile ` A"
  using attempt_id_other [OF assms] by (auto simp: image_iff) (metis)

lemma kind_not_attempt:
  "js ''message-location'' \<noteq> js ''attempt''" "js ''receiver-location'' \<noteq> js ''attempt''" "js ''message-reception-link'' \<noteq> js ''attempt''"
  by simp_all

lemmas kind_ids_disjoint [simp] =
  attempt_kind_ids [OF kind_name_no_colon(2) kind_not_attempt(1)]
  attempt_kind_ids [OF kind_name_no_colon(3) kind_not_attempt(2)]
  attempt_kind_ids [OF kind_name_no_colon(4) kind_not_attempt(3)]

lemma same_kind_ids [simp]:
  "58 \<notin> set (js p) \<Longrightarrow> feature_id p profile s \<in> feature_id p profile ` S \<longleftrightarrow> s \<in> S"
  by (auto simp: feature_id_inj)

lemma other_kind_ids: "58 \<notin> set (js p) \<Longrightarrow> 58 \<notin> set (js q) \<Longrightarrow> js p \<noteq> js q \<Longrightarrow> feature_id p profile s \<notin> feature_id q profile ` S"
  by (auto simp: feature_id_inj)

lemma kind_names_differ:
  "js ''message-location'' \<noteq> js ''receiver-location''" "js ''message-location'' \<noteq> js ''message-reception-link''"
  "js ''receiver-location'' \<noteq> js ''message-reception-link''"
  by simp_all

lemmas kind_ids_apart [simp] =
  other_kind_ids [OF kind_name_no_colon(2) kind_name_no_colon(3) kind_names_differ(1)]
  other_kind_ids [OF kind_name_no_colon(2) kind_name_no_colon(4) kind_names_differ(2)]
  other_kind_ids [OF kind_name_no_colon(3) kind_name_no_colon(4) kind_names_differ(3)]
  other_kind_ids [OF kind_name_no_colon(3) kind_name_no_colon(2) kind_names_differ(1) [symmetric]]
  other_kind_ids [OF kind_name_no_colon(4) kind_name_no_colon(2) kind_names_differ(2) [symmetric]]
  other_kind_ids [OF kind_name_no_colon(4) kind_name_no_colon(3) kind_names_differ(3) [symmetric]]

lemma scene_ok_attempt:
  assumes "scene_ok profile A R acc" and "attemptFeatureId profile a \<notin> attemptFeatureId profile ` A"
    and "i = attemptFeatureId profile a"
  shows "scene_ok profile (insert a A) R (acc\<lparr>
      sa_attemptPoints := sa_attemptPoints acc @ [\<lparr>pf_coordinates = c, pf_properties = properties i AttemptFeature label ts tone\<rparr>],
      sa_details := AList.update i (details i AttemptFeature rows sub sq title tone) (sa_details acc)\<rparr>)"
  using assms by (simp add: scene_ok_def features_ok_update features_ok_snoc)

lemma scene_ok_message:
  assumes "scene_ok profile A R acc" and "s \<notin> set (sa_seenTimelines acc)" and "i = feature_id ''message-location'' profile s"
    and "sa_messagePoints acc' =
      sa_messagePoints acc @ [\<lparr>pf_coordinates = c, pf_properties = properties i MessageLocationFeature label ts tone\<rparr>]"
    and "sa_details acc' = AList.update i (details i MessageLocationFeature rows sub sq title tone) (sa_details acc)"
    and "sa_seenTimelines acc' = js_set_add s (sa_seenTimelines acc)" and "sa_attemptPoints acc' = sa_attemptPoints acc"
    and "sa_receiverPoints acc' = sa_receiverPoints acc" and "sa_receptionLines acc' = sa_receptionLines acc"
  shows "scene_ok profile A R acc'"
  using assms by (simp add: scene_ok_def features_ok_update features_ok_snoc)

lemma attempt_point_add_ok:
  assumes "scene_ok profile A R acc" and "attemptFeatureId profile a \<notin> attemptFeatureId profile ` A"
  shows "scene_ok profile (insert a A) R (attempt_point_add h profile aliases acc a)"
proof -
  have keep: "scene_ok profile (insert a A) R acc"
    using assms(1) by (auto simp: scene_ok_def intro: features_ok_mono)
  show ?thesis
    unfolding attempt_point_add_def Let_def split_def
    by (cases "ag_location a"; cases "validMicrodegreeCoordinates (pl_latitude_e6 (the (ag_location a))) (pl_longitude_e6 (the (ag_location a)))")
       (simp_all add: keep scene_ok_attempt [OF assms])
qed

lemma message_point_add_ok:
  assumes "scene_ok profile A R acc"
  shows "scene_ok profile A R (message_point_add h profile aliases acc located)"
proof (cases "tv_location (lt_timeline located)")
  case (Some l)
  show ?thesis
  proof (cases "tv_sequence (lt_timeline located) \<in> set (sa_seenTimelines acc) \<or>
      validMicrodegreeCoordinates (ml_latitude_e6 l) (ml_longitude_e6 l) = None")
    case True
    then show ?thesis using Some assms by (auto simp: message_point_add_def Let_def)
  next
    case False
    then obtain c where "validMicrodegreeCoordinates (ml_latitude_e6 l) (ml_longitude_e6 l) = Some c"
      and fresh: "tv_sequence (lt_timeline located) \<notin> set (sa_seenTimelines acc)" by auto
    with Some show ?thesis
      unfolding message_point_add_def Let_def
      by (simp only: option.case if_False) (rule scene_ok_message [OF assms fresh refl], simp_all split del: if_split)
  qed
qed (simp add: message_point_add_def Let_def assms)

lemma sender_point_add_ok:
  assumes "scene_ok profile A R acc"
  shows "scene_ok profile A R (sender_point_add h profile peerLabel t e c acc)"
proof (cases "ma_timeline_sequence e \<in> set (sa_seenTimelines acc)")
  case False
  then show ?thesis
    unfolding sender_point_add_def Let_def
    by (simp only: if_False) (rule scene_ok_message [OF assms False refl], simp_all split del: if_split)
qed (simp add: sender_point_add_def assms)

lemma scene_ok_seen [simp]: "scene_ok profile A R (acc\<lparr>sa_seenReceptions := s\<rparr>) = scene_ok profile A R acc"
  by (simp add: scene_ok_def)

lemma scene_ok_mono: "scene_ok profile A R acc \<Longrightarrow> R \<subseteq> R' \<Longrightarrow> scene_ok profile A R' acc"
  unfolding scene_ok_def using features_ok_mono image_mono by meson

lemma reception_link_add_ok:
  assumes "scene_ok profile A R acc" and "ma_timeline_sequence e \<notin> R"
  shows "scene_ok profile A (insert (ma_timeline_sequence e) R) (reception_link_add h m profile l t e sd sc rv rc acc)"
proof -
  let ?r = "feature_id ''receiver-location'' profile (ma_timeline_sequence e)"
  let ?l = "feature_id ''message-reception-link'' profile (ma_timeline_sequence e)"
  have differ: "?l \<notin> insert ?r (feature_id ''receiver-location'' profile ` R)"
    using other_kind_ids [OF kind_name_no_colon(4) kind_name_no_colon(3) kind_names_differ(3) [symmetric],
        of profile "ma_timeline_sequence e" "insert (ma_timeline_sequence e) R"] by simp
  show ?thesis
    using assms differ unfolding scene_ok_def reception_link_add_def Let_def
    by (simp add: features_ok_update features_ok_snoc)
qed

lemma seenReceptions_frame [simp]:
  "sa_seenReceptions (sender_point_add h profile l t e c acc) = sa_seenReceptions acc"
  "sa_seenReceptions (reception_link_add h m profile l t e sd sc rv rc acc) = sa_seenReceptions acc"
  by (simp_all add: sender_point_add_def reception_link_add_def Let_def split del: if_split split: if_splits)

lemma reception_add_cases:
  obtains "reception_add h m profile aliases acc e = acc"
  | l t c acc2 where "ma_timeline_sequence e \<notin> set (sa_seenReceptions acc)"
      and "acc2 = sender_point_add h profile l t e c
        (acc\<lparr>sa_seenReceptions := js_set_add (ma_timeline_sequence e) (sa_seenReceptions acc)\<rparr>)"
      and "reception_add h m profile aliases acc e = acc2 \<or>
        (\<exists>sd rv rc. reception_add h m profile aliases acc e = reception_link_add h m profile l t e sd c rv rc acc2 \<and>
           validMicrodegreeCoordinates (pl_latitude_e6 rv) (pl_longitude_e6 rv) = Some rc)"
      and "\<exists>lat lon. validMicrodegreeCoordinates lat lon = Some c"
proof (cases "\<exists>sender c. ma_message_location e = Some sender \<and> ma_direction e = Inbound \<and>
    ma_timeline_sequence e \<notin> set (sa_seenReceptions acc) \<and>
    validMicrodegreeCoordinates (ml_latitude_e6 sender) (ml_longitude_e6 sender) = Some c")
  case False
  then have "reception_add h m profile aliases acc e = acc"
    by (auto simp: reception_add_def Let_def split: option.splits)
  then show ?thesis by (rule that(1))
next
  case True
  then obtain sender c where e: "ma_message_location e = Some sender" "ma_direction e = Inbound"
      "ma_timeline_sequence e \<notin> set (sa_seenReceptions acc)"
      "validMicrodegreeCoordinates (ml_latitude_e6 sender) (ml_longitude_e6 sender) = Some c" by blast
  define l t where "l = messageActivityPeerLabel Inbound (ma_peer e) aliases"
    and "t = (case ma_observed_at_unix_ms e of Some ms \<Rightarrow> ms | None \<Rightarrow> ml_updated_at_unix_seconds sender * 1000)"
  show ?thesis
    by (rule that(2) [of _ l t c, OF e(3) refl])
       (use e in \<open>auto simp: reception_add_def Let_def l_def t_def split: option.splits\<close>)
qed

lemma reception_add_ok:
  assumes "scene_ok profile A (set (sa_seenReceptions acc)) acc"
  shows "scene_ok profile A (set (sa_seenReceptions (reception_add h m profile aliases acc e))) (reception_add h m profile aliases acc e)"
proof (cases rule: reception_add_cases [of h m profile aliases acc e])
  case 1
  then show ?thesis using assms by simp
next
  case (2 l t c acc2)
  then have ok: "scene_ok profile A (set (sa_seenReceptions acc)) acc2"
    and seen: "set (sa_seenReceptions acc2) = insert (ma_timeline_sequence e) (set (sa_seenReceptions acc))"
    using assms by (simp_all add: sender_point_add_ok)
  from 2(3) show ?thesis
  proof
    assume "reception_add h m profile aliases acc e = acc2"
    then show ?thesis using scene_ok_mono [OF ok, of "set (sa_seenReceptions acc2)"] seen by auto
  next
    assume "\<exists>sd rv rc. reception_add h m profile aliases acc e = reception_link_add h m profile l t e sd c rv rc acc2 \<and>
      validMicrodegreeCoordinates (pl_latitude_e6 rv) (pl_longitude_e6 rv) = Some rc"
    then obtain sd rv rc where "reception_add h m profile aliases acc e = reception_link_add h m profile l t e sd c rv rc acc2" by blast
    then show ?thesis using reception_link_add_ok [OF ok 2(1)] seen by simp
  qed
qed

lemma attempt_points_ok:
  assumes "scene_ok profile A R acc" and "distinct (map (attemptFeatureId profile) as)"
    and "attemptFeatureId profile ` set as \<inter> attemptFeatureId profile ` A = {}"
  shows "scene_ok profile (A \<union> set as) R (foldl (attempt_point_add h profile aliases) acc as)"
  using assms
proof (induction as arbitrary: A acc)
  case (Cons a as)
  have "scene_ok profile (insert a A) R (attempt_point_add h profile aliases acc a)"
    using Cons.prems by (intro attempt_point_add_ok) auto
  then show ?case using Cons.IH [of "insert a A"] Cons.prems by auto
qed simp

lemma foldl_frame: "(\<And>s x. f (g s x) = f s) \<Longrightarrow> f (foldl g s xs) = f s"
  by (induction xs arbitrary: s) auto

lemma message_point_add_seen:
  "sa_seenReceptions (message_point_add h profile aliases acc located) = sa_seenReceptions acc"
  by (cases "tv_location (lt_timeline located)";
      cases "validMicrodegreeCoordinates (ml_latitude_e6 (the (tv_location (lt_timeline located)))) (ml_longitude_e6 (the (tv_location (lt_timeline located))))")
     (simp_all add: message_point_add_def Let_def)

lemma seenReceptions_loops [simp]:
  "sa_seenReceptions (foldl (attempt_point_add h profile aliases) acc as) = sa_seenReceptions acc"
  "sa_seenReceptions (foldl (message_point_add h profile aliases) acc ls) = sa_seenReceptions acc"
  by (rule foldl_frame, simp add: attempt_point_add_def Let_def split: option.splits prod.splits)
     (rule foldl_frame, rule message_point_add_seen)

lemma scene_loops_ok: "\<exists>A R. scene_ok profile A R (scene_loops h m i profile)"
proof -
  define attempts aliases where "attempts = map snd (collect_attempts (bi_messageActivityEvents i) (bi_radioTraceEvents i))"
    and "aliases = buildMessageActivityAliases (bi_contacts i) (bi_conversationPeers i)"
  define acc1 acc2 where "acc1 = foldl (attempt_point_add h profile aliases) scene_acc_new attempts"
    and "acc2 = foldl (message_point_add h profile aliases) acc1 (bi_locatedTimelines i)"
  have "scene_ok profile {} {} scene_acc_new" by (simp add: scene_ok_def scene_acc_new_def)
  moreover have "distinct (map (attemptFeatureId profile) attempts)"
    unfolding attempts_def by (rule attempt_ids_distinct [OF collect_attempts_ok])
  ultimately have "scene_ok profile (set attempts) {} acc1"
    using attempt_points_ok [of profile "{}" "{}" scene_acc_new attempts] by (simp add: acc1_def)
  then have "scene_ok profile (set attempts) {} acc2"
    unfolding acc2_def by (rule foldl_invariant) (rule message_point_add_ok)
  moreover have "sa_seenReceptions acc2 = []" by (simp add: acc2_def acc1_def scene_acc_new_def)
  ultimately have "scene_ok profile (set attempts) (set (sa_seenReceptions acc2)) acc2" by simp
  then have "scene_ok profile (set attempts) (set (sa_seenReceptions (foldl (reception_add h m profile aliases) acc2 (bi_messageActivityEvents i))))
      (foldl (reception_add h m profile aliases) acc2 (bi_messageActivityEvents i))"
    by (rule foldl_invariant [where I = "\<lambda>acc. scene_ok profile (set attempts) (set (sa_seenReceptions acc)) acc"])
       (rule reception_add_ok)
  then show ?thesis
    by (auto simp: scene_loops_def Let_def attempts_def aliases_def acc1_def acc2_def)
qed

section \<open>Segments\<close>

lemma attempt_id_prefix:
  assumes "attemptFeatureId profile a @ 58 # r = attemptFeatureId profile b @ 58 # r'"
  shows "attemptFeatureId profile a = attemptFeatureId profile b"
  using assms by (simp add: attemptFeatureId_def attemptGroupKey_eq colon_split js_colon)

definition segment_pairs :: "point_feature list \<Rightarrow> (point_feature \<times> point_feature) list" where
  "segment_pairs ps = filter (\<lambda>(a, b). pf_coordinates a \<noteq> pf_coordinates b) (zip ps (tl ps))"

lemma segment_loop_lines:
  "fst (segment_loop h m profile ps (ls, ds)) = ls @ map (\<lambda>(a, b). segment_line m profile a b) (segment_pairs ps)"
  by (induction h m profile ps "(ls, ds)" arbitrary: ls ds rule: segment_loop.induct) (auto simp: segment_pairs_def)

lemma segment_loop_keeps:
  assumes "features_ok kind ids ds prs" and "\<And>a b. segment_id profile a b \<notin> ids"
  shows "features_ok kind ids (snd (segment_loop h m profile ps (ls, ds))) prs"
  using assms
  by (induction h m profile ps "(ls, ds)" arbitrary: ls ds rule: segment_loop.induct) (auto simp: features_ok_update)

lemma segment_loop_ok:
  assumes "features_ok ObservationSegment S ds (map lf_properties ls)"
    and "\<forall>p\<in>set ps. \<exists>a. mp_id (pf_properties p) = attemptFeatureId profile a"
    and "distinct (map (mp_id \<circ> pf_properties) ps)" and "\<forall>p\<in>set ps. \<forall>q. segment_id profile p q \<notin> S"
  shows "\<exists>S'. features_ok ObservationSegment S' (snd (segment_loop h m profile ps (ls, ds)))
    (map lf_properties (fst (segment_loop h m profile ps (ls, ds))))"
  using assms
proof (induction h m profile ps "(ls, ds)" arbitrary: ls ds S rule: segment_loop.induct)
  case (1 h m profile a b rest ls ds)
  let ?i = "segment_id profile a b"
  show ?case
  proof (cases "pf_coordinates a = pf_coordinates b")
    case True
    then show ?thesis using 1(1) [OF _ 1(2)] 1(3-5) by (simp add: comp_def)
  next
    case False
    have fresh: "segment_id profile p q \<noteq> ?i" if later: "p \<in> set (b # rest)" for p q
    proof
      assume eq: "segment_id profile p q = ?i"
      obtain x y where x: "mp_id (pf_properties p) = attemptFeatureId profile x"
        and y: "mp_id (pf_properties a) = attemptFeatureId profile y" using 1(3) later by (metis list.set_intros)
      from eq have "mp_id (pf_properties p) = mp_id (pf_properties a)"
        unfolding segment_id_def x y js_colon by (auto dest: attempt_id_prefix)
      moreover have "mp_id (pf_properties a) \<noteq> mp_id (pf_properties p)" using 1(4) later by (auto simp: image_iff)
      ultimately show False by simp
    qed
    have "features_ok ObservationSegment (insert ?i S) (AList.update ?i (segment_details h m profile a b) ds)
        (map lf_properties (ls @ [segment_line m profile a b]))"
      using features_ok_snoc [OF 1(2), of ?i] 1(5) by (simp add: segment_details_def segment_line_def Let_def)
    then show ?thesis
      using 1(1) [of "ls @ [segment_line m profile a b]" _ "insert ?i S"] False 1(3-5) fresh by (auto simp: comp_def)
  qed
qed auto

section \<open>The whole scene\<close>

lemma features_ok_sort: "features_ok kind ids ds (map pf_properties (sort_points h ps)) = features_ok kind ids ds (map pf_properties ps)"
proof -
  have "mset (map mp_id (map pf_properties (sort_points h ps))) = mset (map mp_id (map pf_properties ps))"
    by (simp only: sort_points_def mset_map mset_sort)
  then have "distinct (map mp_id (map pf_properties (sort_points h ps))) \<longleftrightarrow> distinct (map mp_id (map pf_properties ps))"
    by (rule mset_eq_imp_distinct_iff)
  then show ?thesis by (simp add: features_ok_def sort_points_def)
qed

lemma sort_points_sorted: "sorted (map (\<lambda>p. mp_timestamp_ms (pf_properties p)) (sort_points h ps))"
proof -
  have "sorted (map (\<lambda>p. (mp_timestamp_ms (pf_properties p), jh_collation_key h (mp_id (pf_properties p)))) (sort_points h ps))"
    by (simp add: sort_points_def)
  then show ?thesis unfolding sorted_map by (rule sorted_wrt_mono_rel [rotated]) (auto simp: less_eq_prod_def)
qed

lemma features_ok_kind: "features_ok kind ids ds (map f xs) \<Longrightarrow> x \<in> set xs \<Longrightarrow> mp_kind (f x) = kind"
  by (simp add: features_ok_def)

lemma features_ok_other_kind:
  assumes "features_ok k ids ds prs" and "features_ok k' ids' ds prs'" and "k \<noteq> k'"
  shows "mp_id ` set prs \<inter> mp_id ` set prs' = {}"
proof -
  have "mp_id pr \<noteq> mp_id pr'" if "pr \<in> set prs" "pr' \<in> set prs'" for pr pr'
  proof
    assume eq: "mp_id pr = mp_id pr'"
    have "listed ds pr" "listed ds pr'" "mp_kind pr = k" "mp_kind pr' = k'" using assms(1,2) that by (auto simp: features_ok_def)
    with eq assms(3) show False by (simp add: listed_def split: option.splits)
  qed
  then show ?thesis by blast
qed

definition scene_properties :: "TransmissionMapScene \<Rightarrow> TransmissionMapProperties list" where
  "scene_properties scene = map pf_properties (sc_points scene) @ map lf_properties (sc_lines scene)"

lemma scene_features:
  fixes h m i
  defines "scene \<equiv> buildTransmissionMapScene h m i"
  obtains ap mp rp sl rl I1 I2 I3 I4 I5 where "sc_points scene = ap @ mp @ rp" and "sc_lines scene = sl @ rl"
    and "features_ok AttemptFeature I1 (sc_detailsByFeatureId scene) (map pf_properties ap)"
    and "features_ok MessageLocationFeature I2 (sc_detailsByFeatureId scene) (map pf_properties mp)"
    and "features_ok ReceiverLocationFeature I3 (sc_detailsByFeatureId scene) (map pf_properties rp)"
    and "features_ok ObservationSegment I4 (sc_detailsByFeatureId scene) (map lf_properties sl)"
    and "features_ok MessageReceptionLink I5 (sc_detailsByFeatureId scene) (map lf_properties rl)"
    and "sorted (map (\<lambda>p. mp_timestamp_ms (pf_properties p)) ap)"
    and "sl = map (\<lambda>(a, b). segment_line m (case bi_profileKey i of None \<Rightarrow> js ''active'' | Some k \<Rightarrow> k) a b) (segment_pairs ap)"
proof -
  define profile where "profile = (case bi_profileKey i of None \<Rightarrow> js ''active'' | Some k \<Rightarrow> k)"
  define acc where "acc = scene_loops h m i profile"
  define ap where "ap = sort_points h (sa_attemptPoints acc)"
  define r where "r = segment_loop h m profile ap ([], sa_details acc)"
  obtain A R where ok: "scene_ok profile A R acc" using scene_loops_ok acc_def by blast
  have attempt: "features_ok AttemptFeature (attemptFeatureId profile ` A) (sa_details acc) (map pf_properties ap)"
    using ok by (simp add: ap_def features_ok_sort scene_ok_def)
  have no_seg: "segment_id profile a b \<notin> feature_id p profile ` S" "segment_id profile a b \<notin> attemptFeatureId profile ` S'"
    if "58 \<notin> set (js p)" "js p \<noteq> js ''observation-segment''" for a b p S S'
    using segment_id_other [OF that] by (auto simp: image_iff)
  have "\<exists>S. features_ok ObservationSegment S (snd r) (map lf_properties (fst r))"
    unfolding r_def
    by (rule segment_loop_ok [where S = "{}"]) (use attempt in \<open>auto simp: features_ok_def comp_def\<close>)
  moreover have "features_ok AttemptFeature (attemptFeatureId profile ` A) (snd r) (map pf_properties ap)"
    unfolding r_def by (rule segment_loop_keeps [OF attempt]) (rule no_seg(2) [of "''attempt''"], simp_all)
  moreover have "features_ok MessageLocationFeature (feature_id ''message-location'' profile ` set (sa_seenTimelines acc)) (snd r)
      (map pf_properties (sort_points h (sa_messagePoints acc)))"
    "features_ok ReceiverLocationFeature (feature_id ''receiver-location'' profile ` R) (snd r)
      (map pf_properties (sort_points h (sa_receiverPoints acc)))"
    "features_ok MessageReceptionLink (feature_id ''message-reception-link'' profile ` R) (snd r) (map lf_properties (sa_receptionLines acc))"
    unfolding r_def features_ok_sort
    by (rule segment_loop_keeps, use ok in \<open>simp add: scene_ok_def\<close>, rule no_seg(1), simp, simp)+
  moreover have "sorted (map (\<lambda>p. mp_timestamp_ms (pf_properties p)) ap)" unfolding ap_def by (rule sort_points_sorted)
  moreover have "fst r = map (\<lambda>(a, b). segment_line m profile a b) (segment_pairs ap)" by (simp add: r_def segment_loop_lines)
  ultimately show ?thesis
    using that [of ap "sort_points h (sa_messagePoints acc)" "sort_points h (sa_receiverPoints acc)" "fst r" "sa_receptionLines acc"]
    by (auto simp: scene_def buildTransmissionMapScene_def Let_def split_def profile_def [symmetric] acc_def [symmetric]
        ap_def [symmetric] r_def [symmetric])
qed

lemma scene_ids_listed:
  "distinct (map mp_id (scene_properties (buildTransmissionMapScene h m i))) \<and>
   list_all (listed (sc_detailsByFeatureId (buildTransmissionMapScene h m i)))
     (scene_properties (buildTransmissionMapScene h m i))"
proof (rule scene_features [of h m i])
  let ?scene = "buildTransmissionMapScene h m i"
  fix ap mp rp sl rl I1 I2 I3 I4 I5
  assume p: "sc_points ?scene = ap @ mp @ rp" and l: "sc_lines ?scene = sl @ rl"
    and ok: "features_ok AttemptFeature I1 (sc_detailsByFeatureId ?scene) (map pf_properties ap)"
      "features_ok MessageLocationFeature I2 (sc_detailsByFeatureId ?scene) (map pf_properties mp)"
      "features_ok ReceiverLocationFeature I3 (sc_detailsByFeatureId ?scene) (map pf_properties rp)"
      "features_ok ObservationSegment I4 (sc_detailsByFeatureId ?scene) (map lf_properties sl)"
      "features_ok MessageReceptionLink I5 (sc_detailsByFeatureId ?scene) (map lf_properties rl)"
  note apart = features_ok_other_kind [OF ok(1) ok(2)] features_ok_other_kind [OF ok(1) ok(3)] features_ok_other_kind [OF ok(1) ok(4)]
    features_ok_other_kind [OF ok(1) ok(5)] features_ok_other_kind [OF ok(2) ok(3)] features_ok_other_kind [OF ok(2) ok(4)]
    features_ok_other_kind [OF ok(2) ok(5)] features_ok_other_kind [OF ok(3) ok(4)] features_ok_other_kind [OF ok(3) ok(5)]
    features_ok_other_kind [OF ok(4) ok(5)]
  have "distinct (map mp_id (map pf_properties ap)) \<and> distinct (map mp_id (map pf_properties mp)) \<and>
      distinct (map mp_id (map pf_properties rp)) \<and> distinct (map mp_id (map lf_properties sl)) \<and>
      distinct (map mp_id (map lf_properties rl))"
    using ok by (simp only: features_ok_def)
  with apart have "distinct (map mp_id (scene_properties ?scene))"
    unfolding scene_properties_def p l by (simp add: image_image Int_Un_distrib Int_Un_distrib2)
  moreover have "list_all (listed (sc_detailsByFeatureId ?scene)) (scene_properties ?scene)"
    using ok unfolding scene_properties_def p l by (auto simp: features_ok_def list_all_iff)
  ultimately show ?thesis ..
qed

text \<open>
  C31. Every feature of the map has its own identity and its details: over all points and lines of a scene no two
  features share an identity, and for each of them the details table has an entry of the same identity, kind and
  tone, so that selecting a feature never shows nothing or the details of another one.
\<close>

theorem scene_features_identified:
  "distinct (map mp_id (scene_properties (buildTransmissionMapScene h m i))) \<and>
   list_all (listed (sc_detailsByFeatureId (buildTransmissionMapScene h m i)))
     (scene_properties (buildTransmissionMapScene h m i))"
  by (rule scene_ids_listed)

section \<open>Positions\<close>

definition position_valid :: "position \<Rightarrow> bool" where
  "position_valid c \<longleftrightarrow> - 180000000 \<le> fst c \<and> fst c \<le> 180000000 \<and> - 90000000 \<le> snd c \<and> snd c \<le> 90000000"

lemma validMicrodegree_valid: "validMicrodegreeCoordinates lat lon = Some c \<Longrightarrow> position_valid c"
  by (auto simp: validMicrodegreeCoordinates_def position_valid_def split: if_splits)

definition scene_positions_ok :: "scene_acc \<Rightarrow> bool" where
  "scene_positions_ok acc \<longleftrightarrow>
     (\<forall>p\<in>set (sa_attemptPoints acc @ sa_messagePoints acc @ sa_receiverPoints acc). position_valid (pf_coordinates p))"

lemma attempt_point_add_positions: "scene_positions_ok acc \<Longrightarrow> scene_positions_ok (attempt_point_add h profile aliases acc a)"
  by (cases "ag_location a"; cases "validMicrodegreeCoordinates (pl_latitude_e6 (the (ag_location a))) (pl_longitude_e6 (the (ag_location a)))")
     (auto simp: attempt_point_add_def Let_def split_def scene_positions_ok_def dest: validMicrodegree_valid)

lemma message_point_add_positions: "scene_positions_ok acc \<Longrightarrow> scene_positions_ok (message_point_add h profile aliases acc l)"
  by (cases "tv_location (lt_timeline l)";
      cases "validMicrodegreeCoordinates (ml_latitude_e6 (the (tv_location (lt_timeline l)))) (ml_longitude_e6 (the (tv_location (lt_timeline l))))")
     (simp_all add: message_point_add_def Let_def scene_positions_ok_def validMicrodegree_valid)

lemma sender_point_add_positions:
  "scene_positions_ok acc \<Longrightarrow> position_valid c \<Longrightarrow> scene_positions_ok (sender_point_add h profile l t e c acc)"
  by (auto simp: sender_point_add_def Let_def scene_positions_ok_def)

lemma reception_link_add_positions:
  "scene_positions_ok acc \<Longrightarrow> position_valid rc \<Longrightarrow> scene_positions_ok (reception_link_add h m profile l t e sd c rv rc acc)"
  by (auto simp: reception_link_add_def Let_def scene_positions_ok_def)

lemma reception_add_positions:
  assumes "scene_positions_ok acc"
  shows "scene_positions_ok (reception_add h m profile aliases acc e)"
proof (cases rule: reception_add_cases [of h m profile aliases acc e])
  case (2 l t c acc2)
  have "scene_positions_ok acc2"
    unfolding 2(2) by (rule sender_point_add_positions) (use assms 2(4) in \<open>auto simp: scene_positions_ok_def dest: validMicrodegree_valid\<close>)
  then show ?thesis using 2(3) reception_link_add_positions validMicrodegree_valid by metis
qed (use assms in simp)

lemma scene_acc_new_positions: "scene_positions_ok scene_acc_new"
  by (simp add: scene_positions_ok_def scene_acc_new_def)

lemma scene_loops_positions: "scene_positions_ok (scene_loops h m i profile)"
  unfolding scene_loops_def Let_def
  by (rule foldl_invariant [where I = scene_positions_ok], rule foldl_invariant [where I = scene_positions_ok],
      rule foldl_invariant [where I = scene_positions_ok])
     (simp_all add: scene_acc_new_positions attempt_point_add_positions
       message_point_add_positions reception_add_positions)

definition in_bounds :: "TransmissionMapBounds \<Rightarrow> position \<Rightarrow> bool" where
  "in_bounds b c \<longleftrightarrow> mb_west b \<le> fst c \<and> fst c \<le> mb_east b \<and> mb_south b \<le> snd c \<and> snd c \<le> mb_north b"

definition tight_bounds :: "TransmissionMapBounds \<Rightarrow> position list \<Rightarrow> bool" where
  "tight_bounds b cs \<longleftrightarrow> list_all (in_bounds b) cs \<and> mb_west b \<in> fst ` set cs \<and> mb_east b \<in> fst ` set cs \<and>
     mb_south b \<in> snd ` set cs \<and> mb_north b \<in> snd ` set cs"

lemma bounds_extend_tight:
  "tight_bounds b cs \<Longrightarrow> tight_bounds (bounds_extend b p) (cs @ [pf_coordinates p])"
  by (auto simp: tight_bounds_def bounds_extend_def in_bounds_def list_all_iff max_def min_def)

lemma sceneBounds_tight:
  "sceneBounds points = Some b \<Longrightarrow> tight_bounds b (map pf_coordinates points)"
proof (cases points)
  case (Cons p ps)
  have "tight_bounds (foldl bounds_extend b0 qs) (cs @ map pf_coordinates qs)" if "tight_bounds b0 cs" for b0 cs qs
    using that
  proof (induction qs arbitrary: b0 cs)
    case (Cons q qs)
    then show ?case using Cons.IH [OF bounds_extend_tight] by fastforce
  qed simp
  from this [of "\<lparr>mb_east = fst (pf_coordinates p), mb_north = snd (pf_coordinates p), mb_south = snd (pf_coordinates p),
      mb_west = fst (pf_coordinates p)\<rparr>" "[pf_coordinates p]" ps]
  show "sceneBounds points = Some b \<Longrightarrow> ?thesis"
    using Cons by (auto simp: sceneBounds_def tight_bounds_def in_bounds_def)
qed (simp add: sceneBounds_def)

text \<open>
  C33. The camera frames all points and nothing else: every point of a scene lies on the globe; a scene without
  points has no bounds; and otherwise the bounds contain every point and each of their four sides touches one.
\<close>

theorem scene_bounds_tight:
  "list_all (\<lambda>p. position_valid (pf_coordinates p)) (sc_points (buildTransmissionMapScene h m i)) \<and>
   (case sc_bounds (buildTransmissionMapScene h m i) of
      None \<Rightarrow> sc_points (buildTransmissionMapScene h m i) = []
    | Some b \<Rightarrow> tight_bounds b (map pf_coordinates (sc_points (buildTransmissionMapScene h m i))))"
proof
  let ?scene = "buildTransmissionMapScene h m i"
  show "list_all (\<lambda>p. position_valid (pf_coordinates p)) (sc_points ?scene)"
    using scene_loops_positions
    by (auto simp: buildTransmissionMapScene_def Let_def split_def list_all_iff sort_points_def scene_positions_ok_def)
  have "sc_bounds ?scene = sceneBounds (sc_points ?scene)" by (simp add: buildTransmissionMapScene_def Let_def split_def)
  then show "case sc_bounds ?scene of None \<Rightarrow> sc_points ?scene = []
      | Some b \<Rightarrow> tight_bounds b (map pf_coordinates (sc_points ?scene))"
    using sceneBounds_tight by (auto simp: sceneBounds_def split: option.splits list.splits)
qed

section \<open>Selection and chronology\<close>

lemma find_unique: "distinct (map f xs) \<Longrightarrow> x \<in> set xs \<Longrightarrow> find (\<lambda>y. f y = f x) xs = Some x"
  by (induction xs) (auto simp: image_iff)

text \<open>
  Selecting a feature by its identity highlights exactly that feature, whether it is a point or a line.
\<close>

theorem scene_selection_exact:
  "list_all (\<lambda>p. selectedTransmissionMapFeatures (buildTransmissionMapScene h m i) (Some (mp_id (pf_properties p))) = [Inl p])
     (sc_points (buildTransmissionMapScene h m i)) \<and>
   list_all (\<lambda>l. selectedTransmissionMapFeatures (buildTransmissionMapScene h m i) (Some (mp_id (lf_properties l))) = [Inr l])
     (sc_lines (buildTransmissionMapScene h m i))"
proof -
  let ?scene = "buildTransmissionMapScene h m i"
  have d: "distinct (map mp_id (scene_properties ?scene))" using scene_ids_listed by blast
  then have p: "distinct (map (mp_id \<circ> pf_properties) (sc_points ?scene))"
    and l: "distinct (map (mp_id \<circ> lf_properties) (sc_lines ?scene))"
    and disj: "\<And>p l. p \<in> set (sc_points ?scene) \<Longrightarrow> l \<in> set (sc_lines ?scene) \<Longrightarrow> mp_id (pf_properties p) \<noteq> mp_id (lf_properties l)"
    by (auto simp: scene_properties_def image_image)
  have "find (\<lambda>q. mp_id (pf_properties q) = mp_id (lf_properties l)) (sc_points ?scene) = None" if "l \<in> set (sc_lines ?scene)" for l
    using disj that by (auto simp: find_None_iff)
  then show ?thesis
    using find_unique [OF p] find_unique [OF l]
    by (auto simp: list_all_iff selectedTransmissionMapFeatures_def comp_def)
qed

text \<open>
  The observation track is the chronological one: the attempt points are ordered by the time of their sample,
  and the track has one segment from each attempt to the next, in that order, wherever the two positions differ.
\<close>

theorem observation_track_chronological:
  fixes h m i
  defines "ps \<equiv> filter (\<lambda>p. mp_kind (pf_properties p) = AttemptFeature) (sc_points (buildTransmissionMapScene h m i))"
    and "profile \<equiv> (case bi_profileKey i of None \<Rightarrow> js ''active'' | Some k \<Rightarrow> k)"
  shows "sorted (map (\<lambda>p. mp_timestamp_ms (pf_properties p)) ps) \<and>
    filter (\<lambda>l. mp_kind (lf_properties l) = ObservationSegment) (sc_lines (buildTransmissionMapScene h m i)) =
      map (\<lambda>(a, b). segment_line m profile a b) (segment_pairs ps)"
proof (rule scene_features [of h m i])
  let ?scene = "buildTransmissionMapScene h m i"
  fix ap mp rp sl rl I1 I2 I3 I4 I5
  assume p: "sc_points ?scene = ap @ mp @ rp" and l: "sc_lines ?scene = sl @ rl"
    and ok: "features_ok AttemptFeature I1 (sc_detailsByFeatureId ?scene) (map pf_properties ap)"
      "features_ok MessageLocationFeature I2 (sc_detailsByFeatureId ?scene) (map pf_properties mp)"
      "features_ok ReceiverLocationFeature I3 (sc_detailsByFeatureId ?scene) (map pf_properties rp)"
      "features_ok ObservationSegment I4 (sc_detailsByFeatureId ?scene) (map lf_properties sl)"
      "features_ok MessageReceptionLink I5 (sc_detailsByFeatureId ?scene) (map lf_properties rl)"
    and sorted: "sorted (map (\<lambda>p. mp_timestamp_ms (pf_properties p)) ap)"
    and sl: "sl = map (\<lambda>(a, b). segment_line m (case bi_profileKey i of None \<Rightarrow> js ''active'' | Some k \<Rightarrow> k) a b) (segment_pairs ap)"
  have "ps = ap" unfolding ps_def p
    using features_ok_kind [OF ok(1)] features_ok_kind [OF ok(2)] features_ok_kind [OF ok(3)]
    by (auto simp: filter_id_conv filter_empty_conv)
  moreover have "filter (\<lambda>l. mp_kind (lf_properties l) = ObservationSegment) (sc_lines ?scene) = sl"
    unfolding l using features_ok_kind [OF ok(4)] features_ok_kind [OF ok(5)]
    by (auto simp: filter_id_conv filter_empty_conv)
  ultimately show ?thesis using sorted sl by (simp add: profile_def)
qed

end
