(* ===== verification/NativeBridge.thy ===== *)
theory NativeBridge
  imports NetworkInput JsText
begin

text \<open>
  The pure modules around the native bridge: the version contract of \<open>lib/native-contract.ts\<close>, the
  normalisation of thrown values of \<open>lib/native-error.ts\<close> and the conversion of document URIs of
  \<open>lib/file-uri.ts\<close>, with \<open>decodeURIComponent\<close> of the language written out.
\<close>

section \<open>Bridge contract\<close>

record NativeBridgeContract =
  bridgeApiMajor :: nat
  bridgeApiMinor :: nat
  deviceApiMajor :: nat
  deviceApiMinor :: nat
  maxMessageBytes :: nat
  maxLxmfReadChunkBytes :: nat
  maxLxmfBasicTitleBytes :: nat
  maxLxmfBasicContentBytes :: nat
  maxNomadPagePathBytes :: nat
  maxNomadPageBytes :: nat
  maxNomadRequestTimestampUnixMs :: nat

definition EXPECTED_FIELDS :: NativeBridgeContract where
  "EXPECTED_FIELDS =
     \<lparr>bridgeApiMajor = 3, bridgeApiMinor = 2, deviceApiMajor = 6, deviceApiMinor = 0,
      maxMessageBytes = 512, maxLxmfReadChunkBytes = 416, maxLxmfBasicTitleBytes = 295,
      maxLxmfBasicContentBytes = 295, maxNomadPagePathBytes = 128, maxNomadPageBytes = 400,
      maxNomadRequestTimestampUnixMs = 9007199254740991\<rparr>"

text \<open>\<^verbatim>\<open>Object.entries\<close>: the fields in the order of the literal.\<close>

definition contract_entries :: "NativeBridgeContract \<Rightarrow> (jstring \<times> nat) list" where
  "contract_entries c =
     [(js ''bridgeApiMajor'', bridgeApiMajor c), (js ''bridgeApiMinor'', bridgeApiMinor c),
      (js ''deviceApiMajor'', deviceApiMajor c), (js ''deviceApiMinor'', deviceApiMinor c),
      (js ''maxMessageBytes'', maxMessageBytes c), (js ''maxLxmfReadChunkBytes'', maxLxmfReadChunkBytes c),
      (js ''maxLxmfBasicTitleBytes'', maxLxmfBasicTitleBytes c),
      (js ''maxLxmfBasicContentBytes'', maxLxmfBasicContentBytes c),
      (js ''maxNomadPagePathBytes'', maxNomadPagePathBytes c), (js ''maxNomadPageBytes'', maxNomadPageBytes c),
      (js ''maxNomadRequestTimestampUnixMs'', maxNomadRequestTimestampUnixMs c)]"

definition contract_mismatches :: "NativeBridgeContract \<Rightarrow> jstring list" where
  "contract_mismatches contract =
     concat (map2 (\<lambda>(field, expected) (_, observed).
         if observed = expected then []
         else [field @ js '': expected '' @ nat_digits expected @ js '', observed '' @ nat_digits observed])
       (contract_entries EXPECTED_FIELDS) (contract_entries contract))"

definition assertNativeBridgeContract :: "NativeBridgeContract \<Rightarrow> NativeBridgeContract settled" where
  "assertNativeBridgeContract contract =
     (if length (contract_mismatches contract) > 0
      then Rejected (ErrorObject (js ''native Rust bridge contract mismatch ('' @
             js_join (js ''; '') (contract_mismatches contract) @ js '')''))
      else Fulfilled contract)"

section \<open>Thrown values of the bridge\<close>

text \<open>
  A native error carries a tag and, in its \<open>inner\<close> object, possibly a reason. The predicate
  \<open>isNativeError\<close> of the bindings is a parameter: on a value it accepts it yields the tag and
  \<open>inner.reason\<close> when that is a string.
\<close>

type_synonym native_error_view = "thrown \<Rightarrow> (jstring \<times> jstring option) option"

definition is_upper :: "nat \<Rightarrow> bool" where
  "is_upper c \<longleftrightarrow> 65 \<le> c \<and> c \<le> 90"

definition is_lower_or_digit :: "nat \<Rightarrow> bool" where
  "is_lower_or_digit c \<longleftrightarrow> 97 \<le> c \<and> c \<le> 122 \<or> is_digit c"

text \<open>\<^verbatim>\<open>tag.replace(/([a-z0-9])([A-Z])/g, "$1 $2")\<close>: a match takes two units, so matches do not overlap.\<close>

fun spaced_tag :: "jstring \<Rightarrow> jstring" where
  "spaced_tag (a # b # s) =
     (if is_lower_or_digit a \<and> is_upper b then a # 32 # b # spaced_tag s else a # spaced_tag (b # s))"
| "spaced_tag s = s"

definition errorLabel :: "jstring \<Rightarrow> jstring" where
  "errorLabel tag = js_lower (spaced_tag tag)"

definition nativeApplianceErrorMessage :: "jstring \<Rightarrow> jstring option \<Rightarrow> jstring" where
  "nativeApplianceErrorMessage tag reason =
     (let label = js ''Native appliance '' @ errorLabel tag
      in case reason of None \<Rightarrow> label | Some r \<Rightarrow> label @ js '': '' @ r)"

definition normalizeNativeError :: "native_error_view \<Rightarrow> thrown \<Rightarrow> thrown" where
  "normalizeNativeError isNativeError error =
     (case isNativeError error of
        Some (tag, reason) \<Rightarrow> ErrorObject (nativeApplianceErrorMessage tag reason)
      | None \<Rightarrow> ErrorObject (errorText error))"

section \<open>File URIs\<close>

definition hex_digit_value :: "nat \<Rightarrow> nat option" where
  "hex_digit_value c =
     (if is_digit c then Some (c - 48)
      else if 97 \<le> c \<and> c \<le> 102 then Some (c - 87)
      else if 65 \<le> c \<and> c \<le> 70 then Some (c - 55) else None)"

text \<open>An octet written \<^verbatim>\<open>%XX\<close> at the start of a string, and \<open>k\<close> such octets in a row.\<close>

fun percent_octet :: "jstring \<Rightarrow> nat option" where
  "percent_octet (p # a # b # s) =
     (case (hex_digit_value a, hex_digit_value b) of
        (Some x, Some y) \<Rightarrow> if p = 37 then Some (16 * x + y) else None
      | _ \<Rightarrow> None)"
| "percent_octet _ = None"

primrec percent_octets :: "nat \<Rightarrow> jstring \<Rightarrow> nat list option" where
  "percent_octets 0 s = Some []"
| "percent_octets (Suc k) s =
     (case percent_octet s of
        None \<Rightarrow> None
      | Some o1 \<Rightarrow> (case percent_octets k (drop 3 s) of None \<Rightarrow> None | Some os \<Rightarrow> Some (o1 # os)))"

text \<open>Length of a UTF-8 sequence by its first octet, and the code point of a valid sequence.\<close>

definition utf8_sequence_length :: "nat \<Rightarrow> nat option" where
  "utf8_sequence_length b =
     (if b < 128 then Some 1 else if b < 192 then None else if b < 224 then Some 2
      else if b < 240 then Some 3 else if b < 248 then Some 4 else None)"

definition is_continuation :: "nat \<Rightarrow> bool" where
  "is_continuation b \<longleftrightarrow> 128 \<le> b \<and> b < 192"

definition code_point_in :: "nat \<Rightarrow> nat \<Rightarrow> nat \<Rightarrow> nat option" where
  "code_point_in lo hi p = (if lo \<le> p \<and> p \<le> hi \<and> \<not> (55296 \<le> p \<and> p \<le> 57343) then Some p else None)"

fun utf8_decode_sequence :: "nat list \<Rightarrow> nat option" where
  "utf8_decode_sequence [a] = code_point_in 0 127 a"
| "utf8_decode_sequence [a, b] =
     (if is_continuation b then code_point_in 128 2047 ((a - 192) * 64 + (b - 128)) else None)"
| "utf8_decode_sequence [a, b, c] =
     (if is_continuation b \<and> is_continuation c
      then code_point_in 2048 65535 ((a - 224) * 4096 + (b - 128) * 64 + (c - 128)) else None)"
| "utf8_decode_sequence [a, b, c, d] =
     (if is_continuation b \<and> is_continuation c \<and> is_continuation d
      then code_point_in 65536 1114111
             ((a - 240) * 262144 + (b - 128) * 4096 + (c - 128) * 64 + (d - 128)) else None)"
| "utf8_decode_sequence _ = None"

definition utf16_units :: "nat \<Rightarrow> jstring" where
  "utf16_units p =
     (if p < 65536 then [p]
      else [55296 + (p - 65536) div 1024, 56320 + (p - 65536) mod 1024])"

text \<open>The units one escape sequence stands for, and how many code units of the input it takes.\<close>

definition decode_escape :: "jstring \<Rightarrow> (jstring \<times> nat) option" where
  "decode_escape s =
     (case percent_octet s of
        None \<Rightarrow> None
      | Some b \<Rightarrow>
          (case utf8_sequence_length b of
             None \<Rightarrow> None
           | Some k \<Rightarrow>
               (case percent_octets k s of
                  None \<Rightarrow> None
                | Some os \<Rightarrow>
                    (case utf8_decode_sequence os of
                       None \<Rightarrow> None
                     | Some p \<Rightarrow> Some (utf16_units p, 3 * k)))))"

text \<open>\<open>None\<close> is the \<open>URIError\<close> that \<open>decodeURIComponent\<close> throws.\<close>

function decodeURIComponent :: "jstring \<Rightarrow> jstring option" where
  "decodeURIComponent [] = Some []"
| "decodeURIComponent (c # s) =
     (if c \<noteq> 37 then map_option (Cons c) (decodeURIComponent s)
      else case decode_escape (c # s) of
        None \<Rightarrow> None
      | Some (us, k) \<Rightarrow> map_option ((@) us) (decodeURIComponent (drop (k - 1) s)))"
  by pat_completeness auto
termination
  by (relation "measure length") auto

definition FILE_URI_PREFIX :: jstring where
  "FILE_URI_PREFIX = js ''file://''"

definition nativePathFromFileUri :: "jstring \<Rightarrow> jstring settled" where
  "nativePathFromFileUri uri =
     (if \<not> js_startsWith uri FILE_URI_PREFIX
      then Rejected (ErrorObject (js ''native database URI must use the file scheme''))
      else let encodedPath = drop (length FILE_URI_PREFIX) uri
        in if \<not> js_startsWith encodedPath (js ''/'')
           then Rejected (ErrorObject (js ''native database URI must not contain a remote authority''))
           else case decodeURIComponent encodedPath of
             None \<Rightarrow> Rejected (ErrorObject (js ''URI malformed''))
           | Some path \<Rightarrow>
               if 0 \<in> set path
               then Rejected (ErrorObject (js ''native database path must not contain a null byte''))
               else Fulfilled path)"

section \<open>Lemmas\<close>

lemma contract_mismatches_nil: "contract_mismatches c = [] \<longleftrightarrow> c = EXPECTED_FIELDS"
  by (cases c) (auto simp: contract_mismatches_def contract_entries_def EXPECTED_FIELDS_def)

text \<open>
  A reference for the encoder of the platform: a code point is percent-encoded octet by octet unless it
  is an unreserved character or one of the path characters that \<open>encodeURI\<close> leaves as they are.
\<close>

definition hex_digit :: "nat \<Rightarrow> nat" where
  "hex_digit v = (if v < 10 then 48 + v else 55 + v)"

definition escape_octet :: "nat \<Rightarrow> jstring" where
  "escape_octet b = [37, hex_digit (b div 16), hex_digit (b mod 16)]"

definition escape_code_point :: "(nat \<Rightarrow> bool) \<Rightarrow> nat \<Rightarrow> jstring" where
  "escape_code_point plain p = (if plain p then [p] else concat (map escape_octet (utf8_code_point p)))"

definition file_uri_of :: "(nat \<Rightarrow> bool) \<Rightarrow> nat list \<Rightarrow> jstring" where
  "file_uri_of plain ps = FILE_URI_PREFIX @ concat (map (escape_code_point plain) ps)"

definition scalar_value :: "nat \<Rightarrow> bool" where
  "scalar_value p \<longleftrightarrow> p \<le> 1114111 \<and> \<not> (55296 \<le> p \<and> p \<le> 57343)"

lemma hex_digit_value_digit [simp]: "v < 16 \<Longrightarrow> hex_digit_value (hex_digit v) = Some v"
  by (auto simp: hex_digit_value_def hex_digit_def is_digit_def)

lemma percent_octet_escape: "b < 256 \<Longrightarrow> percent_octet (escape_octet b @ s) = Some b"
  by (simp add: escape_octet_def)

lemma percent_octets_escape:
  "list_all (\<lambda>b. b < 256) bs \<Longrightarrow> percent_octets (length bs) (concat (map escape_octet bs) @ s) = Some bs"
proof (induction bs)
  case (Cons b bs)
  then have "percent_octet (escape_octet b @ concat (map escape_octet bs) @ s) = Some b"
    by (simp add: percent_octet_escape)
  moreover have "drop 3 (escape_octet b @ concat (map escape_octet bs) @ s) = concat (map escape_octet bs) @ s"
    by (simp add: escape_octet_def)
  ultimately show ?case using Cons by simp
qed simp

lemma length_escape: "length (concat (map escape_octet bs)) = 3 * length bs"
  by (induction bs) (simp_all add: escape_octet_def)

lemma utf8_code_point_octets: "scalar_value p \<Longrightarrow> list_all (\<lambda>b. b < 256) (utf8_code_point p)"
  by (auto simp: utf8_code_point_def scalar_value_def)

lemma utf8_code_point_hd: "scalar_value p \<Longrightarrow>
    utf8_code_point p \<noteq> [] \<and> utf8_sequence_length (hd (utf8_code_point p)) = Some (length (utf8_code_point p))"
  by (auto simp: utf8_code_point_def utf8_sequence_length_def scalar_value_def)

lemma base64_digits:
  fixes p :: nat
  shows "p div 64 * 64 + p mod 64 = p"
    and "p div 4096 * 4096 + p div 64 mod 64 * 64 + p mod 64 = p"
    and "p div 262144 * 262144 + p div 4096 mod 64 * 4096 + p div 64 mod 64 * 64 + p mod 64 = p"
proof -
  have split: "q = q div 64 * 64 + q mod 64" for q :: nat by simp
  have d2: "p div 4096 = p div 64 div 64" and d3: "p div 262144 = p div 64 div 64 div 64"
    by (simp_all add: div_mult2_eq [symmetric])
  show 1: "p div 64 * 64 + p mod 64 = p" by simp
  show 2: "p div 4096 * 4096 + p div 64 mod 64 * 64 + p mod 64 = p"
    using split [of p] split [of "p div 64"] unfolding d2 by linarith
  show "p div 262144 * 262144 + p div 4096 mod 64 * 4096 + p div 64 mod 64 * 64 + p mod 64 = p"
    using 2 split [of "p div 64 div 64"] unfolding d2 d3 by linarith
qed

lemma utf8_decode_code_point: "scalar_value p \<Longrightarrow> utf8_decode_sequence (utf8_code_point p) = Some p"
  by (auto simp: utf8_code_point_def scalar_value_def code_point_in_def is_continuation_def base64_digits)

lemma decode_escape_code_point:
  assumes "scalar_value p"
  shows "decode_escape (concat (map escape_octet (utf8_code_point p)) @ s)
    = Some (utf16_units p, 3 * length (utf8_code_point p))"
proof -
  let ?bs = "utf8_code_point p"
  have bs: "?bs \<noteq> []" "utf8_sequence_length (hd ?bs) = Some (length ?bs)" "list_all (\<lambda>b. b < 256) ?bs"
    using assms utf8_code_point_hd utf8_code_point_octets by auto
  then obtain b cs where b: "?bs = b # cs" by (cases ?bs) auto
  then have "percent_octet (concat (map escape_octet ?bs) @ s) = Some b"
    using bs(3) percent_octet_escape [of b "concat (map escape_octet cs) @ s"] by simp
  moreover have "utf8_sequence_length b = Some (length ?bs)" using bs(2) b by simp
  ultimately show ?thesis
    using percent_octets_escape [OF bs(3)] utf8_decode_code_point [OF assms] by (simp add: decode_escape_def)
qed

lemma decodeURIComponent_escape:
  assumes "scalar_value p"
  shows "decodeURIComponent (concat (map escape_octet (utf8_code_point p)) @ s)
    = map_option ((@) (utf16_units p)) (decodeURIComponent s)"
proof -
  let ?e = "concat (map escape_octet (utf8_code_point p))"
  obtain t where t: "?e = 37 # t"
    using utf8_code_point_hd [OF assms] by (cases "utf8_code_point p") (auto simp: escape_octet_def)
  then have "length t = 3 * length (utf8_code_point p) - 1"
    using length_escape [of "utf8_code_point p"] by simp
  then have "drop (3 * length (utf8_code_point p) - 1) (t @ s) = s" by simp
  with t decode_escape_code_point [OF assms, of s] show ?thesis by simp
qed

lemma decodeURIComponent_points:
  assumes "list_all scalar_value ps" and "\<forall>p. plain p \<longrightarrow> p < 65536 \<and> p \<noteq> 37"
  shows "decodeURIComponent (concat (map (escape_code_point plain) ps)) = Some (concat (map utf16_units ps))"
  using assms
proof (induction ps)
  case (Cons p ps)
  show ?case
  proof (cases "plain p")
    case True
    with Cons have "p < 65536" "p \<noteq> 37" by auto
    with True Cons show ?thesis by (simp add: escape_code_point_def utf16_units_def)
  next
    case False
    with Cons show ?thesis by (simp add: escape_code_point_def decodeURIComponent_escape)
  qed
qed simp

lemma js_startsWith_append: "js_startsWith (a @ b) a"
  by (simp add: js_startsWith_iff)

lemma decodeURIComponent_slash: "decodeURIComponent (47 # s) = Some path \<Longrightarrow> \<exists>rest. path = 47 # rest"
  by auto

declare decodeURIComponent.simps [simp del]

lemma utf16_units_zero: "0 \<in> set (utf16_units p) \<longleftrightarrow> p = 0"
  by (auto simp: utf16_units_def)

lemma file_path_cases:
  assumes "nativePathFromFileUri uri = Fulfilled path"
  shows "\<exists>enc. uri = FILE_URI_PREFIX @ 47 # enc \<and> decodeURIComponent (47 # enc) = Some path \<and> 0 \<notin> set path"
proof -
  let ?e = "drop (length FILE_URI_PREFIX) uri"
  have ps: "js_startsWith uri FILE_URI_PREFIX" "js_startsWith ?e (js ''/'')"
    "decodeURIComponent ?e = Some path" "0 \<notin> set path"
    using assms by (auto simp: nativePathFromFileUri_def Let_def split: if_splits option.splits simp del: js.simps)
  then obtain enc where "?e = 47 # enc" by (cases ?e) auto
  moreover have "uri = FILE_URI_PREFIX @ ?e"
    using ps(1) by (metis js_startsWith_iff append_take_drop_id)
  ultimately show ?thesis using ps by metis
qed

section \<open>Properties\<close>

text \<open>
  The bridge contract check fails closed: it accepts a native binary if and only if every one of the
  eleven version and size fields has the expected value, and then returns the contract unchanged.
\<close>

theorem native_contract_exact:
  "(assertNativeBridgeContract contract = Fulfilled c) \<longleftrightarrow> (contract = EXPECTED_FIELDS \<and> c = contract)"
  by (auto simp: assertNativeBridgeContract_def contract_mismatches_nil)

text \<open>
  A document URI decodes to the path it stands for: for every sequence of Unicode scalar values that
  starts with a slash and holds no NUL, whichever ordinary characters the platform leaves unescaped,
  the native path is the UTF-16 text of that sequence.
\<close>

theorem file_uri_roundtrip:
  assumes "list_all scalar_value ps" and "0 \<notin> set ps" and "hd ps = 47" and "ps \<noteq> []"
    and "plain 47" and "\<forall>p. plain p \<longrightarrow> p < 65536 \<and> p \<noteq> 37"
  shows "nativePathFromFileUri (file_uri_of plain ps) = Fulfilled (concat (map utf16_units ps))"
proof -
  let ?enc = "concat (map (escape_code_point plain) ps)"
  have "js_startsWith ?enc (js ''/'')" using assms(3-5) by (cases ps) (simp_all add: escape_code_point_def)
  moreover have "0 \<notin> set (concat (map utf16_units ps))" using assms(2) by (auto simp: utf16_units_zero)
  ultimately show ?thesis
    using decodeURIComponent_points [OF assms(1,6)]
    by (simp add: nativePathFromFileUri_def file_uri_of_def js_startsWith_append)
qed

theorem file_uri_roundtrip_witness:
  "nativePathFromFileUri (file_uri_of (\<lambda>p. 47 \<le> p \<and> p \<le> 122) [47, 97, 32, 10003, 128512])
     = Fulfilled [47, 97, 32, 10003, 55357, 56832]"
  using file_uri_roundtrip [of "[47, 97, 32, 10003, 128512]" "\<lambda>p. 47 \<le> p \<and> p \<le> 122"]
  by (simp add: scalar_value_def utf16_units_def)

text \<open>
  A path handed to the native file system is absolute and free of NUL: whenever a URI is accepted, it
  has the file scheme and no authority, and the decoded path starts with a slash and holds no NUL unit.
\<close>

theorem file_uri_safe:
  assumes "nativePathFromFileUri uri = Fulfilled path"
  shows "js_startsWith uri (js ''file:///'') \<and> (\<exists>rest. path = 47 # rest) \<and> 0 \<notin> set path"
proof -
  obtain enc where enc: "uri = FILE_URI_PREFIX @ 47 # enc" "decodeURIComponent (47 # enc) = Some path" "0 \<notin> set path"
    using file_path_cases [OF assms] by blast
  have "uri = js ''file:///'' @ enc" using enc(1) by (simp add: FILE_URI_PREFIX_def)
  then have "js_startsWith uri (js ''file:///'')" by (metis js_startsWith_append)
  moreover have "\<exists>rest. path = 47 # rest" using enc(2) by (auto simp: decodeURIComponent.simps(2))
  ultimately show ?thesis using enc(3) by blast
qed

theorem file_uri_safe_witness:
  "js_startsWith (js ''file:///tmp/a%20b'') (js ''file:///'') \<and> (\<exists>rest. js ''/tmp/a b'' = 47 # rest)
   \<and> 0 \<notin> set (js ''/tmp/a b'')"
proof (rule file_uri_safe)
  show "nativePathFromFileUri (js ''file:///tmp/a%20b'') = Fulfilled (js ''/tmp/a b'')"
    by (simp add: nativePathFromFileUri_def FILE_URI_PREFIX_def decodeURIComponent.simps decode_escape_def
        hex_digit_value_def is_digit_def utf8_sequence_length_def code_point_in_def utf16_units_def)
qed

end
