(* ===== verification/ApplianceOwnership.thy ===== *)
theory ApplianceOwnership
  imports ExclusiveResource
begin

text \<open>
  The specification the native client has to meet: the protocol by which the asynchronous calls of one
  client hold the native appliance through the process-wide queue of \<open>ExclusiveResource\<close>. Every call in
  progress is a task that either waits for an acquisition, waits for a close it started, or holds
  nothing; the client itself keeps at most one acquired appliance. Other clients of the process use the
  same queue. The theory proves what the protocol guarantees to the native side.
\<close>

section \<open>The protocol\<close>

datatype acq_ref = Acquiring nat | Closing nat

text \<open>What the native side sees, by acquisition: the appliance opened, used, asked to close, destroyed.\<close>

datatype owner_event = NativeOpened nat | NativeOperation nat | NativeClosing nat | NativeDestroyed nat

record owner_protocol =
  op_ex :: "nat exclusive"
  op_own :: "nat list"
  op_owner :: "nat option"
  op_refs :: "acq_ref option list"
  op_events :: "owner_event list"

definition op_phase :: "owner_protocol \<Rightarrow> nat \<Rightarrow> nat acquisition_phase" where
  "op_phase p a = aq_phase (ex_acqs (op_ex p) ! a)"

definition opened_event :: "nat \<Rightarrow> 'v settled \<Rightarrow> owner_event list" where
  "opened_event a r = (case r of Fulfilled _ \<Rightarrow> [NativeOpened a] | Rejected _ \<Rightarrow> [])"

definition run_opener :: "nat \<Rightarrow> 'v settled \<Rightarrow> 'v exclusive \<Rightarrow> 'v exclusive" where
  "run_opener a r e = ex_open_settles a r (ex_begin_open a e)"

inductive own_step :: "owner_protocol \<Rightarrow> owner_protocol \<Rightarrow> bool" where
  os_spawn: "own_step p (p\<lparr>op_refs := op_refs p @ [None]\<rparr>)"
| os_acquire: "\<lbrakk>t < length (op_refs p); op_refs p ! t = None\<rbrakk> \<Longrightarrow>
     own_step p (p\<lparr>op_ex := acquireExclusiveResource (op_ex p),
       op_own := op_own p @ [length (ex_acqs (op_ex p))],
       op_refs := (op_refs p)[t := Some (Acquiring (length (ex_acqs (op_ex p))))]\<rparr>)"
| os_open: "\<lbrakk>a \<in> set (op_own p); op_phase p a = AwaitPredecessor; ownershipTail_resolved (ex_acqs (op_ex p)) a\<rbrakk> \<Longrightarrow>
     own_step p (p\<lparr>op_ex := run_opener a r (op_ex p), op_events := op_events p @ opened_event a r\<rparr>)"
| os_failed: "\<lbrakk>t < length (op_refs p); op_refs p ! t = Some (Acquiring a); op_phase p a = OpenFailed e\<rbrakk> \<Longrightarrow>
     own_step p (p\<lparr>op_refs := (op_refs p)[t := None]\<rparr>)"
| os_take: "\<lbrakk>t < length (op_refs p); op_refs p ! t = Some (Acquiring a); op_phase p a = Returned v\<rbrakk> \<Longrightarrow>
     own_step p (p\<lparr>op_owner := Some a, op_refs := (op_refs p)[t := None]\<rparr>)"
| os_operate: "op_owner p = Some a \<Longrightarrow> own_step p (p\<lparr>op_events := op_events p @ [NativeOperation a]\<rparr>)"
| os_release: "\<lbrakk>t < length (op_refs p); op_refs p ! t = None; op_owner p = Some a\<rbrakk> \<Longrightarrow>
     own_step p (p\<lparr>op_owner := None, op_ex := ex_release a (op_ex p),
       op_refs := (op_refs p)[t := Some (Closing a)], op_events := op_events p @ [NativeClosing a]\<rparr>)"
| os_close: "\<lbrakk>t < length (op_refs p); op_refs p ! t = Some (Closing a)\<rbrakk> \<Longrightarrow>
     own_step p (p\<lparr>op_ex := ex_close_settles a r (op_ex p), op_refs := (op_refs p)[t := None],
       op_events := op_events p @ [NativeDestroyed a]\<rparr>)"
| os_other: "\<lbrakk>exclusive_step (op_ex p) e; \<forall>a\<in>set (op_own p). ex_acqs e ! a = ex_acqs (op_ex p) ! a\<rbrakk> \<Longrightarrow>
     own_step p (p\<lparr>op_ex := e\<rparr>)"

text \<open>
  The native side's view as an automaton: nothing is open, or one appliance is open, or it is closing.
  \<open>None\<close> is a violation: a second appliance opened, or one used, closed or destroyed out of turn.
\<close>

fun native_next :: "(nat \<times> bool) option \<Rightarrow> owner_event \<Rightarrow> (nat \<times> bool) option option" where
  "native_next None (NativeOpened a) = Some (Some (a, False))"
| "native_next (Some (b, False)) (NativeOperation a) = (if a = b then Some (Some (b, False)) else None)"
| "native_next (Some (b, False)) (NativeClosing a) = (if a = b then Some (Some (b, True)) else None)"
| "native_next (Some (b, True)) (NativeDestroyed a) = (if a = b then Some None else None)"
| "native_next _ _ = None"

definition native_run :: "owner_event list \<Rightarrow> (nat \<times> bool) option option" where
  "native_run es = foldl (\<lambda>c e. case c of None \<Rightarrow> None | Some s \<Rightarrow> native_next s e) (Some None) es"

section \<open>Invariant\<close>

lemma native_run_Nil [simp]: "native_run [] = Some None"
  by (simp add: native_run_def)

lemma native_run_snoc: "native_run (es @ [e]) = (case native_run es of None \<Rightarrow> None | Some s \<Rightarrow> native_next s e)"
  by (simp add: native_run_def)

lemma length_run_opener [simp]: "length (ex_acqs (run_opener a r e)) = length (ex_acqs e)"
  by (simp add: run_opener_def ex_open_settles_def ex_begin_open_def Let_def)

lemma run_opener_other: "b \<noteq> a \<Longrightarrow> ex_acqs (run_opener a r e) ! b = ex_acqs e ! b"
  by (simp add: run_opener_def ex_open_settles_def ex_begin_open_def Let_def)

lemma run_opener_phase:
  "a < length (ex_acqs e) \<Longrightarrow>
    aq_phase (ex_acqs (run_opener a r e) ! a) = (case r of Fulfilled v \<Rightarrow> Returned v | Rejected x \<Rightarrow> OpenFailed x)"
  by (simp add: run_opener_def ex_open_settles_def ex_begin_open_def Let_def split: settled.splits)

text \<open>The phase an acquisition of this client has, as its reference tells.\<close>

fun ref_phase :: "acq_ref \<Rightarrow> nat acquisition_phase \<Rightarrow> bool" where
  "ref_phase (Acquiring a) (AwaitPredecessor) = True"
| "ref_phase (Acquiring a) (Returned v) = True"
| "ref_phase (Acquiring a) (OpenFailed e) = True"
| "ref_phase (Closing a) (AwaitClose v) = True"
| "ref_phase _ _ = False"

primrec ref_acq :: "acq_ref \<Rightarrow> nat" where
  "ref_acq (Acquiring a) = a"
| "ref_acq (Closing a) = a"

fun phase_returned :: "nat acquisition_phase \<Rightarrow> bool" where
  "phase_returned (Returned v) = True"
| "phase_returned _ = False"

fun phase_closing :: "nat acquisition_phase \<Rightarrow> bool" where
  "phase_closing (AwaitClose v) = True"
| "phase_closing _ = False"

definition refs_inv :: "owner_protocol \<Rightarrow> bool" where
  "refs_inv p \<longleftrightarrow>
     (\<forall>t < length (op_refs p). \<forall>r. op_refs p ! t = Some r \<longrightarrow>
        ref_acq r \<in> set (op_own p) \<and> ref_phase r (op_phase p (ref_acq r)) \<and> op_owner p \<noteq> Some (ref_acq r)) \<and>
     (\<forall>t < length (op_refs p). \<forall>u < length (op_refs p). \<forall>r q. t \<noteq> u \<longrightarrow> op_refs p ! t = Some r \<longrightarrow>
        op_refs p ! u = Some q \<longrightarrow> ref_acq r \<noteq> ref_acq q)"

definition native_inv :: "owner_protocol \<Rightarrow> bool" where
  "native_inv p \<longleftrightarrow> (\<exists>c. native_run (op_events p) = Some c \<and>
     (\<forall>a c'. c = Some (a, c') \<longrightarrow> a \<in> set (op_own p)) \<and>
     (\<forall>a \<in> set (op_own p). (phase_returned (op_phase p a) \<longleftrightarrow> c = Some (a, False)) \<and>
        (phase_closing (op_phase p a) \<longleftrightarrow> c = Some (a, True)) \<and> op_phase p a \<noteq> AwaitOpen))"

definition own_inv :: "owner_protocol \<Rightarrow> bool" where
  "own_inv p \<longleftrightarrow> exclusive_inv (op_ex p) \<and> (\<forall>a \<in> set (op_own p). a < length (ex_acqs (op_ex p))) \<and>
     (\<forall>a. op_owner p = Some a \<longrightarrow> a \<in> set (op_own p) \<and> phase_returned (op_phase p a)) \<and>
     refs_inv p \<and> native_inv p"

lemma op_phase_simps [simp]:
  "op_phase (p\<lparr>op_refs := rs\<rparr>) = op_phase p"
  "op_phase (p\<lparr>op_owner := ow\<rparr>) = op_phase p"
  "op_phase (p\<lparr>op_events := es\<rparr>) = op_phase p"
  "op_phase (p\<lparr>op_own := ns\<rparr>) = op_phase p"
  by (simp_all add: op_phase_def fun_eq_iff)

lemma exclusive_run_opener:
  assumes "exclusive_inv e" and "a < length (ex_acqs e)" and "aq_phase (ex_acqs e ! a) = AwaitPredecessor"
    and "ownershipTail_resolved (ex_acqs e) a"
  shows "exclusive_inv (run_opener a r e)"
proof -
  have "exclusive_step e (ex_begin_open a e)" using assms by (intro exclusive_step.ex_predecessor)
  moreover have "exclusive_step (ex_begin_open a e) (run_opener a r e)"
    unfolding run_opener_def
    by (rule exclusive_step.ex_open_done) (use assms(2) in \<open>simp_all add: ex_begin_open_def\<close>)
  ultimately show ?thesis using exclusive_step_inv assms(1) by blast
qed

lemma acquire_phase:
  "a < length (ex_acqs e) \<Longrightarrow> ex_acqs (acquireExclusiveResource e) ! a = ex_acqs e ! a"
  "aq_phase (ex_acqs (acquireExclusiveResource e) ! length (ex_acqs e)) = AwaitPredecessor"
  "length (ex_acqs (acquireExclusiveResource e)) = Suc (length (ex_acqs e))"
  by (simp_all add: acquireExclusiveResource_def nth_append)

lemma release_phase:
  assumes "a < length (ex_acqs e)" and "acq_ok (ex_acqs e ! a)" and "aq_phase (ex_acqs e ! a) = Returned v"
  shows "ex_acqs (ex_release a e) ! b = (if b = a then (ex_acqs e ! a)\<lparr>aq_released := True, aq_phase := AwaitClose v\<rparr>
    else ex_acqs e ! b)"
  using assms by (simp add: ex_release_def acq_ok_def)

lemma length_release [simp]: "length (ex_acqs (ex_release a e)) = length (ex_acqs e)"
  by (simp add: ex_release_def Let_def split: acquisition_phase.splits)

lemma close_phase:
  assumes "a < length (ex_acqs e)"
  shows "aq_phase (ex_acqs (ex_close_settles a r e) ! b) = (if b = a then Closed else aq_phase (ex_acqs e ! b))"
    and "length (ex_acqs (ex_close_settles a r e)) = length (ex_acqs e)"
  using assms by (simp_all add: ex_close_settles_def)

lemma phase_returned_iff: "phase_returned ph \<longleftrightarrow> (\<exists>v. ph = Returned v)"
  by (cases ph) auto

lemma phase_closing_iff: "phase_closing ph \<longleftrightarrow> (\<exists>v. ph = AwaitClose v)"
  by (cases ph) auto

lemma ref_phase_Acquiring: "ref_phase (Acquiring a) ph \<longleftrightarrow> ph = AwaitPredecessor \<or> phase_returned ph \<or> (\<exists>e. ph = OpenFailed e)"
  by (cases ph) auto

lemma ref_phase_Closing: "ref_phase (Closing a) ph \<longleftrightarrow> phase_closing ph"
  by (cases ph) auto

lemma refs_inv_mono:
  assumes "refs_inv p" and "op_refs q = op_refs p" and "set (op_own p) \<subseteq> set (op_own q)"
    and "\<And>a. a \<in> set (op_own p) \<Longrightarrow> op_owner q = Some a \<Longrightarrow> op_owner p = Some a"
    and "\<And>t r. t < length (op_refs p) \<Longrightarrow> op_refs p ! t = Some r \<Longrightarrow>
      ref_phase r (op_phase p (ref_acq r)) \<Longrightarrow> ref_phase r (op_phase q (ref_acq r))"
  shows "refs_inv q"
  using assms unfolding refs_inv_def by (metis subset_code(1))

lemma nth_update_None: "u < length xs \<Longrightarrow> xs[t := None] ! u = Some r \<longleftrightarrow> u \<noteq> t \<and> xs ! u = Some r"
  by (cases "u = t") auto

lemma nth_update_Some: "u < length xs \<Longrightarrow> xs[t := Some q] ! u = Some r \<longleftrightarrow> (if u = t then r = q else xs ! u = Some r)"
  by (cases "u = t") auto

lemma refs_inv_drop:
  assumes "refs_inv p" and "op_own q = op_own p" and "op_refs q = (op_refs p)[t := None]"
    and "\<And>u r. u < length (op_refs p) \<Longrightarrow> u \<noteq> t \<Longrightarrow> op_refs p ! u = Some r \<Longrightarrow> ref_phase r (op_phase p (ref_acq r)) \<Longrightarrow>
      op_owner p \<noteq> Some (ref_acq r) \<Longrightarrow> ref_phase r (op_phase q (ref_acq r)) \<and> op_owner q \<noteq> Some (ref_acq r)"
  shows "refs_inv q"
  using assms unfolding refs_inv_def by (auto simp: nth_update_None)

lemma refs_inv_set:
  assumes "refs_inv p" and "set (op_own p) \<subseteq> set (op_own q)" and "op_refs q = (op_refs p)[t := Some r]"
    and "ref_acq r \<in> set (op_own q)" and "ref_phase r (op_phase q (ref_acq r))" and "op_owner q \<noteq> Some (ref_acq r)"
    and "\<And>u r'. u < length (op_refs p) \<Longrightarrow> op_refs p ! u = Some r' \<Longrightarrow> ref_acq r' \<in> set (op_own p) \<Longrightarrow>
      ref_phase r' (op_phase p (ref_acq r')) \<Longrightarrow> op_owner p \<noteq> Some (ref_acq r') \<Longrightarrow>
      ref_acq r' \<noteq> ref_acq r \<and> ref_phase r' (op_phase q (ref_acq r')) \<and> op_owner q \<noteq> Some (ref_acq r')"
  shows "refs_inv q"
proof -
  have old: "ref_acq r' \<noteq> ref_acq r \<and> ref_acq r' \<in> set (op_own q) \<and> ref_phase r' (op_phase q (ref_acq r'))
      \<and> op_owner q \<noteq> Some (ref_acq r')"
    if "u < length (op_refs p)" "op_refs p ! u = Some r'" for u r'
    using assms(1,2,7) that unfolding refs_inv_def by (meson subset_code(1))
  show ?thesis
    unfolding refs_inv_def assms(3)
    using assms(1,4-6) old by (auto simp: nth_update_Some refs_inv_def) metis+
qed

lemma no_owner_before_open:
  assumes inv: "own_inv p" and a: "a \<in> set (op_own p)" "op_phase p a = AwaitPredecessor"
    "ownershipTail_resolved (ex_acqs (op_ex p)) a"
  shows "native_run (op_events p) = Some None"
proof -
  obtain c where c: "native_run (op_events p) = Some c"
    and own: "\<forall>a c'. c = Some (a, c') \<longrightarrow> a \<in> set (op_own p)"
    and ph: "\<forall>a \<in> set (op_own p). (phase_returned (op_phase p a) \<longleftrightarrow> c = Some (a, False)) \<and>
        (phase_closing (op_phase p a) \<longleftrightarrow> c = Some (a, True))"
    using inv by (auto simp: own_inv_def native_inv_def)
  have ex: "exclusive_inv (op_ex p)" and len: "\<forall>a \<in> set (op_own p). a < length (ex_acqs (op_ex p))"
    using inv by (auto simp: own_inv_def)
  have "c = None"
  proof (rule ccontr)
    assume "c \<noteq> None"
    then obtain b c' where b: "c = Some (b, c')" by (cases c) auto
    then have own_b: "b \<in> set (op_own p)" using own by blast
    with ph b have pb: "phase_returned (op_phase p b) \<or> phase_closing (op_phase p b)" by (cases c') auto
    have "acq_ok (ex_acqs (op_ex p) ! b)" using ex len own_b by (simp add: exclusive_inv_def)
    with own_b pb have bo: "b \<in> set (op_own p)" "ex_owns (op_phase p b)" "\<not> aq_finished (ex_acqs (op_ex p) ! b)"
      by (auto simp: phase_returned_iff phase_closing_iff op_phase_def acq_ok_def)
    then have "Suc b = length (ex_opened (op_ex p))"
      using ex_owns_last_opened [OF ex] len by (simp add: op_phase_def)
    moreover have "a = length (ex_opened (op_ex p))"
      using exclusive_begin_open_next [OF ex] a len by (simp add: op_phase_def)
    ultimately show False using a(3) bo(3) by (simp add: ownershipTail_resolved_iff)
  qed
  with c show ?thesis by simp
qed

lemma own_inv_acquire:
  assumes "own_inv p" and "t < length (op_refs p)" and "op_refs p ! t = None"
  shows "own_inv (p\<lparr>op_ex := acquireExclusiveResource (op_ex p),
       op_own := op_own p @ [length (ex_acqs (op_ex p))],
       op_refs := (op_refs p)[t := Some (Acquiring (length (ex_acqs (op_ex p))))]\<rparr>)" (is "own_inv ?q")
proof -
  have len: "\<forall>a \<in> set (op_own p). a < length (ex_acqs (op_ex p))" using assms by (simp add: own_inv_def)
  have old: "op_phase ?q a = op_phase p a" if "a \<in> set (op_own p)" for a
    using len that by (simp add: op_phase_def acquire_phase)
  have new: "op_phase ?q (length (ex_acqs (op_ex p))) = AwaitPredecessor" by (simp add: op_phase_def acquire_phase)
  define n where "n = length (ex_acqs (op_ex p))"
  have fresh: "n \<notin> set (op_own p)" using len by (auto simp: n_def)
  have owner: "op_owner p \<noteq> Some n" using assms(1) fresh by (auto simp: own_inv_def)
  have refs: "refs_inv p" and nat: "native_inv p" using assms(1) by (simp_all add: own_inv_def)
  have "refs_inv ?q"
  proof (rule refs_inv_set [OF refs])
    show "op_refs ?q = (op_refs p)[t := Some (Acquiring n)]" by (simp add: n_def)
    show "ref_phase (Acquiring n) (op_phase ?q (ref_acq (Acquiring n)))" using new by (simp add: n_def)
    fix u r' assume r': "ref_acq r' \<in> set (op_own p)" "ref_phase r' (op_phase p (ref_acq r'))" "op_owner p \<noteq> Some (ref_acq r')"
    then show "ref_acq r' \<noteq> ref_acq (Acquiring n) \<and> ref_phase r' (op_phase ?q (ref_acq r')) \<and> op_owner ?q \<noteq> Some (ref_acq r')"
      using old [OF r'(1)] fresh by (metis ref_acq.simps(1) owner_protocol.select_convs(3) owner_protocol.update_convs(1,2,4) owner_protocol.surjective)
  qed (use owner in \<open>auto simp: n_def\<close>)
  moreover have "native_inv ?q"
  proof -
    obtain c where c: "native_run (op_events p) = Some c" "\<forall>a c'. c = Some (a, c') \<longrightarrow> a \<in> set (op_own p)"
      "\<forall>a \<in> set (op_own p). (phase_returned (op_phase p a) \<longleftrightarrow> c = Some (a, False)) \<and>
         (phase_closing (op_phase p a) \<longleftrightarrow> c = Some (a, True)) \<and> op_phase p a \<noteq> AwaitOpen"
      using nat by (auto simp: native_inv_def)
    moreover have "c \<noteq> Some (n, c')" for c' using c(2) fresh by blast
    ultimately show ?thesis unfolding native_inv_def using old new by (auto simp: n_def)
  qed
  moreover have "exclusive_inv (acquireExclusiveResource (op_ex p))"
    by (rule exclusive_step_inv [OF exclusive_step.ex_call_acquire]) (use assms(1) in \<open>simp add: own_inv_def\<close>)
  moreover have "\<forall>a. op_owner p = Some a \<longrightarrow> a \<in> set (op_own p) \<and> phase_returned (op_phase ?q a)"
    using assms(1) old by (auto simp: own_inv_def)
  moreover have "\<forall>a \<in> set (op_own ?q). a < length (ex_acqs (op_ex ?q))" using len by (auto simp: acquire_phase)
  ultimately show ?thesis by (auto simp: own_inv_def)
qed

text \<open>
  The other steps change the phase of one acquisition \<open>a\<close> of the client at most. What they have in common:
  the native view moves with the phase of \<open>a\<close>, and all other acquisitions keep theirs.
\<close>

lemma native_inv_move:
  assumes "native_inv p" and "a \<in> set (op_own p)" and "op_own q = op_own p"
    and "\<And>b. b \<noteq> a \<Longrightarrow> op_phase q b = op_phase p b"
    and "native_run (op_events q) = Some c"
    and "native_run (op_events p) = Some None \<or> (\<exists>c'. native_run (op_events p) = Some (Some (a, c')))"
    and "c = None \<or> (\<exists>c'. c = Some (a, c'))"
    and "phase_returned (op_phase q a) \<longleftrightarrow> c = Some (a, False)"
    and "phase_closing (op_phase q a) \<longleftrightarrow> c = Some (a, True)" and "op_phase q a \<noteq> AwaitOpen"
  shows "native_inv q"
proof -
  have other: "\<not> phase_returned (op_phase p b)" "\<not> phase_closing (op_phase p b)" "op_phase p b \<noteq> AwaitOpen"
    if "b \<in> set (op_own p)" "b \<noteq> a" for b
    using assms(1,6) that by (auto simp: native_inv_def)
  show ?thesis
    unfolding native_inv_def
  proof (intro exI [of _ c] conjI ballI)
    show "native_run (op_events q) = Some c" by (rule assms(5))
    show "\<forall>a c'. c = Some (a, c') \<longrightarrow> a \<in> set (op_own q)" using assms(2,3,7) by auto
    fix b assume b: "b \<in> set (op_own q)"
    show "phase_returned (op_phase q b) \<longleftrightarrow> c = Some (b, False)"
      using assms(3,4,7,8) other b by (cases "b = a") auto
    show "phase_closing (op_phase q b) \<longleftrightarrow> c = Some (b, True)"
      using assms(3,4,7,9) other b by (cases "b = a") auto
    show "op_phase q b \<noteq> AwaitOpen"
      using assms(3,4,10) other b by (cases "b = a") auto
  qed
qed

lemma own_inv_parts:
  assumes "own_inv p"
  shows "exclusive_inv (op_ex p)" "\<And>a. a \<in> set (op_own p) \<Longrightarrow> a < length (ex_acqs (op_ex p))"
    "\<And>a. op_owner p = Some a \<Longrightarrow> a \<in> set (op_own p)"
    "\<And>a. op_owner p = Some a \<Longrightarrow> phase_returned (op_phase p a)" "refs_inv p" "native_inv p"
    "\<And>a. a \<in> set (op_own p) \<Longrightarrow> acq_ok (ex_acqs (op_ex p) ! a)"
  using assms by (auto simp: own_inv_def exclusive_inv_def)

lemma native_run_returned:
  assumes "own_inv p" and "a \<in> set (op_own p)" and "phase_returned (op_phase p a)"
  shows "native_run (op_events p) = Some (Some (a, False))"
  using own_inv_parts(6) [OF assms(1)] assms(2,3) by (auto simp: native_inv_def)

lemma native_run_closing:
  assumes "own_inv p" and "a \<in> set (op_own p)" and "phase_closing (op_phase p a)"
  shows "native_run (op_events p) = Some (Some (a, True))"
  using own_inv_parts(6) [OF assms(1)] assms(2,3) by (auto simp: native_inv_def)

lemma refs_ref:
  assumes "own_inv p" and "t < length (op_refs p)" and "op_refs p ! t = Some r"
  shows "ref_acq r \<in> set (op_own p)" "ref_phase r (op_phase p (ref_acq r))" "op_owner p \<noteq> Some (ref_acq r)"
  using own_inv_parts(5) [OF assms(1)] assms(2,3) by (auto simp: refs_inv_def)

lemma refs_other:
  assumes "own_inv p" and "t < length (op_refs p)" and "op_refs p ! t = Some r"
    and "u < length (op_refs p)" and "op_refs p ! u = Some q" and "u \<noteq> t"
  shows "ref_acq q \<noteq> ref_acq r"
  using own_inv_parts(5) [OF assms(1)] assms(2-6) unfolding refs_inv_def by metis

lemma own_inv_open:
  assumes inv: "own_inv p" and a: "a \<in> set (op_own p)" "op_phase p a = AwaitPredecessor"
    "ownershipTail_resolved (ex_acqs (op_ex p)) a"
  shows "own_inv (p\<lparr>op_ex := run_opener a r (op_ex p), op_events := op_events p @ opened_event a r\<rparr>)" (is "own_inv ?q")
proof -
  note parts = own_inv_parts [OF inv]
  have len: "a < length (ex_acqs (op_ex p))" by (rule parts(2) [OF a(1)])
  have other: "op_phase ?q b = op_phase p b" if "b \<noteq> a" for b
    using that by (simp add: op_phase_def run_opener_other)
  have mine: "op_phase ?q a = (case r of Fulfilled v \<Rightarrow> Returned v | Rejected x \<Rightarrow> OpenFailed x)"
    using len by (simp add: op_phase_def run_opener_phase)
  have none: "native_run (op_events p) = Some None" by (rule no_owner_before_open [OF assms])
  have "native_inv ?q"
    by (rule native_inv_move [OF parts(6) a(1), of _ "case r of Fulfilled v \<Rightarrow> Some (a, False) | Rejected e \<Rightarrow> None"])
      (use none mine other in \<open>auto simp: opened_event_def native_run_snoc split: settled.splits\<close>)
  moreover have "refs_inv ?q"
  proof (rule refs_inv_mono [OF parts(5)])
    fix t x assume "t < length (op_refs p)" "op_refs p ! t = Some x" "ref_phase x (op_phase p (ref_acq x))"
    then show "ref_phase x (op_phase ?q (ref_acq x))"
      using other [of "ref_acq x"] mine a(2)
      by (cases x; cases "ref_acq x = a") (auto simp: ref_phase_Acquiring split: settled.splits)
  qed auto
  moreover have "exclusive_inv (op_ex ?q)"
    using exclusive_run_opener [OF parts(1) len _ a(3)] a(2) by (simp add: op_phase_def)
  moreover have "op_owner p \<noteq> Some a" using parts(4) a(2) by auto
  ultimately show ?thesis
    unfolding own_inv_def using parts(2-4) other by (auto simp del: op_phase_simps)
qed

lemma own_inv_failed:
  assumes inv: "own_inv p" and t: "op_refs p ! t = Some (Acquiring a)" "t < length (op_refs p)"
  shows "own_inv (p\<lparr>op_refs := (op_refs p)[t := None]\<rparr>)" (is "own_inv ?q")
proof -
  note parts = own_inv_parts [OF inv]
  have "refs_inv ?q" by (rule refs_inv_drop [OF parts(5), of _ t]) auto
  moreover have "native_inv ?q" using parts(6) by (simp add: native_inv_def)
  ultimately show ?thesis using parts by (auto simp: own_inv_def)
qed

lemma own_inv_take:
  assumes inv: "own_inv p" and t: "t < length (op_refs p)" "op_refs p ! t = Some (Acquiring a)" "op_phase p a = Returned v"
  shows "own_inv (p\<lparr>op_owner := Some a, op_refs := (op_refs p)[t := None]\<rparr>)" (is "own_inv ?q")
proof -
  note parts = own_inv_parts [OF inv]
  have "refs_inv ?q"
    by (rule refs_inv_drop [OF parts(5), of _ t]) (use refs_other [OF inv t(1,2)] in auto)
  moreover have "native_inv ?q" using parts(6) by (simp add: native_inv_def)
  ultimately show ?thesis using parts refs_ref(1) [OF inv t(1,2)] t(3) by (auto simp: own_inv_def)
qed

lemma own_inv_operate:
  assumes inv: "own_inv p" and a: "op_owner p = Some a"
  shows "own_inv (p\<lparr>op_events := op_events p @ [NativeOperation a]\<rparr>)" (is "own_inv ?q")
proof -
  note parts = own_inv_parts [OF inv]
  have run: "native_run (op_events p) = Some (Some (a, False))"
    using native_run_returned [OF inv] parts(3,4) a by blast
  have "native_inv ?q"
    using parts(6) run by (auto simp: native_inv_def native_run_snoc)
  moreover have "refs_inv ?q" by (rule refs_inv_mono [OF parts(5)]) auto
  ultimately show ?thesis using parts by (auto simp: own_inv_def)
qed

lemma own_inv_release:
  assumes inv: "own_inv p" and t: "t < length (op_refs p)" "op_refs p ! t = None" and a: "op_owner p = Some a"
  shows "own_inv (p\<lparr>op_owner := None, op_ex := ex_release a (op_ex p),
       op_refs := (op_refs p)[t := Some (Closing a)], op_events := op_events p @ [NativeClosing a]\<rparr>)" (is "own_inv ?q")
proof -
  note parts = own_inv_parts [OF inv]
  have own: "a \<in> set (op_own p)" and len: "a < length (ex_acqs (op_ex p))" using parts(2,3) a by blast+
  obtain v where v: "op_phase p a = Returned v" using parts(4) a by (auto simp: phase_returned_iff)
  note rel = release_phase [OF len parts(7) [OF own] v [unfolded op_phase_def]]
  have other: "op_phase ?q b = op_phase p b" if "b \<noteq> a" for b using that by (simp add: op_phase_def rel)
  have mine: "op_phase ?q a = AwaitClose v" by (simp add: op_phase_def rel)
  have run: "native_run (op_events p) = Some (Some (a, False))"
    using native_run_returned [OF inv own] v by simp
  have "native_inv ?q"
    by (rule native_inv_move [OF parts(6) own, of _ "Some (a, True)"])
      (use run mine other in \<open>auto simp: native_run_snoc\<close>)
  moreover have "refs_inv ?q"
    by (rule refs_inv_set [OF parts(5), of _ t "Closing a"]) (use own mine other a in auto)
  moreover have "exclusive_inv (op_ex ?q)"
    using exclusive_step_inv [OF exclusive_step.ex_call_release [OF len] parts(1)] v by (simp add: op_phase_def)
  ultimately show ?thesis using parts(2) by (auto simp: own_inv_def)
qed

lemma own_inv_close:
  assumes inv: "own_inv p" and t: "t < length (op_refs p)" "op_refs p ! t = Some (Closing a)"
  shows "own_inv (p\<lparr>op_ex := ex_close_settles a r (op_ex p), op_refs := (op_refs p)[t := None],
       op_events := op_events p @ [NativeDestroyed a]\<rparr>)" (is "own_inv ?q")
proof -
  note parts = own_inv_parts [OF inv]
  have own: "a \<in> set (op_own p)" and ref: "phase_closing (op_phase p a)" "op_owner p \<noteq> Some a"
    using refs_ref [OF inv t] by (auto simp: ref_phase_Closing)
  have len: "a < length (ex_acqs (op_ex p))" by (rule parts(2) [OF own])
  obtain v where v: "op_phase p a = AwaitClose v" using ref(1) by (auto simp: phase_closing_iff)
  have other: "op_phase ?q b = op_phase p b" if "b \<noteq> a" for b using that len by (simp add: op_phase_def close_phase)
  have mine: "op_phase ?q a = Closed" using len by (simp add: op_phase_def close_phase)
  have run: "native_run (op_events p) = Some (Some (a, True))" by (rule native_run_closing [OF inv own ref(1)])
  have "native_inv ?q"
    by (rule native_inv_move [OF parts(6) own, of _ None]) (use run mine other in \<open>auto simp: native_run_snoc\<close>)
  moreover have "refs_inv ?q"
    by (rule refs_inv_drop [OF parts(5), of _ t]) (use refs_other [OF inv t] other in auto)
  moreover have "exclusive_inv (op_ex ?q)"
    using exclusive_step_inv [OF exclusive_step.ex_close_done [OF len] parts(1)] v by (simp add: op_phase_def)
  ultimately show ?thesis
    unfolding own_inv_def using parts(2-4) ref(2) other len by (auto simp: close_phase simp del: op_phase_simps)
qed

lemma own_inv_other:
  assumes inv: "own_inv p" and e: "exclusive_step (op_ex p) e" "\<forall>a\<in>set (op_own p). ex_acqs e ! a = ex_acqs (op_ex p) ! a"
  shows "own_inv (p\<lparr>op_ex := e\<rparr>)" (is "own_inv ?q")
proof -
  note parts = own_inv_parts [OF inv]
  have same: "op_phase ?q a = op_phase p a" if "a \<in> set (op_own p)" for a using that e(2) by (simp add: op_phase_def)
  have grow: "length (ex_acqs (op_ex p)) \<le> length (ex_acqs e)"
    using e(1) by (cases rule: exclusive_step.cases)
      (simp_all add: acquireExclusiveResource_def ex_begin_open_def ex_open_settles_def ex_close_settles_def Let_def)
  have "native_inv ?q" using parts(6) same by (auto simp: native_inv_def)
  moreover have "refs_inv ?q"
    by (rule refs_inv_mono [OF parts(5)]) (use refs_ref(1) [OF inv] same in auto)
  moreover have "exclusive_inv e" by (rule exclusive_step_inv [OF e(1) parts(1)])
  ultimately show ?thesis
    unfolding own_inv_def using parts(2-4) same grow by fastforce
qed

lemma own_inv_spawn: "own_inv p \<Longrightarrow> own_inv (p\<lparr>op_refs := op_refs p @ [None]\<rparr>)"
  by (auto simp: own_inv_def refs_inv_def native_inv_def nth_append less_Suc_eq)

lemma own_step_inv: "own_step p q \<Longrightarrow> own_inv p \<Longrightarrow> own_inv q"
  by (induction rule: own_step.induct)
    (auto intro: own_inv_spawn own_inv_acquire own_inv_open own_inv_failed own_inv_take own_inv_operate
      own_inv_release own_inv_close own_inv_other)

interpretation ownership: step_invariant own_step own_inv
  by unfold_locales (rule own_step_inv)

text \<open>No acquisition is lost: one that waits, is open or is closing is held by the client or by a task.\<close>

fun phase_over :: "nat acquisition_phase \<Rightarrow> bool" where
  "phase_over (OpenFailed e) = True"
| "phase_over Closed = True"
| "phase_over _ = False"

definition ref_held :: "owner_protocol \<Rightarrow> nat \<Rightarrow> bool" where
  "ref_held p a \<longleftrightarrow> op_owner p = Some a \<or> (\<exists>t<length (op_refs p). \<exists>r. op_refs p ! t = Some r \<and> ref_acq r = a)"

definition held_inv :: "owner_protocol \<Rightarrow> bool" where
  "held_inv p \<longleftrightarrow> own_inv p \<and> (\<forall>a \<in> set (op_own p). phase_over (op_phase p a) \<or> ref_held p a)"

lemma ref_held_keep:
  assumes "ref_held p a" and "op_owner p = Some a \<Longrightarrow> ref_held q a"
    and "\<And>r. op_refs p ! t = Some r \<Longrightarrow> ref_acq r \<noteq> a" and "op_refs q = (op_refs p)[t := x]"
  shows "ref_held q a"
proof (cases "op_owner p = Some a")
  case False
  then obtain u r where u: "u < length (op_refs p)" "op_refs p ! u = Some r" "ref_acq r = a"
    using assms(1) by (auto simp: ref_held_def)
  then have "u \<noteq> t" using assms(3) by auto
  with u assms(4) show ?thesis unfolding ref_held_def by (metis length_list_update nth_list_update_neq)
qed (rule assms(2))

lemma ref_held_here: "t < length (op_refs p) \<Longrightarrow> op_refs q = (op_refs p)[t := Some r] \<Longrightarrow> ref_held q (ref_acq r)"
  unfolding ref_held_def by (metis length_list_update nth_list_update_eq)

lemma held_acquire:
  assumes inv: "own_inv p" and t: "t < length (op_refs p)" "op_refs p ! t = None"
    and q: "q = p\<lparr>op_ex := acquireExclusiveResource (op_ex p), op_own := op_own p @ [length (ex_acqs (op_ex p))],
       op_refs := (op_refs p)[t := Some (Acquiring (length (ex_acqs (op_ex p))))]\<rparr>"
    and c: "c \<in> set (op_own q)" and old: "c \<in> set (op_own p) \<Longrightarrow> phase_over (op_phase p c) \<or> ref_held p c"
  shows "phase_over (op_phase q c) \<or> ref_held q c"
proof (cases "c = length (ex_acqs (op_ex p))")
  case True
  have "ref_held q (ref_acq (Acquiring c))" by (rule ref_held_here [of t p]) (use t q True in auto)
  then show ?thesis by simp
next
  case False
  with c q have own: "c \<in> set (op_own p)" by auto
  then have "op_phase q c = op_phase p c"
    using own_inv_parts(2) [OF inv] by (simp add: q op_phase_def acquire_phase)
  moreover have "ref_held p c \<Longrightarrow> ref_held q c"
    by (rule ref_held_keep [of p c q t]) (use q t in \<open>auto simp: ref_held_def\<close>)
  ultimately show ?thesis using old [OF own] by auto
qed

lemma held_take:
  assumes inv: "own_inv p" and t: "t < length (op_refs p)" "op_refs p ! t = Some (Acquiring a)" "op_phase p a = Returned v"
    and q: "q = p\<lparr>op_owner := Some a, op_refs := (op_refs p)[t := None]\<rparr>"
    and old: "phase_over (op_phase p c) \<or> ref_held p c"
  shows "phase_over (op_phase q c) \<or> ref_held q c"
proof -
  have a: "a \<in> set (op_own p)" using refs_ref(1) [OF inv t(1,2)] by simp
  have other: "op_owner p \<noteq> Some c" if "c \<noteq> a"
  proof
    assume ow: "op_owner p = Some c"
    have "native_run (op_events p) = Some (Some (c, False))"
      by (rule native_run_returned [OF inv own_inv_parts(3,4) [OF inv ow]])
    moreover have "native_run (op_events p) = Some (Some (a, False))"
      by (rule native_run_returned [OF inv a]) (simp add: t)
    ultimately show False using that by simp
  qed
  have "ref_held q c" if "ref_held p c" "c \<noteq> a"
  proof (rule ref_held_keep [OF that(1)])
    show "op_refs q = (op_refs p)[t := None]" by (simp add: q)
    show "ref_acq r \<noteq> c" if "op_refs p ! t = Some r" for r using that t(2) \<open>c \<noteq> a\<close> by auto
  qed (use other that in simp)
  moreover have "ref_held q a" by (simp add: ref_held_def q)
  ultimately show ?thesis using old by (cases "c = a") (auto simp: q)
qed

lemma held_release:
  assumes inv: "own_inv p" and t: "t < length (op_refs p)" "op_refs p ! t = None" "op_owner p = Some a"
    and q: "q = p\<lparr>op_owner := None, op_ex := ex_release a (op_ex p),
       op_refs := (op_refs p)[t := Some (Closing a)], op_events := op_events p @ [NativeClosing a]\<rparr>"
    and old: "phase_over (op_phase p c) \<or> ref_held p c"
  shows "phase_over (op_phase q c) \<or> ref_held q c"
proof (cases "c = a")
  case True
  have "ref_held q (ref_acq (Closing a))" by (rule ref_held_here [of t p]) (use t q in auto)
  then show ?thesis using True by simp
next
  case False
  obtain v where v: "op_phase p a = Returned v" using own_inv_parts(4) [OF inv] t by (auto simp: phase_returned_iff)
  have own: "a \<in> set (op_own p)" using own_inv_parts(3) [OF inv] t by auto
  have "op_phase q c = op_phase p c"
    using False release_phase [OF own_inv_parts(2) [OF inv own] own_inv_parts(7) [OF inv own]] v
    by (simp add: q op_phase_def)
  moreover have "ref_held p c \<Longrightarrow> ref_held q c"
    by (rule ref_held_keep [of p c q t]) (use t q False in \<open>auto simp: ref_held_def\<close>)
  ultimately show ?thesis using old by auto
qed

lemma own_step_held: "own_step p q \<Longrightarrow> held_inv p \<Longrightarrow> held_inv q"
proof -
  assume step: "own_step p q" and held: "held_inv p"
  then have inv: "own_inv p" and inv': "own_inv q" using own_step_inv by (auto simp: held_inv_def)
  have old: "phase_over (op_phase p a) \<or> ref_held p a" if "a \<in> set (op_own p)" for a
    using held that by (simp add: held_inv_def)
  have "phase_over (op_phase q c) \<or> ref_held q c" if c: "c \<in> set (op_own q)" for c
    using step
  proof cases
    case os_spawn
    have "ref_held p a \<Longrightarrow> ref_held q a" for a
      unfolding ref_held_def os_spawn by (auto simp: nth_append)
    with old [of c] c show ?thesis by (auto simp: os_spawn)
  next
    case (os_acquire t)
    show ?thesis by (rule held_acquire [OF inv os_acquire(2,3,1) c old])
  next
    case (os_open a r)
    have "op_phase q c = op_phase p c" if "c \<noteq> a" using that by (simp add: os_open op_phase_def run_opener_other)
    moreover have "ref_held q c = ref_held p c" by (simp add: os_open ref_held_def)
    ultimately show ?thesis using old [of c] c os_open(3) by (cases "c = a") (auto simp: os_open(1))
  next
    case (os_failed t a e)
    have "ref_held p c \<Longrightarrow> c \<noteq> a \<Longrightarrow> ref_held q c"
      by (rule ref_held_keep [of p c q t]) (use os_failed in \<open>auto simp: ref_held_def\<close>)
    then show ?thesis using old [of c] c os_failed by (cases "c = a") auto
  next
    case (os_take t a v)
    show ?thesis by (rule held_take [OF inv os_take(2-4,1)]) (use old [of c] c os_take(1) in simp)
  next
    case (os_operate a)
    then show ?thesis using old [of c] c by (simp add: ref_held_def)
  next
    case (os_release t a)
    show ?thesis by (rule held_release [OF inv os_release(2-4,1)]) (use old [of c] c os_release(1) in simp)
  next
    case (os_close t a r)
    have own: "a \<in> set (op_own p)" using refs_ref(1) [OF inv os_close(2,3)] by simp
    note ph = close_phase(1) [OF own_inv_parts(2) [OF inv own], of r]
    have "ref_held p c \<Longrightarrow> c \<noteq> a \<Longrightarrow> ref_held q c"
      by (rule ref_held_keep [of p c q t]) (use os_close in \<open>auto simp: ref_held_def\<close>)
    then show ?thesis using old [of c] c by (cases "c = a") (auto simp: os_close(1) op_phase_def ph)
  next
    case (os_other e)
    then show ?thesis using old [of c] c by (simp add: ref_held_def op_phase_def)
  qed
  with inv' show ?thesis by (simp add: held_inv_def)
qed

interpretation holding: step_invariant own_step held_inv
  by unfold_locales (rule own_step_held)

definition owner_protocol_new :: "nat exclusive \<Rightarrow> owner_protocol" where
  "owner_protocol_new e = \<lparr>op_ex = e, op_own = [], op_owner = None, op_refs = [], op_events = []\<rparr>"

lemma owner_protocol_new_inv: "exclusive_inv e \<Longrightarrow> own_inv (owner_protocol_new e)"
  by (simp add: own_inv_def owner_protocol_new_def refs_inv_def native_inv_def)

lemma owner_protocol_new_held: "exclusive_inv e \<Longrightarrow> held_inv (owner_protocol_new e)"
  using owner_protocol_new_inv by (simp add: held_inv_def owner_protocol_new_def)

end
