(* ===== verification/NativeClient.thy ===== *)
theory NativeClient
  imports NativeBridge ApplianceOwnership
begin

text \<open>
  Model of \<open>lib/native-appliance-client.ts\<close>: the client of one process-wide native node. Every call of a
  public method is a task; its program counter says at which \<open>await\<close> it stands, and a resumption of a
  task is one step. Tasks of the same client interleave freely, as do the other clients of the process,
  which share the queue of \<open>acquireExclusiveResource\<close>. A chain of resumptions with no effect in between
  is one step. The native profile store is a state of a type that is a parameter, with the synchronous
  operations of the bridge on it; the asynchronous operations of the native side settle with any result.
\<close>

section \<open>Data\<close>

record NativeProfileSummary =
  ps_profileKey :: jstring
  ps_managementDestination :: jstring
  ps_lxmfDestination :: jstring

record NativeProfileStoreSnapshot =
  pf_activeProfileKey :: "jstring option"
  pf_profiles :: "NativeProfileSummary list"

record NativePrnsManagementIdentity =
  mi_managementDestination :: jstring
  mi_lxmfDestination :: "jstring option"

record NativePrnsManagementCandidate =
  mc_destinationHash :: jstring
  mc_interfaceId :: jstring
  mc_hops :: nat

record ReticulumApplianceCandidate =
  rc_managementDestination :: jstring
  rc_lxmfDestination :: jstring
  rc_interfaceId :: jstring
  rc_hops :: nat

datatype OnboardingLifecycle =
  OnboardingUnavailable | NeedsCandidate | OnboardingReady jstring | Authorizing jstring | OnboardingFaulted jstring

record OnboardingView =
  ov_available :: bool
  ov_lifecycle :: OnboardingLifecycle

text \<open>The synchronous part of the bridge: native code, on a store of type \<open>'st\<close>.\<close>

record 'st native_bridge =
  nb_isNativeError :: native_error_view
  nb_profileSnapshot :: "'st \<Rightarrow> NativeProfileStoreSnapshot settled"
  nb_activateProfile :: "jstring \<Rightarrow> 'st \<Rightarrow> unit settled \<times> 'st"
  nb_forgetProfile :: "jstring \<Rightarrow> 'st \<Rightarrow> unit settled \<times> 'st"
  nb_rememberProfile :: "jstring \<Rightarrow> jstring \<Rightarrow> 'st \<Rightarrow> unit settled \<times> 'st"
  nb_open :: "'st \<Rightarrow> nat settled \<times> 'st"
  nb_destroyProfileStore :: "'st \<Rightarrow> 'st"

datatype client_method =
  M_snapshot | M_contacts | M_conversationPeers | M_applianceLabel | M_mutateApplianceLabel | M_nearbyPeers
| M_networkConfig | M_manualServiceAnnounce | M_networkStatus | M_radioRoutesStatus | M_radioTrace
| M_mutateNetworkConfig | M_nomadFetchStart | M_nomadFetchPoll | M_reticulumProbeStart | M_reticulumProbePoll
| M_timeline | M_messageActivity | M_phoneLocationObservation | M_updatePhoneLocationObservation
| M_upsertContact | M_send | M_retryMessage | M_sync | M_ensureConnected | M_reconnect

text \<open>The label under which a method reports a reply that is not JSON; three methods return no content.\<close>

fun method_label :: "client_method \<Rightarrow> jstring option" where
  "method_label M_snapshot = Some (js ''snapshot'')"
| "method_label M_contacts = Some (js ''contacts'')"
| "method_label M_conversationPeers = Some (js ''conversation peers'')"
| "method_label M_applianceLabel = Some (js ''appliance label'')"
| "method_label M_mutateApplianceLabel = Some (js ''appliance label mutation'')"
| "method_label M_nearbyPeers = Some (js ''nearby peers'')"
| "method_label M_networkConfig = Some (js ''network configuration'')"
| "method_label M_manualServiceAnnounce = Some (js ''manual service announce'')"
| "method_label M_networkStatus = Some (js ''network status'')"
| "method_label M_radioRoutesStatus = Some (js ''radio and route diagnostics'')"
| "method_label M_radioTrace = Some (js ''radio trace'')"
| "method_label M_mutateNetworkConfig = Some (js ''network configuration mutation'')"
| "method_label M_nomadFetchStart = Some (js ''Nomad fetch start response'')"
| "method_label M_nomadFetchPoll = Some (js ''Nomad fetch poll response'')"
| "method_label M_reticulumProbeStart = Some (js ''Reticulum probe start response'')"
| "method_label M_reticulumProbePoll = Some (js ''Reticulum probe poll response'')"
| "method_label M_timeline = Some (js ''timeline'')"
| "method_label M_messageActivity = Some (js ''message activity'')"
| "method_label M_phoneLocationObservation = Some (js ''phone location observation'')"
| "method_label M_updatePhoneLocationObservation = Some (js ''phone location observation update'')"
| "method_label M_upsertContact = Some (js ''contact mutation'')"
| "method_label M_send = Some (js ''send response'')"
| "method_label M_retryMessage = Some (js ''retry send response'')"
| "method_label M_sync = None"
| "method_label M_ensureConnected = None"
| "method_label M_reconnect = None"

text \<open>A reply of a native operation: its text, with the outcome of \<open>JSON.parse\<close> on it.\<close>

datatype native_reply = JsonReply jstring | MalformedReply jstring

datatype nc_value =
  NoContent | JsonValue jstring | CatalogValue NativeProfileStoreSnapshot | OnboardingValue OnboardingView
| CandidatesValue "ReticulumApplianceCandidate list" | OtaValue

type_synonym nc_outcome = "nc_value settled"

datatype client_op =
  CallOp client_method "jstring list" bool \<comment> \<open>the flag: the call that ends \<open>startOnboarding\<close>\<close>
| ProfilesOp | BeginAddOp | OnboardingOp | StageOp jstring jstring | RebootOp | ScanOp
| StartOnboardingOp "ReticulumApplianceCandidate option" | ActivateOp jstring | ForgetOp jstring

text \<open>The two users of the close, change, reopen sequence: \<open>#replaceSelectedProfile\<close> and \<open>#rememberAndOpen\<close>.\<close>

datatype switch_goal = ActivateGoal jstring | RememberGoal jstring jstring

datatype nc_pc =
  Gate client_op \<comment> \<open>awaits \<open>#reopening\<close>\<close>
| Tail client_op \<comment> \<open>chained on \<open>#profileSwitchTail\<close>\<close>
| BootJoin nat | BootLoad | BootAcquire nat | BootFinish nc_outcome
| SwitchClose switch_goal "jstring option" nat
| SwitchClosed switch_goal "jstring option" "unit settled"
| SwitchOpen switch_goal "jstring option" nat
| SwitchRestore switch_goal thrown nat
| OnbPublic jstring jstring | OnbProbe jstring jstring | OnbEnroll jstring jstring | OnbAuthorize jstring jstring
| CallPending client_method bool | OtaPending | ViewPending NativeProfileStoreSnapshot
| ScanPending "NativePrnsManagementCandidate list"
| DisposeClose bool nat | DisposeClosed bool
| Settled nc_outcome

datatype native_event =
  Owner owner_event | ProfileActivated jstring | ProfileForgotten jstring | ProfileRemembered jstring jstring
| PublicIdentityRead jstring NativePrnsManagementIdentity | ManagementIdentityRead jstring NativePrnsManagementIdentity
| EnrollRequested jstring | RuntimeLoaded | PrnsClosed | ProfileStoreDestroyed | OtaStaged jstring jstring | OtaRebooted jstring

text \<open>
  The private fields, the tasks in the order of the calls, the tasks chained on \<open>#profileSwitchTail\<close>,
  the shared queue with the acquisitions this client made, the native store and the native calls made.
  \<open>#reopening\<close> is never assigned: awaiting it is a tick.
\<close>

record 'st nclient =
  nc_opening :: "nat option"
  nc_ownerFault :: "thrown option"
  nc_ownership :: "nat option"
  nc_switches :: "nat list"
  nc_runtime :: bool
  nc_enrollmentDestination :: "jstring option"
  nc_disposed :: bool
  nc_tasks :: "nc_pc list"
  nc_ex :: "nat exclusive"
  nc_own :: "nat list"
  nc_store :: 'st
  nc_log :: "native_event list"

definition nclient_new :: "nat exclusive \<Rightarrow> 'st \<Rightarrow> 'st nclient" where
  "nclient_new e st =
     \<lparr>nc_opening = None, nc_ownerFault = None, nc_ownership = None, nc_switches = [], nc_runtime = False,
      nc_enrollmentDestination = None, nc_disposed = False, nc_tasks = [], nc_ex = e, nc_own = [],
      nc_store = st, nc_log = []\<rparr>"

section \<open>Helpers\<close>

definition normalizeDestination :: "jstring \<Rightarrow> jstring \<Rightarrow> jstring settled" where
  "normalizeDestination value label =
     (let destination = js_lower (js_trim value)
      in if hex32 destination then Fulfilled destination
         else Rejected (ErrorObject (label @ js '' must be 32 hexadecimal characters.'')))"

definition parseNativeJson :: "jstring \<Rightarrow> native_reply \<Rightarrow> nc_outcome" where
  "parseNativeJson label reply =
     (case reply of
        JsonReply text \<Rightarrow> Fulfilled (JsonValue text)
      | MalformedReply text \<Rightarrow>
          Rejected (ErrorObject (js ''native Rust bridge returned invalid '' @ label @ js '' JSON'')))"

definition disposed_error :: thrown where
  "disposed_error = ErrorObject (js ''native appliance client has been disposed'')"

definition not_bootstrapped_error :: thrown where
  "not_bootstrapped_error = ErrorObject (js ''native appliance client has not been bootstrapped'')"

definition no_owner_error :: thrown where
  "no_owner_error = ErrorObject (js ''native appliance client has no active profile owner'')"

definition requiredRuntime :: "'st nclient \<Rightarrow> unit settled" where
  "requiredRuntime s =
     (if nc_disposed s then Rejected disposed_error
      else case nc_ownerFault s of
        Some fault \<Rightarrow> Rejected fault
      | None \<Rightarrow> if \<not> nc_runtime s then Rejected not_bootstrapped_error else Fulfilled ())"

definition client_active :: "'st nclient \<Rightarrow> nat settled" where
  "client_active s =
     (case requiredRuntime s of
        Rejected e \<Rightarrow> Rejected e
      | Fulfilled _ \<Rightarrow>
          (case nc_ownership s of None \<Rightarrow> Rejected no_owner_error | Some a \<Rightarrow> Fulfilled a))"

definition set_pc :: "nat \<Rightarrow> nc_pc \<Rightarrow> 'st nclient \<Rightarrow> 'st nclient" where
  "set_pc t pc s = s\<lparr>nc_tasks := (nc_tasks s)[t := pc]\<rparr>"

definition add_log :: "native_event list \<Rightarrow> 'st nclient \<Rightarrow> 'st nclient" where
  "add_log es s = s\<lparr>nc_log := nc_log s @ es\<rparr>"

definition new_task :: "nc_pc \<Rightarrow> 'st nclient \<Rightarrow> 'st nclient" where
  "new_task pc s = s\<lparr>nc_tasks := nc_tasks s @ [pc]\<rparr>"

text \<open>\<open>finally { this.#enrollmentDestination = null }\<close>.\<close>

definition onboarding_ends :: "nat \<Rightarrow> nc_outcome \<Rightarrow> 'st nclient \<Rightarrow> 'st nclient" where
  "onboarding_ends t out s = set_pc t (Settled out) (s\<lparr>nc_enrollmentDestination := None\<rparr>)"

definition find_active :: "NativeProfileStoreSnapshot \<Rightarrow> NativeProfileSummary option" where
  "find_active catalog =
     find (\<lambda>profile. Some (ps_profileKey profile) = pf_activeProfileKey catalog) (pf_profiles catalog)"

definition activeManagementDestination :: "'st native_bridge \<Rightarrow> 'st nclient \<Rightarrow> jstring settled" where
  "activeManagementDestination b s =
     (if nc_ownership s = None
      then Rejected (ErrorObject (js ''select an appliance before starting a firmware update''))
      else case nb_profileSnapshot b (nc_store s) of
        Rejected e \<Rightarrow> Rejected e
      | Fulfilled catalog \<Rightarrow>
          (case find_active catalog of
             None \<Rightarrow> Rejected (ErrorObject (js ''the active appliance profile no longer exists''))
           | Some active \<Rightarrow> normalizeDestination (ps_managementDestination active) (js ''management destination'')))"

section \<open>Acquiring and closing the appliance\<close>

text \<open>\<open>#acquireAppliance\<close> up to its first \<open>await\<close>: task \<open>t\<close> joins the queue.\<close>

definition acquireAppliance :: "nat \<Rightarrow> (nat \<Rightarrow> nc_pc) \<Rightarrow> 'st nclient \<Rightarrow> 'st nclient" where
  "acquireAppliance t waiting s =
     (let a = length (ex_acqs (nc_ex s))
      in set_pc t (waiting a) (s\<lparr>nc_ex := acquireExclusiveResource (nc_ex s), nc_own := nc_own s @ [a]\<rparr>))"

text \<open>The opener, when the turn of acquisition \<open>a\<close> has come.\<close>

definition client_opener :: "'st native_bridge \<Rightarrow> nat \<Rightarrow> 'st nclient \<Rightarrow> 'st nclient" where
  "client_opener b a s =
     (if nc_disposed s then s\<lparr>nc_ex := run_opener a (Rejected disposed_error) (nc_ex s)\<rparr>
      else case nb_open b (nc_store s) of
        (r, st) \<Rightarrow> add_log (map Owner (opened_event a r)) (s\<lparr>nc_store := st, nc_ex := run_opener a r (nc_ex s)\<rparr>))"

text \<open>What the resumed task finds: the appliance, or the error of the opener, normalised.\<close>

definition acquired :: "'st native_bridge \<Rightarrow> nat \<Rightarrow> 'st nclient \<Rightarrow> unit settled option" where
  "acquired b a s =
     (case aq_phase (ex_acqs (nc_ex s) ! a) of
        Returned v \<Rightarrow> Some (Fulfilled ())
      | OpenFailed e \<Rightarrow> Some (Rejected (normalizeNativeError (nb_isNativeError b) e))
      | _ \<Rightarrow> None)"

definition take_ownership :: "nat \<Rightarrow> 'st nclient \<Rightarrow> 'st nclient" where
  "take_ownership a s = s\<lparr>nc_ownership := Some a, nc_ownerFault := None\<rparr>"

text \<open>\<open>release()\<close> of the appliance: the closer calls \<open>appliance.close()\<close>.\<close>

definition release_owner :: "nat \<Rightarrow> 'st nclient \<Rightarrow> 'st nclient" where
  "release_owner a s =
     add_log [Owner (NativeClosing a)] (s\<lparr>nc_ownership := None, nc_ex := ex_release a (nc_ex s)\<rparr>)"

text \<open>\<open>appliance.close()\<close> settles: the appliance is destroyed in any case.\<close>

definition owner_closed :: "nat \<Rightarrow> unit settled \<Rightarrow> 'st nclient \<Rightarrow> 'st nclient" where
  "owner_closed a r s = add_log [Owner (NativeDestroyed a)] (s\<lparr>nc_ex := ex_close_settles a r (nc_ex s)\<rparr>)"

definition close_fault :: thrown where
  "close_fault = ErrorObject (js ''The current appliance could not close cleanly, so another owner was not opened.'')"

fun restore_fault :: "switch_goal \<Rightarrow> thrown" where
  "restore_fault (ActivateGoal target) =
     ErrorObject (js ''The selected Reticulum profile could not open and the previous owner was not restored.'')"
| "restore_fault (RememberGoal m l) =
     ErrorObject (js ''The Reticulum profile could not be opened and no appliance owner could be restored.'')"

definition closeAppliance :: "nat \<Rightarrow> switch_goal \<Rightarrow> jstring option \<Rightarrow> 'st nclient \<Rightarrow> 'st nclient" where
  "closeAppliance t goal previous s =
     (case nc_ownership s of
        None \<Rightarrow> set_pc t (SwitchClosed goal previous (Fulfilled ())) s
      | Some a \<Rightarrow> set_pc t (SwitchClose goal previous a) (release_owner a s))"

text \<open>A switch ends: an activation is over, an enrolment is over or goes on to \<open>ensureConnected\<close>.\<close>

definition switch_fails :: "nat \<Rightarrow> switch_goal \<Rightarrow> thrown \<Rightarrow> 'st nclient \<Rightarrow> 'st nclient" where
  "switch_fails t goal e s =
     (case goal of
        ActivateGoal target \<Rightarrow> set_pc t (Settled (Rejected e)) s
      | RememberGoal m l \<Rightarrow> onboarding_ends t (Rejected e) s)"

definition switch_succeeds :: "nat \<Rightarrow> switch_goal \<Rightarrow> 'st nclient \<Rightarrow> 'st nclient" where
  "switch_succeeds t goal s =
     (case goal of
        ActivateGoal target \<Rightarrow> set_pc t (Settled (Fulfilled NoContent)) s
      | RememberGoal m l \<Rightarrow> set_pc t (Gate (CallOp M_ensureConnected [] True)) s)"

fun restores :: "switch_goal \<Rightarrow> jstring option \<Rightarrow> jstring option" where
  "restores (ActivateGoal target) previous = previous"
| "restores (RememberGoal m l) previous = (if previous = Some m then None else previous)"

text \<open>The \<open>catch\<close> blocks: select the previous profile again, then reopen.\<close>

definition switch_restore :: "'st native_bridge \<Rightarrow> nat \<Rightarrow> switch_goal \<Rightarrow> jstring option \<Rightarrow> thrown \<Rightarrow> 'st nclient \<Rightarrow> 'st nclient" where
  "switch_restore b t goal previous e s =
     acquireAppliance t (SwitchRestore goal e)
       (case restores goal previous of
          None \<Rightarrow> s
        | Some p \<Rightarrow> add_log [ProfileActivated p] (s\<lparr>nc_store := snd (nb_activateProfile b p (nc_store s))\<rparr>))"

definition switch_select :: "'st native_bridge \<Rightarrow> switch_goal \<Rightarrow> 'st nclient \<Rightarrow> unit settled \<times> 'st nclient" where
  "switch_select b goal s =
     (case goal of
        ActivateGoal target \<Rightarrow>
          (case nb_activateProfile b target (nc_store s) of
             (r, st) \<Rightarrow> (r, add_log [ProfileActivated target] (s\<lparr>nc_store := st\<rparr>)))
      | RememberGoal m l \<Rightarrow>
          (case nb_rememberProfile b m l (nc_store s) of
             (r, st) \<Rightarrow> (r, add_log [ProfileRemembered m l] (s\<lparr>nc_store := st\<rparr>))))"

definition switch_after_close :: "'st native_bridge \<Rightarrow> nat \<Rightarrow> switch_goal \<Rightarrow> jstring option \<Rightarrow> unit settled \<Rightarrow> 'st nclient \<Rightarrow> 'st nclient" where
  "switch_after_close b t goal previous r s =
     (case r of
        Rejected e \<Rightarrow> switch_fails t goal close_fault (s\<lparr>nc_ownerFault := Some close_fault\<rparr>)
      | Fulfilled _ \<Rightarrow>
          (case switch_select b goal s of
             (Fulfilled _, s') \<Rightarrow> acquireAppliance t (SwitchOpen goal previous) s'
           | (Rejected e, s') \<Rightarrow> switch_restore b t goal previous e s'))"

definition switch_after_open :: "'st native_bridge \<Rightarrow> nat \<Rightarrow> switch_goal \<Rightarrow> jstring option \<Rightarrow> nat \<Rightarrow> unit settled \<Rightarrow> 'st nclient \<Rightarrow> 'st nclient" where
  "switch_after_open b t goal previous a r s =
     (case r of
        Fulfilled _ \<Rightarrow> switch_succeeds t goal (take_ownership a s)
      | Rejected e \<Rightarrow> switch_restore b t goal previous e s)"

definition switch_after_restore :: "nat \<Rightarrow> switch_goal \<Rightarrow> thrown \<Rightarrow> nat \<Rightarrow> unit settled \<Rightarrow> 'st nclient \<Rightarrow> 'st nclient" where
  "switch_after_restore t goal e a r s =
     (case r of
        Fulfilled _ \<Rightarrow> switch_fails t goal e (take_ownership a s)
      | Rejected e' \<Rightarrow> switch_fails t goal (restore_fault goal) (s\<lparr>nc_ownerFault := Some (restore_fault goal)\<rparr>))"

section \<open>Bootstrap and disposal\<close>

definition bootstrapSession :: "'st nclient \<Rightarrow> 'st nclient" where
  "bootstrapSession s =
     (let t = length (nc_tasks s)
      in if nc_disposed s then new_task (Settled (Rejected disposed_error)) s
         else case nc_ownerFault s of
           Some fault \<Rightarrow> new_task (Settled (Rejected fault)) s
         | None \<Rightarrow>
             if nc_ownership s \<noteq> None then new_task (Settled (Fulfilled NoContent)) s
             else case nc_opening s of
               Some opening \<Rightarrow> new_task (BootJoin opening) s
             | None \<Rightarrow>
                 let s' = (new_task BootLoad s)\<lparr>nc_opening := Some t\<rparr>
                 in if nc_runtime s then acquireAppliance t BootAcquire s' else s')"

text \<open>Closing a runtime that is not kept: \<open>prns.close()\<close> may throw, and then the store is left.\<close>

definition discard_runtime :: "nat \<Rightarrow> unit settled \<Rightarrow> thrown \<Rightarrow> 'st nclient \<Rightarrow> 'st nclient" where
  "discard_runtime t closing e s =
     (case closing of
        Fulfilled _ \<Rightarrow> set_pc t (BootFinish (Rejected e)) (add_log [RuntimeLoaded, PrnsClosed, ProfileStoreDestroyed] s)
      | Rejected e' \<Rightarrow> set_pc t (BootFinish (Rejected e')) (add_log [RuntimeLoaded, PrnsClosed] s))"

definition open_after_load :: "nat \<Rightarrow> (NativeBridgeContract \<times> 'st) settled \<Rightarrow> unit settled \<Rightarrow> 'st nclient \<Rightarrow> 'st nclient" where
  "open_after_load t loaded closing s =
     (case loaded of
        Rejected e \<Rightarrow> set_pc t (BootFinish (Rejected e)) s
      | Fulfilled (contract, st) \<Rightarrow>
          if nc_disposed s then discard_runtime t closing disposed_error s
          else case assertNativeBridgeContract contract of
            Rejected e \<Rightarrow> discard_runtime t closing e s
          | Fulfilled _ \<Rightarrow>
              acquireAppliance t BootAcquire (add_log [RuntimeLoaded] (s\<lparr>nc_runtime := True, nc_store := st\<rparr>)))"

definition open_after_acquire :: "nat \<Rightarrow> nat \<Rightarrow> unit settled \<Rightarrow> 'st nclient \<Rightarrow> 'st nclient" where
  "open_after_acquire t a r s =
     (case r of
        Fulfilled _ \<Rightarrow> set_pc t (BootFinish (Fulfilled NoContent)) (take_ownership a s)
      | Rejected e \<Rightarrow> set_pc t (BootFinish (Rejected e)) s)"

definition bootstrap_finish :: "nat \<Rightarrow> nc_outcome \<Rightarrow> 'st nclient \<Rightarrow> 'st nclient" where
  "bootstrap_finish t out s =
     set_pc t (Settled out) (s\<lparr>nc_opening := (if nc_opening s = Some t then None else nc_opening s)\<rparr>)"

fun opening_settled :: "nc_pc \<Rightarrow> nc_outcome option" where
  "opening_settled (BootFinish out) = Some out"
| "opening_settled (Settled out) = Some out"
| "opening_settled _ = None"

definition client_dispose :: "'st nclient \<Rightarrow> 'st nclient" where
  "client_dispose s =
     (if nc_disposed s then s
      else let t = length (nc_tasks s);
               s' = (new_task (DisposeClosed (nc_runtime s)) s)
                      \<lparr>nc_disposed := True, nc_ownership := None, nc_runtime := False, nc_ownerFault := None\<rparr>
        in case nc_ownership s of
             None \<Rightarrow> s'
           | Some a \<Rightarrow> set_pc t (DisposeClose (nc_runtime s) a) (release_owner a s'))"

definition dispose_runtime :: "'st native_bridge \<Rightarrow> nat \<Rightarrow> bool \<Rightarrow> 'st nclient \<Rightarrow> 'st nclient" where
  "dispose_runtime b t loaded s =
     set_pc t (Settled (Fulfilled NoContent))
       (if loaded then add_log [PrnsClosed, ProfileStoreDestroyed] (s\<lparr>nc_store := nb_destroyProfileStore b (nc_store s)\<rparr>)
        else s)"

section \<open>Profiles\<close>

text \<open>\<open>activateProfile\<close> and \<open>forgetProfile\<close> up to the chaining on \<open>#profileSwitchTail\<close>.\<close>

definition chain_switch :: "(jstring \<Rightarrow> client_op) \<Rightarrow> jstring \<Rightarrow> 'st nclient \<Rightarrow> 'st nclient" where
  "chain_switch op profileKey s =
     (case normalizeDestination profileKey (js ''profile key'') of
        Rejected e \<Rightarrow> new_task (Settled (Rejected e)) s
      | Fulfilled key \<Rightarrow> (new_task (Tail (op key)) s)\<lparr>nc_switches := nc_switches s @ [length (nc_tasks s)]\<rparr>)"

definition activateProfile :: "jstring \<Rightarrow> 'st nclient \<Rightarrow> 'st nclient" where
  "activateProfile = chain_switch ActivateOp"

definition forgetProfile :: "jstring \<Rightarrow> 'st nclient \<Rightarrow> 'st nclient" where
  "forgetProfile = chain_switch ForgetOp"

fun pc_settled :: "nc_pc \<Rightarrow> bool" where
  "pc_settled (Settled out) = True"
| "pc_settled _ = False"

text \<open>The tail a chained task finds is settled when every task chained before it is.\<close>

definition tail_settled :: "'st nclient \<Rightarrow> nat \<Rightarrow> bool" where
  "tail_settled s t \<longleftrightarrow>
     list_all (\<lambda>u. pc_settled (nc_tasks s ! u)) (takeWhile (\<lambda>u. u \<noteq> t) (nc_switches s))"

definition serialized_begins :: "nat \<Rightarrow> client_op \<Rightarrow> 'st nclient \<Rightarrow> 'st nclient" where
  "serialized_begins t op s =
     set_pc t (if nc_disposed s then Settled (Rejected disposed_error) else Gate op) s"

definition profile_missing_error :: thrown where
  "profile_missing_error = ErrorObject (js ''the selected appliance profile no longer exists'')"

definition has_profile :: "jstring \<Rightarrow> NativeProfileStoreSnapshot \<Rightarrow> bool" where
  "has_profile key catalog \<longleftrightarrow> list_ex (\<lambda>profile. ps_profileKey profile = key) (pf_profiles catalog)"

definition activateProfileSerialized :: "'st native_bridge \<Rightarrow> nat \<Rightarrow> jstring \<Rightarrow> 'st nclient \<Rightarrow> 'st nclient" where
  "activateProfileSerialized b t profileKey s =
     (case requiredRuntime s of
        Rejected e \<Rightarrow> set_pc t (Settled (Rejected e)) s
      | Fulfilled _ \<Rightarrow>
          (case nb_profileSnapshot b (nc_store s) of
             Rejected e \<Rightarrow> set_pc t (Settled (Rejected e)) s
           | Fulfilled catalog \<Rightarrow>
               if \<not> has_profile profileKey catalog then set_pc t (Settled (Rejected profile_missing_error)) s
               else if pf_activeProfileKey catalog = Some profileKey then set_pc t (Settled (Fulfilled NoContent)) s
               else closeAppliance t (ActivateGoal profileKey) (pf_activeProfileKey catalog) s))"

definition forgetProfileSerialized :: "'st native_bridge \<Rightarrow> nat \<Rightarrow> jstring \<Rightarrow> 'st nclient \<Rightarrow> 'st nclient" where
  "forgetProfileSerialized b t profileKey s =
     (case requiredRuntime s of
        Rejected e \<Rightarrow> set_pc t (Settled (Rejected e)) s
      | Fulfilled _ \<Rightarrow>
          (case nb_profileSnapshot b (nc_store s) of
             Rejected e \<Rightarrow> set_pc t (Settled (Rejected e)) s
           | Fulfilled catalog \<Rightarrow>
               if pf_activeProfileKey catalog = Some profileKey
               then set_pc t (Settled (Rejected (ErrorObject
                      (js ''switch to another appliance before forgetting the active profile'')))) s
               else if \<not> has_profile profileKey catalog then set_pc t (Settled (Rejected profile_missing_error)) s
               else case nb_forgetProfile b profileKey (nc_store s) of
                 (r, st) \<Rightarrow>
                   set_pc t (Settled (case r of Fulfilled _ \<Rightarrow> Fulfilled NoContent | Rejected e \<Rightarrow> Rejected e))
                     (add_log [ProfileForgotten profileKey] (s\<lparr>nc_store := st\<rparr>))))"

section \<open>Enrolment\<close>

definition onboarding_view :: "NativeProfileStoreSnapshot \<Rightarrow> 'st nclient \<Rightarrow> OnboardingView" where
  "onboarding_view catalog s =
     (case find_active catalog of
        Some active \<Rightarrow> \<lparr>ov_available = True, ov_lifecycle = OnboardingReady (ps_managementDestination active)\<rparr>
      | None \<Rightarrow>
          \<lparr>ov_available = True, ov_lifecycle =
             (case nc_enrollmentDestination s of None \<Rightarrow> NeedsCandidate | Some d \<Rightarrow> Authorizing d)\<rparr>)"

definition startOnboarding_begins :: "nat \<Rightarrow> ReticulumApplianceCandidate option \<Rightarrow> 'st nclient \<Rightarrow> 'st nclient" where
  "startOnboarding_begins t candidate s =
     (case candidate of
        None \<Rightarrow> set_pc t (Settled (Rejected (ErrorObject
                  (js ''Select a verified Reticulum appliance before enrollment.'')))) s
      | Some c \<Rightarrow>
          (case requiredRuntime s of
             Rejected e \<Rightarrow> set_pc t (Settled (Rejected e)) s
           | Fulfilled _ \<Rightarrow>
               (case normalizeDestination (rc_managementDestination c) (js ''management destination'') of
                  Rejected e \<Rightarrow> set_pc t (Settled (Rejected e)) s
                | Fulfilled destination \<Rightarrow>
                    (case normalizeDestination (rc_lxmfDestination c) (js ''LXMF destination'') of
                       Rejected e \<Rightarrow> set_pc t (Settled (Rejected e)) s
                     | Fulfilled expectedLxmf \<Rightarrow>
                         set_pc t (OnbPublic destination expectedLxmf)
                           (s\<lparr>nc_enrollmentDestination := Some destination\<rparr>)))))"

definition identity_matches :: "NativePrnsManagementIdentity \<Rightarrow> jstring \<Rightarrow> jstring \<Rightarrow> bool" where
  "identity_matches i destination lxmf \<longleftrightarrow>
     mi_managementDestination i = destination \<and> mi_lxmfDestination i = Some lxmf"

definition onboarding_after_public :: "nat \<Rightarrow> jstring \<Rightarrow> jstring \<Rightarrow> NativePrnsManagementIdentity settled \<Rightarrow> 'st nclient \<Rightarrow> 'st nclient" where
  "onboarding_after_public t d l r s =
     (case r of
        Rejected e \<Rightarrow> onboarding_ends t (Rejected e) s
      | Fulfilled i \<Rightarrow>
          (let s' = add_log [PublicIdentityRead d i] s
           in if identity_matches i d l then set_pc t (OnbProbe d l) s'
              else onboarding_ends t (Rejected (ErrorObject
                     (js ''The selected announce no longer identifies the verified appliance.''))) s'))"

definition onboarding_after_probe :: "nat \<Rightarrow> jstring \<Rightarrow> jstring \<Rightarrow> NativePrnsManagementIdentity settled \<Rightarrow> 'st nclient \<Rightarrow> 'st nclient" where
  "onboarding_after_probe t d l r s =
     (case r of
        Rejected e \<Rightarrow> set_pc t (OnbEnroll d l) (add_log [EnrollRequested d] s)
      | Fulfilled i \<Rightarrow> set_pc t (OnbAuthorize d l) s)"

definition onboarding_after_enroll :: "nat \<Rightarrow> jstring \<Rightarrow> jstring \<Rightarrow> unit settled \<Rightarrow> 'st nclient \<Rightarrow> 'st nclient" where
  "onboarding_after_enroll t d l r s =
     (case r of
        Rejected e \<Rightarrow> onboarding_ends t (Rejected e) s
      | Fulfilled _ \<Rightarrow> set_pc t (OnbAuthorize d l) s)"

definition rememberAndOpen :: "'st native_bridge \<Rightarrow> nat \<Rightarrow> jstring \<Rightarrow> jstring \<Rightarrow> 'st nclient \<Rightarrow> 'st nclient" where
  "rememberAndOpen b t m l s =
     (case nb_profileSnapshot b (nc_store s) of
        Rejected e \<Rightarrow> onboarding_ends t (Rejected e) s
      | Fulfilled catalog \<Rightarrow> closeAppliance t (RememberGoal m l) (pf_activeProfileKey catalog) s)"

definition onboarding_after_authorize :: "'st native_bridge \<Rightarrow> nat \<Rightarrow> jstring \<Rightarrow> jstring \<Rightarrow> NativePrnsManagementIdentity settled \<Rightarrow> 'st nclient \<Rightarrow> 'st nclient" where
  "onboarding_after_authorize b t d l r s =
     (case r of
        Rejected e \<Rightarrow> onboarding_ends t (Rejected e) s
      | Fulfilled i \<Rightarrow>
          (let s' = add_log [ManagementIdentityRead d i] s
           in if identity_matches i d l then rememberAndOpen b t d l s'
              else onboarding_ends t (Rejected (ErrorObject
                     (js ''The appliance did not authorize the selected management application.''))) s'))"

section \<open>Native operations, discovery and firmware\<close>

definition call_begins :: "nat \<Rightarrow> client_method \<Rightarrow> bool \<Rightarrow> 'st nclient \<Rightarrow> 'st nclient" where
  "call_begins t m onboarding s =
     (case client_active s of
        Rejected e \<Rightarrow> (if onboarding then onboarding_ends t (Rejected e) s else set_pc t (Settled (Rejected e)) s)
      | Fulfilled a \<Rightarrow> set_pc t (CallPending m onboarding) (add_log [Owner (NativeOperation a)] s))"

definition call_outcome :: "'st native_bridge \<Rightarrow> client_method \<Rightarrow> native_reply settled \<Rightarrow> nc_outcome" where
  "call_outcome b m r =
     (case r of
        Rejected e \<Rightarrow> Rejected (normalizeNativeError (nb_isNativeError b) e)
      | Fulfilled reply \<Rightarrow>
          (case method_label m of None \<Rightarrow> Fulfilled NoContent | Some label \<Rightarrow> parseNativeJson label reply))"

definition call_settles :: "'st native_bridge \<Rightarrow> nat \<Rightarrow> client_method \<Rightarrow> bool \<Rightarrow> native_reply settled \<Rightarrow> 'st nclient \<Rightarrow> 'st nclient" where
  "call_settles b t m onboarding r s =
     (if onboarding
      then onboarding_ends t (call_outcome b m r) s
      else set_pc t (Settled (call_outcome b m r)) s)"

definition client_profiles :: "'st native_bridge \<Rightarrow> 'st nclient \<Rightarrow> NativeProfileStoreSnapshot settled" where
  "client_profiles b s =
     (case requiredRuntime s of
        Rejected e \<Rightarrow> Rejected e
      | Fulfilled _ \<Rightarrow>
          (case nb_profileSnapshot b (nc_store s) of
             Rejected e \<Rightarrow> Rejected (normalizeNativeError (nb_isNativeError b) e)
           | Fulfilled c \<Rightarrow> Fulfilled c))"

definition ota_begins :: "'st native_bridge \<Rightarrow> nat \<Rightarrow> (jstring \<Rightarrow> native_event) \<Rightarrow> 'st nclient \<Rightarrow> 'st nclient" where
  "ota_begins b t event s =
     (case requiredRuntime s of
        Rejected e \<Rightarrow> set_pc t (Settled (Rejected e)) s
      | Fulfilled _ \<Rightarrow>
          (case activeManagementDestination b s of
             Rejected e \<Rightarrow> set_pc t (Settled (Rejected e)) s
           | Fulfilled d \<Rightarrow> set_pc t OtaPending (add_log [event d] s)))"

primrec ota_outcome :: "unit settled \<Rightarrow> nc_outcome" where
  "ota_outcome (Fulfilled u) = Fulfilled OtaValue"
| "ota_outcome (Rejected e) = Rejected e"

text \<open>\<open>aborted\<close>: the reason of the signal, when there is one and it is aborted.\<close>

definition scan_begins :: "nat \<Rightarrow> thrown option \<Rightarrow> NativePrnsManagementCandidate list settled \<Rightarrow> 'st nclient \<Rightarrow> 'st nclient" where
  "scan_begins t aborted candidates s =
     (case requiredRuntime s of
        Rejected e \<Rightarrow> set_pc t (Settled (Rejected e)) s
      | Fulfilled _ \<Rightarrow>
          (case aborted of
             Some reason \<Rightarrow> set_pc t (Settled (Rejected reason)) s
           | None \<Rightarrow>
               (case candidates of
                  Rejected e \<Rightarrow> set_pc t (Settled (Rejected e)) s
                | Fulfilled cs \<Rightarrow> set_pc t (ScanPending cs) s)))"

definition verify_candidate ::
    "bool \<Rightarrow> NativePrnsManagementCandidate \<Rightarrow> NativePrnsManagementIdentity settled \<Rightarrow> ReticulumApplianceCandidate option settled" where
  "verify_candidate aborted candidate r =
     (case r of
        Rejected e \<Rightarrow> if aborted then Rejected e else Fulfilled None
      | Fulfilled identity \<Rightarrow>
          Fulfilled
            (case mi_lxmfDestination identity of
               None \<Rightarrow> None
             | Some lxmf \<Rightarrow>
                 if mi_managementDestination identity \<noteq> mc_destinationHash candidate then None
                 else Some \<lparr>rc_managementDestination = mi_managementDestination identity,
                            rc_lxmfDestination = lxmf,
                            rc_interfaceId = mc_interfaceId candidate, rc_hops = mc_hops candidate\<rparr>))"

text \<open>Every candidate with the identity read for it and whether the signal was aborted when the read settled.\<close>

definition verify_candidates ::
    "NativePrnsManagementCandidate list \<Rightarrow> (bool \<times> NativePrnsManagementIdentity settled) list \<Rightarrow> ReticulumApplianceCandidate option settled list" where
  "verify_candidates cs ids = map2 (\<lambda>c (aborted, i). verify_candidate aborted c i) cs ids"

text \<open>\<open>Promise.all\<close>: a rejection of one verification rejects the scan, otherwise the verified candidates remain in order.\<close>

primrec settled_value :: "'a option settled \<Rightarrow> 'a option" where
  "settled_value (Fulfilled v) = v"
| "settled_value (Rejected e) = None"

definition scan_result :: "ReticulumApplianceCandidate option settled list \<Rightarrow> ReticulumApplianceCandidate list" where
  "scan_result rs = List.map_filter settled_value rs"

fun settled_rejected :: "'a settled \<Rightarrow> bool" where
  "settled_rejected (Rejected e) = True"
| "settled_rejected (Fulfilled v) = False"

text \<open>The body of a public method after the first \<open>await\<close>; a scan also reads its signal, below.\<close>

definition gate_opens :: "'st native_bridge \<Rightarrow> nat \<Rightarrow> client_op \<Rightarrow> 'st nclient \<Rightarrow> 'st nclient" where
  "gate_opens b t op s =
     (case op of
        CallOp m args onboarding \<Rightarrow> call_begins t m onboarding s
      | ProfilesOp \<Rightarrow>
          set_pc t (Settled (case client_profiles b s of Rejected e \<Rightarrow> Rejected e | Fulfilled c \<Rightarrow> Fulfilled (CatalogValue c))) s
      | BeginAddOp \<Rightarrow>
          set_pc t (Settled (case requiredRuntime s of Rejected e \<Rightarrow> Rejected e | Fulfilled _ \<Rightarrow> Fulfilled NoContent)) s
      | OnboardingOp \<Rightarrow>
          set_pc t (case client_profiles b s of Rejected e \<Rightarrow> Settled (Rejected e) | Fulfilled c \<Rightarrow> ViewPending c) s
      | StageOp img version \<Rightarrow> ota_begins b t (\<lambda>d. OtaStaged d version) s
      | RebootOp \<Rightarrow> ota_begins b t OtaRebooted s
      | ScanOp \<Rightarrow> s
      | StartOnboardingOp candidate \<Rightarrow> startOnboarding_begins t candidate s
      | ActivateOp key \<Rightarrow> activateProfileSerialized b t key s
      | ForgetOp key \<Rightarrow> forgetProfileSerialized b t key s)"

definition supportsNativeFeatures :: "'st nclient \<Rightarrow> bool" where
  "supportsNativeFeatures s \<longleftrightarrow> \<not> nc_disposed s \<and> nc_runtime s"

text \<open>The public methods that start with the gate; the two chained ones do not.\<close>

fun gated_method :: "client_op \<Rightarrow> bool" where
  "gated_method (ActivateOp key) = False"
| "gated_method (ForgetOp key) = False"
| "gated_method (CallOp m args onboarding) = (\<not> onboarding)"
| "gated_method _ = True"

section \<open>Steps\<close>

definition at_pc :: "'st nclient \<Rightarrow> nat \<Rightarrow> nc_pc \<Rightarrow> bool" where
  "at_pc s t pc \<longleftrightarrow> t < length (nc_tasks s) \<and> nc_tasks s ! t = pc"

inductive nclient_step :: "'st native_bridge \<Rightarrow> 'st nclient \<Rightarrow> 'st nclient \<Rightarrow> bool" for b where
  nc_bootstrap: "nclient_step b s (bootstrapSession s)"
| nc_call: "gated_method op \<Longrightarrow> nclient_step b s (new_task (Gate op) s)"
| nc_activate: "nclient_step b s (activateProfile key s)"
| nc_forget: "nclient_step b s (forgetProfile key s)"
| nc_dispose: "nclient_step b s (client_dispose s)"
| nc_join: "\<lbrakk>at_pc s t (BootJoin u); opening_settled (nc_tasks s ! u) = Some out\<rbrakk> \<Longrightarrow>
     nclient_step b s (set_pc t (Settled out) s)"
| nc_loaded: "at_pc s t BootLoad \<Longrightarrow> nclient_step b s (open_after_load t loaded closing s)"
| nc_boot_acquired: "\<lbrakk>at_pc s t (BootAcquire a); acquired b a s = Some r\<rbrakk> \<Longrightarrow>
     nclient_step b s (open_after_acquire t a r s)"
| nc_boot_finish: "at_pc s t (BootFinish out) \<Longrightarrow> nclient_step b s (bootstrap_finish t out s)"
| nc_opener: "\<lbrakk>a \<in> set (nc_own s); aq_phase (ex_acqs (nc_ex s) ! a) = AwaitPredecessor;
     ownershipTail_resolved (ex_acqs (nc_ex s)) a\<rbrakk> \<Longrightarrow> nclient_step b s (client_opener b a s)"
| nc_chained: "\<lbrakk>at_pc s t (Tail op); tail_settled s t\<rbrakk> \<Longrightarrow> nclient_step b s (serialized_begins t op s)"
| nc_gate: "\<lbrakk>at_pc s t (Gate op); op \<noteq> ScanOp\<rbrakk> \<Longrightarrow> nclient_step b s (gate_opens b t op s)"
| nc_scan: "at_pc s t (Gate ScanOp) \<Longrightarrow> nclient_step b s (scan_begins t aborted candidates s)"
| nc_closed: "at_pc s t (SwitchClose goal previous a) \<Longrightarrow>
     nclient_step b s (set_pc t (SwitchClosed goal previous r) (owner_closed a r s))"
| nc_after_close: "at_pc s t (SwitchClosed goal previous r) \<Longrightarrow>
     nclient_step b s (switch_after_close b t goal previous r s)"
| nc_after_open: "\<lbrakk>at_pc s t (SwitchOpen goal previous a); acquired b a s = Some r\<rbrakk> \<Longrightarrow>
     nclient_step b s (switch_after_open b t goal previous a r s)"
| nc_after_restore: "\<lbrakk>at_pc s t (SwitchRestore goal e a); acquired b a s = Some r\<rbrakk> \<Longrightarrow>
     nclient_step b s (switch_after_restore t goal e a r s)"
| nc_public: "at_pc s t (OnbPublic d l) \<Longrightarrow> nclient_step b s (onboarding_after_public t d l i s)"
| nc_probe: "at_pc s t (OnbProbe d l) \<Longrightarrow> nclient_step b s (onboarding_after_probe t d l i s)"
| nc_enroll: "at_pc s t (OnbEnroll d l) \<Longrightarrow> nclient_step b s (onboarding_after_enroll t d l r s)"
| nc_authorize: "at_pc s t (OnbAuthorize d l) \<Longrightarrow> nclient_step b s (onboarding_after_authorize b t d l i s)"
| nc_call_settles: "at_pc s t (CallPending m onboarding) \<Longrightarrow> nclient_step b s (call_settles b t m onboarding reply s)"
| nc_ota_settles: "at_pc s t OtaPending \<Longrightarrow>
     nclient_step b s (set_pc t (Settled (ota_outcome r)) s)"
| nc_view: "at_pc s t (ViewPending catalog) \<Longrightarrow>
     nclient_step b s (set_pc t (Settled (Fulfilled (OnboardingValue (onboarding_view catalog s)))) s)"
| nc_scan_fails: "\<lbrakk>at_pc s t (ScanPending cs); c \<in> set cs; verify_candidate aborted c i = Rejected e\<rbrakk> \<Longrightarrow>
     nclient_step b s (set_pc t (Settled (Rejected e)) s)"
| nc_scan_settles: "\<lbrakk>at_pc s t (ScanPending cs); length ids = length cs;
     \<not> list_ex settled_rejected (verify_candidates cs ids)\<rbrakk> \<Longrightarrow>
     nclient_step b s (set_pc t (Settled (Fulfilled (CandidatesValue (scan_result (verify_candidates cs ids))))) s)"
| nc_dispose_closed: "at_pc s t (DisposeClose loaded a) \<Longrightarrow>
     nclient_step b s (set_pc t (DisposeClosed loaded) (owner_closed a r s))"
| nc_dispose_runtime: "at_pc s t (DisposeClosed loaded) \<Longrightarrow> nclient_step b s (dispose_runtime b t loaded s)"
| nc_other: "\<lbrakk>exclusive_step (nc_ex s) e; \<forall>a\<in>set (nc_own s). ex_acqs e ! a = ex_acqs (nc_ex s) ! a\<rbrakk> \<Longrightarrow>
     nclient_step b s (s\<lparr>nc_ex := e\<rparr>)"

end
