(* ===== verification/NativeClientProofs.thy ===== *)
theory NativeClientProofs
  imports NativeClient
begin

text \<open>
  What the native client guarantees. The client refines the ownership protocol: every step of the client
  is a sequence of protocol steps on its view, so the protocol's guarantees hold for the native side. The
  other properties are about serial profile switches, verified enrolment, faults and disposal.
\<close>

section \<open>Refinement of the ownership protocol\<close>

fun pc_ref :: "nc_pc \<Rightarrow> acq_ref option" where
  "pc_ref (BootAcquire a) = Some (Acquiring a)"
| "pc_ref (SwitchOpen goal previous a) = Some (Acquiring a)"
| "pc_ref (SwitchRestore goal e a) = Some (Acquiring a)"
| "pc_ref (SwitchClose goal previous a) = Some (Closing a)"
| "pc_ref (DisposeClose loaded a) = Some (Closing a)"
| "pc_ref _ = None"

primrec owner_event_of :: "native_event \<Rightarrow> owner_event list" where
  "owner_event_of (Owner e) = [e]"
| "owner_event_of (ProfileActivated k) = []"
| "owner_event_of (ProfileForgotten k) = []"
| "owner_event_of (ProfileRemembered m l) = []"
| "owner_event_of (PublicIdentityRead d i) = []"
| "owner_event_of (ManagementIdentityRead d i) = []"
| "owner_event_of (EnrollRequested d) = []"
| "owner_event_of RuntimeLoaded = []"
| "owner_event_of PrnsClosed = []"
| "owner_event_of ProfileStoreDestroyed = []"
| "owner_event_of (OtaStaged d v) = []"
| "owner_event_of (OtaRebooted d) = []"

definition owner_events :: "native_event list \<Rightarrow> owner_event list" where
  "owner_events trail = concat (map owner_event_of trail)"

definition owner_view :: "'st nclient \<Rightarrow> owner_protocol" where
  "owner_view s = \<lparr>op_ex = nc_ex s, op_own = nc_own s, op_owner = nc_ownership s,
     op_refs = map pc_ref (nc_tasks s), op_events = owner_events (nc_log s)\<rparr>"

lemma owner_events_simps [simp]:
  "owner_events [] = []" "owner_events (e # es) = owner_event_of e @ owner_events es"
  "owner_events (es @ fs) = owner_events es @ owner_events fs" "owner_events (map Owner os) = os"
  by (induction os) (simp_all add: owner_events_def)

lemma owner_view_sel [simp]:
  "op_ex (owner_view s) = nc_ex s" "op_own (owner_view s) = nc_own s" "op_owner (owner_view s) = nc_ownership s"
  "op_refs (owner_view s) = map pc_ref (nc_tasks s)" "op_events (owner_view s) = owner_events (nc_log s)"
  by (simp_all add: owner_view_def)

lemma owner_view_update [simp]:
  "owner_view (s\<lparr>nc_opening := x1\<rparr>) = owner_view s"
  "owner_view (s\<lparr>nc_ownerFault := x2\<rparr>) = owner_view s"
  "owner_view (s\<lparr>nc_switches := x3\<rparr>) = owner_view s"
  "owner_view (s\<lparr>nc_runtime := x4\<rparr>) = owner_view s"
  "owner_view (s\<lparr>nc_enrollmentDestination := x5\<rparr>) = owner_view s"
  "owner_view (s\<lparr>nc_disposed := x6\<rparr>) = owner_view s"
  "owner_view (s\<lparr>nc_store := x7\<rparr>) = owner_view s"
  by (simp_all add: owner_view_def)

lemma owner_view_log: "owner_view (add_log es s) = (owner_view s)\<lparr>op_events := owner_events (nc_log s) @ owner_events es\<rparr>"
  by (simp add: owner_view_def add_log_def)

lemma owner_view_log_same [simp]: "owner_events es = [] \<Longrightarrow> owner_view (add_log es s) = owner_view s"
  by (simp add: owner_view_log)

lemma owner_view_set_pc: "owner_view (set_pc t pc s) = (owner_view s)\<lparr>op_refs := (map pc_ref (nc_tasks s))[t := pc_ref pc]\<rparr>"
  by (simp add: owner_view_def set_pc_def map_update)

lemma owner_view_new_task: "owner_view (new_task pc s) = (owner_view s)\<lparr>op_refs := map pc_ref (nc_tasks s) @ [pc_ref pc]\<rparr>"
  by (simp add: owner_view_def new_task_def)

text \<open>Task \<open>t\<close> exists and holds no acquisition.\<close>

definition free_task :: "'st nclient \<Rightarrow> nat \<Rightarrow> bool" where
  "free_task s t \<longleftrightarrow> t < length (nc_tasks s) \<and> pc_ref (nc_tasks s ! t) = None"

lemma free_task_update [simp]:
  "free_task (s\<lparr>nc_opening := x1\<rparr>) t = free_task s t"
  "free_task (s\<lparr>nc_ownerFault := x2\<rparr>) t = free_task s t"
  "free_task (s\<lparr>nc_switches := x3\<rparr>) t = free_task s t"
  "free_task (s\<lparr>nc_runtime := x4\<rparr>) t = free_task s t"
  "free_task (s\<lparr>nc_enrollmentDestination := x5\<rparr>) t = free_task s t"
  "free_task (s\<lparr>nc_disposed := x6\<rparr>) t = free_task s t"
  "free_task (s\<lparr>nc_store := x7\<rparr>) t = free_task s t"
  "free_task (add_log es s) t = free_task s t"
  by (simp_all add: free_task_def add_log_def)

lemma set_pc_free: "free_task s t \<Longrightarrow> pc_ref pc = None \<Longrightarrow> owner_view (set_pc t pc s) = owner_view s"
  by (simp add: owner_view_set_pc free_task_def) (simp add: owner_view_def list_update_same_conv)

lemma onboarding_ends_free: "free_task s t \<Longrightarrow> owner_view (onboarding_ends t out s) = owner_view s"
  by (simp add: onboarding_ends_def set_pc_free)

lemma switch_fails_free: "free_task s t \<Longrightarrow> owner_view (switch_fails t goal e s) = owner_view s"
  by (simp add: switch_fails_def set_pc_free onboarding_ends_free split: switch_goal.splits)

lemma acquireAppliance_refines:
  assumes "free_task s t" and "\<And>a. pc_ref (waiting a) = Some (Acquiring a)"
  shows "own_step (owner_view s) (owner_view (acquireAppliance t waiting s))"
proof -
  have "owner_view (acquireAppliance t waiting s) = (owner_view s)\<lparr>op_ex := acquireExclusiveResource (nc_ex s),
      op_own := nc_own s @ [length (ex_acqs (nc_ex s))],
      op_refs := (map pc_ref (nc_tasks s))[t := Some (Acquiring (length (ex_acqs (nc_ex s))))]\<rparr>"
    using assms(2) by (simp add: acquireAppliance_def owner_view_def set_pc_def map_update Let_def)
  with own_step.os_acquire [of t "owner_view s"] assms(1) show ?thesis by (simp add: free_task_def)
qed

lemma release_refines:
  assumes "free_task s t" and "nc_ownership s = Some a" and "pc_ref pc = Some (Closing a)"
  shows "own_step (owner_view s) (owner_view (set_pc t pc (release_owner a s)))"
proof -
  have "owner_view (set_pc t pc (release_owner a s)) = (owner_view s)\<lparr>op_owner := None, op_ex := ex_release a (nc_ex s),
      op_refs := (map pc_ref (nc_tasks s))[t := Some (Closing a)], op_events := owner_events (nc_log s) @ [NativeClosing a]\<rparr>"
    using assms(3) by (simp add: release_owner_def owner_view_def set_pc_def add_log_def map_update)
  with own_step.os_release [of t "owner_view s" a] assms(1,2) show ?thesis by (simp add: free_task_def)
qed

lemma closed_refines:
  assumes "t < length (nc_tasks s)" and "pc_ref (nc_tasks s ! t) = Some (Closing a)" and "pc_ref pc = None"
  shows "own_step (owner_view s) (owner_view (set_pc t pc (owner_closed a r s)))"
proof -
  have "owner_view (set_pc t pc (owner_closed a r s)) = (owner_view s)\<lparr>op_ex := ex_close_settles a r (nc_ex s),
      op_refs := (map pc_ref (nc_tasks s))[t := None], op_events := owner_events (nc_log s) @ [NativeDestroyed a]\<rparr>"
    using assms(3) by (simp add: owner_closed_def owner_view_def set_pc_def add_log_def map_update)
  with own_step.os_close [of t "owner_view s" a r] assms(1,2) show ?thesis by simp
qed

text \<open>A resumed acquisition: the task either takes the appliance or gives up its place.\<close>

lemma take_refines:
  assumes "t < length (nc_tasks s)" and "pc_ref (nc_tasks s ! t) = Some (Acquiring a)"
    and "acquired b a s = Some (Fulfilled u)" and "pc_ref pc = None"
  shows "own_step (owner_view s) (owner_view (set_pc t pc (take_ownership a s)))"
proof -
  obtain v where v: "aq_phase (ex_acqs (nc_ex s) ! a) = Returned v"
    using assms(3) by (auto simp: acquired_def split: acquisition_phase.splits)
  have "owner_view (set_pc t pc (take_ownership a s)) =
      (owner_view s)\<lparr>op_owner := Some a, op_refs := (map pc_ref (nc_tasks s))[t := None]\<rparr>"
    using assms(4) by (simp add: take_ownership_def owner_view_def set_pc_def map_update)
  with own_step.os_take [of t "owner_view s" a v] assms(1,2) v show ?thesis by (simp add: op_phase_def)
qed

lemma give_up_refines:
  assumes "t < length (nc_tasks s)" and "pc_ref (nc_tasks s ! t) = Some (Acquiring a)"
    and "acquired b a s = Some (Rejected e)" and "pc_ref pc = None"
  shows "own_step (owner_view s) (owner_view (set_pc t pc s))"
proof -
  obtain e' where e: "aq_phase (ex_acqs (nc_ex s) ! a) = OpenFailed e'"
    using assms(3) by (auto simp: acquired_def split: acquisition_phase.splits)
  with own_step.os_failed [of t "owner_view s" a e'] assms show ?thesis
    by (simp add: op_phase_def owner_view_set_pc)
qed

lemma opener_refines:
  assumes "a \<in> set (nc_own s)" and "aq_phase (ex_acqs (nc_ex s) ! a) = AwaitPredecessor"
    and "ownershipTail_resolved (ex_acqs (nc_ex s)) a"
  shows "own_step (owner_view s) (owner_view (client_opener b a s))"
proof -
  obtain r st where o: "nb_open b (nc_store s) = (r, st)" by (cases "nb_open b (nc_store s)")
  define r' where "r' = (if nc_disposed s then Rejected disposed_error else r)"
  have "owner_view (client_opener b a s) =
      (owner_view s)\<lparr>op_ex := run_opener a r' (nc_ex s), op_events := owner_events (nc_log s) @ opened_event a r'\<rparr>"
    by (simp add: client_opener_def o r'_def owner_view_def add_log_def opened_event_def)
  with own_step.os_open [of a "owner_view s" r'] assms show ?thesis by (simp add: op_phase_def)
qed

text \<open>The restoring branch: giving up the failed acquisition, if there is one, and joining the queue again.\<close>

lemma acquireAppliance_over: "acquireAppliance t w (set_pc t pc s) = acquireAppliance t w s"
  by (simp add: acquireAppliance_def set_pc_def Let_def)

lemma switch_restore_over: "switch_restore b t goal previous e (set_pc t pc s) = switch_restore b t goal previous e s"
  by (simp add: switch_restore_def set_pc_def acquireAppliance_def add_log_def Let_def split: option.splits)

lemma switch_restore_refines:
  assumes "free_task s t"
  shows "own_step (owner_view s) (owner_view (switch_restore b t goal previous e s))"
proof -
  define s' where "s' = (case restores goal previous of None \<Rightarrow> s
    | Some p \<Rightarrow> add_log [ProfileActivated p] (s\<lparr>nc_store := snd (nb_activateProfile b p (nc_store s))\<rparr>))"
  have "free_task s' t" "owner_view s' = owner_view s"
    using assms by (auto simp: s'_def split: option.splits)
  then show ?thesis
    using acquireAppliance_refines [of s' t "SwitchRestore goal e"] by (simp add: switch_restore_def s'_def)
qed

lemma closeAppliance_refines:
  assumes "free_task s t"
  shows "own_step\<^sup>*\<^sup>* (owner_view s) (owner_view (closeAppliance t goal previous s))"
proof (cases "nc_ownership s")
  case None
  with assms show ?thesis by (simp add: closeAppliance_def set_pc_free)
next
  case (Some a)
  with assms show ?thesis by (simp add: closeAppliance_def release_refines r_into_rtranclp)
qed

lemma switch_after_close_refines:
  assumes "free_task s t"
  shows "own_step\<^sup>*\<^sup>* (owner_view s) (owner_view (switch_after_close b t goal previous r s))"
proof (cases r)
  case (Rejected e)
  with assms show ?thesis by (simp add: switch_after_close_def switch_fails_free)
next
  case (Fulfilled u)
  obtain q s' where q: "switch_select b goal s = (q, s')" by (cases "switch_select b goal s")
  then have s': "free_task s' t" "owner_view s' = owner_view s"
    using assms by (auto simp: switch_select_def split: switch_goal.splits prod.splits)
  show ?thesis
  proof (cases q)
    case (Fulfilled v)
    have "own_step (owner_view s') (owner_view (acquireAppliance t (SwitchOpen goal previous) s'))"
      by (rule acquireAppliance_refines [OF s'(1)]) simp
    with Fulfilled q \<open>r = Fulfilled u\<close> s'(2) show ?thesis by (simp add: switch_after_close_def r_into_rtranclp)
  next
    case (Rejected e)
    with q \<open>r = Fulfilled u\<close> switch_restore_refines [OF s'(1)] s'(2) show ?thesis
      by (simp add: switch_after_close_def r_into_rtranclp)
  qed
qed

lemma switch_after_open_refines:
  assumes "at_pc s t (SwitchOpen goal previous a)" and "acquired b a s = Some r"
  shows "own_step\<^sup>*\<^sup>* (owner_view s) (owner_view (switch_after_open b t goal previous a r s))"
proof -
  have t: "t < length (nc_tasks s)" "pc_ref (nc_tasks s ! t) = Some (Acquiring a)" using assms(1) by (auto simp: at_pc_def)
  show ?thesis
  proof (cases r)
    case (Fulfilled u)
    with take_refines [OF t] assms(2) show ?thesis
      by (cases goal) (auto simp: switch_after_open_def switch_succeeds_def intro!: r_into_rtranclp)
  next
    case (Rejected e)
    define s' where "s' = set_pc t (Settled (Rejected e)) s"
    have "own_step (owner_view s) (owner_view s')" unfolding s'_def
      by (rule give_up_refines [OF t]) (use assms(2) Rejected in auto)
    moreover have "free_task s' t" using t by (simp add: s'_def free_task_def set_pc_def)
    then have "own_step (owner_view s') (owner_view (switch_restore b t goal previous e s'))"
      by (rule switch_restore_refines)
    ultimately show ?thesis using Rejected by (simp add: switch_after_open_def s'_def switch_restore_over)
  qed
qed

lemma switch_after_restore_refines:
  assumes "at_pc s t (SwitchRestore goal e a)" and "acquired b a s = Some r"
  shows "own_step\<^sup>*\<^sup>* (owner_view s) (owner_view (switch_after_restore t goal e a r s))"
proof -
  have t: "t < length (nc_tasks s)" "pc_ref (nc_tasks s ! t) = Some (Acquiring a)" using assms(1) by (auto simp: at_pc_def)
  show ?thesis
  proof (cases r)
    case (Fulfilled u)
    have "own_step (owner_view s) (owner_view (set_pc t (Settled (Rejected e)) (take_ownership a s)))"
      using take_refines [OF t] assms(2) Fulfilled by simp
    moreover have "owner_view (switch_fails t goal e (take_ownership a s)) =
        owner_view (set_pc t (Settled (Rejected e)) (take_ownership a s))"
      by (cases goal) (simp_all add: switch_fails_def onboarding_ends_def owner_view_set_pc)
    ultimately show ?thesis using Fulfilled by (simp add: switch_after_restore_def r_into_rtranclp)
  next
    case (Rejected e')
    have "own_step (owner_view s) (owner_view (set_pc t (Settled (Rejected e)) s))"
      using give_up_refines [OF t] assms(2) Rejected by simp
    moreover have "owner_view (switch_fails t goal f (s\<lparr>nc_ownerFault := Some f\<rparr>)) =
        owner_view (set_pc t (Settled (Rejected e)) s)" for f
      by (cases goal) (simp_all add: switch_fails_def onboarding_ends_def owner_view_set_pc)
    ultimately show ?thesis using Rejected by (simp add: switch_after_restore_def r_into_rtranclp)
  qed
qed

lemma free_task_at: "at_pc s t pc \<Longrightarrow> pc_ref pc = None \<Longrightarrow> free_task s t"
  by (auto simp: at_pc_def free_task_def)

lemma new_task_refines: "pc_ref pc = None \<Longrightarrow> own_step (owner_view s) (owner_view (new_task pc s))"
  using own_step.os_spawn [of "owner_view s"] by (simp add: owner_view_new_task)

lemma free_new_task: "pc_ref pc = None \<Longrightarrow> free_task (new_task pc s) (length (nc_tasks s))"
  by (simp add: free_task_def new_task_def nth_append)

lemma bootstrapSession_refines: "own_step\<^sup>*\<^sup>* (owner_view s) (owner_view (bootstrapSession s))"
proof -
  define s' where "s' = (new_task BootLoad s)\<lparr>nc_opening := Some (length (nc_tasks s))\<rparr>"
  have 1: "own_step (owner_view s) (owner_view s')" by (simp add: s'_def new_task_refines)
  have "free_task s' (length (nc_tasks s))" by (simp add: s'_def free_new_task)
  then have 2: "own_step (owner_view s') (owner_view (acquireAppliance (length (nc_tasks s)) BootAcquire s'))"
    by (rule acquireAppliance_refines) simp
  have "\<exists>pc. pc_ref pc = None \<and> bootstrapSession s = new_task pc s
      \<or> bootstrapSession s = s' \<or> bootstrapSession s = acquireAppliance (length (nc_tasks s)) BootAcquire s'"
    unfolding bootstrapSession_def Let_def s'_def [symmetric] by (auto split: option.splits) force+
  then show ?thesis using 1 2 new_task_refines [of _ s] by (auto intro: r_into_rtranclp converse_rtranclp_into_rtranclp)
qed

lemma chain_switch_refines: "own_step\<^sup>*\<^sup>* (owner_view s) (owner_view (chain_switch op key s))"
  by (auto simp: chain_switch_def new_task_refines split: settled.splits intro!: r_into_rtranclp)

lemma client_dispose_refines: "own_step\<^sup>*\<^sup>* (owner_view s) (owner_view (client_dispose s))"
proof (cases "nc_disposed s")
  case False
  define s1 where "s1 = (new_task (DisposeClosed (nc_runtime s)) s)\<lparr>nc_disposed := True, nc_runtime := False, nc_ownerFault := None\<rparr>"
  have 1: "own_step (owner_view s) (owner_view s1)" by (simp add: s1_def new_task_refines)
  show ?thesis
  proof (cases "nc_ownership s")
    case None
    then have "client_dispose s = s1" using False by (simp add: client_dispose_def s1_def new_task_def)
    with 1 show ?thesis by (simp add: r_into_rtranclp)
  next
    case (Some a)
    have "client_dispose s = set_pc (length (nc_tasks s)) (DisposeClose (nc_runtime s) a) (release_owner a s1)"
      using False Some by (simp add: client_dispose_def s1_def Let_def release_owner_def new_task_def add_log_def set_pc_def)
    moreover have "own_step (owner_view s1) (owner_view (set_pc (length (nc_tasks s)) (DisposeClose (nc_runtime s) a) (release_owner a s1)))"
      by (rule release_refines) (use Some in \<open>simp_all add: s1_def free_new_task\<close>, simp add: new_task_def)
    ultimately show ?thesis using 1 by simp
  qed
qed (simp add: client_dispose_def)

lemma open_after_load_refines:
  assumes "free_task s t"
  shows "own_step\<^sup>*\<^sup>* (owner_view s) (owner_view (open_after_load t loaded closing s))"
proof -
  have discard: "owner_view (discard_runtime t closing e s) = owner_view s" for e
    using assms by (simp add: discard_runtime_def set_pc_free split: settled.splits)
  have "own_step (owner_view s') (owner_view (acquireAppliance t BootAcquire s'))" if "free_task s' t" for s' :: "'a nclient"
    by (rule acquireAppliance_refines [OF that]) simp
  from this [of "add_log [RuntimeLoaded] (s\<lparr>nc_runtime := True, nc_store := st\<rparr>)" for st]
  have "own_step (owner_view s) (owner_view (acquireAppliance t BootAcquire (add_log [RuntimeLoaded] (s\<lparr>nc_runtime := True, nc_store := st\<rparr>))))" for st
    using assms by simp
  then show ?thesis
    using assms by (auto simp: open_after_load_def discard set_pc_free split: settled.splits prod.splits intro!: r_into_rtranclp)
qed

lemma open_after_acquire_refines:
  assumes "at_pc s t (BootAcquire a)" and "acquired b a s = Some r"
  shows "own_step\<^sup>*\<^sup>* (owner_view s) (owner_view (open_after_acquire t a r s))"
proof -
  have t: "t < length (nc_tasks s)" "pc_ref (nc_tasks s ! t) = Some (Acquiring a)" using assms(1) by (auto simp: at_pc_def)
  show ?thesis
    using take_refines [OF t] give_up_refines [OF t] assms(2)
    by (cases r) (auto simp: open_after_acquire_def intro!: r_into_rtranclp)
qed

lemma call_begins_refines:
  assumes "free_task s t"
  shows "own_step\<^sup>*\<^sup>* (owner_view s) (owner_view (call_begins t m onboarding s))"
proof (cases "client_active s")
  case (Rejected e)
  with assms show ?thesis by (simp add: call_begins_def onboarding_ends_free set_pc_free)
next
  case (Fulfilled a)
  then have "nc_ownership s = Some a" by (auto simp: client_active_def split: settled.splits option.splits)
  then have "own_step (owner_view s) (owner_view (add_log [Owner (NativeOperation a)] s))"
    using own_step.os_operate [of "owner_view s" a] by (simp add: owner_view_log)
  with Fulfilled assms show ?thesis by (simp add: call_begins_def set_pc_free r_into_rtranclp)
qed

text \<open>The bodies that never touch the appliance.\<close>

lemma quiet_bodies:
  assumes "free_task s t"
  shows "owner_view (startOnboarding_begins t candidate s) = owner_view s"
    and "owner_view (onboarding_after_public t d l i s) = owner_view s"
    and "owner_view (onboarding_after_probe t d l i s) = owner_view s"
    and "owner_view (onboarding_after_enroll t d l r s) = owner_view s"
    and "owner_view (forgetProfileSerialized b t key s) = owner_view s"
    and "owner_view (scan_begins t aborted candidates s) = owner_view s"
    and "owner_view (call_settles b t m onboarding reply s) = owner_view s"
    and "owner_view (serialized_begins t op s) = owner_view s"
    and "owner_view (dispose_runtime b t loaded s) = owner_view s"
    and "owner_view (bootstrap_finish t out s) = owner_view s"
  using assms
  by (auto simp: startOnboarding_begins_def onboarding_after_public_def onboarding_after_probe_def
      onboarding_after_enroll_def forgetProfileSerialized_def scan_begins_def call_settles_def
      serialized_begins_def dispose_runtime_def bootstrap_finish_def Let_def set_pc_free onboarding_ends_free
      split: option.splits settled.splits prod.splits)

lemma ota_begins_quiet:
  assumes "free_task s t" and "\<And>d. owner_event_of (event d) = []"
  shows "owner_view (ota_begins b t event s) = owner_view s"
  using assms by (simp add: ota_begins_def set_pc_free split: settled.splits)

lemma activateProfileSerialized_refines:
  assumes "free_task s t"
  shows "own_step\<^sup>*\<^sup>* (owner_view s) (owner_view (activateProfileSerialized b t key s))"
  using assms closeAppliance_refines [OF assms]
  by (auto simp: activateProfileSerialized_def set_pc_free split: settled.splits)

lemma onboarding_after_authorize_refines:
  assumes "free_task s t"
  shows "own_step\<^sup>*\<^sup>* (owner_view s) (owner_view (onboarding_after_authorize b t d l i s))"
proof -
  have "own_step\<^sup>*\<^sup>* (owner_view s) (owner_view (rememberAndOpen b t d l (add_log [ManagementIdentityRead d j] s)))" for j
    using assms closeAppliance_refines [of "add_log [ManagementIdentityRead d j] s" t]
    by (auto simp: rememberAndOpen_def onboarding_ends_free split: settled.splits)
  then show ?thesis
    using assms by (auto simp: onboarding_after_authorize_def Let_def onboarding_ends_free split: settled.splits)
qed

lemma gate_opens_refines:
  assumes "free_task s t"
  shows "own_step\<^sup>*\<^sup>* (owner_view s) (owner_view (gate_opens b t op s))"
  using assms call_begins_refines [OF assms] activateProfileSerialized_refines [OF assms]
  by (cases op) (auto simp: gate_opens_def quiet_bodies ota_begins_quiet set_pc_free split: settled.splits)

lemma nclient_step_refines: "nclient_step b s s' \<Longrightarrow> own_step\<^sup>*\<^sup>* (owner_view s) (owner_view s')"
proof (induction rule: nclient_step.induct)
  case (nc_call op s)
  then show ?case by (intro r_into_rtranclp new_task_refines) simp
next
  case (nc_opener a s)
  then show ?case by (intro r_into_rtranclp opener_refines)
next
  case (nc_closed s t goal previous a r)
  then show ?case by (intro r_into_rtranclp closed_refines) (auto simp: at_pc_def)
next
  case (nc_dispose_closed s t loaded a r)
  then show ?case by (intro r_into_rtranclp closed_refines) (auto simp: at_pc_def)
next
  case (nc_other s e)
  have eq: "owner_view (s\<lparr>nc_ex := e\<rparr>) = (owner_view s)\<lparr>op_ex := e\<rparr>" by (simp add: owner_view_def)
  show ?case
    unfolding eq by (intro r_into_rtranclp own_step.os_other) (use nc_other in simp_all)
qed (auto simp: activateProfile_def forgetProfile_def quiet_bodies set_pc_free free_task_at
    intro: bootstrapSession_refines chain_switch_refines client_dispose_refines new_task_refines
      open_after_load_refines open_after_acquire_refines gate_opens_refines switch_after_close_refines
      switch_after_open_refines switch_after_restore_refines onboarding_after_authorize_refines r_into_rtranclp)

definition client_reach :: "'st native_bridge \<Rightarrow> 'st nclient \<Rightarrow> bool" where
  "client_reach b s \<longleftrightarrow> (\<exists>e st. exclusive_step\<^sup>*\<^sup>* exclusive_new e \<and> (nclient_step b)\<^sup>*\<^sup>* (nclient_new e st) s)"

lemma reach_refines: "(nclient_step b)\<^sup>*\<^sup>* s s' \<Longrightarrow> own_step\<^sup>*\<^sup>* (owner_view s) (owner_view s')"
  by (induction rule: rtranclp_induct) (auto dest: nclient_step_refines intro: rtranclp_trans)

lemma owner_view_new: "owner_view (nclient_new e st) = owner_protocol_new e"
  by (simp add: owner_view_def nclient_new_def owner_protocol_new_def)

lemma client_reach_own_inv:
  assumes "client_reach b s"
  shows "own_inv (owner_view s)"
proof -
  obtain e st where e: "exclusive_step\<^sup>*\<^sup>* exclusive_new e" and s: "(nclient_step b)\<^sup>*\<^sup>* (nclient_new e st) s"
    using assms by (auto simp: client_reach_def)
  have "exclusive_inv e" by (rule exclusive.reach_inv [OF e exclusive_new_inv])
  then show ?thesis
    using ownership.reach_inv [OF reach_refines [OF s]] by (simp add: owner_view_new owner_protocol_new_inv)
qed

section \<open>Tasks\<close>

text \<open>A resumption changes its own task only, and never the chain of switches.\<close>

definition only_task :: "nat \<Rightarrow> 'st nclient \<Rightarrow> 'st nclient \<Rightarrow> bool" where
  "only_task t s s' \<longleftrightarrow> (\<exists>pc. nc_tasks s' = (nc_tasks s)[t := pc]) \<and> nc_switches s' = nc_switches s"

lemma only_task_set_pc: "nc_tasks s' = nc_tasks s \<Longrightarrow> nc_switches s' = nc_switches s \<Longrightarrow> only_task t s (set_pc t pc s')"
  by (auto simp: only_task_def set_pc_def)

lemma log_tasks [simp]: "nc_tasks (add_log es s) = nc_tasks s" "nc_switches (add_log es s) = nc_switches s"
  by (simp_all add: add_log_def)

lemma owner_tasks [simp]:
  "nc_tasks (take_ownership a s) = nc_tasks s" "nc_switches (take_ownership a s) = nc_switches s"
  "nc_tasks (release_owner a s) = nc_tasks s" "nc_switches (release_owner a s) = nc_switches s"
  "nc_tasks (owner_closed a r s) = nc_tasks s" "nc_switches (owner_closed a r s) = nc_switches s"
  by (simp_all add: take_ownership_def release_owner_def owner_closed_def)

lemma only_task_onboarding_ends: "nc_tasks s' = nc_tasks s \<Longrightarrow> nc_switches s' = nc_switches s \<Longrightarrow> only_task t s (onboarding_ends t out s')"
  by (simp add: onboarding_ends_def only_task_set_pc)

lemma only_task_acquire: "nc_tasks s' = nc_tasks s \<Longrightarrow> nc_switches s' = nc_switches s \<Longrightarrow> only_task t s (acquireAppliance t w s')"
  by (simp add: acquireAppliance_def Let_def only_task_set_pc)

lemma only_task_close: "nc_tasks s' = nc_tasks s \<Longrightarrow> nc_switches s' = nc_switches s \<Longrightarrow> only_task t s (closeAppliance t goal p s')"
  by (simp add: closeAppliance_def only_task_set_pc split: option.splits)

lemma only_task_restore: "nc_tasks s' = nc_tasks s \<Longrightarrow> nc_switches s' = nc_switches s \<Longrightarrow> only_task t s (switch_restore b t goal p e s')"
  by (simp add: switch_restore_def only_task_acquire split: option.splits)

lemma only_task_fails: "nc_tasks s' = nc_tasks s \<Longrightarrow> nc_switches s' = nc_switches s \<Longrightarrow> only_task t s (switch_fails t goal e s')"
  by (simp add: switch_fails_def only_task_set_pc only_task_onboarding_ends split: switch_goal.splits)

lemma only_task_succeeds: "nc_tasks s' = nc_tasks s \<Longrightarrow> nc_switches s' = nc_switches s \<Longrightarrow> only_task t s (switch_succeeds t goal s')"
  by (simp add: switch_succeeds_def only_task_set_pc split: switch_goal.splits)

lemma switch_select_tasks: "switch_select b goal s = (r, s') \<Longrightarrow> nc_tasks s' = nc_tasks s \<and> nc_switches s' = nc_switches s"
  by (auto simp: switch_select_def split: switch_goal.splits prod.splits)

lemmas only_task_intros = only_task_set_pc only_task_onboarding_ends only_task_acquire only_task_close
  only_task_restore only_task_fails only_task_succeeds

lemma only_task_switch:
  "only_task t s (switch_after_close b t goal p r s)"
  "only_task t s (switch_after_open b t goal p a r s)"
  "only_task t s (switch_after_restore t goal e a r s)"
  by (auto simp: switch_after_close_def switch_after_open_def switch_after_restore_def dest: switch_select_tasks
      intro!: only_task_intros split: settled.splits prod.splits)

lemma only_task_bodies:
  "only_task t s (open_after_load t loaded closing s)"
  "only_task t s (open_after_acquire t a r s)"
  "only_task t s (bootstrap_finish t out s)"
  "only_task t s (serialized_begins t op s)"
  "only_task t s (scan_begins t aborted candidates s)"
  "only_task t s (onboarding_after_public t d l i s)"
  "only_task t s (onboarding_after_probe t d l i s)"
  "only_task t s (onboarding_after_enroll t d l u s)"
  "only_task t s (onboarding_after_authorize b t d l i s)"
  "only_task t s (call_settles b t m onboarding reply s)"
  "only_task t s (dispose_runtime b t loaded' s)"
  by (auto simp: open_after_load_def discard_runtime_def open_after_acquire_def bootstrap_finish_def
      serialized_begins_def scan_begins_def onboarding_after_public_def onboarding_after_probe_def
      onboarding_after_enroll_def onboarding_after_authorize_def rememberAndOpen_def call_settles_def
      dispose_runtime_def Let_def intro!: only_task_intros split: settled.splits prod.splits option.splits)

lemma only_task_gate: "op \<noteq> ScanOp \<Longrightarrow> only_task t s (gate_opens b t op s)"
  by (cases op) (auto simp: gate_opens_def call_begins_def ota_begins_def startOnboarding_begins_def
      activateProfileSerialized_def forgetProfileSerialized_def
      intro!: only_task_intros split: settled.splits prod.splits option.splits)

text \<open>
  What a step does to the tasks: it starts one, which joins the chain only as a chained call; or it
  resumes one that is not settled, and a chained one only when its turn has come; or it leaves them.
\<close>

fun pc_waiting :: "nc_pc \<Rightarrow> bool" where
  "pc_waiting (Tail op) = True"
| "pc_waiting _ = False"

inductive task_step :: "'st nclient \<Rightarrow> 'st nclient \<Rightarrow> bool" where
  ts_same: "nc_tasks s' = nc_tasks s \<Longrightarrow> nc_switches s' = nc_switches s \<Longrightarrow> task_step s s'"
| ts_new: "nc_tasks s' = nc_tasks s @ [pc] \<Longrightarrow> nc_switches s' = nc_switches s \<Longrightarrow> task_step s s'"
| ts_chain: "nc_tasks s' = nc_tasks s @ [Tail op] \<Longrightarrow> nc_switches s' = nc_switches s @ [length (nc_tasks s)] \<Longrightarrow> task_step s s'"
| ts_resume: "\<lbrakk>t < length (nc_tasks s); \<not> pc_settled (nc_tasks s ! t);
     pc_waiting (nc_tasks s ! t) \<Longrightarrow> tail_settled s t; only_task t s s'\<rbrakk> \<Longrightarrow> task_step s s'"

lemma task_step_bootstrap: "task_step s (bootstrapSession s)"
proof -
  have "\<exists>pc. nc_tasks (bootstrapSession s) = nc_tasks s @ [pc]" "nc_switches (bootstrapSession s) = nc_switches s"
    by (auto simp: bootstrapSession_def new_task_def acquireAppliance_def set_pc_def Let_def split: option.splits)
  then show ?thesis by (auto intro: ts_new)
qed

lemma task_step_dispose: "task_step s (client_dispose s)"
proof (cases "nc_disposed s")
  case False
  then have "\<exists>pc. nc_tasks (client_dispose s) = nc_tasks s @ [pc]" "nc_switches (client_dispose s) = nc_switches s"
    by (auto simp: client_dispose_def new_task_def set_pc_def Let_def release_owner_def split: option.splits)
  then show ?thesis by (auto intro: ts_new)
qed (simp add: client_dispose_def ts_same)

lemma task_step_chain: "task_step s (chain_switch op key s)"
  by (auto simp: chain_switch_def new_task_def intro: ts_new ts_chain split: settled.splits)

lemma task_step_at:
  assumes "at_pc s t pc" and "\<not> pc_settled pc" and "pc_waiting pc \<Longrightarrow> tail_settled s t" and "only_task t s s'"
  shows "task_step s s'"
  by (rule ts_resume [of t]) (use assms in \<open>auto simp: at_pc_def\<close>)

lemmas task_step_resumes = only_task_bodies [THEN [4] task_step_at] only_task_switch [THEN [4] task_step_at]
  only_task_gate [THEN [4] task_step_at] only_task_set_pc [THEN [4] task_step_at]

lemma nclient_step_tasks: "nclient_step b s s' \<Longrightarrow> task_step s s'"
proof (induction rule: nclient_step.induct)
  case (nc_call op s)
  then show ?case by (intro ts_new [of _ _ "Gate op"]) (simp_all add: new_task_def)
next
  case (nc_opener a s)
  then show ?case by (intro ts_same) (auto simp: client_opener_def split: prod.splits)
next
  case (nc_other s e)
  then show ?case by (intro ts_same) auto
qed (auto simp: activateProfile_def forgetProfile_def intro: task_step_bootstrap task_step_dispose task_step_chain
    elim: task_step_resumes)

section \<open>Serial switches\<close>

definition switch_inv :: "'st nclient \<Rightarrow> bool" where
  "switch_inv s \<longleftrightarrow> sorted_wrt (<) (nc_switches s) \<and> (\<forall>t\<in>set (nc_switches s). t < length (nc_tasks s)) \<and>
     (\<forall>t\<in>set (nc_switches s). \<forall>u\<in>set (nc_switches s). u < t \<longrightarrow> \<not> pc_waiting (nc_tasks s ! t) \<longrightarrow>
        pc_settled (nc_tasks s ! u))"

lemma takeWhile_sorted:
  "sorted_wrt (<) xs \<Longrightarrow> (t::nat) \<in> set xs \<Longrightarrow> set (takeWhile (\<lambda>u. u \<noteq> t) xs) = {u \<in> set xs. u < t}"
  by (induction xs) auto

lemma tail_settled_iff:
  "switch_inv s \<Longrightarrow> t \<in> set (nc_switches s) \<Longrightarrow>
    tail_settled s t \<longleftrightarrow> (\<forall>u\<in>set (nc_switches s). u < t \<longrightarrow> pc_settled (nc_tasks s ! u))"
  by (auto simp: tail_settled_def list_all_iff switch_inv_def takeWhile_sorted)

lemma task_step_switch_inv: "task_step s s' \<Longrightarrow> switch_inv s \<Longrightarrow> switch_inv s'"
proof (induction rule: task_step.induct)
  case (ts_chain s' s op)
  then show ?case by (auto simp: switch_inv_def sorted_wrt_append nth_append)
next
  case (ts_resume t s s')
  obtain pc where pc: "nc_tasks s' = (nc_tasks s)[t := pc]" and sw: "nc_switches s' = nc_switches s"
    using ts_resume by (auto simp: only_task_def)
  have settled: "pc_settled (nc_tasks s' ! u)" if "pc_settled (nc_tasks s ! u)" for u
    using that ts_resume(2) pc by (cases "u = t") auto
  have "pc_settled (nc_tasks s' ! u)" if "u \<in> set (nc_switches s)" "v \<in> set (nc_switches s)" "u < v"
    "\<not> pc_waiting (nc_tasks s' ! v)" for u v
  proof (cases "v = t \<and> pc_waiting (nc_tasks s ! t)")
    case True
    then have "pc_settled (nc_tasks s ! u)"
      using ts_resume that(1-3) by (auto simp: tail_settled_iff)
    then show ?thesis by (rule settled)
  next
    case False
    then have "\<not> pc_waiting (nc_tasks s ! v)" using that(4) pc by (cases "v = t") auto
    then show ?thesis using ts_resume(5) that(1-3) settled by (auto simp: switch_inv_def)
  qed
  then show ?case using ts_resume(5) pc sw by (auto simp: switch_inv_def)
qed (auto simp: switch_inv_def nth_append)

interpretation switches: step_invariant "nclient_step b" switch_inv for b :: "'st native_bridge"
  by unfold_locales (auto intro: task_step_switch_inv nclient_step_tasks)

lemma nclient_new_switch_inv: "switch_inv (nclient_new e st)"
  by (simp add: switch_inv_def nclient_new_def)

text \<open>
  An activation or removal that is under way, by where its task stands: it waits in the chain, is about to
  run, or closes, selects and opens for an activation.
\<close>

fun pc_switch :: "nc_pc \<Rightarrow> bool" where
  "pc_switch (Tail op) = True"
| "pc_switch (Gate (ActivateOp key)) = True"
| "pc_switch (Gate (ForgetOp key)) = True"
| "pc_switch (SwitchClose (ActivateGoal key) previous a) = True"
| "pc_switch (SwitchClosed (ActivateGoal key) previous r) = True"
| "pc_switch (SwitchOpen (ActivateGoal key) previous a) = True"
| "pc_switch (SwitchRestore (ActivateGoal key) e a) = True"
| "pc_switch _ = False"

definition chained_inv :: "'st nclient \<Rightarrow> bool" where
  "chained_inv s \<longleftrightarrow> (\<forall>t < length (nc_tasks s). pc_switch (nc_tasks s ! t) \<longrightarrow> t \<in> set (nc_switches s))"

lemma chained_update [simp]:
  "chained_inv (s\<lparr>nc_opening := x1\<rparr>) = chained_inv s"
  "chained_inv (s\<lparr>nc_ownerFault := x2\<rparr>) = chained_inv s"
  "chained_inv (s\<lparr>nc_ownership := x3\<rparr>) = chained_inv s"
  "chained_inv (s\<lparr>nc_runtime := x4\<rparr>) = chained_inv s"
  "chained_inv (s\<lparr>nc_enrollmentDestination := x5\<rparr>) = chained_inv s"
  "chained_inv (s\<lparr>nc_disposed := x6\<rparr>) = chained_inv s"
  "chained_inv (s\<lparr>nc_ex := x7\<rparr>) = chained_inv s"
  "chained_inv (s\<lparr>nc_own := x8\<rparr>) = chained_inv s"
  "chained_inv (s\<lparr>nc_store := x9\<rparr>) = chained_inv s"
  "chained_inv (add_log es s) = chained_inv s"
  "chained_inv (take_ownership a s) = chained_inv s"
  "chained_inv (release_owner a s) = chained_inv s"
  "chained_inv (owner_closed a r s) = chained_inv s"
  by (simp_all add: chained_inv_def take_ownership_def release_owner_def owner_closed_def)

lemma chained_set_pc:
  "chained_inv s \<Longrightarrow> pc_switch pc \<longrightarrow> t \<in> set (nc_switches s) \<Longrightarrow> chained_inv (set_pc t pc s)"
  unfolding chained_inv_def set_pc_def
proof (intro allI impI)
  fix u assume inv: "\<forall>t < length (nc_tasks s). pc_switch (nc_tasks s ! t) \<longrightarrow> t \<in> set (nc_switches s)"
    and new: "pc_switch pc \<longrightarrow> t \<in> set (nc_switches s)"
    and u: "u < length (nc_tasks (s\<lparr>nc_tasks := (nc_tasks s)[t := pc]\<rparr>))" "pc_switch (nc_tasks (s\<lparr>nc_tasks := (nc_tasks s)[t := pc]\<rparr>) ! u)"
  show "u \<in> set (nc_switches (s\<lparr>nc_tasks := (nc_tasks s)[t := pc]\<rparr>))"
    using inv new u by (cases "u = t") simp_all
qed

lemma chained_new_task: "chained_inv s \<Longrightarrow> \<not> pc_switch pc \<Longrightarrow> chained_inv (new_task pc s)"
  by (auto simp: chained_inv_def new_task_def nth_append less_Suc_eq)

text \<open>The task of an activation is in the chain.\<close>

definition goal_chained :: "nat \<Rightarrow> switch_goal \<Rightarrow> 'st nclient \<Rightarrow> bool" where
  "goal_chained t goal s \<longleftrightarrow> (\<forall>key. goal = ActivateGoal key \<longrightarrow> t \<in> set (nc_switches s))"

lemma chained_acquire:
  "chained_inv s \<Longrightarrow> \<forall>a. pc_switch (waiting a) \<longrightarrow> t \<in> set (nc_switches s) \<Longrightarrow> chained_inv (acquireAppliance t waiting s)"
  unfolding acquireAppliance_def Let_def by (rule chained_set_pc) auto

lemma chained_ends: "chained_inv s \<Longrightarrow> chained_inv (onboarding_ends t out s)"
  by (simp add: onboarding_ends_def chained_set_pc)

lemma chained_switch_parts:
  assumes "chained_inv s" and "goal_chained t goal s"
  shows "chained_inv (closeAppliance t goal previous s)" "chained_inv (switch_fails t goal e s)"
    "chained_inv (switch_succeeds t goal s)" "chained_inv (switch_restore b t goal previous e s)"
  using assms
  by (cases goal; auto simp: closeAppliance_def switch_fails_def switch_succeeds_def switch_restore_def goal_chained_def
      chained_ends intro!: chained_set_pc chained_acquire split: option.splits)+

lemma goal_chained_select: "switch_select b goal s = (r, s') \<Longrightarrow> chained_inv s' = chained_inv s \<and> goal_chained t goal s' = goal_chained t goal s"
  by (auto simp: switch_select_def goal_chained_def split: switch_goal.splits prod.splits)

lemma chained_switch:
  assumes "chained_inv s" and "goal_chained t goal s"
  shows "chained_inv (switch_after_close b t goal previous r s)" "chained_inv (switch_after_open b t goal previous a r s)"
    "chained_inv (switch_after_restore t goal e a r s)"
proof -
  have "goal_chained t goal (s\<lparr>nc_ownerFault := x\<rparr>)" "goal_chained t goal (take_ownership a s)" for x
    using assms(2) by (simp_all add: goal_chained_def)
  note facts = chained_switch_parts [OF _ this(1)] chained_switch_parts [OF _ this(2)] chained_switch_parts [OF assms]
  show "chained_inv (switch_after_open b t goal previous a r s)" "chained_inv (switch_after_restore t goal e a r s)"
    using assms by (auto simp: switch_after_open_def switch_after_restore_def facts split: settled.splits)
  show "chained_inv (switch_after_close b t goal previous r s)"
    using assms goal_chained_select [of b goal s]
    by (cases goal) (auto simp: switch_after_close_def facts goal_chained_def intro!: chained_acquire chained_switch_parts
        split: settled.splits prod.splits)
qed

lemma chained_at: "chained_inv s \<Longrightarrow> at_pc s t pc \<Longrightarrow> pc_switch pc \<Longrightarrow> t \<in> set (nc_switches s)"
  by (auto simp: chained_inv_def at_pc_def)

lemma chained_bodies:
  assumes "chained_inv s"
  shows "chained_inv (bootstrapSession s)" "chained_inv (client_dispose s)" "chained_inv (chain_switch op key s)"
    "chained_inv (open_after_load t loaded closing s)" "chained_inv (open_after_acquire t a r s)"
    "chained_inv (bootstrap_finish t out s)" "chained_inv (client_opener b a s)"
    "chained_inv (scan_begins t aborted candidates s)"
    "chained_inv (call_settles b t m onboarding reply s)" "chained_inv (dispose_runtime b t dl s)"
    "chained_inv (onboarding_after_public t d l i s)" "chained_inv (onboarding_after_probe t d l i s)"
    "chained_inv (onboarding_after_enroll t d l u s)" "chained_inv (onboarding_after_authorize b t d l i s)"
proof -
  show "chained_inv (chain_switch op key s)"
    using assms by (auto simp: chain_switch_def chained_new_task split: settled.splits)
      (auto simp: chained_inv_def new_task_def nth_append less_Suc_eq)
  have "chained_inv (closeAppliance t (RememberGoal d l) previous (add_log es s))" for previous es
    by (rule chained_switch_parts(1)) (use assms in \<open>simp_all add: goal_chained_def\<close>)
  then show "chained_inv (onboarding_after_authorize b t d l i s)"
    using assms by (auto simp: onboarding_after_authorize_def rememberAndOpen_def Let_def intro!: chained_ends split: settled.splits)
qed (use assms in \<open>auto simp: bootstrapSession_def client_dispose_def open_after_load_def discard_runtime_def
      open_after_acquire_def bootstrap_finish_def client_opener_def scan_begins_def
      call_settles_def dispose_runtime_def onboarding_after_public_def onboarding_after_probe_def
      onboarding_after_enroll_def chained_ends Let_def
      intro!: chained_set_pc chained_acquire chained_new_task
      split: option.splits settled.splits prod.splits\<close>)

lemma chained_gate:
  assumes "chained_inv s" and "at_pc s t (Gate op)"
  shows "chained_inv (gate_opens b t op s)"
proof (cases op)
  case (ActivateOp key)
  then have "t \<in> set (nc_switches s)" using chained_at [OF assms] by simp
  then show ?thesis
    using assms(1) ActivateOp
    by (auto simp: gate_opens_def activateProfileSerialized_def goal_chained_def
        intro!: chained_set_pc chained_switch_parts split: settled.splits option.splits)
qed (use assms(1) in \<open>auto simp: gate_opens_def call_begins_def ota_begins_def startOnboarding_begins_def
      forgetProfileSerialized_def chained_ends intro!: chained_set_pc split: settled.splits option.splits prod.splits\<close>)

lemma nclient_step_chained: "nclient_step b s s' \<Longrightarrow> chained_inv s \<Longrightarrow> chained_inv s'"
proof (induction rule: nclient_step.induct)
  case (nc_call op s)
  then show ?case by (cases op) (auto intro!: chained_new_task)
next
  case (nc_chained s t op)
  then have "t \<in> set (nc_switches s)" using chained_at by (metis pc_switch.simps(1))
  then show ?case using nc_chained by (simp add: serialized_begins_def chained_set_pc)
next
  case (nc_closed s t goal previous a r)
  then show ?case by (cases goal) (auto intro!: chained_set_pc dest: chained_at)
next
  case (nc_after_close s t goal previous r)
  then show ?case by (intro chained_switch) (cases goal; auto simp: goal_chained_def dest: chained_at)+
next
  case (nc_after_open s t goal previous a r)
  then show ?case by (intro chained_switch) (cases goal; auto simp: goal_chained_def dest: chained_at)+
next
  case (nc_after_restore s t goal e a r)
  then show ?case by (intro chained_switch) (cases goal; auto simp: goal_chained_def dest: chained_at)+
qed (auto simp: activateProfile_def forgetProfile_def chained_bodies chained_gate intro!: chained_set_pc)

interpretation chained: step_invariant "nclient_step b" chained_inv for b :: "'st native_bridge"
  by unfold_locales (rule nclient_step_chained)

lemma nclient_new_chained: "chained_inv (nclient_new e st)"
  by (simp add: chained_inv_def nclient_new_def)

section \<open>Verified enrolment\<close>

text \<open>
  What the log has to show before a profile is remembered, and before an enrolment is requested.
\<close>

definition public_verified :: "native_event list \<Rightarrow> jstring \<Rightarrow> jstring \<Rightarrow> bool" where
  "public_verified trail d l \<longleftrightarrow>
     PublicIdentityRead d \<lparr>mi_managementDestination = d, mi_lxmfDestination = Some l\<rparr> \<in> set trail"

definition authorised :: "native_event list \<Rightarrow> jstring \<Rightarrow> jstring \<Rightarrow> bool" where
  "authorised trail d l \<longleftrightarrow> public_verified trail d l \<and>
     ManagementIdentityRead d \<lparr>mi_managementDestination = d, mi_lxmfDestination = Some l\<rparr> \<in> set trail"

fun event_justified :: "native_event list \<Rightarrow> native_event \<Rightarrow> bool" where
  "event_justified trail (ProfileRemembered d l) = authorised trail d l"
| "event_justified trail (EnrollRequested d) = (\<exists>l. public_verified trail d l)"
| "event_justified trail _ = True"

definition log_justified :: "native_event list \<Rightarrow> bool" where
  "log_justified trail \<longleftrightarrow> (\<forall>n < length trail. event_justified (take n trail) (trail ! n))"

fun pc_justified :: "native_event list \<Rightarrow> nc_pc \<Rightarrow> bool" where
  "pc_justified trail (OnbProbe d l) = public_verified trail d l"
| "pc_justified trail (OnbEnroll d l) = public_verified trail d l"
| "pc_justified trail (OnbAuthorize d l) = public_verified trail d l"
| "pc_justified trail (SwitchClose (RememberGoal d l) previous a) = authorised trail d l"
| "pc_justified trail (SwitchClosed (RememberGoal d l) previous r) = authorised trail d l"
| "pc_justified trail _ = True"

definition onboarding_inv :: "'st nclient \<Rightarrow> bool" where
  "onboarding_inv s \<longleftrightarrow> log_justified (nc_log s) \<and> list_all (pc_justified (nc_log s)) (nc_tasks s)"

lemma identity_matches_iff:
  "identity_matches i d l \<longleftrightarrow> i = \<lparr>mi_managementDestination = d, mi_lxmfDestination = Some l\<rparr>"
  by (cases i) (auto simp: identity_matches_def)

lemma log_justified_snoc: "log_justified (trail @ [e]) \<longleftrightarrow> log_justified trail \<and> event_justified trail e"
  by (auto simp: log_justified_def nth_append less_Suc_eq)

lemma pc_justified_mono: "pc_justified trail pc \<Longrightarrow> pc_justified (trail @ es) pc"
  by (cases "(trail, pc)" rule: pc_justified.cases) (auto simp: public_verified_def authorised_def)

text \<open>The invariant is about the log and the tasks only, and both grow in small pieces.\<close>

lemma onboarding_inv_update [simp]:
  "onboarding_inv (s\<lparr>nc_opening := x1\<rparr>) = onboarding_inv s"
  "onboarding_inv (s\<lparr>nc_ownerFault := x2\<rparr>) = onboarding_inv s"
  "onboarding_inv (s\<lparr>nc_ownership := x3\<rparr>) = onboarding_inv s"
  "onboarding_inv (s\<lparr>nc_switches := x4\<rparr>) = onboarding_inv s"
  "onboarding_inv (s\<lparr>nc_runtime := x5\<rparr>) = onboarding_inv s"
  "onboarding_inv (s\<lparr>nc_enrollmentDestination := x6\<rparr>) = onboarding_inv s"
  "onboarding_inv (s\<lparr>nc_disposed := x7\<rparr>) = onboarding_inv s"
  "onboarding_inv (s\<lparr>nc_ex := x8\<rparr>) = onboarding_inv s"
  "onboarding_inv (s\<lparr>nc_own := x9\<rparr>) = onboarding_inv s"
  "onboarding_inv (s\<lparr>nc_store := x10\<rparr>) = onboarding_inv s"
  by (simp_all add: onboarding_inv_def)

lemma onboarding_inv_set_pc [intro!]:
  assumes "onboarding_inv s" and "pc_justified (nc_log s) pc"
  shows "onboarding_inv (set_pc t pc s)"
proof -
  have "x = pc \<or> x \<in> set (nc_tasks s)" if "x \<in> set ((nc_tasks s)[t := pc])" for x
    using that set_update_subset_insert [of "nc_tasks s" t pc] by blast
  with assms show ?thesis by (auto simp: onboarding_inv_def set_pc_def list_all_iff)
qed

lemma onboarding_inv_new_task [intro!]:
  "onboarding_inv s \<Longrightarrow> pc_justified (nc_log s) pc \<Longrightarrow> onboarding_inv (new_task pc s)"
  by (simp add: onboarding_inv_def new_task_def)

lemma onboarding_inv_event:
  "onboarding_inv s \<Longrightarrow> event_justified (nc_log s) e \<Longrightarrow> onboarding_inv (add_log [e] s)"
  by (auto simp: onboarding_inv_def add_log_def log_justified_snoc list_all_iff pc_justified_mono)

text \<open>Events that need no justification.\<close>

primrec plain_event :: "native_event \<Rightarrow> bool" where
  "plain_event (Owner e) = True"
| "plain_event (ProfileActivated k) = True"
| "plain_event (ProfileForgotten k) = True"
| "plain_event (ProfileRemembered m l) = False"
| "plain_event (PublicIdentityRead d i) = True"
| "plain_event (ManagementIdentityRead d i) = True"
| "plain_event (EnrollRequested d) = False"
| "plain_event RuntimeLoaded = True"
| "plain_event PrnsClosed = True"
| "plain_event ProfileStoreDestroyed = True"
| "plain_event (OtaStaged d v) = True"
| "plain_event (OtaRebooted d) = True"

lemma add_log_Cons: "add_log (e # es) s = add_log es (add_log [e] s)"
  by (simp add: add_log_def)

lemma onboarding_inv_plain [intro!]: "onboarding_inv s \<Longrightarrow> list_all plain_event es \<Longrightarrow> onboarding_inv (add_log es s)"
proof (induction es arbitrary: s)
  case Nil
  then show ?case by (simp add: add_log_def)
next
  case (Cons e es)
  then have "event_justified (nc_log s) e" by (cases e) auto
  then have "onboarding_inv (add_log [e] s)" using Cons(2) by (rule onboarding_inv_event [rotated])
  with Cons show ?case by (subst add_log_Cons) simp
qed

lemma nc_log_simps [simp]:
  "nc_log (set_pc t pc s) = nc_log s" "nc_log (add_log es s) = nc_log s @ es" "nc_log (new_task pc s) = nc_log s"
  "nc_log (take_ownership a s) = nc_log s" "nc_log (release_owner a s) = nc_log s @ [Owner (NativeClosing a)]"
  "nc_log (owner_closed a r s) = nc_log s @ [Owner (NativeDestroyed a)]"
  by (simp_all add: set_pc_def add_log_def new_task_def take_ownership_def release_owner_def owner_closed_def)

lemma onboarding_inv_owner [intro!]:
  "onboarding_inv s \<Longrightarrow> onboarding_inv (take_ownership a s)"
  "onboarding_inv s \<Longrightarrow> onboarding_inv (release_owner a s)"
  "onboarding_inv s \<Longrightarrow> onboarding_inv (owner_closed a r s)"
  by (auto simp: take_ownership_def release_owner_def owner_closed_def)

lemma onboarding_inv_ends [intro!]: "onboarding_inv s \<Longrightarrow> onboarding_inv (onboarding_ends t out s)"
  by (auto simp: onboarding_ends_def)

lemma onboarding_inv_acquire [intro!]:
  "onboarding_inv s \<Longrightarrow> (\<And>a. pc_justified (nc_log s) (w a)) \<Longrightarrow> onboarding_inv (acquireAppliance t w s)"
  by (auto simp: acquireAppliance_def Let_def)

lemma onboarding_inv_switch [intro!]:
  "onboarding_inv s \<Longrightarrow> onboarding_inv (switch_fails t goal e s)"
  "onboarding_inv s \<Longrightarrow> onboarding_inv (switch_succeeds t goal s)"
  "onboarding_inv s \<Longrightarrow> onboarding_inv (switch_restore b t goal previous e s)"
  by (auto simp: switch_fails_def switch_succeeds_def switch_restore_def split: switch_goal.splits option.splits)

lemma onboarding_inv_close:
  assumes "onboarding_inv s" and "\<And>d l. goal = RememberGoal d l \<Longrightarrow> authorised (nc_log s) d l"
  shows "onboarding_inv (closeAppliance t goal previous s)"
  using assms by (cases goal)
    (auto simp: closeAppliance_def authorised_def public_verified_def split: option.splits)

lemma onboarding_inv_after_close:
  assumes "onboarding_inv s" and "\<And>d l. goal = RememberGoal d l \<Longrightarrow> authorised (nc_log s) d l"
  shows "onboarding_inv (switch_after_close b t goal previous r s)"
proof -
  obtain q s' where q: "switch_select b goal s = (q, s')" by (cases "switch_select b goal s")
  have "onboarding_inv s'"
  proof (cases goal)
    case (RememberGoal d l)
    have "onboarding_inv (add_log [ProfileRemembered d l] (s\<lparr>nc_store := st\<rparr>))" for st
      by (rule onboarding_inv_event) (use assms RememberGoal in simp_all)
    moreover have "\<exists>st. s' = add_log [ProfileRemembered d l] (s\<lparr>nc_store := st\<rparr>)"
      using q RememberGoal by (auto simp: switch_select_def split: prod.splits)
    ultimately show ?thesis by metis
  qed (use q assms in \<open>auto simp: switch_select_def split: prod.splits\<close>)
  then show ?thesis
    using assms(1) by (auto simp: switch_after_close_def q split: settled.splits prod.splits)
qed

lemma onboarding_inv_bodies:
  assumes "onboarding_inv s"
  shows "onboarding_inv (bootstrapSession s)" "onboarding_inv (client_dispose s)" "onboarding_inv (chain_switch op key s)"
    "onboarding_inv (open_after_load t loaded closing s)" "onboarding_inv (open_after_acquire t a r s)"
    "onboarding_inv (bootstrap_finish t out s)" "onboarding_inv (client_opener b a s)"
    "onboarding_inv (serialized_begins t cop s)" "onboarding_inv (scan_begins t aborted candidates s)"
    "onboarding_inv (switch_after_open b t goal previous a r s)" "onboarding_inv (switch_after_restore t goal e a r s)"
    "onboarding_inv (call_settles b t m onboarding reply s)" "onboarding_inv (dispose_runtime b t dl s)"
  using assms
  by (auto simp: bootstrapSession_def client_dispose_def chain_switch_def open_after_load_def discard_runtime_def
      open_after_acquire_def bootstrap_finish_def client_opener_def serialized_begins_def scan_begins_def
      switch_after_open_def switch_after_restore_def call_settles_def dispose_runtime_def Let_def opened_event_def
      split: option.splits settled.splits prod.splits)

lemma onboarding_inv_gate: "onboarding_inv s \<Longrightarrow> onboarding_inv (gate_opens b t op s)"
  by (cases op) (auto simp: gate_opens_def call_begins_def ota_begins_def startOnboarding_begins_def
      activateProfileSerialized_def forgetProfileSerialized_def
      intro!: onboarding_inv_close split: settled.splits prod.splits option.splits)

lemma onboarding_inv_public: "onboarding_inv s \<Longrightarrow> onboarding_inv (onboarding_after_public t d l i s)"
  by (auto simp: onboarding_after_public_def Let_def identity_matches_iff public_verified_def split: settled.splits)

lemma onboarding_inv_probe:
  "onboarding_inv s \<Longrightarrow> public_verified (nc_log s) d l \<Longrightarrow> onboarding_inv (onboarding_after_probe t d l i s)"
proof (cases i)
  case (Rejected e)
  moreover assume inv: "onboarding_inv s" and pv: "public_verified (nc_log s) d l"
  have "onboarding_inv (add_log [EnrollRequested d] s)"
    by (rule onboarding_inv_event [OF inv]) (use pv in auto)
  then have "onboarding_inv (set_pc t (OnbEnroll d l) (add_log [EnrollRequested d] s))"
    by (rule onboarding_inv_set_pc) (use pv in \<open>simp add: public_verified_def\<close>)
  ultimately show ?thesis by (simp add: onboarding_after_probe_def)
qed (auto simp: onboarding_after_probe_def)

lemma onboarding_inv_enroll:
  "onboarding_inv s \<Longrightarrow> public_verified (nc_log s) d l \<Longrightarrow> onboarding_inv (onboarding_after_enroll t d l r s)"
  by (auto simp: onboarding_after_enroll_def split: settled.splits)

lemma onboarding_inv_authorize:
  assumes "onboarding_inv s" and "public_verified (nc_log s) d l"
  shows "onboarding_inv (onboarding_after_authorize b t d l i s)"
  using assms by (auto simp: onboarding_after_authorize_def rememberAndOpen_def Let_def identity_matches_iff
      authorised_def public_verified_def intro!: onboarding_inv_close split: settled.splits)

lemma pc_justified_at: "onboarding_inv s \<Longrightarrow> at_pc s t pc \<Longrightarrow> pc_justified (nc_log s) pc"
  by (auto simp: onboarding_inv_def at_pc_def list_all_length)

lemma nclient_step_onboarding_inv: "nclient_step b s s' \<Longrightarrow> onboarding_inv s \<Longrightarrow> onboarding_inv s'"
proof (induction rule: nclient_step.induct)
  case (nc_closed s t goal previous a r)
  then have "pc_justified (nc_log s @ [Owner (NativeDestroyed a)]) (SwitchClosed goal previous r)"
    by (cases goal) (auto dest!: pc_justified_at simp: authorised_def public_verified_def)
  with nc_closed show ?case by auto
next
  case (nc_after_close s t goal previous r)
  have "authorised (nc_log s) d l" if "goal = RememberGoal d l" for d l
    using pc_justified_at [OF nc_after_close(2,1)] that by simp
  with nc_after_close show ?case by (simp add: onboarding_inv_after_close)
qed (auto simp: activateProfile_def forgetProfile_def onboarding_inv_bodies onboarding_inv_gate onboarding_inv_public
    dest: pc_justified_at intro!: onboarding_inv_probe onboarding_inv_enroll onboarding_inv_authorize)

interpretation enrolment: step_invariant "nclient_step b" onboarding_inv for b :: "'st native_bridge"
  by unfold_locales (rule nclient_step_onboarding_inv)

lemma nclient_new_onboarding_inv: "onboarding_inv (nclient_new e st)"
  by (simp add: onboarding_inv_def nclient_new_def log_justified_def)

end
