(* ===== verification/NativeClientProperties.thy ===== *)
theory NativeClientProperties
  imports NativeClientProofs
begin

text \<open>
  The properties of the native client: the native side's protocol, serial switches, verified enrolment, the
  outcome of a profile switch against a sequential specification, faults and disposal. An executable form
  of the step relation gives the concrete runs.
\<close>

declare js.simps [simp del]

section \<open>Disposal\<close>

fun native_use :: "owner_event \<Rightarrow> bool" where
  "native_use (NativeOpened a) = True"
| "native_use (NativeOperation a) = True"
| "native_use _ = False"

definition native_uses :: "'st nclient \<Rightarrow> owner_event list" where
  "native_uses s = filter native_use (owner_events (nc_log s))"

text \<open>A disposed client whose native uses are \<open>us\<close>.\<close>

definition inert :: "owner_event list \<Rightarrow> 'st nclient \<Rightarrow> bool" where
  "inert us s \<longleftrightarrow> nc_disposed s \<and> native_uses s = us"

lemma inert_update [simp]:
  "inert us (s\<lparr>nc_opening := x1\<rparr>) = inert us s"
  "inert us (s\<lparr>nc_ownerFault := x2\<rparr>) = inert us s"
  "inert us (s\<lparr>nc_ownership := x3\<rparr>) = inert us s"
  "inert us (s\<lparr>nc_switches := x4\<rparr>) = inert us s"
  "inert us (s\<lparr>nc_enrollmentDestination := x6\<rparr>) = inert us s"
  "inert us (s\<lparr>nc_ex := x8\<rparr>) = inert us s"
  "inert us (s\<lparr>nc_own := x9\<rparr>) = inert us s"
  "inert us (s\<lparr>nc_store := x10\<rparr>) = inert us s"
  "inert us (set_pc t pc s) = inert us s"
  "inert us (new_task pc s) = inert us s"
  by (simp_all add: inert_def native_uses_def set_pc_def new_task_def)

lemma inert_log [simp]: "list_all (\<lambda>e. \<not> native_use e) (owner_events es) \<Longrightarrow> inert us (add_log es s) = inert us s"
  by (auto simp: inert_def native_uses_def add_log_def list_all_iff filter_empty_conv)

lemma inert_parts [simp]:
  "inert us (take_ownership a s) = inert us s" "inert us (release_owner a s) = inert us s"
  "inert us (owner_closed a r s) = inert us s" "inert us (onboarding_ends t out s) = inert us s"
  "inert us (acquireAppliance t w s) = inert us s" "inert us (switch_fails t goal e s) = inert us s"
  "inert us (switch_succeeds t goal s) = inert us s" "inert us (switch_restore b t goal previous e s) = inert us s"
  "inert us (closeAppliance t goal previous s) = inert us s"
  by (auto simp: take_ownership_def release_owner_def owner_closed_def onboarding_ends_def acquireAppliance_def
      switch_fails_def switch_succeeds_def switch_restore_def closeAppliance_def Let_def
      split: switch_goal.splits option.splits)

lemma inert_select: "switch_select b goal s = (r, s') \<Longrightarrow> inert us s' = inert us s"
  by (auto simp: switch_select_def split: switch_goal.splits prod.splits)

lemma inert_switch:
  "inert us s \<Longrightarrow> inert us (switch_after_close b t goal previous r s)"
  "inert us s \<Longrightarrow> inert us (switch_after_open b t goal previous a r s)"
  "inert us s \<Longrightarrow> inert us (switch_after_restore t goal e a r s)"
  by (auto simp: switch_after_close_def switch_after_open_def switch_after_restore_def inert_select
      split: settled.splits prod.splits)

lemma inert_required: "inert us s \<Longrightarrow> requiredRuntime s = Rejected disposed_error"
  by (simp add: requiredRuntime_def inert_def)

lemma inert_disposed: "inert us s \<Longrightarrow> nc_disposed s"
  by (simp add: inert_def)

lemma inert_bodies:
  assumes "inert us s"
  shows "inert us (bootstrapSession s)" "inert us (client_dispose s)" "inert us (chain_switch op key s)"
    "inert us (open_after_load t loaded closing s)" "inert us (open_after_acquire t a r s)"
    "inert us (bootstrap_finish t out s)" "inert us (client_opener b a s)"
    "inert us (serialized_begins t cop s)" "inert us (scan_begins t aborted candidates s)"
    "inert us (call_settles b t m onboarding reply s)" "inert us (dispose_runtime b t dl s)"
    "inert us (onboarding_after_public t d l i s)" "inert us (onboarding_after_probe t d l i s)"
    "inert us (onboarding_after_enroll t d l u s)" "inert us (onboarding_after_authorize b t d l i s)"
  using assms inert_disposed [OF assms]
  by (auto simp: bootstrapSession_def client_dispose_def chain_switch_def open_after_load_def discard_runtime_def
      open_after_acquire_def bootstrap_finish_def client_opener_def serialized_begins_def scan_begins_def
      call_settles_def dispose_runtime_def onboarding_after_public_def onboarding_after_probe_def
      onboarding_after_enroll_def onboarding_after_authorize_def rememberAndOpen_def inert_required Let_def
      split: option.splits settled.splits prod.splits)

lemma inert_gate: "inert us s \<Longrightarrow> inert us (gate_opens b t op s)"
  by (cases op) (auto simp: gate_opens_def call_begins_def client_active_def ota_begins_def startOnboarding_begins_def
      activateProfileSerialized_def forgetProfileSerialized_def inert_required
      split: option.splits settled.splits prod.splits)

lemma nclient_step_inert: "nclient_step b s s' \<Longrightarrow> inert us s \<Longrightarrow> inert us s'"
  by (induction rule: nclient_step.induct)
    (auto simp: activateProfile_def forgetProfile_def inert_bodies inert_gate inert_switch)

interpretation native_client: disposable "nclient_step b" nc_disposed native_uses for b :: "'st native_bridge"
  by unfold_locales (use nclient_step_inert in \<open>auto simp: inert_def\<close>)

text \<open>
  The errors with which a disposed client refuses a call: that of the disposal, and those of an argument that is
  checked before.
\<close>

definition refusal :: "thrown \<Rightarrow> bool" where
  "refusal e \<longleftrightarrow>
     e = disposed_error \<or>
     e = ErrorObject (js ''Select a verified Reticulum appliance before enrollment.'') \<or>
     e = ErrorObject (js ''profile key'' @ js '' must be 32 hexadecimal characters.'')"

fun pc_refused :: "nc_pc \<Rightarrow> bool" where
  "pc_refused (Gate op) = True"
| "pc_refused (Tail op) = True"
| "pc_refused (Settled (Rejected e)) = refusal e"
| "pc_refused _ = False"

text \<open>The tasks from \<open>n\<close> on wait for their first step or are refused.\<close>

definition refusing :: "nat \<Rightarrow> 'st nclient \<Rightarrow> bool" where
  "refusing n s \<longleftrightarrow> nc_disposed s \<and> n \<le> length (nc_tasks s) \<and> (\<forall>t. n \<le> t \<and> t < length (nc_tasks s) \<longrightarrow> pc_refused (nc_tasks s ! t))"

lemma refusing_required: "refusing n s \<Longrightarrow> requiredRuntime s = Rejected disposed_error"
  by (simp add: refusing_def requiredRuntime_def)

lemma refusing_set_pc:
  assumes "refusing n s" and "nc_tasks s' = (nc_tasks s)[t := pc]" and "nc_disposed s'" and "n \<le> t \<Longrightarrow> pc_refused pc"
  shows "refusing n s'"
  unfolding refusing_def
proof (intro conjI allI impI)
  fix u assume u: "n \<le> u \<and> u < length (nc_tasks s')"
  show "pc_refused (nc_tasks s' ! u)"
    using assms u by (cases "u = t") (auto simp: refusing_def)
qed (use assms in \<open>auto simp: refusing_def\<close>)

text \<open>A step of a task that is past its first one leaves the later tasks alone.\<close>

lemma refusing_other:
  assumes "refusing n s" and "at_pc s t pc" and "\<not> pc_refused pc" and "only_task t s s'" and "nc_disposed s'"
  shows "refusing n s'"
proof -
  obtain pc' where "nc_tasks s' = (nc_tasks s)[t := pc']" using assms(4) by (auto simp: only_task_def)
  moreover have "\<not> n \<le> t" using assms(1-3) by (auto simp: refusing_def at_pc_def)
  ultimately show ?thesis using refusing_set_pc [OF assms(1)] assms(5) by blast
qed

lemma refusing_new:
  assumes "refusing n s" and "nc_tasks s' = nc_tasks s @ [pc]" and "nc_disposed s'" and "pc_refused pc"
  shows "refusing n s'"
  using assms by (auto simp: refusing_def nth_append less_Suc_eq)

lemma refusals: "refusal disposed_error" "refusal (ErrorObject (js ''Select a verified Reticulum appliance before enrollment.''))"
  by (simp_all add: refusal_def)

lemma refusing_gate:
  assumes "refusing n s"
  shows "op \<noteq> ScanOp \<Longrightarrow> op \<noteq> StartOnboardingOp None \<Longrightarrow>
      nc_tasks (gate_opens b t op s) = (nc_tasks s)[t := Settled (Rejected disposed_error)]"
    and "nc_tasks (gate_opens b t (StartOnboardingOp None) s) =
      (nc_tasks s)[t := Settled (Rejected (ErrorObject (js ''Select a verified Reticulum appliance before enrollment.'')))]"
    and "nc_tasks (scan_begins t aborted candidates s) = (nc_tasks s)[t := Settled (Rejected disposed_error)]"
proof -
  note required = refusing_required [OF assms]
  show "nc_tasks (gate_opens b t op s) = (nc_tasks s)[t := Settled (Rejected disposed_error)]"
    if "op \<noteq> ScanOp" "op \<noteq> StartOnboardingOp None"
    using required that
    by (cases op) (auto simp: gate_opens_def call_begins_def client_active_def client_profiles_def ota_begins_def
        startOnboarding_begins_def activateProfileSerialized_def forgetProfileSerialized_def onboarding_ends_def set_pc_def)
  show "nc_tasks (gate_opens b t (StartOnboardingOp None) s) =
      (nc_tasks s)[t := Settled (Rejected (ErrorObject (js ''Select a verified Reticulum appliance before enrollment.'')))]"
    by (simp add: gate_opens_def startOnboarding_begins_def set_pc_def)
  show "nc_tasks (scan_begins t aborted candidates s) = (nc_tasks s)[t := Settled (Rejected disposed_error)]"
    using required by (simp add: scan_begins_def set_pc_def)
qed

lemmas refusing_resumes = only_task_bodies [THEN [4] refusing_other] only_task_switch [THEN [4] refusing_other]
  only_task_set_pc [THEN [4] refusing_other]

lemma refusing_chain: "refusing n s \<Longrightarrow> refusing n (chain_switch op key s)"
  by (cases "normalizeDestination key (js ''profile key'')")
    (auto simp: chain_switch_def new_task_def normalizeDestination_def refusal_def refusing_def Let_def nth_append less_Suc_eq split: if_splits)

lemma nclient_step_refusing: "nclient_step b s s' \<Longrightarrow> refusing n s \<Longrightarrow> refusing n s'"
proof -
  assume step: "nclient_step b s s'" and ref: "refusing n s"
  have disposed: "nc_disposed s'"
    using nclient_step_inert [OF step, of "native_uses s"] ref by (simp add: inert_def refusing_def)
  show "refusing n s'"
    using step ref disposed
  proof (induction rule: nclient_step.induct)
    case (nc_bootstrap s)
    then show ?case by (intro refusing_new [OF nc_bootstrap(1)]) (auto simp: bootstrapSession_def new_task_def refusing_def refusal_def)
  next
    case (nc_call op s)
    then show ?case by (intro refusing_new [OF nc_call(2)]) (auto simp: new_task_def refusing_def)
  next
    case (nc_dispose s)
    then show ?case by (simp add: client_dispose_def refusing_def)
  next
    case (nc_chained s t op)
    then show ?case by (intro refusing_set_pc [OF nc_chained(3)]) (auto simp: serialized_begins_def set_pc_def refusing_def refusal_def)
  next
    case (nc_gate s t op)
    then obtain e where "nc_tasks (gate_opens b t op s) = (nc_tasks s)[t := Settled (Rejected e)]" "refusal e"
      using refusing_gate(1,2) [OF nc_gate(3)] refusals by blast
    then show ?case using nc_gate by (intro refusing_set_pc [OF nc_gate(3)]) auto
  next
    case (nc_scan s t aborted candidates)
    then show ?case by (intro refusing_set_pc [OF nc_scan(2) refusing_gate(3)]) (auto simp: refusal_def)
  next
    case (nc_opener a s)
    then show ?case by (auto simp: refusing_def client_opener_def)
  next
    case (nc_other s e)
    then show ?case by (simp add: refusing_def)
  qed (auto simp: activateProfile_def forgetProfile_def intro: refusing_chain elim: refusing_resumes)
qed

interpretation refusals_kept: step_invariant "nclient_step b" "refusing n" for b :: "'st native_bridge" and n
  by unfold_locales (rule nclient_step_refusing)

section \<open>A switch that nothing disturbs\<close>





























section \<open>Executable runs\<close>

datatype 'st client_action =
  ABootstrap | ACall client_op | AActivate jstring | ADispose | AOpener nat | AResume nat
| ALoaded nat "(NativeBridgeContract \<times> 'st) settled" | AClosed nat "unit settled"
| AIdentity nat "NativePrnsManagementIdentity settled" | AReply nat "native_reply settled"

definition task_resumes :: "'st native_bridge \<Rightarrow> nat \<Rightarrow> 'st nclient \<Rightarrow> 'st nclient option" where
  "task_resumes b t s =
     (case nc_tasks s ! t of
        Tail op \<Rightarrow> if tail_settled s t then Some (serialized_begins t op s) else None
      | Gate op \<Rightarrow> if op = ScanOp then None else Some (gate_opens b t op s)
      | BootAcquire a \<Rightarrow> map_option (\<lambda>r. open_after_acquire t a r s) (acquired b a s)
      | BootFinish out \<Rightarrow> Some (bootstrap_finish t out s)
      | SwitchClosed goal previous r \<Rightarrow> Some (switch_after_close b t goal previous r s)
      | SwitchOpen goal previous a \<Rightarrow> map_option (\<lambda>r. switch_after_open b t goal previous a r s) (acquired b a s)
      | SwitchRestore goal e a \<Rightarrow> map_option (\<lambda>r. switch_after_restore t goal e a r s) (acquired b a s)
      | DisposeClosed loaded \<Rightarrow> Some (dispose_runtime b t loaded s)
      | _ \<Rightarrow> None)"

definition client_exec :: "'st native_bridge \<Rightarrow> 'st client_action \<Rightarrow> 'st nclient \<Rightarrow> 'st nclient option" where
  "client_exec b act s =
     (case act of
        ABootstrap \<Rightarrow> Some (bootstrapSession s)
      | ACall op \<Rightarrow> if gated_method op then Some (new_task (Gate op) s) else None
      | AActivate key \<Rightarrow> Some (activateProfile key s)
      | ADispose \<Rightarrow> Some (client_dispose s)
      | AOpener a \<Rightarrow>
          if a \<in> set (nc_own s) \<and> aq_phase (ex_acqs (nc_ex s) ! a) = AwaitPredecessor \<and>
             ownershipTail_resolved (ex_acqs (nc_ex s)) a
          then Some (client_opener b a s) else None
      | AResume t \<Rightarrow> if t < length (nc_tasks s) then task_resumes b t s else None
      | ALoaded t loaded \<Rightarrow>
          if at_pc s t BootLoad then Some (open_after_load t loaded (Fulfilled ()) s) else None
      | AClosed t r \<Rightarrow>
          if t < length (nc_tasks s)
          then (case nc_tasks s ! t of
             SwitchClose goal previous a \<Rightarrow> Some (set_pc t (SwitchClosed goal previous r) (owner_closed a r s))
           | DisposeClose loaded a \<Rightarrow> Some (set_pc t (DisposeClosed loaded) (owner_closed a r s))
           | _ \<Rightarrow> None)
          else None
      | AIdentity t i \<Rightarrow>
          if t < length (nc_tasks s)
          then (case nc_tasks s ! t of
             OnbPublic d l \<Rightarrow> Some (onboarding_after_public t d l i s)
           | OnbProbe d l \<Rightarrow> Some (onboarding_after_probe t d l i s)
           | OnbAuthorize d l \<Rightarrow> Some (onboarding_after_authorize b t d l i s)
           | _ \<Rightarrow> None)
          else None
      | AReply t reply \<Rightarrow>
          if t < length (nc_tasks s)
          then (case nc_tasks s ! t of
             CallPending m onboarding \<Rightarrow> Some (call_settles b t m onboarding reply s) | _ \<Rightarrow> None)
          else None)"

primrec client_run :: "'st native_bridge \<Rightarrow> 'st client_action list \<Rightarrow> 'st nclient \<Rightarrow> 'st nclient option" where
  "client_run b [] s = Some s"
| "client_run b (act # acts) s = (case client_exec b act s of None \<Rightarrow> None | Some s' \<Rightarrow> client_run b acts s')"

lemma task_resumes_step: "task_resumes b t s = Some s' \<Longrightarrow> t < length (nc_tasks s) \<Longrightarrow> nclient_step b s s'"
  by (cases "nc_tasks s ! t")
    (auto simp: task_resumes_def at_pc_def split: if_splits intro: nclient_step.intros)

lemma client_exec_step: "client_exec b act s = Some s' \<Longrightarrow> nclient_step b s s'"
proof (cases act)
  case (AClosed t r)
  moreover assume "client_exec b act s = Some s'"
  ultimately show ?thesis
    by (cases "nc_tasks s ! t") (auto simp: client_exec_def at_pc_def split: if_splits intro: nclient_step.intros)
next
  case (AIdentity t r)
  moreover assume "client_exec b act s = Some s'"
  ultimately show ?thesis
    by (cases "nc_tasks s ! t") (auto simp: client_exec_def at_pc_def split: if_splits intro: nclient_step.intros)
next
  case (AReply t r)
  moreover assume "client_exec b act s = Some s'"
  ultimately show ?thesis
    by (cases "nc_tasks s ! t") (auto simp: client_exec_def at_pc_def split: if_splits intro: nclient_step.intros)
qed (auto simp: client_exec_def split: if_splits intro: nclient_step.intros task_resumes_step)

lemma client_run_steps: "client_run b acts s = Some s' \<Longrightarrow> (nclient_step b)\<^sup>*\<^sup>* s s'"
proof (induction acts arbitrary: s)
  case (Cons act acts)
  then obtain s1 where "client_exec b act s = Some s1" "client_run b acts s1 = Some s'"
    by (auto split: option.splits)
  with Cons client_exec_step show ?case by (metis converse_rtranclp_into_rtranclp)
qed simp

lemma client_run_reach: "client_run b acts (nclient_new exclusive_new st) = Some s \<Longrightarrow> client_reach b s"
  unfolding client_reach_def using client_run_steps by blast

text \<open>
  A small store for the concrete runs: the active profile and the known keys. The profile of twos does
  not open.
\<close>

definition key_one :: jstring where
  "key_one = replicate 32 49"

definition key_two :: jstring where
  "key_two = replicate 32 50"

definition demo_profile :: "jstring \<Rightarrow> NativeProfileSummary" where
  "demo_profile k = \<lparr>ps_profileKey = k, ps_managementDestination = k, ps_lxmfDestination = k\<rparr>"

definition demo_bridge :: "(jstring option \<times> jstring list) native_bridge" where
  "demo_bridge =
     \<lparr>nb_isNativeError = (\<lambda>e. None),
      nb_profileSnapshot = (\<lambda>(active, keys). Fulfilled \<lparr>pf_activeProfileKey = active, pf_profiles = map demo_profile keys\<rparr>),
      nb_activateProfile = (\<lambda>k (active, keys). if k \<in> set keys then (Fulfilled (), (Some k, keys))
         else (Rejected (ErrorObject (js ''missing profile'')), (active, keys))),
      nb_forgetProfile = (\<lambda>k (active, keys). (Fulfilled (), (active, filter (\<lambda>x. x \<noteq> k) keys))),
      nb_rememberProfile = (\<lambda>m l (active, keys). (Fulfilled (), (Some m, if m \<in> set keys then keys else keys @ [m]))),
      nb_open = (\<lambda>(active, keys). (if active = Some key_two then Rejected (ErrorObject (js ''no radio'')) else Fulfilled 7, (active, keys))),
      nb_destroyProfileStore = (\<lambda>st. st)\<rparr>"

definition demo_new :: "(jstring option \<times> jstring list) nclient" where
  "demo_new = nclient_new exclusive_new (None, [])"

definition demo_store :: "jstring option \<times> jstring list" where
  "demo_store = (Some key_one, [key_one, key_two])"

definition demo_boot :: "(jstring option \<times> jstring list) client_action list" where
  "demo_boot = [ABootstrap, ALoaded 0 (Fulfilled (EXPECTED_FIELDS, demo_store)), AOpener 0, AResume 0, AResume 0]"

definition demo_state :: "(jstring option \<times> jstring list) client_action list \<Rightarrow> (jstring option \<times> jstring list) nclient \<Rightarrow> bool" where
  "demo_state acts s \<longleftrightarrow> client_run demo_bridge (demo_boot @ acts) demo_new = Some s"

text \<open>The state after the bootstrap.\<close>

definition demo_booted :: "(jstring option \<times> jstring list) nclient" where
  "demo_booted =
     \<lparr>nc_opening = None, nc_ownerFault = None, nc_ownership = Some 0, nc_switches = [], nc_runtime = True,
      nc_enrollmentDestination = None, nc_disposed = False, nc_tasks = [Settled (Fulfilled NoContent)],
      nc_ex = \<lparr>ex_acqs = [\<lparr>aq_phase = Returned 7, aq_released = False, aq_finished = False\<rparr>], ex_opened = [0]\<rparr>,
      nc_own = [0], nc_store = demo_store, nc_log = [RuntimeLoaded, Owner (NativeOpened 0)]\<rparr>"

lemma client_run_append:
  "client_run b (xs @ ys) s = (case client_run b xs s of None \<Rightarrow> None | Some s' \<Rightarrow> client_run b ys s')"
  by (induction xs arbitrary: s) (auto split: option.splits)

lemma demo_reach: "demo_state acts s \<Longrightarrow> client_reach demo_bridge s"
  unfolding demo_state_def demo_new_def by (rule client_run_reach)

lemma key_hex: "hex32 key_one" "hex32 key_two" "key_one \<noteq> key_two" "key_two \<noteq> key_one"
  by (simp_all add: key_one_def key_two_def hex32_def is_hex_lower_def is_digit_def list_all_length)

lemma contract_ok: "assertNativeBridgeContract EXPECTED_FIELDS = Fulfilled EXPECTED_FIELDS"
  by (simp add: assertNativeBridgeContract_def contract_mismatches_nil)

lemma normalize_hex: "hex32 k \<Longrightarrow> normalizeDestination k label = Fulfilled k"
  by (simp add: normalizeDestination_def)

lemmas demo_eval = demo_new_def nclient_new_def exclusive_new_def client_exec_def task_resumes_def
  at_pc_def demo_boot_def demo_bridge_def demo_store_def demo_profile_def key_hex contract_ok normalize_hex Let_def
  bootstrapSession_def new_task_def set_pc_def add_log_def acquireAppliance_def acquireExclusiveResource_def
  open_after_load_def client_opener_def run_opener_def ex_begin_open_def ex_open_settles_def opened_event_def
  acquired_def open_after_acquire_def take_ownership_def bootstrap_finish_def ex_release_def ex_close_settles_def
  activateProfile_def chain_switch_def tail_settled_def serialized_begins_def gate_opens_def requiredRuntime_def
  activateProfileSerialized_def has_profile_def closeAppliance_def release_owner_def owner_closed_def
  switch_after_close_def switch_after_open_def switch_after_restore_def switch_select_def switch_restore_def
  switch_fails_def switch_succeeds_def client_dispose_def dispose_runtime_def call_begins_def client_active_def
  startOnboarding_begins_def onboarding_after_public_def onboarding_after_probe_def onboarding_after_authorize_def
  rememberAndOpen_def onboarding_ends_def identity_matches_def normalizeNativeError_def

lemma demo_boot_run: "client_run demo_bridge demo_boot demo_new = Some demo_booted"
  by (simp add: demo_eval demo_booted_def)

lemma demo_stateI:
  assumes "case client_run demo_bridge acts demo_booted of None \<Rightarrow> False | Some s \<Rightarrow> P s"
  shows "\<exists>s. demo_state acts s \<and> P s"
  using assms by (auto simp: demo_state_def client_run_append demo_boot_run split: option.splits)

section \<open>Properties\<close>

text \<open>
  C1. The native side sees one appliance at a time and in order: in every reachable state of a client, however
  its calls and the other clients of the process interleave, the native calls it made form a run of the
  protocol automaton (open, operations on the open appliance, close, destroy, and only then the next open),
  and the appliance the client owns is the one that is open and not closing.
\<close>

theorem client_native_protocol:
  assumes "client_reach b s"
  shows "native_run (owner_events (nc_log s)) \<noteq> None \<and>
    (case nc_ownership s of None \<Rightarrow> True | Some a \<Rightarrow> native_run (owner_events (nc_log s)) = Some (Some (a, False)))"
proof -
  have inv: "own_inv (owner_view s)" by (rule client_reach_own_inv [OF assms])
  have "native_run (owner_events (nc_log s)) \<noteq> None" using own_inv_parts(6) [OF inv] by (auto simp: native_inv_def)
  moreover have "native_run (owner_events (nc_log s)) = Some (Some (a, False))" if "nc_ownership s = Some a" for a
    using native_run_returned [OF inv own_inv_parts(3,4) [OF inv]] that by simp
  ultimately show ?thesis by (auto split: option.splits)
qed

theorem client_native_protocol_witness:
  "\<exists>s. demo_state [ACall (CallOp M_sync [] False), AResume 1] s \<and>
     owner_events (nc_log s) = [NativeOpened 0, NativeOperation 0] \<and> nc_ownership s = Some 0 \<and>
     native_run (owner_events (nc_log s)) = Some (Some (0, False))"
proof -
  obtain s where s: "demo_state [ACall (CallOp M_sync [] False), AResume 1] s"
    "owner_events (nc_log s) = [NativeOpened 0, NativeOperation 0] \<and> nc_ownership s = Some 0"
    using demo_stateI [where acts = "[ACall (CallOp M_sync [] False), AResume 1]"
        and P = "\<lambda>s. owner_events (nc_log s) = [NativeOpened 0, NativeOperation 0] \<and> nc_ownership s = Some 0"]
    by (auto simp: demo_eval demo_booted_def)
  with client_native_protocol [OF demo_reach [OF s(1)]] show ?thesis by auto
qed

text \<open>
  C14. Profile changes are serial: in every reachable state, while an activation or removal is running (its task is past the
  chain and has not settled), every other activation or removal that has not settled was called later and still waits
  in the chain; so the changes run one at a time and in the order of the calls, whatever their outcomes.
\<close>

theorem client_switches_serial:
  assumes "client_reach b s" and "at_pc s t running" and "pc_switch running" and "\<not> pc_waiting running"
    and "at_pc s u pending" and "pc_switch pending" and "u \<noteq> t"
  shows "t < u \<and> pc_waiting pending"
proof -
  obtain e st where run: "(nclient_step b)\<^sup>*\<^sup>* (nclient_new e st) s" using assms(1) by (auto simp: client_reach_def)
  have inv: "switch_inv s" by (rule switches.reach_inv [OF run nclient_new_switch_inv])
  have "chained_inv s" by (rule chained.reach_inv [OF run nclient_new_chained])
  then have members: "t \<in> set (nc_switches s)" "u \<in> set (nc_switches s)" using chained_at assms(2,3,5,6) by blast+
  have open_switches: "\<not> pc_settled running" "\<not> pc_settled pending" using assms(3,6) by (auto elim: pc_settled.elims)
  have pcs: "nc_tasks s ! t = running" "nc_tasks s ! u = pending" using assms(2,5) by (simp_all add: at_pc_def)
  have "\<not> u < t" using inv members open_switches(2) assms(4) pcs unfolding switch_inv_def by blast
  moreover have "pc_waiting pending" if "t < u" using inv members open_switches(1) that pcs unfolding switch_inv_def by blast
  ultimately show ?thesis using assms(7) by linarith
qed

theorem client_switches_serial_witness:
  "\<exists>s. demo_state [AActivate key_one, AActivate key_two, AResume 1] s \<and> at_pc s 1 (Gate (ActivateOp key_one)) \<and>
     at_pc s 2 (Tail (ActivateOp key_two)) \<and> (1::nat) < 2 \<and> pc_waiting (Tail (ActivateOp key_two))"
proof -
  obtain s where s: "demo_state [AActivate key_one, AActivate key_two, AResume 1] s"
    "at_pc s 1 (Gate (ActivateOp key_one)) \<and> at_pc s 2 (Tail (ActivateOp key_two))"
    using demo_stateI [where acts = "[AActivate key_one, AActivate key_two, AResume 1]"
        and P = "\<lambda>s. at_pc s 1 (Gate (ActivateOp key_one)) \<and> at_pc s 2 (Tail (ActivateOp key_two))"]
    by (auto simp: demo_eval demo_booted_def)
  with client_switches_serial [OF demo_reach [OF s(1)], of 1 "Gate (ActivateOp key_one)" 2 "Tail (ActivateOp key_two)"]
  show ?thesis by auto
qed



text \<open>
  C5. A profile is stored only for a verified and authorised appliance: whenever the client has asked the native
  store to remember a management destination with its LXMF destination, it had read before, from that destination,
  a public identity and an authorised management identity that both name exactly this pair.
\<close>

theorem enrolment_verified:
  assumes "client_reach b s" and "nc_log s = before @ ProfileRemembered d l # after"
  shows "PublicIdentityRead d \<lparr>mi_managementDestination = d, mi_lxmfDestination = Some l\<rparr> \<in> set before \<and>
    ManagementIdentityRead d \<lparr>mi_managementDestination = d, mi_lxmfDestination = Some l\<rparr> \<in> set before"
proof -
  obtain e st where "(nclient_step b)\<^sup>*\<^sup>* (nclient_new e st) s" using assms(1) by (auto simp: client_reach_def)
  then have "onboarding_inv s" by (rule enrolment.reach_inv [OF _ nclient_new_onboarding_inv])
  then have "\<forall>n < length (nc_log s). event_justified (take n (nc_log s)) (nc_log s ! n)"
    by (simp add: onboarding_inv_def log_justified_def)
  moreover have "length before < length (nc_log s)" by (simp add: assms(2))
  ultimately have "event_justified (take (length before) (nc_log s)) (nc_log s ! length before)" by blast
  then show ?thesis by (simp add: assms(2) authorised_def public_verified_def)
qed

definition demo_identity :: NativePrnsManagementIdentity where
  "demo_identity = \<lparr>mi_managementDestination = key_one, mi_lxmfDestination = Some key_two\<rparr>"

definition demo_candidate :: ReticulumApplianceCandidate where
  "demo_candidate = \<lparr>rc_managementDestination = key_one, rc_lxmfDestination = key_two, rc_interfaceId = [], rc_hops = 1\<rparr>"

definition demo_enrol :: "(jstring option \<times> jstring list) client_action list" where
  "demo_enrol = [ACall (StartOnboardingOp (Some demo_candidate)), AResume 1, AIdentity 1 (Fulfilled demo_identity),
     AIdentity 1 (Fulfilled demo_identity), AIdentity 1 (Fulfilled demo_identity), AClosed 1 (Fulfilled ()), AResume 1]"

theorem enrolment_verified_witness:
  "\<exists>s before. demo_state demo_enrol s \<and> nc_log s = before @ [ProfileRemembered key_one key_two] \<and>
     PublicIdentityRead key_one demo_identity \<in> set before \<and> ManagementIdentityRead key_one demo_identity \<in> set before"
proof -
  obtain s where s: "demo_state demo_enrol s" "\<exists>before. nc_log s = before @ [ProfileRemembered key_one key_two]"
    using demo_stateI [where acts = demo_enrol and P = "\<lambda>s. \<exists>before. nc_log s = before @ [ProfileRemembered key_one key_two]"]
    by (auto simp: demo_eval demo_booted_def demo_enrol_def demo_candidate_def demo_identity_def)
  then obtain before where b: "nc_log s = before @ [ProfileRemembered key_one key_two]" by auto
  with enrolment_verified [OF demo_reach [OF s(1)], of before key_one key_two "[]"] s(1) show ?thesis
    by (auto simp: demo_identity_def)
qed



text \<open>
  C18. Disposal is final: from a disposed client, whatever calls were in flight and however they go on, no native
  appliance is opened and no operation is started on one any more; every call of a public method made since then that
  has settled was rejected, with the error of the disposal or that of an argument checked before it; and a call
  that has not settled is rejected by its next step.
\<close>

theorem client_dispose_final:
  assumes "nc_disposed s" and "(nclient_step b)\<^sup>*\<^sup>* s s'"
  shows "nc_disposed s' \<and> native_uses s' = native_uses s \<and> requiredRuntime s' = Rejected disposed_error \<and>
    bootstrapSession s' = new_task (Settled (Rejected disposed_error)) s' \<and>
    (\<forall>t. length (nc_tasks s) \<le> t \<and> t < length (nc_tasks s') \<longrightarrow>
       (case nc_tasks s' ! t of
          Settled out \<Rightarrow> \<exists>e. out = Rejected e \<and> refusal e
        | Tail op \<Rightarrow> nc_tasks (serialized_begins t op s') ! t = Settled (Rejected disposed_error)
        | Gate op \<Rightarrow> \<exists>e. refusal e \<and> (if op = ScanOp
            then \<forall>aborted candidates. nc_tasks (scan_begins t aborted candidates s') ! t = Settled (Rejected e)
            else nc_tasks (gate_opens b t op s') ! t = Settled (Rejected e))
        | _ \<Rightarrow> False))"
proof -
  have final: "nc_disposed s' \<and> native_uses s' = native_uses s"
    by (rule native_client.disposed_forever [OF assms(2,1)])
  have "refusing (length (nc_tasks s)) s" using assms(1) by (auto simp: refusing_def)
  then have ref: "refusing (length (nc_tasks s)) s'" by (rule refusals_kept.reach_inv [OF assms(2)])
  have "case nc_tasks s' ! t of
          Settled out \<Rightarrow> \<exists>e. out = Rejected e \<and> refusal e
        | Tail op \<Rightarrow> nc_tasks (serialized_begins t op s') ! t = Settled (Rejected disposed_error)
        | Gate op \<Rightarrow> \<exists>e. refusal e \<and> (if op = ScanOp
            then \<forall>aborted candidates. nc_tasks (scan_begins t aborted candidates s') ! t = Settled (Rejected e)
            else nc_tasks (gate_opens b t op s') ! t = Settled (Rejected e))
        | _ \<Rightarrow> False" if t: "length (nc_tasks s) \<le> t" "t < length (nc_tasks s')" for t
  proof -
    have pc: "pc_refused (nc_tasks s' ! t)" using ref t by (simp add: refusing_def)
    show ?thesis
    proof (cases "nc_tasks s' ! t")
      case (Gate op)
      then show ?thesis using refusing_gate [OF ref] refusals t(2) by (cases "op = StartOnboardingOp None") auto
    next
      case (Tail op)
      then show ?thesis using final t(2) by (simp add: serialized_begins_def set_pc_def)
    next
      case (Settled out)
      then show ?thesis using pc by (cases out) auto
    qed (use pc in auto)
  qed
  then show ?thesis using final by (simp add: requiredRuntime_def bootstrapSession_def)
qed

theorem client_dispose_final_witness:
  "\<exists>s. client_run demo_bridge [ACall BeginAddOp, AResume 2] (client_dispose demo_booted) = Some s \<and>
     native_uses s = [NativeOpened 0] \<and> (\<exists>e. nc_tasks s ! 2 = Settled (Rejected e) \<and> refusal e)"
proof -
  let ?d = "client_dispose demo_booted"
  obtain s where s: "client_run demo_bridge [ACall BeginAddOp, AResume 2] ?d = Some s"
    and call: "length (nc_tasks s) = 3" "pc_settled (nc_tasks s ! 2)"
    by (simp add: demo_eval demo_booted_def numeral_2_eq_2)
  have d: "nc_disposed ?d" "native_uses ?d = [NativeOpened 0]" "length (nc_tasks ?d) = 2"
    by (simp_all add: demo_eval demo_booted_def native_uses_def)
  note final = client_dispose_final [OF d(1) client_run_steps [OF s]]
  have "\<exists>e. nc_tasks s ! 2 = Settled (Rejected e) \<and> refusal e"
    using final [THEN conjunct2, THEN conjunct2, THEN conjunct2, THEN conjunct2, THEN spec, of 2] call d(3)
    by (cases "nc_tasks s ! 2") auto
  then show ?thesis using final s d(2) by auto
qed

text \<open>
  C25. Nothing is left open behind the client's back: in every reachable state in which all calls have settled
  and the client owns no appliance, no native appliance it opened is open or closing.
\<close>

theorem client_quiescent_closed:
  assumes "client_reach b s" and "list_all pc_settled (nc_tasks s)" and "nc_ownership s = None"
  shows "native_run (owner_events (nc_log s)) = Some None"
proof -
  obtain e st where e: "exclusive_step\<^sup>*\<^sup>* exclusive_new e" and s: "(nclient_step b)\<^sup>*\<^sup>* (nclient_new e st) s"
    using assms(1) by (auto simp: client_reach_def)
  have "held_inv (owner_view s)"
    using holding.reach_inv [OF reach_refines [OF s]] exclusive.reach_inv [OF e exclusive_new_inv]
    by (simp add: owner_view_new owner_protocol_new_held)
  moreover have "pc_ref pc = None" if "pc_settled pc" for pc using that by (cases pc) auto
  then have "\<not> ref_held (owner_view s) a" for a
    using assms(2,3) by (auto simp: ref_held_def list_all_length)
  ultimately have over: "phase_over (op_phase (owner_view s) a)" if "a \<in> set (nc_own s)" for a
    using that by (auto simp: held_inv_def)
  obtain c where c: "native_run (owner_events (nc_log s)) = Some c" "\<forall>a c'. c = Some (a, c') \<longrightarrow> a \<in> set (nc_own s)"
    "\<forall>a \<in> set (nc_own s). (phase_returned (op_phase (owner_view s) a) \<longleftrightarrow> c = Some (a, False)) \<and>
       (phase_closing (op_phase (owner_view s) a) \<longleftrightarrow> c = Some (a, True))"
    using own_inv_parts(6) [OF client_reach_own_inv [OF assms(1)]] by (auto simp: native_inv_def)
  have "c = None"
  proof (rule ccontr)
    assume "c \<noteq> None"
    then obtain a c' where a: "c = Some (a, c')" by (cases c) auto
    with c over [of a] show False by (cases "op_phase (owner_view s) a"; cases c') auto
  qed
  with c(1) show ?thesis by simp
qed

theorem client_quiescent_closed_witness:
  "\<exists>s. demo_state [ADispose, AClosed 1 (Rejected (ErrorObject [])), AResume 1] s \<and>
     native_run (owner_events (nc_log s)) = Some None"
proof -
  obtain s where s: "demo_state [ADispose, AClosed 1 (Rejected (ErrorObject [])), AResume 1] s"
    "list_all pc_settled (nc_tasks s) \<and> nc_ownership s = None"
    using demo_stateI [where acts = "[ADispose, AClosed 1 (Rejected (ErrorObject [])), AResume 1]"
        and P = "\<lambda>s. list_all pc_settled (nc_tasks s) \<and> nc_ownership s = None"]
    by (auto simp: demo_eval demo_booted_def)
  with client_quiescent_closed [OF demo_reach [OF s(1)]] show ?thesis by auto
qed

section \<open>Two runs the code does not exclude\<close>

text \<open>
  A disposal between the opener of the bootstrap and its resumption: the check of \<open>#disposed\<close> is in the opener only,
  so the resumed bootstrap takes ownership in a disposed client and nothing releases the appliance any more.
\<close>

lemma dispose_gap_leaks_owner:
  "\<exists>s. client_run demo_bridge [ABootstrap, ALoaded 0 (Fulfilled (EXPECTED_FIELDS, demo_store)), AOpener 0, ADispose,
       AResume 0, AResume 0, AResume 1] demo_new = Some s \<and> nc_disposed s \<and> list_all pc_settled (nc_tasks s) \<and>
     nc_ownership s = Some 0 \<and> native_run (owner_events (nc_log s)) = Some (Some (0, False))"
  by (simp add: demo_eval native_run_def)

text \<open>
  A bootstrap during the close of a profile switch takes a place in the queue before the switch: the switch then
  waits for the client's own appliance, and the store names a profile that is not the open one.
\<close>

lemma bootstrap_during_switch_starves:
  "\<exists>s. demo_state [AActivate key_two, AResume 1, AResume 1, ABootstrap, AClosed 1 (Fulfilled ()), AOpener 1,
       AResume 2, AResume 2, AResume 1] s \<and> nc_ownership s = Some 1 \<and> fst (nc_store s) = Some key_two \<and>
     nc_tasks s ! 1 = SwitchOpen (ActivateGoal key_two) (Some key_one) 2 \<and> acquired demo_bridge 2 s = None \<and>
     \<not> ownershipTail_resolved (ex_acqs (nc_ex s)) 2"
  by (rule demo_stateI) (simp add: demo_eval demo_booted_def numeral_2_eq_2)

end
