(* ===== verification/NodeInterfaces.thy ===== *)
theory NodeInterfaces
  imports RadioRoutes NetworkInput LoraProfile JsText
begin

text \<open>
  The presentation of a node's interfaces: \<open>lib/node-interfaces.ts\<close> (one row per interface or link),
  \<open>lib/tcp-runtime-diagnostics.ts\<close> (the TCP actor and its DNS attempts) and
  \<open>lib/rmap-runtime-diagnostics.ts\<close> (the RMAP publisher). The string unions of \<open>generated/api.ts\<close> are datatypes.
\<close>

section \<open>The views of the appliance\<close>

datatype DiagnosticInterfaceStateView =
  IfInitializing | IfConnected | IfDegraded | IfReconnecting | IfFailed | IfDisconnected | IfDisabled | IfUnknown

datatype DiagnosticInterfaceModeView =
  ModeFull | ModePointToPoint | ModeAccessPoint | ModeRoaming | ModeBoundary | ModeGateway | ModeInternal

fun mode_name :: "DiagnosticInterfaceModeView \<Rightarrow> jstring" where
  "mode_name ModeFull = js ''full''"
| "mode_name ModePointToPoint = js ''point_to_point''"
| "mode_name ModeAccessPoint = js ''access_point''"
| "mode_name ModeRoaming = js ''roaming''"
| "mode_name ModeBoundary = js ''boundary''"
| "mode_name ModeGateway = js ''gateway''"
| "mode_name ModeInternal = js ''internal''"

record DiagnosticInterfaceView =
  di_id :: "nat list"
  di_mode :: DiagnosticInterfaceModeView
  di_state :: DiagnosticInterfaceStateView
  di_failure_reason :: "jstring option"
  di_rx_bytes :: nat
  di_tx_bytes :: nat
  di_destinations :: nat
  di_links :: nat
  di_transported_links :: nat

record DiagnosticLoraLastRxView =
  lr_age_ms :: nat
  lr_rssi_dbm :: int
  lr_snr_db :: int

record LoraDiagnosticsView =
  ldg_applied_tx_power_dbm :: int
  ldg_frequency_hz :: nat
  ldg_bandwidth_hz :: nat
  ldg_spreading_factor :: nat
  ldg_rx_packets :: nat
  ldg_tx_successes :: nat
  ldg_last_rx :: "DiagnosticLoraLastRxView option"

record RadioRoutesStatusView =
  rs_interfaces :: "DiagnosticInterfaceView list"
  rs_lora :: "LoraDiagnosticsView option"

datatype WifiStationStateView = WifiDisabled | WifiDisconnected | WifiConnecting | WifiConnected

datatype ReticulumTcpPeerStateView = TcpDisabled | TcpWaitingForNetwork | TcpConnecting | TcpBackoff | TcpConnected | TcpFaulted

datatype ReticulumTcpFailureView =
  DnsTimeout | DnsLookupFailed | DnsNoIpv4Result | ConnectInvalidState | ConnectReset | ConnectTimeout
| ConnectNoRoute | SocketClosed | TransmitFailed

datatype ReticulumDnsPrimaryOutcomeView =
  PrimaryNotStarted | PrimaryResolving | PrimaryResolved | PrimaryNoServers | PrimaryTimeout | PrimaryLookupFailed
| PrimaryNoIpv4Result

datatype ReticulumDnsRawSetupStateView = SetupNotStarted | SetupBinding | SetupReady | SetupBindFailed | SetupEncodeFailed

datatype ReticulumDnsRawSourceView = RawDhcp | RawPublic

datatype ReticulumDnsRawOutcomeView =
  RawNotStarted | RawSkippedDuplicate | RawSkippedLocalName | RawSending | RawAwaitingResponse | RawResolved
| RawSendFailed | RawTimeout | RawNotAResponse | RawTruncated | RawResponseCode nat | RawQuestionMismatch
| RawMalformed | RawNoIpv4Result

record ReticulumDnsRawAttemptView =
  ra_source :: ReticulumDnsRawSourceView
  ra_server :: jstring
  ra_outcome :: ReticulumDnsRawOutcomeView

datatype ReticulumDnsResolutionSourceView = ViaSystemDns | ViaRawDhcp | ViaRawPublic

record ReticulumDnsResolutionView =
  dr_address :: jstring
  dr_source :: ReticulumDnsResolutionSourceView
  dr_resolver :: "jstring option"

record ReticulumDnsDiagnosticsView =
  dd_gateway_ipv4 :: "jstring option"
  dd_dhcp_servers :: "jstring option list"
  dd_primary_outcome :: ReticulumDnsPrimaryOutcomeView
  dd_raw_setup_state :: ReticulumDnsRawSetupStateView
  dd_raw_attempts :: "ReticulumDnsRawAttemptView option list"
  dd_resolution :: "ReticulumDnsResolutionView option"

datatype RmapStampPhaseView = StampDisabled | StampSearching | StampReady | StampExhausted | StampFaulted

datatype RmapInitialTcpGateStateView = GateNotRequired | GateWaiting | GateOpen

datatype RmapQueueOutcomeView = QueueNotAttempted | QueueAccepted | QueueAnnounceDeferred | QueueOrdinaryDeferred

datatype RmapEgressConfirmationView = EgressNotApplicable | EgressNotObserved | EgressConfirmed

datatype RmapDeferredReasonView =
  DiscoveryModelInvalid | PayloadEncodingFailed | StampInitializationFailed | DestinationActivationFailed
| StampSearchExhausted | InitialTcpNotReady | AnnouncePayloadTooLarge | AnnounceQueueFull
| AnnounceConstructionRejected | OrdinaryQueueRejected

record RmapRuntimeStatusView =
  rp_config_applied :: bool
  rp_stamp_phase :: RmapStampPhaseView
  rp_stamp_attempts :: nat
  rp_initial_tcp_gate :: RmapInitialTcpGateStateView
  rp_queued_count :: nat
  rp_last_queue_outcome :: RmapQueueOutcomeView
  rp_last_queue_attempt_at_uptime_seconds :: "nat option"
  rp_egress_confirmation :: RmapEgressConfirmationView
  rp_next_due_in_seconds :: "nat option"
  rp_deferred_reason :: "RmapDeferredReasonView option"

text \<open>The fields that this presentation reads of \<open>NetworkRuntimeStatusView\<close> and \<open>NetworkConfigView\<close>.\<close>

record runtime_status =
  rt_wifi_state :: WifiStationStateView
  rt_connected_ssid :: "BytesView option"
  rt_ipv4_address :: "jstring option"
  rt_rssi_dbm :: "int option"
  rt_tcp_peer_state :: ReticulumTcpPeerStateView
  rt_last_tcp_failure :: "ReticulumTcpFailureView option"
  rt_dns_diagnostics :: "ReticulumDnsDiagnosticsView option"
  rt_rmap_status :: "RmapRuntimeStatusView option"

record network_config =
  nw_wifi_profiles :: "BytesView list" \<comment> \<open>the saved networks, by SSID\<close>
  nw_tcp_peer :: "ReticulumTcpPeerView option"
  nw_wifi_transport_enabled :: bool
  nw_lora_profile :: LoraRadioProfileView

section \<open>TCP and DNS diagnostics\<close>

datatype diagnostic_tone = ToneFailure | ToneNeutral | ToneSuccess

record ReticulumDnsDiagnosticRow =
  dw_key :: jstring
  dw_label :: jstring
  dw_outcome :: jstring
  dw_tone :: diagnostic_tone

record ReticulumDnsDiagnosticDetails =
  dt_context :: jstring
  dt_resolution :: "jstring option"
  dt_rows :: "ReticulumDnsDiagnosticRow list"

fun reticulumTcpStateLabel :: "ReticulumTcpPeerStateView option \<Rightarrow> jstring" where
  "reticulumTcpStateLabel None = js ''Unknown''"
| "reticulumTcpStateLabel (Some TcpDisabled) = js ''Disabled''"
| "reticulumTcpStateLabel (Some TcpWaitingForNetwork) = js ''Waiting for Wi-Fi''"
| "reticulumTcpStateLabel (Some TcpConnecting) = js ''Connecting''"
| "reticulumTcpStateLabel (Some TcpBackoff) = js ''Retrying''"
| "reticulumTcpStateLabel (Some TcpConnected) = js ''Connected''"
| "reticulumTcpStateLabel (Some TcpFaulted) = js ''Faulted''"

fun reticulumTcpFailureLabel :: "ReticulumTcpFailureView \<Rightarrow> jstring" where
  "reticulumTcpFailureLabel DnsTimeout = js ''DNS lookup timed out''"
| "reticulumTcpFailureLabel DnsLookupFailed = js ''DNS lookup failed''"
| "reticulumTcpFailureLabel DnsNoIpv4Result = js ''DNS returned no IPv4 address''"
| "reticulumTcpFailureLabel ConnectInvalidState = js ''TCP stack rejected the connection state''"
| "reticulumTcpFailureLabel ConnectReset = js ''Connection was reset''"
| "reticulumTcpFailureLabel ConnectTimeout = js ''Connection attempt timed out''"
| "reticulumTcpFailureLabel ConnectNoRoute = js ''No route to the peer''"
| "reticulumTcpFailureLabel SocketClosed = js ''Connected socket closed''"
| "reticulumTcpFailureLabel TransmitFailed = js ''Reticulum frame transmission failed''"

abbreviation ellipsis :: jstring where
  "ellipsis \<equiv> [8230]"

fun reticulumDnsPrimaryOutcomeLabel :: "ReticulumDnsPrimaryOutcomeView \<Rightarrow> jstring" where
  "reticulumDnsPrimaryOutcomeLabel PrimaryNotStarted = js ''Not started''"
| "reticulumDnsPrimaryOutcomeLabel PrimaryResolving = js ''Resolving'' @ ellipsis"
| "reticulumDnsPrimaryOutcomeLabel PrimaryResolved = js ''Resolved''"
| "reticulumDnsPrimaryOutcomeLabel PrimaryNoServers = js ''No DHCP resolvers''"
| "reticulumDnsPrimaryOutcomeLabel PrimaryTimeout = js ''Timed out''"
| "reticulumDnsPrimaryOutcomeLabel PrimaryLookupFailed = js ''Lookup failed''"
| "reticulumDnsPrimaryOutcomeLabel PrimaryNoIpv4Result = js ''No IPv4 answer''"

fun reticulumDnsRawSetupStateLabel :: "ReticulumDnsRawSetupStateView \<Rightarrow> jstring" where
  "reticulumDnsRawSetupStateLabel SetupNotStarted = js ''not started''"
| "reticulumDnsRawSetupStateLabel SetupBinding = js ''binding''"
| "reticulumDnsRawSetupStateLabel SetupReady = js ''ready''"
| "reticulumDnsRawSetupStateLabel SetupBindFailed = js ''bind failed''"
| "reticulumDnsRawSetupStateLabel SetupEncodeFailed = js ''query encoding failed''"

fun reticulumDnsRawOutcomeLabel :: "ReticulumDnsRawOutcomeView \<Rightarrow> jstring" where
  "reticulumDnsRawOutcomeLabel RawNotStarted = js ''Not started''"
| "reticulumDnsRawOutcomeLabel RawSkippedDuplicate = js ''Skipped duplicate''"
| "reticulumDnsRawOutcomeLabel RawSkippedLocalName = js ''Skipped for local name''"
| "reticulumDnsRawOutcomeLabel RawSending = js ''Sending'' @ ellipsis"
| "reticulumDnsRawOutcomeLabel RawAwaitingResponse = js ''Awaiting response'' @ ellipsis"
| "reticulumDnsRawOutcomeLabel RawResolved = js ''Resolved''"
| "reticulumDnsRawOutcomeLabel RawSendFailed = js ''Send failed''"
| "reticulumDnsRawOutcomeLabel RawTimeout = js ''Timed out''"
| "reticulumDnsRawOutcomeLabel RawNotAResponse = js ''Not a DNS response''"
| "reticulumDnsRawOutcomeLabel RawTruncated = js ''Truncated response''"
| "reticulumDnsRawOutcomeLabel (RawResponseCode code) = js ''DNS response code '' @ nat_digits code"
| "reticulumDnsRawOutcomeLabel RawQuestionMismatch = js ''Question mismatch''"
| "reticulumDnsRawOutcomeLabel RawMalformed = js ''Malformed response''"
| "reticulumDnsRawOutcomeLabel RawNoIpv4Result = js ''No IPv4 answer''"

fun primaryOutcomeTone :: "ReticulumDnsPrimaryOutcomeView \<Rightarrow> diagnostic_tone" where
  "primaryOutcomeTone PrimaryResolved = ToneSuccess"
| "primaryOutcomeTone PrimaryNoServers = ToneFailure"
| "primaryOutcomeTone PrimaryTimeout = ToneFailure"
| "primaryOutcomeTone PrimaryLookupFailed = ToneFailure"
| "primaryOutcomeTone PrimaryNoIpv4Result = ToneFailure"
| "primaryOutcomeTone PrimaryNotStarted = ToneNeutral"
| "primaryOutcomeTone PrimaryResolving = ToneNeutral"

fun rawOutcomeTone :: "ReticulumDnsRawOutcomeView \<Rightarrow> diagnostic_tone" where
  "rawOutcomeTone RawResolved = ToneSuccess"
| "rawOutcomeTone RawSendFailed = ToneFailure"
| "rawOutcomeTone RawTimeout = ToneFailure"
| "rawOutcomeTone RawNotAResponse = ToneFailure"
| "rawOutcomeTone RawTruncated = ToneFailure"
| "rawOutcomeTone (RawResponseCode _) = ToneFailure"
| "rawOutcomeTone RawQuestionMismatch = ToneFailure"
| "rawOutcomeTone RawMalformed = ToneFailure"
| "rawOutcomeTone RawNoIpv4Result = ToneFailure"
| "rawOutcomeTone RawNotStarted = ToneNeutral"
| "rawOutcomeTone RawSkippedDuplicate = ToneNeutral"
| "rawOutcomeTone RawSkippedLocalName = ToneNeutral"
| "rawOutcomeTone RawSending = ToneNeutral"
| "rawOutcomeTone RawAwaitingResponse = ToneNeutral"

definition resolutionLabel :: "ReticulumDnsResolutionView \<Rightarrow> jstring" where
  "resolutionLabel resolution =
     (let resolver = (case dr_resolver resolution of None \<Rightarrow> js ''resolver'' | Some r \<Rightarrow> r) in
      case dr_source resolution of
        ViaSystemDns \<Rightarrow> js ''Resolved '' @ dr_address resolution @ js '' via System DNS''
      | ViaRawDhcp \<Rightarrow> js ''Resolved '' @ dr_address resolution @ js '' via DHCP '' @ resolver
      | ViaRawPublic \<Rightarrow> js ''Resolved '' @ dr_address resolution @ js '' via Public '' @ resolver)"

text \<open>The loop over \<^verbatim>\<open>raw_attempts.entries()\<close>; the index counts the empty slots too.\<close>

definition raw_attempt_row :: "nat \<Rightarrow> ReticulumDnsRawAttemptView \<Rightarrow> ReticulumDnsDiagnosticRow" where
  "raw_attempt_row index attempt =
     \<lparr>dw_key = js ''raw-'' @ nat_digits index @ [45] @ ra_server attempt,
      dw_label = (if ra_source attempt = RawDhcp then js ''DHCP'' else js ''Public'') @ [32] @ ra_server attempt,
      dw_outcome = reticulumDnsRawOutcomeLabel (ra_outcome attempt),
      dw_tone = rawOutcomeTone (ra_outcome attempt)\<rparr>"

fun raw_attempt_rows :: "nat \<Rightarrow> ReticulumDnsRawAttemptView option list \<Rightarrow> ReticulumDnsDiagnosticRow list" where
  "raw_attempt_rows index [] = []"
| "raw_attempt_rows index (None # attempts) = raw_attempt_rows (Suc index) attempts"
| "raw_attempt_rows index (Some attempt # attempts) =
     raw_attempt_row index attempt # raw_attempt_rows (Suc index) attempts"

definition dns_context :: "ReticulumDnsDiagnosticsView \<Rightarrow> jstring" where
  "dns_context diagnostics =
     (let dhcpServers = List.map_filter id (dd_dhcp_servers diagnostics) in
      js_join middle_dot
        [js ''Gateway '' @ (case dd_gateway_ipv4 diagnostics of None \<Rightarrow> js ''unavailable'' | Some g \<Rightarrow> g),
         js ''DHCP DNS '' @ (if dhcpServers = [] then js ''none'' else js_join (js '', '') dhcpServers),
         js ''Raw socket '' @ reticulumDnsRawSetupStateLabel (dd_raw_setup_state diagnostics)])"

definition reticulumDnsDiagnosticDetails :: "runtime_status option \<Rightarrow> ReticulumDnsDiagnosticDetails option" where
  "reticulumDnsDiagnosticDetails status =
     (case Option.bind status rt_dns_diagnostics of
        None \<Rightarrow> None
      | Some diagnostics \<Rightarrow> Some
          \<lparr>dt_context = dns_context diagnostics,
           dt_resolution = map_option resolutionLabel (dd_resolution diagnostics),
           dt_rows = \<lparr>dw_key = js ''system'', dw_label = js ''System DNS'',
                      dw_outcome = reticulumDnsPrimaryOutcomeLabel (dd_primary_outcome diagnostics),
                      dw_tone = primaryOutcomeTone (dd_primary_outcome diagnostics)\<rparr>
                     # raw_attempt_rows 0 (dd_raw_attempts diagnostics)\<rparr>)"

definition reticulumTcpDiagnostic :: "runtime_status option \<Rightarrow> jstring option" where
  "reticulumTcpDiagnostic status =
     (case status of
        None \<Rightarrow> None
      | Some s \<Rightarrow>
          (case rt_last_tcp_failure s of
             Some f \<Rightarrow>
               let failure = reticulumTcpFailureLabel f
               in Some (if rt_tcp_peer_state s = TcpBackoff then failure @ js ''. Retrying automatically.''
                        else js ''Last failure: '' @ failure @ js ''.'')
           | None \<Rightarrow>
               if rt_tcp_peer_state s = TcpBackoff
               then Some (js ''Retry delay active. The appliance will try again automatically.'')
               else None))"

section \<open>RMAP publisher\<close>

datatype rmap_tone = RmapError | RmapNeutral | RmapSuccess | RmapWarning

record RmapRuntimePresentation =
  rq_headline :: jstring
  rq_rows :: "jstring list"
  rq_tone :: rmap_tone

definition compactSeconds :: "nat \<Rightarrow> jstring" where
  "compactSeconds seconds =
     (if seconds < 60 then nat_digits seconds @ js ''s''
      else if seconds < 3600 then nat_digits (seconds div 60) @ js ''m''
      else if seconds < 86400
      then nat_digits (seconds div 3600) @ js ''h '' @ nat_digits (seconds mod 3600 div 60) @ js ''m''
      else nat_digits (seconds div 86400) @ js ''d '' @ nat_digits (seconds mod 86400 div 3600) @ js ''h'')"

fun deferredReasonLabel :: "RmapDeferredReasonView \<Rightarrow> jstring" where
  "deferredReasonLabel DiscoveryModelInvalid = js ''Discovery data is invalid''"
| "deferredReasonLabel PayloadEncodingFailed = js ''Discovery payload could not be encoded''"
| "deferredReasonLabel StampInitializationFailed = js ''Stamp search could not start''"
| "deferredReasonLabel DestinationActivationFailed = js ''Discovery destination could not be activated''"
| "deferredReasonLabel StampSearchExhausted = js ''Stamp search was exhausted''"
| "deferredReasonLabel InitialTcpNotReady = js ''Public TCP interface is not ready''"
| "deferredReasonLabel AnnouncePayloadTooLarge = js ''Discovery announce is too large''"
| "deferredReasonLabel AnnounceQueueFull = js ''Native announce queue is full''"
| "deferredReasonLabel AnnounceConstructionRejected = js ''Native announce construction was rejected''"
| "deferredReasonLabel OrdinaryQueueRejected = js ''Transmit coordinator is busy''"

definition stampLabel :: "RmapRuntimeStatusView \<Rightarrow> jstring" where
  "stampLabel status =
     (let attempts = nat_digits (rp_stamp_attempts status) @ js '' attempts)'' in
      case rp_stamp_phase status of
        StampDisabled \<Rightarrow> js ''Disabled''
      | StampSearching \<Rightarrow> js ''Searching ('' @ attempts
      | StampReady \<Rightarrow> js ''Ready ('' @ attempts
      | StampExhausted \<Rightarrow> js ''Exhausted ('' @ attempts
      | StampFaulted \<Rightarrow> js ''Faulted'')"

definition gateLabel :: "RmapRuntimeStatusView \<Rightarrow> jstring" where
  "gateLabel status =
     (case rp_initial_tcp_gate status of
        GateNotRequired \<Rightarrow> js ''No public TCP target required''
      | GateWaiting \<Rightarrow> js ''Waiting for public TCP''
      | GateOpen \<Rightarrow> js ''Public TCP ready'')"

definition queueLabel :: "RmapRuntimeStatusView \<Rightarrow> jstring" where
  "queueLabel status =
     (let suffix = (case rp_last_queue_attempt_at_uptime_seconds status of
                      None \<Rightarrow> [] | Some seconds \<Rightarrow> js '' at '' @ compactSeconds seconds @ js '' uptime'') in
      case rp_last_queue_outcome status of
        QueueNotAttempted \<Rightarrow> js ''No publication attempted''
      | QueueAccepted \<Rightarrow> js ''Accepted '' @ nat_digits (rp_queued_count status) @ js '' publication'' @
                         (if rp_queued_count status = 1 then [] else js ''s'') @ suffix
      | QueueAnnounceDeferred \<Rightarrow> js ''Native announce admission deferred'' @ suffix
      | QueueOrdinaryDeferred \<Rightarrow> js ''Transmit admission deferred'' @ suffix)"

definition egressLabel :: "RmapRuntimeStatusView \<Rightarrow> jstring option" where
  "egressLabel status =
     (case rp_egress_confirmation status of
        EgressNotApplicable \<Rightarrow> None
      | EgressNotObserved \<Rightarrow> Some (js ''Accepted for transmission; radio or link completion is not tracked'')
      | EgressConfirmed \<Rightarrow> Some (js ''Physical egress confirmed''))"

definition rmap_rows :: "RmapRuntimeStatusView \<Rightarrow> jstring list" where
  "rmap_rows status =
     [js ''Stamp '' @ stampLabel status, gateLabel status, queueLabel status] @
     (case egressLabel status of None \<Rightarrow> [] | Some egress \<Rightarrow> [egress]) @
     (case rp_next_due_in_seconds status of
        None \<Rightarrow> [] | Some s \<Rightarrow> [js ''Next publication due in '' @ compactSeconds s]) @
     (case rp_deferred_reason status of None \<Rightarrow> [] | Some r \<Rightarrow> [deferredReasonLabel r])"

definition rmapRuntimePresentation :: "runtime_status option \<Rightarrow> bool \<Rightarrow> RmapRuntimePresentation" where
  "rmapRuntimePresentation runtime desiredEnabled =
     (case Option.bind runtime rt_rmap_status of
        None \<Rightarrow>
          \<lparr>rq_headline = (if desiredEnabled then js ''Status unavailable'' else js ''Disabled''),
           rq_rows = (if desiredEnabled then [js ''The connected firmware did not report RMAP publication state.'']
                      else [js ''RMAP publication is not enabled.'']),
           rq_tone = RmapNeutral\<rparr>
      | Some status \<Rightarrow>
          let rows = rmap_rows status;
              present = (\<lambda>headline tone. \<lparr>rq_headline = headline, rq_rows = rows, rq_tone = tone\<rparr>)
          in if \<not> rp_config_applied status then present (js ''Restart required'') RmapWarning
             else if rp_stamp_phase status = StampFaulted \<or> rp_stamp_phase status = StampExhausted
             then present (js ''Publication blocked'') RmapError
             else if rp_stamp_phase status = StampDisabled then present (js ''Disabled'') RmapNeutral
             else if rp_initial_tcp_gate status = GateWaiting then present (js ''Waiting for public TCP'') RmapWarning
             else if rp_last_queue_outcome status = QueueAnnounceDeferred \<or>
                     rp_last_queue_outcome status = QueueOrdinaryDeferred \<or> rp_deferred_reason status \<noteq> None
             then present (js ''Publication deferred'') RmapWarning
             else if rp_stamp_phase status = StampSearching then present (js ''Preparing signed marker'') RmapNeutral
             else if rp_last_queue_outcome status = QueueAccepted then present (js ''Publication accepted'') RmapSuccess
             else present (js ''Ready to publish'') RmapNeutral)"

section \<open>Interface rows\<close>

datatype NodeInterfaceKind = KindBluetooth | KindLora | KindTcpClient | KindTcpServer | KindWifiStation | KindOther

datatype NodeInterfaceState = NodeOnline | NodeOffline | NodeFaulted | NodeUnknown

record NodeInterfaceSummary =
  ni_key :: jstring
  ni_kind :: NodeInterfaceKind
  ni_label :: jstring
  ni_enabled :: bool
  ni_state :: NodeInterfaceState
  ni_summary :: jstring
  ni_metrics :: "(jstring \<times> jstring) list" \<comment> \<open>label and value\<close>

record NodeInterfaceInput =
  in_config :: "network_config option"
  in_runtime :: "runtime_status option"
  in_radioRoutes :: "RadioRoutesStatusView option"

definition megahertz :: "nat \<Rightarrow> jstring" where
  "megahertz hz = js_ratio_toFixed 4 (int hz) 1000000 @ js '' MHz''"

text \<open>\<^verbatim>\<open>Math.round\<close> of a quotient by a thousand rounds halves up, and the quotient of a safe integer is on the same
  side of a half as the exact one.\<close>

definition kilohertz :: "nat \<Rightarrow> jstring" where
  "kilohertz hz = nat_digits ((hz + 500) div 1000) @ js '' kHz''"

fun tcpPeerAddress :: "ReticulumTcpPeerView \<Rightarrow> jstring" where
  "tcpPeerAddress (PeerIpv4 _ address _) = address"
| "tcpPeerAddress (PeerHostname _ hostname _) = hostname"

fun peer_enabled :: "ReticulumTcpPeerView \<Rightarrow> bool" where
  "peer_enabled (PeerIpv4 enabled _ _) = enabled"
| "peer_enabled (PeerHostname enabled _ _) = enabled"

fun peer_port :: "ReticulumTcpPeerView \<Rightarrow> nat" where
  "peer_port (PeerIpv4 _ _ port) = port"
| "peer_port (PeerHostname _ _ port) = port"

definition interfaceState :: "DiagnosticInterfaceView option \<Rightarrow> NodeInterfaceState" where
  "interfaceState record =
     (case record of
        None \<Rightarrow> NodeUnknown
      | Some r \<Rightarrow>
          (case di_state r of
             IfConnected \<Rightarrow> NodeOnline
           | IfDegraded \<Rightarrow> NodeOnline
           | IfInitializing \<Rightarrow> NodeOffline
           | IfReconnecting \<Rightarrow> NodeOffline
           | IfDisconnected \<Rightarrow> NodeOffline
           | IfDisabled \<Rightarrow> NodeOffline
           | IfFailed \<Rightarrow> NodeFaulted
           | IfUnknown \<Rightarrow> NodeUnknown))"

definition tcpState :: "runtime_status option \<Rightarrow> NodeInterfaceState" where
  "tcpState runtime =
     (case runtime of
        None \<Rightarrow> NodeUnknown
      | Some r \<Rightarrow>
          (case rt_tcp_peer_state r of
             TcpConnected \<Rightarrow> NodeOnline
           | TcpFaulted \<Rightarrow> NodeFaulted
           | _ \<Rightarrow> NodeOffline))"

definition wifiState :: "runtime_status option \<Rightarrow> NodeInterfaceState" where
  "wifiState runtime =
     (case runtime of
        None \<Rightarrow> NodeUnknown
      | Some r \<Rightarrow> (case rt_wifi_state r of WifiConnected \<Rightarrow> NodeOnline | _ \<Rightarrow> NodeOffline))"

definition loraSummary :: "LoraDiagnosticsView option \<Rightarrow> jstring" where
  "loraSummary lora =
     (case Option.bind lora ldg_last_rx of
        None \<Rightarrow> js ''No packets received yet''
      | Some rx \<Rightarrow>
          js ''Last RX '' @ nat_digits ((lr_age_ms rx + 500) div 1000) @ js ''s ago'' @ middle_dot @
          int_digits (lr_rssi_dbm rx) @ js '' dBm'' @ middle_dot @ int_digits (lr_snr_db rx) @ js '' dB SNR'')"

definition loraMetrics ::
  "LoraRadioProfileView option \<Rightarrow> LoraDiagnosticsView option \<Rightarrow> (jstring \<times> jstring) list" where
  "loraMetrics profile lora =
     (case lora of
        Some l \<Rightarrow>
          [(js ''Frequency'', megahertz (ldg_frequency_hz l)),
           (js ''Bandwidth'', kilohertz (ldg_bandwidth_hz l)),
           (js ''Spreading factor'', nat_digits (ldg_spreading_factor l)),
           (js ''TX power'', int_digits (ldg_applied_tx_power_dbm l) @ js '' dBm''),
           (js ''Received packets'', nat_digits (ldg_rx_packets l)),
           (js ''TX successes'', nat_digits (ldg_tx_successes l))]
      | None \<Rightarrow>
          (case profile of
             Some p \<Rightarrow>
               [(js ''Frequency'', megahertz (lp_frequency_hz p)),
                (js ''Bandwidth'', kilohertz (lp_bandwidth_hz p)),
                (js ''Spreading factor'', nat_digits (lp_spreading_factor p)),
                (js ''TX power'', int_digits (lp_tx_power_dbm p) @ js '' dBm'')]
           | None \<Rightarrow> []))"

definition buildLora ::
  "LoraRadioProfileView option \<Rightarrow> LoraDiagnosticsView option \<Rightarrow> DiagnosticInterfaceView option
   \<Rightarrow> NodeInterfaceSummary" where
  "buildLora profile lora record =
     \<lparr>ni_key = js ''lora'', ni_kind = KindLora, ni_label = js ''LoRa radio'', ni_enabled = True,
      ni_state = interfaceState record, ni_summary = loraSummary lora, ni_metrics = loraMetrics profile lora\<rparr>"

fun kind_name :: "NodeInterfaceKind \<Rightarrow> jstring" where
  "kind_name KindBluetooth = js ''bluetooth''"
| "kind_name KindLora = js ''lora''"
| "kind_name KindTcpClient = js ''tcp_client''"
| "kind_name KindTcpServer = js ''tcp_server''"
| "kind_name KindWifiStation = js ''wifi_station''"
| "kind_name KindOther = js ''other''"

definition buildTcp ::
  "ReticulumTcpPeerView option \<Rightarrow> runtime_status option \<Rightarrow> DiagnosticInterfaceView option \<Rightarrow> NodeInterfaceSummary" where
  "buildTcp peer runtime record =
     (let interfaceKind = Option.bind record (\<lambda>r. reticulumInterfaceKind (di_id r));
          kind = (if interfaceKind = Some 2 \<or> interfaceKind = Some 11 then KindTcpServer else KindTcpClient)
      in \<lparr>ni_key = kind_name kind,
          ni_kind = kind,
          ni_label = js ''Reticulum TCP'',
          ni_enabled = (case peer of None \<Rightarrow> False | Some p \<Rightarrow> peer_enabled p),
          ni_state = tcpState runtime,
          ni_summary = (case reticulumTcpDiagnostic runtime of
                          Some diagnostic \<Rightarrow> diagnostic
                        | None \<Rightarrow> reticulumTcpStateLabel (map_option rt_tcp_peer_state runtime) @
                                  (if peer = None then middle_dot @ js ''no peer configured'' else [])),
          ni_metrics = (case peer of
                          Some p \<Rightarrow> [(js ''Peer'', tcpPeerAddress p @ [58] @ nat_digits (peer_port p)),
                                     (js ''Enabled'', if peer_enabled p then js ''yes'' else js ''no'')]
                        | None \<Rightarrow> [(js ''Peer'', js ''not configured'')])\<rparr>)"

definition buildPrnsInterface :: "DiagnosticInterfaceView \<Rightarrow> NodeInterfaceSummary" where
  "buildPrnsInterface record =
     \<lparr>ni_key = reticulumInterfaceIdHex (di_id record),
      ni_kind = (if reticulumInterfaceFamily (di_id record) = FamilyBluetooth then KindBluetooth else KindOther),
      ni_label = reticulumInterfaceKindName (di_id record),
      ni_enabled = (di_state record \<noteq> IfDisabled),
      ni_state = interfaceState (Some record),
      ni_summary = (case di_failure_reason record of
                      Some reason \<Rightarrow> reason
                    | None \<Rightarrow> js_replace_unit 95 32 (mode_name (di_mode record)) @ middle_dot @
                              nat_digits (di_destinations record) @ js '' destinations'' @ middle_dot @
                              nat_digits (di_links record) @ js '' links''),
      ni_metrics = [(js ''Received'', nat_digits (di_rx_bytes record) @ js '' bytes''),
                    (js ''Transmitted'', nat_digits (di_tx_bytes record) @ js '' bytes''),
                    (js ''Transported links'', nat_digits (di_transported_links record))]\<rparr>"

definition buildWifi :: "network_config \<Rightarrow> runtime_status option \<Rightarrow> NodeInterfaceSummary" where
  "buildWifi config runtime =
     (let ssid = Option.bind runtime rt_connected_ssid;
          ipv4 = Option.bind runtime rt_ipv4_address;
          rssi = Option.bind runtime rt_rssi_dbm
      in \<lparr>ni_key = js ''wifi_station'',
          ni_kind = KindWifiStation,
          ni_label = js ''Wi-Fi station'',
          ni_enabled = nw_wifi_transport_enabled config,
          ni_state = wifiState runtime,
          ni_summary = (case ssid of
                          Some s \<Rightarrow> networkBytesText s @ (case ipv4 of Some a \<Rightarrow> middle_dot @ a | None \<Rightarrow> [])
                        | None \<Rightarrow> js ''No associated network''),
          ni_metrics = (case ssid of Some s \<Rightarrow> [(js ''Network'', networkBytesText s)] | None \<Rightarrow> []) @
                       (case ipv4 of Some a \<Rightarrow> [(js ''IPv4'', a)] | None \<Rightarrow> []) @
                       (case rssi of Some r \<Rightarrow> [(js ''RSSI'', int_digits r @ js '' dBm'')] | None \<Rightarrow> []) @
                       [(js ''Saved networks'', nat_digits (length (nw_wifi_profiles config)))]\<rparr>)"

definition is_prns_record :: "DiagnosticInterfaceView \<Rightarrow> bool" where
  "is_prns_record record \<longleftrightarrow>
     reticulumInterfaceFamily (di_id record) \<noteq> FamilyLora \<and> reticulumInterfaceFamily (di_id record) \<noteq> FamilyTcp"

definition buildNodeInterfaces :: "NodeInterfaceInput \<Rightarrow> NodeInterfaceSummary list" where
  "buildNodeInterfaces input =
     (let config = in_config input;
          runtime = in_runtime input;
          radioRoutes = in_radioRoutes input;
          records = (case radioRoutes of None \<Rightarrow> [] | Some r \<Rightarrow> rs_interfaces r);
          loraRecord = find (\<lambda>record. reticulumInterfaceFamily (di_id record) = FamilyLora) records;
          tcpRecord = find (\<lambda>record. reticulumInterfaceFamily (di_id record) = FamilyTcp) records;
          wifiEnabled = (case config of None \<Rightarrow> False | Some c \<Rightarrow> nw_wifi_transport_enabled c);
          tcp_peer = Option.bind config nw_tcp_peer;
          tcpConfigured = (tcp_peer \<noteq> None)
      in (if config \<noteq> None \<or> radioRoutes \<noteq> None
          then [buildLora (map_option nw_lora_profile config) (Option.bind radioRoutes rs_lora) loraRecord] else []) @
         (if tcpConfigured \<or> wifiEnabled then [buildTcp tcp_peer runtime tcpRecord] else []) @
         (case config of Some c \<Rightarrow> if wifiEnabled then [buildWifi c runtime] else [] | None \<Rightarrow> []) @
         map buildPrnsInterface (filter is_prns_record records))"

section \<open>Lemmas\<close>

declare js.simps [simp del]

lemma length_hex_id: "\<forall>b \<in> set bs. b < 256 \<Longrightarrow> length (reticulumInterfaceIdHex bs) = 2 * length bs"
  by (induction bs) (auto simp: reticulumInterfaceIdHex_def hex_byte)

lemma js_eq_iff: "js s = js t \<longleftrightarrow> s = t"
  by (induction s arbitrary: t; case_tac t) (simp_all add: js.simps)

lemma disjoint_mono_sets: "A \<subseteq> C \<Longrightarrow> B \<subseteq> D \<Longrightarrow> C \<inter> D = {} \<Longrightarrow> A \<inter> B = {}"
  by blast

definition registry_ids_ok :: "DiagnosticInterfaceView list \<Rightarrow> bool" where
  "registry_ids_ok records \<longleftrightarrow>
     distinct (map di_id records) \<and> list_all (\<lambda>r. length (di_id r) = 8 \<and> list_all (\<lambda>b. b < 256) (di_id r)) records"

lemma prns_keys_distinct:
  assumes "registry_ids_ok records"
  shows "distinct (map (ni_key \<circ> buildPrnsInterface) (filter P records))"
proof -
  have "inj_on (reticulumInterfaceIdHex \<circ> di_id) (set records)"
  proof (rule inj_onI)
    fix r q assume rq: "r \<in> set records" "q \<in> set records" "(reticulumInterfaceIdHex \<circ> di_id) r = (reticulumInterfaceIdHex \<circ> di_id) q"
    have bytes: "\<forall>b \<in> set (di_id x). b < 256" if "x \<in> set records" for x
      using assms that by (simp add: registry_ids_ok_def list_all_iff)
    have "di_id r = di_id q"
      by (rule hex_id_inj [OF bytes [OF rq(1)] bytes [OF rq(2)]]) (use rq(3) in simp)
    moreover have "inj_on di_id (set records)"
      using assms by (simp add: registry_ids_ok_def distinct_map)
    ultimately show "r = q" using rq by (simp add: inj_on_eq_iff)
  qed
  then have "inj_on (reticulumInterfaceIdHex \<circ> di_id) (set (filter P records))"
    by (rule inj_on_subset) auto
  moreover have "distinct (filter P records)"
    using assms by (auto simp: registry_ids_ok_def distinct_map)
  ultimately show ?thesis
    by (simp add: distinct_map buildPrnsInterface_def comp_def)
qed

lemma prns_key_length:
  "registry_ids_ok records \<Longrightarrow> r \<in> set records \<Longrightarrow> length (ni_key (buildPrnsInterface r)) = 16"
  by (auto simp: registry_ids_ok_def list_all_iff buildPrnsInterface_def length_hex_id)

lemma buildTcp_key: "ni_key (buildTcp peer runtime r) \<in> {js ''tcp_client'', js ''tcp_server''}"
  by (simp add: buildTcp_def Let_def)

lemma buildTcp_kind: "ni_kind (buildTcp peer runtime r) \<in> {KindTcpClient, KindTcpServer}"
  by (simp add: buildTcp_def Let_def)

lemma buildTcp_state [simp]: "ni_state (buildTcp peer runtime r) = tcpState runtime"
  by (simp add: buildTcp_def Let_def)

lemma buildLora_fields [simp]:
  "ni_key (buildLora profile lora r) = js ''lora''"
  "ni_kind (buildLora profile lora r) = KindLora"
  "ni_state (buildLora profile lora r) = interfaceState r"
  by (simp_all add: buildLora_def)

lemma buildWifi_fields [simp]:
  "ni_key (buildWifi c runtime) = js ''wifi_station''"
  "ni_kind (buildWifi c runtime) = KindWifiStation"
  "ni_state (buildWifi c runtime) = wifiState runtime"
  by (simp_all add: buildWifi_def Let_def)

lemma buildPrns_fields [simp]:
  "ni_state (buildPrnsInterface r) = interfaceState (Some r)"
  "ni_kind (buildPrnsInterface r) = KindBluetooth \<or> ni_kind (buildPrnsInterface r) = KindOther"
  by (simp_all add: buildPrnsInterface_def)

definition registry :: "NodeInterfaceInput \<Rightarrow> DiagnosticInterfaceView list" where
  "registry input = (case in_radioRoutes input of None \<Rightarrow> [] | Some r \<Rightarrow> rs_interfaces r)"

text \<open>The rows before those of the registry: at most one for LoRa, TCP and Wi-Fi each, with the three kinds of key.\<close>

definition fixed_rows :: "NodeInterfaceSummary list \<Rightarrow> bool" where
  "fixed_rows rows \<longleftrightarrow>
     (\<exists>lora tcp wifi. rows = lora @ tcp @ wifi \<and> length lora \<le> 1 \<and> length tcp \<le> 1 \<and> length wifi \<le> 1 \<and>
        ni_key ` set lora \<subseteq> {js ''lora''} \<and> ni_key ` set tcp \<subseteq> {js ''tcp_client'', js ''tcp_server''} \<and>
        ni_key ` set wifi \<subseteq> {js ''wifi_station''} \<and>
        ni_kind ` set rows \<subseteq> {KindLora, KindTcpClient, KindTcpServer, KindWifiStation})"

lemma buildNodeInterfaces_split:
  obtains rows where "buildNodeInterfaces input = rows @ map buildPrnsInterface (filter is_prns_record (registry input))"
    and "fixed_rows rows"
proof
  let ?config = "in_config input" and ?rr = "in_radioRoutes input"
  let ?find = "\<lambda>f. find (\<lambda>record. reticulumInterfaceFamily (di_id record) = f) (registry input)"
  let ?lora = "if ?config \<noteq> None \<or> ?rr \<noteq> None
     then [buildLora (map_option nw_lora_profile ?config) (Option.bind ?rr rs_lora) (?find FamilyLora)] else []"
  let ?wifi_on = "case ?config of None \<Rightarrow> False | Some c \<Rightarrow> nw_wifi_transport_enabled c"
  let ?peer = "Option.bind ?config nw_tcp_peer"
  let ?tcp = "if ?peer \<noteq> None \<or> ?wifi_on then [buildTcp ?peer (in_runtime input) (?find FamilyTcp)] else []"
  let ?wifi = "case ?config of Some c \<Rightarrow> if ?wifi_on then [buildWifi c (in_runtime input)] else [] | None \<Rightarrow> []"
  show "buildNodeInterfaces input =
      (?lora @ ?tcp @ ?wifi) @ map buildPrnsInterface (filter is_prns_record (registry input))"
    by (simp only: buildNodeInterfaces_def Let_def append_assoc registry_def)
  show "fixed_rows (?lora @ ?tcp @ ?wifi)"
    unfolding fixed_rows_def
  proof (intro exI conjI)
    show "?lora @ ?tcp @ ?wifi = ?lora @ ?tcp @ ?wifi" ..
    show "length ?lora \<le> 1" "length ?tcp \<le> 1" "length ?wifi \<le> 1" by (simp_all split: option.split)
    show "ni_key ` set ?lora \<subseteq> {js ''lora''}" by auto
    show "ni_key ` set ?tcp \<subseteq> {js ''tcp_client'', js ''tcp_server''}" using buildTcp_key by auto
    show "ni_key ` set ?wifi \<subseteq> {js ''wifi_station''}" by (auto split: option.split)
    have "ni_kind ` set ?lora \<subseteq> {KindLora}" by auto
    moreover have "ni_kind ` set ?tcp \<subseteq> {KindTcpClient, KindTcpServer}" using buildTcp_kind by auto
    moreover have "ni_kind ` set ?wifi \<subseteq> {KindWifiStation}" by (auto split: option.split)
    ultimately show "ni_kind ` set (?lora @ ?tcp @ ?wifi) \<subseteq> {KindLora, KindTcpClient, KindTcpServer, KindWifiStation}"
      unfolding set_append image_Un by blast
  qed
qed

lemma fixed_rows_keys:
  assumes "fixed_rows rows"
  shows "distinct (map ni_key rows)" and "\<forall>row \<in> set rows. length (ni_key row) < 16"
proof -
  obtain lora tcp wifi where rows: "rows = lora @ tcp @ wifi" and "length lora \<le> 1" "length tcp \<le> 1" "length wifi \<le> 1"
    and keys: "ni_key ` set lora \<subseteq> {js ''lora''}" "ni_key ` set tcp \<subseteq> {js ''tcp_client'', js ''tcp_server''}"
      "ni_key ` set wifi \<subseteq> {js ''wifi_station''}"
    using assms unfolding fixed_rows_def by (elim exE conjE) (rule that)
  then have "distinct (map ni_key lora)" "distinct (map ni_key tcp)" "distinct (map ni_key wifi)"
    by (auto simp: le_Suc_eq length_Suc_conv)
  moreover have "ni_key ` set lora \<inter> ni_key ` set tcp = {}" "ni_key ` set lora \<inter> ni_key ` set wifi = {}"
      "ni_key ` set tcp \<inter> ni_key ` set wifi = {}"
    by (rule disjoint_mono_sets[OF keys(1) keys(2)] disjoint_mono_sets[OF keys(1) keys(3)]
        disjoint_mono_sets[OF keys(2) keys(3)]; simp add: js_eq_iff)+
  ultimately show "distinct (map ni_key rows)" by (auto simp: rows)
  show "\<forall>row \<in> set rows. length (ni_key row) < 16"
  proof
    fix row assume "row \<in> set rows"
    then have "ni_key row \<in> {js ''lora''} \<union> {js ''tcp_client'', js ''tcp_server''} \<union> {js ''wifi_station''}"
      using keys unfolding rows set_append by blast
    then show "length (ni_key row) < 16" by auto
  qed
qed


lemma node_row_cases:
  assumes "row \<in> set (buildNodeInterfaces input)"
  obtains (lora) profile lora where "row = buildLora profile lora
      (find (\<lambda>record. reticulumInterfaceFamily (di_id record) = FamilyLora) (registry input))"
  | (tcp) peer r where "row = buildTcp peer (in_runtime input) r"
  | (wifi) c where "row = buildWifi c (in_runtime input)"
  | (prns) r where "r \<in> set (registry input)" "row = buildPrnsInterface r"
proof -
  let ?thesis_set = "range (\<lambda>(p, l). buildLora p l
      (find (\<lambda>record. reticulumInterfaceFamily (di_id record) = FamilyLora) (registry input))) \<union>
    range (\<lambda>(peer, r). buildTcp peer (in_runtime input) r) \<union> range (\<lambda>c. buildWifi c (in_runtime input)) \<union>
    buildPrnsInterface ` set (registry input)"
  have "row \<in> ?thesis_set"
    using assms unfolding buildNodeInterfaces_def Let_def set_append registry_def [symmetric]
    by (auto split: option.splits if_splits)
  then show thesis using that by auto
qed

lemma interfaceState_online:
  "interfaceState (Some r) = NodeOnline \<longleftrightarrow> di_state r = IfConnected \<or> di_state r = IfDegraded"
  by (simp add: interfaceState_def split: DiagnosticInterfaceStateView.split)

lemma tcpState_online: "tcpState runtime = NodeOnline \<longleftrightarrow> map_option rt_tcp_peer_state runtime = Some TcpConnected"
  by (simp add: tcpState_def split: option.split ReticulumTcpPeerStateView.split)

lemma wifiState_online: "wifiState runtime = NodeOnline \<longleftrightarrow> map_option rt_wifi_state runtime = Some WifiConnected"
  by (simp add: wifiState_def split: option.split WifiStationStateView.split)

lemma fixed_rows_no_prns:
  assumes "fixed_rows rows"
  shows "filter (\<lambda>row. ni_kind row = KindBluetooth \<or> ni_kind row = KindOther) rows = []"
proof -
  have kinds: "ni_kind ` set rows \<subseteq> {KindLora, KindTcpClient, KindTcpServer, KindWifiStation}"
    using assms unfolding fixed_rows_def by (elim exE conjE)
  show ?thesis
  proof (rule filter_False, rule ballI)
    fix row assume "row \<in> set rows"
    then have "ni_kind row \<in> {KindLora, KindTcpClient, KindTcpServer, KindWifiStation}" using kinds by blast
    then show "\<not> (ni_kind row = KindBluetooth \<or> ni_kind row = KindOther)" by auto
  qed
qed

lemma raw_attempt_rows_length: "length (raw_attempt_rows i attempts) = length (filter (\<lambda>a. a \<noteq> None) attempts)"
  by (induction i attempts rule: raw_attempt_rows.induct) simp_all

lemma raw_attempt_rows_keys:
  "row \<in> set (raw_attempt_rows i attempts) \<Longrightarrow> \<exists>j s. i \<le> j \<and> dw_key row = js ''raw-'' @ nat_digits j @ 45 # s"
  by (induction i attempts rule: raw_attempt_rows.induct)
    (fastforce simp: raw_attempt_row_def dest: Suc_leD)+

lemma digits_dash_cancel: "nat_digits a @ 45 # s = nat_digits b @ 45 # t \<Longrightarrow> a = b"
proof -
  have no_dash: "c \<noteq> 45" if "c \<in> set (nat_digits n)" for c n
    using nat_digits_digit [OF that] by (auto simp: is_digit_def)
  have take: "takeWhile (\<lambda>c. c \<noteq> 45) (nat_digits n @ 45 # u) = nat_digits n" for n u
    by (subst takeWhile_append2) (auto dest: no_dash)
  show "a = b" if "nat_digits a @ 45 # s = nat_digits b @ 45 # t"
    using arg_cong [OF that, of "takeWhile (\<lambda>c. c \<noteq> 45)"] by (simp add: take nat_digits_inj)
qed

lemma raw_attempt_rows_distinct: "distinct (map dw_key (raw_attempt_rows i attempts))"
proof (induction i attempts rule: raw_attempt_rows.induct)
  case (3 i a attempts)
  have "dw_key (raw_attempt_row i a) \<noteq> dw_key row" if row: "row \<in> set (raw_attempt_rows (Suc i) attempts)" for row
  proof
    assume eq: "dw_key (raw_attempt_row i a) = dw_key row"
    obtain j s where j: "Suc i \<le> j" "dw_key row = js ''raw-'' @ nat_digits j @ 45 # s"
      using raw_attempt_rows_keys [OF row] by blast
    with eq have "nat_digits i @ 45 # ra_server a = nat_digits j @ 45 # s" by (simp add: raw_attempt_row_def)
    then have "i = j" by (rule digits_dash_cancel)
    with j show False by simp
  qed
  with 3 show ?case by auto
qed simp_all

section \<open>Properties\<close>

text \<open>
  Every interface of the registry that is neither LoRa nor TCP has exactly one row, in the order of the registry,
  and the keys of all rows are distinct, when the identities of the registry are distinct identities of eight bytes:
  the rendered list never confuses two interfaces.
\<close>

theorem node_interface_rows:
  assumes "registry_ids_ok (registry input)"
  shows "distinct (map ni_key (buildNodeInterfaces input)) \<and>
    filter (\<lambda>row. ni_kind row = KindBluetooth \<or> ni_kind row = KindOther) (buildNodeInterfaces input)
      = map buildPrnsInterface (filter is_prns_record (registry input))"
proof -
  let ?prns = "filter is_prns_record (registry input)"
  obtain rows where split: "buildNodeInterfaces input = rows @ map buildPrnsInterface ?prns" and fixed: "fixed_rows rows"
    by (rule buildNodeInterfaces_split)
  have "ni_key ` set rows \<inter> (ni_key \<circ> buildPrnsInterface) ` set ?prns = {}"
  proof -
    have "length (ni_key row) \<noteq> length (ni_key (buildPrnsInterface r))"
      if "row \<in> set rows" "r \<in> set ?prns" for row r
      using fixed_rows_keys(2) [OF fixed] prns_key_length [OF assms] that by fastforce
    then show ?thesis by fastforce
  qed
  then have "distinct (map ni_key (buildNodeInterfaces input))"
    using fixed_rows_keys(1) [OF fixed] prns_keys_distinct [OF assms, of is_prns_record]
    by (simp add: split image_comp)
  moreover have "filter (\<lambda>row. ni_kind row = KindBluetooth \<or> ni_kind row = KindOther) (map buildPrnsInterface ?prns)
      = map buildPrnsInterface ?prns"
    by (rule filter_True) auto
  ultimately show ?thesis using fixed_rows_no_prns [OF fixed] by (simp add: split)
qed

definition bluetooth_record :: DiagnosticInterfaceView where
  "bluetooth_record = \<lparr>di_id = [12, 0, 0, 0, 0, 0, 0, 1], di_mode = ModeFull, di_state = IfConnected,
     di_failure_reason = None, di_rx_bytes = 0, di_tx_bytes = 0, di_destinations = 0, di_links = 0,
     di_transported_links = 0\<rparr>"

definition tcp_record :: "nat \<Rightarrow> DiagnosticInterfaceView" where
  "tcp_record slot = bluetooth_record \<lparr>di_id := [1, 0, 0, 0, 0, 0, 0, slot]\<rparr>"

definition node_example :: "DiagnosticInterfaceView list \<Rightarrow> NodeInterfaceInput" where
  "node_example records =
     \<lparr>in_config = None, in_runtime = None, in_radioRoutes = Some \<lparr>rs_interfaces = records, rs_lora = None\<rparr>\<rparr>"

lemmas node_example_defs = node_example_def registry_def bluetooth_record_def tcp_record_def registry_ids_ok_def is_prns_record_def
  reticulumInterfaceFamily_def reticulumInterfaceKind_def

theorem node_interface_rows_witness:
  "registry_ids_ok (registry (node_example [bluetooth_record])) \<and>
   filter (\<lambda>row. ni_kind row = KindBluetooth \<or> ni_kind row = KindOther) (buildNodeInterfaces (node_example [bluetooth_record]))
     = [buildPrnsInterface bluetooth_record]"
  using node_interface_rows [of "node_example [bluetooth_record]"] by (simp add: node_example_defs)

text \<open>
  The registry is not the authority for TCP interfaces: a registry with a TCP interface and no configured peer gives
  the LoRa row, for which there is no record, and no row for the TCP interface.
\<close>

lemma tcp_record_hidden:
  "map ni_kind (buildNodeInterfaces (node_example [tcp_record 1, tcp_record 2])) = [KindLora]"
  by (simp add: buildNodeInterfaces_def node_example_defs Let_def)

text \<open>
  A row is shown online only on evidence: the registry reports an interface of the row's family connected or
  degraded, the TCP actor is connected, or the station is associated.
\<close>

theorem node_interface_online:
  assumes "row \<in> set (buildNodeInterfaces input)" and "ni_state row = NodeOnline"
  shows "case ni_kind row of
      KindTcpClient \<Rightarrow> map_option rt_tcp_peer_state (in_runtime input) = Some TcpConnected
    | KindTcpServer \<Rightarrow> map_option rt_tcp_peer_state (in_runtime input) = Some TcpConnected
    | KindWifiStation \<Rightarrow> map_option rt_wifi_state (in_runtime input) = Some WifiConnected
    | KindLora \<Rightarrow> \<exists>r \<in> set (registry input). reticulumInterfaceFamily (di_id r) = FamilyLora \<and>
                    (di_state r = IfConnected \<or> di_state r = IfDegraded)
    | _ \<Rightarrow> \<exists>r \<in> set (registry input). ni_key row = reticulumInterfaceIdHex (di_id r) \<and>
                    (di_state r = IfConnected \<or> di_state r = IfDegraded)"
  using assms(1)
proof (cases rule: node_row_cases)
  case (lora profile lora)
  then obtain r where "find (\<lambda>record. reticulumInterfaceFamily (di_id record) = FamilyLora) (registry input) = Some r"
    and "di_state r = IfConnected \<or> di_state r = IfDegraded"
    using assms(2) by (cases "find (\<lambda>record. reticulumInterfaceFamily (di_id record) = FamilyLora) (registry input)")
      (simp_all add: interfaceState_online interfaceState_def [of None])
  then show ?thesis using lora by (auto simp: find_Some_iff)
next
  case (tcp peer r)
  then show ?thesis using assms(2) buildTcp_kind [of peer "in_runtime input" r] by (auto simp: tcpState_online)
next
  case (wifi c)
  then show ?thesis using assms(2) by (simp add: wifiState_online)
next
  case (prns r)
  then have "ni_key row = reticulumInterfaceIdHex (di_id r)" "di_state r = IfConnected \<or> di_state r = IfDegraded"
    using assms(2) by (simp_all add: interfaceState_online) (simp add: buildPrnsInterface_def)
  with prns buildPrns_fields(2) [of r] show ?thesis by (elim disjE) auto
qed

theorem node_interface_online_witness:
  "buildPrnsInterface bluetooth_record \<in> set (buildNodeInterfaces (node_example [bluetooth_record])) \<and>
   ni_state (buildPrnsInterface bluetooth_record) = NodeOnline \<and> ni_kind (buildPrnsInterface bluetooth_record) = KindBluetooth \<and>
   ni_key (buildPrnsInterface bluetooth_record) = reticulumInterfaceIdHex (di_id bluetooth_record)"
proof -
  have row: "buildPrnsInterface bluetooth_record \<in> set (buildNodeInterfaces (node_example [bluetooth_record]))"
    by (simp add: buildNodeInterfaces_def node_example_defs Let_def)
  have online: "ni_state (buildPrnsInterface bluetooth_record) = NodeOnline"
    by (simp add: interfaceState_online bluetooth_record_def)
  have kind: "ni_kind (buildPrnsInterface bluetooth_record) = KindBluetooth"
    by (simp add: buildPrnsInterface_def node_example_defs)
  show ?thesis
    using node_interface_online [OF row online] row online kind by (simp add: node_example_def registry_def)
qed

text \<open>
  The RMAP publisher is presented as successful exactly when the connected firmware reports that the configuration is
  applied, the stamp is ready, no public TCP interface is awaited, nothing defers the publication, and the last
  publication was accepted: never from the desired configuration alone.
\<close>

theorem rmap_success_exact:
  "rq_tone (rmapRuntimePresentation runtime desired) = RmapSuccess \<longleftrightarrow>
     (\<exists>s. Option.bind runtime rt_rmap_status = Some s \<and> rp_config_applied s \<and> rp_stamp_phase s = StampReady \<and>
        rp_initial_tcp_gate s \<noteq> GateWaiting \<and> rp_deferred_reason s = None \<and> rp_last_queue_outcome s = QueueAccepted)"
proof (cases "Option.bind runtime rt_rmap_status")
  case None
  then show ?thesis by (simp add: rmapRuntimePresentation_def)
next
  case (Some s)
  then show ?thesis
    by (cases "rp_stamp_phase s"; cases "rp_last_queue_outcome s") (simp_all add: rmapRuntimePresentation_def Let_def)
qed

text \<open>
  The DNS diagnosis has one row for the system resolver and one for each populated slot of the board, in slot order,
  and the keys of its rows are distinct, also when a server is tried twice.
\<close>

theorem dns_rows_exact:
  assumes "reticulumDnsDiagnosticDetails status = Some details"
  shows "\<exists>d. Option.bind status rt_dns_diagnostics = Some d \<and>
     map dw_label (tl (dt_rows details)) =
       map (\<lambda>a. (if ra_source a = RawDhcp then js ''DHCP '' else js ''Public '') @ ra_server a)
         (List.map_filter id (dd_raw_attempts d)) \<and>
     distinct (map dw_key (dt_rows details))"
proof -
  obtain d where d: "Option.bind status rt_dns_diagnostics = Some d"
    using assms by (auto simp: reticulumDnsDiagnosticDetails_def split: option.splits)
  have labels: "map dw_label (raw_attempt_rows i attempts) =
      map (\<lambda>a. (if ra_source a = RawDhcp then js ''DHCP '' else js ''Public '') @ ra_server a) (List.map_filter id attempts)"
    for i attempts
    by (induction i attempts rule: raw_attempt_rows.induct)
      (simp_all add: raw_attempt_row_def map_filter_simps js.simps)
  have "js ''system'' \<notin> dw_key ` set (raw_attempt_rows i attempts)" for i attempts
    using raw_attempt_rows_keys [of _ i attempts] by (force simp: js.simps)
  then show ?thesis
    using assms d labels by (auto simp: reticulumDnsDiagnosticDetails_def raw_attempt_rows_distinct)
qed

definition dns_example :: "runtime_status" where
  "dns_example = \<lparr>rt_wifi_state = WifiConnected, rt_connected_ssid = None, rt_ipv4_address = None, rt_rssi_dbm = None,
     rt_tcp_peer_state = TcpBackoff, rt_last_tcp_failure = Some DnsTimeout,
     rt_dns_diagnostics = Some \<lparr>dd_gateway_ipv4 = None, dd_dhcp_servers = [None], dd_primary_outcome = PrimaryTimeout,
       dd_raw_setup_state = SetupReady,
       dd_raw_attempts = [None, Some \<lparr>ra_source = RawPublic, ra_server = js ''1.1.1.1'', ra_outcome = RawTimeout\<rparr>],
       dd_resolution = None\<rparr>,
     rt_rmap_status = None\<rparr>"

theorem dns_rows_exact_witness:
  "\<exists>details. reticulumDnsDiagnosticDetails (Some dns_example) = Some details \<and>
     map dw_label (tl (dt_rows details)) = [js ''Public 1.1.1.1''] \<and> distinct (map dw_key (dt_rows details))"
proof -
  obtain details where details: "reticulumDnsDiagnosticDetails (Some dns_example) = Some details"
    by (simp add: reticulumDnsDiagnosticDetails_def dns_example_def)
  show ?thesis
    using dns_rows_exact [OF details] details
    by (auto simp: dns_example_def map_filter_simps js.simps)
qed

end
