(* ===== verification/Conversation.thy ===== *)
theory Conversation
  imports TransmissionMap
begin

text \<open>
  The helpers of the conversation screen: \<open>lib/message-actions.ts\<close> (what may be done with a timeline row),
  \<open>lib/message-submit-ui.ts\<close> (messages accepted by the local outbox and not yet in the timeline), \<open>lib/draft.ts\<close> and
  \<open>lib/message-location-draft.ts\<close> (the identity of a draft), \<open>lib/contact-editor.ts\<close> and
  \<open>lib/conversation-peers.ts\<close>. The promises of a draft are used by \<open>ApplianceSession\<close>.
\<close>

section \<open>Actions on a timeline row\<close>

fun direction_name :: "TimelineDirection \<Rightarrow> jstring" where
  "direction_name Inbound = js ''inbound''"
| "direction_name Outbound = js ''outbound''"

fun status_name :: "TimelineStatus \<Rightarrow> jstring" where
  "status_name StatusCommitted = js ''committed''"
| "status_name StatusAccepted = js ''accepted''"
| "status_name StatusQueued = js ''queued''"
| "status_name StatusPreparing = js ''preparing''"
| "status_name StatusAwaitingDelivery = js ''awaiting_delivery''"
| "status_name StatusDelivered = js ''delivered''"
| "status_name StatusFailedNoPath = js ''failed_no_path''"
| "status_name StatusFailedDeliveryTimeout = js ''failed_delivery_timeout''"
| "status_name StatusFailedDownstreamRejection = js ''failed_downstream_rejection''"
| "status_name StatusFailedInternal = js ''failed_internal''"
| "status_name StatusCancelled = js ''cancelled''"

definition REPLACEMENT_RETRYABLE_STATUSES :: "TimelineStatus list" where
  "REPLACEMENT_RETRYABLE_STATUSES = [StatusFailedNoPath, StatusFailedDeliveryTimeout, StatusFailedInternal]"

record TimelineMessageCapabilities =
  tc_canRetry :: bool
  tc_canUseAsDraft :: bool

record RetrySendRequest =
  rq_outbox_id :: int
  rq_idempotency_key :: jstring

definition timelineEntryKey :: "TimelineView \<Rightarrow> jstring" where
  "timelineEntryKey entry = int_digits (tv_sequence entry) @ [58] @ direction_name (tv_direction entry)"

definition text_or :: "jstring \<Rightarrow> jstring option \<Rightarrow> jstring" where
  "text_or fallback value = (case value of None \<Rightarrow> fallback | Some v \<Rightarrow> v)"

definition timelineActivityRevision :: "TimelineView \<Rightarrow> jstring" where
  "timelineActivityRevision entry =
     (let evidence = tv_packet_evidence entry;
          ingress = tv_ingress_observation entry;
          signal = Option.bind ingress ig_signal
      in js_join [58]
        [text_or (js ''no-message'') (tv_message_id entry),
         text_or (js ''no-status'') (map_option status_name (tv_status entry)),
         text_or (js ''no-submission'') (map_option int_digits (tv_submission_id entry)),
         text_or (js ''no-attempt'') (map_option int_digits (tv_current_attempt_number entry)),
         text_or (js ''no-packet-length'') (map_option (int_digits \<circ> pe_encoded_packet_len) evidence),
         text_or (js ''no-packet-hash'') (map_option pe_encoded_packet_sha256 evidence),
         text_or (js ''no-ingress-interface'') (map_option (reticulumInterfaceIdHex \<circ> ig_interface_id) ingress),
         text_or (js ''no-ingress-rssi'') (map_option (int_digits \<circ> sg_rssi_dbm) signal),
         text_or (js ''no-ingress-snr'') (map_option (int_digits \<circ> sg_snr_db) signal)])"

definition retryMessageCacheKey :: "jstring \<Rightarrow> TimelineView \<Rightarrow> jstring" where
  "retryMessageCacheKey destination entry =
     js_join [58]
       [destination, timelineEntryKey entry, text_or (js ''no-outbox'') (map_option int_digits (tv_outbox_id entry)),
        text_or (js ''no-message'') (tv_message_id entry)]"

text \<open>\<^verbatim>\<open>word[0]?.toUpperCase()\<close> on the ASCII words of a status.\<close>

definition upper_ascii :: "nat \<Rightarrow> nat" where
  "upper_ascii c = (if 97 \<le> c \<and> c \<le> 122 then c - 32 else c)"

definition capitalize :: "jstring \<Rightarrow> jstring" where
  "capitalize word = (case word of [] \<Rightarrow> [] | c # cs \<Rightarrow> upper_ascii c # cs)"

definition timelineStatusLabel :: "TimelineView \<Rightarrow> jstring" where
  "timelineStatusLabel entry =
     (case tv_status entry of
        None \<Rightarrow> if tv_direction entry = Inbound then js ''Received'' else js ''Unknown''
      | Some status \<Rightarrow>
          if tv_direction entry = Outbound \<and> status = StatusPreparing then js ''Pending / retrying on appliance''
          else js_join [32] (map capitalize (js_split 95 (status_name status))))"

fun is_utf8 :: "BytesView \<Rightarrow> bool" where
  "is_utf8 (BytesUtf8 _) = True"
| "is_utf8 (BytesHex _) = False"

definition timelineMessageCapabilities :: "TimelineView \<Rightarrow> TimelineMessageCapabilities" where
  "timelineMessageCapabilities entry =
     \<lparr>tc_canRetry = (tv_direction entry = Outbound \<and> tv_outbox_id entry \<noteq> None \<and>
        (case tv_status entry of None \<Rightarrow> False | Some status \<Rightarrow> status \<in> set REPLACEMENT_RETRYABLE_STATUSES)),
      tc_canUseAsDraft = (is_utf8 (tv_title entry) \<and> is_utf8 (tv_content entry))\<rparr>"

definition retryMessageRequest :: "TimelineView \<Rightarrow> jstring \<Rightarrow> RetrySendRequest option" where
  "retryMessageRequest entry idempotencyKey =
     (case tv_outbox_id entry of
        None \<Rightarrow> None
      | Some outbox_id \<Rightarrow>
          if \<not> tc_canRetry (timelineMessageCapabilities entry) then None
          else Some \<lparr>rq_outbox_id = outbox_id, rq_idempotency_key = idempotencyKey\<rparr>)"

section \<open>Drafts\<close>

record DraftIdentity =
  dr_idempotencyKey :: jstring
  dr_timestampMs :: int

text \<open>The two thunks are the values they return; they are called only without a current identity.\<close>

definition ensureDraftIdentity :: "DraftIdentity option \<Rightarrow> jstring \<Rightarrow> int \<Rightarrow> DraftIdentity" where
  "ensureDraftIdentity current createKey now =
     (case current of Some d \<Rightarrow> d | None \<Rightarrow> \<lparr>dr_idempotencyKey = createKey, dr_timestampMs = now\<rparr>)"

record DraftSubmission =
  ds_attachLocation :: bool
  ds_identity :: DraftIdentity
  ds_location :: "MessageLocationView option"

text \<open>
  \<open>prepareDraftSubmission\<close> is asynchronous. Its first part decides whether the retained submission is reused or a new one
  is built after an optional capture; its second part builds it. A rejected capture rejects the whole.
\<close>

definition retained_submission :: "DraftSubmission option \<Rightarrow> bool \<Rightarrow> DraftSubmission option" where
  "retained_submission retained attachLocation =
     (case retained of
        None \<Rightarrow> None
      | Some r \<Rightarrow> if ds_attachLocation r = attachLocation then Some r else None)"

definition new_submission :: "bool \<Rightarrow> DraftIdentity \<Rightarrow> MessageLocationView settled \<Rightarrow> thrown + DraftSubmission" where
  "new_submission attachLocation createIdentity captureLocation =
     (if attachLocation
      then (case captureLocation of
              Rejected e \<Rightarrow> Inl e
            | Fulfilled location \<Rightarrow>
                Inr \<lparr>ds_attachLocation = attachLocation, ds_identity = createIdentity, ds_location = Some location\<rparr>)
      else Inr \<lparr>ds_attachLocation = attachLocation, ds_identity = createIdentity, ds_location = None\<rparr>)"

definition prepareDraftSubmission ::
  "DraftSubmission option \<Rightarrow> bool \<Rightarrow> DraftIdentity \<Rightarrow> MessageLocationView settled \<Rightarrow> thrown + DraftSubmission" where
  "prepareDraftSubmission retained attachLocation createIdentity captureLocation =
     (case retained_submission retained attachLocation of
        Some r \<Rightarrow> Inr r
      | None \<Rightarrow> new_submission attachLocation createIdentity captureLocation)"

section \<open>Accepted messages not yet in the timeline\<close>

record SendRequest =
  sr_destination :: jstring
  sr_timestamp_ms :: int
  sr_idempotency_key :: jstring
  sr_title :: jstring
  sr_content :: jstring
  sr_location :: "MessageLocationView option"

record LocalMessageAcceptance =
  la_content :: jstring
  la_destination :: jstring
  la_location :: "MessageLocationView option"
  la_outboxId :: int
  la_timestampMs :: int
  la_title :: jstring

definition localMessageAcceptance :: "SendRequest \<Rightarrow> int \<Rightarrow> LocalMessageAcceptance" where
  "localMessageAcceptance request response_outbox_id =
     \<lparr>la_content = sr_content request, la_destination = sr_destination request, la_location = sr_location request,
      la_outboxId = response_outbox_id, la_timestampMs = sr_timestamp_ms request, la_title = sr_title request\<rparr>"

fun js_findIndex :: "('a \<Rightarrow> bool) \<Rightarrow> 'a list \<Rightarrow> int" where
  "js_findIndex P [] = -1"
| "js_findIndex P (x # xs) = (if P x then 0 else let i = js_findIndex P xs in if i < 0 then -1 else i + 1)"

text \<open>
  The test \<^verbatim>\<open>current[existing] === acceptance\<close> keeps the same array when nothing changes; the contents are the same
  either way.
\<close>

definition recordLocalMessageAcceptance ::
  "LocalMessageAcceptance list \<Rightarrow> LocalMessageAcceptance \<Rightarrow> LocalMessageAcceptance list" where
  "recordLocalMessageAcceptance current acceptance =
     (let existing = js_findIndex (\<lambda>candidate. la_outboxId candidate = la_outboxId acceptance) current
      in if existing < 0 then current @ [acceptance]
         else if current ! nat existing = acceptance then current
         else current[nat existing := acceptance])"

definition unreconciledLocalMessageAcceptances ::
  "LocalMessageAcceptance list \<Rightarrow> TimelineView list \<Rightarrow> jstring option \<Rightarrow> LocalMessageAcceptance list" where
  "unreconciledLocalMessageAcceptances current timeline destination =
     (if current = [] then current
      else let scoped = (case destination of
                           None \<Rightarrow> []
                         | Some d \<Rightarrow> filter (\<lambda>acceptance. la_destination acceptance = d) current)
           in if scoped = [] \<or> timeline = []
              then (if length scoped = length current then current else scoped)
              else let projectedOutboxIds = js_set_of (List.map_filter tv_outbox_id timeline);
                       remaining = filter (\<lambda>acceptance. la_outboxId acceptance \<notin> set projectedOutboxIds) scoped
                   in if length remaining = length current then current else remaining)"

section \<open>Contacts and peers\<close>

record ContactSaveIntent =
  cs_destination :: jstring
  cs_name :: jstring
  cs_selectAfterSave :: bool

definition contactSaveIntent :: "jstring \<Rightarrow> jstring \<Rightarrow> jstring option \<Rightarrow> ContactSaveIntent" where
  "contactSaveIntent name destinationInput editingDestination =
     \<lparr>cs_destination = (case editingDestination of Some d \<Rightarrow> d | None \<Rightarrow> js_lower (js_trim destinationInput)),
      cs_name = name,
      cs_selectAfterSave = (editingDestination = None)\<rparr>"

record ConversationPeerSummary =
  cp_destination :: jstring
  cp_inbound_message_count :: nat
  cp_message_count :: nat
  cp_name :: "jstring option"

definition messageRequestPeers :: "ConversationPeerSummary list \<Rightarrow> ConversationPeerSummary list" where
  "messageRequestPeers peers = filter (\<lambda>peer. cp_name peer = None \<and> cp_inbound_message_count peer > 0) peers"

definition outboundOnlyUnsavedPeers :: "ConversationPeerSummary list \<Rightarrow> ConversationPeerSummary list" where
  "outboundOnlyUnsavedPeers peers =
     filter (\<lambda>peer. cp_name peer = None \<and> cp_inbound_message_count peer = 0 \<and> cp_message_count peer > 0) peers"

definition conversationPeerLabel :: "jstring \<Rightarrow> jstring option \<Rightarrow> jstring" where
  "conversationPeerLabel destination name =
     (case name of
        Some n \<Rightarrow> if length (js_trim n) > 0 then n else js ''Unknown '' @ [8230] @ js_slice_last 6 destination
      | None \<Rightarrow> js ''Unknown '' @ [8230] @ js_slice_last 6 destination)"

definition suggestedContactName :: "jstring \<Rightarrow> jstring" where
  "suggestedContactName destination = js ''Peer '' @ js_slice_last 6 destination"

section \<open>Lemmas\<close>

declare js.simps [simp del]

abbreviation acceptance_of :: "LocalMessageAcceptance list \<Rightarrow> int \<Rightarrow> LocalMessageAcceptance option" where
  "acceptance_of current outbox \<equiv> find (\<lambda>candidate. la_outboxId candidate = outbox) current"

lemma js_findIndex_neg: "js_findIndex P xs < 0 \<longleftrightarrow> (\<forall>x \<in> set xs. \<not> P x)"
  by (induction xs) (auto simp: Let_def)

lemma js_findIndex_split:
  assumes "\<not> js_findIndex P xs < 0"
  obtains as x bs where "xs = as @ x # bs" "P x" "\<forall>a \<in> set as. \<not> P a" "nat (js_findIndex P xs) = length as"
  using assms
proof (induction xs arbitrary: thesis)
  case Nil
  then show ?case by simp
next
  case (Cons y ys)
  show ?case
  proof (cases "P y")
    case True
    then show ?thesis by (intro Cons.prems(1) [of "[]" y ys]) auto
  next
    case False
    then have tail: "\<not> js_findIndex P ys < 0" using Cons.prems(2) by (auto simp: Let_def split: if_splits)
    then obtain as x bs where "ys = as @ x # bs" "P x" "\<forall>a \<in> set as. \<not> P a" "nat (js_findIndex P ys) = length as"
      using Cons.IH by blast
    with False tail show ?thesis by (intro Cons.prems(1) [of "y # as" x bs]) (auto simp: Let_def nat_add_distrib)
  qed
qed

text \<open>The update replaces the presentation of the row, or appends one.\<close>

lemma record_acceptance_cases:
  obtains (fresh) "la_outboxId a \<notin> la_outboxId ` set current" "recordLocalMessageAcceptance current a = current @ [a]"
  | (replaced) as x bs where "current = as @ x # bs" "la_outboxId x = la_outboxId a"
      "la_outboxId a \<notin> la_outboxId ` set as" "recordLocalMessageAcceptance current a = as @ a # bs"
proof (cases "js_findIndex (\<lambda>c. la_outboxId c = la_outboxId a) current < 0")
  case True
  then show ?thesis
    using fresh by (force simp: js_findIndex_neg recordLocalMessageAcceptance_def)
next
  case False
  then obtain as x bs where split: "current = as @ x # bs" "la_outboxId x = la_outboxId a"
      "\<forall>c \<in> set as. la_outboxId c \<noteq> la_outboxId a" "nat (js_findIndex (\<lambda>c. la_outboxId c = la_outboxId a) current) = length as"
    by (rule js_findIndex_split)
  then have "recordLocalMessageAcceptance current a = as @ a # bs"
    using False by (auto simp: recordLocalMessageAcceptance_def Let_def)
  with split show ?thesis by (intro replaced [of as x bs]) (auto simp: image_iff)
qed

lemma find_append: "find P (xs @ ys) = (case find P xs of Some x \<Rightarrow> Some x | None \<Rightarrow> find P ys)"
  by (induction xs) auto

lemma find_None_keys: "k \<notin> f ` set xs \<Longrightarrow> find (\<lambda>x. f x = k) xs = None"
  by (auto simp: find_None_iff)

lemma set_map_filter_Some: "y \<in> set (List.map_filter f xs) \<longleftrightarrow> Some y \<in> f ` set xs"
  by (induction xs) (auto simp: map_filter_simps split: option.split)

lemma filter_same_length: "length (filter P xs) = length xs \<Longrightarrow> filter P xs = xs"
  by (metis filter_True length_filter_less less_irrefl)

section \<open>Properties\<close>

text \<open>
  A message accepted by the local outbox is presented once: recording an acceptance keeps the outbox rows of the
  presentations distinct, and afterwards looks up like a map updated at that row, also when the submission is replayed.
\<close>

theorem acceptance_recorded_once:
  assumes "distinct (map la_outboxId current)"
  shows "distinct (map la_outboxId (recordLocalMessageAcceptance current a)) \<and>
    (\<forall>i. acceptance_of (recordLocalMessageAcceptance current a) i =
       (if i = la_outboxId a then Some a else acceptance_of current i))"
proof (cases rule: record_acceptance_cases [of a current])
  case fresh
  then show ?thesis
    using assms by (auto simp: find_append find_None_keys split: option.split)
next
  case (replaced as x bs)
  then show ?thesis
    using assms by (auto simp: find_append find_None_keys split: option.split)
qed

definition acceptance_example :: "int \<Rightarrow> string \<Rightarrow> LocalMessageAcceptance" where
  "acceptance_example outbox text = \<lparr>la_content = js text, la_destination = js ''d'', la_location = None, la_outboxId = outbox,
     la_timestampMs = 1, la_title = []\<rparr>"

theorem acceptance_recorded_once_witness:
  "distinct (map la_outboxId [acceptance_example 1 ''a'', acceptance_example 2 ''b'']) \<and>
   acceptance_of (recordLocalMessageAcceptance [acceptance_example 1 ''a'', acceptance_example 2 ''b'']
      (acceptance_example 2 ''c'')) 2 = Some (acceptance_example 2 ''c'')"
  using acceptance_recorded_once [of "[acceptance_example 1 ''a'', acceptance_example 2 ''b'']" "acceptance_example 2 ''c''"]
  by (simp add: acceptance_example_def)

text \<open>
  The placeholders shown for a conversation are exactly the accepted messages of that conversation whose outbox row is
  not in the timeline yet, in the order of acceptance: a message is never shown twice and never disappears before the
  timeline has it.
\<close>

theorem unreconciled_exact:
  "unreconciledLocalMessageAcceptances current timeline destination =
     filter (\<lambda>a. destination = Some (la_destination a) \<and> Some (la_outboxId a) \<notin> tv_outbox_id ` set timeline) current"
proof -
  let ?scoped = "filter (\<lambda>a. destination = Some (la_destination a)) current"
  have scoped: "(case destination of None \<Rightarrow> [] | Some d \<Rightarrow> filter (\<lambda>a. la_destination a = d) current) = ?scoped"
    by (auto split: option.split intro: filter_cong)
  have ids: "la_outboxId a \<in> set (js_set_of (List.map_filter tv_outbox_id timeline)) \<longleftrightarrow>
      Some (la_outboxId a) \<in> tv_outbox_id ` set timeline" for a
    by (simp add: set_map_filter_Some)
  have remaining: "filter (\<lambda>a. la_outboxId a \<notin> set (js_set_of (List.map_filter tv_outbox_id timeline))) ?scoped =
      filter (\<lambda>a. destination = Some (la_destination a) \<and> Some (la_outboxId a) \<notin> tv_outbox_id ` set timeline) current"
    unfolding ids filter_filter by (rule filter_cong) auto
  have same: "(if length (filter P current) = length current then current else filter P current) = filter P current" for P
    using filter_same_length [of P current] by auto
  have "?scoped = [] \<or> timeline = [] \<Longrightarrow>
      filter (\<lambda>a. destination = Some (la_destination a) \<and> Some (la_outboxId a) \<notin> tv_outbox_id ` set timeline) current = ?scoped"
    by (auto simp: filter_empty_conv intro!: filter_cong)
  then show ?thesis
    unfolding unreconciledLocalMessageAcceptances_def Let_def scoped remaining same by auto
qed

text \<open>
  A replacement is requested only for an outbound message of the outbox that failed for lack of a path, by a timeout or
  internally; the request names that outbox row and carries the given key. Nothing else yields a request.
\<close>

theorem retry_request_exact:
  "retryMessageRequest entry key = Some request \<longleftrightarrow>
     tv_direction entry = Outbound \<and> tv_outbox_id entry = Some (rq_outbox_id request) \<and> rq_idempotency_key request = key \<and>
     tv_status entry \<in> {Some StatusFailedNoPath, Some StatusFailedDeliveryTimeout, Some StatusFailedInternal}"
  by (cases request) (auto simp: retryMessageRequest_def timelineMessageCapabilities_def REPLACEMENT_RETRYABLE_STATUSES_def
      split: option.splits)

lemma split_at_colon: "58 \<notin> set a \<Longrightarrow> 58 \<notin> set b \<Longrightarrow> a @ 58 # s = b @ 58 # t \<Longrightarrow> a = b \<and> s = t"
  by (induction a arbitrary: b; case_tac b) auto

text \<open>
  The key of a timeline row identifies it by its sequence number and direction.
\<close>

theorem timeline_key_exact:
  "timelineEntryKey a = timelineEntryKey b \<longleftrightarrow> tv_sequence a = tv_sequence b \<and> tv_direction a = tv_direction b"
proof -
  have "direction_name d = direction_name d' \<Longrightarrow> d = d'" for d d'
    by (cases d; cases d') (simp_all add: js.simps)
  then show ?thesis
    by (auto simp: timelineEntryKey_def int_digits_inj dest!: split_at_colon [OF int_digits_no_colon int_digits_no_colon])
qed

end
