(* ===== verification/ApplianceViews.thy ===== *)
theory ApplianceViews
  imports Conversation NativeClient
begin

text \<open>
  The small projections that the application shell shows: \<open>lib/appliance-status.ts\<close>, \<open>lib/appliance-profiles.ts\<close>,
  \<open>lib/onboarding.ts\<close>, \<open>lib/navigation.ts\<close>, \<open>lib/http-projection.ts\<close>, \<open>lib/message-notification-permission.ts\<close> and
  \<open>lib/keyboard-layout.ts\<close>. The session of \<open>ApplianceSession\<close> uses the profile and onboarding projections.
\<close>

section \<open>Appliance status\<close>

datatype ConnectionState =
  ConnStarting | ConnDisconnected | ConnConnecting | ConnUnavailable
| ConnReady jstring jstring \<comment> \<open>endpoint, device label\<close>
| ConnBackoff | ConnFaulted | ConnStopped

record DeviceView =
  dv_device_id :: jstring
  dv_primary_destination :: jstring
  dv_lxmf_delivery_destination :: jstring

record ApplianceSnapshot =
  sn_connection :: ConnectionState
  sn_device :: "DeviceView option"
  sn_pending_outbox :: nat
  sn_contact_count :: nat
  sn_imported_this_run :: nat
  sn_last_error :: "jstring option"

datatype ApplianceStatusTone = StatusNeutral | StatusReady | StatusFaulted

record ApplianceStatusPresentation =
  sp_boardLabel :: jstring
  sp_connectionLabel :: jstring
  sp_contactCountLabel :: jstring
  sp_deviceId :: "jstring option"
  sp_endpoint :: "jstring option"
  sp_importedThisRunLabel :: jstring
  sp_lxmfDestination :: "jstring option"
  sp_pendingOutboxLabel :: jstring
  sp_primaryDestination :: "jstring option"
  sp_tone :: ApplianceStatusTone

definition E290_DEVICE_API_ID_PREFIX_HEX :: jstring where
  "E290_DEVICE_API_ID_PREFIX_HEX = js ''653239302d6170692d31''"

definition nonempty :: "jstring option \<Rightarrow> jstring option" where
  "nonempty value =
     (let normalized = (case value of None \<Rightarrow> [] | Some v \<Rightarrow> js_trim v) in if normalized = [] then None else Some normalized)"

definition connectionTransportLabel :: jstring where
  "connectionTransportLabel = js ''Reticulum''"

definition connectionStateLabel :: "ConnectionState option \<Rightarrow> jstring" where
  "connectionStateLabel connection =
     (case connection of
        None \<Rightarrow> js ''Starting''
      | Some state \<Rightarrow>
          (case state of
             ConnStarting \<Rightarrow> js ''Starting''
           | ConnDisconnected \<Rightarrow> js ''Disconnected''
           | ConnConnecting \<Rightarrow> js ''Connecting''
           | ConnUnavailable \<Rightarrow> connectionTransportLabel @ js '' unavailable''
           | ConnReady _ _ \<Rightarrow> js ''Ready''
           | ConnBackoff \<Rightarrow> js ''Waiting to reconnect''
           | ConnFaulted \<Rightarrow> js ''Connection fault''
           | ConnStopped \<Rightarrow> js ''Stopped''))"

text \<open>The regular expressions with the flag \<^verbatim>\<open>i\<close> match ASCII digits and letters only.\<close>

definition is_hex_any :: "nat \<Rightarrow> bool" where
  "is_hex_any c \<longleftrightarrow> is_digit c \<or> 97 \<le> c \<and> c \<le> 102 \<or> 65 \<le> c \<and> c \<le> 70"

fun js_pairs :: "jstring \<Rightarrow> jstring list" where
  "js_pairs (a # b # s) = [a, b] # js_pairs s"
| "js_pairs _ = []"

definition compact_id :: "jstring \<Rightarrow> jstring" where
  "compact_id normalized = filter (\<lambda>c. c \<noteq> 45) (filter (\<lambda>c. c \<noteq> 58) normalized)"

definition eui48_of :: "jstring \<Rightarrow> jstring option" where
  "eui48_of compactId =
     (if length compactId = 12 \<and> list_all is_hex_any compactId then Some compactId
      else if length compactId = 32 \<and> js_startsWith (js_lower compactId) E290_DEVICE_API_ID_PREFIX_HEX \<and> list_all is_hex_any compactId
      then Some (drop (length E290_DEVICE_API_ID_PREFIX_HEX) compactId)
      else None)"

definition formatDeviceId :: "jstring \<Rightarrow> jstring" where
  "formatDeviceId value =
     (let normalized = js_trim value in
      case eui48_of (compact_id normalized) of
        Some eui48 \<Rightarrow> js_join [58] (js_pairs (map upper_ascii eui48))
      | None \<Rightarrow> normalized)"

definition countLabel :: "nat \<Rightarrow> jstring \<Rightarrow> jstring \<Rightarrow> jstring" where
  "countLabel n singular plural = nat_digits n @ [32] @ (if n = 1 then singular else plural)"

definition applianceStatusPresentation :: "ApplianceSnapshot option \<Rightarrow> ApplianceStatusPresentation" where
  "applianceStatusPresentation snapshot =
     (let connection = map_option sn_connection snapshot;
          ready = (case connection of Some (ConnReady endpoint device_label) \<Rightarrow> Some (endpoint, device_label) | _ \<Rightarrow> None);
          device = Option.bind snapshot sn_device;
          deviceId = nonempty (map_option dv_device_id device);
          deviceLabel = nonempty (map_option snd ready);
          boardIdentity = (case deviceId of Some d \<Rightarrow> Some d | None \<Rightarrow> deviceLabel);
          counted = (\<lambda>f. case snapshot of None \<Rightarrow> 0 | Some s \<Rightarrow> f s)
      in \<lparr>sp_boardLabel = (case boardIdentity of None \<Rightarrow> js ''Appliance'' | Some b \<Rightarrow> formatDeviceId b),
          sp_connectionLabel = (if ready \<noteq> None then js ''Connected through '' @ connectionTransportLabel
                                else connectionStateLabel connection),
          sp_contactCountLabel = countLabel (counted sn_contact_count) (js ''contact'') (js ''contacts''),
          sp_deviceId = deviceId,
          sp_endpoint = nonempty (map_option fst ready),
          sp_importedThisRunLabel = nat_digits (counted sn_imported_this_run) @ js '' imported since app start'',
          sp_lxmfDestination = nonempty (map_option dv_lxmf_delivery_destination device),
          sp_pendingOutboxLabel = nat_digits (counted sn_pending_outbox) @ js '' outbound pending'',
          sp_primaryDestination = nonempty (map_option dv_primary_destination device),
          sp_tone = (if ready \<noteq> None then StatusReady
                     else if connection = Some ConnFaulted \<or> connection = Some ConnStopped then StatusFaulted
                     else StatusNeutral)\<rparr>)"

section \<open>HTTP projection\<close>

datatype HttpConnectionState =
  HttpStarting | HttpDisconnected | HttpConnecting | HttpReady jstring jstring | HttpBackoff | HttpFaulted | HttpStopped

fun connectionFromHttp :: "HttpConnectionState \<Rightarrow> ConnectionState" where
  "connectionFromHttp (HttpReady endpoint device_label) = ConnReady endpoint device_label"
| "connectionFromHttp HttpStarting = ConnStarting"
| "connectionFromHttp HttpDisconnected = ConnDisconnected"
| "connectionFromHttp HttpConnecting = ConnConnecting"
| "connectionFromHttp HttpBackoff = ConnBackoff"
| "connectionFromHttp HttpFaulted = ConnFaulted"
| "connectionFromHttp HttpStopped = ConnStopped"

record HttpApplianceSnapshot =
  hs_connection :: HttpConnectionState
  hs_device :: "DeviceView option"
  hs_pending_outbox :: nat
  hs_contact_count :: nat
  hs_imported_this_run :: nat
  hs_last_error :: "jstring option"

definition applianceSnapshotFromHttp :: "HttpApplianceSnapshot \<Rightarrow> ApplianceSnapshot" where
  "applianceSnapshotFromHttp snapshot =
     \<lparr>sn_connection = connectionFromHttp (hs_connection snapshot), sn_device = hs_device snapshot,
      sn_pending_outbox = hs_pending_outbox snapshot, sn_contact_count = hs_contact_count snapshot,
      sn_imported_this_run = hs_imported_this_run snapshot, sn_last_error = hs_last_error snapshot\<rparr>"

section \<open>Saved profiles\<close>

text \<open>The summary of a profile with the label that the appliance reported, and the snapshot of the store.\<close>

record LabelledProfileSummary = NativeProfileSummary +
  ps_applianceLabel :: "jstring option"

record profile_store_view =
  sv_activeProfileKey :: "jstring option"
  sv_profiles :: "LabelledProfileSummary list"

record ApplianceProfilePresentation =
  ap_active :: bool
  ap_boardLabel :: jstring
  ap_lxmfDestination :: jstring
  ap_managementDestination :: jstring
  ap_profileKey :: jstring

record ApplianceProfilesPresentation =
  aps_activeProfile :: "ApplianceProfilePresentation option"
  aps_profiles :: "ApplianceProfilePresentation list"

definition normalized_text :: "jstring \<Rightarrow> jstring" where
  "normalized_text value = js_lower (js_trim value)"

definition normalizedIdentity :: "jstring option \<Rightarrow> jstring" where
  "normalizedIdentity value = (case value of None \<Rightarrow> [] | Some v \<Rightarrow> normalized_text v)"

definition applianceProfilePresentation :: "LabelledProfileSummary \<Rightarrow> jstring option \<Rightarrow> ApplianceProfilePresentation" where
  "applianceProfilePresentation profile activeProfileKey =
     (let profileKey = normalized_text (ps_profileKey profile);
          managementDestination = normalized_text (ps_managementDestination profile);
          applianceLabel = (case ps_applianceLabel profile of None \<Rightarrow> [] | Some l \<Rightarrow> js_trim l)
      in \<lparr>ap_active = (normalizedIdentity activeProfileKey \<noteq> [] \<and> normalizedIdentity activeProfileKey = profileKey),
          ap_boardLabel = (if applianceLabel = [] then js ''reticulum:'' @ js_slice_last 8 managementDestination
                           else applianceLabel),
          ap_lxmfDestination = normalized_text (ps_lxmfDestination profile),
          ap_managementDestination = managementDestination,
          ap_profileKey = profileKey\<rparr>)"

definition applianceProfilesPresentation :: "profile_store_view \<Rightarrow> ApplianceProfilesPresentation" where
  "applianceProfilesPresentation snapshot =
     (let profiles = map (\<lambda>profile. applianceProfilePresentation profile (sv_activeProfileKey snapshot)) (sv_profiles snapshot)
      in \<lparr>aps_activeProfile = find ap_active profiles, aps_profiles = profiles\<rparr>)"

definition knownProfileForManagementDestination ::
  "profile_store_view \<Rightarrow> jstring \<Rightarrow> ApplianceProfilePresentation option" where
  "knownProfileForManagementDestination snapshot managementDestination =
     (let destination = normalizedIdentity (Some managementDestination) in
      if destination = [] then None
      else find (\<lambda>profile. ap_managementDestination profile = destination)
             (aps_profiles (applianceProfilesPresentation snapshot)))"

section \<open>Onboarding\<close>

record OnboardingPresentation =
  op_instruction :: jstring
  op_ready :: bool
  op_title :: jstring

definition completesAdditionalApplianceEnrollment :: "OnboardingView \<Rightarrow> jstring option \<Rightarrow> bool" where
  "completesAdditionalApplianceEnrollment view expectedManagementDestination =
     (case (expectedManagementDestination, ov_lifecycle view) of
        (Some expected, OnboardingReady managementDestination) \<Rightarrow>
          normalized_text managementDestination = normalized_text expected
      | _ \<Rightarrow> False)"

definition onboardingPresentation :: "OnboardingView \<Rightarrow> OnboardingPresentation" where
  "onboardingPresentation view =
     (case ov_lifecycle view of
        OnboardingReady _ \<Rightarrow>
          \<lparr>op_instruction = js ''The saved Reticulum management application is ready.'', op_ready = True,
           op_title = js ''Appliance authorized''\<rparr>
      | Authorizing _ \<Rightarrow>
          \<lparr>op_instruction =
             js ''Keep the physical enrollment window open while the app verifies its identified request.'',
           op_ready = False, op_title = js ''Authorizing Reticulum identity''\<rparr>
      | OnboardingFaulted reason \<Rightarrow>
          \<lparr>op_instruction = js_replace_unit 95 32 reason, op_ready = False, op_title = js ''Enrollment needs attention''\<rparr>
      | OnboardingUnavailable \<Rightarrow>
          \<lparr>op_instruction = js ''Enrollment is managed by the host service operator.'', op_ready = True,
           op_title = js ''Appliance selected''\<rparr>
      | NeedsCandidate \<Rightarrow>
          \<lparr>op_instruction = js ''Choose a verified appliance management announce.'', op_ready = False,
           op_title = js ''Choose a Reticulum appliance''\<rparr>)"

section \<open>Navigation\<close>

datatype ApplianceWorkspace = WsActivity | WsConnectivity | WsLxmf | WsMap | WsNomad

record WorkspaceDestination =
  wd_label :: jstring
  wd_labelWide :: jstring
  wd_path :: jstring
  wd_workspace :: ApplianceWorkspace

definition WORKSPACE_DESTINATIONS :: "WorkspaceDestination list" where
  "WORKSPACE_DESTINATIONS =
     [\<lparr>wd_label = js ''Chat'', wd_labelWide = js ''Messages'', wd_path = js ''/'', wd_workspace = WsLxmf\<rparr>,
      \<lparr>wd_label = js ''Browse'', wd_labelWide = js ''Browse'', wd_path = js ''/nomad'', wd_workspace = WsNomad\<rparr>,
      \<lparr>wd_label = js ''Activity'', wd_labelWide = js ''Activity'', wd_path = js ''/activity'', wd_workspace = WsActivity\<rparr>,
      \<lparr>wd_label = js ''Map'', wd_labelWide = js ''Map'', wd_path = js ''/map'', wd_workspace = WsMap\<rparr>,
      \<lparr>wd_label = js ''Net'', wd_labelWide = js ''Network'', wd_path = js ''/net'', wd_workspace = WsConnectivity\<rparr>]"

definition workspaceFromPathname :: "jstring \<Rightarrow> ApplianceWorkspace option" where
  "workspaceFromPathname pathname =
     (if pathname = js ''/'' then Some WsLxmf
      else if js_startsWith pathname (js ''/nomad'') then Some WsNomad
      else if js_startsWith pathname (js ''/activity'') then Some WsActivity
      else if js_startsWith pathname (js ''/map'') then Some WsMap
      else if js_startsWith pathname (js ''/net'') then Some WsConnectivity
      else None)"

fun workspaceTitle :: "ApplianceWorkspace \<Rightarrow> jstring" where
  "workspaceTitle WsLxmf = js ''Messages''"
| "workspaceTitle WsNomad = js ''NomadNet''"
| "workspaceTitle WsActivity = js ''Activity''"
| "workspaceTitle WsMap = js ''Map''"
| "workspaceTitle WsConnectivity = js ''Network''"

fun pathForWorkspace :: "ApplianceWorkspace \<Rightarrow> jstring" where
  "pathForWorkspace WsLxmf = js ''/''"
| "pathForWorkspace WsNomad = js ''/nomad''"
| "pathForWorkspace WsActivity = js ''/activity''"
| "pathForWorkspace WsMap = js ''/map''"
| "pathForWorkspace WsConnectivity = js ''/net''"

section \<open>Platform policies\<close>

datatype notification_block = BlockedByApplication | BlockedByAndroidChannel

datatype MessageNotificationPermission =
  PermissionChecking | PermissionUnsupported
| PermissionDisabled bool notification_block \<comment> \<open>can ask again, reason\<close>
| PermissionEnabled
| PermissionError jstring

definition projectMessageNotificationPermission :: "bool \<Rightarrow> bool \<Rightarrow> bool \<Rightarrow> MessageNotificationPermission" where
  "projectMessageNotificationPermission androidChannelBlocked applicationCanAskAgain applicationGranted =
     (if \<not> applicationGranted then PermissionDisabled applicationCanAskAgain BlockedByApplication
      else if androidChannelBlocked then PermissionDisabled False BlockedByAndroidChannel
      else PermissionEnabled)"

record KeyboardLayoutPolicy =
  kl_avoidingBehavior :: jstring
  kl_avoidingEnabled :: bool
  kl_dismissMode :: jstring
  kl_inputAccessoryEnabled :: bool

definition keyboardLayoutPolicy :: "jstring \<Rightarrow> KeyboardLayoutPolicy" where
  "keyboardLayoutPolicy platform =
     \<lparr>kl_avoidingBehavior = (if platform = js ''ios'' then js ''padding'' else js ''height''),
      kl_avoidingEnabled = (platform = js ''ios'' \<or> platform = js ''android''),
      kl_dismissMode = (if platform = js ''ios'' then js ''interactive'' else js ''on-drag''),
      kl_inputAccessoryEnabled = (platform = js ''ios'')\<rparr>"


section \<open>Lemmas\<close>

declare js.simps [simp del]

lemma hex_any_plain: "is_hex_any c \<Longrightarrow> c \<noteq> 45 \<and> c \<noteq> 58 \<and> \<not> is_space c"
  by (auto simp: is_hex_any_def is_digit_def is_space_def)

lemma hex_any_upper: "is_hex_any c \<Longrightarrow> is_hex_any (upper_ascii c)"
  by (auto simp: is_hex_any_def is_digit_def upper_ascii_def)

lemma upper_ascii_idem [simp]: "upper_ascii (upper_ascii c) = upper_ascii c"
  by (cases "97 \<le> c \<and> c \<le> 122") (auto simp: upper_ascii_def)

lemma eui48_of_hex:
  assumes "eui48_of compactId = Some e"
  shows "length e = 12" and "list_all is_hex_any e"
proof -
  have "length E290_DEVICE_API_ID_PREFIX_HEX = 20" by (simp add: E290_DEVICE_API_ID_PREFIX_HEX_def js.simps)
  then show "length e = 12" "list_all is_hex_any e"
    using assms by (auto simp: eui48_of_def list_all_iff split: if_splits dest: in_set_dropD)
qed

lemma js_pairs_join:
  "even (length s) \<Longrightarrow> list_all is_hex_any s \<Longrightarrow> compact_id (js_join [58] (js_pairs s)) = s"
proof (induction s rule: js_pairs.induct)
  case (1 a b s)
  then show ?case
    by (cases s rule: js_pairs.cases) (auto simp: compact_id_def hex_any_plain)
qed (auto simp: compact_id_def)

lemma js_pairs_join_ends:
  "even (length s) \<Longrightarrow> s \<noteq> [] \<Longrightarrow> hd (js_join [58] (js_pairs s)) = hd s \<and> last (js_join [58] (js_pairs s)) = last s
     \<and> js_join [58] (js_pairs s) \<noteq> []"
proof (induction s rule: js_pairs.induct)
  case (1 a b s)
  then show ?case by (cases s rule: js_pairs.cases) auto
qed auto

section \<open>Properties\<close>

text \<open>
  The displayed form of a device identity is canonical: formatting it again changes nothing, and an EUI-48, plain or
  inside an identity of the device API, is shown as six pairs of upper-case digits.
\<close>

theorem device_id_canonical:
  "formatDeviceId (formatDeviceId value) = formatDeviceId value"
proof (cases "eui48_of (compact_id (js_trim value))")
  case None
  then show ?thesis by (simp add: formatDeviceId_def)
next
  case (Some e)
  let ?u = "map upper_ascii e" and ?text = "js_join [58] (js_pairs (map upper_ascii e))"
  have e: "length e = 12" "list_all is_hex_any e" using eui48_of_hex [OF Some] by blast+
  then have hex: "list_all is_hex_any ?u" by (auto simp: list_all_iff hex_any_upper)
  have "?u \<noteq> []" using e by auto
  then have ends: "hd ?text = hd ?u" "last ?text = last ?u" "?text \<noteq> []"
    using js_pairs_join_ends [of ?u] e by auto
  have "\<not> is_space (hd ?u)" "\<not> is_space (last ?u)"
    using hex hd_in_set [OF \<open>?u \<noteq> []\<close>] last_in_set [OF \<open>?u \<noteq> []\<close>] hex_any_plain unfolding list_all_iff by blast+
  then have trim: "js_trim ?text = ?text" using ends by (intro js_trim_id) simp
  have "compact_id ?text = ?u" using js_pairs_join [OF _ hex] e by simp
  then have "eui48_of (compact_id ?text) = Some ?u" using e hex by (simp add: eui48_of_def)
  then have "formatDeviceId ?text = ?text" by (simp add: formatDeviceId_def trim comp_def)
  then show ?thesis using Some by (simp add: formatDeviceId_def)
qed

text \<open>
  Navigation round trip: the path of a workspace leads back to that workspace, and the destinations of the
  navigation bar are exactly these pairs, one for each workspace.
\<close>

theorem navigation_roundtrip:
  "workspaceFromPathname (pathForWorkspace w) = Some w \<and>
   length (filter (\<lambda>d. wd_workspace d = w \<and> wd_path d = pathForWorkspace w) WORKSPACE_DESTINATIONS) = 1"
  by (cases w) (simp_all add: workspaceFromPathname_def WORKSPACE_DESTINATIONS_def js.simps)

text \<open>
  The status of the appliance is presented as ready exactly when the snapshot reports a ready connection, and as
  faulted exactly when it reports a fault or a stop; over HTTP the same holds of the service's own state.
\<close>

theorem status_tone_truthful:
  "(sp_tone (applianceStatusPresentation snapshot) = StatusReady \<longleftrightarrow>
      (\<exists>s endpoint label. snapshot = Some s \<and> sn_connection s = ConnReady endpoint label)) \<and>
   (sp_tone (applianceStatusPresentation snapshot) = StatusFaulted \<longleftrightarrow>
      (\<exists>s. snapshot = Some s \<and> sn_connection s \<in> {ConnFaulted, ConnStopped})) \<and>
   (sp_tone (applianceStatusPresentation (Some (applianceSnapshotFromHttp h))) = StatusReady \<longleftrightarrow>
      (\<exists>endpoint label. hs_connection h = HttpReady endpoint label))"
  by (cases snapshot; cases "sn_connection (the snapshot)"; cases "hs_connection h")
    (simp_all add: applianceStatusPresentation_def Let_def applianceSnapshotFromHttp_def)

text \<open>
  The profile shown as active is the one of the store's active key: it is a profile of the store with that key, and if
  the store has such a profile one is shown.
\<close>

theorem active_profile_exact:
  assumes "normalizedIdentity (sv_activeProfileKey store) \<noteq> []"
  shows "(case aps_activeProfile (applianceProfilesPresentation store) of
      None \<Rightarrow> normalizedIdentity (sv_activeProfileKey store) \<notin> (normalized_text \<circ> ps_profileKey) ` set (sv_profiles store)
    | Some shown \<Rightarrow> ap_profileKey shown = normalizedIdentity (sv_activeProfileKey store) \<and>
        (\<exists>p \<in> set (sv_profiles store). shown = applianceProfilePresentation p (sv_activeProfileKey store)))"
proof (cases "aps_activeProfile (applianceProfilesPresentation store)")
  case None
  then have "\<forall>p \<in> set (sv_profiles store). normalized_text (ps_profileKey p) \<noteq> normalizedIdentity (sv_activeProfileKey store)"
    using assms by (fastforce simp: applianceProfilesPresentation_def find_None_iff applianceProfilePresentation_def Let_def)
  then show ?thesis unfolding None by auto
next
  case (Some shown)
  then have "shown \<in> set (aps_profiles (applianceProfilesPresentation store))" "ap_active shown"
    by (auto simp: applianceProfilesPresentation_def Let_def find_Some_iff)
  then show ?thesis
    unfolding Some by (auto simp: applianceProfilesPresentation_def applianceProfilePresentation_def Let_def)
qed

definition store_example :: profile_store_view where
  "store_example = \<lparr>sv_activeProfileKey = Some (js ''aa''),
     sv_profiles = [\<lparr>ps_profileKey = js ''aa'', ps_managementDestination = js ''aa'', ps_lxmfDestination = js ''bb'',
       ps_applianceLabel = None\<rparr>]\<rparr>"

theorem active_profile_exact_witness:
  "normalizedIdentity (sv_activeProfileKey store_example) \<noteq> [] \<and>
   map_option ap_profileKey (aps_activeProfile (applianceProfilesPresentation store_example)) = Some (js ''aa'')"
proof -
  have key: "normalizedIdentity (sv_activeProfileKey store_example) = js ''aa''"
    by (simp add: store_example_def normalizedIdentity_def normalized_text_def js_trim_def js_lower_def lower_unit_def
        is_space_def js.simps)
  moreover have "normalizedIdentity (sv_activeProfileKey store_example) \<in> (normalized_text \<circ> ps_profileKey) ` set (sv_profiles store_example)"
    by (simp add: store_example_def normalizedIdentity_def)
  ultimately show ?thesis
    using active_profile_exact [of store_example]
    by (cases "aps_activeProfile (applianceProfilesPresentation store_example)") (auto simp: js.simps)
qed

end
