(* ===== verification/PagedReads.thy ===== *)
theory PagedReads
  imports Pollers JsText
begin

text \<open>
  The newest-first histories of the application: the paged reads \<open>loadActivity\<close> and \<open>loadRadioTrace\<close> of
  \<open>lib/appliance-context.tsx\<close> with their resets, and the complete collection of \<open>lib/radio-trace-export.ts\<close>.
  The two pairs of functions differ only in the query, so one model over the type of events serves both. A read that was
  issued and has not settled is in \<open>pg_reads\<close>.
\<close>

section \<open>Pages\<close>

record 'e page =
  pv_events :: "'e list"
  pv_next_before_event_id :: "int option"
  pv_history_incomplete :: bool

record page_request =
  pq_before_event_id :: "int option"
  pq_limit :: nat
  pq_timeline_sequence :: "int option"

definition MESSAGE_ACTIVITY_PAGE_SIZE :: nat where "MESSAGE_ACTIVITY_PAGE_SIZE = 50"
definition RADIO_TRACE_PAGE_SIZE :: nat where "RADIO_TRACE_PAGE_SIZE = 50"

section \<open>Loading\<close>

record 'e page_read =
  pr_request :: nat \<comment> \<open>generation of the request\<close>
  pr_query :: page_request
  pr_base :: "'e page option" \<comment> \<open>the retained page that an older page extends\<close>

record 'e paged =
  pg_requests :: latest_request
  pg_inFlight :: "nat option"
  pg_page :: "'e page option"
  pg_loading :: bool
  pg_error :: "jstring option"
  pg_reads :: "'e page_read list"

definition paged_new :: "'e paged" where
  "paged_new = \<lparr>pg_requests = latest_request_new, pg_inFlight = None, pg_page = None, pg_loading = False, pg_error = None,
     pg_reads = []\<rparr>"

text \<open>\<open>resetActivity\<close> and \<open>resetRadioTrace\<close>.\<close>

definition paged_reset :: "'e paged \<Rightarrow> 'e paged" where
  "paged_reset p = p\<lparr>pg_requests := lr_invalidate (pg_requests p), pg_inFlight := None, pg_page := None, pg_error := None,
     pg_loading := False\<rparr>"

text \<open>\<open>loadActivity(older)\<close> and \<open>loadRadioTrace(older)\<close> up to the read; \<open>available\<close> is whether the client has the method.\<close>

definition paged_load :: "bool \<Rightarrow> nat \<Rightarrow> bool \<Rightarrow> 'e paged \<Rightarrow> 'e paged" where
  "paged_load available limit older p =
     (if \<not> available \<or> pg_inFlight p \<noteq> None then p
      else let retained = pg_page p;
               beforeEventId = (if older then Option.bind retained pv_next_before_event_id else None)
           in if older \<and> beforeEventId = None then p
              else let (request, requests) = lr_begin (pg_requests p)
                   in p\<lparr>pg_requests := requests, pg_inFlight := Some request, pg_loading := True, pg_error := None,
                        pg_reads := pg_reads p @
                          [\<lparr>pr_request = request,
                            pr_query = \<lparr>pq_before_event_id = beforeEventId, pq_limit = limit, pq_timeline_sequence = None\<rparr>,
                            pr_base = (if older then retained else None)\<rparr>]\<rparr>)"

definition merged_page :: "'e page option \<Rightarrow> 'e page \<Rightarrow> 'e page" where
  "merged_page base next =
     (case base of
        None \<Rightarrow> next
      | Some retained \<Rightarrow>
          \<lparr>pv_events = pv_events retained @ pv_events next,
           pv_next_before_event_id = pv_next_before_event_id next,
           pv_history_incomplete = (pv_history_incomplete retained \<or> pv_history_incomplete next)\<rparr>)"

text \<open>The \<open>finally\<close> block.\<close>

definition paged_finally :: "nat \<Rightarrow> 'e paged \<Rightarrow> 'e paged" where
  "paged_finally request p =
     p\<lparr>pg_inFlight := (if pg_inFlight p = Some request then None else pg_inFlight p),
       pg_loading := (if lr_accepts (pg_requests p) request then False else pg_loading p)\<rparr>"

definition paged_settles :: "'e page_read \<Rightarrow> 'e page settled \<Rightarrow> 'e paged \<Rightarrow> 'e paged" where
  "paged_settles r result p =
     (let p' = p\<lparr>pg_reads := remove1 r (pg_reads p)\<rparr>;
          accepted = lr_accepts (pg_requests p') (pr_request r)
      in paged_finally (pr_request r)
           (case result of
              Fulfilled next \<Rightarrow> if \<not> accepted then p' else p'\<lparr>pg_page := Some (merged_page (pr_base r) next)\<rparr>
            | Rejected e \<Rightarrow> if accepted then p'\<lparr>pg_error := Some (errorText e)\<rparr> else p'))"

inductive paged_step :: "bool \<Rightarrow> nat \<Rightarrow> 'e paged \<Rightarrow> 'e paged \<Rightarrow> bool" for available :: bool and limit :: nat where
  paged_call_load: "paged_step available limit p (paged_load available limit older p)"
| paged_call_reset: "paged_step available limit p (paged_reset p)"
| paged_read_settles: "r \<in> set (pg_reads p) \<Longrightarrow> paged_step available limit p (paged_settles r result p)"

section \<open>Complete collection\<close>

definition RADIO_TRACE_EXPORT_PAGE_SIZE :: nat where "RADIO_TRACE_EXPORT_PAGE_SIZE = 100"

record 'e RadioTraceCollection =
  rtc_events :: "'e list"
  rtc_historyIncomplete :: bool

text \<open>
  The loop of \<open>collectCompleteRadioTrace\<close>. The reader is the code of the client: \<open>read i\<close> is what it answers to its
  call number \<open>i\<close>. The loop ends because every turn adds a cursor to the set of observed cursors, which are safe
  integers.
\<close>

lemma unobserved_decreases:
  assumes "1 \<le> cursor" and "cursor \<le> m" and "cursor \<notin> set observed"
  shows "card ({1 .. m} - insert cursor (set observed)) < card ({1 .. m :: int} - set observed)"
proof -
  have "{1 .. m} - insert cursor (set observed) = ({1 .. m} - set observed) - {cursor}" by blast
  then show ?thesis using assms by (simp only:) (rule card_Diff1_less, simp_all)
qed

function collect_loop ::
  "(nat \<Rightarrow> page_request \<Rightarrow> 'e page settled) \<Rightarrow> int option \<Rightarrow> nat \<Rightarrow> int option \<Rightarrow> bool \<Rightarrow> 'e list \<Rightarrow> int list
   \<Rightarrow> thrown + 'e RadioTraceCollection" where
  "collect_loop read timelineSequence i beforeEventId historyIncomplete newestFirst observedCursors =
     (case read i \<lparr>pq_before_event_id = beforeEventId, pq_limit = RADIO_TRACE_EXPORT_PAGE_SIZE,
                   pq_timeline_sequence = timelineSequence\<rparr> of
        Rejected e \<Rightarrow> Inl e
      | Fulfilled page \<Rightarrow>
          (case pv_next_before_event_id page of
             None \<Rightarrow> Inr \<lparr>rtc_events = rev (newestFirst @ pv_events page),
                          rtc_historyIncomplete = (historyIncomplete \<or> pv_history_incomplete page)\<rparr>
           | Some next \<Rightarrow>
               if \<not> isSafeInteger next \<or> next \<le> 0
               then Inl (ErrorObject (js ''RF trace export received an invalid pagination cursor''))
               else if next \<in> set observedCursors
               then Inl (ErrorObject (js ''RF trace export pagination repeated a cursor''))
               else collect_loop read timelineSequence (Suc i) (Some next) (historyIncomplete \<or> pv_history_incomplete page)
                      (newestFirst @ pv_events page) (next # observedCursors)))"
  by pat_completeness auto

termination
proof (relation "measure (\<lambda>(read, t, i, b, inc, newest, observed). card ({1 .. MAX_SAFE_INTEGER} - set observed))", goal_cases)
  case 1
  then show ?case by simp
next
  case (2 read t i b inc newest observed page cursor)
  then have fresh: "1 \<le> cursor" "cursor \<le> MAX_SAFE_INTEGER" "cursor \<notin> set observed"
    unfolding isSafeInteger_def by linarith+
  show ?case
    unfolding in_measure split_conv list.set(2) by (rule unobserved_decreases [OF fresh])
qed

declare collect_loop.simps [simp del]

definition collectCompleteRadioTrace ::
  "(nat \<Rightarrow> page_request \<Rightarrow> 'e page settled) \<Rightarrow> int option \<Rightarrow> thrown + 'e RadioTraceCollection" where
  "collectCompleteRadioTrace read timelineSequence = collect_loop read timelineSequence 0 None False [] []"

section \<open>The invariant of a paged read\<close>

abbreviation pg_generation :: "'e paged \<Rightarrow> nat" where
  "pg_generation p \<equiv> lr_generation (pg_requests p)"

text \<open>The page that a current read extends is still the page shown, and its query continues that page.\<close>

definition read_continues :: "'e paged \<Rightarrow> 'e page_read \<Rightarrow> bool" where
  "read_continues p r \<longleftrightarrow>
     (case pr_base r of
        None \<Rightarrow> pq_before_event_id (pr_query r) = None
      | Some b \<Rightarrow> pg_page p = Some b \<and> pq_before_event_id (pr_query r) = pv_next_before_event_id b \<and>
                  pv_next_before_event_id b \<noteq> None)"

definition paged_inv :: "'e paged \<Rightarrow> bool" where
  "paged_inv p \<longleftrightarrow>
     distinct (map pr_request (pg_reads p)) \<and>
     pg_loading p = (pg_inFlight p \<noteq> None) \<and>
     (pg_inFlight p \<noteq> None \<longrightarrow> pg_inFlight p = Some (pg_generation p) \<and> pg_generation p \<in> pr_request ` set (pg_reads p)) \<and>
     (\<forall>r \<in> set (pg_reads p). pr_request r \<le> pg_generation p \<and>
        (pr_request r = pg_generation p \<longrightarrow> pg_inFlight p = Some (pg_generation p) \<and> read_continues p r))"

lemma paged_new_inv: "paged_inv paged_new"
  by (simp add: paged_inv_def paged_new_def)

lemma paged_reset_inv: "paged_inv p \<Longrightarrow> paged_inv (paged_reset p)"
  by (fastforce simp: paged_inv_def paged_reset_def lr_invalidate_def)

lemma paged_load_inv:
  assumes "paged_inv p"
  shows "paged_inv (paged_load available limit older p)"
proof (cases "paged_load available limit older p = p")
  case True
  then show ?thesis using assms by simp
next
  case False
  then have idle: "pg_inFlight p = None" by (auto simp: paged_load_def split: if_splits)
  then have stale: "\<forall>r \<in> set (pg_reads p). pr_request r < Suc (pg_generation p)"
    using assms by (fastforce simp: paged_inv_def)
  show ?thesis
    using assms False idle stale
    by (fastforce simp: paged_load_def paged_inv_def lr_begin_def read_continues_def Let_def split: if_splits option.splits)
qed

lemma remove1_distinct_key:
  assumes "distinct (map f xs)" and "x \<in> set xs" and "y \<in> set (remove1 x xs)"
  shows "y \<in> set xs \<and> f y \<noteq> f x"
proof -
  have "distinct xs" "inj_on f (set xs)" using assms(1) by (simp_all add: distinct_map)
  then show ?thesis using assms(2,3) by (auto simp: set_remove1_eq dest: inj_onD)
qed

text \<open>A completion of a superseded read changes nothing that is shown.\<close>

lemma paged_stale_settles:
  assumes "pr_request r \<noteq> pg_generation p" and "pg_inFlight p \<noteq> Some (pr_request r)"
  shows "paged_settles r result p = p\<lparr>pg_reads := remove1 r (pg_reads p)\<rparr>"
  using assms by (cases result) (simp_all add: paged_settles_def paged_finally_def lr_accepts_def Let_def)

lemma read_continues_reads: "read_continues (p\<lparr>pg_reads := rs\<rparr>) r = read_continues p r"
  by (simp add: read_continues_def split: option.split)

lemma paged_inv_reads:
  "paged_inv (p\<lparr>pg_reads := rs\<rparr>) \<longleftrightarrow>
     distinct (map pr_request rs) \<and> pg_loading p = (pg_inFlight p \<noteq> None) \<and>
     (pg_inFlight p \<noteq> None \<longrightarrow> pg_inFlight p = Some (pg_generation p) \<and> pg_generation p \<in> pr_request ` set rs) \<and>
     (\<forall>r \<in> set rs. pr_request r \<le> pg_generation p \<and>
        (pr_request r = pg_generation p \<longrightarrow> pg_inFlight p = Some (pg_generation p) \<and> read_continues p r))"
  by (simp add: paged_inv_def read_continues_reads)

lemma paged_settles_inv:
  assumes "paged_inv p" and "r \<in> set (pg_reads p)"
  shows "paged_inv (paged_settles r result p)"
proof (cases "pr_request r = pg_generation p")
  case True
  have dist: "distinct (map pr_request (pg_reads p))" and flight: "pg_inFlight p = Some (pg_generation p)"
    using assms True unfolding paged_inv_def by blast+
  have others: "\<forall>q \<in> set (remove1 r (pg_reads p)). pr_request q \<noteq> pg_generation p \<and> pr_request q \<le> pg_generation p"
  proof
    fix q assume "q \<in> set (remove1 r (pg_reads p))"
    then have "q \<in> set (pg_reads p)" "pr_request q \<noteq> pr_request r" using remove1_distinct_key [OF dist assms(2)] by blast+
    then show "pr_request q \<noteq> pg_generation p \<and> pr_request q \<le> pg_generation p"
      using assms(1) True by (simp add: paged_inv_def)
  qed
  have "distinct (map pr_request (remove1 r (pg_reads p)))"
    using dist by (auto simp: distinct_map set_remove1_eq intro: inj_on_subset)
  then show ?thesis
    using others flight True
    by (cases result) (auto simp: paged_settles_def paged_finally_def paged_inv_def lr_accepts_def Let_def)
next
  case False
  have flight: "pg_inFlight p \<noteq> Some (pr_request r)" using assms(1) False by (auto simp: paged_inv_def)
  have dist: "distinct (map pr_request (pg_reads p))" using assms(1) by (simp add: paged_inv_def)
  then have "distinct (map pr_request (remove1 r (pg_reads p)))"
    by (auto simp: distinct_map set_remove1_eq intro: inj_on_subset)
  moreover have "pg_generation p \<in> pr_request ` set (remove1 r (pg_reads p))" if "pg_inFlight p \<noteq> None"
  proof -
    obtain q where "q \<in> set (pg_reads p)" "pr_request q = pg_generation p"
      using assms(1) \<open>pg_inFlight p \<noteq> None\<close> unfolding paged_inv_def by (metis imageE)
    moreover have "q \<noteq> r" using \<open>pr_request q = pg_generation p\<close> False by blast
    ultimately show ?thesis by (metis image_eqI in_set_remove1)
  qed
  moreover have "\<forall>q \<in> set (remove1 r (pg_reads p)). pr_request q \<le> pg_generation p \<and>
      (pr_request q = pg_generation p \<longrightarrow> pg_inFlight p = Some (pg_generation p) \<and> read_continues p q)"
    using assms(1) set_remove1_subset [of r "pg_reads p"] unfolding paged_inv_def by blast
  moreover have "pg_loading p = (pg_inFlight p \<noteq> None)" "pg_inFlight p \<noteq> None \<longrightarrow> pg_inFlight p = Some (pg_generation p)"
    using assms(1) by (simp_all add: paged_inv_def)
  ultimately show ?thesis
    unfolding paged_stale_settles [OF False flight] paged_inv_reads by blast
qed

lemma paged_step_inv: "paged_step available limit p q \<Longrightarrow> paged_inv p \<Longrightarrow> paged_inv q"
  by (induction rule: paged_step.induct) (auto intro: paged_reset_inv paged_load_inv paged_settles_inv)

interpretation paging: step_invariant "paged_step available limit" paged_inv for available limit
  by unfold_locales (rule paged_step_inv)

interpretation paging: generation_guard "paged_step available limit" pg_generation "\<lambda>p. lr_accepts (pg_requests p)"
  for available limit
proof unfold_locales
  fix p q :: "'a paged"
  show "paged_step available limit p q \<Longrightarrow> pg_generation p \<le> pg_generation q"
    by (induction rule: paged_step.induct)
      (auto simp: paged_load_def paged_reset_def paged_settles_def paged_finally_def lr_begin_def lr_invalidate_def Let_def
        split: settled.split)
qed (simp add: lr_accepts_def)

section \<open>Reads of a history\<close>

text \<open>
  What the store of the appliance answers (the documented contract of the two page types: bounded, newest first): the
  newest events before the cursor, and a cursor exactly when older ones remain.
\<close>

definition newest_first :: "('e \<Rightarrow> int) \<Rightarrow> 'e list \<Rightarrow> bool" where
  "newest_first eid h \<longleftrightarrow> sorted_wrt (\<lambda>a b. eid a > eid b) h"

definition serve_page :: "('e \<Rightarrow> int) \<Rightarrow> bool \<Rightarrow> 'e list \<Rightarrow> page_request \<Rightarrow> 'e page" where
  "serve_page eid incomplete h q =
     (let below = (case pq_before_event_id q of None \<Rightarrow> h | Some b \<Rightarrow> filter (\<lambda>e. eid e < b) h);
          shown = take (pq_limit q) below
      in \<lparr>pv_events = shown,
          pv_next_before_event_id = (if pq_limit q < length below then Some (eid (last shown)) else None),
          pv_history_incomplete = incomplete\<rparr>)"

lemma newest_first_below:
  assumes "newest_first eid h" and "k < length h"
  shows "filter (\<lambda>e. eid e < eid (h ! k)) h = drop (Suc k) h"
proof -
  have split: "h = take k h @ h ! k # drop (Suc k) h" using assms(2) by (simp add: id_take_nth_drop)
  then have "newest_first eid (take k h @ h ! k # drop (Suc k) h)" using assms(1) by simp
  then have "\<forall>e \<in> set (take k h). \<not> eid e < eid (h ! k)" "\<forall>e \<in> set (drop (Suc k) h). eid e < eid (h ! k)"
    by (auto simp: newest_first_def sorted_wrt_append)
  then show ?thesis by (subst split) (simp add: filter_id_conv filter_empty_conv)
qed

lemma newest_first_distinct: "newest_first eid h \<Longrightarrow> distinct h"
  unfolding newest_first_def by (induction h) auto

text \<open>
  The store over time: the numbers of all events ever recorded, newest first; how many of the newest it still keeps (it
  deletes the oldest ones); and the contents of the events, which it may complete later.
\<close>

record 'e history_view =
  hv_ids :: "int list"
  hv_retained :: nat
  hv_content :: "int \<Rightarrow> 'e"
  hv_incomplete :: bool
  hv_paged :: "'e paged"

definition hv_kept :: "'e history_view \<Rightarrow> 'e list" where
  "hv_kept v = map (hv_content v) (take (hv_retained v) (hv_ids v))"

inductive history_step :: "('e \<Rightarrow> int) \<Rightarrow> nat \<Rightarrow> 'e history_view \<Rightarrow> 'e history_view \<Rightarrow> bool" for eid :: "'e \<Rightarrow> int" and limit :: nat where
  history_grows: "newest_first id (new @ hv_ids v) \<Longrightarrow>
     history_step eid limit v (v\<lparr>hv_ids := new @ hv_ids v, hv_retained := length new + hv_retained v\<rparr>)"
| history_prunes: "m \<le> hv_retained v \<Longrightarrow> history_step eid limit v (v\<lparr>hv_retained := m, hv_incomplete := True\<rparr>)"
| history_updates: "\<forall>i. eid (content i) = i \<Longrightarrow> history_step eid limit v (v\<lparr>hv_content := content, hv_incomplete := inc\<rparr>)"
| history_load: "history_step eid limit v (v\<lparr>hv_paged := paged_load True limit older (hv_paged v)\<rparr>)"
| history_reset: "history_step eid limit v (v\<lparr>hv_paged := paged_reset (hv_paged v)\<rparr>)"
| history_served: "r \<in> set (pg_reads (hv_paged v)) \<Longrightarrow>
     history_step eid limit v
       (v\<lparr>hv_paged := paged_settles r (Fulfilled (serve_page eid (hv_incomplete v) (hv_kept v) (pr_query r))) (hv_paged v)\<rparr>)"
| history_failed: "r \<in> set (pg_reads (hv_paged v)) \<Longrightarrow>
     history_step eid limit v (v\<lparr>hv_paged := paged_settles r (Rejected e) (hv_paged v)\<rparr>)"

text \<open>
  A page, as the segment of the recorded events from \<open>n\<close> with \<open>k\<close> events, of which the store keeps the first \<open>m\<close>.
\<close>

definition segment_of :: "('e \<Rightarrow> int) \<Rightarrow> int list \<Rightarrow> nat \<Rightarrow> 'e page \<Rightarrow> bool" where
  "segment_of eid ids m p \<longleftrightarrow>
     (\<exists>n k. n + k \<le> length ids \<and> map eid (pv_events p) = take k (drop n ids) \<and>
        (case pv_next_before_event_id p of
           None \<Rightarrow> m \<le> n + k
         | Some c \<Rightarrow> 0 < k \<and> c = ids ! (n + k - 1) \<and> n + k < length ids))"

lemma newest_first_kept_below:
  assumes "newest_first id ids" and "j < length ids"
  shows "filter (\<lambda>i. i < ids ! j) (take m ids) = drop (Suc j) (take m ids)"
proof (cases "j < m")
  case True
  have "newest_first id (take m ids)" using assms(1) by (simp add: newest_first_def sorted_wrt_take)
  from newest_first_below [OF this, of j] show ?thesis using True assms(2) by simp
next
  case False
  have "\<not> i < ids ! j" if "i \<in> set (take m ids)" for i
  proof -
    from that obtain x where "x < m" "x < length ids" "i = ids ! x" by (auto simp: in_set_conv_nth)
    then show ?thesis
      using sorted_wrt_nth_less [of "\<lambda>a b. a > b" ids x j] assms False by (cases "x = j") (auto simp: newest_first_def)
  qed
  then show ?thesis using False by (simp add: filter_empty_conv)
qed

text \<open>The events kept behind the first \<open>j\<close>, and what the store answers of them.\<close>

lemma last_of_taken: "0 < l \<Longrightarrow> l < length xs \<Longrightarrow> last (take l xs) = xs ! (l - 1)"
  by (subst last_conv_nth) auto

lemma serve_kept:
  assumes content: "\<forall>i. eid (content i) = i" and "m \<le> length ids" and "0 < pq_limit q"
    and below: "(case pq_before_event_id q of None \<Rightarrow> True | Some b \<Rightarrow> newest_first id ids \<and> 0 < j \<and> j \<le> length ids \<and> b = ids ! (j - 1))"
    and start: "pq_before_event_id q = None \<longrightarrow> j = 0"
  shows "map eid (pv_events (serve_page eid inc (map content (take m ids)) q)) = take (min (pq_limit q) (m - j)) (drop j ids)"
    and "pv_next_before_event_id (serve_page eid inc (map content (take m ids)) q) =
      (if pq_limit q < m - j then Some (ids ! (j + pq_limit q - 1)) else None)"
proof -
  let ?h = "map content (take m ids)"
  have older: "(case pq_before_event_id q of None \<Rightarrow> ?h | Some b \<Rightarrow> filter (\<lambda>e. eid e < b) ?h) = map content (take (m - j) (drop j ids))"
  proof (cases "pq_before_event_id q")
    case None
    then show ?thesis using start by simp
  next
    case (Some b)
    then have b: "newest_first id ids" "0 < j" "j \<le> length ids" "b = ids ! (j - 1)" using below by simp_all
    have "filter (\<lambda>e. eid e < b) ?h = map content (filter (\<lambda>i. i < b) (take m ids))"
      using content by (simp add: filter_map comp_def)
    also have "filter (\<lambda>i. i < b) (take m ids) = drop j (take m ids)"
      using newest_first_kept_below [OF b(1), of "j - 1" m] b(2-4) by simp
    finally show ?thesis using Some by (simp add: drop_take)
  qed
  have eids: "map eid (map content xs) = xs" for xs using content by (simp add: map_idI)
  show "map eid (pv_events (serve_page eid inc ?h q)) = take (min (pq_limit q) (m - j)) (drop j ids)"
    unfolding serve_page_def older Let_def by (simp add: take_map eids [unfolded map_map])
  show "pv_next_before_event_id (serve_page eid inc ?h q) = (if pq_limit q < m - j then Some (ids ! (j + pq_limit q - 1)) else None)"
  proof (cases "pq_limit q < m - j")
    case True
    then have "last (take (pq_limit q) (map content (take (m - j) (drop j ids)))) = content (ids ! (j + pq_limit q - 1))"
      using assms(2,3) by (subst last_of_taken) (auto simp: add.commute)
    then show ?thesis using True assms(2) content unfolding serve_page_def older Let_def by simp
  next
    case False
    then show ?thesis using assms(2) unfolding serve_page_def older Let_def by auto
  qed
qed

lemma serve_first_segment:
  assumes "\<forall>i. eid (content i) = i" and "m \<le> length ids" and "pq_before_event_id q = None" and "0 < pq_limit q"
  shows "segment_of eid ids m (serve_page eid inc (map content (take m ids)) q)"
  using serve_kept [of eid content m ids q 0 inc] assms unfolding segment_of_def
  by (intro exI [of _ 0] exI [of _ "min (pq_limit q) m"]) auto

lemma serve_next_segment:
  assumes "\<forall>i. eid (content i) = i" and "m \<le> length ids" and "newest_first id ids" and "segment_of eid ids m b"
    and "pq_before_event_id q = pv_next_before_event_id b" and "pv_next_before_event_id b \<noteq> None" and "0 < pq_limit q"
  shows "segment_of eid ids m (merged_page (Some b) (serve_page eid inc (map content (take m ids)) q))"
proof -
  obtain c where c: "pv_next_before_event_id b = Some c" using assms(6) by blast
  obtain n k where seg: "n + k < length ids" "0 < k" "map eid (pv_events b) = take k (drop n ids)" "c = ids ! (n + k - 1)"
    using assms(4) unfolding segment_of_def c option.case by blast
  let ?l = "min (pq_limit q) (m - (n + k))"
  have join: "take k (drop n ids) @ take l (drop (n + k) ids) = take (k + l) (drop n ids)" for l
    by (simp add: take_add add.commute)
  have served: "map eid (pv_events (serve_page eid inc (map content (take m ids)) q)) = take ?l (drop (n + k) ids)"
    "pv_next_before_event_id (serve_page eid inc (map content (take m ids)) q) =
      (if pq_limit q < m - (n + k) then Some (ids ! (n + k + pq_limit q - 1)) else None)"
  proof -
    have below: "case pq_before_event_id q of None \<Rightarrow> True
        | Some b \<Rightarrow> newest_first id ids \<and> 0 < n + k \<and> n + k \<le> length ids \<and> b = ids ! (n + k - 1)"
      unfolding assms(5) c option.case using assms(3) seg(1,2,4) by (intro conjI) simp_all
    have start: "pq_before_event_id q = None \<longrightarrow> n + k = 0" unfolding assms(5) c by simp
    show "map eid (pv_events (serve_page eid inc (map content (take m ids)) q)) = take ?l (drop (n + k) ids)"
      by (rule serve_kept(1) [of eid content, OF assms(1,2,7) below start])
    show "pv_next_before_event_id (serve_page eid inc (map content (take m ids)) q) =
        (if pq_limit q < m - (n + k) then Some (ids ! (n + k + pq_limit q - 1)) else None)"
      by (rule serve_kept(2) [of eid content, OF assms(1,2,7) below start])
  qed
  show ?thesis
    unfolding segment_of_def merged_page_def
    using served seg assms(2,7) join [of ?l]
    by (intro exI [of _ n] exI [of _ "k + ?l"]) (auto simp: min_def add.assoc)
qed

lemma segment_grows: "segment_of eid ids m p \<Longrightarrow> segment_of eid (new @ ids) (length new + m) p"
  unfolding segment_of_def
  by (elim exE conjE, rule_tac x = "length new + n" in exI, rule_tac x = k in exI)
    (auto simp: nth_append split: option.splits)

lemma segment_pruned: "segment_of eid ids m p \<Longrightarrow> m' \<le> m \<Longrightarrow> segment_of eid ids m' p"
  unfolding segment_of_def by (elim exE conjE, rule_tac x = n in exI, rule_tac x = k in exI) (auto split: option.splits)

definition history_inv :: "('e \<Rightarrow> int) \<Rightarrow> 'e history_view \<Rightarrow> bool" where
  "history_inv eid v \<longleftrightarrow>
     newest_first id (hv_ids v) \<and> hv_retained v \<le> length (hv_ids v) \<and> (\<forall>i. eid (hv_content v i) = i) \<and> paged_inv (hv_paged v) \<and>
     (\<forall>r \<in> set (pg_reads (hv_paged v)). 0 < pq_limit (pr_query r)) \<and>
     (\<forall>p. pg_page (hv_paged v) = Some p \<longrightarrow> segment_of eid (hv_ids v) (hv_retained v) p)"

lemma paged_load_frame:
  "pg_page (paged_load available limit older p) = pg_page p"
  "r \<in> set (pg_reads (paged_load available limit older p)) \<Longrightarrow> r \<in> set (pg_reads p) \<or> pq_limit (pr_query r) = limit"
  by (auto simp: paged_load_def Let_def lr_begin_def split: if_splits)

lemma paged_settles_reads: "pg_reads (paged_settles r result p) = remove1 r (pg_reads p)"
  by (cases result) (simp_all add: paged_settles_def paged_finally_def Let_def)

lemma paged_settles_page:
  "pg_page (paged_settles r result p) =
     (case result of
        Fulfilled nxt \<Rightarrow> if lr_accepts (pg_requests p) (pr_request r) then Some (merged_page (pr_base r) nxt) else pg_page p
      | Rejected e \<Rightarrow> pg_page p)"
  by (cases result) (simp_all add: paged_settles_def paged_finally_def Let_def)

lemma history_settles_inv:
  assumes "history_inv eid v" and "r \<in> set (pg_reads (hv_paged v))"
    and result: "result = Fulfilled (serve_page eid inc (hv_kept v) (pr_query r)) \<or> (\<exists>e. result = Rejected e)"
  shows "history_inv eid (v\<lparr>hv_paged := paged_settles r result (hv_paged v)\<rparr>)"
proof -
  let ?p = "hv_paged v" and ?ids = "hv_ids v" and ?m = "hv_retained v"
  have inv: "paged_inv ?p" "newest_first id ?ids" "0 < pq_limit (pr_query r)" "?m \<le> length ?ids" "\<forall>i. eid (hv_content v i) = i"
    using assms(1,2) by (auto simp: history_inv_def)
  have shown: "segment_of eid ?ids ?m p" if "pg_page ?p = Some p" for p
    using assms(1) that by (simp add: history_inv_def)
  have "segment_of eid ?ids ?m (merged_page (pr_base r) (serve_page eid inc (hv_kept v) (pr_query r)))"
    if "lr_accepts (pg_requests ?p) (pr_request r)"
  proof -
    have cont: "read_continues ?p r"
      using inv(1) assms(2) that unfolding paged_inv_def lr_accepts_def by blast
    then show ?thesis
      using inv shown unfolding hv_kept_def
      by (cases "pr_base r")
        (auto simp: read_continues_def merged_page_def [of None] intro!: serve_first_segment serve_next_segment)
  qed
  then have "\<forall>p. pg_page (paged_settles r result ?p) = Some p \<longrightarrow> segment_of eid ?ids ?m p"
    using result shown by (auto simp: paged_settles_page split: if_splits)
  moreover have "\<forall>q \<in> set (pg_reads (paged_settles r result ?p)). 0 < pq_limit (pr_query q)"
    using assms(1) set_remove1_subset [of r "pg_reads ?p"] by (auto simp: paged_settles_reads history_inv_def)
  ultimately show ?thesis
    using inv paged_settles_inv [OF inv(1) assms(2)] by (simp add: history_inv_def)
qed

lemma history_step_inv:
  assumes "0 < limit"
  shows "history_step eid limit v w \<Longrightarrow> history_inv eid v \<Longrightarrow> history_inv eid w"
proof (induction rule: history_step.induct)
  case (history_grows new v)
  then show ?case by (auto simp: history_inv_def segment_grows)
next
  case (history_prunes m v)
  then show ?case by (auto simp: history_inv_def intro: segment_pruned)
next
  case (history_updates content v inc)
  then show ?case by (simp add: history_inv_def)
next
  case (history_load v older)
  then show ?case
    using assms by (auto simp: history_inv_def paged_load_inv paged_load_frame(1) dest!: paged_load_frame(2))
next
  case (history_reset v)
  then show ?case using paged_reset_inv [of "hv_paged v"] by (simp add: history_inv_def paged_reset_def)
next
  case (history_served r v)
  then show ?case by (intro history_settles_inv) auto
next
  case (history_failed r v e)
  then show ?case by (intro history_settles_inv) auto
qed


lemma serve_rest:
  assumes "newest_first eid h" and "k < length h" and "pq_before_event_id q = Some (eid (h ! k))"
  shows "serve_page eid inc h q =
    \<lparr>pv_events = take (pq_limit q) (drop (Suc k) h),
     pv_next_before_event_id =
       (if pq_limit q < length (drop (Suc k) h) then Some (eid (last (take (pq_limit q) (drop (Suc k) h)))) else None),
     pv_history_incomplete = inc\<rparr>"
  using newest_first_below [OF assms(1,2)] assms(3) by (simp add: serve_page_def Let_def)

text \<open>The collection from a position of the history: the cursors decrease, so none repeats.\<close>

lemma collect_from:
  assumes sorted: "newest_first eid h" and ids: "\<forall>e \<in> set h. isSafeInteger (eid e) \<and> 0 < eid e"
    and serves: "\<And>i q. read i q = Fulfilled (serve_page eid inc h q)"
  shows "k < length h \<Longrightarrow> \<forall>c \<in> set observed. eid (h ! k) \<le> c \<Longrightarrow>
    collect_loop read t i (Some (eid (h ! k))) inc newest observed =
      Inr \<lparr>rtc_events = rev (newest @ drop (Suc k) h), rtc_historyIncomplete = inc\<rparr>"
proof (induction "length h - k" arbitrary: i k newest observed rule: less_induct)
  case less
  let ?limit = "RADIO_TRACE_EXPORT_PAGE_SIZE"
  let ?q = "\<lparr>pq_before_event_id = Some (eid (h ! k)), pq_limit = ?limit, pq_timeline_sequence = t\<rparr>"
  have served: "read i ?q = Fulfilled \<lparr>pv_events = take ?limit (drop (Suc k) h),
      pv_next_before_event_id = (if ?limit < length (drop (Suc k) h)
        then Some (eid (last (take ?limit (drop (Suc k) h)))) else None), pv_history_incomplete = inc\<rparr>"
    using serve_rest [OF sorted less.prems(1), of ?q inc] by (simp add: serves)
  show ?case
  proof (cases "?limit < length (drop (Suc k) h)")
    case False
    then show ?thesis by (simp add: collect_loop.simps [of read t i] served)
  next
    case True
    let ?m = "k + ?limit"
    have m: "?m < length h" "k < ?m" using True by (simp_all add: RADIO_TRACE_EXPORT_PAGE_SIZE_def)
    have last: "last (take ?limit (drop (Suc k) h)) = h ! ?m"
      using True by (subst last_conv_nth) (auto simp: RADIO_TRACE_EXPORT_PAGE_SIZE_def add.commute)
    have "eid (h ! ?m) < eid (h ! k)" using sorted sorted_wrt_nth_less [OF _ m(2,1), of "\<lambda>a b. eid a > eid b"] by (simp add: newest_first_def)
    then have fresh: "eid (h ! ?m) \<notin> set observed" "\<forall>c \<in> set (eid (h ! ?m) # observed). eid (h ! ?m) \<le> c"
      using less.prems(2) by force+
    have valid: "isSafeInteger (eid (h ! ?m))" "\<not> eid (h ! ?m) \<le> 0"
      using bspec [OF ids nth_mem [OF m(1)]] by simp_all
    have "take ?limit (drop (Suc k) h) @ drop (Suc ?m) h = drop (Suc k) h"
      by (metis append_take_drop_id drop_drop add_Suc add.commute)
    then show ?thesis
      using less.hyps [OF _ m(1) fresh(2), of "Suc i" "newest @ take ?limit (drop (Suc k) h)"] m True fresh(1) valid
      by (simp add: collect_loop.simps [of read t i "Some (eid (h ! k))"] served last)
  qed
qed

section \<open>Properties\<close>

text \<open>
  The activity feed and the radio trace never stay loading and never show a superseded reply: in every reachable state
  the feed is loading exactly while the read of the current request is pending; the settlement of that read ends the
  loading, and the settlement of any other read changes nothing that is shown.
\<close>

theorem paging_settles:
  assumes "(paged_step available limit)\<^sup>*\<^sup>* paged_new p"
  shows "(pg_loading p \<longleftrightarrow> list_ex (\<lambda>r. lr_accepts (pg_requests p) (pr_request r)) (pg_reads p)) \<and>
    list_all (\<lambda>r. if lr_accepts (pg_requests p) (pr_request r)
      then \<not> pg_loading (paged_settles r result p) \<and> pg_inFlight (paged_settles r result p) = None
      else paged_settles r result p = p\<lparr>pg_reads := remove1 r (pg_reads p)\<rparr>) (pg_reads p)"
proof -
  have inv: "paged_inv p" by (rule paging.reach_inv [OF assms paged_new_inv])
  have "pg_loading p \<longleftrightarrow> (\<exists>r \<in> set (pg_reads p). pr_request r = pg_generation p)"
    using inv unfolding paged_inv_def by (metis imageE option.distinct(1))
  moreover have "if lr_accepts (pg_requests p) (pr_request r)
      then \<not> pg_loading (paged_settles r result p) \<and> pg_inFlight (paged_settles r result p) = None
      else paged_settles r result p = p\<lparr>pg_reads := remove1 r (pg_reads p)\<rparr>" if "r \<in> set (pg_reads p)" for r
  proof (cases "pr_request r = pg_generation p")
    case True
    then have "pg_inFlight p = Some (pg_generation p)" using inv that unfolding paged_inv_def by blast
    then show ?thesis
      using True by (cases result) (simp_all add: paged_settles_def paged_finally_def lr_accepts_def Let_def)
  next
    case False
    then have "pg_inFlight p \<noteq> Some (pr_request r)" using inv unfolding paged_inv_def by (metis option.distinct(1) option.inject)
    then show ?thesis using False paged_stale_settles by (simp add: lr_accepts_def)
  qed
  ultimately show ?thesis by (simp add: list_ex_iff list_all_iff lr_accepts_def)
qed

theorem paging_settles_witness:
  "(paged_step True 50)\<^sup>*\<^sup>* (paged_new :: nat paged) (paged_load True 50 False paged_new) \<and>
   pg_loading (paged_load True 50 False (paged_new :: nat paged)) \<and>
   list_ex (\<lambda>r. lr_accepts (pg_requests (paged_load True 50 False (paged_new :: nat paged))) (pr_request r))
     (pg_reads (paged_load True 50 False (paged_new :: nat paged)))"
proof -
  have reach: "(paged_step True 50)\<^sup>*\<^sup>* (paged_new :: nat paged) (paged_load True 50 False paged_new)"
    by (rule r_into_rtranclp, rule paged_call_load)
  have loading: "pg_loading (paged_load True 50 False (paged_new :: nat paged))"
    by (simp add: paged_load_def paged_new_def Let_def lr_begin_def)
  show ?thesis
    using reach loading iffD1 [OF conjunct1 [OF paging_settles [OF reach]] loading] by (intro conjI)
qed

text \<open>
  C24. Paging shows the history without gaps or repetitions: however loads, resets, replies, failures and the store's own
  changes (new events, deletion of the oldest ones, completion of recorded ones) interleave, the numbers of the events
  shown are a contiguous segment of those of all events ever recorded, newest first, without repetition; when no older
  page is offered, the store keeps no event older than the segment, and when one is offered, older ones were recorded.
\<close>

theorem paging_contiguous:
  assumes "(history_step eid limit)\<^sup>*\<^sup>*
      \<lparr>hv_ids = ids, hv_retained = length ids, hv_content = content, hv_incomplete = inc, hv_paged = paged_new\<rparr> v"
    and "newest_first id ids" and "\<forall>i. eid (content i) = i" and "0 < limit" and "pg_page (hv_paged v) = Some p"
  shows "\<exists>n k. map eid (pv_events p) = take k (drop n (hv_ids v)) \<and> distinct (map eid (pv_events p)) \<and>
    (if pv_next_before_event_id p = None then hv_retained v \<le> n + k else n + k < length (hv_ids v))"
proof -
  have "history_inv eid \<lparr>hv_ids = ids, hv_retained = length ids, hv_content = content, hv_incomplete = inc, hv_paged = paged_new\<rparr>"
    using assms(2,3) paged_new_inv by (simp add: history_inv_def) (simp add: paged_new_def)
  with assms(1) have inv: "history_inv eid v"
    by (induction rule: rtranclp_induct) (auto intro: history_step_inv [OF assms(4)])
  then have "distinct (hv_ids v)"
    by (auto simp: history_inv_def intro: newest_first_distinct)
  moreover obtain n k where "n + k \<le> length (hv_ids v)" "map eid (pv_events p) = take k (drop n (hv_ids v))"
      "case pv_next_before_event_id p of None \<Rightarrow> hv_retained v \<le> n + k
       | Some c \<Rightarrow> 0 < k \<and> c = hv_ids v ! (n + k - 1) \<and> n + k < length (hv_ids v)"
    using inv assms(5) unfolding history_inv_def segment_of_def by blast
  ultimately show ?thesis by (intro exI [of _ n] exI [of _ k]) (auto split: option.splits)
qed

theorem paging_contiguous_witness:
  "\<exists>v. (history_step id 50)\<^sup>*\<^sup>*
       \<lparr>hv_ids = [5, 3], hv_retained = 2, hv_content = id, hv_incomplete = False, hv_paged = paged_new\<rparr> v \<and>
     map_option pv_events (pg_page (hv_paged v)) = Some [5] \<and> distinct [5 :: int] \<and> hv_retained v = 1"
proof -
  let ?v0 = "\<lparr>hv_ids = [5, 3], hv_retained = 2, hv_content = id, hv_incomplete = False, hv_paged = paged_new\<rparr> :: int history_view"
  let ?v1 = "?v0\<lparr>hv_retained := 1, hv_incomplete := True\<rparr>"
  let ?v2 = "?v1\<lparr>hv_paged := paged_load True 50 False (hv_paged ?v1)\<rparr>"
  let ?r = "\<lparr>pr_request = 1, pr_query = \<lparr>pq_before_event_id = None, pq_limit = 50, pq_timeline_sequence = None\<rparr>,
     pr_base = None\<rparr> :: int page_read"
  let ?v3 = "?v2\<lparr>hv_paged := paged_settles ?r (Fulfilled (serve_page id (hv_incomplete ?v2) (hv_kept ?v2) (pr_query ?r)))
     (hv_paged ?v2)\<rparr>"
  have "history_step id 50 ?v0 ?v1" by (rule history_prunes) simp
  moreover have "history_step id 50 ?v1 ?v2" by (rule history_load)
  moreover have "?r \<in> set (pg_reads (hv_paged ?v2))"
    by (simp add: paged_load_def paged_new_def Let_def lr_begin_def latest_request_new_def)
  then have "history_step id 50 ?v2 ?v3" by (rule history_served)
  ultimately have reach: "(history_step id 50)\<^sup>*\<^sup>* ?v0 ?v3"
    by (meson rtranclp.rtrancl_into_rtrancl rtranclp.rtrancl_refl)
  have page: "pg_page (hv_paged ?v3) = Some (serve_page id True [5] (pr_query ?r))"
    by (simp add: paged_settles_page paged_load_def paged_new_def Let_def lr_begin_def latest_request_new_def lr_accepts_def
        merged_page_def hv_kept_def)
  have "newest_first id [5 :: int, 3]" by (simp add: newest_first_def)
  moreover have "pv_events (serve_page id True [5 :: int] (pr_query ?r)) = [5]" by (simp add: serve_page_def Let_def)
  ultimately have "distinct [5 :: int]" "map_option pv_events (pg_page (hv_paged ?v3)) = Some [5]"
    using paging_contiguous [of id 50 "[5, 3]" id False ?v3, OF _ _ _ _ page] reach page by simp_all
  then show ?thesis using reach by (intro exI [of _ ?v3]) simp
qed

text \<open>
  C23. The export of the radio trace is complete: when the store answers the pages of a newest-first history with positive
  safe event numbers, the collection ends and is the whole history, oldest first, with the store's own mark of
  incompleteness.
\<close>

theorem trace_collection_complete:
  assumes "newest_first eid h" and "\<forall>e \<in> set h. isSafeInteger (eid e) \<and> 0 < eid e"
    and "\<And>i q. read i q = Fulfilled (serve_page eid inc h q)"
  shows "collectCompleteRadioTrace read t = Inr \<lparr>rtc_events = rev h, rtc_historyIncomplete = inc\<rparr>"
proof -
  let ?limit = "RADIO_TRACE_EXPORT_PAGE_SIZE"
  show ?thesis
  proof (cases "?limit < length h")
    case False
    then show ?thesis
      by (simp add: collectCompleteRadioTrace_def collect_loop.simps assms(3) serve_page_def Let_def)
  next
    case True
    let ?m = "?limit - 1"
    have m: "?m < length h" "Suc ?m = ?limit" using True by (simp_all add: RADIO_TRACE_EXPORT_PAGE_SIZE_def)
    have last: "last (take ?limit h) = h ! ?m"
      using True by (subst last_conv_nth) (auto simp: RADIO_TRACE_EXPORT_PAGE_SIZE_def)
    have valid: "isSafeInteger (eid (h ! ?m))" "\<not> eid (h ! ?m) \<le> 0"
      using bspec [OF assms(2) nth_mem [OF m(1)]] by simp_all
    have "collect_loop read t 1 (Some (eid (h ! ?m))) inc (take ?limit h) [eid (h ! ?m)] =
        Inr \<lparr>rtc_events = rev (take ?limit h @ drop (Suc ?m) h), rtc_historyIncomplete = inc\<rparr>"
      by (rule collect_from [OF assms(1,2) assms(3) m(1)]) simp
    then show ?thesis
      using True valid m(2)
      by (simp add: collectCompleteRadioTrace_def collect_loop.simps [of read t 0] assms(3) serve_page_def Let_def last)
  qed
qed

theorem trace_collection_complete_witness:
  "newest_first id [5 :: int, 3] \<and>
   collectCompleteRadioTrace (\<lambda>i q. Fulfilled (serve_page id False [5 :: int, 3] q)) None =
     Inr \<lparr>rtc_events = [3, 5], rtc_historyIncomplete = False\<rparr>"
  using trace_collection_complete [of id "[5 :: int, 3]" "\<lambda>i q. Fulfilled (serve_page id False [5 :: int, 3] q)" False None]
  by (simp add: newest_first_def isSafeInteger_def MAX_SAFE_INTEGER_def)

end
