(* ===== verification/ApplianceSession.thy ===== *)
theory ApplianceSession
  imports ApplianceViews PagedReads
begin

text \<open>
  Model of the session that \<open>ApplianceProvider\<close> of \<open>lib/appliance-context.tsx\<close> keeps around the appliance client:
  \<open>refresh\<close>, \<open>run\<close>, the profile operations, enrolment, sending and retrying messages, the choice of a conversation and the
  paged histories. An asynchronous function that waits for the client is a task; a settlement of the promise it
  waits for is one step, which runs it to its next \<open>await\<close>. A ref and the React state set together with it are one field
  (\<open>addingApplianceRef\<close> and \<open>addingAppliance\<close>, \<open>selectedRef\<close> and \<open>selected\<close>). Handlers that read \<open>selected\<close> from the
  render they belong to take it as an argument. Calls on the client that change the appliance and calls on other
  components are events of \<open>se_log\<close>, newest first; the reads of the client are the pending tasks. The fields
  \<open>se_era\<close>, \<open>se_timelineOf\<close> and \<open>se_listsOf\<close> are observations for the proofs: the number of times the scope of
  a profile was left, and what the shown timeline and lists were read for.
\<close>

section \<open>State\<close>

datatype ProfileOperation = OperationIdle | OperationSwitching jstring | OperationSuccess jstring | OperationError jstring

text \<open>The operations given to \<open>run\<close>, and what follows \<open>run\<close> in its caller.\<close>

datatype run_operation =
  RunBeginAdd
| RunStartOnboarding "ReticulumApplianceCandidate option"
| RunSync
| RunUpsertContact jstring jstring bool \<comment> \<open>destination, name, select after saving\<close>
| RunRetry RetrySendRequest

datatype run_then = ThenNothing | ThenForgetRetry jstring

text \<open>Who awaits \<open>refresh\<close>, with what the caller has collected so far.\<close>

datatype refresh_caller =
  ForDisplay \<comment> \<open>poll, invalidation and bootstrap\<close>
| ForCancel
| ForReconnect \<comment> \<open>the automatic reconnection, which shows its failure as its own progress\<close>
| ForRun run_then
| ForActiveOperation jstring "thrown option" "thrown option"
    \<comment> \<open>success message, failure of the operation, of the authority\<close>
| ForForget jstring jstring "thrown option" "profile_store_view option" "thrown option"
    \<comment> \<open>profile, label, failure of the deletion, authoritative profiles, failure of the authority\<close>
| ForActivate jstring jstring "thrown option" "profile_store_view option" "thrown option"
    \<comment> \<open>profile, label, failure of the activation, authoritative profiles, failure of the authority\<close>

datatype session_task =
  RefreshIdentity nat refresh_caller \<comment> \<open>awaits onboarding and profiles\<close>
| RefreshNotReady nat refresh_caller \<comment> \<open>awaits the snapshot\<close>
| RefreshLists nat refresh_caller nat "(jstring \<times> nat) option"
    \<comment> \<open>awaits snapshot, contacts, conversations and the timeline of the selection; era; selection with its request\<close>
| RunOperation run_operation run_then
| ActiveOperation jstring
| ActiveProfiles jstring "thrown option"
| ForgetCall jstring jstring
| ForgetProfiles jstring jstring "thrown option"
| ForgetLedger jstring jstring "thrown option" "thrown option" "thrown option"
| ActivateCall jstring jstring
| ActivateProfiles jstring jstring "thrown option"
| ActivateProfilesAgain jstring jstring "thrown option" "thrown option"
| SendPreparing jstring jstring jstring bool "DraftSubmission option"
    \<comment> \<open>destination, title, content, attach location, retained submission\<close>
| SendWaiting SendRequest DraftSubmission
| SendTimeline nat jstring nat \<comment> \<open>request, destination, era\<close>
| ChooseTimeline nat jstring nat

datatype session_event =
  CalledSend SendRequest | SendAccepted SendRequest
| CalledRun run_operation | RetryAccepted jstring
| CalledRetry jstring RetrySendRequest
| CalledReconnect | CalledActivate jstring | CalledForget jstring | CalledForgetLedger jstring
| ReconnectAllowed | ReconnectSuspended | ReconnectProgressCleared | NomadReset | ScopeCleared | Navigated ApplianceWorkspace
| ActivateReturned jstring bool | ForgetReturned jstring bool

record session =
  se_adding :: bool
  se_expected :: "jstring option" \<comment> \<open>\<open>additionalApplianceDestinationRef\<close>\<close>
  se_draft :: "DraftSubmission option"
  se_retries :: "(jstring \<times> RetrySendRequest) list"
  se_mutation :: bool
  se_sendRefreshes :: nat
  se_refreshRequests :: latest_request
  se_timelineRequests :: latest_request
  se_selected :: "jstring option"
  se_notificationEpoch :: nat
  se_onboarding :: OnboardingView
  se_profiles :: "profile_store_view option"
  se_snapshot :: "ApplianceSnapshot option"
  se_contacts :: "(jstring \<times> jstring) list"
  se_conversations :: "ConversationPeerSummary list"
  se_timeline :: "TimelineView list"
  se_error :: "jstring option"
  se_busy :: bool
  se_operation :: ProfileOperation
  se_activity :: "MessageActivityEventView paged"
  se_trace :: "RadioTraceEventView paged"
  se_tasks :: "session_task list"
  se_log :: "session_event list"
  se_era :: nat
  se_timelineOf :: "(jstring \<times> nat) option"
  se_listsOf :: "nat option"

text \<open>The optional methods of the client.\<close>

record client_features =
  cf_profiles :: bool
  cf_activateProfile :: bool
  cf_forgetProfile :: bool
  cf_beginAddAppliance :: bool
  cf_radioTrace :: bool

definition EMPTY_ONBOARDING :: OnboardingView where
  "EMPTY_ONBOARDING = \<lparr>ov_available = False, ov_lifecycle = OnboardingUnavailable\<rparr>"

definition session_new :: "session" where
  "session_new =
     \<lparr>se_adding = False, se_expected = None, se_draft = None, se_retries = [], se_mutation = False, se_sendRefreshes = 0,
      se_refreshRequests = latest_request_new, se_timelineRequests = latest_request_new, se_selected = None,
      se_notificationEpoch = 0, se_onboarding = EMPTY_ONBOARDING, se_profiles = None, se_snapshot = None, se_contacts = [],
      se_conversations = [], se_timeline = [], se_error = None, se_busy = False, se_operation = OperationIdle,
      se_activity = paged_new, se_trace = paged_new, se_tasks = [], se_log = [], se_era = 0, se_timelineOf = None,
      se_listsOf = None\<rparr>"

section \<open>Small steps\<close>

definition add_task :: "session_task \<Rightarrow> session \<Rightarrow> session" where
  "add_task t s = s\<lparr>se_tasks := se_tasks s @ [t]\<rparr>"

definition end_task :: "session_task \<Rightarrow> session \<Rightarrow> session" where
  "end_task t s = s\<lparr>se_tasks := remove1 t (se_tasks s)\<rparr>"

definition log_event :: "session_event \<Rightarrow> session \<Rightarrow> session" where
  "log_event e s = s\<lparr>se_log := e # se_log s\<rparr>"

definition set_error :: "jstring option \<Rightarrow> session \<Rightarrow> session" where
  "set_error e s = s\<lparr>se_error := e\<rparr>"

definition set_operation :: "ProfileOperation \<Rightarrow> session \<Rightarrow> session" where
  "set_operation o' s = s\<lparr>se_operation := o'\<rparr>"

definition set_profiles :: "profile_store_view option \<Rightarrow> session \<Rightarrow> session" where
  "set_profiles p s = s\<lparr>se_profiles := p\<rparr>"

definition take_lock :: "session \<Rightarrow> session" where
  "take_lock s = s\<lparr>se_mutation := True, se_busy := True\<rparr>"

definition release_lock :: "session \<Rightarrow> session" where
  "release_lock s = s\<lparr>se_mutation := False, se_busy := False\<rparr>"

definition invalidate_timeline :: "session \<Rightarrow> session" where
  "invalidate_timeline s = s\<lparr>se_timelineRequests := lr_invalidate (se_timelineRequests s)\<rparr>"

definition invalidate_refresh :: "session \<Rightarrow> session" where
  "invalidate_refresh s = s\<lparr>se_refreshRequests := lr_invalidate (se_refreshRequests s)\<rparr>"

definition begin_timeline :: "(nat \<Rightarrow> session_task) \<Rightarrow> session \<Rightarrow> session" where
  "begin_timeline task s =
     (let (request, requests) = lr_begin (se_timelineRequests s)
      in add_task (task request) (s\<lparr>se_timelineRequests := requests\<rparr>))"

text \<open>\<open>selectedRef.current = d; setSelected(d); setTimeline([])\<close>.\<close>

definition select_conversation :: "jstring option \<Rightarrow> session \<Rightarrow> session" where
  "select_conversation d s = s\<lparr>se_selected := d, se_timeline := [], se_timelineOf := None\<rparr>"

definition set_adding :: "bool \<Rightarrow> session \<Rightarrow> session" where
  "set_adding b s = s\<lparr>se_adding := b, se_expected := None\<rparr>"

text \<open>
  What both a completed enrolment and a profile switch do: everything that belongs to the former profile is dropped.
\<close>

definition clear_scope :: "session \<Rightarrow> session" where
  "clear_scope s =
     log_event NomadReset (log_event ScopeCleared
       (select_conversation None (invalidate_timeline
          (s\<lparr>se_draft := None, se_retries := [], se_contacts := [], se_conversations := [],
             se_activity := paged_reset (se_activity s), se_trace := paged_reset (se_trace s),
             se_era := se_era s + 1, se_listsOf := None\<rparr>))))"

section \<open>Refresh\<close>

definition refresh :: "refresh_caller \<Rightarrow> session \<Rightarrow> session" where
  "refresh caller s =
     (let (request, requests) = lr_begin (se_refreshRequests s)
      in add_task (RefreshIdentity request caller) (s\<lparr>se_refreshRequests := requests\<rparr>))"

definition first_failure :: "thrown option list \<Rightarrow> thrown option" where
  "first_failure fs = (case List.map_filter id fs of [] \<Rightarrow> None | f # _ \<Rightarrow> Some f)"

text \<open>The end of \<open>runActiveProfileOperation\<close>.\<close>

definition active_operation_ends ::
  "jstring \<Rightarrow> thrown option \<Rightarrow> thrown option \<Rightarrow> thrown option \<Rightarrow> session \<Rightarrow> session" where
  "active_operation_ends successMessage operationFailure authorityFailure refreshFailure s =
     release_lock (case first_failure [operationFailure, authorityFailure, refreshFailure] of
        None \<Rightarrow> set_operation (OperationSuccess successMessage) s
      | Some failure \<Rightarrow>
          set_operation (OperationError
            ((if operationFailure = None
              then successMessage @ js '' The action completed, but the authoritative display refresh failed:''
              else js ''The appliance operation failed:'') @ [32] @ errorText failure)) s)"

text \<open>\<open>profileRemoved\<close> and the end of \<open>forgetInactiveProfile\<close>.\<close>

definition profile_removed :: "jstring \<Rightarrow> profile_store_view option \<Rightarrow> bool" where
  "profile_removed profileKey authoritativeProfiles =
     (case authoritativeProfiles of
        None \<Rightarrow> False
      | Some p \<Rightarrow> \<not> list_ex (\<lambda>profile. normalized_text (ps_profileKey profile) = normalized_text profileKey) (sv_profiles p))"

definition forget_failure ::
  "bool \<Rightarrow> thrown option \<Rightarrow> thrown option \<Rightarrow> thrown option \<Rightarrow> thrown option \<Rightarrow> thrown option" where
  "forget_failure profileRemoved forgetFailure authorityFailure refreshFailure notificationLedgerFailure =
     (if profileRemoved \<and> forgetFailure \<noteq> None
      then first_failure [authorityFailure, refreshFailure, notificationLedgerFailure]
      else first_failure [forgetFailure, authorityFailure, refreshFailure, notificationLedgerFailure,
             Some (ErrorObject (js ''the authoritative profile store still lists this appliance''))])"

definition forget_ends ::
  "jstring \<Rightarrow> jstring \<Rightarrow> bool \<Rightarrow> thrown option \<Rightarrow> thrown option \<Rightarrow> thrown option \<Rightarrow> thrown option
   \<Rightarrow> session \<Rightarrow> session" where
  "forget_ends profileKey label profileRemoved forgetFailure authorityFailure refreshFailure notificationLedgerFailure s =
     (let failure = forget_failure profileRemoved forgetFailure authorityFailure refreshFailure notificationLedgerFailure
      in release_lock (log_event (ForgetReturned profileKey (failure = None))
           (set_operation (case failure of
              None \<Rightarrow> OperationSuccess (js ''Deleted '' @ label @
                [39] @ js ''s local messages, contacts, and outbox. The app identity remains authorized by the board until it is revoked through management.'')
            | Some f \<Rightarrow> OperationError (js ''Could not forget '' @ label @ js '': '' @ errorText f)) s)))"

text \<open>The end of \<open>activateProfileWithAuthority\<close>, after which both of its callers release the lock.\<close>

definition activate_ends ::
  "jstring \<Rightarrow> jstring \<Rightarrow> thrown option \<Rightarrow> profile_store_view option \<Rightarrow> thrown option \<Rightarrow> thrown option
   \<Rightarrow> session \<Rightarrow> session" where
  "activate_ends profileKey targetLabel activationFailure authoritativeProfiles authorityFailure refreshFailure s =
     (let activeProfileKey = map_option js_lower (Option.bind authoritativeProfiles sv_activeProfileKey);
          targetIsActive = (activeProfileKey = Some (normalized_text profileKey));
          failure = first_failure [activationFailure, authorityFailure, refreshFailure];
          operation =
            (if targetIsActive
             then (case failure of
                     Some f \<Rightarrow> OperationError (targetLabel @ js '' is now active, but the switch needs attention: '' @
                       errorText f @ js ''. Close Appliances and use Reconnect if needed.'')
                   | None \<Rightarrow> OperationSuccess (js ''Switched to '' @ targetLabel @ js ''.''))
             else OperationError (js ''Could not switch to '' @ targetLabel @ js ''. '' @
                    (if activeProfileKey = None then js ''The authoritative active profile could not be confirmed.''
                     else js ''A different appliance profile remains active.'') @
                    (case failure of None \<Rightarrow> [] | Some f \<Rightarrow> [32] @ errorText f)))
      in release_lock (log_event (ActivateReturned profileKey targetIsActive) (set_operation operation s)))"

text \<open>The continuation of \<open>await refresh()\<close> in each caller.\<close>

definition refresh_returns ::
  "client_features \<Rightarrow> refresh_caller \<Rightarrow> thrown option \<Rightarrow> session \<Rightarrow> session" where
  "refresh_returns k caller refreshFailure s =
     (case caller of
        ForDisplay \<Rightarrow> (case refreshFailure of None \<Rightarrow> s | Some e \<Rightarrow> set_error (Some (errorText e)) s)
      | ForCancel \<Rightarrow> s
      | ForReconnect \<Rightarrow> s
      | ForRun continuation \<Rightarrow>
          (let s' = release_lock (case refreshFailure of
                 None \<Rightarrow> s
               | Some e \<Rightarrow> set_error (Some (js ''Action completed, but refreshing the display failed: '' @ errorText e)) s)
           in case continuation of
                ThenNothing \<Rightarrow> s'
              | ThenForgetRetry cacheKey \<Rightarrow>
                  log_event (RetryAccepted cacheKey) (s'\<lparr>se_retries := AList.delete cacheKey (se_retries s')\<rparr>))
      | ForActiveOperation successMessage operationFailure authorityFailure \<Rightarrow>
          active_operation_ends successMessage operationFailure authorityFailure refreshFailure s
      | ForForget profileKey label forgetFailure authoritativeProfiles authorityFailure \<Rightarrow>
          if profile_removed profileKey authoritativeProfiles
          then add_task (ForgetLedger profileKey label forgetFailure authorityFailure refreshFailure)
                 (log_event (CalledForgetLedger profileKey) s)
          else forget_ends profileKey label False forgetFailure authorityFailure refreshFailure None s
      | ForActivate profileKey label activationFailure authoritativeProfiles authorityFailure \<Rightarrow>
          if authoritativeProfiles = None \<and> cf_profiles k
          then add_task (ActivateProfilesAgain profileKey label activationFailure refreshFailure) s
          else activate_ends profileKey label activationFailure authoritativeProfiles authorityFailure refreshFailure s)"

definition refresh_accepts :: "session \<Rightarrow> nat \<Rightarrow> bool" where
  "refresh_accepts s request = lr_accepts (se_refreshRequests s) request"

text \<open>The \<open>catch\<close> of \<open>refresh\<close>: a superseded refresh swallows its failure.\<close>

definition refresh_throws ::
  "client_features \<Rightarrow> nat \<Rightarrow> refresh_caller \<Rightarrow> thrown \<Rightarrow> session \<Rightarrow> session" where
  "refresh_throws k request caller e s =
     refresh_returns k caller (if refresh_accepts s request then Some e else None) s"

definition refresh_identity ::
  "client_features \<Rightarrow> nat \<Rightarrow> refresh_caller \<Rightarrow> (OnboardingView \<times> profile_store_view option) settled
   \<Rightarrow> session \<Rightarrow> session" where
  "refresh_identity k request caller result s =
     (case result of
        Rejected e \<Rightarrow> refresh_throws k request caller e s
      | Fulfilled (nextOnboarding, nextProfiles) \<Rightarrow>
          if \<not> refresh_accepts s request then refresh_returns k caller None s
          else let s1 = s\<lparr>se_onboarding := nextOnboarding, se_profiles := nextProfiles\<rparr>;
                   completing = (se_adding s1 \<and> completesAdditionalApplianceEnrollment nextOnboarding (se_expected s1))
               in if se_adding s1 \<and> \<not> completing then refresh_returns k caller None (invalidate_timeline s1)
                  else let s2 = (if completing then clear_scope (set_adding False s1) else s1)
                       in if \<not> op_ready (onboardingPresentation nextOnboarding)
                          then add_task (RefreshNotReady request caller) s2
                          else (case se_selected s2 of
                                  None \<Rightarrow> add_task (RefreshLists request caller (se_era s2) None) s2
                                | Some d \<Rightarrow>
                                    begin_timeline (\<lambda>t. RefreshLists request caller (se_era s2) (Some (d, t))) s2))"

definition refresh_not_ready ::
  "client_features \<Rightarrow> nat \<Rightarrow> refresh_caller \<Rightarrow> ApplianceSnapshot settled \<Rightarrow> session \<Rightarrow> session" where
  "refresh_not_ready k request caller result s =
     (case result of
        Rejected e \<Rightarrow> refresh_throws k request caller e s
      | Fulfilled nextSnapshot \<Rightarrow>
          if \<not> refresh_accepts s request then refresh_returns k caller None s
          else refresh_returns k caller None (invalidate_timeline (s\<lparr>se_snapshot := Some nextSnapshot\<rparr>)))"

definition show_timeline :: "jstring \<Rightarrow> nat \<Rightarrow> TimelineView list \<Rightarrow> session \<Rightarrow> session" where
  "show_timeline d era entries s = s\<lparr>se_timeline := entries, se_timelineOf := Some (d, era)\<rparr>"

definition timeline_current :: "session \<Rightarrow> nat \<Rightarrow> jstring \<Rightarrow> bool" where
  "timeline_current s request d \<longleftrightarrow> lr_accepts (se_timelineRequests s) request \<and> se_selected s = Some d"

definition refresh_lists ::
  "client_features \<Rightarrow> nat \<Rightarrow> refresh_caller \<Rightarrow> nat \<Rightarrow> (jstring \<times> nat) option
   \<Rightarrow> (ApplianceSnapshot \<times> (jstring \<times> jstring) list \<times> ConversationPeerSummary list) settled
   \<Rightarrow> TimelineView list settled \<Rightarrow> session \<Rightarrow> session" where
  "refresh_lists k request caller era selection result timelineRead s =
     (case result of
        Rejected e \<Rightarrow> refresh_throws k request caller e s
      | Fulfilled (nextSnapshot, nextContacts, nextConversations) \<Rightarrow>
          if \<not> refresh_accepts s request then refresh_returns k caller None s
          else let s1 = s\<lparr>se_snapshot := Some nextSnapshot, se_contacts := nextContacts, se_conversations := nextConversations,
                          se_listsOf := Some era\<rparr>
               in (case selection of
                     None \<Rightarrow> refresh_returns k caller None (set_error None s1)
                   | Some (d, timelineRequest) \<Rightarrow>
                       let current = timeline_current s1 timelineRequest d
                       in if \<not> list_ex (\<lambda>peer. cp_destination peer = d) nextConversations
                          then refresh_returns k caller None (set_error None
                                 (if current then select_conversation None (invalidate_timeline s1) else s1))
                          else if \<not> current then refresh_returns k caller None (set_error None s1)
                          else (case timelineRead of
                                  Fulfilled entries \<Rightarrow> refresh_returns k caller None (set_error None (show_timeline d era entries s1))
                                | Rejected e \<Rightarrow> refresh_throws k request caller e s1)))"

section \<open>Mutations under the lock\<close>

text \<open>\<open>run\<close> up to the operation; nothing happens while another mutation is in flight.\<close>

definition run_start :: "run_operation \<Rightarrow> run_then \<Rightarrow> session \<Rightarrow> session" where
  "run_start operation continuation s =
     (if se_mutation s then s
      else add_task (RunOperation operation continuation)
             (log_event (CalledRun operation) (set_error None (take_lock s))))"

text \<open>What the operation does after its call on the client, with its failure or success.\<close>

definition run_operation_effect :: "run_operation \<Rightarrow> bool \<Rightarrow> session \<Rightarrow> session" where
  "run_operation_effect operation succeeded s =
     (case operation of
        RunBeginAdd \<Rightarrow> if succeeded then s else set_adding False s
      | RunUpsertContact destination _ selectAfterSave \<Rightarrow>
          if \<not> succeeded \<or> \<not> selectAfterSave then s
          else select_conversation (Some destination) (invalidate_timeline
                 (s\<lparr>se_draft := (if se_selected s \<noteq> Some destination then None else se_draft s)\<rparr>))
      | _ \<Rightarrow> s)"

definition run_settles :: "run_operation \<Rightarrow> run_then \<Rightarrow> unit settled \<Rightarrow> session \<Rightarrow> session" where
  "run_settles operation continuation result s =
     (case result of
        Rejected e \<Rightarrow> release_lock (set_error (Some (errorText e)) (run_operation_effect operation False s))
      | Fulfilled _ \<Rightarrow> refresh (ForRun continuation) (run_operation_effect operation True s))"

text \<open>\<open>profileLabel\<close>.\<close>

definition profileLabel :: "jstring option \<Rightarrow> session \<Rightarrow> jstring" where
  "profileLabel profileKey s =
     (case (profileKey, se_profiles s) of
        (Some key, Some profiles) \<Rightarrow>
          (case find (\<lambda>profile. js_lower (ap_profileKey profile) = normalized_text key)
                  (aps_profiles (applianceProfilesPresentation profiles)) of
             Some profile \<Rightarrow> ap_boardLabel profile
           | None \<Rightarrow> js ''active appliance'')
      | _ \<Rightarrow> js ''active appliance'')"

text \<open>\<open>runActiveProfileOperation\<close>.\<close>

definition active_operation_start :: "jstring \<Rightarrow> jstring \<Rightarrow> session_event \<Rightarrow> session \<Rightarrow> session" where
  "active_operation_start startedMessage successMessage call s =
     (if se_mutation s then s
      else add_task (ActiveOperation successMessage)
             (log_event call (set_operation (OperationSwitching startedMessage) (set_error None (take_lock
                (log_event ReconnectProgressCleared (log_event ReconnectSuspended s)))))))"

definition active_operation_settles :: "jstring \<Rightarrow> unit settled \<Rightarrow> session \<Rightarrow> session" where
  "active_operation_settles successMessage result s =
     add_task (ActiveProfiles successMessage (case result of Rejected e \<Rightarrow> Some e | Fulfilled _ \<Rightarrow> None)) s"

definition active_profiles_settles ::
  "jstring \<Rightarrow> thrown option \<Rightarrow> profile_store_view option settled \<Rightarrow> session \<Rightarrow> session" where
  "active_profiles_settles successMessage operationFailure result s =
     (case result of
        Rejected e \<Rightarrow> refresh (ForActiveOperation successMessage operationFailure (Some e)) s
      | Fulfilled None \<Rightarrow> refresh (ForActiveOperation successMessage operationFailure None) s
      | Fulfilled (Some profiles) \<Rightarrow>
          refresh (ForActiveOperation successMessage operationFailure None) (set_profiles (Some profiles) s))"

definition reconnectActiveProfile :: "session \<Rightarrow> session" where
  "reconnectActiveProfile s =
     (let label = profileLabel (Option.bind (se_profiles s) sv_activeProfileKey) s
      in active_operation_start (js ''Reconnecting to '' @ label @ [8230]) (js ''Reconnected to '' @ label @ js ''.'')
           CalledReconnect (log_event ReconnectAllowed s))"

section \<open>Forgetting a profile\<close>

definition forgetInactiveProfile :: "client_features \<Rightarrow> jstring \<Rightarrow> session \<Rightarrow> session" where
  "forgetInactiveProfile k profileKey s =
     (let label = profileLabel (Some profileKey) s
      in if \<not> cf_forgetProfile k
         then set_operation (OperationError (js ''Forgetting saved appliance profiles is unavailable for this client.'')) s
         else if map_option normalized_text (Option.bind (se_profiles s) sv_activeProfileKey) = Some (normalized_text profileKey)
         then set_operation (OperationError (js ''Switch to another appliance before forgetting '' @ label @ js ''.'')) s
         else if se_mutation s then s
         else add_task (ForgetCall profileKey label)
                (log_event (CalledForget profileKey) (set_operation (OperationSwitching (js ''Deleting local data for '' @ label @ [8230]))
                   (set_error None (take_lock (log_event ReconnectProgressCleared (log_event ReconnectSuspended s)))))))"

definition forget_settles :: "jstring \<Rightarrow> jstring \<Rightarrow> unit settled \<Rightarrow> session \<Rightarrow> session" where
  "forget_settles profileKey label result s =
     add_task (ForgetProfiles profileKey label (case result of Rejected e \<Rightarrow> Some e | Fulfilled _ \<Rightarrow> None)) s"

definition forget_profiles_settles ::
  "jstring \<Rightarrow> jstring \<Rightarrow> thrown option \<Rightarrow> profile_store_view option settled \<Rightarrow> session \<Rightarrow> session" where
  "forget_profiles_settles profileKey label forgetFailure result s =
     (case result of
        Rejected e \<Rightarrow> refresh (ForForget profileKey label forgetFailure None (Some e)) s
      | Fulfilled profiles \<Rightarrow>
          refresh (ForForget profileKey label forgetFailure profiles None)
            (case profiles of None \<Rightarrow> s | Some _ \<Rightarrow> set_profiles profiles s))"

definition forget_ledger_settles ::
  "jstring \<Rightarrow> jstring \<Rightarrow> thrown option \<Rightarrow> thrown option \<Rightarrow> thrown option \<Rightarrow> unit settled \<Rightarrow> session \<Rightarrow> session" where
  "forget_ledger_settles profileKey label forgetFailure authorityFailure refreshFailure result s =
     forget_ends profileKey label True forgetFailure authorityFailure refreshFailure
       (case result of Rejected e \<Rightarrow> Some e | Fulfilled _ \<Rightarrow> None) s"

section \<open>Switching profiles\<close>

definition target_label :: "(jstring \<Rightarrow> jstring) \<Rightarrow> (jstring \<Rightarrow> jstring) \<Rightarrow> jstring \<Rightarrow> session \<Rightarrow> jstring" where
  "target_label normalize_key normalize_target profileKey s =
     (case se_profiles s of
        None \<Rightarrow> profileKey
      | Some profiles \<Rightarrow>
          (case find (\<lambda>profile. normalize_key (ap_profileKey profile) = normalize_target profileKey)
                  (aps_profiles (applianceProfilesPresentation profiles)) of
             Some profile \<Rightarrow> ap_boardLabel profile
           | None \<Rightarrow> profileKey))"

text \<open>\<open>activateProfileWithAuthority\<close> up to the call on the client.\<close>

definition activateProfileWithAuthority :: "client_features \<Rightarrow> jstring \<Rightarrow> session \<Rightarrow> session" where
  "activateProfileWithAuthority k profileKey s =
     (if \<not> cf_activateProfile k then release_lock (log_event (ActivateReturned profileKey False) s)
      else let targetLabel = target_label js_lower normalized_text profileKey s;
               s1 = log_event (Navigated WsLxmf) (log_event ReconnectSuspended (log_event ReconnectAllowed
                      (s\<lparr>se_notificationEpoch := se_notificationEpoch s + 1\<rparr>)));
               s2 = clear_scope (invalidate_refresh (log_event ReconnectProgressCleared s1));
               s3 = set_operation (OperationSwitching (js ''Switching to '' @ targetLabel @ [8230])) (set_error None s2)
           in add_task (ActivateCall profileKey targetLabel) (log_event (CalledActivate profileKey) s3))"

definition activateApplianceProfile :: "client_features \<Rightarrow> jstring \<Rightarrow> session \<Rightarrow> session" where
  "activateApplianceProfile k profileKey s =
     (if se_mutation s then s else activateProfileWithAuthority k profileKey (take_lock s))"

definition activate_settles :: "jstring \<Rightarrow> jstring \<Rightarrow> unit settled \<Rightarrow> session \<Rightarrow> session" where
  "activate_settles profileKey label result s =
     add_task (ActivateProfiles profileKey label (case result of Rejected e \<Rightarrow> Some e | Fulfilled _ \<Rightarrow> None)) s"

definition activate_profiles_settles ::
  "jstring \<Rightarrow> jstring \<Rightarrow> thrown option \<Rightarrow> profile_store_view option settled \<Rightarrow> session \<Rightarrow> session" where
  "activate_profiles_settles profileKey label activationFailure result s =
     (case result of
        Rejected e \<Rightarrow> refresh (ForActivate profileKey label activationFailure None (Some e)) s
      | Fulfilled profiles \<Rightarrow>
          refresh (ForActivate profileKey label activationFailure profiles None)
            (case profiles of None \<Rightarrow> s | Some _ \<Rightarrow> set_profiles profiles s))"

definition activate_profiles_again_settles ::
  "jstring \<Rightarrow> jstring \<Rightarrow> thrown option \<Rightarrow> thrown option \<Rightarrow> profile_store_view settled \<Rightarrow> session \<Rightarrow> session" where
  "activate_profiles_again_settles profileKey label activationFailure refreshFailure result s =
     (case result of
        Rejected e \<Rightarrow> activate_ends profileKey label activationFailure None (Some e) refreshFailure s
      | Fulfilled profiles \<Rightarrow>
          activate_ends profileKey label activationFailure (Some profiles) None refreshFailure (set_profiles (Some profiles) s))"

definition switchToKnownProfile :: "client_features \<Rightarrow> jstring \<Rightarrow> session \<Rightarrow> session" where
  "switchToKnownProfile k profileKey s =
     (if se_mutation s \<or> \<not> cf_activateProfile k then s
      else let targetLabel = target_label id id profileKey s;
               s1 = set_error None (take_lock (log_event ReconnectAllowed s));
               s2 = set_operation
                      (OperationSwitching (js ''Closing discovery and switching to saved appliance '' @ targetLabel @ [8230])) s1
           in activateProfileWithAuthority k profileKey (set_adding False s2))"

section \<open>Enrolment\<close>

definition beginAddAppliance :: "client_features \<Rightarrow> session \<Rightarrow> session" where
  "beginAddAppliance k s =
     (if \<not> cf_beginAddAppliance k \<or> se_adding s then s
      else let s1 = log_event (Navigated WsLxmf) (log_event ReconnectSuspended (log_event ReconnectAllowed
                      (s\<lparr>se_notificationEpoch := se_notificationEpoch s + 1\<rparr>)));
               s2 = log_event NomadReset (invalidate_timeline (invalidate_refresh (log_event ReconnectProgressCleared s1)))
           in run_start RunBeginAdd ThenNothing (set_adding True s2))"

definition onboardingMutation :: "ReticulumApplianceCandidate option \<Rightarrow> session \<Rightarrow> session" where
  "onboardingMutation candidate s =
     run_start (RunStartOnboarding candidate) ThenNothing
       (case candidate of
          None \<Rightarrow> s
        | Some c \<Rightarrow> if se_adding s then s\<lparr>se_expected := Some (rc_managementDestination c)\<rparr> else s)"

text \<open>\<open>cancelOnboarding\<close> exists while an appliance is being added.\<close>

definition cancelOnboarding :: "session \<Rightarrow> session" where
  "cancelOnboarding s = (if se_adding s then refresh ForCancel (set_adding False s) else s)"

section \<open>Conversations\<close>

definition upsertContact :: "jstring \<Rightarrow> jstring \<Rightarrow> bool \<Rightarrow> session \<Rightarrow> session" where
  "upsertContact destination name selectAfterSave s =
     run_start (RunUpsertContact destination name selectAfterSave) ThenNothing s"

definition chooseContact :: "jstring \<Rightarrow> session \<Rightarrow> session" where
  "chooseContact destination s =
     (let s1 = s\<lparr>se_draft := (if se_selected s \<noteq> Some destination then None else se_draft s)\<rparr>
      in begin_timeline (\<lambda>request. ChooseTimeline request destination (se_era s1))
           (select_conversation (Some destination) s1))"

definition choose_settles ::
  "nat \<Rightarrow> jstring \<Rightarrow> nat \<Rightarrow> TimelineView list settled \<Rightarrow> session \<Rightarrow> session" where
  "choose_settles request destination era result s =
     (if \<not> timeline_current s request destination then s
      else case result of
             Fulfilled entries \<Rightarrow> set_error None (show_timeline destination era entries s)
           | Rejected e \<Rightarrow> set_error (Some (errorText e)) s)"

text \<open>\<open>send\<close>: the lock is taken without \<open>busy\<close>; \<open>selected\<close> is the selection of the render the handler belongs to.\<close>

definition send_start :: "jstring option \<Rightarrow> jstring \<Rightarrow> jstring \<Rightarrow> bool \<Rightarrow> session \<Rightarrow> session" where
  "send_start selected title content attachLocation s =
     (case selected of
        None \<Rightarrow> s
      | Some destination \<Rightarrow>
          if se_mutation s then s
          else add_task (SendPreparing destination title content attachLocation (retained_submission (se_draft s) attachLocation))
                 (s\<lparr>se_mutation := True\<rparr>))"

definition send_request :: "jstring \<Rightarrow> jstring \<Rightarrow> jstring \<Rightarrow> DraftSubmission \<Rightarrow> SendRequest" where
  "send_request destination title content submission =
     \<lparr>sr_destination = destination, sr_timestamp_ms = dr_timestampMs (ds_identity submission),
      sr_idempotency_key = dr_idempotencyKey (ds_identity submission), sr_title = title, sr_content = content,
      sr_location = ds_location submission\<rparr>"

definition send_prepared ::
  "jstring \<Rightarrow> jstring \<Rightarrow> jstring \<Rightarrow> bool \<Rightarrow> DraftSubmission option \<Rightarrow> jstring \<Rightarrow> int \<Rightarrow> MessageLocationView settled
   \<Rightarrow> session \<Rightarrow> session" where
  "send_prepared destination title content attachLocation retained createKey now captureLocation s =
     (case (case retained of
              Some r \<Rightarrow> Inr r
            | None \<Rightarrow> new_submission attachLocation (ensureDraftIdentity None createKey now) captureLocation) of
        Inl e \<Rightarrow> s\<lparr>se_mutation := False\<rparr>
      | Inr submission \<Rightarrow>
          let request = send_request destination title content submission
          in add_task (SendWaiting request submission)
               (log_event (CalledSend request) (s\<lparr>se_draft := Some submission\<rparr>)))"

definition send_settles :: "SendRequest \<Rightarrow> DraftSubmission \<Rightarrow> int settled \<Rightarrow> session \<Rightarrow> session" where
  "send_settles request submission result s =
     (case result of
        Rejected e \<Rightarrow> s\<lparr>se_mutation := False\<rparr>
      | Fulfilled outbox_id \<Rightarrow>
          let destination = sr_destination request;
              s1 = log_event (SendAccepted request)
                     (s\<lparr>se_draft := (if se_draft s = Some submission then None else se_draft s), se_mutation := False\<rparr>)
          in if se_selected s1 = Some destination
             then begin_timeline (\<lambda>t. SendTimeline t destination (se_era s1)) (s1\<lparr>se_sendRefreshes := se_sendRefreshes s1 + 1\<rparr>)
             else s1)"

definition send_timeline_settles ::
  "nat \<Rightarrow> jstring \<Rightarrow> nat \<Rightarrow> TimelineView list settled \<Rightarrow> session \<Rightarrow> session" where
  "send_timeline_settles request destination era result s =
     (let s1 = (case result of
                  Fulfilled entries \<Rightarrow>
                    if timeline_current s request destination then show_timeline destination era entries s else s
                | Rejected e \<Rightarrow> s)
      in s1\<lparr>se_sendRefreshes := se_sendRefreshes s1 - 1\<rparr>)"

text \<open>\<open>retryMessage\<close>; \<open>randomKey\<close> is the key drawn when the row has no retained request.\<close>

definition retryMessage :: "jstring option \<Rightarrow> TimelineView \<Rightarrow> jstring \<Rightarrow> session \<Rightarrow> session" where
  "retryMessage selected entry randomKey s =
     (case selected of
        None \<Rightarrow> s
      | Some destination \<Rightarrow>
          let cacheKey = retryMessageCacheKey destination entry;
              call = (\<lambda>request s'. if se_mutation s' then s'
                        else log_event (CalledRetry cacheKey request) (run_start (RunRetry request) (ThenForgetRetry cacheKey) s'))
          in case map_of (se_retries s) cacheKey of
               Some request \<Rightarrow> call request s
             | None \<Rightarrow>
                 (case retryMessageRequest entry randomKey of
                    None \<Rightarrow> s
                  | Some request \<Rightarrow> call request (s\<lparr>se_retries := (cacheKey, request) # se_retries s\<rparr>)))"

definition clearDraft :: "session \<Rightarrow> session" where
  "clearDraft s = s\<lparr>se_draft := None\<rparr>"

definition clearProfileOperation :: "session \<Rightarrow> session" where
  "clearProfileOperation s = set_operation OperationIdle s"

definition sync :: "session \<Rightarrow> session" where
  "sync s = run_start RunSync ThenNothing s"

text \<open>Whether the background poll skips its turn.\<close>

definition poll_blocked :: "session \<Rightarrow> bool" where
  "poll_blocked s \<longleftrightarrow> se_mutation s \<or> se_sendRefreshes s > 0"


text \<open>The paged histories.\<close>

definition loadActivity :: "bool \<Rightarrow> session \<Rightarrow> session" where
  "loadActivity older s = s\<lparr>se_activity := paged_load True MESSAGE_ACTIVITY_PAGE_SIZE older (se_activity s)\<rparr>"

definition activity_settles ::
  "MessageActivityEventView page_read \<Rightarrow> MessageActivityEventView page settled \<Rightarrow> session \<Rightarrow> session" where
  "activity_settles r result s = s\<lparr>se_activity := paged_settles r result (se_activity s)\<rparr>"

definition loadRadioTrace :: "client_features \<Rightarrow> bool \<Rightarrow> session \<Rightarrow> session" where
  "loadRadioTrace k older s = s\<lparr>se_trace := paged_load (cf_radioTrace k) RADIO_TRACE_PAGE_SIZE older (se_trace s)\<rparr>"

definition trace_settles :: "RadioTraceEventView page_read \<Rightarrow> RadioTraceEventView page settled \<Rightarrow> session \<Rightarrow> session" where
  "trace_settles r result s = s\<lparr>se_trace := paged_settles r result (se_trace s)\<rparr>"

section \<open>Steps\<close>

definition sent_keys :: "session_event list \<Rightarrow> jstring set" where
  "sent_keys l = {sr_idempotency_key r | r. CalledSend r \<in> set l}"

text \<open>What the client answers for the profiles: nothing when it has no such method.\<close>

definition profiles_answer :: "client_features \<Rightarrow> profile_store_view option settled \<Rightarrow> bool" where
  "profiles_answer k result = (case result of Fulfilled p \<Rightarrow> (p \<noteq> None) = cf_profiles k | Rejected _ \<Rightarrow> cf_profiles k)"

text \<open>A call of a handler, or a read of a history that settles.\<close>

inductive session_call :: "client_features \<Rightarrow> session \<Rightarrow> session \<Rightarrow> bool" for k :: client_features where
  call_refresh: "session_call k s (refresh ForDisplay s)"
| call_reconnect_refresh: "session_call k s (refresh ForReconnect s)"
| call_reconnect: "session_call k s (reconnectActiveProfile s)"
| call_forget: "session_call k s (forgetInactiveProfile k key s)"
| call_activate: "session_call k s (activateApplianceProfile k key s)"
| call_switch: "session_call k s (switchToKnownProfile k key s)"
| call_begin_add: "session_call k s (beginAddAppliance k s)"
| call_onboarding: "session_call k s (onboardingMutation candidate s)"
| call_cancel: "session_call k s (cancelOnboarding s)"
| call_upsert: "session_call k s (upsertContact d name select_it s)"
| call_choose: "session_call k s (chooseContact d s)"
| call_send: "session_call k s (send_start selected title content attach s)"
| call_retry: "session_call k s (retryMessage selected entry key s)"
| call_clear_draft: "session_call k s (clearDraft s)"
| call_clear_operation: "session_call k s (clearProfileOperation s)"
| call_sync: "session_call k s (sync s)"
| call_load_activity: "session_call k s (loadActivity older s)"
| call_load_trace: "session_call k s (loadRadioTrace k older s)"
| activity_read: "r \<in> set (pg_reads (se_activity s)) \<Longrightarrow> session_call k s (activity_settles r ares s)"
| trace_read: "q \<in> set (pg_reads (se_trace s)) \<Longrightarrow> session_call k s (trace_settles q tres s)"

text \<open>
  The settlement of the promise a task waits for: \<open>session_resume k t s s'\<close> takes the state without the task.
  The idempotency keys are drawn at random; that a drawn key was not sent before is the assumption on \<open>randomHex(16)\<close>.
\<close>

inductive session_resume :: "client_features \<Rightarrow> session_task \<Rightarrow> session \<Rightarrow> session \<Rightarrow> bool" for k :: client_features where
  resume_identity: "(case ires of Fulfilled (view, p) \<Rightarrow> profiles_answer k (Fulfilled p) | Rejected _ \<Rightarrow> True) \<Longrightarrow>
     session_resume k (RefreshIdentity g c) s (refresh_identity k g c ires s)"
| resume_not_ready: "session_resume k (RefreshNotReady g c) s (refresh_not_ready k g c sres s)"
| resume_lists: "session_resume k (RefreshLists g c era sel) s (refresh_lists k g c era sel lres tlres s)"
| resume_run: "session_resume k (RunOperation operation continuation) s (run_settles operation continuation ures s)"
| resume_active: "session_resume k (ActiveOperation m) s (active_operation_settles m ures s)"
| resume_active_profiles: "profiles_answer k pres \<Longrightarrow>
     session_resume k (ActiveProfiles m f) s (active_profiles_settles m f pres s)"
| resume_forget: "session_resume k (ForgetCall key label) s (forget_settles key label ures s)"
| resume_forget_profiles: "profiles_answer k pres \<Longrightarrow>
     session_resume k (ForgetProfiles key label f) s (forget_profiles_settles key label f pres s)"
| resume_forget_ledger: "session_resume k (ForgetLedger key label f a r) s (forget_ledger_settles key label f a r ures s)"
| resume_activate: "session_resume k (ActivateCall key label) s (activate_settles key label ures s)"
| resume_activate_profiles: "profiles_answer k pres \<Longrightarrow>
     session_resume k (ActivateProfiles key label f) s (activate_profiles_settles key label f pres s)"
| resume_activate_again:
    "session_resume k (ActivateProfilesAgain key label f r) s (activate_profiles_again_settles key label f r vres s)"
| resume_send_prepared: "key \<notin> sent_keys (se_log s) \<Longrightarrow>
     session_resume k (SendPreparing d title content attach retained) s
       (send_prepared d title content attach retained key now locres s)"
| resume_send: "session_resume k (SendWaiting request submission) s (send_settles request submission ores s)"
| resume_send_timeline: "session_resume k (SendTimeline g d era) s (send_timeline_settles g d era tlres s)"
| resume_choose: "session_resume k (ChooseTimeline g d era) s (choose_settles g d era tlres s)"

inductive session_step :: "client_features \<Rightarrow> session \<Rightarrow> session \<Rightarrow> bool" for k :: client_features where
  session_called: "session_call k s s' \<Longrightarrow> session_step k s s'"
| session_resumed: "t \<in> set (se_tasks s) \<Longrightarrow> session_resume k t (end_task t s) s' \<Longrightarrow> session_step k s s'"

inductive_cases session_stepE [elim!]: "session_step k s s'"
inductive_cases session_callE: "session_call k s s'"
inductive_cases session_resumeE: "session_resume k t s s'"

end
