(* ===== verification/ApplianceSessionProofs.thy ===== *)
theory ApplianceSessionProofs
  imports ApplianceSession
begin

text \<open>
  Invariants of the session: the lock of the mutations, the scope of what is shown, and the identity of the messages sent
  and retried. Each invariant reads a few fields and the tasks it is about; the small steps that leave these alone are
  rewritten away, so that every handler is a composition of the others.
\<close>

section \<open>The lock\<close>

fun holds_lock_caller :: "refresh_caller \<Rightarrow> bool" where
  "holds_lock_caller ForDisplay = False"
| "holds_lock_caller ForCancel = False"
| "holds_lock_caller ForReconnect = False"
| "holds_lock_caller _ = True"

fun holds_lock :: "session_task \<Rightarrow> bool" where
  "holds_lock (RefreshIdentity _ c) = holds_lock_caller c"
| "holds_lock (RefreshNotReady _ c) = holds_lock_caller c"
| "holds_lock (RefreshLists _ c _ _) = holds_lock_caller c"
| "holds_lock (SendTimeline _ _ _) = False"
| "holds_lock (ChooseTimeline _ _ _) = False"
| "holds_lock _ = True"

text \<open>How many more settlements the holder of the lock can wait for.\<close>

fun lock_rank :: "session_task \<Rightarrow> nat" where
  "lock_rank (RefreshIdentity _ _) = 3"
| "lock_rank (RefreshNotReady _ _) = 2"
| "lock_rank (RefreshLists _ _ _ _) = 2"
| "lock_rank (RunOperation _ _) = 4"
| "lock_rank (ActiveOperation _) = 5"
| "lock_rank (ActiveProfiles _ _) = 4"
| "lock_rank (ForgetCall _ _) = 5"
| "lock_rank (ForgetProfiles _ _ _) = 4"
| "lock_rank (ForgetLedger _ _ _ _ _) = 1"
| "lock_rank (ActivateCall _ _) = 5"
| "lock_rank (ActivateProfiles _ _ _) = 4"
| "lock_rank (ActivateProfilesAgain _ _ _ _) = 1"
| "lock_rank (SendPreparing _ _ _ _ _) = 2"
| "lock_rank (SendWaiting _ _) = 1"
| "lock_rank (SendTimeline _ _ _) = 0"
| "lock_rank (ChooseTimeline _ _ _) = 0"

definition lock_view :: "session \<Rightarrow> session_task list \<times> bool" where
  "lock_view s = (filter holds_lock (se_tasks s), se_mutation s)"

definition lock_inv :: "session \<Rightarrow> bool" where
  "lock_inv s \<longleftrightarrow> length (filter holds_lock (se_tasks s)) = (if se_mutation s then 1 else 0)"

lemma lock_inv_view: "lock_inv s \<longleftrightarrow> lock_view s = ([], False) \<or> (\<exists>t. lock_view s = ([t], True))"
  by (auto simp: lock_inv_def lock_view_def length_Suc_conv)

text \<open>The holder of the lock is gone, or one with fewer settlements ahead has taken over.\<close>

definition lock_passed :: "nat \<Rightarrow> session \<Rightarrow> bool" where
  "lock_passed n s \<longleftrightarrow> lock_view s = ([], False) \<or> (\<exists>t. lock_view s = ([t], True) \<and> lock_rank t < n)"

named_theorems lock_simps

lemma lock_view_prims [lock_simps]:
  "lock_view (log_event e s) = lock_view s"
  "lock_view (set_error x s) = lock_view s"
  "lock_view (set_operation p s) = lock_view s"
  "lock_view (set_profiles q s) = lock_view s"
  "lock_view (take_lock s) = (fst (lock_view s), True)"
  "lock_view (release_lock s) = (fst (lock_view s), False)"
  "lock_view (invalidate_timeline s) = lock_view s"
  "lock_view (invalidate_refresh s) = lock_view s"
  "lock_view (select_conversation d s) = lock_view s"
  "lock_view (set_adding b s) = lock_view s"
  "lock_view (clear_scope s) = lock_view s"
  "lock_view (show_timeline d2 era entries s) = lock_view s"
  "lock_view (add_task t s) = (fst (lock_view s) @ (if holds_lock t then [t] else []), snd (lock_view s))"
  by (simp_all add: lock_view_def log_event_def set_error_def set_operation_def set_profiles_def take_lock_def release_lock_def
      invalidate_timeline_def invalidate_refresh_def select_conversation_def set_adding_def clear_scope_def show_timeline_def
      add_task_def)

lemma lock_view_fields [lock_simps]:
  "lock_view (s\<lparr>se_draft := a\<rparr>) = lock_view s"
  "lock_view (s\<lparr>se_retries := b\<rparr>) = lock_view s"
  "lock_view (s\<lparr>se_notificationEpoch := c\<rparr>) = lock_view s"
  "lock_view (s\<lparr>se_expected := d\<rparr>) = lock_view s"
  "lock_view (s\<lparr>se_sendRefreshes := e\<rparr>) = lock_view s"
  "lock_view (s\<lparr>se_snapshot := f\<rparr>) = lock_view s"
  "lock_view (s\<lparr>se_activity := g\<rparr>) = lock_view s"
  "lock_view (s\<lparr>se_trace := h\<rparr>) = lock_view s"
  "lock_view (s\<lparr>se_mutation := i\<rparr>) = (fst (lock_view s), i)"
  "lock_view (s\<lparr>se_refreshRequests := j\<rparr>) = lock_view s"
  "lock_view (s\<lparr>se_timelineRequests := l\<rparr>) = lock_view s"
  "lock_view (s\<lparr>se_onboarding := m, se_profiles := n\<rparr>) = lock_view s"
  "lock_view (s\<lparr>se_snapshot := o', se_contacts := p, se_conversations := q, se_listsOf := r\<rparr>) = lock_view s"
  "lock_view (s\<lparr>se_draft := t, se_mutation := u\<rparr>) = (fst (lock_view s), u)"
  by (simp_all add: lock_view_def)

lemma lock_view_refresh [lock_simps]:
  "lock_view (refresh c s) = (fst (lock_view s) @ (if holds_lock_caller c then [RefreshIdentity (Suc (lr_generation (se_refreshRequests s))) c] else []), snd (lock_view s))"
  by (simp add: refresh_def lr_begin_def Let_def lock_simps)

lemma lock_view_begin_timeline [lock_simps]:
  "lock_view (begin_timeline (\<lambda>t. SendTimeline t d era) s) = lock_view s"
  "lock_view (begin_timeline (\<lambda>t. ChooseTimeline t d era) s) = lock_view s"
  "lock_view (begin_timeline (\<lambda>t. RefreshLists g c era (Some (d, t))) s) =
     (fst (lock_view s) @ (if holds_lock_caller c
        then [RefreshLists g c era (Some (d, Suc (lr_generation (se_timelineRequests s))))] else []), snd (lock_view s))"
  by (simp_all add: begin_timeline_def lr_begin_def Let_def lock_simps)

lemma lock_view_ends [lock_simps]:
  "lock_view (active_operation_ends m a b c s) = (fst (lock_view s), False)"
  "lock_view (forget_ends key label removed f a r n s) = (fst (lock_view s), False)"
  "lock_view (activate_ends key label f p a r s) = (fst (lock_view s), False)"
  by (simp_all add: active_operation_ends_def forget_ends_def activate_ends_def Let_def lock_simps split: option.split)

lemma refresh_returns_unlocked:
  "\<not> holds_lock_caller c \<Longrightarrow> lock_view (refresh_returns k c f s) = lock_view s"
  by (cases c) (auto simp: refresh_returns_def lock_simps split: option.split)

lemma refresh_returns_locked:
  "holds_lock_caller c \<Longrightarrow> lock_view s = ([], True) \<Longrightarrow> lock_passed 2 (refresh_returns k c f s)"
  by (cases c)
    (auto simp: refresh_returns_def lock_passed_def lock_simps Let_def split: option.split run_then.split)

text \<open>A resumption either leaves the lock alone or passes it on.\<close>

definition lock_resumed :: "session_task \<Rightarrow> session \<Rightarrow> session \<Rightarrow> bool" where
  "lock_resumed t s s' \<longleftrightarrow>
     (if holds_lock t then lock_view s = ([], True) \<longrightarrow> lock_passed (lock_rank t) s' else lock_view s' = lock_view s)"

lemma lock_resumed_refresh_returns:
  "holds_lock t = holds_lock_caller c \<Longrightarrow> lock_rank t \<ge> 2 \<Longrightarrow> lock_view s1 = lock_view s \<Longrightarrow>
     lock_resumed t s (refresh_returns k c f s1)"
  using refresh_returns_unlocked [of c k f s1] refresh_returns_locked [of c s1 k f]
  by (auto simp: lock_resumed_def lock_passed_def intro: less_le_trans)

lemma lock_resumed_refresh_throws:
  "holds_lock t = holds_lock_caller c \<Longrightarrow> lock_rank t \<ge> 2 \<Longrightarrow> lock_view s1 = lock_view s \<Longrightarrow>
     lock_resumed t s (refresh_throws k g c e s1)"
  by (simp add: refresh_throws_def lock_resumed_refresh_returns)

lemma session_resume_lock: "session_resume k t s s' \<Longrightarrow> lock_resumed t s s'"
proof (induction rule: session_resume.induct)
  case (resume_identity ires g c s)
  then show ?case
    by (auto simp: refresh_identity_def Let_def lock_simps split: settled.split option.split
        intro!: lock_resumed_refresh_returns lock_resumed_refresh_throws)
      (auto simp: lock_resumed_def lock_passed_def lock_simps)
next
  case (resume_not_ready g c s sres)
  then show ?case
    by (auto simp: refresh_not_ready_def lock_simps split: settled.split
        intro!: lock_resumed_refresh_returns lock_resumed_refresh_throws)
next
  case (resume_lists g c era sel s lres tlres)
  then show ?case
    by (auto simp: refresh_lists_def Let_def lock_simps split: settled.split option.split
        intro!: lock_resumed_refresh_returns lock_resumed_refresh_throws)
next
  case (resume_run operation continuation s ures)
  then show ?case
    by (auto simp: lock_resumed_def lock_passed_def run_settles_def run_operation_effect_def lock_simps
        split: settled.split run_operation.split)
next
  case (resume_send_prepared key s d title content attach retained now locres)
  then show ?case
    by (auto simp: lock_resumed_def lock_passed_def send_prepared_def Let_def lock_simps split: sum.split)
next
  case (resume_send request submission s ores)
  then show ?case
    by (auto simp: lock_resumed_def lock_passed_def send_settles_def Let_def lock_simps split: settled.split)
next
  case (resume_send_timeline g d era s tlres)
  then show ?case by (auto simp: lock_resumed_def send_timeline_settles_def Let_def lock_simps split: settled.split)
next
  case (resume_choose g d era s tlres)
  then show ?case by (auto simp: lock_resumed_def choose_settles_def lock_simps split: settled.split)
qed (auto simp: lock_resumed_def lock_passed_def lock_simps active_operation_settles_def active_profiles_settles_def
    forget_settles_def forget_profiles_settles_def forget_ledger_settles_def activate_settles_def
    activate_profiles_settles_def activate_profiles_again_settles_def split: settled.split option.split)


text \<open>A call takes the lock only when it is free, and otherwise leaves it alone.\<close>

definition lock_called :: "session \<Rightarrow> session \<Rightarrow> bool" where
  "lock_called s s' \<longleftrightarrow> lock_view s' = lock_view s \<or>
     (\<not> se_mutation s \<and> (\<exists>t. holds_lock t \<and> lock_view s' = (fst (lock_view s) @ [t], True)))"

lemma lock_view_mutation: "snd (lock_view s) = se_mutation s"
  by (simp add: lock_view_def)

lemma se_mutation_prims [lock_simps]:
  "se_mutation (log_event e s) = se_mutation s"
  "se_mutation (set_adding b s) = se_mutation s"
  "se_mutation (invalidate_timeline s) = se_mutation s"
  "se_mutation (invalidate_refresh s) = se_mutation s"
  by (simp_all add: log_event_def set_adding_def invalidate_timeline_def invalidate_refresh_def)

lemma run_start_called: "lock_view s1 = lock_view s \<Longrightarrow> se_mutation s1 = se_mutation s \<Longrightarrow> lock_called s (run_start operation continuation s1)"
  by (simp add: lock_called_def run_start_def lock_simps)

lemma activate_called:
  "\<not> se_mutation s \<Longrightarrow> lock_view s1 = (fst (lock_view s), True) \<Longrightarrow> lock_called s (activateProfileWithAuthority k key s1)"
  using lock_view_mutation [of s]
  by (cases "lock_view s") (auto simp: lock_called_def activateProfileWithAuthority_def Let_def lock_simps)

lemma session_call_lock: "session_call k s s' \<Longrightarrow> lock_called s s'"
proof (induction rule: session_call.induct)
  case (call_reconnect s)
  then show ?case
    by (auto simp: lock_called_def reconnectActiveProfile_def active_operation_start_def Let_def lock_simps)
next
  case (call_forget s key)
  then show ?case by (auto simp: lock_called_def forgetInactiveProfile_def Let_def lock_simps)
next
  case (call_activate s key)
  then show ?case by (auto simp: activateApplianceProfile_def lock_simps intro!: activate_called) (simp add: lock_called_def)
next
  case (call_switch s key)
  then show ?case by (auto simp: switchToKnownProfile_def Let_def lock_simps intro!: activate_called) (simp_all add: lock_called_def)
next
  case (call_begin_add s)
  then show ?case
    by (auto simp: beginAddAppliance_def Let_def lock_simps intro!: run_start_called) (simp_all add: lock_called_def)
next
  case (call_onboarding s candidate)
  then show ?case by (auto simp: onboardingMutation_def lock_simps split: option.split intro!: run_start_called)
next
  case (call_send s selected title content attach)
  then show ?case by (auto simp: lock_called_def send_start_def lock_simps split: option.split)
next
  case (call_retry s selected entry key)
  then show ?case
    by (auto simp: lock_called_def retryMessage_def run_start_def Let_def lock_simps split: option.split)
qed (auto simp: lock_called_def lock_simps cancelOnboarding_def upsertContact_def chooseContact_def clearDraft_def
    clearProfileOperation_def sync_def loadActivity_def loadRadioTrace_def activity_settles_def trace_settles_def run_start_def Let_def)

lemma lock_view_end_task:
  assumes "lock_inv s" and "t \<in> set (se_tasks s)"
  shows "lock_view (end_task t s) = (if holds_lock t then ([], True) else lock_view s)"
proof -
  have "filter holds_lock (remove1 t (se_tasks s)) =
      (if holds_lock t then remove1 t (filter holds_lock (se_tasks s)) else filter holds_lock (se_tasks s))"
    by (simp add: filter_remove1 remove1_idem)
  moreover have "filter holds_lock (se_tasks s) = [t] \<and> se_mutation s" if "holds_lock t"
  proof -
    have "t \<in> set (filter holds_lock (se_tasks s))" using assms(2) that by simp
    moreover have "(filter holds_lock (se_tasks s), se_mutation s) = ([], False) \<or>
        (\<exists>u. (filter holds_lock (se_tasks s), se_mutation s) = ([u], True))"
      using assms(1) unfolding lock_inv_view lock_view_def .
    ultimately show ?thesis by (metis Pair_inject empty_iff list.set(1) set_ConsD)
  qed
  ultimately show ?thesis by (auto simp: lock_view_def end_task_def)
qed

text \<open>How a step moves the lock: it is taken when free, kept, or passed on by its holder.\<close>

lemma session_step_lock:
  assumes "session_step k s s'" and "lock_inv s"
  obtains (kept) "lock_view s' = lock_view s"
  | (taken) t where "lock_view s = ([], False)" "lock_view s' = ([t], True)"
  | (passed) t where "lock_view s = ([t], True)" "lock_passed (lock_rank t) s'"
proof -
  have "lock_view s' = lock_view s \<or> (\<exists>t. lock_view s = ([], False) \<and> lock_view s' = ([t], True)) \<or>
      (\<exists>t. lock_view s = ([t], True) \<and> lock_passed (lock_rank t) s')"
    using assms(1)
  proof cases
    case session_called
    then have "lock_called s s'" by (rule session_call_lock)
    then show ?thesis
      using assms(2) lock_view_mutation [of s] by (auto simp: lock_called_def lock_inv_view)
  next
    case (session_resumed t)
    then have resumed: "lock_resumed t (end_task t s) s'" by (intro session_resume_lock)
    note view = lock_view_end_task [OF assms(2) session_resumed(1)]
    show ?thesis
    proof (cases "holds_lock t")
      case True
      then have "t \<in> set (fst (lock_view s))" using session_resumed(1) by (simp add: lock_view_def)
      then have "lock_view s = ([t], True)" using assms(2) by (auto simp: lock_inv_view)
      then show ?thesis using True resumed view by (auto simp: lock_resumed_def)
    next
      case False
      then show ?thesis using resumed view by (simp add: lock_resumed_def)
    qed
  qed
  then show thesis using that by blast
qed

lemma session_step_lock_inv: "session_step k s s' \<Longrightarrow> lock_inv s \<Longrightarrow> lock_inv s'"
  by (erule (1) session_step_lock) (auto simp: lock_inv_view lock_passed_def)

interpretation lock: step_invariant "session_step k" lock_inv for k
  by unfold_locales (rule session_step_lock_inv)


section \<open>The scope of what is shown\<close>

fun refresh_id :: "session_task \<Rightarrow> nat option" where
  "refresh_id (RefreshIdentity g _) = Some g"
| "refresh_id (RefreshNotReady g _) = Some g"
| "refresh_id (RefreshLists g _ _ _) = Some g"
| "refresh_id _ = None"

fun refresh_ids :: "session_task list \<Rightarrow> nat list" where
  "refresh_ids [] = []"
| "refresh_ids (t # ts) = (case refresh_id t of None \<Rightarrow> refresh_ids ts | Some g \<Rightarrow> g # refresh_ids ts)"

lemma refresh_ids_append [simp]: "refresh_ids (ts @ us) = refresh_ids ts @ refresh_ids us"
  by (induction ts) (auto split: option.split)

lemma set_refresh_ids: "g \<in> set (refresh_ids ts) \<longleftrightarrow> (\<exists>t \<in> set ts. refresh_id t = Some g)"
  by (induction ts) (auto split: option.split)

text \<open>
  A pending read carries the era it was issued in; while its request is the current one, that is the present era.
\<close>

fun read_scope :: "nat \<Rightarrow> nat \<Rightarrow> nat \<Rightarrow> session_task \<Rightarrow> bool" where
  "read_scope rgen tgen era (RefreshIdentity g _) = (g \<le> rgen)"
| "read_scope rgen tgen era (RefreshNotReady g _) = (g \<le> rgen)"
| "read_scope rgen tgen era (RefreshLists g _ e sel) =
     (g \<le> rgen \<and> (g = rgen \<longrightarrow> e = era) \<and> (\<forall>d t. sel = Some (d, t) \<longrightarrow> t \<le> tgen \<and> (t = tgen \<longrightarrow> e = era)))"
| "read_scope rgen tgen era (SendTimeline t _ e) = (t \<le> tgen \<and> (t = tgen \<longrightarrow> e = era))"
| "read_scope rgen tgen era (ChooseTimeline t _ e) = (t \<le> tgen \<and> (t = tgen \<longrightarrow> e = era))"
| "read_scope rgen tgen era _ = True"

abbreviation refresh_generation :: "session \<Rightarrow> nat" where
  "refresh_generation s \<equiv> lr_generation (se_refreshRequests s)"

abbreviation timeline_generation :: "session \<Rightarrow> nat" where
  "timeline_generation s \<equiv> lr_generation (se_timelineRequests s)"

definition reads_scoped :: "session \<Rightarrow> bool" where
  "reads_scoped s \<longleftrightarrow>
     (\<forall>t \<in> set (se_tasks s). read_scope (refresh_generation s) (timeline_generation s) (se_era s) t) \<and>
     distinct (refresh_ids (se_tasks s))"

definition shown_scoped :: "session \<Rightarrow> bool" where
  "shown_scoped s \<longleftrightarrow>
     (se_timelineOf s = None \<longrightarrow> se_timeline s = []) \<and>
     (\<forall>d e. se_timelineOf s = Some (d, e) \<longrightarrow> se_selected s = Some d \<and> e = se_era s) \<and>
     (se_listsOf s = None \<longrightarrow> se_contacts s = [] \<and> se_conversations s = []) \<and>
     (\<forall>e. se_listsOf s = Some e \<longrightarrow> e = se_era s)"

definition scope_inv :: "session \<Rightarrow> bool" where
  "scope_inv s \<longleftrightarrow> reads_scoped s \<and> shown_scoped s"

named_theorems scope_simps

lemma reads_scoped_prims [scope_simps]:
  "reads_scoped (log_event e s) = reads_scoped s"
  "reads_scoped (set_error x s) = reads_scoped s"
  "reads_scoped (set_operation p s) = reads_scoped s"
  "reads_scoped (set_profiles q s) = reads_scoped s"
  "reads_scoped (take_lock s) = reads_scoped s"
  "reads_scoped (release_lock s) = reads_scoped s"
  "reads_scoped (select_conversation d s) = reads_scoped s"
  "reads_scoped (set_adding b s) = reads_scoped s"
  "reads_scoped (show_timeline d2 era entries s) = reads_scoped s"
  by (simp_all add: reads_scoped_def log_event_def set_error_def set_operation_def set_profiles_def take_lock_def
      release_lock_def select_conversation_def set_adding_def show_timeline_def)

lemma shown_scoped_prims [scope_simps]:
  "shown_scoped (log_event e s) = shown_scoped s"
  "shown_scoped (set_error x s) = shown_scoped s"
  "shown_scoped (set_operation p s) = shown_scoped s"
  "shown_scoped (set_profiles q s) = shown_scoped s"
  "shown_scoped (take_lock s) = shown_scoped s"
  "shown_scoped (release_lock s) = shown_scoped s"
  "shown_scoped (set_adding b s) = shown_scoped s"
  "shown_scoped (invalidate_timeline s) = shown_scoped s"
  "shown_scoped (invalidate_refresh s) = shown_scoped s"
  "shown_scoped (add_task t s) = shown_scoped s"
  by (simp_all add: shown_scoped_def log_event_def set_error_def set_operation_def set_profiles_def take_lock_def
      release_lock_def set_adding_def invalidate_timeline_def invalidate_refresh_def add_task_def)

lemma scope_fields [scope_simps]:
  "reads_scoped (s\<lparr>se_draft := a\<rparr>) = reads_scoped s"
  "reads_scoped (s\<lparr>se_retries := b\<rparr>) = reads_scoped s"
  "reads_scoped (s\<lparr>se_notificationEpoch := c\<rparr>) = reads_scoped s"
  "reads_scoped (s\<lparr>se_expected := d\<rparr>) = reads_scoped s"
  "reads_scoped (s\<lparr>se_sendRefreshes := e\<rparr>) = reads_scoped s"
  "reads_scoped (s\<lparr>se_snapshot := f\<rparr>) = reads_scoped s"
  "reads_scoped (s\<lparr>se_activity := g\<rparr>) = reads_scoped s"
  "reads_scoped (s\<lparr>se_trace := h\<rparr>) = reads_scoped s"
  "reads_scoped (s\<lparr>se_mutation := i\<rparr>) = reads_scoped s"
  "reads_scoped (s\<lparr>se_onboarding := m, se_profiles := n\<rparr>) = reads_scoped s"
  "reads_scoped (s\<lparr>se_snapshot := o', se_contacts := p, se_conversations := q, se_listsOf := r\<rparr>) = reads_scoped s"
  "reads_scoped (s\<lparr>se_draft := t, se_mutation := u\<rparr>) = reads_scoped s"
  "shown_scoped (s\<lparr>se_draft := a\<rparr>) = shown_scoped s"
  "shown_scoped (s\<lparr>se_retries := b\<rparr>) = shown_scoped s"
  "shown_scoped (s\<lparr>se_notificationEpoch := c\<rparr>) = shown_scoped s"
  "shown_scoped (s\<lparr>se_expected := d\<rparr>) = shown_scoped s"
  "shown_scoped (s\<lparr>se_sendRefreshes := e\<rparr>) = shown_scoped s"
  "shown_scoped (s\<lparr>se_snapshot := f\<rparr>) = shown_scoped s"
  "shown_scoped (s\<lparr>se_activity := g\<rparr>) = shown_scoped s"
  "shown_scoped (s\<lparr>se_trace := h\<rparr>) = shown_scoped s"
  "shown_scoped (s\<lparr>se_mutation := i\<rparr>) = shown_scoped s"
  "shown_scoped (s\<lparr>se_refreshRequests := j\<rparr>) = shown_scoped s"
  "shown_scoped (s\<lparr>se_timelineRequests := l\<rparr>) = shown_scoped s"
  "shown_scoped (s\<lparr>se_onboarding := m, se_profiles := n\<rparr>) = shown_scoped s"
  "shown_scoped (s\<lparr>se_draft := t, se_mutation := u\<rparr>) = shown_scoped s"
  by (simp_all add: reads_scoped_def shown_scoped_def)

lemma read_scope_later:
  "read_scope r g e t \<Longrightarrow> read_scope (Suc r) g e t" "read_scope r g e t \<Longrightarrow> read_scope r (Suc g) e t"
  by (cases t; auto)+

text \<open>No task of the current refresh is pending.\<close>

definition refresh_idle :: "session \<Rightarrow> bool" where
  "refresh_idle s \<longleftrightarrow> (\<forall>t \<in> set (se_tasks s). refresh_id t \<noteq> Some (refresh_generation s))"

lemma invalidate_timeline_scoped: "reads_scoped s \<Longrightarrow> reads_scoped (invalidate_timeline s)"
  by (auto simp: reads_scoped_def invalidate_timeline_def lr_invalidate_def read_scope_later)

lemma invalidate_refresh_scoped: "reads_scoped s \<Longrightarrow> reads_scoped (invalidate_refresh s)"
  by (auto simp: reads_scoped_def invalidate_refresh_def lr_invalidate_def read_scope_later)

lemma refresh_id_bound: "reads_scoped s \<Longrightarrow> t \<in> set (se_tasks s) \<Longrightarrow> refresh_id t = Some g \<Longrightarrow> g \<le> refresh_generation s"
  unfolding reads_scoped_def by (cases t) fastforce+

lemma invalidate_refresh_idle: "reads_scoped s \<Longrightarrow> refresh_idle (invalidate_refresh s)"
  using refresh_id_bound [of s] by (fastforce simp: refresh_idle_def invalidate_refresh_def lr_invalidate_def)

lemma read_scope_new_era: "read_scope r g e t \<Longrightarrow> refresh_id t \<noteq> Some r \<Longrightarrow> read_scope r (Suc g) e' t"
  by (cases t) auto

lemma clear_scope_scoped:
  assumes "reads_scoped s" and "refresh_idle s"
  shows "reads_scoped (clear_scope s)" and "shown_scoped (clear_scope s)"
  using assms
  by (auto simp: clear_scope_def scope_simps)
    (auto simp: reads_scoped_def shown_scoped_def refresh_idle_def invalidate_timeline_def select_conversation_def
      lr_invalidate_def intro: read_scope_new_era)

lemma reads_scoped_add_task:
  "reads_scoped (add_task t s) \<longleftrightarrow>
     reads_scoped s \<and> read_scope (refresh_generation s) (timeline_generation s) (se_era s) t \<and>
     (\<forall>g. refresh_id t = Some g \<longrightarrow> g \<notin> set (refresh_ids (se_tasks s)))"
  by (auto simp: reads_scoped_def add_task_def split: option.split)


lemma se_era_prims [scope_simps]:
  "se_era (log_event e s) = se_era s"
  "se_era (set_error x s) = se_era s"
  "se_era (set_adding b s) = se_era s"
  "se_era (invalidate_timeline s) = se_era s"
  "se_era (select_conversation d s) = se_era s"
  by (simp_all add: log_event_def set_error_def set_adding_def invalidate_timeline_def select_conversation_def)

lemma generation_prims [scope_simps]:
  "refresh_generation (log_event e s) = refresh_generation s"
  "refresh_generation (set_adding b s) = refresh_generation s"
  "refresh_generation (clear_scope s) = refresh_generation s"
  by (simp_all add: log_event_def set_adding_def clear_scope_def select_conversation_def invalidate_timeline_def)

lemma refresh_idle_prims [scope_simps]:
  "refresh_idle (log_event e s) = refresh_idle s"
  "refresh_idle (set_adding b s) = refresh_idle s"
  "refresh_idle (clear_scope s) = refresh_idle s"
  "refresh_idle (s\<lparr>se_onboarding := m, se_profiles := n\<rparr>) = refresh_idle s"
  by (simp_all add: refresh_idle_def log_event_def set_adding_def clear_scope_def select_conversation_def invalidate_timeline_def)

lemma refresh_scoped:
  assumes "reads_scoped s"
  shows "reads_scoped (refresh c s)" and "shown_scoped (refresh c s) = shown_scoped s"
proof -
  let ?s = "s\<lparr>se_refreshRequests := lr_invalidate (se_refreshRequests s)\<rparr>"
  have "reads_scoped ?s" "refresh_idle ?s"
    using invalidate_refresh_scoped [OF assms] invalidate_refresh_idle [OF assms] by (simp_all add: invalidate_refresh_def)
  then show "reads_scoped (refresh c s)"
    by (auto simp: refresh_def lr_begin_def lr_invalidate_def Let_def reads_scoped_add_task refresh_idle_def set_refresh_ids)
  show "shown_scoped (refresh c s) = shown_scoped s"
    by (simp add: refresh_def lr_begin_def Let_def scope_simps)
qed

text \<open>Starting a read of a timeline.\<close>

lemma begin_timeline_scoped:
  assumes "reads_scoped s"
    and "read_scope (refresh_generation s) (Suc (timeline_generation s)) (se_era s) (task (Suc (timeline_generation s)))"
    and "\<And>g. refresh_id (task (Suc (timeline_generation s))) = Some g \<Longrightarrow> g \<notin> set (refresh_ids (se_tasks s))"
  shows "reads_scoped (begin_timeline task s)"
  using invalidate_timeline_scoped [OF assms(1)] assms(2,3)
  by (auto simp: begin_timeline_def lr_begin_def lr_invalidate_def invalidate_timeline_def Let_def reads_scoped_add_task)

lemma shown_begin_timeline [scope_simps]: "shown_scoped (begin_timeline task s) = shown_scoped s"
  by (simp add: begin_timeline_def lr_begin_def Let_def scope_simps)

lemma shown_select [scope_simps]:
  "shown_scoped s \<Longrightarrow> shown_scoped (select_conversation d s)"
  by (simp add: shown_scoped_def select_conversation_def)

lemma shown_lists: "shown_scoped s \<Longrightarrow> e = se_era s \<Longrightarrow>
    shown_scoped (s\<lparr>se_snapshot := o', se_contacts := p, se_conversations := q, se_listsOf := Some e\<rparr>)"
  by (simp add: shown_scoped_def)

lemma shown_timeline: "shown_scoped s \<Longrightarrow> se_selected s = Some d \<Longrightarrow> e = se_era s \<Longrightarrow> shown_scoped (show_timeline d e entries s)"
  by (simp add: shown_scoped_def show_timeline_def)

lemma ends_scoped [scope_simps]:
  "reads_scoped (active_operation_ends m a b c s) = reads_scoped s"
  "reads_scoped (forget_ends key label removed f a r n s) = reads_scoped s"
  "reads_scoped (activate_ends key label f p a r s) = reads_scoped s"
  "shown_scoped (active_operation_ends m a b c s) = shown_scoped s"
  "shown_scoped (forget_ends key label removed f a r n s) = shown_scoped s"
  "shown_scoped (activate_ends key label f p a r s) = shown_scoped s"
  by (simp_all add: active_operation_ends_def forget_ends_def activate_ends_def Let_def scope_simps split: option.split)

lemma refresh_returns_scope: "scope_inv s \<Longrightarrow> scope_inv (refresh_returns k c f s)"
  by (cases c) (auto simp: scope_inv_def refresh_returns_def scope_simps reads_scoped_add_task Let_def
      split: option.split run_then.split)

lemma refresh_throws_scope: "scope_inv s \<Longrightarrow> scope_inv (refresh_throws k g c e s)"
  by (simp add: refresh_throws_def refresh_returns_scope)

text \<open>What is known of the task that resumes: its scope, and that no other task belongs to its refresh.\<close>

definition resumes :: "session_task \<Rightarrow> session \<Rightarrow> bool" where
  "resumes t s \<longleftrightarrow> read_scope (refresh_generation s) (timeline_generation s) (se_era s) t \<and>
     (\<forall>g. refresh_id t = Some g \<longrightarrow> g \<notin> set (refresh_ids (se_tasks s)))"

lemma end_task_scope:
  assumes "scope_inv s" and "t \<in> set (se_tasks s)"
  shows "scope_inv (end_task t s)" and "resumes t (end_task t s)"
proof -
  obtain as bs where tasks: "se_tasks s = as @ t # bs" "t \<notin> set as" using split_list_first [OF assms(2)] by blast
  then have rest: "end_task t s = s\<lparr>se_tasks := as @ bs\<rparr>" by (simp add: end_task_def remove1_append)
  have reads: "\<forall>u \<in> set (as @ t # bs). read_scope (refresh_generation s) (timeline_generation s) (se_era s) u"
      "distinct (refresh_ids (as @ t # bs))" and shown: "shown_scoped s"
    using assms(1) tasks(1) by (simp_all add: scope_inv_def reads_scoped_def)
  show "scope_inv (end_task t s)"
    using reads shown by (simp add: rest scope_inv_def reads_scoped_def shown_scoped_def split: option.splits)
  show "resumes t (end_task t s)"
    using reads by (simp add: rest resumes_def split: option.splits)
qed

lemma resumes_idle: "resumes t s \<Longrightarrow> refresh_id t = Some g \<Longrightarrow> g = refresh_generation s \<Longrightarrow> refresh_idle s"
  by (auto simp: resumes_def refresh_idle_def set_refresh_ids)

lemma session_resume_scope: "session_resume k t s s' \<Longrightarrow> scope_inv s \<Longrightarrow> resumes t s \<Longrightarrow> scope_inv s'"
proof (induction rule: session_resume.induct)
  case (resume_identity ires g c s)
  show ?case
  proof (cases ires)
    case (Rejected e)
    then show ?thesis using resume_identity by (simp add: refresh_identity_def refresh_throws_scope)
  next
    case (Fulfilled r)
    obtain view p where r: "r = (view, p)" by fastforce
    let ?s1 = "s\<lparr>se_onboarding := view, se_profiles := p\<rparr>"
    define s2 where "s2 = (if se_adding ?s1 \<and> completesAdditionalApplianceEnrollment view (se_expected ?s1)
       then clear_scope (set_adding False ?s1) else ?s1)"
    show ?thesis
    proof (cases "refresh_accepts s g")
      case False
      then show ?thesis using Fulfilled r resume_identity by (simp add: refresh_identity_def refresh_returns_scope)
    next
      case True
      then have g: "g = refresh_generation s" by (simp add: refresh_accepts_def lr_accepts_def)
      then have idle: "refresh_idle s" using resume_identity.prems(2) resumes_idle by fastforce
      have s2: "reads_scoped s2" "shown_scoped s2" "refresh_idle s2" "refresh_generation s2 = g"
        using resume_identity.prems(1) idle clear_scope_scoped [of "set_adding False ?s1"] g
        by (simp_all add: s2_def scope_inv_def scope_simps)
      then have fresh: "g \<notin> set (refresh_ids (se_tasks s2))" by (auto simp: refresh_idle_def set_refresh_ids)
      have lists: "scope_inv (add_task (RefreshLists g c (se_era s2) None) s2)"
          "scope_inv (begin_timeline (\<lambda>t. RefreshLists g c (se_era s2) (Some (d, t))) s2)" for d
        using s2 fresh by (auto simp: scope_inv_def scope_simps reads_scoped_add_task intro!: begin_timeline_scoped)
      have not_ready: "scope_inv (add_task (RefreshNotReady g c) s2)"
        using s2 fresh by (simp add: scope_inv_def scope_simps reads_scoped_add_task)
      have adding: "scope_inv (refresh_returns k c None (invalidate_timeline ?s1))"
        using resume_identity.prems(1)
        by (intro refresh_returns_scope) (simp add: scope_inv_def scope_simps invalidate_timeline_scoped)
      show ?thesis
        unfolding Fulfilled r refresh_identity_def Let_def settled.case prod.case s2_def [symmetric]
        using True adding not_ready lists by (simp split: option.split)
    qed
  qed
next
  case (resume_not_ready g c s sres)
  then show ?case
    by (auto simp: refresh_not_ready_def scope_inv_def [of "invalidate_timeline _"] scope_simps
        split: settled.split intro!: refresh_throws_scope refresh_returns_scope invalidate_timeline_scoped)
      (auto simp: scope_inv_def)
next
  case (resume_lists g c era sel s lres tlres)
  show ?case
  proof (cases lres)
    case (Rejected e)
    then show ?thesis using resume_lists by (simp add: refresh_lists_def refresh_throws_scope)
  next
    case (Fulfilled r)
    obtain sn cs ps where r: "r = (sn, cs, ps)" by (cases r) auto
    let ?s1 = "s\<lparr>se_snapshot := Some sn, se_contacts := cs, se_conversations := ps, se_listsOf := Some era\<rparr>"
    show ?thesis
    proof (cases "refresh_accepts s g")
      case False
      then show ?thesis using Fulfilled r resume_lists by (simp add: refresh_lists_def refresh_returns_scope)
    next
      case True
      then have era: "era = se_era s"
        using resume_lists.prems(2) by (simp add: resumes_def refresh_accepts_def lr_accepts_def)
      then have s1: "reads_scoped ?s1" "shown_scoped ?s1"
        using resume_lists.prems(1) by (simp_all add: scope_inv_def scope_simps shown_lists)
      have shown: "scope_inv (show_timeline d era entries ?s1)" if "timeline_current ?s1 tr d" for d tr entries
        using s1 era that by (simp add: scope_inv_def scope_simps timeline_current_def shown_timeline)
      have dropped: "scope_inv (select_conversation None (invalidate_timeline ?s1))"
        using s1 by (simp add: scope_inv_def scope_simps invalidate_timeline_scoped)
      have error: "scope_inv (set_error x u) = scope_inv u" for x u by (simp add: scope_inv_def scope_simps)
      show ?thesis
        unfolding Fulfilled r refresh_lists_def Let_def settled.case prod.case
        using True s1 shown dropped
        by (auto simp: error scope_inv_def [of ?s1] split: option.split settled.split
            intro!: refresh_returns_scope refresh_throws_scope)
    qed
  qed
next
  case (resume_run operation continuation s ures)
  then have "scope_inv (run_operation_effect operation b s)" for b
    by (auto simp: run_operation_effect_def scope_inv_def scope_simps invalidate_timeline_scoped split: run_operation.split)
  then show ?case
    by (cases ures) (auto simp: run_settles_def scope_inv_def scope_simps refresh_scoped)
next
  case (resume_send_prepared key s d title content attach retained now locres)
  then show ?case
    by (auto simp: send_prepared_def scope_inv_def scope_simps reads_scoped_add_task Let_def split: sum.split)
next
  case (resume_send request submission s ores)
  then show ?case
    by (auto simp: send_settles_def scope_inv_def scope_simps Let_def split: settled.split intro!: begin_timeline_scoped)
next
  case (resume_send_timeline g d era s tlres)
  then show ?case
    by (auto simp: send_timeline_settles_def scope_inv_def scope_simps Let_def timeline_current_def lr_accepts_def resumes_def
        split: settled.split intro!: shown_timeline)
next
  case (resume_choose g d era s tlres)
  then show ?case
    by (auto simp: choose_settles_def scope_inv_def scope_simps timeline_current_def lr_accepts_def resumes_def
        split: settled.split intro!: shown_timeline)
qed (auto simp: scope_inv_def scope_simps reads_scoped_add_task refresh_scoped active_operation_settles_def
    active_profiles_settles_def forget_settles_def forget_profiles_settles_def forget_ledger_settles_def
    activate_settles_def activate_profiles_settles_def activate_profiles_again_settles_def split: settled.split option.split)

lemma run_start_scope: "scope_inv s \<Longrightarrow> scope_inv (run_start operation continuation s)"
  by (simp add: run_start_def scope_inv_def scope_simps reads_scoped_add_task)

lemma activate_scope: "scope_inv s \<Longrightarrow> scope_inv (activateProfileWithAuthority k key s)"
proof -
  assume inv: "scope_inv s"
  let ?s1 = "log_event ReconnectProgressCleared (log_event (Navigated WsLxmf) (log_event ReconnectSuspended
      (log_event ReconnectAllowed (s\<lparr>se_notificationEpoch := se_notificationEpoch s + 1\<rparr>))))"
  have "reads_scoped ?s1" using inv by (simp add: scope_inv_def scope_simps)
  then have "reads_scoped (clear_scope (invalidate_refresh ?s1))" "shown_scoped (clear_scope (invalidate_refresh ?s1))"
    by (simp_all add: clear_scope_scoped invalidate_refresh_scoped invalidate_refresh_idle)
  then show ?thesis
    using inv by (simp add: activateProfileWithAuthority_def Let_def scope_inv_def scope_simps reads_scoped_add_task)
qed

lemma session_call_scope: "session_call k s s' \<Longrightarrow> scope_inv s \<Longrightarrow> scope_inv s'"
proof (induction rule: session_call.induct)
  case (call_activate s key)
  then show ?case by (auto simp: activateApplianceProfile_def intro!: activate_scope) (simp add: scope_inv_def scope_simps)
next
  case (call_switch s key)
  then show ?case
    by (auto simp: switchToKnownProfile_def Let_def intro!: activate_scope) (simp add: scope_inv_def scope_simps)
next
  case (call_begin_add s)
  then show ?case
    by (auto simp: beginAddAppliance_def Let_def intro!: run_start_scope)
      (simp add: scope_inv_def scope_simps invalidate_timeline_scoped invalidate_refresh_scoped)
next
  case (call_onboarding s candidate)
  then show ?case
    by (auto simp: onboardingMutation_def split: option.split intro!: run_start_scope) (simp add: scope_inv_def scope_simps)
next
  case (call_choose s d)
  then show ?case
    by (auto simp: chooseContact_def scope_inv_def scope_simps Let_def intro!: begin_timeline_scoped)
next
  case (call_retry s selected entry key)
  then show ?case
    by (auto simp: retryMessage_def run_start_def Let_def scope_inv_def scope_simps reads_scoped_add_task split: option.split)
qed (auto simp: scope_inv_def scope_simps reads_scoped_add_task refresh_scoped reconnectActiveProfile_def active_operation_start_def
    forgetInactiveProfile_def cancelOnboarding_def upsertContact_def send_start_def clearDraft_def clearProfileOperation_def
    sync_def loadActivity_def loadRadioTrace_def activity_settles_def trace_settles_def run_start_def Let_def split: option.split)

lemma session_step_scope: "session_step k s s' \<Longrightarrow> scope_inv s \<Longrightarrow> scope_inv s'"
  using session_call_scope session_resume_scope end_task_scope by (elim session_stepE) blast+

interpretation scope: step_invariant "session_step k" scope_inv for k
  by unfold_locales (rule session_step_scope)


section \<open>The identity of a message\<close>

definition accepted_keys :: "session_event list \<Rightarrow> jstring set" where
  "accepted_keys l = {sr_idempotency_key r | r. SendAccepted r \<in> set l}"

text \<open>A submission that can still be sent: its key was not accepted, and was only sent with the same identity.\<close>

definition submission_open :: "session_event list \<Rightarrow> DraftSubmission \<Rightarrow> bool" where
  "submission_open l sub \<longleftrightarrow>
     dr_idempotencyKey (ds_identity sub) \<notin> accepted_keys l \<and>
     (\<forall>q. CalledSend q \<in> set l \<longrightarrow> sr_idempotency_key q = dr_idempotencyKey (ds_identity sub) \<longrightarrow>
        sr_timestamp_ms q = dr_timestampMs (ds_identity sub) \<and> sr_location q = ds_location sub)"

text \<open>Newest first: a message is sent only under a key not accepted before, with the identity sent before.\<close>

fun sends_ok :: "session_event list \<Rightarrow> bool" where
  "sends_ok [] = True"
| "sends_ok (CalledSend r # l) =
     (sends_ok l \<and> sr_idempotency_key r \<notin> accepted_keys l \<and>
      (\<forall>q. CalledSend q \<in> set l \<longrightarrow> sr_idempotency_key q = sr_idempotency_key r \<longrightarrow>
         sr_timestamp_ms q = sr_timestamp_ms r \<and> sr_location q = sr_location r))"
| "sends_ok (_ # l) = sends_ok l"

fun is_send_task :: "session_task \<Rightarrow> bool" where
  "is_send_task (SendPreparing _ _ _ _ _) = True"
| "is_send_task (SendWaiting _ _) = True"
| "is_send_task _ = False"

fun is_send_event :: "session_event \<Rightarrow> bool" where
  "is_send_event (CalledSend _) = True"
| "is_send_event (SendAccepted _) = True"
| "is_send_event _ = False"

fun send_task_ok :: "session_event list \<Rightarrow> DraftSubmission option \<Rightarrow> session_task \<Rightarrow> bool" where
  "send_task_ok l draft (SendPreparing _ _ _ _ retained) = (\<forall>sub. retained = Some sub \<longrightarrow> submission_open l sub)"
| "send_task_ok l draft (SendWaiting r sub) =
     (submission_open l sub \<and> sr_idempotency_key r = dr_idempotencyKey (ds_identity sub) \<and> CalledSend r \<in> set l \<and>
      (draft = None \<or> draft = Some sub))"
| "send_task_ok l draft _ = True"

definition send_view :: "session \<Rightarrow> DraftSubmission option \<times> session_task list \<times> session_event list" where
  "send_view s = (se_draft s, filter is_send_task (se_tasks s), filter is_send_event (se_log s))"

definition send_ok :: "DraftSubmission option \<times> session_task list \<times> session_event list \<Rightarrow> bool" where
  "send_ok = (\<lambda>(draft, tasks, l). sends_ok l \<and> (\<forall>r. SendAccepted r \<in> set l \<longrightarrow> CalledSend r \<in> set l) \<and>
     (\<forall>sub. draft = Some sub \<longrightarrow> submission_open l sub) \<and> (\<forall>t \<in> set tasks. send_task_ok l draft t))"

definition send_inv :: "session \<Rightarrow> bool" where
  "send_inv s \<longleftrightarrow> send_ok (send_view s)"

named_theorems send_simps

lemma send_view_prims [send_simps]:
  "send_view (log_event e s) = (fst (send_view s), fst (snd (send_view s)), (if is_send_event e then [e] else []) @ snd (snd (send_view s)))"
  "send_view (set_error x s) = send_view s"
  "send_view (set_operation p s) = send_view s"
  "send_view (set_profiles q s) = send_view s"
  "send_view (take_lock s) = send_view s"
  "send_view (release_lock s) = send_view s"
  "send_view (invalidate_timeline s) = send_view s"
  "send_view (invalidate_refresh s) = send_view s"
  "send_view (select_conversation d s) = send_view s"
  "send_view (set_adding b s) = send_view s"
  "send_view (show_timeline d2 era entries s) = send_view s"
  "send_view (add_task t s) = (fst (send_view s), fst (snd (send_view s)) @ (if is_send_task t then [t] else []), snd (snd (send_view s)))"
  by (simp_all add: send_view_def log_event_def set_error_def set_operation_def set_profiles_def take_lock_def release_lock_def
      invalidate_timeline_def invalidate_refresh_def select_conversation_def set_adding_def show_timeline_def add_task_def)

lemma send_view_fields [send_simps]:
  "send_view (s\<lparr>se_draft := a\<rparr>) = (a, snd (send_view s))"
  "send_view (s\<lparr>se_retries := b\<rparr>) = send_view s"
  "send_view (s\<lparr>se_notificationEpoch := c\<rparr>) = send_view s"
  "send_view (s\<lparr>se_expected := d\<rparr>) = send_view s"
  "send_view (s\<lparr>se_sendRefreshes := e\<rparr>) = send_view s"
  "send_view (s\<lparr>se_snapshot := f\<rparr>) = send_view s"
  "send_view (s\<lparr>se_activity := g\<rparr>) = send_view s"
  "send_view (s\<lparr>se_trace := h\<rparr>) = send_view s"
  "send_view (s\<lparr>se_mutation := i\<rparr>) = send_view s"
  "send_view (s\<lparr>se_refreshRequests := j\<rparr>) = send_view s"
  "send_view (s\<lparr>se_timelineRequests := l\<rparr>) = send_view s"
  "send_view (s\<lparr>se_onboarding := m, se_profiles := n\<rparr>) = send_view s"
  "send_view (s\<lparr>se_snapshot := o', se_contacts := p, se_conversations := q, se_listsOf := r\<rparr>) = send_view s"
  "send_view (s\<lparr>se_draft := t, se_mutation := u\<rparr>) = (t, snd (send_view s))"
  by (simp_all add: send_view_def)

lemma send_view_clear_scope [send_simps]: "send_view (clear_scope s) = (None, snd (send_view s))"
  by (simp add: send_view_def clear_scope_def log_event_def select_conversation_def invalidate_timeline_def)

lemma send_view_starts [send_simps]:
  "send_view (refresh c s) = send_view s"
  "send_view (begin_timeline (\<lambda>t. SendTimeline t d era) s) = send_view s"
  "send_view (begin_timeline (\<lambda>t. ChooseTimeline t d era) s) = send_view s"
  "send_view (begin_timeline (\<lambda>t. RefreshLists g c era (Some (d, t))) s) = send_view s"
  by (simp_all add: refresh_def begin_timeline_def lr_begin_def Let_def send_simps)

lemma send_view_ends [send_simps]:
  "send_view (active_operation_ends m a b c s) = send_view s"
  "send_view (forget_ends key label removed f a r n s) = send_view s"
  "send_view (activate_ends key label f p a r s) = send_view s"
  by (simp_all add: active_operation_ends_def forget_ends_def activate_ends_def Let_def send_simps split: option.split)

lemma send_view_refresh_returns [send_simps]:
  "send_view (refresh_returns k c f s) = send_view s"
  "send_view (refresh_throws k g c e s) = send_view s"
  by (cases c; simp add: refresh_throws_def refresh_returns_def send_simps Let_def split: option.split run_then.split)+

text \<open>Dropping the draft keeps the invariant.\<close>

lemma send_ok_no_draft: "send_ok v \<Longrightarrow> send_ok (None, snd v)"
proof -
  have "send_task_ok l d t \<Longrightarrow> send_task_ok l None t" for l d t by (cases t) auto
  then show "send_ok v \<Longrightarrow> send_ok (None, snd v)" by (cases v) (auto simp: send_ok_def)
qed

lemma send_inv_no_draft: "send_inv s \<Longrightarrow> send_view s' = (None, snd (send_view s)) \<Longrightarrow> send_inv s'"
  by (simp add: send_inv_def send_ok_no_draft)

lemma send_inv_cong: "send_view s' = send_view s \<Longrightarrow> send_inv s' = send_inv s"
  by (simp add: send_inv_def)


lemma accepted_keys_simps [simp]:
  "accepted_keys [] = {}"
  "accepted_keys (SendAccepted r # l) = insert (sr_idempotency_key r) (accepted_keys l)"
  "accepted_keys (CalledSend r # l) = accepted_keys l"
  by (auto simp: accepted_keys_def)

lemma submission_open_called:
  "submission_open l sub \<Longrightarrow> sr_idempotency_key r = dr_idempotencyKey (ds_identity sub) \<Longrightarrow>
   sr_timestamp_ms r = dr_timestampMs (ds_identity sub) \<Longrightarrow> sr_location r = ds_location sub \<Longrightarrow>
   submission_open (CalledSend r # l) sub"
  by (auto simp: submission_open_def)

text \<open>The call of \<open>api.send\<close> under an open submission.\<close>

lemma send_ok_called:
  assumes "send_ok (draft, [], l)" and "submission_open l sub"
  shows "send_ok (Some sub, [SendWaiting (send_request d title content sub) sub],
    CalledSend (send_request d title content sub) # l)"
  using assms submission_open_called [OF assms(2), of "send_request d title content sub"]
  by (auto simp: send_ok_def send_request_def submission_open_def)

lemma send_ok_accepted:
  assumes "send_ok (draft, [], l)" and "send_task_ok l draft (SendWaiting r sub)"
  shows "send_ok (if draft = Some sub then None else draft, [], SendAccepted r # l)"
  using assms by (auto simp: send_ok_def)

lemma session_resume_send:
  assumes "session_resume k t s s'" and "send_inv s" and "send_task_ok (filter is_send_event (se_log s)) (se_draft s) t"
    and "is_send_task t \<Longrightarrow> fst (snd (send_view s)) = []"
  shows "send_inv s'"
  using assms
proof (induction rule: session_resume.induct)
  case (resume_identity ires g c s)
  then show ?case
    by (auto simp: refresh_identity_def Let_def send_inv_def send_simps send_ok_no_draft split: settled.split option.split)
next
  case (resume_not_ready g c s sres)
  then show ?case by (auto simp: refresh_not_ready_def send_inv_def send_simps split: settled.split)
next
  case (resume_lists g c era sel s lres tlres)
  then show ?case by (auto simp: refresh_lists_def Let_def send_inv_def send_simps split: settled.split option.split)
next
  case (resume_run operation continuation s ures)
  then show ?case
    by (auto simp: run_settles_def run_operation_effect_def send_inv_def send_simps send_ok_no_draft
        split: settled.split run_operation.split)
next
  case (resume_send_prepared key s d title content attach retained now locres)
  let ?l = "filter is_send_event (se_log s)"
  have view: "send_view s = (se_draft s, [], ?l)" using resume_send_prepared.prems(3) by (simp add: send_view_def)
  have "submission_open ?l sub"
    if "(case retained of Some r \<Rightarrow> Inr r
         | None \<Rightarrow> new_submission attach (ensureDraftIdentity None key now) locres) = Inr sub" for sub
  proof (cases retained)
    case (Some r)
    then show ?thesis using that resume_send_prepared.prems(2) by simp
  next
    case None
    then have "dr_idempotencyKey (ds_identity sub) = key"
      using that by (auto simp: new_submission_def ensureDraftIdentity_def split: if_splits settled.splits)
    moreover have fresh: "CalledSend q \<notin> set ?l" if "sr_idempotency_key q = key" for q
      using resume_send_prepared.hyps that by (auto simp: sent_keys_def)
    moreover have "key \<notin> accepted_keys ?l"
    proof
      assume "key \<in> accepted_keys ?l"
      then obtain q where q: "sr_idempotency_key q = key" "SendAccepted q \<in> set ?l" by (auto simp: accepted_keys_def)
      then have "CalledSend q \<in> set ?l"
        using resume_send_prepared.prems(1) by (auto simp: send_inv_def view send_ok_def)
      then show False using fresh [OF q(1)] by simp
    qed
    ultimately show ?thesis by (auto simp: submission_open_def)
  qed
  then show ?case
    using resume_send_prepared.prems(1) unfolding send_inv_def view
    by (auto simp: send_prepared_def Let_def send_simps view split: sum.split intro: send_ok_called)
next
  case (resume_send request submission s ores)
  let ?l = "filter is_send_event (se_log s)"
  have view: "send_view s = (se_draft s, [], ?l)" using resume_send.prems(3) by (simp add: send_view_def)
  have "send_ok (if se_draft s = Some submission then None else se_draft s, [], SendAccepted request # ?l)"
    using send_ok_accepted resume_send.prems(1,2) unfolding send_inv_def view by blast
  then show ?case
    using resume_send.prems(1) unfolding send_inv_def view
    by (auto simp: send_settles_def Let_def send_simps view split: settled.split if_splits)
next
  case (resume_send_timeline g d era s tlres)
  then show ?case by (auto simp: send_timeline_settles_def Let_def send_inv_def send_simps split: settled.split)
next
  case (resume_choose g d era s tlres)
  then show ?case by (auto simp: choose_settles_def send_inv_def send_simps split: settled.split)
qed (auto simp: send_inv_def send_simps active_operation_settles_def active_profiles_settles_def forget_settles_def
    forget_profiles_settles_def forget_ledger_settles_def activate_settles_def activate_profiles_settles_def
    activate_profiles_again_settles_def split: settled.split option.split)

lemma send_inv_draft_choice:
  assumes "send_inv s"
  shows "send_ok (if P then None else se_draft s, snd (send_view s))"
proof -
  have "send_view s = (se_draft s, snd (send_view s))" by (simp add: send_view_def)
  then show ?thesis using assms send_ok_no_draft [of "send_view s"] unfolding send_inv_def by metis
qed

lemma session_call_send: "session_call k s s' \<Longrightarrow> send_inv s \<Longrightarrow> send_inv s'"
proof (induction rule: session_call.induct)
  case (call_activate s key)
  then show ?case
    by (auto simp: activateApplianceProfile_def activateProfileWithAuthority_def Let_def send_inv_def send_simps send_ok_no_draft)
next
  case (call_switch s key)
  then show ?case
    by (auto simp: switchToKnownProfile_def activateProfileWithAuthority_def Let_def send_inv_def send_simps send_ok_no_draft)
next
  case (call_choose s d)
  then show ?case
    using send_inv_draft_choice [OF call_choose] by (simp add: chooseContact_def Let_def send_inv_def [of "begin_timeline _ _"] send_simps)
next
  case (call_send s selected title content attach)
  have "send_ok (fst (send_view s), fst (snd (send_view s)) @
      [SendPreparing d title content attach (retained_submission (se_draft s) attach)], snd (snd (send_view s)))" for d
    using call_send by (auto simp: send_inv_def send_ok_def send_view_def retained_submission_def split: option.splits if_splits)
  then show ?case
    using call_send by (auto simp: send_start_def send_inv_def send_simps split: option.split)
next
  case (call_retry s selected entry key)
  then show ?case
    by (auto simp: retryMessage_def run_start_def Let_def send_inv_def send_simps split: option.split)
next
  case (call_clear_draft s)
  then show ?case by (simp add: clearDraft_def send_inv_def send_simps send_ok_no_draft)
qed (auto simp: send_inv_def send_simps reconnectActiveProfile_def active_operation_start_def beginAddAppliance_def
    onboardingMutation_def forgetInactiveProfile_def cancelOnboarding_def upsertContact_def clearProfileOperation_def
    sync_def loadActivity_def loadRadioTrace_def activity_settles_def trace_settles_def run_start_def Let_def split: option.split)

lemma send_inv_end_task:
  assumes "send_inv s" and "t \<in> set (se_tasks s)" and "lock_inv s"
  shows "send_inv (end_task t s)" and "send_task_ok (filter is_send_event (se_log (end_task t s))) (se_draft (end_task t s)) t"
    and "is_send_task t \<Longrightarrow> fst (snd (send_view (end_task t s))) = []"
proof -
  have "set (filter is_send_task (remove1 t (se_tasks s))) \<subseteq> set (filter is_send_task (se_tasks s))"
    using set_remove1_subset by fastforce
  then show "send_inv (end_task t s)"
    using assms(1) unfolding send_inv_def send_ok_def send_view_def end_task_def by auto
  show "send_task_ok (filter is_send_event (se_log (end_task t s))) (se_draft (end_task t s)) t"
  proof (cases "is_send_task t")
    case True
    then have "t \<in> set (filter is_send_task (se_tasks s))" using assms(2) by simp
    then show ?thesis using assms(1) by (auto simp: send_inv_def send_ok_def send_view_def end_task_def)
  next
    case False
    then show ?thesis by (cases t) simp_all
  qed
  show "fst (snd (send_view (end_task t s))) = []" if "is_send_task t"
  proof -
    have sub: "is_send_task u \<Longrightarrow> holds_lock u" for u by (cases u) simp_all
    have "filter holds_lock (se_tasks (end_task t s)) = []"
      using lock_view_end_task [OF assms(3,2)] sub [OF that] by (simp add: lock_view_def)
    then show ?thesis using sub by (auto simp: send_view_def filter_empty_conv)
  qed
qed

text \<open>The three invariants together.\<close>

definition session_inv :: "session \<Rightarrow> bool" where
  "session_inv s \<longleftrightarrow> lock_inv s \<and> scope_inv s \<and> send_inv s"

lemma session_step_inv: "session_step k s s' \<Longrightarrow> session_inv s \<Longrightarrow> session_inv s'"
proof -
  assume step: "session_step k s s'" and inv: "session_inv s"
  have "send_inv s'"
    using step
  proof cases
    case session_called
    then show ?thesis using inv session_call_send by (simp add: session_inv_def)
  next
    case (session_resumed t)
    then show ?thesis
      using inv session_resume_send send_inv_end_task unfolding session_inv_def by blast
  qed
  moreover have "lock_inv s'" using session_step_lock_inv [OF step] inv by (simp add: session_inv_def)
  moreover have "scope_inv s'" using session_step_scope [OF step] inv by (simp add: session_inv_def)
  ultimately show ?thesis by (simp add: session_inv_def)
qed

lemma session_new_inv: "session_inv session_new"
  by (simp add: session_inv_def lock_inv_def scope_inv_def reads_scoped_def shown_scoped_def send_inv_def send_ok_def send_view_def
      session_new_def)

interpretation session: step_invariant "session_step k" session_inv for k
  by unfold_locales (rule session_step_inv)

lemma sends_ok_filter: "sends_ok (filter is_send_event l) = sends_ok l"
proof (induction l)
  case (Cons e l)
  then show ?case by (cases e) (auto simp: accepted_keys_def)
qed simp

section \<open>The identity of a retry\<close>

text \<open>The request of the last retry of a row that was neither accepted nor left behind with its profile.\<close>

fun open_retry :: "jstring \<Rightarrow> session_event list \<Rightarrow> RetrySendRequest option" where
  "open_retry ck [] = None"
| "open_retry ck (CalledRetry ck' r # l) = (if ck' = ck then Some r else open_retry ck l)"
| "open_retry ck (RetryAccepted ck' # l) = (if ck' = ck then None else open_retry ck l)"
| "open_retry ck (ScopeCleared # l) = None"
| "open_retry ck (_ # l) = open_retry ck l"

fun retries_ok :: "session_event list \<Rightarrow> bool" where
  "retries_ok [] = True"
| "retries_ok (CalledRetry ck r # l) = (retries_ok l \<and> (\<forall>q. open_retry ck l = Some q \<longrightarrow> q = r))"
| "retries_ok (_ # l) = retries_ok l"

fun is_retry_event :: "session_event \<Rightarrow> bool" where
  "is_retry_event (CalledRetry _ _) = True"
| "is_retry_event (RetryAccepted _) = True"
| "is_retry_event ScopeCleared = True"
| "is_retry_event _ = False"

lemma open_retry_filter: "open_retry ck (filter is_retry_event l) = open_retry ck l"
  by (induction ck l rule: open_retry.induct) simp_all

lemma retries_ok_filter: "retries_ok (filter is_retry_event l) = retries_ok l"
  by (induction l rule: retries_ok.induct) (simp_all add: open_retry_filter)

definition retry_view :: "session \<Rightarrow> (jstring \<times> RetrySendRequest) list \<times> session_event list" where
  "retry_view s = (se_retries s, filter is_retry_event (se_log s))"

definition retry_ok :: "(jstring \<times> RetrySendRequest) list \<times> session_event list \<Rightarrow> bool" where
  "retry_ok = (\<lambda>(cache, l). retries_ok l \<and> (\<forall>ck r. open_retry ck l = Some r \<longrightarrow> map_of cache ck = Some r))"

definition retry_inv :: "session \<Rightarrow> bool" where
  "retry_inv s \<longleftrightarrow> retry_ok (retry_view s)"

named_theorems retry_simps

lemma retry_view_prims [retry_simps]:
  "retry_view (log_event e s) = (fst (retry_view s), (if is_retry_event e then [e] else []) @ snd (retry_view s))"
  "retry_view (set_error x s) = retry_view s"
  "retry_view (set_operation p s) = retry_view s"
  "retry_view (set_profiles q s) = retry_view s"
  "retry_view (take_lock s) = retry_view s"
  "retry_view (release_lock s) = retry_view s"
  "retry_view (invalidate_timeline s) = retry_view s"
  "retry_view (invalidate_refresh s) = retry_view s"
  "retry_view (select_conversation d s) = retry_view s"
  "retry_view (set_adding b s) = retry_view s"
  "retry_view (show_timeline d2 era entries s) = retry_view s"
  "retry_view (add_task t s) = retry_view s"
  "retry_view (end_task t s) = retry_view s"
  by (simp_all add: retry_view_def log_event_def set_error_def set_operation_def set_profiles_def take_lock_def release_lock_def
      invalidate_timeline_def invalidate_refresh_def select_conversation_def set_adding_def show_timeline_def add_task_def
      end_task_def)

lemma retry_view_fields [retry_simps]:
  "retry_view (s\<lparr>se_draft := a\<rparr>) = retry_view s"
  "retry_view (s\<lparr>se_retries := b\<rparr>) = (b, snd (retry_view s))"
  "retry_view (s\<lparr>se_notificationEpoch := c\<rparr>) = retry_view s"
  "retry_view (s\<lparr>se_expected := d\<rparr>) = retry_view s"
  "retry_view (s\<lparr>se_sendRefreshes := e\<rparr>) = retry_view s"
  "retry_view (s\<lparr>se_snapshot := f\<rparr>) = retry_view s"
  "retry_view (s\<lparr>se_activity := g\<rparr>) = retry_view s"
  "retry_view (s\<lparr>se_trace := h\<rparr>) = retry_view s"
  "retry_view (s\<lparr>se_mutation := i\<rparr>) = retry_view s"
  "retry_view (s\<lparr>se_refreshRequests := j\<rparr>) = retry_view s"
  "retry_view (s\<lparr>se_timelineRequests := l\<rparr>) = retry_view s"
  "retry_view (s\<lparr>se_onboarding := m, se_profiles := n\<rparr>) = retry_view s"
  "retry_view (s\<lparr>se_snapshot := o', se_contacts := p, se_conversations := q, se_listsOf := r\<rparr>) = retry_view s"
  "retry_view (s\<lparr>se_draft := t, se_mutation := u\<rparr>) = retry_view s"
  by (simp_all add: retry_view_def)

lemma retry_view_clear_scope [retry_simps]: "retry_view (clear_scope s) = ([], ScopeCleared # snd (retry_view s))"
  by (simp add: retry_view_def clear_scope_def log_event_def select_conversation_def invalidate_timeline_def)

lemma retry_view_starts [retry_simps]:
  "retry_view (refresh c s) = retry_view s"
  "retry_view (begin_timeline task s) = retry_view s"
  by (simp_all add: refresh_def begin_timeline_def lr_begin_def Let_def retry_simps)

lemma retry_view_ends [retry_simps]:
  "retry_view (active_operation_ends m a b c s) = retry_view s"
  "retry_view (forget_ends key label removed f a r n s) = retry_view s"
  "retry_view (activate_ends key label f p a r s) = retry_view s"
  by (simp_all add: active_operation_ends_def forget_ends_def activate_ends_def Let_def retry_simps split: option.split)

lemma retry_ok_cleared: "retry_ok v \<Longrightarrow> retry_ok ([], ScopeCleared # snd v)"
  by (cases v) (simp add: retry_ok_def)

lemma retry_ok_accepted: "retry_ok v \<Longrightarrow> retry_ok (AList.delete ck (fst v), RetryAccepted ck # snd v)"
  by (cases v) (auto simp: retry_ok_def AList.delete_conv')

text \<open>A row is retried with the request kept for it, or with a new one that is kept when none was.\<close>

lemma retry_ok_again: "retry_ok v \<Longrightarrow> map_of (fst v) ck = Some r \<Longrightarrow> retry_ok (fst v, CalledRetry ck r # snd v)"
  by (cases v) (auto simp: retry_ok_def)

lemma retry_ok_kept: "retry_ok v \<Longrightarrow> map_of (fst v) ck = None \<Longrightarrow> retry_ok ((ck, r) # fst v, snd v)"
  by (cases v) (auto simp: retry_ok_def)

lemma se_retries_view: "se_retries s = fst (retry_view s)"
  by (simp add: retry_view_def)

lemma refresh_returns_retry: "retry_inv s \<Longrightarrow> retry_inv (refresh_returns k c f s)"
  by (cases c)
    (auto simp: refresh_returns_def retry_inv_def retry_simps Let_def retry_ok_accepted se_retries_view
      split: option.split run_then.split)

lemma refresh_throws_retry: "retry_inv s \<Longrightarrow> retry_inv (refresh_throws k g c e s)"
  by (simp add: refresh_throws_def refresh_returns_retry)

lemma session_resume_retry: "session_resume k t s s' \<Longrightarrow> retry_inv s \<Longrightarrow> retry_inv s'"
proof (induction rule: session_resume.induct)
  case (resume_identity ires g c s)
  then show ?case
    by (auto simp: refresh_identity_def Let_def retry_simps split: settled.split option.split
        intro!: refresh_returns_retry refresh_throws_retry)
      (auto simp: retry_inv_def retry_simps retry_ok_cleared)
next
  case (resume_not_ready g c s sres)
  then show ?case
    by (auto simp: refresh_not_ready_def split: settled.split intro!: refresh_returns_retry refresh_throws_retry)
      (simp add: retry_inv_def retry_simps)
next
  case (resume_lists g c era sel s lres tlres)
  then show ?case
    by (auto simp: refresh_lists_def Let_def split: settled.split option.split
        intro!: refresh_returns_retry refresh_throws_retry)
      (auto simp: retry_inv_def retry_simps)
next
  case (resume_run operation continuation s ures)
  then show ?case
    by (auto simp: run_settles_def run_operation_effect_def retry_inv_def retry_simps
        split: settled.split run_operation.split)
next
  case (resume_send_prepared key s d title content attach retained now locres)
  then show ?case by (auto simp: send_prepared_def Let_def retry_inv_def retry_simps split: sum.split)
next
  case (resume_send request submission s ores)
  then show ?case by (auto simp: send_settles_def Let_def retry_inv_def retry_simps split: settled.split)
next
  case (resume_send_timeline g d era s tlres)
  then show ?case by (auto simp: send_timeline_settles_def Let_def retry_inv_def retry_simps split: settled.split)
next
  case (resume_choose g d era s tlres)
  then show ?case by (auto simp: choose_settles_def retry_inv_def retry_simps split: settled.split)
qed (auto simp: retry_inv_def retry_simps active_operation_settles_def active_profiles_settles_def forget_settles_def
    forget_profiles_settles_def forget_ledger_settles_def activate_settles_def activate_profiles_settles_def
    activate_profiles_again_settles_def split: settled.split option.split)

lemma session_call_retry: "session_call k s s' \<Longrightarrow> retry_inv s \<Longrightarrow> retry_inv s'"
proof (induction rule: session_call.induct)
  case (call_activate s key)
  then show ?case
    by (auto simp: activateApplianceProfile_def activateProfileWithAuthority_def Let_def retry_inv_def retry_simps
        retry_ok_cleared)
next
  case (call_switch s key)
  then show ?case
    by (auto simp: switchToKnownProfile_def activateProfileWithAuthority_def Let_def retry_inv_def retry_simps
        retry_ok_cleared)
next
  case (call_retry s selected entry key)
  have "retry_ok ((ck, r) # fst (retry_view s), CalledRetry ck r # snd (retry_view s))"
    if "map_of (fst (retry_view s)) ck = None" for ck r
    using call_retry that retry_ok_again [OF retry_ok_kept, of "retry_view s" ck r ck r] by (simp add: retry_inv_def)
  then show ?case
    using call_retry
    by (auto simp: retryMessage_def run_start_def Let_def retry_inv_def retry_simps se_retries_view retry_ok_kept
        retry_ok_again split: option.split)
qed (auto simp: retry_inv_def retry_simps reconnectActiveProfile_def active_operation_start_def beginAddAppliance_def
    onboardingMutation_def forgetInactiveProfile_def cancelOnboarding_def upsertContact_def clearProfileOperation_def
    chooseContact_def send_start_def clearDraft_def sync_def loadActivity_def loadRadioTrace_def activity_settles_def
    trace_settles_def run_start_def Let_def split: option.split)

lemma session_step_retry: "session_step k s s' \<Longrightarrow> retry_inv s \<Longrightarrow> retry_inv s'"
proof (erule session_stepE)
  show "retry_inv s'" if "retry_inv s" "session_call k s s'" using that session_call_retry by blast
next
  fix t
  assume "retry_inv s" "session_resume k t (end_task t s) s'"
  then show "retry_inv s'"
    using session_resume_retry [of k t "end_task t s" s'] by (simp add: retry_inv_def retry_simps)
qed

interpretation retry: step_invariant "session_step k" retry_inv for k
  by unfold_locales (rule session_step_retry)

end
