(* ===== verification/ApplianceSessionProperties.thy ===== *)
theory ApplianceSessionProperties
  imports ApplianceSessionProofs
begin

text \<open>
  The properties of the session of \<open>lib/appliance-context.tsx\<close>, each over every state that the calls of the handlers
  and the settlements of the client, in any order, can reach.
\<close>

section \<open>Runs\<close>

definition session_reach :: "client_features \<Rightarrow> session \<Rightarrow> bool" where
  "session_reach k s \<longleftrightarrow> (session_step k)\<^sup>*\<^sup>* session_new s"

lemma session_reach_new: "session_reach k session_new"
  by (simp add: session_reach_def)

lemma session_reach_call: "session_reach k s \<Longrightarrow> session_call k s s' \<Longrightarrow> session_reach k s'"
  unfolding session_reach_def by (meson rtranclp.rtrancl_into_rtrancl session_called)

lemma session_reach_resume:
  "session_reach k s \<Longrightarrow> t \<in> set (se_tasks s) \<Longrightarrow> session_resume k t (end_task t s) s' \<Longrightarrow> session_reach k s'"
  unfolding session_reach_def by (meson rtranclp.rtrancl_into_rtrancl session_resumed)

lemma session_reach_inv: "session_reach k s \<Longrightarrow> session_inv s"
  unfolding session_reach_def by (rule session.reach_inv [OF _ session_new_inv])

lemma session_reach_retry: "session_reach k s \<Longrightarrow> retry_inv s"
  unfolding session_reach_def
  by (erule retry.reach_inv) (simp add: retry_inv_def retry_ok_def retry_view_def session_new_def)

text \<open>Every task can settle: whatever it waits for may be answered.\<close>

lemma fresh_key: "\<exists>key. key \<notin> sent_keys l"
proof -
  have "finite (sent_keys l)"
  proof (rule finite_subset)
    show "sent_keys l \<subseteq> (\<lambda>e. case e of CalledSend r \<Rightarrow> sr_idempotency_key r | _ \<Rightarrow> []) ` set l"
      by (force simp: sent_keys_def)
  qed simp
  then show ?thesis by (metis ex_new_if_finite infinite_UNIV_listI)
qed

lemma profiles_answerable: "\<exists>p. profiles_answer k (Fulfilled p)"
  by (cases "cf_profiles k") (auto simp: profiles_answer_def intro: exI [of _ None] exI [of _ "Some undefined"])

lemma session_resume_enabled: "\<exists>s'. session_resume k t s s'"
proof (cases t)
  case (RefreshIdentity g c)
  obtain p where "profiles_answer k (Fulfilled p)" using profiles_answerable by blast
  then show ?thesis unfolding RefreshIdentity by (auto intro!: exI resume_identity [where ires = "Fulfilled (undefined, p)"])
next
  case (SendPreparing d title content attach retained)
  then show ?thesis using fresh_key [of "se_log s"] resume_send_prepared by blast
qed (use profiles_answerable [of k] in \<open>blast intro: session_resume.intros\<close>)+

text \<open>The events of the log, read backwards in time.\<close>

lemma sends_ok_tail: "sends_ok (later @ l) \<Longrightarrow> sends_ok l"
proof (induction later)
  case (Cons e later)
  then show ?case by (cases e) simp_all
qed simp

lemma retries_ok_tail: "retries_ok (later @ l) \<Longrightarrow> retries_ok l"
proof (induction later)
  case (Cons e later)
  then show ?case by (cases e) simp_all
qed simp

lemma session_reach_sends: "session_reach k s \<Longrightarrow> sends_ok (se_log s)"
  using session_reach_inv [of k s]
  by (simp add: session_inv_def send_inv_def send_ok_def send_view_def sends_ok_filter)

lemma session_reach_retries: "session_reach k s \<Longrightarrow> retries_ok (se_log s)"
  using session_reach_retry [of k s] by (simp add: retry_inv_def retry_ok_def retry_view_def retries_ok_filter)

section \<open>What forgetting a profile returns\<close>

fun is_forget_result :: "session_event \<Rightarrow> bool" where
  "is_forget_result (ForgetReturned _ _) = True"
| "is_forget_result _ = False"

definition forget_view :: "session \<Rightarrow> session_event list" where
  "forget_view s = filter is_forget_result (se_log s)"

definition forget_moved :: "session_task list \<Rightarrow> session_event list \<Rightarrow> session_event list \<Rightarrow> bool" where
  "forget_moved tasks l l' \<longleftrightarrow> l' = l \<or> (\<exists>key. l' = ForgetReturned key False # l) \<or>
     (\<exists>key label failure. ForgetLedger key label (Some failure) None None \<in> set tasks \<and> l' = ForgetReturned key True # l)"

named_theorems forget_simps

lemma forget_view_prims [forget_simps]:
  "forget_view (log_event e s) = (if is_forget_result e then [e] else []) @ forget_view s"
  "forget_view (set_error x s) = forget_view s"
  "forget_view (set_operation p s) = forget_view s"
  "forget_view (set_profiles q s) = forget_view s"
  "forget_view (take_lock s) = forget_view s"
  "forget_view (release_lock s) = forget_view s"
  "forget_view (invalidate_timeline s) = forget_view s"
  "forget_view (invalidate_refresh s) = forget_view s"
  "forget_view (select_conversation d s) = forget_view s"
  "forget_view (set_adding b s) = forget_view s"
  "forget_view (show_timeline d2 era entries s) = forget_view s"
  "forget_view (add_task t s) = forget_view s"
  "forget_view (end_task t s) = forget_view s"
  "forget_view (clear_scope s) = forget_view s"
  by (simp_all add: forget_view_def log_event_def set_error_def set_operation_def set_profiles_def take_lock_def release_lock_def
      invalidate_timeline_def invalidate_refresh_def select_conversation_def set_adding_def show_timeline_def add_task_def
      end_task_def clear_scope_def)

lemma forget_view_fields [forget_simps]:
  "forget_view (s\<lparr>se_draft := a\<rparr>) = forget_view s"
  "forget_view (s\<lparr>se_retries := b\<rparr>) = forget_view s"
  "forget_view (s\<lparr>se_notificationEpoch := c\<rparr>) = forget_view s"
  "forget_view (s\<lparr>se_expected := d\<rparr>) = forget_view s"
  "forget_view (s\<lparr>se_sendRefreshes := e\<rparr>) = forget_view s"
  "forget_view (s\<lparr>se_snapshot := f\<rparr>) = forget_view s"
  "forget_view (s\<lparr>se_activity := g\<rparr>) = forget_view s"
  "forget_view (s\<lparr>se_trace := h\<rparr>) = forget_view s"
  "forget_view (s\<lparr>se_mutation := i\<rparr>) = forget_view s"
  "forget_view (s\<lparr>se_refreshRequests := j\<rparr>) = forget_view s"
  "forget_view (s\<lparr>se_timelineRequests := l\<rparr>) = forget_view s"
  "forget_view (s\<lparr>se_onboarding := m, se_profiles := n\<rparr>) = forget_view s"
  "forget_view (s\<lparr>se_snapshot := o', se_contacts := p, se_conversations := q, se_listsOf := r\<rparr>) = forget_view s"
  "forget_view (s\<lparr>se_draft := t, se_mutation := u\<rparr>) = forget_view s"
  by (simp_all add: forget_view_def)

lemma forget_view_starts [forget_simps]:
  "forget_view (refresh c s) = forget_view s"
  "forget_view (begin_timeline task s) = forget_view s"
  by (simp_all add: refresh_def begin_timeline_def lr_begin_def Let_def forget_simps)

lemma forget_view_ends [forget_simps]:
  "forget_view (active_operation_ends m a b c s) = forget_view s"
  "forget_view (activate_ends key label f p a r s) = forget_view s"
  "forget_view (forget_ends key label removed f a r n s) = ForgetReturned key (forget_failure removed f a r n = None) # forget_view s"
  by (simp_all add: active_operation_ends_def forget_ends_def activate_ends_def Let_def forget_simps split: option.split)

lemma first_failure_None: "first_failure fs = None \<longleftrightarrow> (\<forall>f \<in> set fs. f = None)"
  by (induction fs) (auto simp: first_failure_def List.map_filter_simps split: option.split)

lemma forget_failure_None:
  "forget_failure removed f a r n = None \<longleftrightarrow> removed \<and> f \<noteq> None \<and> a = None \<and> r = None \<and> n = None"
  by (auto simp: forget_failure_def first_failure_None)

lemma forget_moved_refl: "forget_moved tasks l l"
  by (simp add: forget_moved_def)

lemma refresh_returns_forget: "forget_view s = l \<Longrightarrow> forget_moved tasks l (forget_view (refresh_returns k c f s))"
  by (cases c)
    (auto simp: refresh_returns_def forget_simps forget_moved_def forget_failure_None Let_def split: option.split run_then.split)

lemma refresh_throws_forget: "forget_view s = l \<Longrightarrow> forget_moved tasks l (forget_view (refresh_throws k g c e s))"
  by (simp add: refresh_throws_def refresh_returns_forget)

lemma session_resume_forget:
  "session_resume k t s s' \<Longrightarrow> t \<in> set tasks \<Longrightarrow> forget_moved tasks (forget_view s) (forget_view s')"
proof (induction rule: session_resume.induct)
  case (resume_identity ires g c s)
  then show ?case
    by (auto simp: refresh_identity_def Let_def split: settled.split option.split
        intro!: refresh_returns_forget refresh_throws_forget)
      (auto simp: forget_moved_refl forget_simps)
next
  case (resume_not_ready g c s sres)
  then show ?case
    by (auto simp: refresh_not_ready_def forget_simps split: settled.split intro!: refresh_returns_forget refresh_throws_forget)
next
  case (resume_lists g c era sel s lres tlres)
  then show ?case
    by (auto simp: refresh_lists_def Let_def forget_simps split: settled.split option.split
        intro!: refresh_returns_forget refresh_throws_forget)
next
  case (resume_run operation continuation s ures)
  then show ?case
    by (auto simp: run_settles_def run_operation_effect_def forget_moved_refl forget_simps
        split: settled.split run_operation.split)
next
  case (resume_forget_ledger key label f a r s ures)
  then show ?case
    by (auto simp: forget_ledger_settles_def forget_moved_def forget_simps forget_failure_None split: settled.split) blast
next
  case (resume_send_prepared key s d title content attach retained now locres)
  then show ?case by (auto simp: send_prepared_def Let_def forget_moved_refl forget_simps split: sum.split)
next
  case (resume_send request submission s ores)
  then show ?case by (auto simp: send_settles_def Let_def forget_moved_refl forget_simps split: settled.split)
next
  case (resume_send_timeline g d era s tlres)
  then show ?case by (auto simp: send_timeline_settles_def Let_def forget_moved_refl forget_simps split: settled.split)
next
  case (resume_choose g d era s tlres)
  then show ?case by (auto simp: choose_settles_def forget_moved_refl forget_simps split: settled.split)
qed (auto simp: forget_moved_refl forget_simps active_operation_settles_def active_profiles_settles_def forget_settles_def
    forget_profiles_settles_def activate_settles_def activate_profiles_settles_def
    activate_profiles_again_settles_def split: settled.split option.split)

lemma session_call_forget: "session_call k s s' \<Longrightarrow> forget_view s' = forget_view s"
proof (induction rule: session_call.induct)
  case (call_activate s key)
  then show ?case
    by (auto simp: activateApplianceProfile_def activateProfileWithAuthority_def Let_def forget_simps)
next
  case (call_switch s key)
  then show ?case
    by (auto simp: switchToKnownProfile_def activateProfileWithAuthority_def Let_def forget_simps)
next
  case (call_retry s selected entry key)
  then show ?case by (auto simp: retryMessage_def run_start_def Let_def forget_simps split: option.split)
qed (auto simp: forget_simps reconnectActiveProfile_def active_operation_start_def beginAddAppliance_def
    onboardingMutation_def forgetInactiveProfile_def cancelOnboarding_def upsertContact_def clearProfileOperation_def
    chooseContact_def send_start_def clearDraft_def sync_def loadActivity_def loadRadioTrace_def activity_settles_def
    trace_settles_def run_start_def Let_def split: option.split)

lemma session_step_forget: "session_step k s s' \<Longrightarrow> forget_moved (se_tasks s) (forget_view s) (forget_view s')"
proof (erule session_stepE)
  assume "session_call k s s'"
  then show ?thesis by (simp add: session_call_forget forget_moved_refl)
next
  fix t
  assume "t \<in> set (se_tasks s)" "session_resume k t (end_task t s) s'"
  then show ?thesis using session_resume_forget [of k t "end_task t s" s' "se_tasks s"] by (simp add: forget_simps)
qed

section \<open>A session\<close>

text \<open>
  A conversation is chosen, a message is sent with a location, the text is edited while the location is captured, the client
  fails without an answer, and the edited message is sent.
\<close>

definition demo_features :: client_features where
  "demo_features = \<lparr>cf_profiles = True, cf_activateProfile = True, cf_forgetProfile = True, cf_beginAddAppliance = True,
     cf_radioTrace = True\<rparr>"

definition demo_peer :: jstring where
  "demo_peer = js ''aa''"

definition demo_location :: MessageLocationView where
  "demo_location = \<lparr>ml_latitude_e6 = 1, ml_longitude_e6 = 2, ml_altitude_cm = 0, ml_speed_cm_per_second = 0,
     ml_bearing_centidegrees = 0, ml_accuracy_cm = 5, ml_updated_at_unix_seconds = 9\<rparr>"

definition demo_chosen :: session where
  "demo_chosen = chooseContact demo_peer session_new"

definition demo_sending :: session where
  "demo_sending = send_start (Some demo_peer) [] (js ''one'') True demo_chosen"

definition demo_edited :: session where
  "demo_edited = clearDraft demo_sending"

abbreviation demo_preparing :: "jstring \<Rightarrow> DraftSubmission option \<Rightarrow> session_task" where
  "demo_preparing content retained \<equiv> SendPreparing demo_peer [] content True retained"

definition demo_submission :: DraftSubmission where
  "demo_submission = \<lparr>ds_attachLocation = True, ds_identity = \<lparr>dr_idempotencyKey = js ''k1'', dr_timestampMs = 7\<rparr>,
     ds_location = Some demo_location\<rparr>"

definition demo_sent :: session where
  "demo_sent = send_prepared demo_peer [] (js ''one'') True None (js ''k1'') 7 (Fulfilled demo_location)
     (end_task (demo_preparing (js ''one'') None) demo_edited)"

abbreviation demo_request :: "jstring \<Rightarrow> SendRequest" where
  "demo_request content \<equiv> send_request demo_peer [] content demo_submission"

definition demo_failed :: session where
  "demo_failed = send_settles (demo_request (js ''one'')) demo_submission (Rejected (ErrorObject (js ''timeout'')))
     (end_task (SendWaiting (demo_request (js ''one'')) demo_submission) demo_sent)"

definition demo_again :: session where
  "demo_again = send_start (Some demo_peer) [] (js ''two'') True demo_failed"

definition demo_resent :: session where
  "demo_resent = send_prepared demo_peer [] (js ''two'') True (Some demo_submission) (js ''k2'') 8 (Fulfilled demo_location)
     (end_task (demo_preparing (js ''two'') (Some demo_submission)) demo_again)"

lemmas demo_session = demo_features_def demo_peer_def demo_location_def demo_chosen_def demo_sending_def demo_edited_def
  demo_submission_def demo_sent_def demo_failed_def demo_again_def demo_resent_def

lemma demo_chosen_reach: "session_reach k demo_chosen"
  unfolding demo_chosen_def by (rule session_reach_call [OF session_reach_new call_choose])

lemma demo_sending_reach: "session_reach k demo_sending"
  unfolding demo_sending_def by (rule session_reach_call [OF demo_chosen_reach call_send])

lemma demo_sent_reach: "session_reach k demo_sent"
  unfolding demo_sent_def
proof (rule session_reach_resume)
  show "session_reach k demo_edited"
    unfolding demo_edited_def by (rule session_reach_call [OF demo_sending_reach call_clear_draft])
  show "demo_preparing (js ''one'') None \<in> set (se_tasks demo_edited)" by code_simp
  have "se_log (end_task (demo_preparing (js ''one'') None) demo_edited) = []" by code_simp
  then show "session_resume k (demo_preparing (js ''one'') None) (end_task (demo_preparing (js ''one'') None) demo_edited)
      (send_prepared demo_peer [] (js ''one'') True None (js ''k1'') 7 (Fulfilled demo_location)
        (end_task (demo_preparing (js ''one'') None) demo_edited))"
    by (intro resume_send_prepared) (simp add: sent_keys_def)
qed

lemma demo_resent_reach: "session_reach k demo_resent"
  unfolding demo_resent_def
proof (rule session_reach_resume)
  have "SendWaiting (demo_request (js ''one'')) demo_submission \<in> set (se_tasks demo_sent)" by code_simp
  then have "session_reach k demo_failed"
    unfolding demo_failed_def by (rule session_reach_resume [OF demo_sent_reach _ resume_send])
  then show "session_reach k demo_again"
    unfolding demo_again_def by (rule session_reach_call [OF _ call_send])
  show "demo_preparing (js ''two'') (Some demo_submission) \<in> set (se_tasks demo_again)" by code_simp
  have "se_log (end_task (demo_preparing (js ''two'') (Some demo_submission)) demo_again) = [CalledSend (demo_request (js ''one''))]"
    by code_simp
  moreover have "sr_idempotency_key (demo_request (js ''one'')) \<noteq> js ''k2''" by code_simp
  ultimately show "session_resume k (demo_preparing (js ''two'') (Some demo_submission))
      (end_task (demo_preparing (js ''two'') (Some demo_submission)) demo_again)
      (send_prepared demo_peer [] (js ''two'') True (Some demo_submission) (js ''k2'') 8 (Fulfilled demo_location)
        (end_task (demo_preparing (js ''two'') (Some demo_submission)) demo_again))"
    by (intro resume_send_prepared) (simp add: sent_keys_def)
qed

text \<open>A row of the timeline is shown and retried; the retry fails without an answer and is made again.\<close>

definition demo_entry :: TimelineView where
  "demo_entry = \<lparr>tv_sequence = 1, tv_direction = Outbound, tv_timestamp_ms = 5, tv_message_id = None, tv_outbox_id = Some 3,
     tv_submission_id = None, tv_current_attempt_number = None, tv_status = Some StatusFailedNoPath, tv_packet_evidence = None,
     tv_ingress_observation = None, tv_receiver_location = None, tv_location = None, tv_title = BytesUtf8 [], tv_content = BytesUtf8 (js ''hi'')\<rparr>"

definition demo_shown :: session where
  "demo_shown = choose_settles 1 demo_peer 0 (Fulfilled [demo_entry]) (end_task (ChooseTimeline 1 demo_peer 0) demo_chosen)"

definition demo_row :: jstring where
  "demo_row = retryMessageCacheKey demo_peer demo_entry"

definition demo_retry :: RetrySendRequest where
  "demo_retry = \<lparr>rq_outbox_id = 3, rq_idempotency_key = js ''r1''\<rparr>"

definition demo_retried :: session where
  "demo_retried = retryMessage (Some demo_peer) demo_entry (js ''r1'') demo_shown"

definition demo_retry_failed :: session where
  "demo_retry_failed = run_settles (RunRetry demo_retry) (ThenForgetRetry demo_row) (Rejected (ErrorObject (js ''timeout'')))
     (end_task (RunOperation (RunRetry demo_retry) (ThenForgetRetry demo_row)) demo_retried)"

definition demo_retried_again :: session where
  "demo_retried_again = retryMessage (Some demo_peer) demo_entry (js ''r2'') demo_retry_failed"

definition demo_retry_log :: "session_event list" where
  "demo_retry_log = [CalledRun (RunRetry demo_retry), CalledRetry demo_row demo_retry, CalledRun (RunRetry demo_retry)]"

definition demo_forgetting :: session where
  "demo_forgetting = session_new\<lparr>se_tasks :=
     [ForgetLedger (js ''aa'') (js ''Board'') (Some (ErrorObject (js ''locked''))) None None]\<rparr>"

lemma demo_shown_reach: "session_reach k demo_shown"
proof -
  have "ChooseTimeline 1 demo_peer 0 \<in> set (se_tasks demo_chosen)" by code_simp
  then show ?thesis unfolding demo_shown_def by (rule session_reach_resume [OF demo_chosen_reach _ resume_choose])
qed

lemma demo_retried_again_reach: "session_reach k demo_retried_again"
proof -
  have retried: "session_reach k demo_retried"
    unfolding demo_retried_def by (rule session_reach_call [OF demo_shown_reach call_retry])
  have "RunOperation (RunRetry demo_retry) (ThenForgetRetry demo_row) \<in> set (se_tasks demo_retried)" by code_simp
  then have "session_reach k demo_retry_failed"
    unfolding demo_retry_failed_def by (rule session_reach_resume [OF retried _ resume_run])
  then show ?thesis unfolding demo_retried_again_def by (rule session_reach_call [OF _ call_retry])
qed

section \<open>Properties\<close>

text \<open>
  C2. One mutation at a time, and none of them keeps the lock for ever: in every reachable session the lock flag is set
  exactly while one task that owns it is pending, and no other task owns it. While it is set, the owner can
  always settle; its settlement frees the lock or leaves an owner with fewer settlements ahead, at most five in
  all; and every other step leaves the owner in place.
\<close>

theorem session_one_mutation:
  assumes "session_reach k s"
  shows "if se_mutation s
    then \<exists>t. filter holds_lock (se_tasks s) = [t] \<and> lock_rank t \<le> 5 \<and> (\<exists>s'. session_resume k t (end_task t s) s') \<and>
      (\<forall>s'. session_resume k t (end_task t s) s' \<longrightarrow> lock_passed (lock_rank t) s') \<and>
      (\<forall>s'. session_step k s s' \<longrightarrow> lock_view s' = ([t], True) \<or> lock_passed (lock_rank t) s')
    else filter holds_lock (se_tasks s) = []"
proof (cases "se_mutation s")
  case True
  have inv: "lock_inv s" using session_reach_inv [OF assms] by (simp add: session_inv_def)
  then obtain t where view: "lock_view s = ([t], True)" using True by (auto simp: lock_inv_view lock_view_def)
  then have t: "filter holds_lock (se_tasks s) = [t]" by (simp add: lock_view_def)
  then have mem: "t \<in> set (se_tasks s)" "holds_lock t" by (metis (mono_tags, lifting) filter_eq_ConsD in_set_conv_decomp)+
  have "lock_rank t \<le> 5" by (cases t) simp_all
  moreover have "lock_passed (lock_rank t) s'" if "session_resume k t (end_task t s) s'" for s'
    using session_resume_lock [OF that] lock_view_end_task [OF inv mem(1)] mem(2) by (simp add: lock_resumed_def)
  moreover have "lock_view s' = ([t], True) \<or> lock_passed (lock_rank t) s'" if "session_step k s s'" for s'
    using that inv by (rule session_step_lock) (use view in auto)
  ultimately show ?thesis using True t session_resume_enabled by auto
next
  case False
  then show ?thesis using session_reach_inv [OF assms] by (simp add: session_inv_def lock_inv_def)
qed

theorem session_one_mutation_witness:
  "session_reach demo_features demo_sent \<and>
   filter holds_lock (se_tasks demo_sent) = [SendWaiting (demo_request (js ''one'')) demo_submission] \<and>
   (\<exists>t. filter holds_lock (se_tasks demo_sent) = [t] \<and> lock_rank t \<le> 5)"
proof (intro conjI)
  show reach: "session_reach demo_features demo_sent" by (rule demo_sent_reach)
  show "filter holds_lock (se_tasks demo_sent) = [SendWaiting (demo_request (js ''one'')) demo_submission]" by code_simp
  have "se_mutation demo_sent" by code_simp
  then show "\<exists>t. filter holds_lock (se_tasks demo_sent) = [t] \<and> lock_rank t \<le> 5"
    using session_one_mutation [OF reach] by auto
qed

text \<open>
  C6. The session shows nothing of another conversation or of a profile it has left: in every reachable state the
  timeline shown is empty or was read for the selected conversation since the scope of the profile was last cleared,
  and the contacts and conversations shown are empty or were read since then.
\<close>

theorem session_shows_present_scope:
  assumes "session_reach k s"
  shows "(if se_timelineOf s = None then se_timeline s = []
          else se_timelineOf s = map_option (\<lambda>d. (d, se_era s)) (se_selected s)) \<and>
         (if se_listsOf s = None then se_contacts s = [] \<and> se_conversations s = [] else se_listsOf s = Some (se_era s))"
  using session_reach_inv [OF assms] by (auto simp: session_inv_def scope_inv_def shown_scoped_def)

theorem session_shows_present_scope_witness:
  "session_reach demo_features demo_shown \<and> se_timeline demo_shown = [demo_entry] \<and>
   se_timelineOf demo_shown = map_option (\<lambda>d. (d, se_era demo_shown)) (se_selected demo_shown)"
proof (intro conjI)
  show reach: "session_reach demo_features demo_shown" by (rule demo_shown_reach)
  show "se_timeline demo_shown = [demo_entry]" by code_simp
  have "se_timelineOf demo_shown \<noteq> None" by code_simp
  then show "se_timelineOf demo_shown = map_option (\<lambda>d. (d, se_era demo_shown)) (se_selected demo_shown)"
    using session_shows_present_scope [OF reach] by simp
qed

text \<open>
  C4. A message keeps its identity until it is accepted and never has it again: whenever the session has sent a
  message, its idempotency key was not accepted before, and every earlier send under the key carried the same timestamp
  and the same location.
\<close>

theorem session_send_identity:
  assumes "session_reach k s" and "se_log s = later @ CalledSend r # earlier"
  shows "sr_idempotency_key r \<notin> accepted_keys earlier \<and>
    (\<forall>q. CalledSend q \<in> set earlier \<longrightarrow> sr_idempotency_key q = sr_idempotency_key r \<longrightarrow>
       sr_timestamp_ms q = sr_timestamp_ms r \<and> sr_location q = sr_location r)"
proof -
  have "sends_ok (CalledSend r # earlier)"
    using session_reach_sends [OF assms(1)] unfolding assms(2) by (rule sends_ok_tail)
  then show ?thesis unfolding sends_ok.simps by blast
qed

theorem session_send_identity_witness:
  "session_reach demo_features demo_resent \<and>
   se_log demo_resent = [] @ CalledSend (demo_request (js ''two'')) # [CalledSend (demo_request (js ''one''))] \<and>
   sr_idempotency_key (demo_request (js ''two'')) \<notin> accepted_keys [CalledSend (demo_request (js ''one''))] \<and>
   sr_timestamp_ms (demo_request (js ''one'')) = sr_timestamp_ms (demo_request (js ''two'')) \<and>
   sr_location (demo_request (js ''one'')) = sr_location (demo_request (js ''two''))"
proof -
  have reach: "session_reach demo_features demo_resent" by (rule demo_resent_reach)
  have log: "se_log demo_resent = [] @ CalledSend (demo_request (js ''two'')) # [CalledSend (demo_request (js ''one''))]"
    by code_simp
  have key: "sr_idempotency_key (demo_request (js ''one'')) = sr_idempotency_key (demo_request (js ''two''))" by code_simp
  show ?thesis using session_send_identity [OF reach log] reach log key by simp
qed

text \<open>
  C9. A retry keeps its request until it is accepted or the scope is cleared: whenever the session retries a row, its request,
  with the idempotency key, is that of the last retry of the row, unless that retry was accepted or the requests were
  dropped in between, as the code does on leaving the present profile and on enrolling an additional appliance.
\<close>

theorem session_retry_identity:
  assumes "session_reach k s" and "se_log s = later @ CalledRetry ck r # earlier" and "open_retry ck earlier = Some q"
  shows "r = q"
  using retries_ok_tail [of later "CalledRetry ck r # earlier"] session_reach_retries [OF assms(1)] assms(2,3) by simp

theorem session_retry_identity_witness:
  "session_reach demo_features demo_retried_again \<and>
   se_log demo_retried_again = [] @ CalledRetry demo_row demo_retry # demo_retry_log \<and>
   open_retry demo_row demo_retry_log = Some \<lparr>rq_outbox_id = 3, rq_idempotency_key = js ''r1''\<rparr> \<and>
   demo_retry = \<lparr>rq_outbox_id = 3, rq_idempotency_key = js ''r1''\<rparr>"
proof -
  have reach: "session_reach demo_features demo_retried_again" by (rule demo_retried_again_reach)
  have log: "se_log demo_retried_again = [] @ CalledRetry demo_row demo_retry # demo_retry_log" by code_simp
  have "open_retry demo_row demo_retry_log = Some \<lparr>rq_outbox_id = 3, rq_idempotency_key = js ''r1''\<rparr>" by code_simp
  then show ?thesis using session_retry_identity [OF reach log] reach log by simp
qed

text \<open>
  C20. Forgetting a profile reports success only after its deletion failed: a step that makes \<open>forgetInactiveProfile\<close>
  return true settles a deletion whose call on the client was rejected. A deletion in which every call succeeds and the store no
  longer lists the profile returns false, with the message that the store still lists it.
\<close>

theorem forget_success_inverted:
  shows "(\<forall>s s'. session_step k s s' \<and> se_log s' = ForgetReturned key True # se_log s \<longrightarrow>
      (\<exists>label failure. ForgetLedger key label (Some failure) None None \<in> set (se_tasks s))) \<and>
    (\<forall>s label. se_operation (forget_ledger_settles key label None None None (Fulfilled ()) s) =
      OperationError (js ''Could not forget '' @ label @ js '': the authoritative profile store still lists this appliance''))"
proof (intro conjI allI impI)
  fix s s'
  assume step: "session_step k s s' \<and> se_log s' = ForgetReturned key True # se_log s"
  have "forget_moved (se_tasks s) (forget_view s) (forget_view s')" by (rule session_step_forget [OF conjunct1 [OF step]])
  moreover have "forget_view s' = ForgetReturned key True # forget_view s" using step by (simp add: forget_view_def)
  ultimately show "\<exists>label failure. ForgetLedger key label (Some failure) None None \<in> set (se_tasks s)"
    by (auto simp: forget_moved_def)
next
  fix s label
  show "se_operation (forget_ledger_settles key label None None None (Fulfilled ()) s) =
      OperationError (js ''Could not forget '' @ label @ js '': the authoritative profile store still lists this appliance'')"
    by (simp add: forget_ledger_settles_def forget_ends_def forget_failure_def first_failure_def Let_def release_lock_def
        log_event_def set_operation_def List.map_filter_simps)
qed

theorem forget_success_inverted_witness:
  "(\<exists>label failure. ForgetLedger (js ''aa'') label (Some failure) None None \<in> set (se_tasks demo_forgetting)) \<and>
   se_operation (forget_ledger_settles (js ''aa'') (js ''Board'') None None None (Fulfilled ()) session_new) =
     OperationError (js ''Could not forget '' @ js ''Board'' @ js '': the authoritative profile store still lists this appliance'')"
proof -
  let ?t = "ForgetLedger (js ''aa'') (js ''Board'') (Some (ErrorObject (js ''locked''))) None None"
  let ?s = "forget_ledger_settles (js ''aa'') (js ''Board'') (Some (ErrorObject (js ''locked''))) None None (Fulfilled ())
    (end_task ?t demo_forgetting)"
  have "session_step demo_features demo_forgetting ?s"
    by (rule session_resumed [OF _ resume_forget_ledger]) (simp add: demo_forgetting_def)
  moreover have "se_log ?s = ForgetReturned (js ''aa'') True # se_log demo_forgetting" by code_simp
  ultimately have "\<exists>label failure. ForgetLedger (js ''aa'') label (Some failure) None None \<in> set (se_tasks demo_forgetting)"
    using conjunct1 [OF forget_success_inverted [of demo_features "js ''aa''"], rule_format] by metis
  then show ?thesis using conjunct2 [OF forget_success_inverted [of demo_features "js ''aa''"], rule_format] by metis
qed

section \<open>Two more observations\<close>

text \<open>Adding an appliance while another mutation holds the lock shows the enrolment but never calls the client.\<close>

lemma begin_add_skips_client:
  assumes "cf_beginAddAppliance k" and "\<not> se_adding s" and "se_mutation s"
  shows "se_adding (beginAddAppliance k s)" and "se_tasks (beginAddAppliance k s) = se_tasks s"
    and "CalledRun operation \<in> set (se_log (beginAddAppliance k s)) \<longleftrightarrow> CalledRun operation \<in> set (se_log s)"
  using assms
  by (simp_all add: beginAddAppliance_def run_start_def set_adding_def log_event_def invalidate_timeline_def
      invalidate_refresh_def)

text \<open>A text edited while the location is captured is sent under the key of the text before it.\<close>

lemma edited_message_reuses_key:
  "session_reach demo_features demo_resent"
  "CalledSend (demo_request (js ''one'')) \<in> set (se_log demo_resent)"
  "CalledSend (demo_request (js ''two'')) \<in> set (se_log demo_resent)"
  by (rule demo_resent_reach) code_simp+

end
