(* ===== verification/JsonText.thy ===== *)
theory JsonText
  imports NetworkInput JsText
begin

text \<open>
  JSON texts as the client writes and reads them: the values, \<open>JSON.stringify\<close> with and without indentation, and
  \<open>JSON.parse\<close>. A number is carried as its decimal text, which is what is written and read of it. The reader is a recursive descent
  over the text with as much fuel as the text can use; an exception is \<open>None\<close>. What is written with indentation is read back.
\<close>

section \<open>Values\<close>

datatype export_value =
  VNull
| VUndefined
| VBool bool
| VNumber jstring \<comment> \<open>a finite number, by its text\<close>
| VNonFinite jstring \<comment> \<open>\<open>NaN\<close>, \<open>Infinity\<close> or \<open>-Infinity\<close>\<close>
| VString jstring
| VArray "export_value list"
| VObject "(jstring \<times> export_value) list" \<comment> \<open>in the order of \<open>Object.entries\<close>\<close>

text \<open>\<open>JSON.stringify\<close> on a string: the short escapes, and \<^verbatim>\<open>\u\<close> escapes for the other controls and lone surrogates.\<close>

definition lower_hex_digit :: "nat \<Rightarrow> nat" where
  "lower_hex_digit v = (if v < 10 then 48 + v else 87 + v)"

definition json_u_escape :: "nat \<Rightarrow> jstring" where
  "json_u_escape c = [92, 117, lower_hex_digit (c div 4096 mod 16), lower_hex_digit (c div 256 mod 16),
     lower_hex_digit (c div 16 mod 16), lower_hex_digit (c mod 16)]"

definition json_escape_unit :: "nat \<Rightarrow> jstring" where
  "json_escape_unit c =
     (if c = 8 then [92, 98] else if c = 9 then [92, 116] else if c = 10 then [92, 110] else if c = 12 then [92, 102]
      else if c = 13 then [92, 114] else if c = 34 then [92, 34] else if c = 92 then [92, 92]
      else if c < 32 then json_u_escape c else [c])"

fun json_escape :: "jstring \<Rightarrow> jstring" where
  "json_escape [] = []"
| "json_escape [c] = (if 55296 \<le> c \<and> c \<le> 57343 then json_u_escape c else json_escape_unit c)"
| "json_escape (c # d # s) =
     (if 55296 \<le> c \<and> c \<le> 56319 \<and> 56320 \<le> d \<and> d \<le> 57343 then c # d # json_escape s
      else (if 55296 \<le> c \<and> c \<le> 57343 then json_u_escape c else json_escape_unit c) @ json_escape (d # s))"

definition json_quote :: "jstring \<Rightarrow> jstring" where
  "json_quote s = [34] @ json_escape s @ [34]"

fun is_undefined :: "export_value \<Rightarrow> bool" where
  "is_undefined VUndefined = True"
| "is_undefined _ = False"

text \<open>\<open>JSON.stringify(value)\<close>; \<open>undefined\<close> is \<open>null\<close> in an array and left out of an object.\<close>

fun json_compact :: "export_value \<Rightarrow> jstring" where
  "json_compact VNull = js ''null''"
| "json_compact VUndefined = js ''null''"
| "json_compact (VBool b) = (if b then js ''true'' else js ''false'')"
| "json_compact (VNumber t) = t"
| "json_compact (VNonFinite t) = js ''null''"
| "json_compact (VString s) = json_quote s"
| "json_compact (VArray vs) = [91] @ js_join [44] (map json_compact vs) @ [93]"
| "json_compact (VObject ms) =
     [123] @ js_join [44] (map (\<lambda>(k, v). json_quote k @ [58] @ json_compact v) (filter (\<lambda>(k, v). \<not> is_undefined v) ms)) @ [125]"

text \<open>\<open>JSON.stringify(value, null, 2)\<close>; \<open>indent\<close> is the indentation of the line the value starts on.\<close>

definition json_block :: "nat \<Rightarrow> nat \<Rightarrow> nat \<Rightarrow> jstring list \<Rightarrow> jstring" where
  "json_block open_unit close_unit indent items =
     (if items = [] then [open_unit, close_unit]
      else let newline = 10 # replicate (indent + 2) 32
           in [open_unit] @ newline @ js_join (44 # newline) items @ (10 # replicate indent 32) @ [close_unit])"

fun json_pretty :: "nat \<Rightarrow> export_value \<Rightarrow> jstring" where
  "json_pretty indent (VArray vs) = json_block 91 93 indent (map (json_pretty (indent + 2)) vs)"
| "json_pretty indent (VObject ms) =
     json_block 123 125 indent
       (map (\<lambda>(k, v). json_quote k @ [58, 32] @ json_pretty (indent + 2) v) (filter (\<lambda>(k, v). \<not> is_undefined v) ms))"
| "json_pretty indent v = json_compact v"

section \<open>Reading\<close>

definition json_ws :: "nat \<Rightarrow> bool" where
  "json_ws c \<longleftrightarrow> c = 32 \<or> c = 9 \<or> c = 10 \<or> c = 13"

definition skip_ws :: "jstring \<Rightarrow> jstring" where
  "skip_ws s = dropWhile json_ws s"

definition json_hex_value :: "nat \<Rightarrow> nat option" where
  "json_hex_value c =
     (if is_digit c then Some (c - 48) else if 97 \<le> c \<and> c \<le> 102 then Some (c - 87)
      else if 65 \<le> c \<and> c \<le> 70 then Some (c - 55) else None)"

definition json_hex4 :: "nat \<Rightarrow> nat \<Rightarrow> nat \<Rightarrow> nat \<Rightarrow> nat option" where
  "json_hex4 a b c d =
     (case (json_hex_value a, json_hex_value b, json_hex_value c, json_hex_value d) of
        (Some w, Some x, Some y, Some z) \<Rightarrow> Some (w * 4096 + x * 256 + y * 16 + z)
      | _ \<Rightarrow> None)"

definition json_short_escape :: "nat \<Rightarrow> nat option" where
  "json_short_escape e =
     (if e = 34 \<or> e = 92 \<or> e = 47 then Some e else if e = 98 then Some 8 else if e = 102 then Some 12
      else if e = 110 then Some 10 else if e = 114 then Some 13 else if e = 116 then Some 9 else None)"

definition push_unit :: "nat \<Rightarrow> (jstring \<times> jstring) option \<Rightarrow> (jstring \<times> jstring) option" where
  "push_unit u = map_option (\<lambda>(t, r). (u # t, r))"

text \<open>A string after its opening quote.\<close>

fun json_string_body :: "jstring \<Rightarrow> (jstring \<times> jstring) option" where
  "json_string_body [] = None"
| "json_string_body (c # s) =
     (if c = 34 then Some ([], s)
      else if c = 92
      then (case s of
              [] \<Rightarrow> None
            | e # s1 \<Rightarrow>
                if e = 117
                then (case s1 of
                        h1 # h2 # h3 # h4 # s2 \<Rightarrow>
                          (case json_hex4 h1 h2 h3 h4 of None \<Rightarrow> None | Some u \<Rightarrow> push_unit u (json_string_body s2))
                      | _ \<Rightarrow> None)
                else (case json_short_escape e of None \<Rightarrow> None | Some u \<Rightarrow> push_unit u (json_string_body s1)))
      else if c < 32 then None
      else push_unit c (json_string_body s))"

text \<open>\<^verbatim>\<open>-?(0|[1-9][0-9]*)([.][0-9]+)?([eE][+-]?[0-9]+)?\<close>.\<close>

definition json_number_ok :: "jstring \<Rightarrow> bool" where
  "json_number_ok t \<longleftrightarrow>
     (let u = (if t \<noteq> [] \<and> hd t = 45 then tl t else t);
          whole = takeWhile is_digit u; r = dropWhile is_digit u;
          dot = (r \<noteq> [] \<and> hd r = 46);
          fraction = (if dot then takeWhile is_digit (tl r) else []);
          rest = (if dot then dropWhile is_digit (tl r) else r)
      in whole \<noteq> [] \<and> (hd whole = 48 \<longrightarrow> tl whole = []) \<and> (dot \<longrightarrow> fraction \<noteq> []) \<and> js_exponent rest \<noteq> None)"

definition number_unit :: "nat \<Rightarrow> bool" where
  "number_unit c \<longleftrightarrow> is_digit c \<or> c = 43 \<or> c = 45 \<or> c = 46 \<or> c = 69 \<or> c = 101"

definition json_number :: "jstring \<Rightarrow> (export_value \<times> jstring) option" where
  "json_number s =
     (let t = takeWhile number_unit s in if json_number_ok t then Some (VNumber t, dropWhile number_unit s) else None)"

definition json_literal :: "jstring \<Rightarrow> (export_value \<times> jstring) option" where
  "json_literal s =
     (if js_startsWith s (js ''null'') then Some (VNull, drop 4 s)
      else if js_startsWith s (js ''true'') then Some (VBool True, drop 4 s)
      else if js_startsWith s (js ''false'') then Some (VBool False, drop 5 s)
      else json_number s)"

text \<open>An object keeps the place of a repeated member and its last value.\<close>

definition json_object :: "(jstring \<times> export_value) list \<Rightarrow> export_value" where
  "json_object members = VObject (foldl (\<lambda>m (k, v). AList.update k v m) [] members)"

fun json_value :: "nat \<Rightarrow> jstring \<Rightarrow> (export_value \<times> jstring) option"
  and json_elements :: "nat \<Rightarrow> jstring \<Rightarrow> (export_value list \<times> jstring) option"
  and json_members :: "nat \<Rightarrow> jstring \<Rightarrow> ((jstring \<times> export_value) list \<times> jstring) option" where
  "json_value 0 s = None"
| "json_value (Suc n) s =
     (case skip_ws s of
        [] \<Rightarrow> None
      | c # r \<Rightarrow>
          if c = 34 then map_option (\<lambda>(t, r'). (VString t, r')) (json_string_body r)
          else if c = 91
          then (if skip_ws r \<noteq> [] \<and> hd (skip_ws r) = 93 then Some (VArray [], tl (skip_ws r))
                else map_option (\<lambda>(vs, r'). (VArray vs, r')) (json_elements n r))
          else if c = 123
          then (if skip_ws r \<noteq> [] \<and> hd (skip_ws r) = 125 then Some (VObject [], tl (skip_ws r))
                else map_option (\<lambda>(ms, r'). (json_object ms, r')) (json_members n r))
          else json_literal (c # r))"
| "json_elements 0 s = None"
| "json_elements (Suc n) s =
     (case json_value n s of
        None \<Rightarrow> None
      | Some (v, r) \<Rightarrow>
          (case skip_ws r of
             [] \<Rightarrow> None
           | c # r' \<Rightarrow> if c = 44 then map_option (\<lambda>(vs, r''). (v # vs, r'')) (json_elements n r')
                       else if c = 93 then Some ([v], r') else None))"
| "json_members 0 s = None"
| "json_members (Suc n) s =
     (case skip_ws s of
        [] \<Rightarrow> None
      | q # r \<Rightarrow>
          if q \<noteq> 34 then None
          else (case json_string_body r of
                  None \<Rightarrow> None
                | Some (key, r1) \<Rightarrow>
                    (case skip_ws r1 of
                       [] \<Rightarrow> None
                     | colon # r2 \<Rightarrow>
                         if colon \<noteq> 58 then None
                         else (case json_value n r2 of
                                 None \<Rightarrow> None
                               | Some (v, r3) \<Rightarrow>
                                   (case skip_ws r3 of
                                      [] \<Rightarrow> None
                                    | c # r4 \<Rightarrow>
                                        if c = 44 then map_option (\<lambda>(ms, r5). ((key, v) # ms, r5)) (json_members n r4)
                                        else if c = 125 then Some ([(key, v)], r4) else None)))))"

definition json_parse :: "jstring \<Rightarrow> export_value option" where
  "json_parse s =
     (case json_value (2 * length s + 2) s of
        None \<Rightarrow> None
      | Some (v, r) \<Rightarrow> if skip_ws r = [] then Some v else None)"


section \<open>The grammar\<close>

text \<open>Which texts write a value: white space is free around the values, the names and the separators.\<close>

definition json_blank :: "jstring \<Rightarrow> bool" where
  "json_blank w \<longleftrightarrow> list_all json_ws w"

text \<open>The strings of the program are sequences of 16-bit units.\<close>

definition json_units :: "jstring \<Rightarrow> bool" where
  "json_units s \<longleftrightarrow> list_all (\<lambda>c. c < 65536) s"

inductive value_text :: "export_value \<Rightarrow> jstring \<Rightarrow> bool"
  and elements_text :: "export_value list \<Rightarrow> jstring \<Rightarrow> bool"
  and members_text :: "(jstring \<times> export_value) list \<Rightarrow> jstring \<Rightarrow> bool" where
  text_null: "value_text VNull (js ''null'')"
| text_true: "value_text (VBool True) (js ''true'')"
| text_false: "value_text (VBool False) (js ''false'')"
| text_number: "json_number_ok t \<Longrightarrow> list_all number_unit t \<Longrightarrow> value_text (VNumber t) t"
| text_string: "json_units s \<Longrightarrow> value_text (VString s) (json_quote s)"
| text_array_nil: "json_blank w \<Longrightarrow> value_text (VArray []) (91 # w @ [93])"
| text_array: "elements_text vs t \<Longrightarrow> value_text (VArray vs) (91 # t @ [93])"
| text_object_nil: "json_blank w \<Longrightarrow> value_text (VObject []) (123 # w @ [125])"
| text_object: "members_text ms t \<Longrightarrow> distinct (map fst ms) \<Longrightarrow> value_text (VObject ms) (123 # t @ [125])"
| elements_last: "json_blank w \<Longrightarrow> value_text v t \<Longrightarrow> json_blank w' \<Longrightarrow> elements_text [v] (w @ t @ w')"
| elements_more: "json_blank w \<Longrightarrow> value_text v t \<Longrightarrow> json_blank w' \<Longrightarrow> elements_text vs t'
    \<Longrightarrow> elements_text (v # vs) (w @ t @ w' @ 44 # t')"
| members_last: "json_units k \<Longrightarrow> json_blank w \<Longrightarrow> json_blank w1 \<Longrightarrow> json_blank w2 \<Longrightarrow> value_text v t \<Longrightarrow> json_blank w'
    \<Longrightarrow> members_text [(k, v)] (w @ json_quote k @ w1 @ 58 # w2 @ t @ w')"
| members_more: "json_units k \<Longrightarrow> json_blank w \<Longrightarrow> json_blank w1 \<Longrightarrow> json_blank w2 \<Longrightarrow> value_text v t \<Longrightarrow> json_blank w'
    \<Longrightarrow> members_text ms t'
    \<Longrightarrow> members_text ((k, v) # ms) (w @ json_quote k @ w1 @ 58 # w2 @ t @ w' @ 44 # t')"

section \<open>Strings are read back\<close>

lemma json_hex_value_lower [simp]: "v < 16 \<Longrightarrow> json_hex_value (lower_hex_digit v) = Some v"
  by (auto simp: json_hex_value_def lower_hex_digit_def is_digit_def)

lemma json_hex4_digits:
  assumes "c < 65536"
  shows "json_hex4 (lower_hex_digit (c div 4096 mod 16)) (lower_hex_digit (c div 256 mod 16)) (lower_hex_digit (c div 16 mod 16))
           (lower_hex_digit (c mod 16)) = Some c"
proof -
  have parts: "c div 256 = c div 16 div 16" "c div 4096 = c div 16 div 16 div 16"
    by (simp_all flip: div_mult2_eq)
  have top: "c div 16 div 16 div 16 mod 16 = c div 16 div 16 div 16" using assms by simp
  have "c div 16 div 16 div 16 mod 16 * 4096 + c div 16 div 16 mod 16 * 256 + c div 16 mod 16 * 16 + c mod 16 = c"
    using top div_mult_mod_eq [of c 16] div_mult_mod_eq [of "c div 16" 16] div_mult_mod_eq [of "c div 16 div 16" 16] by linarith
  then show ?thesis by (simp add: json_hex4_def parts)
qed

lemma read_u_escape:
  assumes "c < 65536"
  shows "json_string_body (json_u_escape c @ s) = push_unit c (json_string_body s)"
  using json_hex4_digits [OF assms] unfolding json_u_escape_def by (simp del: mod_less)

lemma read_escape_unit: "c < 65536 \<Longrightarrow> json_string_body (json_escape_unit c @ s) = push_unit c (json_string_body s)"
  by (cases "c < 32 \<and> c \<noteq> 8 \<and> c \<noteq> 9 \<and> c \<noteq> 10 \<and> c \<noteq> 12 \<and> c \<noteq> 13")
    (auto simp: json_escape_unit_def read_u_escape json_short_escape_def)

lemma read_escape: "json_units s \<Longrightarrow> json_string_body (json_escape s @ 34 # r) = Some (s, r)"
proof (induction s rule: json_escape.induct)
  case 1
  then show ?case by simp
next
  case (2 c)
  then show ?case by (auto simp: json_units_def read_u_escape read_escape_unit push_unit_def)
next
  case (3 c d s)
  then show ?case by (auto simp: json_units_def read_u_escape read_escape_unit push_unit_def)
qed


section \<open>Every text of the grammar is read\<close>

definition json_stop :: "jstring \<Rightarrow> bool" where
  "json_stop r \<longleftrightarrow> r = [] \<or> \<not> number_unit (hd r)"

lemma json_ws_not_number: "json_ws c \<Longrightarrow> \<not> number_unit c"
  by (auto simp: json_ws_def number_unit_def is_digit_def)

lemma skip_blank [simp]: "json_blank w \<Longrightarrow> skip_ws (w @ s) = skip_ws s"
  by (induction w) (auto simp: json_blank_def skip_ws_def)

lemma skip_solid [simp]: "\<not> json_ws c \<Longrightarrow> skip_ws (c # s) = c # s"
  by (simp add: skip_ws_def)

lemma json_ws_solid [simp]:
  "\<not> json_ws 34" "\<not> json_ws 91" "\<not> json_ws 93" "\<not> json_ws 123" "\<not> json_ws 125" "\<not> json_ws 44" "\<not> json_ws 58"
  by (simp_all add: json_ws_def)

lemma json_stop_blank: "json_blank w \<Longrightarrow> json_stop r \<Longrightarrow> json_stop (w @ r)"
  by (cases w) (auto simp: json_stop_def json_blank_def json_ws_not_number)

lemma json_stop_solid [simp]: "json_stop (44 # r)" "json_stop (93 # r)" "json_stop (125 # r)"
  by (simp_all add: json_stop_def number_unit_def is_digit_def)

lemma number_first:
  assumes "json_number_ok t"
  obtains c s where "t = c # s" "c = 45 \<or> is_digit c"
  using assms
  by (cases t) (auto simp: json_number_ok_def Let_def split: if_splits)

lemma read_number:
  assumes "json_number_ok t" "list_all number_unit t" "json_stop r"
  shows "json_number (t @ r) = Some (VNumber t, r)"
proof -
  have "takeWhile number_unit r = []" "dropWhile number_unit r = r"
    using assms(3) by (cases r; simp add: json_stop_def)+
  then have "takeWhile number_unit (t @ r) = t" "dropWhile number_unit (t @ r) = r"
    using assms(2) by (simp_all add: list_all_iff takeWhile_append2 dropWhile_append2)
  then show ?thesis using assms(1) by (simp add: json_number_def)
qed

lemma json_object_distinct: "distinct (map fst ms) \<Longrightarrow> json_object ms = VObject ms"
proof -
  have "distinct (map fst (acc @ ms)) \<Longrightarrow> foldl (\<lambda>m (k, v). AList.update k v m) acc ms = acc @ ms" for acc
  proof (induction ms arbitrary: acc)
    case (Cons p ms)
    obtain k v where p: "p = (k, v)" by (cases p)
    have "k \<notin> fst ` set acc" using Cons.prems by (auto simp: p)
    then have "AList.update k v acc = acc @ [(k, v)]"
      by (induction acc) (auto)
    then show ?case using Cons.IH [of "acc @ [(k, v)]"] Cons.prems by (simp add: p)
  qed simp
  from this [of "[]"] show "distinct (map fst ms) \<Longrightarrow> json_object ms = VObject ms" by (simp add: json_object_def)
qed


lemma value_text_first:
  assumes "value_text v t"
  shows "\<exists>c s. t = c # s \<and> \<not> json_ws c \<and> c \<noteq> 93"
  using assms
proof (cases rule: value_text.cases)
  case (text_number)
  then obtain c s where "t = c # s" "c = 45 \<or> is_digit c" by (blast elim: number_first)
  then show ?thesis by (auto simp: json_ws_def is_digit_def)
qed (auto simp: js_def json_ws_def json_quote_def)

lemma json_elements_first:
  assumes "elements_text vs t"
  shows "skip_ws (t @ r) \<noteq> [] \<and> hd (skip_ws (t @ r)) \<noteq> 93"
  using assms by (cases rule: elements_text.cases) (auto dest!: value_text_first)

lemma json_members_first:
  assumes "members_text ms t"
  shows "skip_ws (t @ r) \<noteq> [] \<and> hd (skip_ws (t @ r)) = 34"
  using assms by (cases rule: members_text.cases) (auto simp: json_quote_def)

text \<open>What the three readers do on a text of the grammar, with enough fuel for its length.\<close>

definition reads_value :: "export_value \<Rightarrow> jstring \<Rightarrow> bool" where
  "reads_value v t \<longleftrightarrow>
     (\<forall>n w r. length t \<le> n \<longrightarrow> json_blank w \<longrightarrow> json_stop r \<longrightarrow> json_value n (w @ t @ r) = Some (v, r))"

definition reads_elements :: "export_value list \<Rightarrow> jstring \<Rightarrow> bool" where
  "reads_elements vs t \<longleftrightarrow> (\<forall>n r. length t < n \<longrightarrow> json_elements n (t @ 93 # r) = Some (vs, r))"

definition reads_members :: "(jstring \<times> export_value) list \<Rightarrow> jstring \<Rightarrow> bool" where
  "reads_members ms t \<longleftrightarrow> (\<forall>n r. length t < n \<longrightarrow> json_members n (t @ 125 # r) = Some (ms, r))"

lemmas reads_defs = reads_value_def reads_elements_def reads_members_def

lemma reads_valueD:
  "reads_value v t \<Longrightarrow> length t \<le> n \<Longrightarrow> json_blank w \<Longrightarrow> json_stop r \<Longrightarrow> json_value n (w @ t @ r) = Some (v, r)"
  by (simp add: reads_value_def)

lemma reads_literal:
  assumes "t = c # s" "\<not> json_ws c" "c \<noteq> 34" "c \<noteq> 91" "c \<noteq> 123"
    and "\<And>r. json_stop r \<Longrightarrow> json_literal (t @ r) = Some (v, r)"
  shows "reads_value v t"
proof -
  have "json_value n (w @ t @ r) = Some (v, r)" if "length t \<le> n" "json_blank w" "json_stop r" for n w r
    using assms that by (cases n) auto
  then show ?thesis by (simp add: reads_value_def)
qed

lemma reads_number:
  assumes "json_number_ok t" "list_all number_unit t"
  shows "reads_value (VNumber t) t"
proof -
  obtain c s where c: "t = c # s" "c = 45 \<or> is_digit c" using assms(1) by (rule number_first)
  have "json_literal (t @ r) = Some (VNumber t, r)" if "json_stop r" for r
    using c read_number [OF assms that] by (auto simp: json_literal_def js_startsWith_def js_def is_digit_def)
  then show ?thesis using c by (intro reads_literal [OF c(1)]) (auto simp: json_ws_def is_digit_def)
qed

lemma reads_string: "json_units s \<Longrightarrow> reads_value (VString s) (json_quote s)"
  unfolding reads_value_def
proof (intro allI impI)
  fix n w r
  assume "json_units s" "length (json_quote s) \<le> n" "json_blank w"
  then show "json_value n (w @ json_quote s @ r) = Some (VString s, r)"
    by (cases n) (auto simp: json_quote_def read_escape)
qed

lemma reads_array:
  assumes "elements_text vs t" "reads_elements vs t"
  shows "reads_value (VArray vs) (91 # t @ [93])"
  unfolding reads_value_def
proof (intro allI impI)
  fix n w r
  assume "length (91 # t @ [93]) \<le> n" "json_blank w"
  then show "json_value n (w @ (91 # t @ [93]) @ r) = Some (VArray vs, r)"
    using assms(2) json_elements_first [OF assms(1), of "93 # r"] by (cases n) (auto simp: reads_elements_def)
qed

lemma reads_object:
  assumes "members_text ms t" "reads_members ms t" "distinct (map fst ms)"
  shows "reads_value (VObject ms) (123 # t @ [125])"
  unfolding reads_value_def
proof (intro allI impI)
  fix n w r
  assume "length (123 # t @ [125]) \<le> n" "json_blank w"
  then show "json_value n (w @ (123 # t @ [125]) @ r) = Some (VObject ms, r)"
    using assms(2) json_members_first [OF assms(1), of "125 # r"]
    by (cases n) (auto simp: reads_members_def json_object_distinct [OF assms(3)])
qed


lemma reads_empty:
  assumes "json_blank w'"
  shows "reads_value (VArray []) (91 # w' @ [93])" "reads_value (VObject []) (123 # w' @ [125])"
proof -
  have "json_value n (w @ (91 # w' @ [93]) @ r) = Some (VArray [], r)"
    "json_value n (w @ (123 # w' @ [125]) @ r) = Some (VObject [], r)"
    if "0 < n" "json_blank w" for n w r
    using assms that by (cases n; simp)+
  then show "reads_value (VArray []) (91 # w' @ [93])" "reads_value (VObject []) (123 # w' @ [125])"
    by (auto simp: reads_value_def)
qed

lemma reads_elements_cons:
  assumes "json_blank w" "reads_value v t" "json_blank w'"
  shows "reads_elements [v] (w @ t @ w')"
    and "reads_elements vs t' \<Longrightarrow> reads_elements (v # vs) (w @ t @ w' @ 44 # t')"
proof -
  have "json_elements n ((w @ t @ w') @ 93 # r) = Some ([v], r)" if "length (w @ t @ w') < n" for n r
    using that assms reads_valueD [OF assms(2) _ assms(1), of "n - 1" "w' @ 93 # r"]
    by (cases n) (auto simp: json_stop_blank)
  then show "reads_elements [v] (w @ t @ w')" by (simp add: reads_elements_def)
next
  assume more: "reads_elements vs t'"
  have "json_elements n ((w @ t @ w' @ 44 # t') @ 93 # r) = Some (v # vs, r)" if "length (w @ t @ w' @ 44 # t') < n" for n r
    using that assms more reads_valueD [OF assms(2) _ assms(1), of "n - 1" "w' @ 44 # t' @ 93 # r"]
    by (cases n) (auto simp: json_stop_blank reads_elements_def)
  then show "reads_elements (v # vs) (w @ t @ w' @ 44 # t')" by (simp add: reads_elements_def)
qed

lemma json_member_step:
  assumes "json_units k" "json_blank w" "json_blank w1" "json_blank w2" "reads_value v t" "length t \<le> n" "json_stop s"
  shows "json_members (Suc n) (w @ json_quote k @ w1 @ 58 # w2 @ t @ s) =
    (case skip_ws s of
       [] \<Rightarrow> None
     | c # r4 \<Rightarrow> if c = 44 then map_option (\<lambda>(ms, r5). ((k, v) # ms, r5)) (json_members n r4)
                 else if c = 125 then Some ([(k, v)], r4) else None)"
  using assms(1-4) reads_valueD [OF assms(5,6,4,7)] by (simp add: json_quote_def read_escape)

lemma reads_members_cons:
  assumes "json_units k" "json_blank w" "json_blank w1" "json_blank w2" "reads_value v t" "json_blank w'"
  shows "reads_members [(k, v)] (w @ json_quote k @ w1 @ 58 # w2 @ t @ w')"
    and "reads_members ms t' \<Longrightarrow> reads_members ((k, v) # ms) (w @ json_quote k @ w1 @ 58 # w2 @ t @ w' @ 44 # t')"
proof -
  have "json_members n ((w @ json_quote k @ w1 @ 58 # w2 @ t @ w') @ 125 # r) = Some ([(k, v)], r)"
    if "length (w @ json_quote k @ w1 @ 58 # w2 @ t @ w') < n" for n r
    using that assms json_member_step [OF assms(1-5), of "n - 1" "w' @ 125 # r"]
    by (cases n) (auto simp: json_stop_blank simp del: json_members.simps)
  then show "reads_members [(k, v)] (w @ json_quote k @ w1 @ 58 # w2 @ t @ w')" by (simp add: reads_members_def)
next
  assume more: "reads_members ms t'"
  have "json_members n ((w @ json_quote k @ w1 @ 58 # w2 @ t @ w' @ 44 # t') @ 125 # r) = Some ((k, v) # ms, r)"
    if "length (w @ json_quote k @ w1 @ 58 # w2 @ t @ w' @ 44 # t') < n" for n r
    using that assms more json_member_step [OF assms(1-5), of "n - 1" "w' @ 44 # t' @ 125 # r"]
    by (cases n) (auto simp: json_stop_blank reads_members_def simp del: json_members.simps)
  then show "reads_members ((k, v) # ms) (w @ json_quote k @ w1 @ 58 # w2 @ t @ w' @ 44 # t')"
    by (simp add: reads_members_def)
qed

lemma reads_word:
  assumes "t = c # s" "c \<in> {110, 116, 102}" "\<And>r. json_literal (t @ r) = Some (v, r)"
  shows "reads_value v t"
  using assms by (intro reads_literal [of t c s]) (auto simp: json_ws_def)

lemma reads_words:
  "reads_value VNull [110, 117, 108, 108]" "reads_value (VBool True) [116, 114, 117, 101]"
  "reads_value (VBool False) [102, 97, 108, 115, 101]"
proof -
  show "reads_value VNull [110, 117, 108, 108]"
    by (rule reads_word, rule refl) (simp_all add: json_literal_def js_startsWith_def js_def)
  show "reads_value (VBool True) [116, 114, 117, 101]"
    by (rule reads_word, rule refl) (simp_all add: json_literal_def js_startsWith_def js_def)
  show "reads_value (VBool False) [102, 97, 108, 115, 101]"
    by (rule reads_word, rule refl) (simp_all add: json_literal_def js_startsWith_def js_def)
qed

lemma value_text_read:
  "value_text v t \<Longrightarrow> reads_value v t"
  "elements_text vs t \<Longrightarrow> reads_elements vs t"
  "members_text ms t \<Longrightarrow> reads_members ms t"
  by (induction rule: value_text_elements_text_members_text.inducts)
    (simp_all add: reads_words reads_number reads_string reads_array reads_object reads_empty reads_elements_cons reads_members_cons)

lemma json_parse_complete:
  assumes "value_text v t" "json_blank w" "json_blank w'"
  shows "json_parse (w @ t @ w') = Some v"
proof -
  have blank: "json_stop w'" "skip_ws w' = []"
    using assms(3) json_stop_blank [of w' "[]"] skip_blank [of w' "[]"] by (simp_all add: json_stop_def skip_ws_def)
  have "json_value (2 * length (w @ t @ w') + 2) (w @ t @ w') = Some (v, w')"
    by (rule reads_valueD [OF value_text_read(1) [OF assms(1)] _ assms(2) blank(1)]) simp
  then show ?thesis by (simp add: json_parse_def blank)
qed


section \<open>What is written is a text of the grammar\<close>

text \<open>The value a written text stands for: \<open>undefined\<close> and the numbers JSON has no text for are \<open>null\<close>, and an undefined member is left
  out.\<close>

fun json_normal :: "export_value \<Rightarrow> export_value" where
  "json_normal VUndefined = VNull"
| "json_normal (VNonFinite t) = VNull"
| "json_normal (VArray vs) = VArray (map json_normal vs)"
| "json_normal (VObject ms) = VObject (map (\<lambda>(k, v). (k, json_normal v)) (filter (\<lambda>(k, v). \<not> is_undefined v) ms))"
| "json_normal v = v"

fun json_ok :: "export_value \<Rightarrow> bool" where
  "json_ok (VNumber t) = (json_number_ok t \<and> list_all number_unit t)"
| "json_ok (VString s) = json_units s"
| "json_ok (VArray vs) = list_all json_ok vs"
| "json_ok (VObject ms) = (distinct (map fst ms) \<and> list_all (\<lambda>(k, v). json_units k \<and> json_ok v) ms)"
| "json_ok _ = True"

lemma elements_text_join:
  assumes "list_all2 value_text vs ts" "vs \<noteq> []" "json_blank w" "json_blank w'"
  shows "elements_text vs (w @ js_join (44 # w) ts @ w')"
  using assms(1,2)
proof (induction rule: list_all2_induct)
  case (Cons v vs t ts)
  show ?case
  proof (cases vs)
    case Nil
    then show ?thesis using Cons assms elements_last by simp
  next
    case c: (Cons u us)
    then obtain t' ts' where ts: "ts = t' # ts'" using Cons.hyps(2) by (cases ts) auto
    have "elements_text (v # vs) (w @ t @ [] @ 44 # (w @ js_join (44 # w) ts @ w'))"
      using Cons assms c by (intro elements_more) (auto simp: json_blank_def)
    then show ?thesis by (simp add: ts)
  qed
qed simp

lemma members_text_join:
  assumes "list_all2 (\<lambda>(k, v) m. json_units k \<and> (\<exists>t. value_text v t \<and> m = json_quote k @ 58 # w2 @ t)) ms ts" "ms \<noteq> []"
    and "json_blank w" "json_blank w'" "json_blank w2"
  shows "members_text ms (w @ js_join (44 # w) ts @ w')"
  using assms(1,2)
proof (induction rule: list_all2_induct)
  case (Cons p ms m ts)
  obtain k v where p: "p = (k, v)" by (cases p)
  then obtain t where t: "json_units k" "value_text v t" "m = json_quote k @ 58 # w2 @ t" using Cons.hyps(1) by auto
  have nil: "json_blank []" by (simp add: json_blank_def)
  show ?case
  proof (cases ms)
    case Nil
    then show ?thesis using Cons assms members_last [OF t(1) assms(3) nil assms(5) t(2) assms(4)] by (simp add: p t)
  next
    case c: (Cons u us)
    then obtain t' ts' where ts: "ts = t' # ts'" using Cons.hyps(2) by (cases ts) auto
    have "members_text (p # ms) (w @ json_quote k @ [] @ 58 # w2 @ t @ [] @ 44 # (w @ js_join (44 # w) ts @ w'))"
      unfolding p using Cons assms c t nil by (intro members_more) auto
    then show ?thesis by (simp add: ts t)
  qed
qed simp


lemma written_members:
  assumes "list_all (\<lambda>(k, v). json_units k \<and> value_text (json_normal v) (f v)) ms"
  shows "list_all2 (\<lambda>(k, v) m. json_units k \<and> (\<exists>t. value_text v t \<and> m = json_quote k @ 58 # w2 @ t))
    (map (\<lambda>(k, v). (k, json_normal v)) ms) (map (\<lambda>(k, v). json_quote k @ 58 # w2 @ f v) ms)"
  using assms by (induction ms) auto

lemma distinct_kept: "distinct (map fst ms) \<Longrightarrow> distinct (map fst (map (\<lambda>(k, v). (k, f v)) (filter P ms)))"
  by (induction ms) (auto simp: rev_image_eqI)

lemmas text_words = text_null [simplified] text_true [simplified] text_false [simplified]

lemma compact_text: "json_ok v \<Longrightarrow> value_text (json_normal v) (json_compact v)"
proof (induction v rule: json_compact.induct)
  case (7 vs)
  have each: "list_all2 value_text (map json_normal vs) (map json_compact vs)"
    using 7 by (auto simp: list_all_iff list_all2_conv_all_nth)
  show ?case
    using elements_text_join [OF each, of "[]" "[]"] text_array_nil [of "[]"] by (cases "vs = []") (auto simp: json_blank_def intro: text_array)
next
  case (8 ms)
  let ?ms = "filter (\<lambda>(k, v). \<not> is_undefined v) ms"
  have each: "list_all (\<lambda>(k, v). json_units k \<and> value_text (json_normal v) (json_compact v)) ?ms"
    using 8 by (fastforce simp: list_all_iff)
  show ?case
    using members_text_join [OF written_members [OF each, of "[]"], of "[]" "[]"] text_object_nil [of "[]"] distinct_kept 8
    by (cases "?ms = []") (auto simp: json_blank_def intro!: text_object)
qed (auto intro: value_text_elements_text_members_text.intros simp: text_words)

lemma block_split:
  "items \<noteq> [] \<Longrightarrow> json_block open_unit close_unit indent items =
     open_unit # ((10 # replicate (indent + 2) 32) @ js_join (44 # 10 # replicate (indent + 2) 32) items @ (10 # replicate indent 32)) @ [close_unit]"
  by (simp add: json_block_def Let_def)

lemma blank_line: "json_blank (10 # replicate n 32)"
  by (simp add: json_blank_def json_ws_def list_all_iff)

lemma pretty_text: "json_ok v \<Longrightarrow> value_text (json_normal v) (json_pretty indent v)"
proof (induction indent v rule: json_pretty.induct)
  case (1 indent vs)
  have each: "list_all2 value_text (map json_normal vs) (map (json_pretty (indent + 2)) vs)"
    using 1 by (auto simp: list_all_iff list_all2_conv_all_nth)
  show ?case
  proof (cases "vs = []")
    case True
    then show ?thesis using text_array_nil [of "[]"] by (simp add: json_block_def json_blank_def)
  next
    case False
    then have items: "map (json_pretty (indent + 2)) vs \<noteq> []" "map json_normal vs \<noteq> []" by simp_all
    show ?thesis unfolding json_pretty.simps json_normal.simps block_split [OF items(1)]
      by (rule text_array, rule elements_text_join [OF each items(2) blank_line blank_line])
  qed
next
  case (2 indent ms)
  let ?ms = "filter (\<lambda>(k, v). \<not> is_undefined v) ms"
  have each: "list_all (\<lambda>(k, v). json_units k \<and> value_text (json_normal v) (json_pretty (indent + 2) v)) ?ms"
    using 2 by (fastforce simp: list_all_iff)
  have space: "json_blank [32]" by (simp add: json_blank_def json_ws_def)
  show ?case
  proof (cases "?ms = []")
    case True
    then show ?thesis using text_object_nil [of "[]"] by (simp add: json_block_def json_blank_def)
  next
    case False
    then have items: "map (\<lambda>(k, v). json_quote k @ [58, 32] @ json_pretty (indent + 2) v) ?ms \<noteq> []"
      "map (\<lambda>(k, v). (k, json_normal v)) ?ms \<noteq> []" by simp_all
    have quoted: "json_quote k @ [58, 32] @ t = json_quote k @ 58 # [32] @ t" for k t by simp
    show ?thesis unfolding json_pretty.simps json_normal.simps block_split [OF items(1)] unfolding quoted
      by (rule text_object, rule members_text_join [OF written_members [OF each] items(2) blank_line blank_line space],
          rule distinct_kept) (use 2(2) in simp)
  qed
qed (use compact_text in \<open>(simp del: json_compact.simps json_ok.simps json_normal.simps; fast)+\<close>)

theorem json_roundtrip:
  assumes "json_ok v" "json_blank w"
  shows "json_parse (json_pretty indent v @ w) = Some (json_normal v)"
    and "json_parse (json_compact v @ w) = Some (json_normal v)"
  using json_parse_complete [OF pretty_text [OF assms(1)] _ assms(2), of "[]"]
    json_parse_complete [OF compact_text [OF assms(1)] _ assms(2), of "[]"]
  by (simp_all add: json_blank_def)


section \<open>Integers\<close>

lemma nat_digits_lead: "hd (nat_digits n) = 48 \<Longrightarrow> tl (nat_digits n) = []"
proof (induction n rule: nat_digits.induct)
  case (1 n)
  show ?case
  proof (cases "n < 10")
    case False
    have "hd (nat_digits (n div 10)) \<noteq> 48"
    proof
      assume zero: "hd (nat_digits (n div 10)) = 48"
      then have "nat_digits (n div 10) = [48]" using 1(1) [OF False] by (metis list.collapse nat_digits_nonempty)
      then have "n div 10 = 0" by (metis digits_value_nat_digits nat_digits.simps nat_digits_inj add_0_right zero_less_numeral)
      then show False using False by simp
    qed
    then show ?thesis using 1(2) False by (simp add: nat_digits.simps [of n])
  qed (simp add: nat_digits.simps [of n])
qed

lemma json_ok_int: "json_ok (VNumber (int_digits i))"
proof -
  have digits: "takeWhile is_digit (nat_digits n) = nat_digits n" "dropWhile is_digit (nat_digits n) = []" for n
    by (simp_all add: takeWhile_eq_all_conv dropWhile_eq_Nil_conv nat_digits_digit)
  have "hd (nat_digits n) \<noteq> 45" for n
    using nat_digits_digit [of "hd (nat_digits n)" n] by (auto simp: is_digit_def)
  then have "json_number_ok (int_digits i)"
    by (auto simp: json_number_ok_def int_digits_def digits Let_def js_exponent_def dest: nat_digits_lead nat_digits_digit)
  moreover have "list_all number_unit (int_digits i)"
    using int_digits_units by (auto simp: list_all_iff number_unit_def)
  ultimately show ?thesis by simp
qed


lemma js_Number_nat_digits: "js_Number (nat_digits n) = Exact False n 1"
proof -
  let ?s = "nat_digits n"
  have digit: "is_digit c" if "c \<in> set ?s" for c using that nat_digits_digit by blast
  have ends: "is_digit (hd ?s)" "is_digit (last ?s)" using digit by simp_all
  have trim: "js_trim ?s = ?s"
    using ends by (intro js_trim_id) (auto simp: is_space_def is_digit_def)
  have prefix: "take 2 ?s \<noteq> [48, x]" if "\<not> is_digit x" for x
  proof
    assume "take 2 ?s = [48, x]"
    then have "x \<in> set ?s" by (metis in_set_takeD list.set_intros(1) list.set_intros(2))
    then show False using digit that by blast
  qed
  have all: "takeWhile is_digit ?s = ?s" "dropWhile is_digit ?s = []"
    by (simp_all add: takeWhile_eq_all_conv dropWhile_eq_Nil_conv digit)
  moreover have "?s \<noteq> js ''Infinity''" using ends(1) by (auto simp: is_digit_def)
  ultimately have "js_unsigned_decimal False ?s = Exact False n 1"
    unfolding js_unsigned_decimal_def Let_def all by (simp add: js_exponent_def)
  then show ?thesis
    using ends(1) prefix by (simp add: js_Number_def trim Let_def is_digit_def)
qed

end
