(* ===== verification/RadioTraceExport.thy ===== *)
theory RadioTraceExport
  imports PagedReads JsonText
begin

text \<open>
  Model of the export documents of \<open>lib/radio-trace-export.ts\<close>: the document, its file name, its JSON text and its
  CSV table. The events are the JSON values of the generated bindings; a number is carried as its decimal text, which is what
  the code writes of it. The collation of \<open>localeCompare\<close> and \<open>toLocaleLowerCase\<close> are those of the host.
\<close>

section \<open>The document\<close>

definition RADIO_TRACE_EXPORT_SCHEMA :: jstring where
  "RADIO_TRACE_EXPORT_SCHEMA = js ''org.reticulum.appliance.rf-trace''"

definition RADIO_TRACE_EXPORT_SCHEMA_VERSION :: int where
  "RADIO_TRACE_EXPORT_SCHEMA_VERSION = 1"

record RadioTraceExportSource =
  xs_board_label :: jstring
  xs_device_id :: "jstring option"
  xs_lxmf_delivery_destination :: "jstring option"
  xs_primary_destination :: "jstring option"
  xs_profile_key :: "jstring option"

record RadioTraceExportDocument =
  xd_schema :: jstring
  xd_schema_version :: int
  xd_exported_at_unix_ms :: int
  xd_source :: RadioTraceExportSource
  xd_timeline_sequence :: "int option" \<comment> \<open>\<open>scope.timeline_sequence\<close>\<close>
  xd_history_incomplete :: bool
  xd_events :: "export_value list"

definition createRadioTraceExportDocument ::
  "export_value RadioTraceCollection \<Rightarrow> int \<Rightarrow> RadioTraceExportSource \<Rightarrow> int option \<Rightarrow> thrown + RadioTraceExportDocument" where
  "createRadioTraceExportDocument collection exportedAtUnixMs source timelineSequence =
     (if \<not> isSafeInteger exportedAtUnixMs \<or> exportedAtUnixMs < 0
      then Inl (ErrorObject (js ''RF trace export time must be a non-negative safe integer''))
      else Inr \<lparr>xd_schema = RADIO_TRACE_EXPORT_SCHEMA, xd_schema_version = RADIO_TRACE_EXPORT_SCHEMA_VERSION,
        xd_exported_at_unix_ms = exportedAtUnixMs, xd_source = source, xd_timeline_sequence = timelineSequence,
        xd_history_incomplete = rtc_historyIncomplete collection, xd_events = rtc_events collection\<rparr>)"

definition optional_string :: "jstring option \<Rightarrow> export_value" where
  "optional_string v = (case v of None \<Rightarrow> VNull | Some s \<Rightarrow> VString s)"

definition optional_int :: "int option \<Rightarrow> export_value" where
  "optional_int v = (case v of None \<Rightarrow> VNull | Some n \<Rightarrow> VNumber (int_digits n))"

text \<open>The members in the order of the literal in \<open>exportRadioTrace\<close>.\<close>

definition source_value :: "RadioTraceExportSource \<Rightarrow> export_value" where
  "source_value s = VObject
     [(js ''board_label'', VString (xs_board_label s)), (js ''device_id'', optional_string (xs_device_id s)),
      (js ''lxmf_delivery_destination'', optional_string (xs_lxmf_delivery_destination s)),
      (js ''primary_destination'', optional_string (xs_primary_destination s)),
      (js ''profile_key'', optional_string (xs_profile_key s))]"

definition document_value :: "RadioTraceExportDocument \<Rightarrow> export_value" where
  "document_value d = VObject
     [(js ''schema'', VString (xd_schema d)), (js ''schema_version'', VNumber (int_digits (xd_schema_version d))),
      (js ''exported_at_unix_ms'', VNumber (int_digits (xd_exported_at_unix_ms d))), (js ''source'', source_value (xd_source d)),
      (js ''scope'', VObject [(js ''timeline_sequence'', optional_int (xd_timeline_sequence d))]),
      (js ''history_incomplete'', VBool (xd_history_incomplete d)), (js ''events'', VArray (xd_events d))]"

section \<open>The file name\<close>

text \<open>The class \<^verbatim>\<open>[a-z0-9._-]\<close>.\<close>

definition filename_unit :: "nat \<Rightarrow> bool" where
  "filename_unit c \<longleftrightarrow> (97 \<le> c \<and> c \<le> 122) \<or> is_digit c \<or> c = 46 \<or> c = 95 \<or> c = 45"

text \<open>\<^verbatim>\<open>replaceAll(/[^a-z0-9._-]+/g, "-")\<close>; the flag is whether the run of other characters has its hyphen.\<close>

fun hyphenate :: "bool \<Rightarrow> jstring \<Rightarrow> jstring" where
  "hyphenate in_run [] = []"
| "hyphenate in_run (c # s) =
     (if filename_unit c then c # hyphenate False s else if in_run then hyphenate True s else 45 # hyphenate True s)"

text \<open>\<^verbatim>\<open>replaceAll(/^-+|-+$/g, "")\<close>.\<close>

definition trim_hyphens :: "jstring \<Rightarrow> jstring" where
  "trim_hyphens s = rev (dropWhile (\<lambda>c. c = 45) (rev (dropWhile (\<lambda>c. c = 45) s)))"

definition safeFilenamePart :: "js_host \<Rightarrow> jstring \<Rightarrow> jstring" where
  "safeFilenamePart h value =
     (let safe = trim_hyphens (hyphenate False (jh_lower h (js_trim value)))
      in if safe = [] then js ''appliance'' else take 64 safe)"

text \<open>\<open>Date.prototype.toISOString\<close> on a valid time that is not negative: the date of the proleptic Gregorian calendar.\<close>

definition civil_date :: "int \<Rightarrow> int \<times> int \<times> int" where
  "civil_date days =
     (let z = days + 719468; era = z div 146097; doe = z mod 146097;
          yoe = (doe - doe div 1460 + doe div 36524 - doe div 146096) div 365;
          doy = doe - (365 * yoe + yoe div 4 - yoe div 100);
          mp = (5 * doy + 2) div 153;
          d = doy - (153 * mp + 2) div 5 + 1;
          m = (if mp < 10 then mp + 3 else mp - 9)
      in (yoe + era * 400 + (if m \<le> 2 then 1 else 0), m, d))"

definition padded :: "nat \<Rightarrow> int \<Rightarrow> jstring" where
  "padded n i = js_padStart n 48 (nat_digits (nat i))"

definition js_toISOString :: "int \<Rightarrow> jstring" where
  "js_toISOString ms =
     (let (y, m, d) = civil_date (ms div 86400000); t = ms mod 86400000
      in (if y \<le> 9999 then padded 4 y else [43] @ padded 6 y) @ [45] @ padded 2 m @ [45] @ padded 2 d @ [84] @
         padded 2 (t div 3600000) @ [58] @ padded 2 (t div 60000 mod 60) @ [58] @ padded 2 (t div 1000 mod 60) @ [46] @
         padded 3 (t mod 1000) @ [90])"

text \<open>\<^verbatim>\<open>s.replace(p, r)\<close> for texts: the first occurrence.\<close>

fun js_replace_first :: "jstring \<Rightarrow> jstring \<Rightarrow> jstring \<Rightarrow> jstring" where
  "js_replace_first p r [] = (if p = [] then r else [])"
| "js_replace_first p r (c # s) =
     (if js_startsWith (c # s) p then r @ drop (length p) (c # s) else c # js_replace_first p r s)"

definition compactUtcTimestamp :: "int \<Rightarrow> thrown + jstring" where
  "compactUtcTimestamp unixMs =
     (if \<not> js_date_valid unixMs then Inl (ErrorObject (js ''Invalid time value''))
      else Inr (js_replace_first (js ''.000Z'') (js ''Z'') (filter (\<lambda>c. c \<noteq> 45 \<and> c \<noteq> 58) (js_toISOString unixMs))))"

definition artifactFilename :: "js_host \<Rightarrow> RadioTraceExportDocument \<Rightarrow> jstring \<Rightarrow> thrown + jstring" where
  "artifactFilename h document extension =
     (let scope = (case xd_timeline_sequence document of
                     None \<Rightarrow> js ''all'' | Some n \<Rightarrow> js ''message-'' @ int_digits n)
      in case compactUtcTimestamp (xd_exported_at_unix_ms document) of
           Inl e \<Rightarrow> Inl e
         | Inr timestamp \<Rightarrow>
             Inr (js_join [45] [js ''reticulum-rf-trace'', safeFilenamePart h (xs_board_label (xd_source document)), scope, timestamp]
                  @ [46] @ extension))"

datatype export_mime = MimeJson | MimeCsv

record ExportArtifact =
  ea_contents :: jstring
  ea_filename :: jstring
  ea_mimeType :: export_mime

definition radioTraceJsonArtifact :: "js_host \<Rightarrow> RadioTraceExportDocument \<Rightarrow> thrown + ExportArtifact" where
  "radioTraceJsonArtifact h document =
     (case artifactFilename h document (js ''json'') of
        Inl e \<Rightarrow> Inl e
      | Inr filename \<Rightarrow> Inr \<lparr>ea_contents = json_pretty 0 (document_value document) @ [10], ea_filename = filename,
          ea_mimeType = MimeJson\<rparr>)"

section \<open>The table\<close>

datatype CsvScalar = CsvNull | CsvBool bool | CsvNumber jstring | CsvString jstring

definition csv_path :: "jstring \<Rightarrow> jstring \<Rightarrow> jstring" where
  "csv_path prefix key = (if prefix = [] then key else prefix @ [46] @ key)"

lemma size_member: "(key, nested) \<in> set ms \<Longrightarrow> size nested < size (VObject ms)"
  by (induction ms) auto

function flattenCsvValue ::
  "js_host \<Rightarrow> export_value \<Rightarrow> jstring \<Rightarrow> (jstring \<times> CsvScalar) list \<Rightarrow> (jstring \<times> CsvScalar) list" where
  "flattenCsvValue h VNull prefix out = AList.update prefix CsvNull out"
| "flattenCsvValue h (VString s) prefix out = AList.update prefix (CsvString s) out"
| "flattenCsvValue h (VBool b) prefix out = AList.update prefix (CsvBool b) out"
| "flattenCsvValue h (VNumber t) prefix out = AList.update prefix (CsvNumber t) out"
| "flattenCsvValue h (VNonFinite t) prefix out = AList.update prefix (CsvString t) out"
| "flattenCsvValue h (VArray vs) prefix out = AList.update prefix (CsvString (json_compact (VArray vs))) out"
| "flattenCsvValue h (VObject ms) prefix out =
     (let entries = sort_key (\<lambda>(key, nested). jh_collation_key h key) ms
      in foldl (\<lambda>out' (key, nested). flattenCsvValue h nested (csv_path prefix key) out')
           (if entries = [] then AList.update prefix (CsvString (js ''{}'')) out else out) entries)"
| "flattenCsvValue h VUndefined prefix out = AList.update prefix (CsvString (js ''undefined'')) out"
  by pat_completeness auto

termination
  by (relation "measure (\<lambda>(h, v, prefix, out). size v)") (auto dest: size_member)

definition csv_text :: "CsvScalar option \<Rightarrow> jstring" where
  "csv_text value =
     (case value of
        None \<Rightarrow> []
      | Some CsvNull \<Rightarrow> []
      | Some (CsvBool b) \<Rightarrow> (if b then js ''true'' else js ''false'')
      | Some (CsvNumber t) \<Rightarrow> t
      | Some (CsvString s) \<Rightarrow> s)"

definition csv_special :: "nat \<Rightarrow> bool" where
  "csv_special c \<longleftrightarrow> c = 34 \<or> c = 44 \<or> c = 13 \<or> c = 10"

definition csv_escape :: "jstring \<Rightarrow> jstring" where
  "csv_escape text =
     (if list_ex csv_special text then [34] @ concat (map (\<lambda>c. if c = 34 then [34, 34] else [c]) text) @ [34] else text)"

definition csvCell :: "CsvScalar option \<Rightarrow> jstring" where
  "csvCell value = csv_escape (csv_text value)"

definition csv_row :: "js_host \<Rightarrow> RadioTraceExportDocument \<Rightarrow> export_value \<Rightarrow> (jstring \<times> CsvScalar) list" where
  "csv_row h document event =
     flattenCsvValue h event (js ''event'') (flattenCsvValue h (source_value (xd_source document)) (js ''source'')
       (AList.update (js ''export.scope.timeline_sequence'')
          (case xd_timeline_sequence document of None \<Rightarrow> CsvNull | Some n \<Rightarrow> CsvNumber (int_digits n))
       (AList.update (js ''export.history_incomplete'') (CsvBool (xd_history_incomplete document))
       (AList.update (js ''export.exported_at_unix_ms'') (CsvNumber (int_digits (xd_exported_at_unix_ms document)))
       (AList.update (js ''export.schema_version'') (CsvNumber (int_digits (xd_schema_version document)))
       (AList.update (js ''export.schema'') (CsvString (xd_schema document)) []))))))"

definition fixed_headers :: "jstring list" where
  "fixed_headers =
     [js ''export.schema'', js ''export.schema_version'', js ''export.exported_at_unix_ms'', js ''export.history_incomplete'',
      js ''export.scope.timeline_sequence'', js ''source.board_label'', js ''source.device_id'', js ''source.primary_destination'',
      js ''source.lxmf_delivery_destination'', js ''source.profile_key'']"

definition csv_headers :: "(jstring \<times> CsvScalar) list list \<Rightarrow> jstring list" where
  "csv_headers rows =
     fixed_headers @ sort (filter (\<lambda>header. header \<notin> set fixed_headers) (js_set_of (concat (map (map fst) rows))))"

definition csv_lines :: "jstring list \<Rightarrow> (jstring \<times> CsvScalar) list list \<Rightarrow> jstring list" where
  "csv_lines headers rows =
     js_join [44] (map (\<lambda>header. csvCell (Some (CsvString header))) headers) #
     map (\<lambda>row. js_join [44] (map (\<lambda>header. csvCell (map_of row header)) headers)) rows"

definition radioTraceCsvArtifact :: "js_host \<Rightarrow> RadioTraceExportDocument \<Rightarrow> thrown + ExportArtifact" where
  "radioTraceCsvArtifact h document =
     (let rows = map (csv_row h document) (xd_events document)
      in case artifactFilename h document (js ''csv'') of
           Inl e \<Rightarrow> Inl e
         | Inr filename \<Rightarrow> Inr \<lparr>ea_contents = js_join [13, 10] (csv_lines (csv_headers rows) rows) @ [13, 10],
             ea_filename = filename, ea_mimeType = MimeCsv\<rparr>)"

section \<open>Reading a table\<close>

datatype csv_state = FieldStart | PlainField | QuotedField | QuoteSeen | ReturnSeen

fun csv_read :: "csv_state \<Rightarrow> jstring \<Rightarrow> jstring list \<Rightarrow> jstring list list \<Rightarrow> jstring \<Rightarrow> jstring list list option" where
  "csv_read q field cols recs [] = (if q = FieldStart \<and> cols = [] then Some recs else None)"
| "csv_read FieldStart field cols recs (c # s) =
     (if c = 34 then csv_read QuotedField [] cols recs s
      else if c = 44 then csv_read FieldStart [] (cols @ [[]]) recs s
      else if c = 13 then csv_read ReturnSeen [] (cols @ [[]]) recs s
      else if c = 10 then None
      else csv_read PlainField [c] cols recs s)"
| "csv_read PlainField field cols recs (c # s) =
     (if c = 44 then csv_read FieldStart [] (cols @ [field]) recs s
      else if c = 13 then csv_read ReturnSeen [] (cols @ [field]) recs s
      else if c = 34 \<or> c = 10 then None
      else csv_read PlainField (field @ [c]) cols recs s)"
| "csv_read QuotedField field cols recs (c # s) =
     (if c = 34 then csv_read QuoteSeen field cols recs s else csv_read QuotedField (field @ [c]) cols recs s)"
| "csv_read QuoteSeen field cols recs (c # s) =
     (if c = 34 then csv_read QuotedField (field @ [34]) cols recs s
      else if c = 44 then csv_read FieldStart [] (cols @ [field]) recs s
      else if c = 13 then csv_read ReturnSeen [] (cols @ [field]) recs s
      else None)"
| "csv_read ReturnSeen field cols recs (c # s) =
     (if c = 10 then csv_read FieldStart [] [] (recs @ [cols]) s else None)"

definition csv_table :: "jstring \<Rightarrow> jstring list list option" where
  "csv_table s = csv_read FieldStart [] [] [] s"

definition csv_next :: "nat \<Rightarrow> csv_state" where
  "csv_next c = (if c = 44 then FieldStart else ReturnSeen)"

lemma read_plain:
  assumes "\<not> list_ex csv_special t" and "c = 44 \<or> c = 13"
  shows "csv_read PlainField field cols recs (t @ c # s) = csv_read (csv_next c) [] (cols @ [field @ t]) recs s"
  using assms by (induction t arbitrary: field) (auto simp: csv_special_def csv_next_def)

lemma read_quoted:
  assumes "c = 44 \<or> c = 13"
  shows "csv_read QuotedField field cols recs (concat (map (\<lambda>u. if u = 34 then [34, 34] else [u]) t) @ 34 # c # s) =
    csv_read (csv_next c) [] (cols @ [field @ t]) recs s"
  using assms by (induction t arbitrary: field) (auto simp: csv_next_def)

lemma read_cell:
  assumes "c = 44 \<or> c = 13"
  shows "csv_read FieldStart field cols recs (csv_escape t @ c # s) = csv_read (csv_next c) [] (cols @ [t]) recs s"
proof (cases "list_ex csv_special t")
  case True
  then show ?thesis using read_quoted [OF assms, of "[]"] by (simp add: csv_escape_def)
next
  case False
  show ?thesis
  proof (cases t)
    case Nil
    then show ?thesis using assms by (auto simp: csv_escape_def csv_next_def)
  next
    case (Cons u t')
    then have "\<not> csv_special u" "\<not> list_ex csv_special t'" using False by auto
    then show ?thesis
      using False Cons read_plain [of t' c "[u]"] assms by (auto simp: csv_escape_def csv_special_def)
  qed
qed

lemma read_record:
  assumes "cells \<noteq> []"
  shows "csv_read FieldStart [] cols recs (js_join [44] (map csv_escape cells) @ [13, 10] @ s) =
    csv_read FieldStart [] [] (recs @ [cols @ cells]) s"
  using assms
proof (induction cells arbitrary: cols)
  case (Cons t cells)
  show ?case
  proof (cases cells)
    case Nil
    then show ?thesis using read_cell [of 13 "[]" cols recs t "10 # s"] by (simp add: csv_next_def)
  next
    case (Cons t' cells')
    then have "js_join [44] (map csv_escape (t # cells)) = csv_escape t @ 44 # js_join [44] (map csv_escape cells)" by simp
    then show ?thesis
      using Cons.IH [of "cols @ [t]"] Cons read_cell [of 44 "[]" cols recs t] by (simp add: csv_next_def)
  qed
qed simp

lemma read_records:
  assumes "\<forall>cells \<in> set table. cells \<noteq> []" and "table \<noteq> []"
  shows "csv_read FieldStart [] [] recs (js_join [13, 10] (map (\<lambda>cells. js_join [44] (map csv_escape cells)) table) @ [13, 10]) =
    Some (recs @ table)"
  using assms
proof (induction table arbitrary: recs)
  case (Cons cells table)
  show ?case
  proof (cases table)
    case Nil
    then show ?thesis using Cons.prems read_record [of cells "[]" recs "[]"] by simp
  next
    case (Cons cells' table')
    then have "js_join [13, 10] (map (\<lambda>cells. js_join [44] (map csv_escape cells)) (cells # table)) @ [13, 10] =
        js_join [44] (map csv_escape cells) @ [13, 10] @
          (js_join [13, 10] (map (\<lambda>cells. js_join [44] (map csv_escape cells)) table) @ [13, 10])" by simp
    then show ?thesis
      using Cons Cons.IH [of "recs @ [cells]"] Cons.prems read_record [of cells "[]" recs] by simp
  qed
qed simp

section \<open>What the table holds\<close>

text \<open>The fields of a value, by their paths: the reference for the flattened row.\<close>

fun csv_leaves :: "export_value \<Rightarrow> jstring \<Rightarrow> (jstring \<times> CsvScalar) list" where
  "csv_leaves VNull prefix = [(prefix, CsvNull)]"
| "csv_leaves VUndefined prefix = [(prefix, CsvString (js ''undefined''))]"
| "csv_leaves (VBool b) prefix = [(prefix, CsvBool b)]"
| "csv_leaves (VNumber t) prefix = [(prefix, CsvNumber t)]"
| "csv_leaves (VNonFinite t) prefix = [(prefix, CsvString t)]"
| "csv_leaves (VString s) prefix = [(prefix, CsvString s)]"
| "csv_leaves (VArray vs) prefix = [(prefix, CsvString (json_compact (VArray vs)))]"
| "csv_leaves (VObject ms) prefix =
     (if ms = [] then [(prefix, CsvString (js ''{}''))]
      else concat (map (\<lambda>(key, nested). csv_leaves nested (csv_path prefix key)) ms))"

lemma mset_concat_map: "mset xs = mset ys \<Longrightarrow> mset (concat (map f xs)) = mset (concat (map f ys))"
proof -
  assume "mset xs = mset ys"
  then have "mset (map (\<lambda>x. mset (f x)) xs) = mset (map (\<lambda>x. mset (f x)) ys)" by simp
  then have "sum_list (map (\<lambda>x. mset (f x)) xs) = sum_list (map (\<lambda>x. mset (f x)) ys)"
    by (metis sum_mset_sum_list)
  then show ?thesis by (simp add: mset_concat comp_def)
qed

lemma map_of_perm: "mset xs = mset ys \<Longrightarrow> distinct (map fst xs) \<Longrightarrow> distinct (map fst ys) \<and> map_of xs = map_of ys"
proof -
  assume eq: "mset xs = mset ys" and dist: "distinct (map fst xs)"
  have "mset (map fst xs) = mset (map fst ys)" using eq by simp
  then have "distinct (map fst ys)" using dist mset_eq_imp_distinct_iff by blast
  moreover have "set xs = set ys" using eq by (rule mset_eq_setD)
  ultimately show ?thesis using dist map_of_inject_set by blast
qed

lemma foldl_flatten:
  assumes "\<And>key nested out. (key, nested) \<in> set ms \<Longrightarrow>
      map_of (flattenCsvValue h nested (csv_path prefix key) out) = map_of out ++ map_of (csv_leaves nested (csv_path prefix key))"
    and "distinct (map fst (concat (map (\<lambda>(key, nested). csv_leaves nested (csv_path prefix key)) ms)))"
  shows "map_of (foldl (\<lambda>out' (key, nested). flattenCsvValue h nested (csv_path prefix key) out') out ms) =
    map_of out ++ map_of (concat (map (\<lambda>(key, nested). csv_leaves nested (csv_path prefix key)) ms))"
  using assms
proof (induction ms arbitrary: out)
  case (Cons m ms)
  obtain key nested where m: "m = (key, nested)" by fastforce
  let ?a = "csv_leaves nested (csv_path prefix key)"
  let ?b = "concat (map (\<lambda>(key, nested). csv_leaves nested (csv_path prefix key)) ms)"
  have "distinct (map fst (?a @ ?b))" using Cons.prems(2) by (simp add: m)
  then have comm: "map_of ?a ++ map_of ?b = map_of ?b ++ map_of ?a"
    by (intro map_add_comm) (auto simp: dom_map_of_conv_image_fst)
  have "map_of (foldl (\<lambda>out' (key, nested). flattenCsvValue h nested (csv_path prefix key) out') out (m # ms)) =
      map_of (flattenCsvValue h nested (csv_path prefix key) out) ++ map_of ?b"
    using Cons.IH [of "flattenCsvValue h nested (csv_path prefix key) out"] Cons.prems by (simp add: m)
  also have "\<dots> = map_of out ++ map_of ?a ++ map_of ?b" using Cons.prems(1) by (simp add: m)
  also have "\<dots> = map_of out ++ (map_of ?b ++ map_of ?a)" by (simp only: comm [symmetric] map_add_assoc)
  finally show ?case by (simp add: m)
qed simp

lemma flatten_leaves:
  "distinct (map fst (csv_leaves v prefix)) \<Longrightarrow>
   map_of (flattenCsvValue h v prefix out) = map_of out ++ map_of (csv_leaves v prefix)"
proof (induction h v prefix out rule: flattenCsvValue.induct)
  case (7 h ms prefix out)
  let ?leaves = "\<lambda>(key, nested). csv_leaves nested (csv_path prefix key)"
  let ?sorted = "sort_key (\<lambda>(key, nested). jh_collation_key h key) ms"
  show ?case
  proof (cases "ms = []")
    case True
    then show ?thesis by (simp add: update_conv' fun_eq_iff map_add_def)
  next
    case False
    have "mset (concat (map ?leaves ms)) = mset (concat (map ?leaves ?sorted))" by (rule mset_concat_map) simp
    then have perm: "distinct (map fst (concat (map ?leaves ?sorted)))"
        "map_of (concat (map ?leaves ms)) = map_of (concat (map ?leaves ?sorted))"
      using map_of_perm [of "concat (map ?leaves ms)"] 7(2) False by simp_all
    have "distinct (map fst (csv_leaves nested (csv_path prefix key)))" if "(key, nested) \<in> set ms" for key nested
      using 7(2) False that by (auto simp: distinct_concat_iff map_concat)
    then have IH: "map_of (flattenCsvValue h nested (csv_path prefix key) out) =
        map_of out ++ map_of (csv_leaves nested (csv_path prefix key))" if "(key, nested) \<in> set ?sorted" for key nested out
      using 7(1) [OF refl that refl] that by simp
    have "?sorted \<noteq> []" using False by (metis length_0_conv length_sort)
    then show ?thesis using foldl_flatten [OF IH perm(1)] perm(2) False by simp
  qed
qed (simp_all add: update_conv' fun_eq_iff map_add_def)

lemma fixed_headers_distinct: "distinct fixed_headers"
  by code_simp

lemma csv_headers_distinct: "distinct (csv_headers rows)"
  using fixed_headers_distinct by (auto simp: csv_headers_def)

lemma csv_headers_keys: "row \<in> set rows \<Longrightarrow> key \<in> set (map fst row) \<Longrightarrow> key \<in> set (csv_headers rows)"
  by (force simp: csv_headers_def)

lemma csv_headers_nonempty: "csv_headers rows \<noteq> []"
  by (simp add: csv_headers_def fixed_headers_def)

lemma csv_lines_cells:
  "csv_lines headers rows = map (\<lambda>cells. js_join [44] (map csv_escape cells))
     (headers # map (\<lambda>row. map (\<lambda>header. csv_text (map_of row header)) headers) rows)"
  by (simp add: csv_lines_def csvCell_def csv_text_def comp_def)

lemma csv_table_lines:
  "headers \<noteq> [] \<Longrightarrow> csv_table (js_join [13, 10] (csv_lines headers rows) @ [13, 10]) =
     Some (headers # map (\<lambda>row. map (\<lambda>header. csv_text (map_of row header)) headers) rows)"
  unfolding csv_table_def csv_lines_cells by (subst read_records) auto

lemma csv_row_leaf:
  assumes "distinct (map fst (csv_leaves event (js ''event'')))" and "(path, v) \<in> set (csv_leaves event (js ''event''))"
  shows "map_of (csv_row h d event) path = Some v"
  using assms by (simp add: csv_row_def flatten_leaves)

section \<open>File names\<close>

lemma hyphenate_units: "c \<in> set (hyphenate b s) \<Longrightarrow> filename_unit c"
  by (induction b s rule: hyphenate.induct) (auto simp: filename_unit_def split: if_splits)

lemma trim_hyphens_units: "set (trim_hyphens s) \<subseteq> set s"
  unfolding trim_hyphens_def by (metis set_rev set_dropWhileD subsetI)

lemma safeFilenamePart_units: "c \<in> set (safeFilenamePart h v) \<Longrightarrow> filename_unit c"
proof -
  have "c \<in> set (js ''appliance'') \<Longrightarrow> filename_unit c" by (auto simp: filename_unit_def)
  then show "c \<in> set (safeFilenamePart h v) \<Longrightarrow> filename_unit c"
    using hyphenate_units subsetD [OF trim_hyphens_units, of c]
    by (auto simp: safeFilenamePart_def Let_def split: if_splits dest!: in_set_takeD)
qed

lemma safeFilenamePart_length: "0 < length (safeFilenamePart h v) \<and> length (safeFilenamePart h v) \<le> 64"
  by (simp add: safeFilenamePart_def Let_def)

text \<open>The characters of the time stamp: digits and the signs of the notation.\<close>

definition stamp_unit :: "nat \<Rightarrow> bool" where
  "stamp_unit c \<longleftrightarrow> is_digit c \<or> c = 43 \<or> c = 46 \<or> c = 84 \<or> c = 90"

lemma padded_units: "c \<in> set (padded n i) \<Longrightarrow> is_digit c"
  by (auto simp: padded_def js_padStart_def is_digit_def dest: nat_digits_digit)

lemma js_toISOString_units: "c \<in> set (js_toISOString ms) \<Longrightarrow> stamp_unit c \<or> c = 45 \<or> c = 58"
  by (auto simp: js_toISOString_def Let_def stamp_unit_def dest: padded_units split: prod.splits if_splits)

lemma js_replace_first_units: "c \<in> set (js_replace_first p r s) \<Longrightarrow> c \<in> set r \<or> c \<in> set s"
proof (induction s)
  case (Cons d s)
  then show ?case by (auto split: if_splits dest: in_set_dropD)
qed (auto split: if_splits)

lemma compactUtcTimestamp_units: "compactUtcTimestamp ms = Inr t \<Longrightarrow> c \<in> set t \<Longrightarrow> stamp_unit c"
  by (auto simp: compactUtcTimestamp_def stamp_unit_def split: if_splits dest!: js_replace_first_units js_toISOString_units)

definition export_host :: js_host where
  "export_host = \<lparr>jh_format_medium = (\<lambda>_. []), jh_format_short = (\<lambda>_. []), jh_lower = js_lower, jh_collation_key = id\<rparr>"

definition export_document :: RadioTraceExportDocument where
  "export_document = \<lparr>xd_schema = RADIO_TRACE_EXPORT_SCHEMA, xd_schema_version = 1, xd_exported_at_unix_ms = 1700000000000,
     xd_source = \<lparr>xs_board_label = js ''My Board/1'', xs_device_id = None, xs_lxmf_delivery_destination = None,
       xs_primary_destination = None, xs_profile_key = None\<rparr>,
     xd_timeline_sequence = None, xd_history_incomplete = False,
     xd_events = [VObject [(js ''note'', VString (js ''a,\"b\"''))]]\<rparr>"

text \<open>Only a time outside the range of \<open>Date\<close> leaves an export without a name.\<close>

lemma artifactFilename_total:
  "js_date_valid (xd_exported_at_unix_ms d) \<Longrightarrow> \<exists>name. artifactFilename h d extension = Inr name"
  by (simp add: artifactFilename_def compactUtcTimestamp_def Let_def)

lemma export_document_name: "\<exists>name. artifactFilename h export_document extension = Inr name"
  by (rule artifactFilename_total) (simp add: export_document_def js_date_valid_def)

section \<open>Properties\<close>

text \<open>
  C36. The table of the export loses nothing and confuses nothing: a reader of RFC 4180 tables reads its contents back as one
  line of distinct headers and one line for each event, in order; and every field of an event, at any depth, stands
  in the column of its path, whatever characters it has, provided that the paths of the event are distinct.
\<close>

theorem csv_lossless:
  assumes "radioTraceCsvArtifact h d = Inr a"
  shows "\<exists>headers rows. csv_table (ea_contents a) = Some (headers # rows) \<and> distinct headers \<and>
    length rows = length (xd_events d) \<and>
    (\<forall>i path v. i < length rows \<and> distinct (map fst (csv_leaves (xd_events d ! i) (js ''event''))) \<and>
       (path, v) \<in> set (csv_leaves (xd_events d ! i) (js ''event'')) \<longrightarrow>
       (\<exists>j < length headers. headers ! j = path \<and> rows ! i ! j = csv_text (Some v)))"
proof -
  let ?rows = "map (csv_row h d) (xd_events d)"
  let ?headers = "csv_headers ?rows"
  let ?table = "map (\<lambda>row. map (\<lambda>header. csv_text (map_of row header)) ?headers) ?rows"
  have "ea_contents a = js_join [13, 10] (csv_lines ?headers ?rows) @ [13, 10]"
    using assms by (auto simp: radioTraceCsvArtifact_def Let_def split: sum.splits)
  then have "csv_table (ea_contents a) = Some (?headers # ?table)"
    using csv_table_lines [OF csv_headers_nonempty] by simp
  moreover have "\<exists>j < length ?headers. ?headers ! j = path \<and> ?table ! i ! j = csv_text (Some v)"
    if i: "i < length ?table" and leaf: "distinct (map fst (csv_leaves (xd_events d ! i) (js ''event'')))"
      "(path, v) \<in> set (csv_leaves (xd_events d ! i) (js ''event''))" for i path v
  proof -
    have row: "map_of (csv_row h d (xd_events d ! i)) path = Some v" using leaf by (rule csv_row_leaf)
    then have "path \<in> set (map fst (csv_row h d (xd_events d ! i)))" by (force dest: map_of_SomeD)
    then have "path \<in> set ?headers" using i by (intro csv_headers_keys [of "csv_row h d (xd_events d ! i)"]) auto
    then obtain j where "j < length ?headers" "?headers ! j = path" by (auto simp: in_set_conv_nth)
    then show ?thesis using row i by (intro exI [of _ j]) simp
  qed
  ultimately show ?thesis
    using csv_headers_distinct by (intro exI [of _ ?headers] exI [of _ ?table]) auto
qed

theorem csv_lossless_witness:
  "\<exists>a headers rows j. radioTraceCsvArtifact export_host export_document = Inr a \<and>
     csv_table (ea_contents a) = Some (headers # rows) \<and> distinct headers \<and> headers ! j = js ''event.note'' \<and>
     rows ! 0 ! j = js ''a,\"b\"''"
proof -
  obtain a where a: "radioTraceCsvArtifact export_host export_document = Inr a"
    using export_document_name [of export_host "js ''csv''"] by (auto simp: radioTraceCsvArtifact_def Let_def)
  have leaves: "csv_leaves (xd_events export_document ! 0) (js ''event'') = [(js ''event.note'', CsvString (js ''a,\"b\"''))]"
    by code_simp
  have "length (xd_events export_document) = 1" by code_simp
  then obtain headers rows j where
    "csv_table (ea_contents a) = Some (headers # rows)" "distinct headers" "headers ! j = js ''event.note''"
    "rows ! 0 ! j = csv_text (Some (CsvString (js ''a,\"b\"'')))"
    using csv_lossless [OF a] leaves by fastforce
  then show ?thesis using a by (intro exI conjI) (assumption | simp add: csv_text_def)+
qed

text \<open>
  The name of an exported file is safe on every platform: whatever the label of the board is, the name is not empty, has no path
  separator, space or control character, and the part taken from the label has at most 64 characters.
\<close>

theorem export_filename_safe:
  assumes "artifactFilename h d extension = Inr name" and "extension = js ''csv'' \<or> extension = js ''json''"
  shows "(\<exists>rest. name = js ''reticulum-rf-trace-'' @ safeFilenamePart h (xs_board_label (xd_source d)) @ [45] @ rest) \<and>
    safeFilenamePart h (xs_board_label (xd_source d)) \<noteq> [] \<and>
    length (safeFilenamePart h (xs_board_label (xd_source d))) \<le> 64 \<and>
    list_all (\<lambda>c. filename_unit c \<or> stamp_unit c) name"
proof -
  let ?part = "safeFilenamePart h (xs_board_label (xd_source d))"
  let ?scope = "case xd_timeline_sequence d of None \<Rightarrow> js ''all'' | Some n \<Rightarrow> js ''message-'' @ int_digits n"
  obtain stamp where stamp: "compactUtcTimestamp (xd_exported_at_unix_ms d) = Inr stamp"
      and name: "name = js ''reticulum-rf-trace-'' @ ?part @ [45] @ ?scope @ [45] @ stamp @ [46] @ extension"
    using assms(1) by (auto simp: artifactFilename_def Let_def split: sum.splits)
  have "filename_unit c" if "c \<in> set ?scope" for c
    using that int_digits_units by (auto simp: filename_unit_def split: option.splits dest!: int_digits_units)
  moreover have "filename_unit c" if "c \<in> set extension" for c using that assms(2) by (auto simp: filename_unit_def)
  moreover have "filename_unit c" if "c \<in> set (js ''reticulum-rf-trace-'')" for c using that by (auto simp: filename_unit_def)
  moreover have "filename_unit 45" "filename_unit 46" by (simp_all add: filename_unit_def)
  ultimately have "list_all (\<lambda>c. filename_unit c \<or> stamp_unit c) name"
    using compactUtcTimestamp_units [OF stamp] safeFilenamePart_units [of _ h "xs_board_label (xd_source d)"]
    unfolding name list_all_iff set_append list.set by blast
  moreover have "\<exists>rest. name = js ''reticulum-rf-trace-'' @ ?part @ [45] @ rest" using name by blast
  ultimately show ?thesis using safeFilenamePart_length [of h "xs_board_label (xd_source d)"] by auto
qed

theorem export_filename_safe_witness:
  "\<exists>name. artifactFilename export_host export_document (js ''csv'') = Inr name \<and>
     list_all (\<lambda>c. filename_unit c \<or> stamp_unit c) name"
proof -
  obtain name where name: "artifactFilename export_host export_document (js ''csv'') = Inr name"
    using export_document_name by blast
  then show ?thesis using export_filename_safe [OF name] by blast
qed


text \<open>The strings of a document and its events are such as the program can hold.\<close>

definition document_ok :: "RadioTraceExportDocument \<Rightarrow> bool" where
  "document_ok d \<longleftrightarrow> json_ok (VString (xd_schema d)) \<and> json_ok (source_value (xd_source d)) \<and> list_all json_ok (xd_events d)"

text \<open>
  C37. The JSON export is lossless: \<open>JSON.parse\<close> reads the exported file back as the document, with its schema, the time, the
  source, the scope, whether the history is incomplete, and every event in order. An undefined member of an event is absent and a
  number JSON cannot write is null.
\<close>

theorem json_export_lossless:
  assumes "radioTraceJsonArtifact h d = Inr a" and "document_ok d"
  shows "json_parse (ea_contents a) = Some (VObject
     [(js ''schema'', VString (xd_schema d)), (js ''schema_version'', VNumber (int_digits (xd_schema_version d))),
      (js ''exported_at_unix_ms'', VNumber (int_digits (xd_exported_at_unix_ms d))), (js ''source'', source_value (xd_source d)),
      (js ''scope'', VObject [(js ''timeline_sequence'', optional_int (xd_timeline_sequence d))]),
      (js ''history_incomplete'', VBool (xd_history_incomplete d)), (js ''events'', VArray (map json_normal (xd_events d)))])"
proof -
  have contents: "ea_contents a = json_pretty 0 (document_value d) @ [10]"
    using assms(1) by (auto simp: radioTraceJsonArtifact_def split: sum.splits)
  have scope: "json_ok (optional_int n)" "json_normal (optional_int n) = optional_int n" "\<not> is_undefined (optional_int n)" for n
    using json_ok_int by (auto simp: optional_int_def simp del: json_ok.simps split: option.splits) auto
  have source: "json_normal (source_value s) = source_value s" "\<not> is_undefined (source_value s)" for s
    by (auto simp: source_value_def optional_string_def split: option.splits)
  have "json_ok (document_value d)"
    using assms(2) scope json_ok_int unfolding document_value_def document_ok_def by (simp add: json_units_def)
  moreover have "json_blank [10]" by (simp add: json_blank_def json_ws_def)
  ultimately have "json_parse (ea_contents a) = Some (json_normal (document_value d))"
    unfolding contents by (rule json_roundtrip)
  then show ?thesis by (simp add: document_value_def scope source)
qed

theorem json_export_lossless_witness:
  "\<exists>a ms. radioTraceJsonArtifact export_host export_document = Inr a \<and> document_ok export_document \<and>
     json_parse (ea_contents a) = Some (VObject ms) \<and>
     map_of ms (js ''events'') = Some (VArray [VObject [(js ''note'', VString (js ''a,\"b\"''))]])"
proof -
  obtain a where a: "radioTraceJsonArtifact export_host export_document = Inr a"
    using export_document_name [of export_host "js ''json''"] by (auto simp: radioTraceJsonArtifact_def)
  have ok: "document_ok export_document"
    by (simp add: document_ok_def export_document_def source_value_def optional_string_def json_units_def RADIO_TRACE_EXPORT_SCHEMA_def)
  have events: "map json_normal (xd_events export_document) = [VObject [(js ''note'', VString (js ''a,\"b\"''))]]"
    by (simp add: export_document_def)
  show ?thesis using a ok json_export_lossless [OF a ok] unfolding events by (intro exI conjI) (assumption | simp)+
qed

end
