(* ===== verification/ApplianceTools.thy ===== *)
theory ApplianceTools
  imports TransmissionMap PagedReads
begin

text \<open>
  Three smaller machines of \<open>ApplianceProvider\<close> in \<open>lib/appliance-context.tsx\<close>: the firmware update, the evidence of a
  selected map feature and the label of the appliance. They share the active appliance, \<open>networkDeviceKey\<close>, which changes
  under them. A handler that reads state from the render it belongs to takes that state from the states rendered so far.
\<close>

section \<open>Firmware update\<close>

datatype NativePrnsOtaPhase = OtaIdle | OtaReceiving | OtaActivated | OtaFailed
datatype NativePrnsOtaSlot = Ota0 | Ota1

record NativePrnsOtaStatus =
  os_phase :: NativePrnsOtaPhase
  os_session :: "jstring option"
  os_slot :: "NativePrnsOtaSlot option"
  os_version :: "jstring option"
  os_imageBytes :: nat
  os_verifiedBytes :: nat
  os_nextChunk :: nat
  os_resourceArmed :: bool
  os_failure :: "jstring option"

datatype FirmwareUpdateState =
  FwUnavailable
| FwIdle
| FwSelecting
| FwStaging jstring nat jstring \<comment> \<open>file name, image bytes, version\<close>
| FwStaged jstring NativePrnsOtaStatus
| FwRebooting jstring NativePrnsOtaStatus
| FwRebootRequested jstring NativePrnsOtaStatus
| FwFailed jstring "jstring option" \<comment> \<open>error, file name\<close>

datatype firmware_task =
  FwPicking jstring \<comment> \<open>awaits the choice of a file; version\<close>
| FwReading jstring nat jstring \<comment> \<open>awaits the bytes of the file\<close>
| FwUploading jstring jstring \<comment> \<open>awaits \<open>stageFirmwareUpdate\<close>; file name, active appliance at the call\<close>
| FwRestarting jstring \<comment> \<open>awaits \<open>rebootIntoStagedFirmware\<close>; file name\<close>

datatype firmware_event =
  CalledStage jstring jstring nat \<comment> \<open>appliance, version, image bytes\<close>
| StageAccepted jstring \<comment> \<open>appliance\<close>
| CalledReboot jstring \<comment> \<open>appliance\<close>

record firmware =
  fw_device :: jstring \<comment> \<open>the active appliance\<close>
  fw_state :: FirmwareUpdateState
  fw_rendered :: "FirmwareUpdateState list"
  fw_tasks :: "firmware_task list"
  fw_log :: "firmware_event list" \<comment> \<open>newest first\<close>

text \<open>Initially \<open>idle\<close> when the client has both operations.\<close>

definition firmware_initial :: "bool \<Rightarrow> FirmwareUpdateState" where
  "firmware_initial supported = (if supported then FwIdle else FwUnavailable)"

definition firmware_new :: "jstring \<Rightarrow> bool \<Rightarrow> firmware" where
  "firmware_new device supported = \<lparr>fw_device = device, fw_state = firmware_initial supported,
     fw_rendered = [firmware_initial supported], fw_tasks = [], fw_log = []\<rparr>"

definition setFirmwareUpdateState :: "FirmwareUpdateState \<Rightarrow> firmware \<Rightarrow> firmware" where
  "setFirmwareUpdateState u f = f\<lparr>fw_state := u, fw_rendered := u # fw_rendered f\<rparr>"

text \<open>\<^verbatim>\<open>/^[!-~]{1,32}$/\<close>.\<close>

definition release_label_ok :: "jstring \<Rightarrow> bool" where
  "release_label_ok version \<longleftrightarrow> 1 \<le> length version \<and> length version \<le> 32 \<and> list_all (\<lambda>c. 33 \<le> c \<and> c \<le> 126) version"

definition image_size_ok :: "nat \<Rightarrow> bool" where
  "image_size_ok size' \<longleftrightarrow> \<not> (size' < 64 \<or> size' > 5 * 1024 * 1024)"

definition stageFirmwareUpdate :: "jstring \<Rightarrow> firmware \<Rightarrow> firmware" where
  "stageFirmwareUpdate versionInput f =
     (let version = js_trim versionInput
      in if \<not> release_label_ok version
         then setFirmwareUpdateState
                (FwFailed (js ''Release label must be 1'' @ [8211] @ js ''32 printable ASCII characters without spaces.'') None) f
         else (setFirmwareUpdateState FwSelecting f)\<lparr>fw_tasks := fw_tasks f @ [FwPicking version]\<rparr>)"

text \<open>The choice of a file: cancelled, or its name and size.\<close>

definition firmware_picked :: "jstring \<Rightarrow> (jstring \<times> nat) option settled \<Rightarrow> firmware \<Rightarrow> firmware" where
  "firmware_picked version result f =
     (case result of
        Rejected e \<Rightarrow> setFirmwareUpdateState (FwFailed (errorText e) None) f
      | Fulfilled None \<Rightarrow> setFirmwareUpdateState FwIdle f
      | Fulfilled (Some (fileName, size')) \<Rightarrow>
          if \<not> image_size_ok size'
          then setFirmwareUpdateState (FwFailed (js ''Select a complete E290 application image between 64 bytes and 5 MiB.'') (Some fileName)) f
          else (setFirmwareUpdateState (FwStaging fileName size' version) f)
                 \<lparr>fw_tasks := fw_tasks f @ [FwReading fileName size' version]\<rparr>)"

definition firmware_read :: "jstring \<Rightarrow> nat \<Rightarrow> jstring \<Rightarrow> unit settled \<Rightarrow> firmware \<Rightarrow> firmware" where
  "firmware_read fileName size' version result f =
     (case result of
        Rejected e \<Rightarrow> setFirmwareUpdateState (FwFailed (errorText e) (Some fileName)) f
      | Fulfilled _ \<Rightarrow> f\<lparr>fw_tasks := fw_tasks f @ [FwUploading fileName (fw_device f)],
                        fw_log := CalledStage (fw_device f) version size' # fw_log f\<rparr>)"

definition firmware_staged :: "jstring \<Rightarrow> jstring \<Rightarrow> NativePrnsOtaStatus settled \<Rightarrow> firmware \<Rightarrow> firmware" where
  "firmware_staged fileName device result f =
     (case result of
        Rejected e \<Rightarrow> setFirmwareUpdateState (FwFailed (errorText e) (Some fileName)) f
      | Fulfilled status \<Rightarrow>
          (setFirmwareUpdateState (FwStaged fileName status) f)\<lparr>fw_log := StageAccepted device # fw_log f\<rparr>)"

text \<open>\<open>firmwareUpdateState\<close> is the state of the render the handler belongs to.\<close>

definition rebootIntoStagedFirmware :: "FirmwareUpdateState \<Rightarrow> firmware \<Rightarrow> firmware" where
  "rebootIntoStagedFirmware rendered f =
     (case rendered of
        FwStaged fileName status \<Rightarrow>
          (setFirmwareUpdateState (FwRebooting fileName status) f)
            \<lparr>fw_tasks := fw_tasks f @ [FwRestarting fileName], fw_log := CalledReboot (fw_device f) # fw_log f\<rparr>
      | _ \<Rightarrow> f)"

definition firmware_restarted :: "jstring \<Rightarrow> NativePrnsOtaStatus settled \<Rightarrow> firmware \<Rightarrow> firmware" where
  "firmware_restarted fileName result f =
     (case result of
        Rejected e \<Rightarrow> setFirmwareUpdateState (FwFailed (errorText e) (Some fileName)) f
      | Fulfilled status \<Rightarrow> setFirmwareUpdateState (FwRebootRequested fileName status) f)"

definition clearFirmwareUpdate :: "bool \<Rightarrow> firmware \<Rightarrow> firmware" where
  "clearFirmwareUpdate supported f = setFirmwareUpdateState (firmware_initial supported) f"

definition firmware_end_task :: "firmware_task \<Rightarrow> firmware \<Rightarrow> firmware" where
  "firmware_end_task t f = f\<lparr>fw_tasks := remove1 t (fw_tasks f)\<rparr>"

text \<open>
  The handlers, the completions, and a change of the active appliance (\<open>fw_switch\<close>), to which \<open>api\<close> then belongs. The
  state is held by \<open>useState\<close> and set by the handlers above only, so that the change leaves it as it is.
\<close>

inductive firmware_step :: "firmware \<Rightarrow> firmware \<Rightarrow> bool" where
  fw_stage: "firmware_step f (stageFirmwareUpdate versionInput f)"
| fw_reboot: "rendered \<in> set (fw_rendered f) \<Longrightarrow> firmware_step f (rebootIntoStagedFirmware rendered f)"
| fw_clear: "firmware_step f (clearFirmwareUpdate True f)"
| fw_switch: "firmware_step f (f\<lparr>fw_device := device\<rparr>)"
| fw_picked: "FwPicking version \<in> set (fw_tasks f) \<Longrightarrow>
    firmware_step f (firmware_picked version choice (firmware_end_task (FwPicking version) f))"
| fw_read: "FwReading fileName n version \<in> set (fw_tasks f) \<Longrightarrow>
    firmware_step f (firmware_read fileName n version bytes (firmware_end_task (FwReading fileName n version) f))"
| fw_uploaded: "FwUploading fileName device \<in> set (fw_tasks f) \<Longrightarrow>
    firmware_step f (firmware_staged fileName device status (firmware_end_task (FwUploading fileName device) f))"
| fw_restart: "FwRestarting fileName \<in> set (fw_tasks f) \<Longrightarrow>
    firmware_step f (firmware_restarted fileName status (firmware_end_task (FwRestarting fileName) f))"

section \<open>Evidence of a map feature\<close>

record MapFeatureEvidence =
  mf_events :: "RadioTraceEventView list"
  mf_historyIncomplete :: bool
  mf_profileKey :: jstring
  mf_timelineSequence :: int

record evidence_read =
  er_request :: nat
  er_profileKey :: jstring
  er_timelineSequence :: int

text \<open>\<open>ev_effect\<close>: the effect of a changed appliance has not run yet.\<close>

record evidence =
  ev_profileKey :: "jstring option" \<comment> \<open>\<open>mapProfileKeyRef\<close>, the key of the last render\<close>
  ev_effect :: bool
  ev_requests :: latest_request
  ev_evidence :: "MapFeatureEvidence option"
  ev_error :: "jstring option"
  ev_loading :: bool
  ev_reads :: "evidence_read list"
  ev_selected :: "int option" \<comment> \<open>observation: the sequence of the last selection that reads\<close>

definition evidence_new :: evidence where
  "evidence_new = \<lparr>ev_profileKey = None, ev_effect = False, ev_requests = latest_request_new, ev_evidence = None, ev_error = None,
     ev_loading = False, ev_reads = [], ev_selected = None\<rparr>"

text \<open>\<open>selectMapFeature\<close>; \<open>available\<close> is whether the client has \<open>radioTrace\<close>.\<close>

definition selectMapFeature :: "bool \<Rightarrow> TransmissionMapFeatureDetails option \<Rightarrow> evidence \<Rightarrow> evidence" where
  "selectMapFeature available feature s =
     (let (request, requests) = lr_begin (ev_requests s);
          s1 = s\<lparr>ev_requests := requests, ev_evidence := None, ev_error := None\<rparr>;
          sequence' = Option.bind feature (\<lambda>d. if md_kind d = AttemptFeature then md_timelineSequence d else None)
      in case (sequence', ev_profileKey s1) of
           (Some n, Some profileKey) \<Rightarrow>
             if \<not> available then s1\<lparr>ev_loading := False, ev_selected := None\<rparr>
             else s1\<lparr>ev_loading := True, ev_selected := Some n,
                     ev_reads := ev_reads s1 @ [\<lparr>er_request = request, er_profileKey = profileKey, er_timelineSequence = n\<rparr>]\<rparr>
         | _ \<Rightarrow> s1\<lparr>ev_loading := False, ev_selected := None\<rparr>)"

definition evidence_current :: "evidence \<Rightarrow> evidence_read \<Rightarrow> bool" where
  "evidence_current s r \<longleftrightarrow> lr_accepts (ev_requests s) (er_request r) \<and> ev_profileKey s = Some (er_profileKey r)"

text \<open>The \<open>then\<close>, \<open>catch\<close> and \<open>finally\<close> of the collection.\<close>

definition evidence_settles :: "evidence_read \<Rightarrow> RadioTraceEventView RadioTraceCollection settled \<Rightarrow> evidence \<Rightarrow> evidence" where
  "evidence_settles r result s =
     (let s1 = s\<lparr>ev_reads := remove1 r (ev_reads s)\<rparr>
      in if \<not> evidence_current s1 r then s1
         else (case result of
                 Fulfilled c \<Rightarrow>
                   s1\<lparr>ev_evidence := Some \<lparr>mf_events = rtc_events c, mf_historyIncomplete = rtc_historyIncomplete c,
                        mf_profileKey = er_profileKey r, mf_timelineSequence = er_timelineSequence r\<rparr>\<rparr>
               | Rejected e \<Rightarrow> s1\<lparr>ev_error := Some (errorText e)\<rparr>)\<lparr>ev_loading := False\<rparr>)"

definition evidence_render :: "jstring option \<Rightarrow> evidence \<Rightarrow> evidence" where
  "evidence_render key s = s\<lparr>ev_effect := (ev_effect s \<or> key \<noteq> ev_profileKey s), ev_profileKey := key\<rparr>"

definition evidence_effect :: "evidence \<Rightarrow> evidence" where
  "evidence_effect s = s\<lparr>ev_effect := False, ev_requests := lr_invalidate (ev_requests s), ev_evidence := None, ev_error := None,
     ev_loading := False, ev_selected := None\<rparr>"

definition scopedMapFeatureEvidence :: "evidence \<Rightarrow> MapFeatureEvidence option" where
  "scopedMapFeatureEvidence s =
     (case ev_evidence s of
        None \<Rightarrow> None
      | Some e \<Rightarrow> if ev_profileKey s = Some (mf_profileKey e) then Some e else None)"

text \<open>\<open>mapRadioTraceEvents\<close>: the page and the evidence, each event once, with its later reading.\<close>

definition mapRadioTraceEvents :: "RadioTraceEventView page option \<Rightarrow> evidence \<Rightarrow> RadioTraceEventView list" where
  "mapRadioTraceEvents radioTracePage s =
     map snd (foldl (\<lambda>m event. AList.update (te_event_id event) event m) []
       ((case radioTracePage of None \<Rightarrow> [] | Some p \<Rightarrow> pv_events p) @
        (case scopedMapFeatureEvidence s of None \<Rightarrow> [] | Some e \<Rightarrow> mf_events e)))"

inductive evidence_step :: "evidence \<Rightarrow> evidence \<Rightarrow> bool" where
  ev_select: "evidence_step s (selectMapFeature available feature s)"
| ev_render: "evidence_step s (evidence_render key s)"
| ev_run_effect: "ev_effect s \<Longrightarrow> evidence_step s (evidence_effect s)"
| ev_settle: "r \<in> set (ev_reads s) \<Longrightarrow> evidence_step s (evidence_settles r result s)"

section \<open>The label of the appliance\<close>

record ApplianceLabelView =
  lv_revision :: int
  lv_label :: "jstring option"

datatype ApplianceLabelMutationOutcome = LabelApplied int | RevisionConflict int

text \<open>\<open>ls_source\<close> is an observation: the appliance that was active when the view was read or the change was sent.\<close>

record label_state =
  ls_deviceKey :: jstring
  ls_view :: ApplianceLabelView
  ls_source :: jstring

datatype label_task =
  LabelRead nat jstring \<comment> \<open>run of the effect, \<open>deviceKey\<close>\<close>
| LabelMutate jstring "jstring option" \<comment> \<open>\<open>networkDeviceKey\<close> of the handler, label\<close>
| LabelReread jstring jstring \<comment> \<open>\<open>networkDeviceKey\<close> of the handler, active appliance at the read\<close>

record label_machine =
  lm_device :: "jstring option"
  lm_available :: bool
  lm_foreground :: bool
  lm_run :: nat \<comment> \<open>the run of the effect that is active\<close>
  lm_state :: "label_state option"
  lm_error :: "jstring option"
  lm_tasks :: "label_task list"
  lm_sent :: "(int \<times> jstring option) list" \<comment> \<open>requests to change, newest first\<close>

definition label_new :: label_machine where
  "label_new = \<lparr>lm_device = None, lm_available = False, lm_foreground = False, lm_run = 0, lm_state = None, lm_error = None,
     lm_tasks = [], lm_sent = []\<rparr>"

text \<open>A render with changed dependencies: the former run is no longer active, and the effect reads the label or drops it.\<close>

definition label_effect :: "jstring option \<Rightarrow> bool \<Rightarrow> bool \<Rightarrow> label_machine \<Rightarrow> label_machine" where
  "label_effect device available foreground m =
     (let m1 = m\<lparr>lm_device := device, lm_available := available, lm_foreground := foreground, lm_run := lm_run m + 1\<rparr>
      in case device of
           Some key \<Rightarrow> if available \<and> foreground then m1\<lparr>lm_tasks := lm_tasks m1 @ [LabelRead (lm_run m1) key]\<rparr>
                       else m1\<lparr>lm_state := None\<rparr>
         | None \<Rightarrow> m1\<lparr>lm_state := None\<rparr>)"

definition label_read_settles :: "nat \<Rightarrow> jstring \<Rightarrow> ApplianceLabelView settled \<Rightarrow> label_machine \<Rightarrow> label_machine" where
  "label_read_settles run key result m =
     (if run \<noteq> lm_run m then m
      else case result of
             Fulfilled view \<Rightarrow> m\<lparr>lm_state := Some \<lparr>ls_deviceKey = key, ls_view = view, ls_source = key\<rparr>\<rparr>
           | Rejected e \<Rightarrow> m\<lparr>lm_error := Some (js ''Appliance label could not be read: '' @ errorText e)\<rparr>)"

text \<open>\<open>mutateApplianceLabel\<close> of the present render; it throws when the label is not that of the appliance.\<close>

definition mutateApplianceLabel :: "jstring option \<Rightarrow> label_machine \<Rightarrow> thrown option \<times> label_machine" where
  "mutateApplianceLabel label m =
     (case (lm_device m, lm_state m) of
        (Some key, Some current) \<Rightarrow>
          if ls_deviceKey current \<noteq> key
          then (Some (ErrorObject (js ''The appliance label is not ready to change'')), m)
          else (None, m\<lparr>lm_tasks := lm_tasks m @ [LabelMutate key label],
                        lm_sent := (lv_revision (ls_view current), label) # lm_sent m\<rparr>)
      | _ \<Rightarrow> (Some (ErrorObject (js ''The appliance label is not ready to change'')), m))"

definition label_mutate_settles ::
  "jstring \<Rightarrow> jstring option \<Rightarrow> ApplianceLabelMutationOutcome settled \<Rightarrow> label_machine \<Rightarrow> label_machine" where
  "label_mutate_settles key label result m =
     (case result of
        Rejected e \<Rightarrow> m
      | Fulfilled (LabelApplied revision) \<Rightarrow>
          m\<lparr>lm_state := Some \<lparr>ls_deviceKey = key, ls_view = \<lparr>lv_revision = revision, lv_label = label\<rparr>, ls_source = key\<rparr>\<rparr>
      | Fulfilled (RevisionConflict _) \<Rightarrow>
          m\<lparr>lm_tasks := lm_tasks m @ [LabelReread key (case lm_device m of Some d \<Rightarrow> d | None \<Rightarrow> [])]\<rparr>)"

definition label_reread_settles ::
  "jstring \<Rightarrow> jstring \<Rightarrow> ApplianceLabelView settled \<Rightarrow> label_machine \<Rightarrow> label_machine" where
  "label_reread_settles key source result m =
     (case result of
        Rejected e \<Rightarrow> m
      | Fulfilled view \<Rightarrow> m\<lparr>lm_state := Some \<lparr>ls_deviceKey = key, ls_view = view, ls_source = source\<rparr>\<rparr>)"

text \<open>The label that the application shows.\<close>

definition label_shown :: "label_machine \<Rightarrow> label_state option" where
  "label_shown m =
     (case lm_state m of
        None \<Rightarrow> None
      | Some s \<Rightarrow> if lm_device m = Some (ls_deviceKey s) then Some s else None)"

definition label_end_task :: "label_task \<Rightarrow> label_machine \<Rightarrow> label_machine" where
  "label_end_task t m = m\<lparr>lm_tasks := remove1 t (lm_tasks m)\<rparr>"

inductive label_step :: "label_machine \<Rightarrow> label_machine \<Rightarrow> bool" where
  lb_effect: "label_step m (label_effect device available foreground m)"
| lb_read: "LabelRead run key \<in> set (lm_tasks m) \<Longrightarrow>
    label_step m (label_read_settles run key view (label_end_task (LabelRead run key) m))"
| lb_mutate: "mutateApplianceLabel label m = (failure, m') \<Longrightarrow> label_step m m'"
| lb_mutated: "LabelMutate key label \<in> set (lm_tasks m) \<Longrightarrow>
    label_step m (label_mutate_settles key label outcome (label_end_task (LabelMutate key label) m))"
| lb_reread: "LabelReread key source \<in> set (lm_tasks m) \<Longrightarrow>
    label_step m (label_reread_settles key source view (label_end_task (LabelReread key source) m))"

section \<open>Invariants\<close>

text \<open>Firmware: what was sent was checked, and what was rendered as staged was staged by the board.\<close>

fun firmware_event_ok :: "firmware_event \<Rightarrow> bool" where
  "firmware_event_ok (CalledStage device version n) = (release_label_ok version \<and> image_size_ok n)"
| "firmware_event_ok _ = True"

fun firmware_task_ok :: "firmware_event list \<Rightarrow> firmware_task \<Rightarrow> bool" where
  "firmware_task_ok l (FwPicking version) = release_label_ok version"
| "firmware_task_ok l (FwReading fileName n version) = (release_label_ok version \<and> image_size_ok n)"
| "firmware_task_ok l (FwUploading fileName device) = (\<exists>version n. CalledStage device version n \<in> set l)"
| "firmware_task_ok l (FwRestarting fileName) = True"

definition stage_accepted :: "firmware_event list \<Rightarrow> bool" where
  "stage_accepted l \<longleftrightarrow> (\<exists>device. StageAccepted device \<in> set l)"

text \<open>Newest first: an image is accepted only after it was sent to the board, a restart is asked for only after an image was accepted.\<close>

fun firmware_ordered :: "firmware_event list \<Rightarrow> bool" where
  "firmware_ordered [] = True"
| "firmware_ordered (StageAccepted device # l) = (firmware_ordered l \<and> (\<exists>version n. CalledStage device version n \<in> set l))"
| "firmware_ordered (CalledReboot device # l) = (firmware_ordered l \<and> stage_accepted l)"
| "firmware_ordered (_ # l) = firmware_ordered l"

definition firmware_inv :: "firmware \<Rightarrow> bool" where
  "firmware_inv f \<longleftrightarrow> list_all firmware_event_ok (fw_log f) \<and> list_all (firmware_task_ok (fw_log f)) (fw_tasks f) \<and>
     firmware_ordered (fw_log f) \<and> (\<forall>name status. FwStaged name status \<in> set (fw_rendered f) \<longrightarrow> stage_accepted (fw_log f))"

lemma firmware_task_ok_mono: "firmware_task_ok l t \<Longrightarrow> firmware_task_ok (e # l) t"
  by (cases t) auto

lemma firmware_tasks_mono: "list_all (firmware_task_ok l) ts \<Longrightarrow> list_all (firmware_task_ok (e # l)) ts"
  by (auto simp: list_all_iff firmware_task_ok_mono)

lemma stage_accepted_Cons [simp]: "stage_accepted (e # l) \<longleftrightarrow> (\<exists>device. e = StageAccepted device) \<or> stage_accepted l"
  by (auto simp: stage_accepted_def)

lemma firmware_inv_set_state:
  "firmware_inv f \<Longrightarrow> (\<And>name status. u = FwStaged name status \<Longrightarrow> stage_accepted (fw_log f)) \<Longrightarrow>
   firmware_inv (setFirmwareUpdateState u f)"
  by (auto simp: firmware_inv_def setFirmwareUpdateState_def)

lemma firmware_inv_add_task:
  "firmware_inv f \<Longrightarrow> firmware_task_ok (fw_log f) t \<Longrightarrow> firmware_inv (f\<lparr>fw_tasks := fw_tasks f @ [t]\<rparr>)"
  by (auto simp: firmware_inv_def)

lemma firmware_inv_log:
  "firmware_inv f \<Longrightarrow> firmware_event_ok e \<Longrightarrow> firmware_ordered (e # fw_log f) \<Longrightarrow> firmware_inv (f\<lparr>fw_log := e # fw_log f\<rparr>)"
  by (auto simp: firmware_inv_def firmware_tasks_mono)

lemma firmware_inv_end_task:
  assumes "firmware_inv f" and "t \<in> set (fw_tasks f)"
  shows "firmware_inv (firmware_end_task t f)" and "firmware_task_ok (fw_log f) t"
  using assms set_remove1_subset [of t "fw_tasks f"]
  by (auto simp: firmware_inv_def firmware_end_task_def list_all_iff)

lemma firmware_step_inv: "firmware_step f f' \<Longrightarrow> firmware_inv f \<Longrightarrow> firmware_inv f'"
proof (induction rule: firmware_step.induct)
  case (fw_stage f versionInput)
  have "firmware_inv (f\<lparr>fw_tasks := fw_tasks f @ [FwPicking (js_trim versionInput)]\<rparr>)" if "release_label_ok (js_trim versionInput)"
    using firmware_inv_add_task [OF fw_stage] that by simp
  then show ?case
    using fw_stage by (auto simp: stageFirmwareUpdate_def firmware_inv_def setFirmwareUpdateState_def Let_def)
next
  case (fw_reboot rendered f)
  then show ?case
    by (auto simp: rebootIntoStagedFirmware_def firmware_inv_def setFirmwareUpdateState_def firmware_tasks_mono
        split: FirmwareUpdateState.split)
next
  case (fw_clear f)
  then show ?case by (auto simp: clearFirmwareUpdate_def firmware_initial_def intro: firmware_inv_set_state)
next
  case (fw_switch f device)
  then show ?case by (simp add: firmware_inv_def)
next
  case (fw_picked version f choice)
  note ended = firmware_inv_end_task [OF fw_picked.prems fw_picked.hyps]
  then show ?case
    by (auto simp: firmware_picked_def firmware_inv_def setFirmwareUpdateState_def firmware_end_task_def
        split: settled.split option.split prod.split)
next
  case (fw_read fileName n version f bytes)
  note ended = firmware_inv_end_task [OF fw_read.prems fw_read.hyps]
  then show ?case
    by (auto simp: firmware_read_def firmware_inv_def setFirmwareUpdateState_def firmware_end_task_def firmware_tasks_mono
        split: settled.split)
next
  case (fw_uploaded fileName device f status)
  note ended = firmware_inv_end_task [OF fw_uploaded.prems fw_uploaded.hyps]
  then show ?case
    by (auto simp: firmware_staged_def firmware_inv_def setFirmwareUpdateState_def firmware_end_task_def firmware_tasks_mono
        split: settled.split)
next
  case (fw_restart fileName f status)
  note ended = firmware_inv_end_task [OF fw_restart.prems fw_restart.hyps]
  then show ?case
    by (auto simp: firmware_restarted_def firmware_inv_def setFirmwareUpdateState_def firmware_end_task_def split: settled.split)
qed

interpretation firmware: step_invariant firmware_step firmware_inv
  by unfold_locales (rule firmware_step_inv)

lemma firmware_new_inv: "firmware_inv (firmware_new device supported)"
  by (simp add: firmware_inv_def firmware_new_def firmware_initial_def)

text \<open>Evidence: what is shown belongs to the last selection, and loading ends.\<close>

definition read_selected :: "evidence \<Rightarrow> evidence_read \<Rightarrow> bool" where
  "read_selected s r \<longleftrightarrow> ev_selected s = Some (er_timelineSequence r) \<and> (ev_profileKey s = Some (er_profileKey r) \<or> ev_effect s)"

definition evidence_selected :: "evidence \<Rightarrow> bool" where
  "evidence_selected s \<longleftrightarrow> pred_option (\<lambda>e. ev_selected s = Some (mf_timelineSequence e)) (ev_evidence s)"

definition evidence_inv :: "evidence \<Rightarrow> bool" where
  "evidence_inv s \<longleftrightarrow>
     (\<forall>r \<in> set (ev_reads s). er_request r \<le> lr_generation (ev_requests s) \<and>
        (lr_accepts (ev_requests s) (er_request r) \<longrightarrow> read_selected s r)) \<and>
     evidence_selected s \<and>
     (ev_loading s \<longrightarrow> ev_effect s \<or> (\<exists>r \<in> set (ev_reads s). evidence_current s r))"

text \<open>A selection either clears the evidence or starts one read; both supersede the reads before.\<close>

lemma selectMapFeature_cases:
  obtains (cleared) "selectMapFeature available feature s = s\<lparr>ev_requests := snd (lr_begin (ev_requests s)),
      ev_evidence := None, ev_error := None, ev_loading := False, ev_selected := None\<rparr>"
  | (reads) n key where "ev_profileKey s = Some key"
      "selectMapFeature available feature s = s\<lparr>ev_requests := snd (lr_begin (ev_requests s)),
      ev_evidence := None, ev_error := None, ev_loading := True, ev_selected := Some n,
      ev_reads := ev_reads s @ [\<lparr>er_request = fst (lr_begin (ev_requests s)), er_profileKey = key, er_timelineSequence = n\<rparr>]\<rparr>"
proof -
  let ?n = "Option.bind feature (\<lambda>d. if md_kind d = AttemptFeature then md_timelineSequence d else None)"
  consider "\<not> available \<or> ?n = None \<or> ev_profileKey s = None"
    | n key where "available" "?n = Some n" "ev_profileKey s = Some key" by fastforce
  then show thesis
  proof cases
    case 1
    then show ?thesis
      by (intro cleared) (auto simp: selectMapFeature_def Let_def split: prod.split option.split)
  next
    case 2
    then show ?thesis by (intro reads [of key n]) (auto simp: selectMapFeature_def Let_def split: prod.split)
  qed
qed

lemma lr_begin_generation [simp]:
  "lr_generation (snd (lr_begin r)) = Suc (lr_generation r)" "fst (lr_begin r) = Suc (lr_generation r)"
  by (simp_all add: lr_begin_def Let_def)

lemma evidence_read_old:
  "evidence_inv s \<Longrightarrow> r \<in> set (ev_reads s) \<Longrightarrow> er_request r \<le> Suc (lr_generation (ev_requests s)) \<and>
     er_request r \<noteq> Suc (lr_generation (ev_requests s))"
  by (fastforce simp: evidence_inv_def)

lemma evidence_select_inv:
  assumes "evidence_inv s"
  shows "evidence_inv (selectMapFeature available feature s)"
proof -
  note old = evidence_read_old [OF assms]
  show ?thesis
    by (rule selectMapFeature_cases [of available feature s])
      (auto simp: evidence_inv_def lr_accepts_def evidence_current_def read_selected_def evidence_selected_def old)
qed

lemma evidence_settles_fields [simp]:
  "ev_reads (evidence_settles r result s) = remove1 r (ev_reads s)"
  "ev_requests (evidence_settles r result s) = ev_requests s"
  "ev_effect (evidence_settles r result s) = ev_effect s"
  "ev_loading (evidence_settles r result s) = (ev_loading s \<and> \<not> evidence_current s r)"
  "evidence_current (evidence_settles r result s) q = evidence_current s q"
  "read_selected (evidence_settles r result s) q = read_selected s q"
  by (cases result; simp add: evidence_settles_def evidence_current_def read_selected_def Let_def)+

lemma evidence_settles_selected:
  assumes "evidence_selected s" and "evidence_current s r \<Longrightarrow> read_selected s r"
  shows "evidence_selected (evidence_settles r result s)"
  using assms
  by (cases result; cases "evidence_current s r")
    (auto simp: evidence_selected_def evidence_settles_def read_selected_def evidence_current_def Let_def)

lemma evidence_settle_inv:
  assumes "evidence_inv s" and "r \<in> set (ev_reads s)"
  shows "evidence_inv (evidence_settles r result s)"
proof -
  have "read_selected s r" if "evidence_current s r"
    using assms that by (simp add: evidence_inv_def evidence_current_def)
  then have "evidence_selected (evidence_settles r result s)"
    using assms(1) by (intro evidence_settles_selected) (simp_all add: evidence_inv_def)
  moreover have "q \<in> set (remove1 r (ev_reads s))" if "q \<in> set (ev_reads s)" "evidence_current s q" "\<not> evidence_current s r" for q
    using that by (metis in_set_remove1)
  moreover have "q \<in> set (ev_reads s)" if "q \<in> set (remove1 r (ev_reads s))" for q
    using that set_remove1_subset by fastforce
  ultimately show ?thesis using assms(1) unfolding evidence_inv_def evidence_settles_fields by blast
qed

lemma evidence_step_inv: "evidence_step s s' \<Longrightarrow> evidence_inv s \<Longrightarrow> evidence_inv s'"
proof (induction rule: evidence_step.induct)
  case (ev_render s key)
  then show ?case
    by (auto simp: evidence_render_def evidence_inv_def evidence_current_def read_selected_def evidence_selected_def)
next
  case (ev_run_effect s)
  note old = evidence_read_old [OF ev_run_effect.prems]
  show ?case by (auto simp: evidence_effect_def evidence_inv_def lr_invalidate_def lr_accepts_def evidence_selected_def old)
qed (auto intro: evidence_select_inv evidence_settle_inv)

interpretation evidence: step_invariant evidence_step evidence_inv
  by unfold_locales (rule evidence_step_inv)

lemma evidence_new_inv: "evidence_inv evidence_new"
  by (simp add: evidence_inv_def evidence_new_def evidence_selected_def)

section \<open>Runs\<close>

definition demo_status :: NativePrnsOtaStatus where
  "demo_status = \<lparr>os_phase = OtaReceiving, os_session = None, os_slot = Some Ota1, os_version = Some (js ''v1''), os_imageBytes = 100,
     os_verifiedBytes = 100, os_nextChunk = 1, os_resourceArmed = False, os_failure = None\<rparr>"

definition demo_uploading :: firmware where
  "demo_uploading = firmware_read (js ''e290.bin'') 100 (js ''v1'') (Fulfilled ())
     (firmware_end_task (FwReading (js ''e290.bin'') 100 (js ''v1''))
       (firmware_picked (js ''v1'') (Fulfilled (Some (js ''e290.bin'', 100)))
         (firmware_end_task (FwPicking (js ''v1'')) (stageFirmwareUpdate (js ''v1'') (firmware_new (js ''a'') True)))))"

definition demo_staged :: firmware where
  "demo_staged = firmware_staged (js ''e290.bin'') (js ''a'') (Fulfilled demo_status)
     (firmware_end_task (FwUploading (js ''e290.bin'') (js ''a'')) demo_uploading)"

text \<open>The other appliance becomes active before the restart is asked for.\<close>

definition demo_rebooting :: firmware where
  "demo_rebooting = rebootIntoStagedFirmware (FwStaged (js ''e290.bin'') demo_status) (demo_staged\<lparr>fw_device := js ''b''\<rparr>)"

lemmas demo_firmware = demo_status_def demo_uploading_def demo_staged_def demo_rebooting_def firmware_read_def firmware_end_task_def
  firmware_picked_def stageFirmwareUpdate_def firmware_new_def firmware_initial_def setFirmwareUpdateState_def release_label_ok_def
  image_size_ok_def firmware_staged_def rebootIntoStagedFirmware_def js_trim_def is_space_def Let_def

lemma demo_uploading_reach: "firmware_step\<^sup>*\<^sup>* (firmware_new (js ''a'') True) demo_uploading"
proof -
  let ?f1 = "stageFirmwareUpdate (js ''v1'') (firmware_new (js ''a'') True)"
  let ?f2 = "firmware_picked (js ''v1'') (Fulfilled (Some (js ''e290.bin'', 100))) (firmware_end_task (FwPicking (js ''v1'')) ?f1)"
  have "firmware_step (firmware_new (js ''a'') True) ?f1" by (rule fw_stage)
  moreover have "FwPicking (js ''v1'') \<in> set (fw_tasks ?f1)" by (simp add: demo_firmware)
  then have "firmware_step ?f1 ?f2" by (rule fw_picked)
  moreover have "FwReading (js ''e290.bin'') 100 (js ''v1'') \<in> set (fw_tasks ?f2)" by (simp add: demo_firmware)
  then have "firmware_step ?f2 demo_uploading" unfolding demo_uploading_def by (rule fw_read)
  ultimately show ?thesis by (meson rtranclp.rtrancl_into_rtrancl rtranclp.rtrancl_refl)
qed

lemma demo_rebooting_reach: "firmware_step\<^sup>*\<^sup>* (firmware_new (js ''a'') True) demo_rebooting"
proof -
  have "FwUploading (js ''e290.bin'') (js ''a'') \<in> set (fw_tasks demo_uploading)" by (simp add: demo_firmware)
  then have "firmware_step demo_uploading demo_staged" unfolding demo_staged_def by (rule fw_uploaded)
  moreover have "firmware_step demo_staged (demo_staged\<lparr>fw_device := js ''b''\<rparr>)" by (rule fw_switch)
  moreover have "FwStaged (js ''e290.bin'') demo_status \<in> set (fw_rendered (demo_staged\<lparr>fw_device := js ''b''\<rparr>))" by (simp add: demo_firmware)
  then have "firmware_step (demo_staged\<lparr>fw_device := js ''b''\<rparr>) demo_rebooting" unfolding demo_rebooting_def by (rule fw_reboot)
  ultimately show ?thesis using demo_uploading_reach by (meson rtranclp.rtrancl_into_rtrancl)
qed

lemma demo_rebooting_log:
  "fw_log demo_rebooting = [] @ CalledReboot (js ''b'') # [StageAccepted (js ''a''), CalledStage (js ''a'') (js ''v1'') 100]"
  by (simp add: demo_firmware)

section \<open>Properties\<close>

lemma firmware_ordered_split: "firmware_ordered (later @ l) \<Longrightarrow> firmware_ordered l"
proof (induction later)
  case (Cons e later)
  then show ?case by (cases e) simp_all
qed simp

lemma firmware_ordered_accepted:
  "firmware_ordered l \<Longrightarrow> StageAccepted device \<in> set l \<Longrightarrow> \<exists>version n. CalledStage device version n \<in> set l"
proof (induction l)
  case (Cons e l)
  then show ?case by (cases e) auto
qed simp

text \<open>
  C21. A board is asked to restart only after a checked image was staged: whatever the handlers and the replies interleave to,
  before every restart an image was accepted by an appliance to which it was sent with a release label of 1 to 32
  printable characters and a size between 64 bytes and 5 MiB.
\<close>

theorem firmware_reboot_after_staging:
  assumes "firmware_step\<^sup>*\<^sup>* (firmware_new device supported) f"
    and "fw_log f = later @ CalledReboot target # earlier"
  shows "\<exists>staged version n. StageAccepted staged \<in> set earlier \<and> CalledStage staged version n \<in> set earlier \<and>
    1 \<le> length version \<and> length version \<le> 32 \<and> list_all (\<lambda>c. 33 \<le> c \<and> c \<le> 126) version \<and> 64 \<le> n \<and> n \<le> 5242880"
proof -
  have inv: "firmware_inv f" by (rule firmware.reach_inv [OF assms(1) firmware_new_inv])
  then have "firmware_ordered (later @ CalledReboot target # earlier)" by (simp add: firmware_inv_def assms(2))
  then have "firmware_ordered earlier" "stage_accepted earlier" by (auto dest: firmware_ordered_split)
  then obtain staged version n where "StageAccepted staged \<in> set earlier" "CalledStage staged version n \<in> set earlier"
    unfolding stage_accepted_def using firmware_ordered_accepted by blast
  moreover have "list_all firmware_event_ok earlier" using inv by (simp add: firmware_inv_def assms(2))
  ultimately have "StageAccepted staged \<in> set earlier" "CalledStage staged version n \<in> set earlier"
      "firmware_event_ok (CalledStage staged version n)"
    unfolding list_all_iff by blast+
  then show ?thesis by (intro exI [of _ staged] exI [of _ version] exI [of _ n]) (simp add: release_label_ok_def image_size_ok_def)
qed

theorem firmware_reboot_after_staging_witness:
  "\<exists>staged version n. StageAccepted staged \<in> set [StageAccepted (js ''a''), CalledStage (js ''a'') (js ''v1'') 100] \<and>
     CalledStage staged version n \<in> set [StageAccepted (js ''a''), CalledStage (js ''a'') (js ''v1'') 100] \<and> 64 \<le> n"
  using firmware_reboot_after_staging [OF demo_rebooting_reach demo_rebooting_log] by blast

text \<open>
  The evidence on the map belongs to the selected transmission of the active appliance, and its loading ends: in every
  reachable state the evidence shown was read for the appliance of the last render and the sequence number of the
  last selection, and while it is loading a read that will end the loading is pending or the effect of a changed
  appliance is about to.
\<close>

theorem map_evidence_current:
  assumes "evidence_step\<^sup>*\<^sup>* evidence_new s"
  shows "pred_option (\<lambda>e. ev_profileKey s = Some (mf_profileKey e) \<and> ev_selected s = Some (mf_timelineSequence e))
      (scopedMapFeatureEvidence s) \<and>
    (ev_loading s \<longrightarrow> ev_effect s \<or> list_ex (\<lambda>r. \<not> ev_loading (evidence_settles r result s)) (ev_reads s))"
proof -
  have inv: "evidence_inv s" by (rule evidence.reach_inv [OF assms evidence_new_inv])
  then show ?thesis
    by (auto simp: evidence_inv_def evidence_selected_def scopedMapFeatureEvidence_def list_ex_iff split: option.split)
qed

theorem map_evidence_current_witness:
  "evidence_step\<^sup>*\<^sup>* evidence_new (evidence_render (Some (js ''a'')) evidence_new) \<and>
   pred_option (\<lambda>e. ev_selected (evidence_render (Some (js ''a'')) evidence_new) = Some (mf_timelineSequence e))
     (scopedMapFeatureEvidence (evidence_render (Some (js ''a'')) evidence_new))"
proof -
  have reach: "evidence_step\<^sup>*\<^sup>* evidence_new (evidence_render (Some (js ''a'')) evidence_new)"
    by (rule r_into_rtranclp, rule ev_render)
  then show ?thesis using map_evidence_current [OF reach] by (auto elim: option.pred_mono_strong)
qed

lemma events_by_id:
  assumes "\<forall>p \<in> set m. te_event_id (snd p) = fst p" and "distinct (map fst m)"
  shows "(\<forall>p \<in> set (foldl (\<lambda>m event. AList.update (te_event_id event) event m) m events). te_event_id (snd p) = fst p) \<and>
    distinct (map fst (foldl (\<lambda>m event. AList.update (te_event_id event) event m) m events))"
  using assms
proof (induction events arbitrary: m)
  case (Cons event events)
  have "\<forall>p \<in> set (AList.update (te_event_id event) event m). te_event_id (snd p) = fst p"
    using Cons.prems(1) by (induction m) auto
  then show ?case using Cons by (simp add: distinct_update)
qed simp

lemma mapRadioTraceEvents_distinct: "distinct (map te_event_id (mapRadioTraceEvents page s))"
proof -
  let ?m = "foldl (\<lambda>m event. AList.update (te_event_id event) event m) []
    ((case page of None \<Rightarrow> [] | Some p \<Rightarrow> pv_events p) @ (case scopedMapFeatureEvidence s of None \<Rightarrow> [] | Some e \<Rightarrow> mf_events e))"
  have "(\<forall>p \<in> set ?m. te_event_id (snd p) = fst p) \<and> distinct (map fst ?m)" by (rule events_by_id) simp_all
  moreover from this have "map te_event_id (map snd ?m) = map fst ?m" by simp
  ultimately show ?thesis by (simp add: mapRadioTraceEvents_def del: foldl_append map_map)
qed

section \<open>A label under the wrong key\<close>

text \<open>
  A change of the label meets a conflict while another appliance is being made active: the label read again is that of the
  other appliance, is stored under the key of the first, and the label of the active appliance is no longer shown.
\<close>

definition demo_label :: "int \<Rightarrow> ApplianceLabelView" where
  "demo_label revision = \<lparr>lv_revision = revision, lv_label = None\<rparr>"

definition demo_relabel :: label_machine where
  "demo_relabel = snd (mutateApplianceLabel None (label_read_settles 1 (js ''a'') (Fulfilled (demo_label 1))
     (label_end_task (LabelRead 1 (js ''a'')) (label_effect (Some (js ''a'')) True True label_new))))"

definition demo_conflict :: label_machine where
  "demo_conflict = label_mutate_settles (js ''a'') None (Fulfilled (RevisionConflict 2))
     (label_end_task (LabelMutate (js ''a'') None) (label_effect (Some (js ''b'')) True True demo_relabel))"

definition demo_misfiled :: label_machine where
  "demo_misfiled = label_reread_settles (js ''a'') (js ''b'') (Fulfilled (demo_label 9))
     (label_end_task (LabelReread (js ''a'') (js ''b'')) demo_conflict)"

lemma demo_misfiled_reach: "label_step\<^sup>*\<^sup>* label_new demo_misfiled"
proof -
  let ?m1 = "label_effect (Some (js ''a'')) True True label_new"
  let ?m2 = "label_read_settles 1 (js ''a'') (Fulfilled (demo_label 1)) (label_end_task (LabelRead 1 (js ''a'')) ?m1)"
  let ?m4 = "label_effect (Some (js ''b'')) True True demo_relabel"
  have "label_step label_new ?m1" by (rule lb_effect)
  moreover have "LabelRead 1 (js ''a'') \<in> set (lm_tasks ?m1)" by code_simp
  then have "label_step ?m1 ?m2" by (rule lb_read)
  moreover have "label_step ?m2 demo_relabel" unfolding demo_relabel_def by (rule lb_mutate) (rule prod.collapse [symmetric])
  moreover have "label_step demo_relabel ?m4" by (rule lb_effect)
  moreover have "LabelMutate (js ''a'') None \<in> set (lm_tasks ?m4)" by code_simp
  then have "label_step ?m4 demo_conflict" unfolding demo_conflict_def by (rule lb_mutated)
  moreover have "LabelReread (js ''a'') (js ''b'') \<in> set (lm_tasks demo_conflict)" by code_simp
  then have "label_step demo_conflict demo_misfiled" unfolding demo_misfiled_def by (rule lb_reread)
  ultimately show ?thesis by (meson rtranclp.rtrancl_into_rtrancl rtranclp.rtrancl_refl)
qed

text \<open>
  A conflicting change files the label of one appliance under another: there is a run after which the stored label, kept under the key of
  the first appliance, was read from the second, which is active and shows no label.
\<close>

theorem label_conflict_misfiled:
  "\<exists>m s. label_step\<^sup>*\<^sup>* label_new m \<and> lm_state m = Some s \<and> ls_deviceKey s = js ''a'' \<and> ls_source s = js ''b'' \<and>
     lm_device m = Some (js ''b'') \<and> label_shown m = None"
proof -
  have "lm_state demo_misfiled = Some \<lparr>ls_deviceKey = js ''a'', ls_view = demo_label 9, ls_source = js ''b''\<rparr>"
    "lm_device demo_misfiled = Some (js ''b'')" "label_shown demo_misfiled = None" by code_simp+
  then show ?thesis using demo_misfiled_reach
    by (intro exI [of _ demo_misfiled] exI [of _ "\<lparr>ls_deviceKey = js ''a'', ls_view = demo_label 9, ls_source = js ''b''\<rparr>"]) simp
qed

end
