(* ===== verification/Preferences.thy ===== *)
theory Preferences
  imports JsonText
begin

text \<open>
  Model of \<open>lib/field-telemetry-preference.ts\<close>, \<open>lib/message-location-preference.ts\<close> and their native variants: the two opt-in
  settings as versioned JSON texts, and their stores in memory, in the browser's storage and in a file that is replaced
  through a temporary one. Every operation of the file system may fail, and a failed one may leave the files it names in any
  state; a failed move names the target too. The contract of a store is the locale \<open>durable_store\<close>: what is loaded is what was
  saved last with success, unless a later save failed in the step that replaces the stored value.
\<close>

section \<open>The texts\<close>

record FieldTelemetryPreference =
  ftp_enabled :: bool
  ftp_version :: int

record MessageLocationPreference =
  mlp_attachByDefault :: bool
  mlp_version :: int

definition FIELD_TELEMETRY_PREFERENCE_VERSION :: int where
  "FIELD_TELEMETRY_PREFERENCE_VERSION = 1"

definition MESSAGE_LOCATION_PREFERENCE_VERSION :: int where
  "MESSAGE_LOCATION_PREFERENCE_VERSION = 1"

definition telemetry_default :: FieldTelemetryPreference where
  "telemetry_default = \<lparr>ftp_enabled = False, ftp_version = FIELD_TELEMETRY_PREFERENCE_VERSION\<rparr>"

definition location_default :: MessageLocationPreference where
  "location_default = \<lparr>mlp_attachByDefault = False, mlp_version = MESSAGE_LOCATION_PREFERENCE_VERSION\<rparr>"

text \<open>Whether a parsed value is the number \<open>n\<close>, for \<open>0 < n\<close>: the double its text denotes is.\<close>

fun value_is_number :: "int \<Rightarrow> export_value \<Rightarrow> bool" where
  "value_is_number n (VNumber t) = (case js_Number t of Exact False a b \<Rightarrow> rounds_to a b (nat n) | _ \<Rightarrow> False)"
| "value_is_number n _ = False"

text \<open>\<open>JSON.parse\<close> gives an object, not an array or \<open>null\<close>, with these own members.\<close>

definition parseFieldTelemetryPreference :: "jstring option \<Rightarrow> FieldTelemetryPreference" where
  "parseFieldTelemetryPreference raw =
     (case raw of
        None \<Rightarrow> telemetry_default
      | Some text \<Rightarrow>
          (case json_parse text of
             Some (VObject ms) \<Rightarrow>
               (case map_of ms (js ''version'') of
                  None \<Rightarrow> telemetry_default
                | Some version \<Rightarrow>
                    if \<not> value_is_number FIELD_TELEMETRY_PREFERENCE_VERSION version then telemetry_default
                    else (case map_of ms (js ''enabled'') of
                            Some (VBool enabled) \<Rightarrow> \<lparr>ftp_enabled = enabled, ftp_version = FIELD_TELEMETRY_PREFERENCE_VERSION\<rparr>
                          | _ \<Rightarrow> telemetry_default))
           | _ \<Rightarrow> telemetry_default))"

definition parseMessageLocationPreference :: "jstring option \<Rightarrow> MessageLocationPreference" where
  "parseMessageLocationPreference raw =
     (case raw of
        None \<Rightarrow> location_default
      | Some text \<Rightarrow>
          (case json_parse text of
             Some (VObject ms) \<Rightarrow>
               (case map_of ms (js ''version'') of
                  None \<Rightarrow> location_default
                | Some version \<Rightarrow>
                    if \<not> value_is_number MESSAGE_LOCATION_PREFERENCE_VERSION version then location_default
                    else (case map_of ms (js ''attachByDefault'') of
                            Some (VBool attach) \<Rightarrow> \<lparr>mlp_attachByDefault = attach, mlp_version = MESSAGE_LOCATION_PREFERENCE_VERSION\<rparr>
                          | _ \<Rightarrow> location_default))
           | _ \<Rightarrow> location_default))"

definition serializeFieldTelemetryPreference :: "bool \<Rightarrow> jstring" where
  "serializeFieldTelemetryPreference enabled =
     json_compact (VObject [(js ''enabled'', VBool enabled), (js ''version'', VNumber (int_digits FIELD_TELEMETRY_PREFERENCE_VERSION))])"

definition serializeMessageLocationPreference :: "bool \<Rightarrow> jstring" where
  "serializeMessageLocationPreference attachByDefault =
     json_compact (VObject [(js ''attachByDefault'', VBool attachByDefault),
       (js ''version'', VNumber (int_digits MESSAGE_LOCATION_PREFERENCE_VERSION))])"

section \<open>The stores\<close>

text \<open>In memory: the state is \<open>#raw\<close>.\<close>

definition telemetry_memory_load :: "unit \<Rightarrow> jstring option \<Rightarrow> thrown + bool" where
  "telemetry_memory_load _ raw = Inr (ftp_enabled (parseFieldTelemetryPreference raw))"

definition telemetry_memory_save :: "unit \<Rightarrow> bool \<Rightarrow> jstring option \<Rightarrow> jstring option \<times> thrown option" where
  "telemetry_memory_save _ enabled raw = (Some (serializeFieldTelemetryPreference enabled), None)"

definition location_memory_load :: "unit \<Rightarrow> jstring option \<Rightarrow> thrown + bool" where
  "location_memory_load _ raw = Inr (mlp_attachByDefault (parseMessageLocationPreference raw))"

definition location_memory_save :: "unit \<Rightarrow> bool \<Rightarrow> jstring option \<Rightarrow> jstring option \<times> thrown option" where
  "location_memory_save _ attachByDefault raw = (Some (serializeMessageLocationPreference attachByDefault), None)"

text \<open>The storage of the browser: \<open>getItem\<close> and \<open>setItem\<close> may throw; then the storage is as it was.\<close>

type_synonym storage = "jstring \<rightharpoonup> jstring"

record storage_outcome =
  so_get_throws :: "thrown option"
  so_set_throws :: "thrown option"

definition getItem :: "storage_outcome \<Rightarrow> jstring \<Rightarrow> storage \<Rightarrow> thrown + jstring option" where
  "getItem e key s = (case so_get_throws e of Some err \<Rightarrow> Inl err | None \<Rightarrow> Inr (s key))"

definition setItem :: "storage_outcome \<Rightarrow> jstring \<Rightarrow> jstring \<Rightarrow> storage \<Rightarrow> storage \<times> thrown option" where
  "setItem e key text s = (case so_set_throws e of Some err \<Rightarrow> (s, Some err) | None \<Rightarrow> (s(key \<mapsto> text), None))"

definition TELEMETRY_STORAGE_KEY :: jstring where
  "TELEMETRY_STORAGE_KEY = js ''reticulum.field-telemetry.preference.v1''"

definition LOCATION_STORAGE_KEY :: jstring where
  "LOCATION_STORAGE_KEY = js ''reticulum.message-location.preference.v1''"

definition telemetry_browser_load :: "storage_outcome \<Rightarrow> storage \<Rightarrow> thrown + bool" where
  "telemetry_browser_load e s =
     map_sum id (\<lambda>raw. ftp_enabled (parseFieldTelemetryPreference raw)) (getItem e TELEMETRY_STORAGE_KEY s)"

definition telemetry_browser_save :: "storage_outcome \<Rightarrow> bool \<Rightarrow> storage \<Rightarrow> storage \<times> thrown option" where
  "telemetry_browser_save e enabled s = setItem e TELEMETRY_STORAGE_KEY (serializeFieldTelemetryPreference enabled) s"

definition location_browser_load :: "storage_outcome \<Rightarrow> storage \<Rightarrow> thrown + bool" where
  "location_browser_load e s =
     map_sum id (\<lambda>raw. mlp_attachByDefault (parseMessageLocationPreference raw)) (getItem e LOCATION_STORAGE_KEY s)"

definition location_browser_save :: "storage_outcome \<Rightarrow> bool \<Rightarrow> storage \<Rightarrow> storage \<times> thrown option" where
  "location_browser_save e attachByDefault s = setItem e LOCATION_STORAGE_KEY (serializeMessageLocationPreference attachByDefault) s"

text \<open>
  The files of the application's document directory, by name. The operations of the file module answer the directory they leave
  and what they throw.
\<close>

type_synonym files = "jstring \<rightharpoonup> jstring"

record file_module =
  fm_create :: "jstring \<Rightarrow> files \<Rightarrow> files \<times> thrown option"
  fm_write :: "jstring \<Rightarrow> jstring \<Rightarrow> files \<Rightarrow> files \<times> thrown option"
  fm_move :: "jstring \<Rightarrow> jstring \<Rightarrow> files \<Rightarrow> files \<times> thrown option"
  fm_delete :: "jstring \<Rightarrow> files \<Rightarrow> files \<times> thrown option"
  fm_text :: "jstring \<Rightarrow> files \<Rightarrow> thrown + jstring"

text \<open>\<open>save\<close> of both file stores.\<close>

definition file_save :: "jstring \<Rightarrow> jstring \<Rightarrow> jstring \<Rightarrow> file_module \<Rightarrow> files \<Rightarrow> files \<times> thrown option" where
  "file_save target temporary text fm d =
     (case fm_create fm temporary d of
        (d1, Some err) \<Rightarrow> (d1, Some err)
      | (d1, None) \<Rightarrow>
          let (d3, failed) =
                (case fm_write fm temporary text d1 of
                   (d2, Some err) \<Rightarrow> (d2, Some err)
                 | (d2, None) \<Rightarrow> fm_move fm temporary target d2)
          in case failed of
               None \<Rightarrow> (d3, None)
             | Some err \<Rightarrow>
                 if d3 temporary = None then (d3, Some err)
                 else (case fm_delete fm temporary d3 of
                         (d4, Some err') \<Rightarrow> (d4, Some err')
                       | (d4, None) \<Rightarrow> (d4, Some err)))"

definition TELEMETRY_FILE_NAME :: jstring where
  "TELEMETRY_FILE_NAME = js ''reticulum-field-telemetry-v1.json''"

definition TELEMETRY_TEMP_FILE_NAME :: jstring where
  "TELEMETRY_TEMP_FILE_NAME = js ''reticulum-field-telemetry-v1.tmp''"

definition LOCATION_FILE_NAME :: jstring where
  "LOCATION_FILE_NAME = js ''reticulum-message-location-v1.json''"

definition LOCATION_TEMP_FILE_NAME :: jstring where
  "LOCATION_TEMP_FILE_NAME = js ''reticulum-message-location-v1.tmp''"

definition telemetry_file_load :: "file_module \<Rightarrow> files \<Rightarrow> thrown + bool" where
  "telemetry_file_load fm d =
     (if d TELEMETRY_FILE_NAME = None then Inr False
      else map_sum id (\<lambda>text. ftp_enabled (parseFieldTelemetryPreference (Some text))) (fm_text fm TELEMETRY_FILE_NAME d))"

definition telemetry_file_save :: "file_module \<Rightarrow> bool \<Rightarrow> files \<Rightarrow> files \<times> thrown option" where
  "telemetry_file_save fm enabled d =
     file_save TELEMETRY_FILE_NAME TELEMETRY_TEMP_FILE_NAME (serializeFieldTelemetryPreference enabled) fm d"

definition location_file_load :: "file_module \<Rightarrow> files \<Rightarrow> thrown + bool" where
  "location_file_load fm d =
     (if d LOCATION_FILE_NAME = None then Inr False
      else map_sum id (\<lambda>text. mlp_attachByDefault (parseMessageLocationPreference (Some text))) (fm_text fm LOCATION_FILE_NAME d))"

definition location_file_save :: "file_module \<Rightarrow> bool \<Rightarrow> files \<Rightarrow> files \<times> thrown option" where
  "location_file_save fm attachByDefault d =
     file_save LOCATION_FILE_NAME LOCATION_TEMP_FILE_NAME (serializeMessageLocationPreference attachByDefault) fm d"

text \<open>
  What the stores rely on of the file module: an operation touches the files it names only; a write that returns has written the
  text; a move that returns has put the file in the place of its target; a text that is returned is the contents. Nothing is
  asked of the target of a move that throws.
\<close>

definition file_module_ok :: "file_module \<Rightarrow> bool" where
  "file_module_ok fm \<longleftrightarrow>
     (\<forall>n d d' e. fm_create fm n d = (d', e) \<longrightarrow> (\<forall>m. m \<noteq> n \<longrightarrow> d' m = d m)) \<and>
     (\<forall>n t d d' e. fm_write fm n t d = (d', e) \<longrightarrow> (\<forall>m. m \<noteq> n \<longrightarrow> d' m = d m) \<and> (e = None \<longrightarrow> d' n = Some t)) \<and>
     (\<forall>n m d d' e. fm_move fm n m d = (d', e) \<longrightarrow> n \<noteq> m \<longrightarrow> e = None \<longrightarrow> d' m = d n) \<and>
     (\<forall>n d d' e. fm_delete fm n d = (d', e) \<longrightarrow> (\<forall>m. m \<noteq> n \<longrightarrow> d' m = d m)) \<and>
     (\<forall>n d t. fm_text fm n d = Inr t \<longrightarrow> d n = Some t)"

section \<open>The contract of a store\<close>

text \<open>
  A sequence of saves, each in the circumstances it meets, and what is known of the stored value afterwards: the meaning of the
  last value whose save returned, until a save throws that has \<open>touched\<close> the stored value.
\<close>

fun save_run ::
  "('e \<Rightarrow> 'v \<Rightarrow> 's \<Rightarrow> 's \<times> thrown option) \<Rightarrow> ('e \<Rightarrow> 'v \<Rightarrow> 's \<Rightarrow> bool) \<Rightarrow> ('v \<Rightarrow> 'a) \<Rightarrow> ('e \<times> 'v) list
     \<Rightarrow> 's \<times> 'a option \<Rightarrow> 's \<times> 'a option" where
  "save_run save touched meaning [] acc = acc"
| "save_run save touched meaning ((e, v) # calls) (s, known) =
     (case save e v s of (s', err) \<Rightarrow>
        save_run save touched meaning calls
          (s', if err = None then Some (meaning v) else if touched e v s then None else known))"

locale durable_store =
  fixes env_ok :: "'e \<Rightarrow> bool"
    and value_ok :: "'v \<Rightarrow> bool"
    and load :: "'e \<Rightarrow> 's \<Rightarrow> thrown + 'a"
    and save :: "'e \<Rightarrow> 'v \<Rightarrow> 's \<Rightarrow> 's \<times> thrown option"
    and touched :: "'e \<Rightarrow> 'v \<Rightarrow> 's \<Rightarrow> bool"
    and meaning :: "'v \<Rightarrow> 'a"
    and stored :: "'s \<Rightarrow> 'a"
  assumes load_stored: "env_ok e \<Longrightarrow> load e s = Inr a \<Longrightarrow> a = stored s"
    and save_returns: "env_ok e \<Longrightarrow> value_ok v \<Longrightarrow> save e v s = (s', None) \<Longrightarrow> stored s' = meaning v"
    and save_throws: "env_ok e \<Longrightarrow> \<not> touched e v s \<Longrightarrow> save e v s = (s', Some err) \<Longrightarrow> stored s' = stored s"
begin

lemma stored_run:
  "\<forall>(e, v) \<in> set calls. env_ok e \<and> value_ok v \<Longrightarrow> set_option known \<subseteq> {stored s} \<Longrightarrow>
    save_run save touched meaning calls (s, known) = (s', Some a) \<Longrightarrow> stored s' = a"
proof (induction calls arbitrary: s known)
  case (Cons call calls)
  obtain e v where call: "call = (e, v)" by (cases call)
  obtain s1 err where s1: "save e v s = (s1, err)" by (cases "save e v s")
  let ?known = "if err = None then Some (meaning v) else if touched e v s then None else known"
  have "set_option ?known \<subseteq> {stored s1}"
    using Cons.prems(1,2) s1 save_returns save_throws by (cases err) (auto simp: call)
  then show ?case using Cons.IH [of ?known s1] Cons.prems(1,3) by (simp add: call s1)
qed auto

lemma load_last_saved:
  assumes "\<forall>(e, v) \<in> set calls. env_ok e \<and> value_ok v" "env_ok e"
    "save_run save touched meaning calls (s, Some (stored s)) = (s', Some a)" "load e s' = Inr b"
  shows "b = a"
  using load_stored [OF assms(2,4)] stored_run [OF assms(1) _ assms(3)] by simp

end

text \<open>A setting: every value can be saved, and it is its own meaning.\<close>

locale preference_store =
  fixes env_ok :: "'e \<Rightarrow> bool"
    and load :: "'e \<Rightarrow> 's \<Rightarrow> thrown + bool"
    and save :: "'e \<Rightarrow> bool \<Rightarrow> 's \<Rightarrow> 's \<times> thrown option"
    and touched :: "'e \<Rightarrow> bool \<Rightarrow> 's \<Rightarrow> bool"
    and stored :: "'s \<Rightarrow> bool"
  assumes load_is_stored: "env_ok e \<Longrightarrow> load e s = Inr b \<Longrightarrow> b = stored s"
    and save_sets: "env_ok e \<Longrightarrow> save e b s = (s', None) \<Longrightarrow> stored s' = b"
    and save_keeps: "env_ok e \<Longrightarrow> \<not> touched e b s \<Longrightarrow> save e b s = (s', Some err) \<Longrightarrow> stored s' = stored s"

sublocale preference_store \<subseteq> durable_store env_ok "\<lambda>_. True" load save touched id stored
  using load_is_stored save_sets save_keeps by unfold_locales auto

section \<open>The texts are read back\<close>

lemma value_is_one: "value_is_number 1 (VNumber (int_digits 1))"
  by (simp add: int_digits_def nat_digits.simps js_Number_def js_trim_def is_space_def js_unsigned_decimal_def js_exponent_def
      is_digit_def digits_value_def rounds_to_def quotient_exponent.simps Let_def)

lemma flag_text:
  assumes "json_units name" "name \<noteq> js ''version''"
  shows "json_parse (json_compact (VObject [(name, VBool b), (js ''version'', VNumber (int_digits n))])) =
    Some (VObject [(name, VBool b), (js ''version'', VNumber (int_digits n))])"
proof -
  have "json_ok (VObject [(name, VBool b), (js ''version'', VNumber (int_digits n))])"
    using assms json_ok_int [of n] by (simp add: json_units_def)
  from json_roundtrip(2) [OF this, of "[]"] show ?thesis by (simp add: json_blank_def)
qed

lemma telemetry_text: "parseFieldTelemetryPreference (Some (serializeFieldTelemetryPreference b)) =
    \<lparr>ftp_enabled = b, ftp_version = FIELD_TELEMETRY_PREFERENCE_VERSION\<rparr>"
  unfolding parseFieldTelemetryPreference_def serializeFieldTelemetryPreference_def
  by (subst option.case, subst flag_text) (use value_is_one in \<open>simp_all add: json_units_def FIELD_TELEMETRY_PREFERENCE_VERSION_def\<close>)

lemma location_text: "parseMessageLocationPreference (Some (serializeMessageLocationPreference b)) =
    \<lparr>mlp_attachByDefault = b, mlp_version = MESSAGE_LOCATION_PREFERENCE_VERSION\<rparr>"
  unfolding parseMessageLocationPreference_def serializeMessageLocationPreference_def
  by (subst option.case, subst flag_text) (use value_is_one in \<open>simp_all add: json_units_def MESSAGE_LOCATION_PREFERENCE_VERSION_def\<close>)

section \<open>The stores keep the contract\<close>

definition telemetry_of :: "jstring option \<Rightarrow> bool" where
  "telemetry_of raw = ftp_enabled (parseFieldTelemetryPreference raw)"

definition location_of :: "jstring option \<Rightarrow> bool" where
  "location_of raw = mlp_attachByDefault (parseMessageLocationPreference raw)"

lemma telemetry_of_text [simp]: "telemetry_of (Some (serializeFieldTelemetryPreference b)) = b" "\<not> telemetry_of None"
  by (simp_all add: telemetry_of_def telemetry_text) (simp add: parseFieldTelemetryPreference_def telemetry_default_def)

lemma location_of_text [simp]: "location_of (Some (serializeMessageLocationPreference b)) = b" "\<not> location_of None"
  by (simp_all add: location_of_def location_text) (simp add: parseMessageLocationPreference_def location_default_def)

interpretation telemetry_memory: preference_store "\<lambda>_. True" telemetry_memory_load telemetry_memory_save "\<lambda>_ _ _. False" telemetry_of
  by unfold_locales (auto simp: telemetry_memory_load_def telemetry_memory_save_def telemetry_of_def [symmetric])

interpretation location_memory: preference_store "\<lambda>_. True" location_memory_load location_memory_save "\<lambda>_ _ _. False" location_of
  by unfold_locales (auto simp: location_memory_load_def location_memory_save_def location_of_def [symmetric])

lemmas storage_defs = getItem_def setItem_def telemetry_of_def [symmetric] location_of_def [symmetric]

interpretation telemetry_browser: preference_store "\<lambda>_. True" telemetry_browser_load telemetry_browser_save "\<lambda>_ _ _. False"
    "\<lambda>s. telemetry_of (s TELEMETRY_STORAGE_KEY)"
  by unfold_locales (auto simp: telemetry_browser_load_def telemetry_browser_save_def storage_defs split: option.splits)

interpretation location_browser: preference_store "\<lambda>_. True" location_browser_load location_browser_save "\<lambda>_ _ _. False"
    "\<lambda>s. location_of (s LOCATION_STORAGE_KEY)"
  by unfold_locales (auto simp: location_browser_load_def location_browser_save_def storage_defs split: option.splits)

lemma file_module_laws:
  assumes "file_module_ok fm"
  shows "fm_create fm n d = (d', e) \<Longrightarrow> m \<noteq> n \<Longrightarrow> d' m = d m"
    and "fm_write fm n t d = (d', e) \<Longrightarrow> m \<noteq> n \<Longrightarrow> d' m = d m"
    and "fm_write fm n t d = (d', None) \<Longrightarrow> d' n = Some t"
    and "fm_move fm n m d = (d', None) \<Longrightarrow> n \<noteq> m \<Longrightarrow> d' m = d n"
    and "fm_delete fm n d = (d', e) \<Longrightarrow> m \<noteq> n \<Longrightarrow> d' m = d m"
    and "fm_text fm n d = Inr t \<Longrightarrow> d n = Some t"
  using assms unfolding file_module_ok_def by (simp_all only: option.simps) metis+

text \<open>The save got as far as the move, so that its failure may have touched the target.\<close>

definition move_attempted :: "jstring \<Rightarrow> jstring \<Rightarrow> file_module \<Rightarrow> files \<Rightarrow> bool" where
  "move_attempted temporary text fm d \<longleftrightarrow>
     (case fm_create fm temporary d of (d1, e1) \<Rightarrow> e1 = None \<and> snd (fm_write fm temporary text d1) = None)"

text \<open>A save that returns has replaced the file, and one that throws before the move has left it.\<close>

lemma file_save_replaces:
  assumes "file_module_ok fm" "temporary \<noteq> target" "file_save target temporary text fm d = (d', err)"
  shows "err = None \<Longrightarrow> d' target = Some text"
    and "err \<noteq> None \<Longrightarrow> \<not> move_attempted temporary text fm d \<Longrightarrow> d' target = d target"
proof -
  note laws = file_module_laws [OF assms(1)]
  obtain d1 e1 where create: "fm_create fm temporary d = (d1, e1)" by fastforce
  obtain d2 e2 where wrote: "fm_write fm temporary text d1 = (d2, e2)" by fastforce
  obtain d3 e3 where move: "fm_move fm temporary target d2 = (d3, e3)" by fastforce
  obtain d4 e4 where rest: "fm_delete fm temporary d2 = (d4, e4)" by fastforce
  have same: "d1 target = d target" "d2 target = d target" "d4 target = d target"
    using laws(1) [OF create] laws(2) [OF wrote] laws(5) [OF rest] assms(2) by auto
  have moved: "e3 = None \<Longrightarrow> d3 target = d2 temporary" using laws(4) [OF _ assms(2)] move by blast
  have written: "e2 = None \<Longrightarrow> d2 temporary = Some text" using laws(3) wrote by blast
  show "d' target = Some text" if "err = None"
    using assms(3) that create wrote move moved written
    by (auto simp: file_save_def split: option.splits if_splits prod.splits)
  show "d' target = d target" if "err \<noteq> None" "\<not> move_attempted temporary text fm d"
    using assms(3) that create wrote rest same
    by (auto simp: file_save_def move_attempted_def split: option.splits if_splits)
qed

lemmas file_saved = file_save_replaces(1) [OF _ _ _ refl] file_save_replaces(2) [OF _ _ _ option.distinct(2)]

definition telemetry_touched :: "file_module \<Rightarrow> bool \<Rightarrow> files \<Rightarrow> bool" where
  "telemetry_touched fm enabled = move_attempted TELEMETRY_TEMP_FILE_NAME (serializeFieldTelemetryPreference enabled) fm"

definition location_touched :: "file_module \<Rightarrow> bool \<Rightarrow> files \<Rightarrow> bool" where
  "location_touched fm attachByDefault = move_attempted LOCATION_TEMP_FILE_NAME (serializeMessageLocationPreference attachByDefault) fm"

lemma file_names_differ [simp]:
  "TELEMETRY_TEMP_FILE_NAME \<noteq> TELEMETRY_FILE_NAME" "LOCATION_TEMP_FILE_NAME \<noteq> LOCATION_FILE_NAME"
  by (simp_all add: TELEMETRY_TEMP_FILE_NAME_def TELEMETRY_FILE_NAME_def LOCATION_TEMP_FILE_NAME_def LOCATION_FILE_NAME_def)

interpretation telemetry_file: preference_store file_module_ok telemetry_file_load telemetry_file_save telemetry_touched
    "\<lambda>d. telemetry_of (d TELEMETRY_FILE_NAME)"
proof
  show "b = telemetry_of (d TELEMETRY_FILE_NAME)" if "file_module_ok fm" "telemetry_file_load fm d = Inr b" for fm d b
    using that file_module_laws(6) [OF that(1)]
    by (cases "fm_text fm TELEMETRY_FILE_NAME d") (auto simp: telemetry_file_load_def telemetry_of_def [symmetric] split: if_splits)
qed (auto simp: telemetry_file_save_def telemetry_touched_def dest: file_saved [rotated 2])

interpretation location_file: preference_store file_module_ok location_file_load location_file_save location_touched
    "\<lambda>d. location_of (d LOCATION_FILE_NAME)"
proof
  show "b = location_of (d LOCATION_FILE_NAME)" if "file_module_ok fm" "location_file_load fm d = Inr b" for fm d b
    using that file_module_laws(6) [OF that(1)]
    by (cases "fm_text fm LOCATION_FILE_NAME d") (auto simp: location_file_load_def location_of_def [symmetric] split: if_splits)
qed (auto simp: location_file_save_def location_touched_def dest: file_saved [rotated 2])


section \<open>Properties\<close>

text \<open>A file module that works, and one whose writes fail halfway.\<close>

definition working_files :: file_module where
  "working_files = \<lparr>fm_create = (\<lambda>n d. (d(n \<mapsto> []), None)), fm_write = (\<lambda>n t d. (d(n \<mapsto> t), None)),
     fm_move = (\<lambda>n m d. ((d(m := d n))(n := if n = m then d n else None), None)), fm_delete = (\<lambda>n d. (d(n := None), None)),
     fm_text = (\<lambda>n d. case d n of None \<Rightarrow> Inl (ErrorObject []) | Some t \<Rightarrow> Inr t)\<rparr>"

definition failing_files :: file_module where
  "failing_files = working_files\<lparr>fm_write := (\<lambda>n t d. (d(n \<mapsto> take 5 t), Some (ErrorObject (js ''disk full''))))\<rparr>"

lemma files_ok: "file_module_ok working_files" "file_module_ok failing_files"
  by (auto simp: file_module_ok_def working_files_def failing_files_def split: option.splits if_splits)

text \<open>
  C38. The opt-in settings survive a restart and fail closed: after any sequence of saves in which any file operation may
  fail, a setting loaded from its file is the value of the last save that returned, or else what the file said before,
  unless a later save failed in the move that replaces the file (of which nothing is assumed); a save that fails
  earlier, in creating or writing the temporary file, changes nothing. Without a file both settings are off.
\<close>

theorem preference_durable:
  assumes "\<forall>(fm, b) \<in> set calls. file_module_ok fm" and "file_module_ok fm"
  shows "telemetry_file_load fm Map.empty = Inr False \<and> location_file_load fm Map.empty = Inr False \<and>
    (\<forall>d' a b. save_run telemetry_file_save telemetry_touched id calls (d, Some (telemetry_of (d TELEMETRY_FILE_NAME))) = (d', Some a)
      \<and> telemetry_file_load fm d' = Inr b \<longrightarrow> b = a) \<and>
    (\<forall>d' a b. save_run location_file_save location_touched id calls (d, Some (location_of (d LOCATION_FILE_NAME))) = (d', Some a)
      \<and> location_file_load fm d' = Inr b \<longrightarrow> b = a)"
proof (intro conjI allI impI; (elim conjE)?)
  have calls: "\<forall>(fm, b) \<in> set calls. file_module_ok fm \<and> True" using assms(1) by simp
  note loaded = telemetry_file.load_last_saved [OF calls assms(2)] location_file.load_last_saved [OF calls assms(2)]
  show "b = a" if "save_run telemetry_file_save telemetry_touched id calls (d, Some (telemetry_of (d TELEMETRY_FILE_NAME))) = (d', Some a)"
      "telemetry_file_load fm d' = Inr b" for d' a b using that by (rule loaded(1))
  show "b = a" if "save_run location_file_save location_touched id calls (d, Some (location_of (d LOCATION_FILE_NAME))) = (d', Some a)"
      "location_file_load fm d' = Inr b" for d' a b using that by (rule loaded(2))
qed (simp_all add: telemetry_file_load_def location_file_load_def)

theorem preference_durable_witness:
  "telemetry_file_load working_files
     (fst (save_run telemetry_file_save telemetry_touched id [(working_files, True), (failing_files, False)] (Map.empty, Some False)))
     = Inr True"
proof -
  let ?run = "save_run telemetry_file_save telemetry_touched id [(working_files, True), (failing_files, False)] (Map.empty, Some False)"
  have run: "fst ?run TELEMETRY_FILE_NAME \<noteq> None" "snd ?run = Some True"
    by (simp_all add: telemetry_file_save_def telemetry_touched_def move_attempted_def file_save_def working_files_def failing_files_def)
  then obtain b where b: "telemetry_file_load working_files (fst ?run) = Inr b"
    by (auto simp: telemetry_file_load_def working_files_def split: option.splits)
  have "?run = (fst ?run, Some True)" using run(2) by (metis prod.collapse)
  then show ?thesis
    using preference_durable [of "[(working_files, True), (failing_files, False)]" working_files Map.empty] files_ok b by fastforce
qed

end
