(* ===== verification/Doubles.thy ===== *)
theory Doubles
  imports Complex_Main Prelude
begin

text \<open>
  The arithmetic of doubles on rationals. A finite double is its rational value; a product or quotient of doubles is the exact one
  rounded to 53 bits, half to even. The exponent is not bounded: what overflows or underflows in the code is here a number as
  large or as small, and takes the same branches. The error of a rounded operation is at most one part in \<open>2 ^ 53\<close>.
\<close>

section \<open>Doubles\<close>

datatype js_double = Num rat | NotNum \<comment> \<open>\<open>NaN\<close> or an infinity\<close>

text \<open>The least power of two that brings \<open>a / b\<close> below \<open>2 ^ 53\<close>.\<close>

function quotient_scale :: "nat \<Rightarrow> nat \<Rightarrow> nat \<Rightarrow> nat" where
  "quotient_scale a b j = (if b = 0 \<or> a < b * 2 ^ 53 then j else quotient_scale a (2 * b) (j + 1))"
  by pat_completeness auto
termination
  by (relation "measure (\<lambda>(a, b, j). a - b)") auto

declare quotient_scale.simps [simp del]

definition double_magnitude :: "nat \<Rightarrow> nat \<Rightarrow> rat" where
  "double_magnitude a b =
     (if a < b * 2 ^ 53
      then let k = quotient_exponent a b 0 in of_nat (round_half_even (a * 2 ^ k) b) / 2 ^ k
      else let j = quotient_scale a b 0 in of_nat (round_half_even a (b * 2 ^ j)) * 2 ^ j)"

definition double_round :: "rat \<Rightarrow> rat" where
  "double_round q =
     (case quotient_of q of
        (n, d) \<Rightarrow> if n < 0 then - double_magnitude (nat (- n)) (nat d) else double_magnitude (nat n) (nat d))"

text \<open>\<open>Math.round\<close>: the nearest integer, the larger one of two.\<close>

definition js_round :: "rat \<Rightarrow> int" where
  "js_round q = \<lfloor>q + 1 / 2\<rfloor>"

text \<open>\<^verbatim>\<open>x % m\<close> for a dividend that is not negative: exact on doubles.\<close>

definition js_fmod :: "rat \<Rightarrow> int \<Rightarrow> rat" where
  "js_fmod q m = q - of_int (m * \<lfloor>q / of_int m\<rfloor>)"

section \<open>The error of a rounded operation\<close>

lemma round_half_even_error: "0 < b \<Longrightarrow> 2 * \<bar>int (round_half_even a b) * int b - int a\<bar> \<le> int b"
proof -
  assume b: "0 < b"
  have "int a = int (a div b) * int b + int (a mod b)"
    by (metis div_mult_mod_eq of_nat_add of_nat_mult)
  moreover have "a mod b < b" using b by simp
  ultimately show ?thesis
    by (auto simp: round_half_even_def Let_def algebra_simps)
qed

lemma quotient_exponent_reaches: "0 < a \<Longrightarrow> \<exists>m. quotient_exponent a b k = k + m \<and> b * 2 ^ 52 \<le> a * 2 ^ m"
proof (induction a b k rule: quotient_exponent.induct)
  case (1 a b k)
  show ?case
  proof (cases "b * 2 ^ 52 \<le> a")
    case True
    then show ?thesis by (intro exI [of _ 0]) (simp add: quotient_exponent.simps [of a])
  next
    case False
    then obtain m where "quotient_exponent (2 * a) b (k + 1) = k + 1 + m" "b * 2 ^ 52 \<le> 2 * a * 2 ^ m" using 1 by auto
    then show ?thesis using 1(2) False by (intro exI [of _ "Suc m"]) (simp add: quotient_exponent.simps [of a])
  qed
qed

lemma quotient_scale_reaches:
  "0 < b \<Longrightarrow> b * 2 ^ 52 \<le> a \<Longrightarrow> \<exists>m. quotient_scale a b j = j + m \<and> b * 2 ^ m * 2 ^ 52 \<le> a"
proof (induction a b j rule: quotient_scale.induct)
  case (1 a b j)
  show ?case
  proof (cases "a < b * 2 ^ 53")
    case True
    then show ?thesis using 1 by (intro exI [of _ 0]) (simp add: quotient_scale.simps [of a])
  next
    case False
    then obtain m where "quotient_scale a (2 * b) (j + 1) = j + 1 + m" "2 * b * 2 ^ m * 2 ^ 52 \<le> a" using 1 by auto
    then show ?thesis using 1(2) False by (intro exI [of _ "Suc m"]) (simp add: quotient_scale.simps [of a])
  qed
qed

text \<open>A rounded value is off by at most one part in \<open>2 ^ 53\<close>.\<close>

lemma significand_error:
  assumes "0 < d" "d * 2 ^ 52 \<le> n"
  shows "\<bar>of_nat (round_half_even n d) - of_nat n / of_nat d\<bar> * 2 ^ 53 \<le> (of_nat n / of_nat d :: rat)"
proof -
  let ?r = "round_half_even n d"
  have D: "(0::rat) < of_nat d" using assms by simp
  have "of_int (2 * \<bar>int ?r * int d - int n\<bar>) \<le> (of_int (int d) :: rat)"
    by (rule of_int_le_iff [THEN iffD2], rule round_half_even_error [OF assms(1)])
  then have near: "2 * \<bar>of_nat ?r * of_nat d - of_nat n\<bar> \<le> (of_nat d :: rat)" by simp
  have far: "of_nat d * 2 ^ 52 \<le> (of_nat n :: rat)" using of_nat_mono [OF assms(2), where 'a = rat] by simp
  have "of_nat ?r - of_nat n / of_nat d = (of_nat ?r * of_nat d - of_nat n) / (of_nat d :: rat)"
    using D by (simp add: field_simps)
  then have diff: "\<bar>of_nat ?r - of_nat n / of_nat d\<bar> = \<bar>of_nat ?r * of_nat d - of_nat n\<bar> / (of_nat d :: rat)"
    using D by simp
  have "\<bar>of_nat ?r * of_nat d - of_nat n\<bar> * 2 ^ 53 \<le> (of_nat n :: rat)" using near far by simp
  then show ?thesis unfolding diff using D by (simp add: divide_right_mono)
qed

lemma scale_error:
  assumes "\<bar>r - q\<bar> * 2 ^ 53 \<le> (q :: rat)" "0 \<le> c"
  shows "\<bar>r * c - q * c\<bar> * 2 ^ 53 \<le> q * c"
proof -
  have "\<bar>r * c - q * c\<bar> = \<bar>r - q\<bar> * c" using assms(2) by (simp add: abs_mult flip: left_diff_distrib)
  then show ?thesis using mult_right_mono [OF assms] by (simp add: ac_simps)
qed

lemma double_magnitude_error:
  assumes "0 < b"
  shows "\<bar>double_magnitude a b - of_nat a / of_nat b\<bar> * 2 ^ 53 \<le> of_nat a / of_nat b"
proof (cases "a < b * 2 ^ 53")
  case True
  show ?thesis
  proof (cases "a = 0")
    case True
    then show ?thesis using assms by (simp add: double_magnitude_def quotient_exponent.simps [of 0] round_half_even_def)
  next
    case False
    define k where "k = quotient_exponent a b 0"
    have "b * 2 ^ 52 \<le> a * 2 ^ k" using quotient_exponent_reaches [of a b 0] False by (auto simp: k_def)
    from scale_error [OF significand_error [OF assms this], of "1 / 2 ^ k"] show ?thesis
      using True by (simp add: double_magnitude_def Let_def flip: k_def)
  qed
next
  case False
  define j where "j = quotient_scale a b 0"
  have "b * 2 ^ j * 2 ^ 52 \<le> a" using quotient_scale_reaches [of b a 0] assms False by (auto simp: j_def)
  from scale_error [OF significand_error [OF _ this], of "2 ^ j"] show ?thesis
    using False assms by (simp add: double_magnitude_def Let_def flip: j_def)
qed

lemma double_round_error: "\<bar>double_round q - q\<bar> * 2 ^ 53 \<le> \<bar>q\<bar>"
proof -
  obtain n d where nd: "quotient_of q = (n, d)" by fastforce
  have d: "0 < d" and q: "q = of_int n / of_int d" using quotient_of_denom_pos [OF nd] quotient_of_div [OF nd] by auto
  have "\<bar>q\<bar> = of_nat (nat \<bar>n\<bar>) / of_nat (nat d)" using d by (simp add: q)
  moreover have "double_round q - q = (if n < 0 then -1 else 1) * (double_magnitude (nat \<bar>n\<bar>) (nat d) - of_nat (nat \<bar>n\<bar>) / of_nat (nat d))"
  proof -
    have "double_round q = (if n < 0 then - double_magnitude (nat (- n)) (nat d) else double_magnitude (nat n) (nat d))"
      by (simp add: double_round_def nd)
    then show ?thesis using d by (simp add: q)
  qed
  ultimately show ?thesis using double_magnitude_error [of "nat d" "nat \<bar>n\<bar>"] d by (auto simp: abs_mult)
qed

lemma double_round_nonneg: "0 \<le> q \<Longrightarrow> 0 \<le> double_round q"
proof -
  have "\<bar>double_round q - q\<bar> \<le> \<bar>double_round q - q\<bar> * 2 ^ 53" by simp
  then show "0 \<le> q \<Longrightarrow> 0 \<le> double_round q" using double_round_error [of q] by linarith
qed

lemma js_round_error: "\<bar>of_int (js_round q) - q\<bar> \<le> 1 / 2"
  unfolding js_round_def using floor_correct [of "q + 1 / 2"] by linarith


text \<open>Whole numbers below \<open>2 ^ 53\<close> are doubles.\<close>

lemma double_round_nat:
  assumes "n < 2 ^ 53"
  shows "double_round (of_nat n) = of_nat n"
proof -
  have "quotient_of (of_nat n) = (int n, 1)" using quotient_of_Fract [of "int n" 1] by (simp add: Fract_of_nat_eq Rat.normalize_def)
  moreover have "round_half_even m 1 = m" for m by (simp add: round_half_even_def)
  ultimately show ?thesis using assms by (simp add: double_round_def double_magnitude_def Let_def)
qed

end
