(* ===== verification/LocationCapture.thy ===== *)
theory LocationCapture
  imports Doubles PhoneLocation MessageActivity JsText
begin

text \<open>
  Model of \<open>lib/phone-location.ts\<close> and \<open>lib/message-location.ts\<close>: the conversion of a platform fix into the integers that the
  appliance and the messages carry, the capture of one fix, and the foreground telemetry. The arithmetic is that of \<open>Doubles\<close>;
  the location module of the platform is what it answers.
\<close>

section \<open>The conversion of a fix\<close>

datatype PhoneLocationPrecision = PrecisionDevice | Approximately100m | Approximately1km

record SharedPhoneLocation =
  sp_latitude_e6 :: int
  sp_longitude_e6 :: int
  sp_horizontal_accuracy_m :: "rat option"
  sp_captured_at_unix_ms :: int
  sp_precision :: PhoneLocationPrecision

text \<open>A missing value is \<open>null\<close>, or \<open>undefined\<close> where the type allows it.\<close>

record PhoneLocationSample =
  ps_latitude :: js_double
  ps_longitude :: js_double
  ps_accuracy :: "js_double option"
  ps_altitude :: "js_double option"
  ps_altitudeAccuracy :: "js_double option"
  ps_heading :: "js_double option"
  ps_speed :: "js_double option"
  ps_timestamp :: js_double
  ps_mocked :: "bool option"

definition I32_MIN :: int where "I32_MIN = - 0x80000000"

definition I32_MAX :: int where "I32_MAX = 0x7fffffff"

definition U32_MAX :: int where "U32_MAX = 0xffffffff"

definition U16_MAX :: int where "U16_MAX = 0xffff"

fun PRECISION_QUANTUM_E6 :: "PhoneLocationPrecision \<Rightarrow> int" where
  "PRECISION_QUANTUM_E6 PrecisionDevice = 1"
| "PRECISION_QUANTUM_E6 Approximately100m = 1000"
| "PRECISION_QUANTUM_E6 Approximately1km = 10000"

text \<open>The last product is of whole numbers below \<open>2 ^ 53\<close>, and exact.\<close>

definition roundedE6 :: "rat \<Rightarrow> int \<Rightarrow> int" where
  "roundedE6 v quantum = js_round (double_round (double_round (v * 1000000) / of_int quantum)) * quantum"

definition finiteCoordinate :: "js_double \<Rightarrow> int \<Rightarrow> int \<Rightarrow> jstring \<Rightarrow> thrown + rat" where
  "finiteCoordinate v minimum maximum label =
     (let err = Inl (ErrorObject (label @ js '' must be between '' @ int_digits minimum @ js '' and '' @ int_digits maximum @ js '' degrees''))
      in case v of
           NotNum \<Rightarrow> err
         | Num q \<Rightarrow> if q < of_int minimum \<or> of_int maximum < q then err else Inr q)"

definition optionalMillimetres :: "js_double option \<Rightarrow> int \<Rightarrow> int \<Rightarrow> jstring \<Rightarrow> thrown + int option" where
  "optionalMillimetres v minimum maximum label =
     (case v of
        None \<Rightarrow> Inr None
      | Some NotNum \<Rightarrow> Inl (ErrorObject (label @ js '' must be null or a finite number''))
      | Some (Num q) \<Rightarrow>
          let millimetres = js_round (double_round (q * 1000))
          in if \<not> isSafeInteger millimetres \<or> millimetres < minimum \<or> millimetres > maximum
             then Inl (ErrorObject (label @ js '' cannot be represented in whole millimetres''))
             else Inr (Some millimetres))"

definition sample_timestamp :: "js_double \<Rightarrow> thrown + int" where
  "sample_timestamp v =
     (let err = Inl (ErrorObject (js ''Location timestamp must be a non-negative safe integer''))
      in case v of
           NotNum \<Rightarrow> err
         | Num q \<Rightarrow> if \<not> isSafeInteger (js_round q) \<or> js_round q < 0 then err else Inr (js_round q))"

definition sample_accuracy :: "js_double option \<Rightarrow> thrown + rat option" where
  "sample_accuracy v =
     (let err = Inl (ErrorObject (js ''Horizontal accuracy must be null or a non-negative finite number''))
      in case v of
           None \<Rightarrow> Inr None
         | Some NotNum \<Rightarrow> err
         | Some (Num q) \<Rightarrow> if q < 0 then err else Inr (Some q))"

definition sharedPhoneLocation :: "PhoneLocationSample \<Rightarrow> PhoneLocationPrecision \<Rightarrow> thrown + SharedPhoneLocation" where
  "sharedPhoneLocation sample precision =
     (case finiteCoordinate (ps_latitude sample) (- 90) 90 (js ''Latitude'') of
        Inl err \<Rightarrow> Inl err
      | Inr latitude \<Rightarrow>
     (case finiteCoordinate (ps_longitude sample) (- 180) 180 (js ''Longitude'') of
        Inl err \<Rightarrow> Inl err
      | Inr longitude \<Rightarrow>
     (case sample_timestamp (ps_timestamp sample) of
        Inl err \<Rightarrow> Inl err
      | Inr timestamp \<Rightarrow>
     (case sample_accuracy (ps_accuracy sample) of
        Inl err \<Rightarrow> Inl err
      | Inr accuracy \<Rightarrow>
          Inr \<lparr>sp_latitude_e6 = roundedE6 latitude (PRECISION_QUANTUM_E6 precision),
               sp_longitude_e6 = roundedE6 longitude (PRECISION_QUANTUM_E6 precision),
               sp_horizontal_accuracy_m = accuracy, sp_captured_at_unix_ms = timestamp, sp_precision = precision\<rparr>))))"

text \<open>The precision grants of the two platforms, as their texts.\<close>

record location_permission =
  lc_granted :: bool
  lc_canAskAgain :: bool
  lc_ios_accuracy :: "jstring option"
  lc_android_accuracy :: "jstring option"

definition phoneLocationAuthorization :: "location_permission \<Rightarrow> PhoneLocationAuthorizationView" where
  "phoneLocationAuthorization p =
     (if lc_ios_accuracy p = Some (js ''full'') \<or> lc_android_accuracy p = Some (js ''fine'') then Precise
      else if lc_ios_accuracy p = Some (js ''reduced'') \<or> lc_android_accuracy p = Some (js ''coarse'') then Approximate
      else AuthorizationUnknown)"

definition attemptPhoneLocationObservation ::
  "PhoneLocationSample \<Rightarrow> PhoneLocationAuthorizationView \<Rightarrow> PhoneLocationSourceView \<Rightarrow> thrown + PhoneLocationObservationView" where
  "attemptPhoneLocationObservation sample authorization source =
     (case sharedPhoneLocation sample PrecisionDevice of
        Inl err \<Rightarrow> Inl err
      | Inr location \<Rightarrow>
     (case optionalMillimetres (map_option Num (sp_horizontal_accuracy_m location)) 0 U32_MAX (js ''Horizontal accuracy'') of
        Inl err \<Rightarrow> Inl err
      | Inr accuracyMm \<Rightarrow>
     (case optionalMillimetres (ps_altitude sample) I32_MIN I32_MAX (js ''Altitude'') of
        Inl err \<Rightarrow> Inl err
      | Inr altitudeMm \<Rightarrow>
     (case optionalMillimetres (ps_altitudeAccuracy sample) 0 U32_MAX (js ''Vertical accuracy'') of
        Inl err \<Rightarrow> Inl err
      | Inr verticalAccuracyMm \<Rightarrow>
          Inr (LocationAvailable
            \<lparr>pl_latitude_e6 = sp_latitude_e6 location, pl_longitude_e6 = sp_longitude_e6 location,
             pl_horizontal_accuracy_mm = accuracyMm, pl_altitude_mm = altitudeMm, pl_vertical_accuracy_mm = verticalAccuracyMm,
             pl_captured_at_unix_ms = sp_captured_at_unix_ms location, pl_authorization = authorization, pl_source = source,
             pl_mocked = ps_mocked sample\<rparr>)))))"

section \<open>The location of a message\<close>

definition roundedClamped :: "rat \<Rightarrow> int \<Rightarrow> int \<Rightarrow> int" where
  "roundedClamped v minimum maximum = min maximum (max minimum (js_round v))"

definition optionalScaled :: "js_double option \<Rightarrow> int \<Rightarrow> int \<Rightarrow> int \<Rightarrow> int" where
  "optionalScaled v scale minimum maximum =
     (case v of
        None \<Rightarrow> 0
      | Some NotNum \<Rightarrow> 0
      | Some (Num q) \<Rightarrow> roundedClamped (double_round (q * of_int scale)) minimum maximum)"

definition bearing_of :: "js_double option \<Rightarrow> int" where
  "bearing_of heading =
     (case heading of
        None \<Rightarrow> 0
      | Some NotNum \<Rightarrow> 0
      | Some (Num q) \<Rightarrow>
          if q < 0 then 0
          else js_round (double_round (js_fmod (double_round (js_fmod q 360 + 360)) 360 * 100)) mod 36000)"

definition messageLocationFromPhoneSample :: "PhoneLocationSample \<Rightarrow> thrown + MessageLocationView" where
  "messageLocationFromPhoneSample sample =
     (case sharedPhoneLocation sample PrecisionDevice of
        Inl err \<Rightarrow> Inl err
      | Inr shared \<Rightarrow>
          let updatedAtSeconds = \<lfloor>double_round (of_int (sp_captured_at_unix_ms shared) / 1000)\<rfloor>
          in if \<not> isSafeInteger updatedAtSeconds \<or> updatedAtSeconds < 0 \<or> updatedAtSeconds > U32_MAX
             then Inl (ErrorObject (js ''Location time cannot be represented as unsigned Unix seconds''))
             else Inr \<lparr>ml_latitude_e6 = sp_latitude_e6 shared, ml_longitude_e6 = sp_longitude_e6 shared,
               ml_altitude_cm = optionalScaled (ps_altitude sample) 100 I32_MIN I32_MAX,
               ml_speed_cm_per_second = optionalScaled (ps_speed sample) 100 0 U32_MAX,
               ml_bearing_centidegrees = bearing_of (ps_heading sample),
               ml_accuracy_cm = (case sp_horizontal_accuracy_m shared of
                                   None \<Rightarrow> 0 | Some q \<Rightarrow> roundedClamped (double_round (q * 100)) 0 U16_MAX),
               ml_updated_at_unix_seconds = updatedAtSeconds\<rparr>)"

definition messageLocationMapUrl :: "MessageLocationView \<Rightarrow> jstring" where
  "messageLocationMapUrl location =
     (let latitude = js_ratio_toFixed 6 (ml_latitude_e6 location) 1000000;
          longitude = js_ratio_toFixed 6 (ml_longitude_e6 location) 1000000
      in js ''https://www.openstreetmap.org/?mlat='' @ latitude @ js ''&mlon='' @ longitude @ js ''#map=16/'' @ latitude @ js ''/'' @ longitude)"

record MessageLocationPresentation =
  mp_accuracy :: jstring
  mp_altitude :: jstring
  mp_bearing :: jstring
  mp_coordinates :: jstring
  mp_mapUrl :: jstring
  mp_speed :: jstring
  mp_summary :: jstring
  mp_updated :: jstring

text \<open>The argument is \<open>toLocaleString\<close> of the host on a time.\<close>

definition messageLocationPresentation :: "(int \<Rightarrow> jstring) \<Rightarrow> MessageLocationView \<Rightarrow> MessageLocationPresentation" where
  "messageLocationPresentation toLocaleString location =
     (let coordinates = js_ratio_toFixed 6 (ml_latitude_e6 location) 1000000 @ js '', '' @ js_ratio_toFixed 6 (ml_longitude_e6 location) 1000000;
          accuracy = (if ml_accuracy_cm location = 0 then js ''Unavailable''
                      else [177] @ js_ratio_toFixed 2 (ml_accuracy_cm location) 100 @ js '' m ('' @ int_digits (ml_accuracy_cm location) @ js '' cm)'')
      in \<lparr>mp_accuracy = accuracy,
          mp_altitude = (if ml_altitude_cm location = 0 then js ''0.00 m (zero can mean unavailable)''
                         else js_ratio_toFixed 2 (ml_altitude_cm location) 100 @ js '' m ('' @ int_digits (ml_altitude_cm location) @ js '' cm)''),
          mp_bearing = (if ml_bearing_centidegrees location = 0 then js ''0.00'' @ [176] @ js '' (zero can mean unavailable or due north)''
                        else js_ratio_toFixed 2 (ml_bearing_centidegrees location) 100 @ [176] @ js '' ('' @
                          int_digits (ml_bearing_centidegrees location) @ js '' centidegrees)''),
          mp_coordinates = coordinates,
          mp_mapUrl = messageLocationMapUrl location,
          mp_speed = (if ml_speed_cm_per_second location = 0 then js ''0.00 m/s (zero can mean unavailable or stationary)''
                      else js_ratio_toFixed 2 (ml_speed_cm_per_second location) 100 @ js '' m/s ('' @
                        int_digits (ml_speed_cm_per_second location) @ js '' cm/s)''),
          mp_summary = js ''Attached location'' @ middle_dot @ coordinates @ middle_dot @
            (if accuracy = js ''Unavailable'' then js ''accuracy unavailable'' else accuracy),
          mp_updated = toLocaleString (ml_updated_at_unix_seconds location * 1000) @ js '' ('' @
            int_digits (ml_updated_at_unix_seconds location) @ js '' Unix seconds)''\<rparr>)"

section \<open>Capture\<close>

text \<open>What the location module answers, in the order it is asked.\<close>

record location_module =
  lm_services :: "bool settled" \<comment> \<open>\<open>hasServicesEnabledAsync\<close>\<close>
  lm_permission :: "location_permission settled" \<comment> \<open>\<open>requestForegroundPermissionsAsync\<close>\<close>
  lm_position :: "PhoneLocationSample settled" \<comment> \<open>\<open>getCurrentPositionAsync\<close>\<close>
  lm_lastKnown :: "PhoneLocationSample option settled" \<comment> \<open>\<open>getLastKnownPositionAsync\<close>\<close>
  lm_watch :: "unit settled" \<comment> \<open>\<open>watchPositionAsync\<close>\<close>

definition permission_error :: "bool \<Rightarrow> thrown" where
  "permission_error canAskAgain =
     ErrorObject (if canAskAgain then js ''Foreground location permission was not granted''
                  else js ''Foreground location permission was denied in system settings'')"

definition capture_fix :: "(PhoneLocationSample \<Rightarrow> thrown + 'a) \<Rightarrow> location_module \<Rightarrow> thrown + 'a" where
  "capture_fix convert lm =
     (case lm_permission lm of
        Rejected err \<Rightarrow> Inl err
      | Fulfilled permission \<Rightarrow>
          if \<not> lc_granted permission then Inl (permission_error (lc_canAskAgain permission))
          else (case lm_position lm of Rejected err \<Rightarrow> Inl err | Fulfilled sample \<Rightarrow> convert sample))"

definition captureForegroundPhoneLocation :: "PhoneLocationPrecision option \<Rightarrow> location_module \<Rightarrow> thrown + SharedPhoneLocation" where
  "captureForegroundPhoneLocation precision lm =
     capture_fix (\<lambda>sample. sharedPhoneLocation sample (case precision of None \<Rightarrow> Approximately100m | Some p \<Rightarrow> p)) lm"

definition captureForegroundMessageLocation :: "location_module \<Rightarrow> thrown + MessageLocationView" where
  "captureForegroundMessageLocation lm = capture_fix messageLocationFromPhoneSample lm"

text \<open>
  The start of the telemetry: the observations handed to the sink, and the subscription's \<open>collecting\<close> flag or what is thrown.
  The sink is awaited, and what it throws ends the start.
\<close>

definition observe ::
  "(PhoneLocationObservationView \<Rightarrow> thrown option) \<Rightarrow> PhoneLocationObservationView \<Rightarrow>
   PhoneLocationObservationView list \<times> bool settled \<Rightarrow> PhoneLocationObservationView list \<times> bool settled" where
  "observe sink observation later =
     (case sink observation of
        Some err \<Rightarrow> ([observation], Rejected err)
      | None \<Rightarrow> (observation # fst later, snd later))"

definition start_watch :: "location_module \<Rightarrow> PhoneLocationObservationView list \<times> bool settled" where
  "start_watch lm = (case lm_watch lm of Rejected err \<Rightarrow> ([], Rejected err) | Fulfilled _ \<Rightarrow> ([], Fulfilled True))"

definition startForegroundPhoneLocationTelemetry ::
  "location_module \<Rightarrow> (PhoneLocationObservationView \<Rightarrow> thrown option) \<Rightarrow> PhoneLocationObservationView list \<times> bool settled" where
  "startForegroundPhoneLocationTelemetry lm sink =
     (case lm_services lm of
        Rejected err \<Rightarrow> ([], Rejected err)
      | Fulfilled False \<Rightarrow> observe sink (LocationUnavailable ServicesDisabled) ([], Fulfilled False)
      | Fulfilled True \<Rightarrow>
     (case lm_permission lm of
        Rejected err \<Rightarrow> ([], Rejected err)
      | Fulfilled permission \<Rightarrow>
          if \<not> lc_granted permission then observe sink (LocationUnavailable PermissionDenied) ([], Fulfilled False)
          else observe sink (LocationUnavailable NoFixYet)
            (case lm_lastKnown lm of
               Rejected err \<Rightarrow> ([], Rejected err)
             | Fulfilled None \<Rightarrow> start_watch lm
             | Fulfilled (Some sample) \<Rightarrow>
                 (case attemptPhoneLocationObservation sample (phoneLocationAuthorization permission) LastKnown of
                    Inl err \<Rightarrow> ([], Rejected err)
                  | Inr observation \<Rightarrow> observe sink observation (start_watch lm)))))"

text \<open>The two callbacks of the watch.\<close>

definition watch_sample :: "PhoneLocationAuthorizationView \<Rightarrow> PhoneLocationSample \<Rightarrow> thrown + PhoneLocationObservationView" where
  "watch_sample authorization sample = attemptPhoneLocationObservation sample authorization ForegroundStream"

definition watch_error :: PhoneLocationObservationView where
  "watch_error = LocationUnavailable ProviderError"


section \<open>The error of a coordinate\<close>

lemma roundedE6_error:
  assumes "\<bar>v\<bar> \<le> 180" "0 < quantum"
  shows "\<bar>of_int (roundedE6 v quantum) - v * 1000000\<bar> \<le> of_int quantum / 2 + 1 / 1000000"
proof -
  define x where "x = v * 1000000"
  define y where "y = double_round x"
  define Q where "Q = (of_int quantum :: rat)"
  define w where "w = double_round (y / Q)"
  define r where "r = (of_int (js_round w) :: rat)"
  have Q: "0 < Q" using assms(2) by (simp add: Q_def)
  have x: "\<bar>x\<bar> \<le> 180000000" using assms(1) by (simp add: x_def abs_mult)
  have y: "\<bar>y - x\<bar> * 2 ^ 53 \<le> \<bar>x\<bar>" unfolding y_def by (rule double_round_error)
  have "\<bar>w - y / Q\<bar> * 2 ^ 53 * Q \<le> \<bar>y / Q\<bar> * Q" using double_round_error [of "y / Q"] Q by (intro mult_right_mono) (auto simp: w_def)
  moreover have "\<bar>w - y / Q\<bar> * Q = \<bar>w * Q - y\<bar>" using Q by (simp add: abs_mult_pos' left_diff_distrib abs_mult_pos)
  ultimately have w: "\<bar>w * Q - y\<bar> * 2 ^ 53 \<le> \<bar>y\<bar>" using Q by (simp add: ac_simps)
  have "\<bar>r - w\<bar> * Q \<le> 1 / 2 * Q" using js_round_error [of w] Q by (intro mult_right_mono) (auto simp: r_def)
  moreover have "\<bar>r - w\<bar> * Q = \<bar>r * Q - w * Q\<bar>" using Q by (simp add: left_diff_distrib abs_mult_pos)
  ultimately have r: "\<bar>r * Q - w * Q\<bar> \<le> Q / 2" by simp
  have near_x: "\<bar>y - x\<bar> \<le> 1 / 2000000" using y x by simp
  then have "\<bar>y\<bar> \<le> 180000001" using x by linarith
  then have "\<bar>w * Q - y\<bar> \<le> 1 / 2000000" using w by simp
  then have "\<bar>r * Q - x\<bar> \<le> Q / 2 + 1 / 1000000" using r near_x by linarith
  moreover have "of_int (roundedE6 v quantum) = r * Q"
    by (simp add: roundedE6_def r_def w_def y_def x_def Q_def)
  ultimately show ?thesis by (simp add: x_def Q_def)
qed

lemma multiple_within:
  assumes "quantum dvd n" "quantum dvd limit" "n < limit + quantum"
  shows "n \<le> (limit :: int)"
proof -
  obtain k l where "n = quantum * k" "limit = quantum * l" using assms by (elim dvdE)
  moreover then have "quantum * k < quantum * (l + 1)" using assms(3) by (simp add: distrib_left)
  ultimately show ?thesis by (cases "0 < quantum") (auto simp: mult_less_cancel_left mult_le_cancel_left)
qed

lemma roundedE6_within:
  assumes "\<bar>v\<bar> \<le> of_int limit" "limit \<le> 180" "0 < quantum" "quantum dvd limit * 1000000"
  shows "\<bar>roundedE6 v quantum\<bar> \<le> limit * 1000000" "quantum dvd roundedE6 v quantum"
proof -
  let ?n = "roundedE6 v quantum"
  show dvd: "quantum dvd ?n" by (simp add: roundedE6_def)
  have "of_int limit \<le> (180 :: rat)" using assms(2) by (metis of_int_le_iff of_int_numeral)
  then have v: "\<bar>v\<bar> \<le> 180" using assms(1) by linarith
  have q1: "(1::rat) \<le> of_int quantum" using assms(3) by simp
  have "of_int \<bar>?n\<bar> < (of_int (limit * 1000000 + quantum) :: rat)"
    using roundedE6_error [OF v assms(3)] assms(1) q1 by simp
  then have "\<bar>?n\<bar> < limit * 1000000 + quantum" by (simp only: of_int_less_iff)
  moreover have "quantum dvd \<bar>?n\<bar>" using dvd by simp
  ultimately show "\<bar>?n\<bar> \<le> limit * 1000000" using assms(4) by (intro multiple_within [of quantum])
qed


section \<open>What a conversion that returns has checked\<close>

lemma finiteCoordinate_Inr:
  "finiteCoordinate v minimum maximum label = Inr q \<longleftrightarrow> v = Num q \<and> of_int minimum \<le> q \<and> q \<le> of_int maximum"
  by (auto simp: finiteCoordinate_def Let_def split: js_double.splits if_splits)

lemma sample_timestamp_Inr: "sample_timestamp v = Inr t \<Longrightarrow> isSafeInteger t \<and> 0 \<le> t"
  by (auto simp: sample_timestamp_def Let_def split: js_double.splits if_splits)

lemma sample_accuracy_Inr: "sample_accuracy v = Inr (Some q) \<Longrightarrow> 0 \<le> q"
  by (auto simp: sample_accuracy_def Let_def split: js_double.splits option.splits if_splits)

lemma sharedPhoneLocation_Inr:
  assumes "sharedPhoneLocation sample precision = Inr l"
  obtains latitude longitude where "ps_latitude sample = Num latitude" "ps_longitude sample = Num longitude"
    "\<bar>latitude\<bar> \<le> 90" "\<bar>longitude\<bar> \<le> 180"
    "sp_latitude_e6 l = roundedE6 latitude (PRECISION_QUANTUM_E6 precision)"
    "sp_longitude_e6 l = roundedE6 longitude (PRECISION_QUANTUM_E6 precision)"
    "isSafeInteger (sp_captured_at_unix_ms l)" "0 \<le> sp_captured_at_unix_ms l" "sp_precision l = precision"
    "sample_accuracy (ps_accuracy sample) = Inr (sp_horizontal_accuracy_m l)"
  using assms
  by (auto simp: sharedPhoneLocation_def finiteCoordinate_Inr abs_le_iff dest!: sample_timestamp_Inr split: sum.splits)

lemma quantum_divides: "0 < PRECISION_QUANTUM_E6 p" "PRECISION_QUANTUM_E6 p dvd 90 * 1000000" "PRECISION_QUANTUM_E6 p dvd 180 * 1000000"
  by (cases p; simp add: dvd_def)+

lemma optionalMillimetres_Inr: "optionalMillimetres v minimum maximum label = Inr (Some n) \<Longrightarrow> minimum \<le> n \<and> n \<le> maximum"
  by (auto simp: optionalMillimetres_def Let_def split: option.splits js_double.splits if_splits)

lemma roundedClamped_within: "minimum \<le> maximum \<Longrightarrow> minimum \<le> roundedClamped v minimum maximum \<and> roundedClamped v minimum maximum \<le> maximum"
  by (simp add: roundedClamped_def)

lemma optionalScaled_within:
  "minimum \<le> 0 \<Longrightarrow> 0 \<le> maximum \<Longrightarrow> minimum \<le> optionalScaled v scale minimum maximum \<and> optionalScaled v scale minimum maximum \<le> maximum"
  using roundedClamped_within [of minimum maximum] by (auto simp: optionalScaled_def split: option.splits js_double.splits)

lemma bearing_within: "0 \<le> bearing_of heading \<and> bearing_of heading < 36000"
  by (auto simp: bearing_of_def split: option.splits js_double.splits)

section \<open>Properties\<close>

definition sample_at :: "rat \<Rightarrow> rat \<Rightarrow> PhoneLocationSample" where
  "sample_at latitude longitude = \<lparr>ps_latitude = Num latitude, ps_longitude = Num longitude, ps_accuracy = None, ps_altitude = None,
     ps_altitudeAccuracy = None, ps_heading = None, ps_speed = None, ps_timestamp = Num 0, ps_mocked = None\<rparr>"

text \<open>
  C34. A shared position is as coarse as was asked and no coarser: its coordinates lie on the grid of the precision, within the
  globe, and at most half a grid step from the position of the phone, up to a millionth of a step of the finest grid that the
  floating-point arithmetic adds; the time is a safe integer that is not negative.
\<close>

theorem shared_location_quantised:
  assumes "sharedPhoneLocation sample precision = Inr l"
  shows "\<exists>latitude longitude. ps_latitude sample = Num latitude \<and> ps_longitude sample = Num longitude \<and>
    PRECISION_QUANTUM_E6 precision dvd sp_latitude_e6 l \<and> PRECISION_QUANTUM_E6 precision dvd sp_longitude_e6 l \<and>
    \<bar>sp_latitude_e6 l\<bar> \<le> 90000000 \<and> \<bar>sp_longitude_e6 l\<bar> \<le> 180000000 \<and>
    \<bar>of_int (sp_latitude_e6 l) - latitude * 1000000\<bar> \<le> of_int (PRECISION_QUANTUM_E6 precision) / 2 + 1 / 1000000 \<and>
    \<bar>of_int (sp_longitude_e6 l) - longitude * 1000000\<bar> \<le> of_int (PRECISION_QUANTUM_E6 precision) / 2 + 1 / 1000000 \<and>
    isSafeInteger (sp_captured_at_unix_ms l) \<and> 0 \<le> sp_captured_at_unix_ms l"
proof -
  obtain latitude longitude where l: "ps_latitude sample = Num latitude" "ps_longitude sample = Num longitude"
    "\<bar>latitude\<bar> \<le> 90" "\<bar>longitude\<bar> \<le> 180"
    "sp_latitude_e6 l = roundedE6 latitude (PRECISION_QUANTUM_E6 precision)"
    "sp_longitude_e6 l = roundedE6 longitude (PRECISION_QUANTUM_E6 precision)"
    "isSafeInteger (sp_captured_at_unix_ms l)" "0 \<le> sp_captured_at_unix_ms l"
    using assms by (rule sharedPhoneLocation_Inr)
  have "\<bar>latitude\<bar> \<le> 180" using l(3) by simp
  then show ?thesis
    using l roundedE6_error [OF _ quantum_divides(1)] roundedE6_within [of latitude 90 "PRECISION_QUANTUM_E6 precision"]
      roundedE6_within [of longitude 180 "PRECISION_QUANTUM_E6 precision"] quantum_divides [of precision]
    by (intro exI [of _ latitude] exI [of _ longitude]) simp
qed

theorem shared_location_quantised_witness:
  "\<exists>l. sharedPhoneLocation (sample_at (1234567 / 100000) (- 180)) Approximately100m = Inr l \<and> 1000 dvd sp_latitude_e6 l \<and>
     \<bar>of_int (sp_latitude_e6 l) - (12345670 :: rat)\<bar> \<le> 500 + 1 / 1000000"
proof -
  obtain l where l: "sharedPhoneLocation (sample_at (1234567 / 100000) (- 180)) Approximately100m = Inr l"
    by (simp add: sharedPhoneLocation_def sample_at_def finiteCoordinate_def sample_timestamp_def sample_accuracy_def js_round_def
        isSafeInteger_def MAX_SAFE_INTEGER_def)
  obtain latitude where at: "ps_latitude (sample_at (1234567 / 100000) (- 180)) = Num latitude"
    and near: "1000 dvd sp_latitude_e6 l" "\<bar>of_int (sp_latitude_e6 l) - latitude * 1000000\<bar> \<le> 1000 / 2 + 1 / 1000000"
    using shared_location_quantised [OF l] by auto
  have latitude: "latitude = 1234567 / 100000" using at by (simp add: sample_at_def eq_commute)
  show ?thesis using l near unfolding latitude by (intro exI [of _ l]) simp
qed

text \<open>
  Every field that leaves the phone fits the integer it is sent in: of an observation the millimetres and of a
  message's location the centimetres, the bearing and the seconds.
\<close>

theorem location_fields_fit:
  "messageLocationFromPhoneSample sample = Inr m \<Longrightarrow>
    \<bar>ml_latitude_e6 m\<bar> \<le> 90000000 \<and> \<bar>ml_longitude_e6 m\<bar> \<le> 180000000 \<and>
    I32_MIN \<le> ml_altitude_cm m \<and> ml_altitude_cm m \<le> I32_MAX \<and> 0 \<le> ml_speed_cm_per_second m \<and> ml_speed_cm_per_second m \<le> U32_MAX \<and>
    0 \<le> ml_bearing_centidegrees m \<and> ml_bearing_centidegrees m < 36000 \<and> 0 \<le> ml_accuracy_cm m \<and> ml_accuracy_cm m \<le> U16_MAX \<and>
    0 \<le> ml_updated_at_unix_seconds m \<and> ml_updated_at_unix_seconds m \<le> U32_MAX"
proof -
  assume m: "messageLocationFromPhoneSample sample = Inr m"
  then obtain shared where shared: "sharedPhoneLocation sample PrecisionDevice = Inr shared"
    by (auto simp: messageLocationFromPhoneSample_def split: sum.splits)
  have limits: "I32_MIN \<le> 0" "0 \<le> I32_MAX" "0 \<le> U32_MAX" "0 \<le> U16_MAX"
    by (simp_all add: I32_MIN_def I32_MAX_def U32_MAX_def U16_MAX_def)
  from shared obtain latitude longitude where "\<bar>latitude\<bar> \<le> 90" "\<bar>longitude\<bar> \<le> 180"
    "sp_latitude_e6 shared = roundedE6 latitude 1" "sp_longitude_e6 shared = roundedE6 longitude 1"
    by (rule sharedPhoneLocation_Inr) simp
  then have "\<bar>sp_latitude_e6 shared\<bar> \<le> 90000000" "\<bar>sp_longitude_e6 shared\<bar> \<le> 180000000"
    using roundedE6_within [of latitude 90 1] roundedE6_within [of longitude 180 1] by simp_all
  then show ?thesis
    using m limits bearing_within [of "ps_heading sample"] optionalScaled_within [OF limits(1,2), of "ps_altitude sample" 100]
      optionalScaled_within [OF order_refl limits(3), of "ps_speed sample" 100] roundedClamped_within [OF limits(4)]
    by (auto simp: messageLocationFromPhoneSample_def shared Let_def split: if_splits option.splits)
qed

lemma observation_fields_fit:
  assumes "attemptPhoneLocationObservation sample authorization source = Inr (LocationAvailable p)"
  shows "pred_option (\<lambda>n. 0 \<le> n \<and> n \<le> U32_MAX) (pl_horizontal_accuracy_mm p)"
    "pred_option (\<lambda>n. I32_MIN \<le> n \<and> n \<le> I32_MAX) (pl_altitude_mm p)"
    "pred_option (\<lambda>n. 0 \<le> n \<and> n \<le> U32_MAX) (pl_vertical_accuracy_mm p)"
  using assms
  by (auto simp: attemptPhoneLocationObservation_def pred_option_def dest!: optionalMillimetres_Inr split: sum.splits)

text \<open>A start that is told no, or is not told where the phone is, hands out no coordinates.\<close>

lemma telemetry_start_discreet:
  assumes "lm_services lm \<noteq> Fulfilled True \<or> (\<forall>p. lm_permission lm = Fulfilled p \<longrightarrow> \<not> lc_granted p)"
  shows "\<forall>p. LocationAvailable p \<notin> set (fst (startForegroundPhoneLocationTelemetry lm sink)) \<and>
    snd (startForegroundPhoneLocationTelemetry lm sink) \<noteq> Fulfilled True"
  using assms
  by (auto simp: startForegroundPhoneLocationTelemetry_def observe_def split: settled.splits bool.splits option.splits if_splits)

end
