(* ===== verification/NotificationPlatform.thy ===== *)
theory NotificationPlatform
  imports Notifications Preferences Doubles ApplianceViews
begin

text \<open>
  Model of \<open>lib/message-notification-platform.ts\<close>: the ledger of notifications as a JSON text in a file, the permission of the
  platform, the presentation of an inbound message and the target of an opened notification. The notification module of the
  platform is a record of its answers; the file module is that of \<open>Preferences\<close>. The argument \<open>parse\<close> of
  \<open>parseMessageNotificationLedger\<close> is here \<open>JSON.parse\<close> itself.
\<close>

section \<open>The ledger as a text\<close>

text \<open>The double that the text of a number denotes, when it is a whole number.\<close>

definition number_json :: "jstring \<Rightarrow> json" where
  "number_json t =
     (case js_Number t of
        Exact neg a b \<Rightarrow>
          let q = double_round (of_nat a / of_nat b); n = \<lfloor>q\<rfloor>
          in if of_int n = q then JInteger (if neg then - n else n) else JOtherNumber
      | _ \<Rightarrow> JOtherNumber)"

fun json_of :: "export_value \<Rightarrow> json" where
  "json_of (VBool b) = JBool b"
| "json_of (VNumber t) = number_json t"
| "json_of (VString s) = JString s"
| "json_of (VArray vs) = JArray (map json_of vs)"
| "json_of (VObject ms) = JObject (map (\<lambda>(k, v). (k, json_of v)) ms)"
| "json_of _ = JNull"

definition parse_json :: "jstring \<Rightarrow> json option" where
  "parse_json raw = map_option json_of (json_parse raw)"

text \<open>\<open>JSON.stringify\<close> of a ledger; the profiles are listed in the order of the object.\<close>

definition ledger_value :: "(jstring \<times> int) list \<Rightarrow> export_value" where
  "ledger_value profiles = VObject
     [(js ''profiles'', VObject (map (\<lambda>(k, n). (k, VObject [(js ''lastEventId'', VNumber (int_digits n))])) profiles)),
      (js ''version'', VNumber (int_digits 1))]"

definition ledger_text :: "(jstring \<times> int) list \<Rightarrow> jstring" where
  "ledger_text profiles = json_compact (ledger_value profiles)"

definition LEDGER_FILE_NAME :: jstring where
  "LEDGER_FILE_NAME = js ''reticulum-message-notifications-v1.json''"

definition LEDGER_TEMP_FILE_NAME :: jstring where
  "LEDGER_TEMP_FILE_NAME = js ''reticulum-message-notifications-v1.tmp''"

definition ledger_file_load :: "file_module \<Rightarrow> files \<Rightarrow> thrown + MessageNotificationLedger" where
  "ledger_file_load fm d =
     (if d LEDGER_FILE_NAME = None then Inr EMPTY_LEDGER
      else map_sum id (parseMessageNotificationLedger parse_json) (fm_text fm LEDGER_FILE_NAME d))"

definition ledger_file_save :: "file_module \<Rightarrow> (jstring \<times> int) list \<Rightarrow> files \<Rightarrow> files \<times> thrown option" where
  "ledger_file_save fm profiles d = file_save LEDGER_FILE_NAME LEDGER_TEMP_FILE_NAME (ledger_text profiles) fm d"

definition ledger_memory_load :: "unit \<Rightarrow> (jstring \<times> int) list \<Rightarrow> thrown + MessageNotificationLedger" where
  "ledger_memory_load _ ledger = Inr (map_of ledger)"

definition ledger_memory_save :: "unit \<Rightarrow> (jstring \<times> int) list \<Rightarrow> (jstring \<times> int) list \<Rightarrow> (jstring \<times> int) list \<times> thrown option" where
  "ledger_memory_save _ profiles ledger = (profiles, None)"

section \<open>Permission and presentation\<close>

datatype platform_os = PlatformIos | PlatformAndroid | PlatformOther

definition supportsLocalNotifications :: "platform_os \<Rightarrow> bool" where
  "supportsLocalNotifications os \<longleftrightarrow> os = PlatformIos \<or> os = PlatformAndroid"

record notification_status =
  ns_granted :: bool
  ns_canAskAgain :: bool

text \<open>A channel is whether its importance is \<open>NONE\<close>.\<close>

record notification_module =
  nm_os :: platform_os
  nm_setChannel :: "bool option settled" \<comment> \<open>\<open>setNotificationChannelAsync\<close>\<close>
  nm_getPermissions :: "notification_status settled"
  nm_requestPermissions :: "notification_status settled"
  nm_schedule :: "unit settled"

definition permissionPresentation :: "platform_os \<Rightarrow> notification_status \<Rightarrow> bool option \<Rightarrow> MessageNotificationPermission" where
  "permissionPresentation os permission channel =
     projectMessageNotificationPermission (os = PlatformAndroid \<and> channel = Some True) (ns_canAskAgain permission) (ns_granted permission)"

definition configureAndroidChannel :: "notification_module \<Rightarrow> bool option settled" where
  "configureAndroidChannel nm = (if nm_os nm \<noteq> PlatformAndroid then Fulfilled None else nm_setChannel nm)"

text \<open>The flag is \<open>platformInitialized\<close>; the number counts the calls of \<open>setNotificationHandler\<close>.\<close>

definition initializeMessageNotifications ::
  "notification_module \<Rightarrow> bool \<times> nat \<Rightarrow> MessageNotificationPermission \<times> (bool \<times> nat)" where
  "initializeMessageNotifications nm state =
     (if \<not> supportsLocalNotifications (nm_os nm) then (PermissionUnsupported, state)
      else let state' = (if fst state then state else (True, snd state + 1))
           in (case configureAndroidChannel nm of
                 Rejected err \<Rightarrow> PermissionError (errorText err)
               | Fulfilled channel \<Rightarrow>
                   (case nm_getPermissions nm of
                      Rejected err \<Rightarrow> PermissionError (errorText err)
                    | Fulfilled permission \<Rightarrow> permissionPresentation (nm_os nm) permission channel), state'))"

definition requestMessageNotificationPermission :: "notification_module \<Rightarrow> MessageNotificationPermission" where
  "requestMessageNotificationPermission nm =
     (if \<not> supportsLocalNotifications (nm_os nm) then PermissionUnsupported
      else (case configureAndroidChannel nm of
              Rejected err \<Rightarrow> PermissionError (errorText err)
            | Fulfilled channel \<Rightarrow>
                (case nm_requestPermissions nm of
                   Rejected err \<Rightarrow> PermissionError (errorText err)
                 | Fulfilled permission \<Rightarrow> permissionPresentation (nm_os nm) permission channel)))"

record scheduled_notification =
  sn_identifier :: jstring
  sn_body :: jstring
  sn_data :: "jstring \<rightharpoonup> json"
  sn_title :: jstring
  sn_channel :: "jstring option" \<comment> \<open>\<open>trigger\<close>\<close>

definition notification_data :: "jstring \<Rightarrow> jstring \<Rightarrow> jstring \<Rightarrow> jstring \<rightharpoonup> json" where
  "notification_data destination messageId profileKey =
     [js ''destination'' \<mapsto> JString destination, js ''kind'' \<mapsto> JString (js ''lxmf_message''),
      js ''messageId'' \<mapsto> JString messageId, js ''profileKey'' \<mapsto> JString profileKey]"

text \<open>What is scheduled, and what is thrown.\<close>

definition presentInboundMessageNotification ::
  "notification_module \<Rightarrow> jstring \<Rightarrow> jstring \<Rightarrow> jstring \<Rightarrow> InboundMessageNotification \<Rightarrow> scheduled_notification list \<times> unit settled" where
  "presentInboundMessageNotification nm boardLabel peerLabel profileKey notification =
     (if \<not> supportsLocalNotifications (nm_os nm) then ([], Fulfilled ())
      else (case nm_getPermissions nm of
        Rejected err \<Rightarrow> ([], Rejected err)
      | Fulfilled status \<Rightarrow>
          (case configureAndroidChannel nm of
             Rejected err \<Rightarrow> ([], Rejected err)
           | Fulfilled channel \<Rightarrow>
               let permission = permissionPresentation (nm_os nm) status channel
               in if permission \<noteq> PermissionEnabled
                  then ([], Rejected (ErrorObject
                         (case permission of
                            PermissionDisabled _ BlockedByAndroidChannel \<Rightarrow> js ''the Android LXMF notification channel is disabled''
                          | _ \<Rightarrow> js ''phone notification permission is disabled'')))
                  else ([\<lparr>sn_identifier = messageNotificationIdentifier profileKey (in_messageId notification),
                          sn_body = js ''From '' @ peerLabel @ middle_dot @ boardLabel,
                          sn_data = notification_data (in_peer notification) (in_messageId notification) profileKey,
                          sn_title = js ''New Reticulum message'',
                          sn_channel = (if nm_os nm = PlatformAndroid then Some (js ''lxmf-messages'') else None)\<rparr>],
                        nm_schedule nm))))"

text \<open>The data of the response to an opened notification, if there is any.\<close>

definition targetFromResponse :: "(jstring \<rightharpoonup> json) option \<Rightarrow> MessageNotificationTarget option" where
  "targetFromResponse data = Option.bind data parseMessageNotificationTarget"

text \<open>The state is the last response of the platform.\<close>

definition consumeInitialMessageNotificationTarget ::
  "platform_os \<Rightarrow> (jstring \<rightharpoonup> json) option \<Rightarrow> MessageNotificationTarget option \<times> (jstring \<rightharpoonup> json) option" where
  "consumeInitialMessageNotificationTarget os response =
     (if \<not> supportsLocalNotifications os then (None, response)
      else (case targetFromResponse response of
              None \<Rightarrow> (None, response)
            | Some target \<Rightarrow> (Some target, None)))"

text \<open>What the listener is called with, for the responses received while subscribed.\<close>

definition subscribed_targets :: "platform_os \<Rightarrow> (jstring \<rightharpoonup> json) option list \<Rightarrow> MessageNotificationTarget list" where
  "subscribed_targets os responses =
     (if \<not> supportsLocalNotifications os then [] else List.map_filter targetFromResponse responses)"


section \<open>The ledger is read back\<close>

text \<open>The ledgers that the reconciler saves: normalised keys, each once, with safe watermarks.\<close>

definition ledger_ok :: "(jstring \<times> int) list \<Rightarrow> bool" where
  "ledger_ok profiles \<longleftrightarrow> distinct (map fst profiles) \<and>
     list_all (\<lambda>(k, n). json_units k \<and> k \<noteq> [] \<and> normalizeProfileKey k = k \<and> isSafeEventId n) profiles"

lemma number_json_int: "isSafeEventId n \<Longrightarrow> number_json (int_digits n) = JInteger n"
proof -
  assume "isSafeEventId n"
  then have n: "0 \<le> n" "nat n < 2 ^ 53" by (auto simp: isSafeEventId_def isSafeInteger_def MAX_SAFE_INTEGER_def)
  have "js_Number (int_digits n) = Exact False (nat n) 1" using n(1) by (simp add: int_digits_def js_Number_nat_digits)
  moreover have "double_round (of_nat (nat n)) = of_nat (nat n)" using n(2) by (rule double_round_nat)
  ultimately show ?thesis using n(1) by (simp add: number_json_def Let_def)
qed

lemma parse_profiles_entries:
  assumes "ledger_ok profiles"
  shows "parse_profiles (map (\<lambda>(k, v). (k, json_of v)) (map (\<lambda>(k, n). (k, VObject [(js ''lastEventId'', VNumber (int_digits n))])) profiles)) m
    = m ++ map_of profiles"
  using assms
proof (induction profiles arbitrary: m)
  case (Cons p profiles)
  obtain k n where p: "p = (k, n)" by (cases p)
  have ok: "ledger_ok profiles" "k \<noteq> []" "normalizeProfileKey k = k" "isSafeEventId n" "k \<notin> dom (map_of profiles)"
    using Cons.prems by (auto simp: ledger_ok_def p dom_map_of_conv_image_fst)
  have "(\<lambda>a. if a = k then Some n else m a) ++ map_of profiles = m ++ (\<lambda>a. if a = k then Some n else map_of profiles a)"
    using ok(5) by (auto simp: map_add_def fun_eq_iff split: option.splits)
  then show ?case using Cons.IH [OF ok(1)] ok by (simp add: p number_json_int)
qed simp

lemma ledger_value_ok: "ledger_ok profiles \<Longrightarrow> json_ok (ledger_value profiles)"
proof -
  assume ok: "ledger_ok profiles"
  have "map fst (map (\<lambda>(k, n). (k, f n)) profiles) = map fst profiles" for f :: "int \<Rightarrow> export_value" by (induction profiles) auto
  then show ?thesis using ok json_ok_int
    by (auto simp: ledger_value_def ledger_ok_def list_all_iff json_units_def simp del: map_map)
qed

lemma ledger_value_normal: "json_normal (ledger_value profiles) = ledger_value profiles"
proof -
  have "filter (\<lambda>(k, v). \<not> is_undefined v) (map (\<lambda>(k, n). (k, VObject (f n))) profiles) = map (\<lambda>(k, n). (k, VObject (f n))) profiles"
    for f by (induction profiles) auto
  then show ?thesis by (auto simp: ledger_value_def)
qed

lemma ledger_text_read:
  assumes "ledger_ok profiles"
  shows "parseMessageNotificationLedger parse_json (ledger_text profiles) = map_of profiles"
proof -
  have "json_parse (ledger_text profiles) = Some (ledger_value profiles)"
    using json_roundtrip(2) [OF ledger_value_ok [OF assms], of "[]"] by (simp add: ledger_text_def ledger_value_normal json_blank_def)
  moreover have "isSafeEventId 1" by (simp add: isSafeEventId_def isSafeInteger_def MAX_SAFE_INTEGER_def)
  ultimately show ?thesis
    using parse_profiles_entries [OF assms, of Map.empty]
    by (simp add: parseMessageNotificationLedger_def parse_json_def ledger_value_def number_json_int del: map_map)
qed

definition ledger_of :: "jstring option \<Rightarrow> MessageNotificationLedger" where
  "ledger_of raw = (case raw of None \<Rightarrow> EMPTY_LEDGER | Some text \<Rightarrow> parseMessageNotificationLedger parse_json text)"

lemma ledger_names_differ [simp]: "LEDGER_TEMP_FILE_NAME \<noteq> LEDGER_FILE_NAME"
  by (simp add: LEDGER_TEMP_FILE_NAME_def LEDGER_FILE_NAME_def)

definition ledger_touched :: "file_module \<Rightarrow> (jstring \<times> int) list \<Rightarrow> files \<Rightarrow> bool" where
  "ledger_touched fm profiles = move_attempted LEDGER_TEMP_FILE_NAME (ledger_text profiles) fm"

interpretation ledger_file: durable_store file_module_ok ledger_ok ledger_file_load ledger_file_save ledger_touched map_of
    "\<lambda>d. ledger_of (d LEDGER_FILE_NAME)"
proof
  show "ledger = ledger_of (d LEDGER_FILE_NAME)" if "file_module_ok fm" "ledger_file_load fm d = Inr ledger" for fm d ledger
    using that file_module_laws(6) [OF that(1), of LEDGER_FILE_NAME d]
    by (cases "fm_text fm LEDGER_FILE_NAME d") (auto simp: ledger_file_load_def ledger_of_def split: if_splits)
qed (auto simp: ledger_file_save_def ledger_touched_def ledger_of_def ledger_text_read dest: file_saved [rotated 2])

interpretation ledger_memory: durable_store "\<lambda>_. True" "\<lambda>_. True" ledger_memory_load ledger_memory_save "\<lambda>_ _ _. False" map_of map_of
  by unfold_locales (auto simp: ledger_memory_load_def ledger_memory_save_def)


section \<open>Properties\<close>

text \<open>
  C17. The ledger of notifications survives a restart: after any sequence of saves in which any file operation may fail, a ledger
  that is loaded from the file has the watermarks of the last save that returned, or else those the file had before, unless
  a later save failed in the move that replaces the file (of which nothing is assumed); a save that fails earlier, in
  creating or writing the temporary file, loses nothing. Without a file the ledger is empty.
\<close>

theorem ledger_durable:
  assumes "\<forall>(fm, profiles) \<in> set calls. file_module_ok fm \<and> ledger_ok profiles" and "file_module_ok fm"
    and "save_run ledger_file_save ledger_touched map_of calls (d, Some (ledger_of (d LEDGER_FILE_NAME))) = (d', Some saved)"
    and "ledger_file_load fm d' = Inr ledger"
  shows "ledger = saved \<and> ledger_file_load fm Map.empty = Inr EMPTY_LEDGER"
  using ledger_file.load_last_saved [OF assms] by (simp add: ledger_file_load_def)

theorem ledger_durable_witness:
  "\<exists>ledger. ledger_file_load working_files
       (fst (save_run ledger_file_save ledger_touched map_of [(working_files, [(js ''ab'', 7)]), (failing_files, [])]
          (Map.empty, Some EMPTY_LEDGER)))
     = Inr ledger \<and> ledger (js ''ab'') = Some 7"
proof -
  let ?calls = "[(working_files, [(js ''ab'', 7)]), (failing_files, [])]"
  let ?run = "save_run ledger_file_save ledger_touched map_of ?calls (Map.empty, Some EMPTY_LEDGER)"
  have ok: "ledger_ok [(js ''ab'', 7)]" "ledger_ok []"
    by (simp_all add: ledger_ok_def json_units_def isSafeEventId_def isSafeInteger_def MAX_SAFE_INTEGER_def normalizeProfileKey_def
        js_trim_def is_space_def js_lower_def lower_unit_def)
  have run: "fst ?run LEDGER_FILE_NAME \<noteq> None" "snd ?run = Some (map_of [(js ''ab'', 7)])"
    by (simp_all add: ledger_file_save_def ledger_touched_def move_attempted_def file_save_def working_files_def failing_files_def)
  then obtain ledger where load: "ledger_file_load working_files (fst ?run) = Inr ledger"
    by (auto simp: ledger_file_load_def working_files_def split: option.splits)
  have "?run = (fst ?run, Some (map_of [(js ''ab'', 7)]))" using run(2) by (metis prod.collapse)
  then have "ledger = map_of [(js ''ab'', 7)]"
    using ledger_durable [of ?calls working_files Map.empty "fst ?run" "map_of [(js ''ab'', 7)]" ledger] files_ok ok load
    by (simp add: ledger_of_def)
  then show ?thesis using load by auto
qed

text \<open>
  An opened notification leads to its conversation: the data of a scheduled notification is read back as the target with the
  peer, the message and the normalised profile of the notification.
\<close>

theorem notification_opens_conversation:
  assumes "fst (presentInboundMessageNotification nm boardLabel peerLabel profileKey notification) = [scheduled]"
    and "list_all (\<lambda>s. s \<noteq> [] \<and> length s \<le> 256 \<and> js_trim s = s) [in_peer notification, in_messageId notification, profileKey]"
  shows "targetFromResponse (Some (sn_data scheduled)) = Some
    \<lparr>tg_destination = in_peer notification, tg_messageId = in_messageId notification, tg_profileKey = normalizeProfileKey profileKey\<rparr>"
proof -
  have "sn_data scheduled = notification_data (in_peer notification) (in_messageId notification) profileKey"
    using assms(1) by (auto simp: presentInboundMessageNotification_def Let_def split: if_splits settled.splits)
  then show ?thesis using assms(2)
    by (simp add: targetFromResponse_def parseMessageNotificationTarget_def notification_data_def Notifications.json_text_def)
qed

end
