(* ===== verification/HttpClient.thy ===== *)
theory HttpClient
  imports JsonText
begin

text \<open>
  Model of \<open>lib/http-appliance-client.ts\<close> and \<open>lib/api-core.ts\<close>: the client of the host service. A method is the request it
  makes, from its path, method and body, and what it makes of the answer. \<open>fetch\<close> is an argument, as are \<open>URL\<close> and
  \<open>URLSearchParams\<close>, through the parameters of the address, and the rendering of an error detail that is not a string. The bodies
  are JSON values; the decoded answers are too.
\<close>

section \<open>Requests\<close>

datatype http_method = HttpGet | HttpPost | HttpPut

record http_request =
  hq_url :: jstring
  hq_method :: http_method
  hq_headers :: "(jstring \<times> jstring) list"
  hq_body :: "jstring option"

text \<open>The body is what reading the response settles with.\<close>

record http_response =
  hs_status :: int
  hs_statusText :: jstring
  hs_body :: "jstring settled"

datatype http_error = Thrown thrown | ApiError int jstring \<comment> \<open>status, message\<close>

text \<open>What the host decides: how a detail that is not a string is rendered, and what \<open>JSON.parse\<close> throws on a text.\<close>

record http_host =
  hh_render :: "export_value \<Rightarrow> jstring"
  hh_syntax_error :: "jstring \<Rightarrow> thrown"

record http_client =
  hc_web :: bool \<comment> \<open>\<open>Platform.OS\<close> is \<open>web\<close>\<close>
  hc_origin :: jstring

definition CLIENT_HEADER :: jstring where
  "CLIENT_HEADER = js ''X-Reticulum-Client''"

definition CLIENT_HEADER_VALUE :: jstring where
  "CLIENT_HEADER_VALUE = js ''web-alpha''"

text \<open>One slash at the end is taken away.\<close>

definition normalizedOrigin :: "jstring option \<Rightarrow> jstring" where
  "normalizedOrigin v =
     (case v of
        None \<Rightarrow> []
      | Some s \<Rightarrow> let t = js_trim s in if t \<noteq> [] \<and> last t = 47 then butlast t else t)"

definition configuredApiOrigin :: "bool \<Rightarrow> jstring option \<Rightarrow> jstring" where
  "configuredApiOrigin web environment = (if web then [] else normalizedOrigin environment)"

definition http_client_new :: "bool \<Rightarrow> jstring \<Rightarrow> http_client" where
  "http_client_new web origin = \<lparr>hc_web = web, hc_origin = normalizedOrigin (Some origin)\<rparr>"

definition http_url :: "http_client \<Rightarrow> jstring \<Rightarrow> jstring" where
  "http_url c path = (if hc_origin c = [] then path else hc_origin c @ path)"

section \<open>Answers\<close>

text \<open>\<open>None\<close> is \<open>undefined\<close>.\<close>

definition decodeSuccessResponse :: "http_host \<Rightarrow> http_response \<Rightarrow> http_error + export_value option" where
  "decodeSuccessResponse host response =
     (case hs_body response of
        Rejected err \<Rightarrow> Inl (Thrown err)
      | Fulfilled body \<Rightarrow>
          if body = [] then Inr None
          else (case json_parse body of None \<Rightarrow> Inl (Thrown (hh_syntax_error host body)) | Some v \<Rightarrow> Inr (Some v)))"

text \<open>The member \<open>error\<close> of a parsed body, which \<open>null\<close> has not.\<close>

fun error_detail :: "(export_value \<Rightarrow> jstring) \<Rightarrow> export_value \<Rightarrow> jstring option" where
  "error_detail render VNull = None"
| "error_detail render (VObject ms) =
     (case map_of ms (js ''error'') of None \<Rightarrow> Some [] | Some (VString s) \<Rightarrow> Some s | Some v \<Rightarrow> Some (render v))"
| "error_detail render _ = Some []"

definition apiError :: "http_host \<Rightarrow> http_response \<Rightarrow> http_error" where
  "apiError host response =
     (let plain = int_digits (hs_status response) @ [32] @ hs_statusText response;
          parsed = (case hs_body response of Rejected err \<Rightarrow> None | Fulfilled body \<Rightarrow> json_parse body)
      in ApiError (hs_status response)
           (case Option.bind parsed (error_detail (hh_render host)) of None \<Rightarrow> plain | Some detail \<Rightarrow> detail))"

text \<open>What is fetched, and what is returned or thrown.\<close>

definition http_send ::
  "http_client \<Rightarrow> http_host \<Rightarrow> (http_request \<Rightarrow> http_response settled) \<Rightarrow> jstring \<Rightarrow> http_method \<Rightarrow> export_value option
   \<Rightarrow> http_request list \<times> (http_error + export_value option)" where
  "http_send c host fetch path method body =
     (if \<not> hc_web c \<and> hc_origin c = []
      then ([], Inl (Thrown (ErrorObject
             (js ''No appliance endpoint is configured. Set EXPO_PUBLIC_APPLIANCE_URL for the host gateway.''))))
      else let request = \<lparr>hq_url = http_url c path, hq_method = method,
                 hq_headers = (case body of None \<Rightarrow> []
                               | Some v \<Rightarrow> [(js ''Content-Type'', js ''application/json''), (CLIENT_HEADER, CLIENT_HEADER_VALUE)]),
                 hq_body = map_option json_compact body\<rparr>
           in ([request],
               case fetch request of
                 Rejected err \<Rightarrow> Inl (Thrown err)
               | Fulfilled response \<Rightarrow>
                   if hs_status response < 200 \<or> 299 < hs_status response then Inl (apiError host response)
                   else decodeSuccessResponse host response))"

section \<open>Methods\<close>

text \<open>The methods of the client that make a request, with the request they are given as a JSON value.\<close>

datatype http_call =
  HcSnapshot | HcContacts | HcConversationPeers | HcNearbyPeers | HcRadioRoutesStatus
| HcRadioTrace export_value | HcNomadFetchStart export_value | HcNomadFetchPoll export_value
| HcReticulumProbeStart export_value | HcReticulumProbePoll export_value
| HcTimeline jstring | HcMessageActivity export_value | HcUpsertContact jstring export_value
| HcSend export_value | HcRetryMessage export_value | HcSync | HcEnsureConnected | HcReconnect
| HcSession jstring \<comment> \<open>capability\<close>

fun http_route :: "http_call \<Rightarrow> jstring \<times> http_method \<times> export_value option" where
  "http_route HcSnapshot = (js ''/api/v1/snapshot'', HttpGet, None)"
| "http_route HcContacts = (js ''/api/v1/contacts'', HttpGet, None)"
| "http_route HcConversationPeers = (js ''/api/v1/conversations'', HttpGet, None)"
| "http_route HcNearbyPeers = (js ''/api/v1/nearby'', HttpGet, None)"
| "http_route HcRadioRoutesStatus = (js ''/api/v1/radio-routes'', HttpGet, None)"
| "http_route (HcRadioTrace r) = (js ''/api/v1/radio-trace/query'', HttpPost, Some r)"
| "http_route (HcNomadFetchStart r) = (js ''/api/v1/nomad/fetches'', HttpPost, Some r)"
| "http_route (HcNomadFetchPoll r) = (js ''/api/v1/nomad/fetches/poll'', HttpPost, Some r)"
| "http_route (HcReticulumProbeStart r) = (js ''/api/v1/reticulum/probes'', HttpPost, Some r)"
| "http_route (HcReticulumProbePoll r) = (js ''/api/v1/reticulum/probes/poll'', HttpPost, Some r)"
| "http_route (HcTimeline destination) = (js ''/api/v1/conversations/'' @ destination, HttpGet, None)"
| "http_route (HcMessageActivity r) = (js ''/api/v1/activity/query'', HttpPost, Some r)"
| "http_route (HcUpsertContact destination r) = (js ''/api/v1/contacts/'' @ destination, HttpPut, Some r)"
| "http_route (HcSend r) = (js ''/api/v1/messages'', HttpPost, Some r)"
| "http_route (HcRetryMessage r) = (js ''/api/v1/messages/retry'', HttpPost, Some r)"
| "http_route HcSync = (js ''/api/v1/sync'', HttpPost, Some (VObject []))"
| "http_route HcEnsureConnected = (js ''/api/v1/ensure-connected'', HttpPost, Some (VObject []))"
| "http_route HcReconnect = (js ''/api/v1/reconnect'', HttpPost, Some (VObject []))"
| "http_route (HcSession capability) = (js ''/api/v1/session'', HttpPost, Some (VObject [(js ''capability'', VString capability)]))"

definition http_perform ::
  "http_client \<Rightarrow> http_host \<Rightarrow> (http_request \<Rightarrow> http_response settled) \<Rightarrow> http_call
   \<Rightarrow> http_request list \<times> (http_error + export_value option)" where
  "http_perform c host fetch call = (case http_route call of (path, method, body) \<Rightarrow> http_send c host fetch path method body)"

text \<open>\<open>startOnboarding\<close> makes no request.\<close>

definition startOnboarding :: thrown where
  "startOnboarding = ErrorObject (js ''The host service does not provide appliance enrollment.'')"

section \<open>The session\<close>

text \<open>An address by the first value of \<open>cap\<close> in its fragment and in its query.\<close>

record capability_url =
  cu_fragment_cap :: "jstring option"
  cu_query_cap :: "jstring option"

definition capabilityFromUrl :: "capability_url \<Rightarrow> bool \<Rightarrow> jstring option" where
  "capabilityFromUrl url allowQuery =
     (let capability = (case cu_fragment_cap url of Some v \<Rightarrow> Some v | None \<Rightarrow> if allowQuery then cu_query_cap url else None)
      in if capability = None \<or> capability = Some [] then None else capability)"

text \<open>The result, and whether the fragment was taken from the address of the page.\<close>

definition bootstrapSession ::
  "http_client \<Rightarrow> http_host \<Rightarrow> (http_request \<Rightarrow> http_response settled) \<Rightarrow> capability_url option settled
   \<Rightarrow> http_request list \<times> (http_error + unit) \<times> bool" where
  "bootstrapSession c host fetch initialUrl =
     (case initialUrl of
        Rejected err \<Rightarrow> ([], Inl (Thrown err), False)
      | Fulfilled None \<Rightarrow> ([], Inr (), False)
      | Fulfilled (Some url) \<Rightarrow>
          (case capabilityFromUrl url (\<not> hc_web c) of
             None \<Rightarrow> ([], Inr (), False)
           | Some capability \<Rightarrow>
               (case http_perform c host fetch (HcSession capability) of
                  (requests, Inl err) \<Rightarrow> (requests, Inl err, False)
                | (requests, Inr _) \<Rightarrow> (requests, Inr (), hc_web c))))"

section \<open>Properties\<close>

fun call_body_ok :: "http_call \<Rightarrow> bool" where
  "call_body_ok call = (case http_route call of (path, method, body) \<Rightarrow> pred_option json_ok body)"

lemma http_route_method: "http_route call = (path, method, body) \<Longrightarrow> method = HttpGet \<longleftrightarrow> body = None"
  by (cases call) auto

text \<open>
  Every request that can change something carries the header that a page of another origin cannot set, and its body as JSON that
  is read back as it was given; a read carries neither. A client without an endpoint makes no request at all.
\<close>

theorem http_requests_guarded:
  assumes "request \<in> set (fst (http_perform c host fetch call))" and "call_body_ok call"
  shows "(hc_web c \<or> hc_origin c \<noteq> []) \<and>
    (if hq_method request = HttpGet then hq_body request = None \<and> hq_headers request = []
     else map_of (hq_headers request) CLIENT_HEADER = Some CLIENT_HEADER_VALUE \<and>
       (\<exists>v text. snd (snd (http_route call)) = Some v \<and> hq_body request = Some text \<and> json_parse text = Some (json_normal v)))"
proof -
  obtain path verb body where route: "http_route call = (path, verb, body)" by (cases "http_route call")
  have read_back: "json_parse (json_compact v) = Some (json_normal v)" if "body = Some v" for v
    using assms(2) that json_roundtrip(2) [of v "[]"] by (simp add: route json_blank_def)
  show ?thesis
    using assms(1) http_route_method [OF route] read_back
    by (auto simp: http_perform_def http_send_def route Let_def CLIENT_HEADER_def split: if_splits option.splits)
qed

text \<open>The capability leaves the address of the page only after the service has accepted it, and only on the web.\<close>

lemma capability_kept_until_accepted:
  assumes "bootstrapSession c host fetch initialUrl = (requests, result, cleared)" "cleared"
  shows "hc_web c \<and> result = Inr () \<and> length requests = 1"
  using assms
  by (auto simp: bootstrapSession_def http_perform_def http_send_def Let_def split: settled.splits option.splits sum.splits prod.splits if_splits)

lemma api_error_plain:
  assumes "Option.bind (case hs_body r of Rejected _ \<Rightarrow> None | Fulfilled b \<Rightarrow> json_parse b) (error_detail (hh_render host)) = None"
  shows "apiError host r = ApiError (hs_status r) (int_digits (hs_status r) @ [32] @ hs_statusText r)"
  using assms by (simp add: apiError_def Let_def)

end
