(* ===== verification/MapViewport.thy ===== *)
theory MapViewport
  imports TransmissionMap Doubles
begin

text \<open>
  Model of \<open>transmissionMapViewport\<close> of \<open>lib/transmission-map.ts\<close>: the centre and the zoom that show the bounds of a scene. The
  bounds of the scene are in microdegrees; the code has the doubles next to them, and computes in doubles. \<open>Math.log2\<close> is an
  argument.
\<close>

definition e6_degrees :: "int \<Rightarrow> rat" where
  "e6_degrees n = double_round (of_int n / 1000000)"

record map_viewport =
  vp_center :: "rat \<times> rat"
  vp_zoom :: rat

definition double_span :: "rat \<Rightarrow> rat \<Rightarrow> rat" where
  "double_span high low = max (double_round (1 / 10000)) (double_round (high - low))"

definition double_middle :: "rat \<Rightarrow> rat \<Rightarrow> rat" where
  "double_middle a b = double_round (double_round (a + b) / 2)"

definition transmissionMapViewport :: "(rat \<Rightarrow> rat) \<Rightarrow> TransmissionMapScene \<Rightarrow> map_viewport" where
  "transmissionMapViewport log2 scene =
     (case sc_bounds scene of
        None \<Rightarrow> \<lparr>vp_center = (0, 20), vp_zoom = 3 / 2\<rparr>
      | Some bounds \<Rightarrow>
          let east = e6_degrees (mb_east bounds); west = e6_degrees (mb_west bounds);
              north = e6_degrees (mb_north bounds); south = e6_degrees (mb_south bounds);
              longitudeSpan = double_span east west; latitudeSpan = double_span north south;
              span = max longitudeSpan (double_round (latitudeSpan * double_round (17 / 10)))
          in \<lparr>vp_center = (double_middle west east, double_middle south north),
              vp_zoom = max (3 / 2) (min 16 (double_round (log2 (double_round (360 / span)) - double_round (6 / 5))))\<rparr>)"

text \<open>An operation on degrees is off by less than a billionth of a degree.\<close>

lemma double_round_degrees: "\<bar>q\<bar> \<le> 400 \<Longrightarrow> \<bar>double_round q - q\<bar> \<le> 1 / 1000000000"
  using double_round_error [of q] by simp

lemma e6_degrees_error: "\<bar>n\<bar> \<le> 180000000 \<Longrightarrow> \<bar>e6_degrees n - of_int n / 1000000\<bar> \<le> 1 / 1000000000"
proof -
  assume "\<bar>n\<bar> \<le> 180000000"
  then have "of_int \<bar>n\<bar> \<le> (180000000 :: rat)" by (metis of_int_le_iff of_int_numeral)
  then show ?thesis unfolding e6_degrees_def by (intro double_round_degrees) simp
qed

lemma double_middle_error:
  assumes "\<bar>a\<bar> \<le> 190" "\<bar>b\<bar> \<le> 190"
  shows "\<bar>double_middle a b - (a + b) / 2\<bar> \<le> 2 / 1000000000"
proof -
  have sum: "\<bar>double_round (a + b) - (a + b)\<bar> \<le> 1 / 1000000000" using assms by (intro double_round_degrees) linarith
  then have "\<bar>double_round (a + b)\<bar> \<le> 381" using assms by linarith
  then have "\<bar>double_middle a b - double_round (a + b) / 2\<bar> \<le> 1 / 1000000000"
    unfolding double_middle_def by (intro double_round_degrees) simp
  then show ?thesis using sum unfolding abs_le_iff by (simp add: field_simps)
qed

lemma middle_degrees:
  assumes "\<bar>m\<bar> \<le> 180000000" "\<bar>n\<bar> \<le> 180000000"
  shows "\<bar>double_middle (e6_degrees m) (e6_degrees n) - of_int (m + n) / 2000000\<bar> \<le> 1 / 100000000"
proof -
  have near: "\<bar>e6_degrees m - of_int m / 1000000\<bar> \<le> 1 / 1000000000" "\<bar>e6_degrees n - of_int n / 1000000\<bar> \<le> 1 / 1000000000"
    using assms e6_degrees_error by blast+
  have "of_int \<bar>m\<bar> \<le> (180000000 :: rat)" "of_int \<bar>n\<bar> \<le> (180000000 :: rat)"
    using assms by (metis of_int_le_iff of_int_numeral)+
  then have "\<bar>e6_degrees m\<bar> \<le> 190" "\<bar>e6_degrees n\<bar> \<le> 190" using near by (simp_all only: of_int_abs)
  then have "\<bar>double_middle (e6_degrees m) (e6_degrees n) - (e6_degrees m + e6_degrees n) / 2\<bar> \<le> 2 / 1000000000"
    by (rule double_middle_error)
  then show ?thesis using near unfolding abs_le_iff by (simp add: field_simps)
qed

text \<open>
  The map is centred on the bounds, up to a hundred-millionth of a degree, and its zoom is one that the map has.
\<close>

theorem viewport_centred:
  assumes "sc_bounds scene = Some b" and "\<bar>mb_east b\<bar> \<le> 180000000" "\<bar>mb_west b\<bar> \<le> 180000000" "\<bar>mb_north b\<bar> \<le> 90000000" "\<bar>mb_south b\<bar> \<le> 90000000"
  shows "\<bar>fst (vp_center (transmissionMapViewport log2 scene)) - of_int (mb_west b + mb_east b) / 2000000\<bar> \<le> 1 / 100000000 \<and>
    \<bar>snd (vp_center (transmissionMapViewport log2 scene)) - of_int (mb_south b + mb_north b) / 2000000\<bar> \<le> 1 / 100000000 \<and>
    3 / 2 \<le> vp_zoom (transmissionMapViewport log2 scene) \<and> vp_zoom (transmissionMapViewport log2 scene) \<le> 16"
proof -
  have "\<bar>mb_south b\<bar> \<le> 180000000" "\<bar>mb_north b\<bar> \<le> 180000000" using assms(4,5) by linarith+
  then show ?thesis
    using middle_degrees [OF assms(3,2)] middle_degrees [of "mb_south b" "mb_north b"] by (simp add: transmissionMapViewport_def assms(1) Let_def)
qed

end
