(* ===== verification/Spec2Isabelle.thy ===== *)
theory Spec2Isabelle
  imports Prelude JsCollections JsText NomadBrowser Pollers ExclusiveResource LoraProfile NetworkConfig
    NetworkInput Notifications RadioRoutes ReticulumProbe PhoneLocation FieldTelemetry NearbyPeers
    MessageActivity RadioTrace TransmissionMap TransmissionMapScene NativeBridge ApplianceOwnership
    NativeClient NativeClientProofs NativeClientProperties NodeInterfaces Conversation ApplianceViews
    PagedReads ApplianceSession ApplianceSessionProofs ApplianceSessionProperties JsonText RadioTraceExport
    ApplianceTools Preferences Doubles LocationCapture NotificationPlatform HttpClient MapViewport
begin

text \<open>
  Verification of the appliance client of \<^verbatim>\<open>reticulum-rs-firmware\<close>: the TypeScript application under
  \<^verbatim>\<open>src/clients/appliance\<close> that manages a Reticulum LoRa appliance from a phone or a browser. Its logic lives in
  \<^verbatim>\<open>src/clients/appliance/src/lib\<close>: asynchronous controllers that own one device operation each and publish a
  presentation state, pure modules that check input, derive settings and present records, and a thin platform layer.
  File names below are relative to that directory.

  \<^bold>\<open>How the program is modelled.\<close> A JavaScript string is its list of UTF-16 code units; safe integers are \<open>int\<close> or \<open>nat\<close>,
  intervals and clock readings, which may have fractions, are \<open>rat\<close>;
  quotients that are rendered go through an exact model of double division and \<open>toFixed\<close>. A controller is a record of its
  private fields. Every public method, and every continuation of an asynchronous method after an \<open>await\<close>, is one function on
  that record; a suspended continuation is kept in the record, so that a step relation can resume it at any time and in any
  order. Promises of the device, of storage and of the platform are settled by the environment, with a value or a thrown
  value; clock readings and random keys are arguments. What listeners were shown is recorded, so that statements about
  notifications can be made. Listeners are not re-entrant: a listener that calls back into its controller is not modelled.

  \<^bold>\<open>The theories.\<close>
  \<^item> \<open>Prelude\<close>: strings, digits, double division, thrown values and settled promises; the contracts the controllers share, as
    locales: an invariant of a step relation, the generation guard (a superseded run stays superseded), disposal, and both.
  \<^item> \<open>JsCollections\<close>: \<open>Map\<close>, \<open>Set\<close> and stable sorting; the law of grouping rows under keys, and the choice of the first best row.
  \<^item> \<open>JsText\<close>: search and fixed-point text; the newest-first feed as a locale.
  \<^item> \<open>NomadBrowser\<close> (\<^verbatim>\<open>nomad-browser.ts\<close>): page fetches, cancellation and paging; paging has fuel, one unit per page the
    device may still announce, and the theorem on it shows that this is enough.
  \<^item> \<open>Pollers\<close> (\<^verbatim>\<open>settled-poll.ts\<close>, \<^verbatim>\<open>foreground-nearby-poll.ts\<close>, \<^verbatim>\<open>foreground-reconnect.ts\<close>, \<^verbatim>\<open>latest-request.ts\<close>): polls never
    overlap and wait a full interval after they settle.
  \<^item> \<open>ExclusiveResource\<close> (\<^verbatim>\<open>exclusive-resource.ts\<close>): one owner at a time, in the order of the calls.
  \<^item> \<open>LoraProfile\<close> (\<^verbatim>\<open>lora-radio-profile.ts\<close>): presets, the import of configurations, the draft round trip, and
    validation, which is exact for a literal table of channels.
  \<^item> \<open>NetworkConfig\<close> (\<^verbatim>\<open>network-config.ts\<close>): the configuration controller: one mutation at a time, retry of the same request,
    detachment when the board changes.
  \<^item> \<open>NetworkInput\<close> (\<^verbatim>\<open>network-config-input.ts\<close>, \<^verbatim>\<open>limits.ts\<close>, \<^verbatim>\<open>bytes-text.ts\<close>, \<^verbatim>\<open>public-reticulum-endpoints.ts\<close>,
    \<^verbatim>\<open>lxmf-message-size.ts\<close>): UTF-8 lengths, input checks and the LXMF payload budget.
  \<^item> \<open>Notifications\<close> (\<^verbatim>\<open>message-notifications.ts\<close>): watermarks; while saves succeed and the journal
    is not behind the watermark no inbound message is notified twice, and a successful pass over a journal skips none.
  \<^item> \<open>RadioRoutes\<close> (\<^verbatim>\<open>radio-routes.ts\<close>, \<^verbatim>\<open>reticulum-interface-id.ts\<close>): the diagnostics reader and interface identities.
  \<^item> \<open>ReticulumProbe\<close> (\<^verbatim>\<open>reticulum-probe.ts\<close>): the path probe, with its retained device operation.
  \<^item> \<open>PhoneLocation\<close>, \<open>FieldTelemetry\<close> (\<^verbatim>\<open>field-telemetry.ts\<close>): the owner of the phone's location subscription: no live
    subscription without consent, samples stop at once, a start is never forgotten.
  \<^item> \<open>NearbyPeers\<close> (\<^verbatim>\<open>nearby-peers.ts\<close>): grouping of announce observations into contacts and observers.
  \<^item> \<open>MessageActivity\<close> (\<^verbatim>\<open>message-activity.ts\<close>) and \<open>RadioTrace\<close> (\<^verbatim>\<open>radio-trace.ts\<close>): the two feeds and their presentation.
  \<^item> \<open>TransmissionMap\<close> (\<^verbatim>\<open>transmission-map.ts\<close>) and \<open>TransmissionMapScene\<close>: the field-test map and its properties: unique
    feature identities with their details, tight bounds, exact selection, a chronological track.
  \<^item> \<open>NativeBridge\<close> (\<^verbatim>\<open>native-contract.ts\<close>, \<^verbatim>\<open>native-error.ts\<close>, \<^verbatim>\<open>file-uri.ts\<close>): the contract check, error texts and document URIs.
  \<^item> \<open>ApplianceOwnership\<close>: the protocol by which the calls of a client hold the native appliance; one appliance at a time,
    in order, and none lost. \<open>NativeClient\<close> (\<^verbatim>\<open>native-appliance-client.ts\<close>): the client's methods as interleaved tasks over the
    queue of \<open>ExclusiveResource\<close>; \<open>NativeClientProofs\<close>: its refinement of the protocol, serial switches and verified
    enrolment; \<open>NativeClientProperties\<close>: the sequential specification of a switch, met by every run that does not
    disturb it, faults, disposal and executable runs.
  \<^item> \<open>NodeInterfaces\<close> (\<^verbatim>\<open>node-interfaces.ts\<close>, \<^verbatim>\<open>tcp-runtime-diagnostics.ts\<close>, \<^verbatim>\<open>rmap-runtime-diagnostics.ts\<close>): the rows of the
    interfaces and their diagnostics; what is shown online is online, and every interface has one row.
  \<^item> \<open>Conversation\<close> (\<^verbatim>\<open>message-actions.ts\<close>, \<^verbatim>\<open>draft.ts\<close>, \<^verbatim>\<open>message-submit-ui.ts\<close> and the contact helpers) and \<open>ApplianceViews\<close>
    (\<^verbatim>\<open>appliance-status.ts\<close>, \<^verbatim>\<open>appliance-profiles.ts\<close>, \<^verbatim>\<open>onboarding.ts\<close>, \<^verbatim>\<open>navigation.ts\<close>, \<^verbatim>\<open>http-projection.ts\<close>): the pure helpers of the
    screens.
  \<^item> \<open>PagedReads\<close>: the paged histories of \<^verbatim>\<open>appliance-context.tsx\<close> and the complete collection of \<^verbatim>\<open>radio-trace-export.ts\<close>;
    the
    pages are segments of what the store recorded, also while it deletes old events; the collection terminates because the cursors it has seen grow within the safe integers.
  \<^item> \<open>ApplianceSession\<close> (\<^verbatim>\<open>appliance-context.tsx\<close>): the session of \<open>ApplianceProvider\<close>, its refresh, lock, profile operations,
    enrolment, conversations and messages, as handlers and settlements in any order; \<open>ApplianceSessionProofs\<close>: its
    invariants; \<open>ApplianceSessionProperties\<close>: one mutation at a time, the scope of what is shown, the identity of messages and
    retries, and what forgetting a profile reports.
  \<^item> \<open>JsonText\<close>: JSON values, \<open>JSON.stringify\<close> and \<open>JSON.parse\<close>, and the grammar of JSON as rules; every text of the grammar is read, and
    what is written is a text of the grammar. The fuel of the reader is above the length of the text, which is enough.
  \<^item> \<open>RadioTraceExport\<close> (\<^verbatim>\<open>radio-trace-export.ts\<close>): the exported document, its file name, JSON and CSV texts; a reader of CSV tables
    and \<open>JSON.parse\<close> read everything back.
  \<^item> \<open>ApplianceTools\<close> (\<^verbatim>\<open>appliance-context.tsx\<close>): the firmware update, the evidence of a map feature and the label of the appliance,
    while the active appliance changes under them.
  \<^item> \<open>Preferences\<close> (\<^verbatim>\<open>field-telemetry-preference.ts\<close>, \<^verbatim>\<open>message-location-preference.ts\<close> and their native variants): the opt-in settings
    and their stores; all six stores interpret the contract that what is loaded was saved last with success, unless a later save
    failed in the step that replaces it.
  \<^item> \<open>Doubles\<close>: the arithmetic of doubles on rationals and its error. \<open>LocationCapture\<close> (\<^verbatim>\<open>phone-location.ts\<close>, \<^verbatim>\<open>message-location.ts\<close>):
    the conversion of a fix; the grid, the error and the integer ranges of what is shared. \<open>MapViewport\<close>: the viewport of the map.
  \<^item> \<open>NotificationPlatform\<close> (\<^verbatim>\<open>message-notification-platform.ts\<close>): the ledger file, which keeps the same contract, and the permission,
    presentation and targets of notifications.
  \<^item> \<open>HttpClient\<close> (\<^verbatim>\<open>http-appliance-client.ts\<close>, \<^verbatim>\<open>api-core.ts\<close>): the requests of the client of the host service and their answers; what
    can change something carries the client header and a body that is read back.
  \<^bold>\<open>What the lemmas show.\<close> For the controllers: an invariant kept by every step, which relates the presentation to the
  operation that serves it; that a superseded or disposed run changes nothing any more; that a state that shows work in progress
  has a continuation that will end it; and the behaviour of each operation on its error branches. For the pure modules:
  equivalence with a declarative reference, round trips, bounds, and which inputs are refused. Every property of the
  development is numbered in the theory that states it.

  \<^bold>\<open>Parameters.\<close> The locale-dependent library functions (\<open>Intl.DateTimeFormat\<close>, \<open>toLocaleLowerCase\<close>) are fields of \<open>js_host\<close>.
  \<open>localeCompare\<close> is applied by the client to strings over digits and lower-case letters; on these it is the order by code unit.
  The map sorts identities by \<open>localeCompare\<close>, which is a parameter as a collation key; the texts of great-circle distances are
  the parameter \<open>map_metric\<close>.
  The file module, the location module and the notification module of the phone are parameters: the first as operations that may
  fail, with what the stores rely on as \<open>file_module_ok\<close>; the others as their answers. So are \<open>fetch\<close> and \<open>Math.log2\<close>.
  \<^bold>\<open>Not modelled.\<close> React components and hooks (rendering around the controllers), the HTTP transport (\<open>fetch\<close>), platform modules
  (notifications, secure random numbers, file system, share sheet), generated bindings, the bundled web asset, and the Rust
  crates and firmware of the repository, which are separate programs. The literals of the map style are left out, and so is the
  event source of the HTTP client.
\<close>

end
